(* ===== verification/Platform_Prelude.thy ===== *)
theory Platform_Prelude
  imports Main "HOL-Library.Char_ord" "HOL-Library.List_Lexorder"
begin

text \<open>
  What the components share. Python values: a \<open>str\<close> is the list of the bytes of its UTF-8
  encoding (comparison, concatenation, prefix tests and ordering agree with Python's; character
  classes are those of ASCII, and every byte of a non-ASCII character counts as a letter without
  case), a \<open>UUID\<close> is its canonical text, a \<open>date\<close> is its proleptic ordinal
  (\<open>date.toordinal\<close>), an instant is a number of microseconds on the same scale (day \<open>n\<close>
  starts at \<open>n * day_us\<close>), and a decoded JSON document is a \<open>json\<close> tree. Exceptions are
  values of \<open>exn\<close>; a method that awaits, mutates or raises is an action \<open>('w, 'a) act\<close>.
  Message texts of exceptions are not kept: no code path reads them.
\<close>

named_theorems act_simps "equations of the action combinators"

section \<open>Types and exceptions\<close>

type_synonym uuid = string
type_synonym date = int
type_synonym instant = int

datatype json =
    JNull
  | JBool bool
  | JInt int
  | JFloat int nat
  | JStr string
  | JList "json list"
  | JObj "(string \<times> json) list"

datatype exn =
    ValueError
  | ValidationError                          \<comment> \<open>pydantic, a subclass of ValueError\<close>
  | TypeError
  | RuntimeError
  | AssertionError
  | IntegrityError                           \<comment> \<open>a constraint violated in the database\<close>
  | ProviderError string string bool         \<comment> \<open>class name, code, retryable\<close>
  | RetryableScheduledTaskError
  | SchedulerNotConfiguredError
  | IngestionRunInProgressError
  | ReportDayPolicyUnavailableError          \<comment> \<open>a subclass of ValueError\<close>
  | FeishuTransportError string "json option" bool bool  \<comment> \<open>code, payload, retryable, outcome unknown\<close>
  | ReportDeliveryError
  | ManualDeliveryRetryError string          \<comment> \<open>code; a subclass of ReportDeliveryError\<close>
  | DeliveryRecoveryError string             \<comment> \<open>code\<close>
  | ReportGenerationError
  | ReportValidationError
  | LlmError
  | LlmTimeoutError                          \<comment> \<open>a subclass of LlmError\<close>
  | LlmStructuredOutputError                 \<comment> \<open>a subclass of LlmError\<close>
  | TimeoutError
  | OtherError string                        \<comment> \<open>any other class, by name\<close>

text \<open>\<open>type(error).__name__\<close>.\<close>

fun exn_name :: "exn \<Rightarrow> string" where
  "exn_name ValueError = ''ValueError''"
| "exn_name ValidationError = ''ValidationError''"
| "exn_name TypeError = ''TypeError''"
| "exn_name RuntimeError = ''RuntimeError''"
| "exn_name AssertionError = ''AssertionError''"
| "exn_name IntegrityError = ''IntegrityError''"
| "exn_name (ProviderError c _ _) = c"
| "exn_name RetryableScheduledTaskError = ''RetryableScheduledTaskError''"
| "exn_name SchedulerNotConfiguredError = ''SchedulerNotConfiguredError''"
| "exn_name IngestionRunInProgressError = ''IngestionRunInProgressError''"
| "exn_name ReportDayPolicyUnavailableError = ''ReportDayPolicyUnavailableError''"
| "exn_name (FeishuTransportError _ _ _ _) = ''FeishuTransportError''"
| "exn_name ReportDeliveryError = ''ReportDeliveryError''"
| "exn_name (ManualDeliveryRetryError _) = ''ManualDeliveryRetryError''"
| "exn_name (DeliveryRecoveryError _) = ''DeliveryRecoveryError''"
| "exn_name ReportGenerationError = ''ReportGenerationError''"
| "exn_name ReportValidationError = ''ReportValidationError''"
| "exn_name LlmError = ''LlmError''"
| "exn_name LlmTimeoutError = ''LlmTimeoutError''"
| "exn_name LlmStructuredOutputError = ''LlmStructuredOutputError''"
| "exn_name TimeoutError = ''TimeoutError''"
| "exn_name (OtherError c) = c"

section \<open>Actions\<close>

text \<open>
  An action takes the state of the world and returns the outcome (\<open>Inl\<close> the exception) with
  the state reached; what was written before an exception stays written.
\<close>

type_synonym ('w, 'a) act = "'w \<Rightarrow> (exn + 'a) \<times> 'w"

definition ret :: "'a \<Rightarrow> ('w, 'a) act" where
  "ret a w = (Inr a, w)"

definition throw :: "exn \<Rightarrow> ('w, 'a) act" where
  "throw e w = (Inl e, w)"

definition bindA :: "('w, 'a) act \<Rightarrow> ('a \<Rightarrow> ('w, 'b) act) \<Rightarrow> ('w, 'b) act" where
  "bindA m f w = (case m w of (Inl e, w') \<Rightarrow> (Inl e, w') | (Inr a, w') \<Rightarrow> f a w')"

definition tryA :: "('w, 'a) act \<Rightarrow> (exn \<Rightarrow> ('w, 'b) act) \<Rightarrow> ('a \<Rightarrow> ('w, 'b) act) \<Rightarrow> ('w, 'b) act" where
  "tryA m h f w = (case m w of (Inl e, w') \<Rightarrow> h e w' | (Inr a, w') \<Rightarrow> f a w')"

definition liftA :: "exn + 'a \<Rightarrow> ('w, 'a) act" where
  "liftA r w = (r, w)"

definition bindE :: "'e + 'a \<Rightarrow> ('a \<Rightarrow> 'e + 'b) \<Rightarrow> 'e + 'b" where
  "bindE m f = (case m of Inl e \<Rightarrow> Inl e | Inr a \<Rightarrow> f a)"

lemma ret_apply [simp, act_simps]: "ret a w = (Inr a, w)"
  by (simp add: ret_def)

lemma throw_apply [simp, act_simps]: "throw e w = (Inl e, w)"
  by (simp add: throw_def)

lemma liftA_apply [simp, act_simps]: "liftA r w = (r, w)"
  by (simp add: liftA_def)

lemma bindA_Inr [act_simps]: "m w = (Inr a, w') \<Longrightarrow> bindA m f w = f a w'"
  by (simp add: bindA_def)

lemma bindA_Inl [act_simps]: "m w = (Inl e, w') \<Longrightarrow> bindA m f w = (Inl e, w')"
  by (simp add: bindA_def)

lemma tryA_Inr [act_simps]: "m w = (Inr a, w') \<Longrightarrow> tryA m h f w = f a w'"
  by (simp add: tryA_def)

lemma tryA_Inl [act_simps]: "m w = (Inl e, w') \<Longrightarrow> tryA m h f w = h e w'"
  by (simp add: tryA_def)

lemma bindA_eq: "bindA m f w = (r, w') \<longleftrightarrow>
    (\<exists>e. m w = (Inl e, w') \<and> r = Inl e) \<or> (\<exists>a w1. m w = (Inr a, w1) \<and> f a w1 = (r, w'))"
  by (auto simp: bindA_def split: prod.splits sum.splits)

lemma tryA_eq: "tryA m h f w = (r, w') \<longleftrightarrow>
    (\<exists>e w1. m w = (Inl e, w1) \<and> h e w1 = (r, w')) \<or> (\<exists>a w1. m w = (Inr a, w1) \<and> f a w1 = (r, w'))"
  by (auto simp: tryA_def split: prod.splits sum.splits)

lemma bindE_Inl [simp]: "bindE (Inl e) f = Inl e"
  by (simp add: bindE_def)

lemma bindE_Inr [simp]: "bindE (Inr a) f = f a"
  by (simp add: bindE_def)

lemma bindE_eq_Inr: "bindE m f = Inr b \<longleftrightarrow> (\<exists>a. m = Inr a \<and> f a = Inr b)"
  by (cases m) simp_all

text \<open>A comprehension whose body may raise: the first exception ends it.\<close>

fun mapE :: "('a \<Rightarrow> 'e + 'b) \<Rightarrow> 'a list \<Rightarrow> 'e + 'b list" where
  "mapE f [] = Inr []"
| "mapE f (x # xs) = bindE (f x) (\<lambda>y. bindE (mapE f xs) (\<lambda>ys. Inr (y # ys)))"

lemma mapE_eq_Inr: "mapE f xs = Inr ys \<longleftrightarrow> list_all2 (\<lambda>x y. f x = Inr y) xs ys"
  by (induction xs arbitrary: ys) (auto simp: bindE_eq_Inr list_all2_Cons1)

text \<open>\<open>max(xs, key=f)\<close> of \<open>a # xs\<close>: the first of the greatest.\<close>

fun max_on :: "('a \<Rightarrow> 'k::linorder) \<Rightarrow> 'a \<Rightarrow> 'a list \<Rightarrow> 'a" where
  "max_on f a [] = a"
| "max_on f a (b # bs) = max_on f (if f a < f b then b else a) bs"

lemma max_on_greatest: "max_on f a bs \<in> set (a # bs) \<and> (\<forall>b \<in> set (a # bs). f b \<le> f (max_on f a bs))"
proof (induction bs arbitrary: a)
  case (Cons b bs)
  show ?case using Cons [of "if f a < f b then b else a"] by (auto split: if_splits)
qed simp

lemma insort_key_map: "insort_key k (g x) (map g xs) = map g (insort_key (\<lambda>x. k (g x)) x xs)"
  by (induction xs) simp_all

lemma sort_key_map: "sort_key k (map g xs) = map g (sort_key (\<lambda>x. k (g x)) xs)"
  by (induction xs) (simp_all add: insort_key_map)

text \<open>
  A relation between the states before and after that holds of each part holds of the whole:
  the rule by which frame and monotonicity facts pass through the combinators.
\<close>

definition keeps :: "('w \<Rightarrow> 'w \<Rightarrow> bool) \<Rightarrow> ('w, 'a) act \<Rightarrow> bool" where
  "keeps R m \<longleftrightarrow> (\<forall>w. R w (snd (m w)))"

lemma keepsD: "keeps R m \<Longrightarrow> m w = (r, w') \<Longrightarrow> R w w'"
  unfolding keeps_def by (metis snd_conv)

lemma keeps_ret: "reflp R \<Longrightarrow> keeps R (ret a)"
  by (simp add: keeps_def reflp_def)

lemma keeps_throw: "reflp R \<Longrightarrow> keeps R (throw e)"
  by (simp add: keeps_def reflp_def)

lemma keeps_bindA:
  assumes "transp R" "keeps R m" "\<And>a. keeps R (f a)"
  shows "keeps R (bindA m f)"
proof (unfold keeps_def, rule allI)
  fix w
  obtain r w' where m: "m w = (r, w')" by fastforce
  have 1: "R w w'" using assms(2) m by (rule keepsD)
  show "R w (snd (bindA m f w))"
  proof (cases r)
    case Inl
    then show ?thesis using 1 m by (simp add: bindA_def)
  next
    case (Inr a)
    have "R w' (snd (f a w'))" using assms(3) by (simp add: keeps_def)
    then have "R w (snd (f a w'))" using 1 assms(1) by (meson transpD)
    then show ?thesis using Inr m by (simp add: bindA_def)
  qed
qed

lemma keeps_tryA:
  assumes "transp R" "keeps R m" "\<And>e. keeps R (h e)" "\<And>a. keeps R (f a)"
  shows "keeps R (tryA m h f)"
proof (unfold keeps_def, rule allI)
  fix w
  obtain r w' where m: "m w = (r, w')" by fastforce
  have 1: "R w w'" using assms(2) m by (rule keepsD)
  have 2: "R w' (snd (h e w'))" "R w' (snd (f a w'))" for e a
    using assms(3,4) by (simp_all add: keeps_def)
  show "R w (snd (tryA m h f w))"
    by (cases r) (use 1 2 m assms(1) in \<open>auto simp: tryA_def dest: transpD\<close>)
qed

lemma keeps_if: "keeps R m \<Longrightarrow> keeps R n \<Longrightarrow> keeps R (if b then m else n)"
  by simp

lemma keeps_option: "keeps R m \<Longrightarrow> (\<And>x. keeps R (f x)) \<Longrightarrow> keeps R (case z of None \<Rightarrow> m | Some x \<Rightarrow> f x)"
  by (cases z) simp_all

lemma keeps_liftA: "reflp R \<Longrightarrow> keeps R (liftA r)"
  by (simp add: keeps_def reflp_def)

lemmas keeps_control = keeps_if keeps_option keeps_bindA keeps_tryA keeps_ret keeps_throw keeps_liftA

section \<open>Strings\<close>

definition is_digit :: "char \<Rightarrow> bool" where
  "is_digit c \<longleftrightarrow> 48 \<le> (of_char c :: nat) \<and> (of_char c :: nat) \<le> 57"

definition is_upper :: "char \<Rightarrow> bool" where
  "is_upper c \<longleftrightarrow> 65 \<le> (of_char c :: nat) \<and> (of_char c :: nat) \<le> 90"

definition is_lower :: "char \<Rightarrow> bool" where
  "is_lower c \<longleftrightarrow> 97 \<le> (of_char c :: nat) \<and> (of_char c :: nat) \<le> 122"

definition is_alnum :: "char \<Rightarrow> bool" where
  "is_alnum c \<longleftrightarrow> is_digit c \<or> is_upper c \<or> is_lower c \<or> 128 \<le> (of_char c :: nat)"

definition to_lower :: "char \<Rightarrow> char" where
  "to_lower c = (if is_upper c then char_of ((of_char c :: nat) + 32) else c)"

definition to_upper :: "char \<Rightarrow> char" where
  "to_upper c = (if is_lower c then char_of ((of_char c :: nat) - 32) else c)"

definition is_space :: "char \<Rightarrow> bool" where
  "is_space c \<longleftrightarrow> (let n = (of_char c :: nat) in (9 \<le> n \<and> n \<le> 13) \<or> (28 \<le> n \<and> n \<le> 32))"

definition strip :: "string \<Rightarrow> string" where
  "strip s = rev (dropWhile is_space (rev (dropWhile is_space s)))"

definition lower :: "string \<Rightarrow> string" where
  "lower s = map to_lower s"

definition upper :: "string \<Rightarrow> string" where
  "upper s = map to_upper s"

definition starts_with :: "string \<Rightarrow> string \<Rightarrow> bool" where
  "starts_with p s \<longleftrightarrow> take (length p) s = p"

fun contains :: "string \<Rightarrow> string \<Rightarrow> bool" where
  "contains p [] = (p = [])"
| "contains p (c # cs) = (starts_with p (c # cs) \<or> contains p cs)"

fun join :: "string \<Rightarrow> string list \<Rightarrow> string" where
  "join sep [] = []"
| "join sep [s] = s"
| "join sep (s # t # ts) = s @ sep @ join sep (t # ts)"

lemma starts_with_append [simp]: "starts_with p (p @ s)"
  by (simp add: starts_with_def)

lemma starts_with_iff: "starts_with p s \<longleftrightarrow> (\<exists>r. s = p @ r)"
  by (metis starts_with_def append_take_drop_id append_eq_conv_conj)

text \<open>Decimal text of an integer, \<open>str(int)\<close>, and its zero-padded form.\<close>

definition digit_char :: "nat \<Rightarrow> char" where
  "digit_char d = char_of (48 + d mod 10)"

fun nat_digits :: "nat \<Rightarrow> string" where
  "nat_digits n = (if n < 10 then [digit_char n] else nat_digits (n div 10) @ [digit_char n])"

declare nat_digits.simps [simp del]

definition int_str :: "int \<Rightarrow> string" where
  "int_str i = (if i < 0 then ''-'' @ nat_digits (nat (- i)) else nat_digits (nat i))"

definition pad0 :: "nat \<Rightarrow> string \<Rightarrow> string" where
  "pad0 n s = replicate (n - length s) CHR ''0'' @ s"

lemma nat_digits_nonempty [simp]: "nat_digits n \<noteq> []"
  by (subst nat_digits.simps) simp

lemma int_str_nonempty [simp]: "int_str i \<noteq> []"
  by (simp add: int_str_def)

section \<open>Lists: sets and dictionaries in insertion order\<close>

text \<open>
  \<open>tuple(dict.fromkeys(xs))\<close> keeps the first occurrence of each element;
  \<open>sorted(set)\<close> sorts without duplicates.
\<close>

fun dedup :: "'a list \<Rightarrow> 'a list" where
  "dedup [] = []"
| "dedup (x # xs) = x # removeAll x (dedup xs)"

definition sorted_set :: "'a::linorder list \<Rightarrow> 'a list" where
  "sorted_set xs = sort (remdups xs)"

lemma set_dedup [simp]: "set (dedup xs) = set xs"
  by (induction xs) auto

lemma distinct_dedup [simp]: "distinct (dedup xs)"
  by (induction xs) (auto simp: distinct_removeAll)

lemma dedup_distinct: "distinct xs \<Longrightarrow> dedup xs = xs"
  by (induction xs) (auto simp: removeAll_id)

lemma dedup_idem [simp]: "dedup (dedup xs) = dedup xs"
  by (simp add: dedup_distinct)

lemma set_sorted_set [simp]: "set (sorted_set xs) = set xs"
  by (simp add: sorted_set_def)

lemma distinct_sorted_set [simp]: "distinct (sorted_set xs)"
  by (simp add: sorted_set_def)

lemma sorted_sorted_set [simp]: "sorted (sorted_set xs)"
  by (simp add: sorted_set_def)

lemma sorted_set_cong: "set xs = set ys \<Longrightarrow> sorted_set xs = sorted_set ys"
  by (simp add: sorted_set_def sorted_list_of_set_sort_remdups [symmetric])

end
