(* ===== verification/Table_Store.thy ===== *)
theory Table_Store
  imports Platform_Prelude
begin

text \<open>
  The statements the repositories send to PostgreSQL, on a table that is the list of its rows. One
  statement is atomic. \<open>INSERT ... ON CONFLICT DO NOTHING ... RETURNING\<close> inserts unless a row
  conflicts; a violated primary key that the statement does not name raises \<open>IntegrityError\<close>.
  \<open>UPDATE ... WHERE ... RETURNING\<close> rewrites every row that matches. The locale \<open>keyed_rows\<close>
  is what the repositories rely on: rows found by key, and updates that keep the key.
\<close>

section \<open>Columns\<close>

text \<open>
  The number of characters of a text; the limits of a \<open>String(n)\<close> column, of a bounded contract field
  and of an \<open>Integer\<close> column.
\<close>

definition ulen :: "string \<Rightarrow> nat" where
  "ulen s = length (filter (\<lambda>c. \<not> (128 \<le> (of_char c :: nat) \<and> (of_char c :: nat) < 192)) s)"

definition opt_len_ok :: "nat \<Rightarrow> string option \<Rightarrow> bool" where
  "opt_len_ok hi s = (case s of None \<Rightarrow> True | Some t \<Rightarrow> 1 \<le> ulen t \<and> ulen t \<le> hi)"

definition len_ok :: "nat \<Rightarrow> string \<Rightarrow> bool" where
  "len_ok hi s \<longleftrightarrow> 1 \<le> ulen s \<and> ulen s \<le> hi"

definition column_fits :: "nat \<Rightarrow> string option \<Rightarrow> bool" where
  "column_fits n s = (case s of None \<Rightarrow> True | Some t \<Rightarrow> ulen t \<le> n)"

definition int4_fits :: "int \<Rightarrow> bool" where
  "int4_fits n \<longleftrightarrow> - (2 ^ 31) \<le> n \<and> n < 2 ^ 31"

section \<open>Statements\<close>

definition insert_on_conflict ::
    "('r \<Rightarrow> 'r \<Rightarrow> bool) \<Rightarrow> ('r \<Rightarrow> 'r \<Rightarrow> bool) \<Rightarrow> 'r \<Rightarrow> 'r list \<Rightarrow> (exn + bool) \<times> 'r list" where
  "insert_on_conflict named other row t =
     (if \<exists>r \<in> set t. named row r then (Inr False, t)
      else if \<exists>r \<in> set t. other row r then (Inl IntegrityError, t)
      else (Inr True, t @ [row]))"

definition update_where :: "('r \<Rightarrow> bool) \<Rightarrow> ('r \<Rightarrow> 'r) \<Rightarrow> 'r list \<Rightarrow> bool \<times> 'r list" where
  "update_where p f t = ((\<exists>r \<in> set t. p r), map (\<lambda>r. if p r then f r else r) t)"

definition select_one :: "('r \<Rightarrow> bool) \<Rightarrow> 'r list \<Rightarrow> 'r option" where
  "select_one p t = find p t"

text \<open>
  \<open>UnitOfWork.transaction\<close>: an exception inside the block rolls back what the block wrote.
\<close>

definition transaction :: "('w, 'a) act \<Rightarrow> ('w, 'a) act" where
  "transaction m w = (case m w of (Inl e, _) \<Rightarrow> (Inl e, w) | (Inr a, w') \<Rightarrow> (Inr a, w'))"

lemma transaction_Inl: "transaction m w = (Inl e, w') \<Longrightarrow> w' = w"
  by (auto simp: transaction_def split: prod.splits sum.splits)

lemma transaction_Inr: "transaction m w = (Inr a, w') \<longleftrightarrow> m w = (Inr a, w')"
  by (auto simp: transaction_def split: prod.splits sum.splits)

lemma insert_on_conflict_cases:
  obtains (conflict) "insert_on_conflict n u row t = (Inr False, t)" "\<exists>r \<in> set t. n row r"
  | (violation) "insert_on_conflict n u row t = (Inl IntegrityError, t)"
  | (inserted) "insert_on_conflict n u row t = (Inr True, t @ [row])"
      "\<not> (\<exists>r \<in> set t. n row r)" "\<not> (\<exists>r \<in> set t. u row r)"
proof -
  show thesis
  proof (cases "\<exists>r \<in> set t. n row r")
    case True
    then show thesis using conflict by (simp add: insert_on_conflict_def)
  next
    case f: False
    show thesis
    proof (cases "\<exists>r \<in> set t. u row r")
      case True
      then show thesis using f violation by (simp add: insert_on_conflict_def)
    next
      case False
      then show thesis using f inserted by (simp add: insert_on_conflict_def)
    qed
  qed
qed

lemma update_where_False: "fst (update_where p f t) = False \<Longrightarrow> snd (update_where p f t) = t"
  by (simp add: update_where_def map_idI)

lemma length_update_where [simp]: "length (snd (update_where p f t)) = length t"
  by (simp add: update_where_def)

section \<open>Rows found by key\<close>

lemma filter_unique: "distinct (map f xs) \<Longrightarrow> v \<in> set xs \<Longrightarrow> f v = k \<Longrightarrow> filter (\<lambda>x. f x = k) xs = [v]"
  by (induction xs) (auto simp: filter_empty_conv rev_image_eqI)

locale keyed_rows =
  fixes key :: "'r \<Rightarrow> 'k"
begin

definition lookup :: "'r list \<Rightarrow> 'k \<Rightarrow> 'r option" where
  "lookup t k = find (\<lambda>r. key r = k) t"

definition keys_distinct :: "'r list \<Rightarrow> bool" where
  "keys_distinct t \<longleftrightarrow> distinct (map key t)"

lemma lookup_Some: "lookup t k = Some r \<Longrightarrow> r \<in> set t \<and> key r = k"
  by (auto simp: lookup_def find_Some_iff)

lemma lookup_None: "lookup t k = None \<longleftrightarrow> k \<notin> key ` set t"
  by (auto simp: lookup_def find_None_iff)

lemma lookup_Cons: "lookup (r # t) k = (if key r = k then Some r else lookup t k)"
  by (simp add: lookup_def)

lemma lookup_mem: "keys_distinct t \<Longrightarrow> r \<in> set t \<Longrightarrow> lookup t (key r) = Some r"
  by (induction t) (auto simp: keys_distinct_def lookup_Cons rev_image_eqI)

lemma lookup_append: "lookup (t @ [r]) k = (case lookup t k of Some x \<Rightarrow> Some x | None \<Rightarrow> if key r = k then Some r else None)"
  by (induction t) (auto simp: lookup_def)

lemma lookup_update:
  assumes "\<And>r. key (f r) = key r"
  shows "lookup (map (\<lambda>r. if p r then f r else r) t) k
    = map_option (\<lambda>r. if p r then f r else r) (lookup t k)"
  by (induction t) (auto simp: lookup_def assms)

lemma keys_distinct_update:
  assumes "\<And>r. key (f r) = key r" and "keys_distinct t"
  shows "keys_distinct (map (\<lambda>r. if p r then f r else r) t)"
proof -
  have "map key (map (\<lambda>r. if p r then f r else r) t) = map key t"
    by (induction t) (simp_all add: assms(1))
  then show ?thesis using assms(2) by (simp only: keys_distinct_def)
qed

lemma keys_distinct_append:
  "keys_distinct t \<Longrightarrow> k \<notin> key ` set t \<Longrightarrow> key r = k \<Longrightarrow> keys_distinct (t @ [r])"
  by (auto simp: keys_distinct_def)

text \<open>A compare-and-set statement on one key: it succeeds exactly when its row passes the test.\<close>

lemma update_one:
  assumes f: "\<And>r. key (f r) = key r" and d: "keys_distinct t"
    and u: "update_where (\<lambda>r. key r = k \<and> q r) f t = (ok, t')"
  shows "ok \<longleftrightarrow> (\<exists>r. lookup t k = Some r \<and> q r)"
    and "lookup t' k = (if ok then map_option f (lookup t k) else lookup t k)"
    and "k' \<noteq> k \<Longrightarrow> lookup t' k' = lookup t k'"
    and "keys_distinct t'" and "\<not> ok \<Longrightarrow> t' = t"
proof -
  have t': "t' = map (\<lambda>r. if key r = k \<and> q r then f r else r) t"
    and ok: "ok \<longleftrightarrow> (\<exists>r \<in> set t. key r = k \<and> q r)"
    using u by (auto simp: update_where_def)
  have look: "lookup t' k'' = map_option (\<lambda>r. if key r = k \<and> q r then f r else r) (lookup t k'')" for k''
    unfolding t' by (rule lookup_update) (rule f)
  show iff: "ok \<longleftrightarrow> (\<exists>r. lookup t k = Some r \<and> q r)"
    unfolding ok using lookup_mem [OF d] lookup_Some by fastforce
  show "lookup t' k = (if ok then map_option f (lookup t k) else lookup t k)"
    unfolding look using iff by (cases "lookup t k") (auto dest: lookup_Some)
  show "k' \<noteq> k \<Longrightarrow> lookup t' k' = lookup t k'"
    unfolding look by (cases "lookup t k'") (auto dest: lookup_Some)
  show "keys_distinct t'"
    unfolding t' by (rule keys_distinct_update) (rule f, rule d)
  show "\<not> ok \<Longrightarrow> t' = t"
    unfolding ok t' by (rule map_idI) auto
qed

end

end
