(* ===== verification/Json_Values.thy ===== *)
theory Json_Values
  imports Platform_Prelude
begin

text \<open>
  Operations on decoded JSON (the type is in the prelude) as Python sees it after \<open>json.loads\<close>: a dictionary is an association list
  with distinct keys in insertion order. A finite float is \<open>JFloat m d\<close>, the value
  \<open>m * 10^(-d)\<close>. Python's \<open>==\<close> ignores the order of keys and identifies \<open>1\<close>,
  \<open>1.0\<close> and \<open>True\<close>; membership in a set raises \<open>TypeError\<close> for an unhashable
  list or dictionary. \<open>json.dumps\<close> is the compact form with \<open>ensure_ascii=False\<close>.
\<close>

section \<open>Reading a value\<close>

text \<open>\<open>d.get(k)\<close>: a missing key and an explicit null both read as None.\<close>

definition jget :: "(string \<times> json) list \<Rightarrow> string \<Rightarrow> json" where
  "jget d k = (case map_of d k of None \<Rightarrow> JNull | Some v \<Rightarrow> v)"

definition jhas :: "(string \<times> json) list \<Rightarrow> string \<Rightarrow> bool" where
  "jhas d k \<longleftrightarrow> map_of d k \<noteq> None"

fun as_obj :: "json \<Rightarrow> (string \<times> json) list option" where
  "as_obj (JObj d) = Some d"
| "as_obj _ = None"

fun as_str :: "json \<Rightarrow> string option" where
  "as_str (JStr s) = Some s"
| "as_str _ = None"

fun as_list :: "json \<Rightarrow> json list option" where
  "as_list (JList l) = Some l"
| "as_list _ = None"

text \<open>\<open>isinstance(v, int)\<close> holds of a bool too, which then counts as 0 or 1.\<close>

fun as_int :: "json \<Rightarrow> int option" where
  "as_int (JInt i) = Some i"
| "as_int (JBool b) = Some (if b then 1 else 0)"
| "as_int _ = None"

fun all_strs :: "json list \<Rightarrow> string list option" where
  "all_strs [] = Some []"
| "all_strs (JStr s # js) = map_option ((#) s) (all_strs js)"
| "all_strs (_ # js) = None"

lemma all_strs_eq_Some: "all_strs js = Some ss \<longleftrightarrow> js = map JStr ss"
  by (induction js arbitrary: ss rule: all_strs.induct) auto

lemma all_strs_map_JStr [simp]: "all_strs (map JStr ss) = Some ss"
  by (simp add: all_strs_eq_Some)

section \<open>Truth, equality and hashing\<close>

fun num_of :: "json \<Rightarrow> (int \<times> nat) option" where
  "num_of (JInt i) = Some (i, 0)"
| "num_of (JBool b) = Some (if b then 1 else 0, 0)"
| "num_of (JFloat m d) = Some (m, d)"
| "num_of _ = None"

definition num_eq :: "int \<times> nat \<Rightarrow> int \<times> nat \<Rightarrow> bool" where
  "num_eq a b \<longleftrightarrow> fst a * 10 ^ snd b = fst b * 10 ^ snd a"

fun truthy :: "json \<Rightarrow> bool" where
  "truthy JNull = False"
| "truthy (JBool b) = b"
| "truthy (JInt i) = (i \<noteq> 0)"
| "truthy (JFloat m d) = (m \<noteq> 0)"
| "truthy (JStr s) = (s \<noteq> [])"
| "truthy (JList l) = (l \<noteq> [])"
| "truthy (JObj d) = (d \<noteq> [])"

fun json_eq :: "json \<Rightarrow> json \<Rightarrow> bool" and
    jlist_eq :: "json list \<Rightarrow> json list \<Rightarrow> bool" and
    jobj_sub :: "(string \<times> json) list \<Rightarrow> (string \<times> json) list \<Rightarrow> bool" where
  "json_eq (JStr s) v = (v = JStr s)"
| "json_eq JNull v = (v = JNull)"
| "json_eq (JList l) v = (case v of JList l' \<Rightarrow> jlist_eq l l' | _ \<Rightarrow> False)"
| "json_eq (JObj d) v =
     (case v of JObj d' \<Rightarrow> length d = length d' \<and> jobj_sub d d' | _ \<Rightarrow> False)"
| "json_eq (JInt i) v = (case num_of v of None \<Rightarrow> False | Some n \<Rightarrow> num_eq (i, 0) n)"
| "json_eq (JBool b) v =
     (case num_of v of None \<Rightarrow> False | Some n \<Rightarrow> num_eq (if b then 1 else 0, 0) n)"
| "json_eq (JFloat m e) v = (case num_of v of None \<Rightarrow> False | Some n \<Rightarrow> num_eq (m, e) n)"
| "jlist_eq [] l' = (l' = [])"
| "jlist_eq (x # xs) l' = (case l' of [] \<Rightarrow> False | y # ys \<Rightarrow> json_eq x y \<and> jlist_eq xs ys)"
| "jobj_sub [] d' = True"
| "jobj_sub ((k, v) # d) d' =
     ((case map_of d' k of None \<Rightarrow> False | Some v' \<Rightarrow> json_eq v v') \<and> jobj_sub d d')"

text \<open>Well-formed documents: the keys of every dictionary are distinct.\<close>

fun json_wf :: "json \<Rightarrow> bool" where
  "json_wf (JList l) = (\<forall>x \<in> set l. json_wf x)"
| "json_wf (JObj d) = (distinct (map fst d) \<and> (\<forall>p \<in> set d. json_wf (snd p)))"
| "json_wf _ = True"

lemma jlist_eq_refl: "(\<And>x. x \<in> set l \<Longrightarrow> json_eq x x) \<Longrightarrow> jlist_eq l l"
  by (induction l) auto

lemma jobj_sub_refl:
  "\<forall>p \<in> set d. map_of e (fst p) = Some (snd p) \<and> json_eq (snd p) (snd p) \<Longrightarrow> jobj_sub d e"
  by (induction d) auto

lemma json_eq_refl: "json_wf j \<Longrightarrow> json_eq j j"
proof (induction j rule: json_wf.induct)
  case (1 l)
  then show ?case by (auto intro: jlist_eq_refl)
next
  case (2 d)
  have "map_of d k = Some v \<and> json_eq v v" if "(k, v) \<in> set d" for k v
    using 2 that by (force simp: map_of_is_SomeI)
  then show ?case by (auto intro: jobj_sub_refl)
qed (auto simp: num_eq_def)

text \<open>\<open>v == n\<close> for an integer literal \<open>n\<close>.\<close>

definition eq_int :: "json \<Rightarrow> int \<Rightarrow> bool" where
  "eq_int v n = json_eq v (JInt n)"

fun hashable :: "json \<Rightarrow> bool" where
  "hashable (JList _) = False"
| "hashable (JObj _) = False"
| "hashable _ = True"

text \<open>\<open>v in frozenset(...)\<close> over strings and over integers.\<close>

definition in_strs :: "json \<Rightarrow> string list \<Rightarrow> exn + bool" where
  "in_strs v ss = (if hashable v then Inr (\<exists>s \<in> set ss. v = JStr s) else Inl TypeError)"

definition in_ints :: "json \<Rightarrow> int list \<Rightarrow> exn + bool" where
  "in_ints v ns = (if hashable v then Inr (\<exists>n \<in> set ns. eq_int v n) else Inl TypeError)"

lemma eq_int_JInt [simp]: "eq_int (JInt i) n = (i = n)"
  by (simp add: eq_int_def num_eq_def)

lemma eq_int_JStr [simp]: "\<not> eq_int (JStr s) n"
  by (simp add: eq_int_def)

lemma eq_int_JNull [simp]: "\<not> eq_int JNull n"
  by (simp add: eq_int_def)

lemma eq_int_inj: "eq_int v m \<Longrightarrow> eq_int v n \<Longrightarrow> m = n"
  by (cases v) (auto simp: eq_int_def num_eq_def split: if_splits)

lemma in_strs_Inr: "in_strs v ss = Inr b \<Longrightarrow> b = (\<exists>s \<in> set ss. v = JStr s)"
  by (auto simp: in_strs_def split: if_splits)

lemma in_strs_JStr [simp]: "in_strs (JStr s) ss = Inr (s \<in> set ss)"
  by (auto simp: in_strs_def)

section \<open>Text of a document\<close>

definition hex_char :: "nat \<Rightarrow> char" where
  "hex_char n = (if n < 10 then char_of (48 + n) else char_of (87 + n))"

definition escape_char :: "char \<Rightarrow> string" where
  "escape_char c = (let n = (of_char c :: nat) in
     if n = 34 then [CHR 0x5C, CHR 0x22]
     else if n = 92 then [CHR 0x5C, CHR 0x5C]
     else if n = 10 then [CHR 0x5C, CHR ''n'']
     else if n = 13 then [CHR 0x5C, CHR ''r'']
     else if n = 9 then [CHR 0x5C, CHR ''t'']
     else if n = 8 then [CHR 0x5C, CHR ''b'']
     else if n = 12 then [CHR 0x5C, CHR ''f'']
     else if n < 32 then [CHR 0x5C, CHR ''u'', CHR ''0'', CHR ''0'', hex_char (n div 16), hex_char (n mod 16)]
     else [c])"

definition quote :: "string \<Rightarrow> string" where
  "quote s = [CHR 0x22] @ concat (map escape_char s) @ [CHR 0x22]"

definition float_str :: "int \<Rightarrow> nat \<Rightarrow> string" where
  "float_str m d = (let a = nat \<bar>m\<bar> in
     (if m < 0 then ''-'' else []) @ nat_digits (a div 10 ^ d) @ ''.''
       @ (if d = 0 then ''0'' else pad0 d (nat_digits (a mod 10 ^ d))))"

fun dumps :: "json \<Rightarrow> string" where
  "dumps JNull = ''null''"
| "dumps (JBool b) = (if b then ''true'' else ''false'')"
| "dumps (JInt i) = int_str i"
| "dumps (JFloat m d) = float_str m d"
| "dumps (JStr s) = quote s"
| "dumps (JList l) = ''['' @ join '','' (map dumps l) @ '']''"
| "dumps (JObj d) = ''{'' @ join '','' (map (\<lambda>p. quote (fst p) @ '':'' @ dumps (snd p)) d) @ ''}''"

text \<open>\<open>sort_keys=True\<close>: every dictionary is printed in the order of its keys.\<close>

fun sort_keys :: "json \<Rightarrow> json" where
  "sort_keys (JList l) = JList (map sort_keys l)"
| "sort_keys (JObj d) = JObj (sort_key fst (map (\<lambda>p. (fst p, sort_keys (snd p))) d))"
| "sort_keys v = v"

text \<open>\<open>str(v)\<close>, with \<open>repr\<close> inside a list or a dictionary.\<close>

definition repr_char :: "char \<Rightarrow> char \<Rightarrow> string" where
  "repr_char q c = (let n = (of_char c :: nat) in
     if c = q \<or> n = 92 then [CHR 0x5C, c]
     else if n = 10 then [CHR 0x5C, CHR ''n'']
     else if n = 13 then [CHR 0x5C, CHR ''r'']
     else if n = 9 then [CHR 0x5C, CHR ''t'']
     else if n < 32 \<or> n = 127 then [CHR 0x5C, CHR ''x'', hex_char (n div 16), hex_char (n mod 16)]
     else [c])"

definition repr_str :: "string \<Rightarrow> string" where
  "repr_str s = (let q = (if CHR 0x27 \<in> set s \<and> CHR 0x22 \<notin> set s then CHR 0x22 else CHR 0x27)
     in [q] @ concat (map (repr_char q) s) @ [q])"

fun py_repr :: "json \<Rightarrow> string" where
  "py_repr JNull = ''None''"
| "py_repr (JBool b) = (if b then ''True'' else ''False'')"
| "py_repr (JInt i) = int_str i"
| "py_repr (JFloat m d) = float_str m d"
| "py_repr (JStr s) = repr_str s"
| "py_repr (JList l) = ''['' @ join '', '' (map py_repr l) @ '']''"
| "py_repr (JObj d) = ''{'' @ join '', '' (map (\<lambda>p. repr_str (fst p) @ '': '' @ py_repr (snd p)) d) @ ''}''"

fun py_str :: "json \<Rightarrow> string" where
  "py_str (JStr s) = s"
| "py_str v = py_repr v"

definition opt_str :: "string option \<Rightarrow> json" where
  "opt_str s = (case s of None \<Rightarrow> JNull | Some t \<Rightarrow> JStr t)"

lemma dumps_nonempty: "dumps j \<noteq> []"
  by (cases j) (auto simp: quote_def float_str_def Let_def)

end
