(* ===== verification/Attempt_Store.thy ===== *)
theory Attempt_Store
  imports Table_Store Json_Values
begin

text \<open>
  What the delivery of a report and the delivery of an alert share: a table of attempts, one row per
  idempotency key, whose status and attempt number are changed only by compare-and-set statements. A
  statement that lets its caller send (the insertion of a pending row, or a resumption) grants it an
  attempt number of that row. The locale \<open>grant_machine\<close>, which leases of ingestion runs and of
  scheduled tasks share, states what one statement keeps; the lemmas proved in it hold of every
  interleaving of statements of any number of workers.
\<close>

datatype attempt_status = Pending | Succeeded | Failed | Retry_wait | Uncertain

fun attempt_status_text :: "attempt_status \<Rightarrow> string" where
  "attempt_status_text Pending = ''pending''"
| "attempt_status_text Succeeded = ''succeeded''"
| "attempt_status_text Failed = ''failed''"
| "attempt_status_text Retry_wait = ''retry_wait''"
| "attempt_status_text Uncertain = ''uncertain''"

lemma attempt_status_text_inj: "attempt_status_text a = attempt_status_text b \<Longrightarrow> a = b"
  by (cases a; cases b) simp_all

text \<open>A run of statements, in the order the database executes them, with the grants it makes.\<close>

type_synonym 'k keyed_grant = "'k \<times> int"
type_synonym grant = "uuid keyed_grant"

fun run_ops :: "('op \<Rightarrow> 'r list \<Rightarrow> 'k keyed_grant option \<times> 'r list) \<Rightarrow> 'op list \<Rightarrow> 'r list
    \<Rightarrow> 'k keyed_grant list \<times> 'r list" where
  "run_ops exec [] t = ([], t)"
| "run_ops exec (x # xs) t =
     (case exec x t of (g, t') \<Rightarrow>
        case run_ops exec xs t' of (gs, t'') \<Rightarrow>
          ((case g of None \<Rightarrow> gs | Some a \<Rightarrow> a # gs), t''))"

locale grant_machine = keyed_rows key
  for key :: "'r \<Rightarrow> 'k" +
  fixes number :: "'r \<Rightarrow> int"
    and final :: "'r \<Rightarrow> bool"
    and exec :: "'op \<Rightarrow> 'r list \<Rightarrow> 'k keyed_grant option \<times> 'r list"
  assumes exec_distinct: "keys_distinct t \<Longrightarrow> exec x t = (g, t') \<Longrightarrow> keys_distinct t'"
    and exec_number: "keys_distinct t \<Longrightarrow> exec x t = (g, t') \<Longrightarrow> lookup t k = Some r
      \<Longrightarrow> \<exists>r'. lookup t' k = Some r' \<and> number r \<le> number r'"
    and exec_grant: "keys_distinct t \<Longrightarrow> exec x t = (Some (k, n), t')
      \<Longrightarrow> (\<exists>r'. lookup t' k = Some r' \<and> number r' = n) \<and> (\<forall>r. lookup t k = Some r \<longrightarrow> number r < n)"
    and exec_final: "keys_distinct t \<Longrightarrow> exec x t = (g, t') \<Longrightarrow> lookup t k = Some r
      \<Longrightarrow> final r \<Longrightarrow> lookup t' k = Some r"
begin

lemma run_distinct: "keys_distinct t \<Longrightarrow> run_ops exec xs t = (gs, t') \<Longrightarrow> keys_distinct t'"
  by (induction xs arbitrary: t gs) (auto split: prod.splits dest: exec_distinct)

lemma run_number:
  "keys_distinct t \<Longrightarrow> run_ops exec xs t = (gs, t') \<Longrightarrow> lookup t k = Some r
    \<Longrightarrow> \<exists>r'. lookup t' k = Some r' \<and> number r \<le> number r'"
proof (induction xs arbitrary: t gs r)
  case (Cons x xs)
  from Cons.prems(2) obtain g t1 gs1 where s: "exec x t = (g, t1)" "run_ops exec xs t1 = (gs1, t')"
    by (auto split: prod.splits)
  obtain r1 where "lookup t1 k = Some r1" "number r \<le> number r1"
    using exec_number [OF Cons.prems(1) s(1) Cons.prems(3)] by blast
  then show ?case using Cons.IH [OF exec_distinct [OF Cons.prems(1) s(1)] s(2)] by fastforce
qed simp

text \<open>Every grant of a run is above the number its row had when the run began.\<close>

lemma run_grants_above:
  "keys_distinct t \<Longrightarrow> run_ops exec xs t = (gs, t') \<Longrightarrow> lookup t k = Some r \<Longrightarrow> (k, n) \<in> set gs
    \<Longrightarrow> number r < n"
proof (induction xs arbitrary: t gs r)
  case (Cons x xs)
  from Cons.prems(2) obtain g t1 gs1 where s: "exec x t = (g, t1)" "run_ops exec xs t1 = (gs1, t')"
    and gs: "gs = (case g of None \<Rightarrow> gs1 | Some a \<Rightarrow> a # gs1)"
    by (auto split: prod.splits)
  obtain r1 where r1: "lookup t1 k = Some r1" "number r \<le> number r1"
    using exec_number [OF Cons.prems(1) s(1) Cons.prems(3)] by blast
  show ?case
  proof (cases "g = Some (k, n)")
    case True
    then show ?thesis using exec_grant [of t x k n t1] Cons.prems(1,3) s(1) by blast
  next
    case False
    with Cons.prems(4) gs have "(k, n) \<in> set gs1" by (auto split: option.splits)
    then show ?thesis
      using Cons.IH [OF exec_distinct [OF Cons.prems(1) s(1)] s(2) r1(1)] r1(2) by simp
  qed
qed simp

text \<open>No attempt number is granted twice, whichever workers ask.\<close>

lemma run_grants_distinct:
  "keys_distinct t \<Longrightarrow> run_ops exec xs t = (gs, t') \<Longrightarrow> distinct gs"
proof (induction xs arbitrary: t gs)
  case (Cons x xs)
  from Cons.prems(2) obtain g t1 gs1 where s: "exec x t = (g, t1)" "run_ops exec xs t1 = (gs1, t')"
    and gs: "gs = (case g of None \<Rightarrow> gs1 | Some a \<Rightarrow> a # gs1)"
    by (auto split: prod.splits)
  note d1 = exec_distinct [OF Cons.prems(1) s(1)]
  have ih: "distinct gs1" using d1 s(2) by (rule Cons.IH)
  show ?case
  proof (cases g)
    case None
    with ih gs show ?thesis by simp
  next
    case (Some a)
    obtain k n where a: "a = (k, n)" by fastforce
    obtain r1 where r1: "lookup t1 k = Some r1" "number r1 = n"
      using exec_grant [of t x k n t1] Cons.prems(1) s(1) Some a by blast
    have "a \<notin> set gs1" using run_grants_above [OF d1 s(2) r1(1), of n] r1(2) a by auto
    with ih gs Some show ?thesis by simp
  qed
qed simp

lemma run_grants_below:
  "keys_distinct t \<Longrightarrow> run_ops exec xs t = (gs, t') \<Longrightarrow> (k, n) \<in> set gs
    \<Longrightarrow> \<exists>r'. lookup t' k = Some r' \<and> n \<le> number r'"
proof (induction xs arbitrary: t gs)
  case (Cons x xs)
  from Cons.prems(2) obtain g t1 gs1 where s: "exec x t = (g, t1)" "run_ops exec xs t1 = (gs1, t')"
    and gs: "gs = (case g of None \<Rightarrow> gs1 | Some a \<Rightarrow> a # gs1)"
    by (auto split: prod.splits)
  note d1 = exec_distinct [OF Cons.prems(1) s(1)]
  show ?case
  proof (cases "g = Some (k, n)")
    case True
    then obtain r1 where "lookup t1 k = Some r1" "number r1 = n"
      using exec_grant [of t x k n t1] Cons.prems(1) s(1) by blast
    then show ?thesis using run_number [OF d1 s(2)] by fastforce
  next
    case False
    with Cons.prems(3) gs have "(k, n) \<in> set gs1" by (auto split: option.splits)
    then show ?thesis using Cons.IH [OF d1 s(2)] by blast
  qed
qed simp

text \<open>A final row keeps its value and gets no further grant.\<close>

lemma run_final:
  "keys_distinct t \<Longrightarrow> run_ops exec xs t = (gs, t') \<Longrightarrow> lookup t k = Some r \<Longrightarrow> final r
    \<Longrightarrow> lookup t' k = Some r \<and> (\<forall>n. (k, n) \<notin> set gs)"
proof (induction xs arbitrary: t gs)
  case (Cons x xs)
  from Cons.prems(2) obtain g t1 gs1 where s: "exec x t = (g, t1)" "run_ops exec xs t1 = (gs1, t')"
    and gs: "gs = (case g of None \<Rightarrow> gs1 | Some a \<Rightarrow> a # gs1)"
    by (auto split: prod.splits)
  have l: "lookup t1 k = Some r" using Cons.prems(1,3,4) s(1) exec_final by blast
  have "g \<noteq> Some (k, n)" for n
    using exec_grant [of t x k n t1] Cons.prems(1,3) s(1) l by auto
  moreover have "lookup t' k = Some r \<and> (\<forall>n. (k, n) \<notin> set gs1)"
    using Cons.IH [OF exec_distinct [OF Cons.prems(1) s(1)] s(2) l] Cons.prems(4) by blast
  ultimately show ?case using gs by (auto split: option.splits)
qed simp

end

section \<open>Statements on numbered rows\<close>

text \<open>
  The changes that a statement may make: none, a new row, rows that are not final rewritten under
  their number, or one such row taken over under the next number.
\<close>

locale numbered_rows = keyed_rows key
  for key :: "'r \<Rightarrow> 'k" +
  fixes number :: "'r \<Rightarrow> int"
    and final :: "'r \<Rightarrow> bool"
begin

inductive row_change :: "'r list \<Rightarrow> 'k keyed_grant option \<Rightarrow> 'r list \<Rightarrow> bool" where
  unchanged: "row_change t None t"
| appended: "key a \<notin> key ` set t \<Longrightarrow> row_change t (Some (key a, number a)) (t @ [a])"
| settled: "(\<And>r. key (f r) = key r \<and> number (f r) = number r) \<Longrightarrow> (\<And>r. p r \<Longrightarrow> \<not> final r)
    \<Longrightarrow> row_change t None (map (\<lambda>r. if p r then f r else r) t)"
| resumed: "lookup t d = Some r \<Longrightarrow> q r \<Longrightarrow> (\<And>x. key (f x) = key x \<and> number (f x) = number x + 1)
    \<Longrightarrow> (\<And>x. q x \<Longrightarrow> \<not> final x)
    \<Longrightarrow> row_change t (Some (d, number r + 1)) (map (\<lambda>x. if key x = d \<and> q x then f x else x) t)"

lemma resume_change:
  assumes d: "keys_distinct t"
    and f: "\<And>x. key (f x) = key x \<and> number (f x) = number x + 1"
    and u: "update_where (\<lambda>x. key x = k \<and> q x) f t = (ok, t')"
    and q: "\<And>x. q x \<Longrightarrow> \<not> final x"
  shows "if ok then row_change t (map_option (\<lambda>r. (k, number r)) (lookup t' k)) t' else t' = t"
proof -
  have key: "key (f x) = key x" for x using f by simp
  show ?thesis
  proof (cases ok)
    case True
    note one = update_one [OF key d u]
    obtain r where r: "lookup t k = Some r" "q r" using one(1) True by auto
    have "lookup t' k = Some (f r)" using one(2) True r by simp
    moreover have "t' = map (\<lambda>x. if key x = k \<and> q x then f x else x) t"
      using u by (simp add: update_where_def)
    ultimately show ?thesis using True f row_change.resumed [where q = q and f = f, OF r f q] by simp
  next
    case False
    then show ?thesis using update_one(5) [OF key d u] by simp
  qed
qed

lemma row_change_distinct: "row_change t g t' \<Longrightarrow> keys_distinct t \<Longrightarrow> keys_distinct t'"
proof (induction rule: row_change.induct)
  case (appended a t)
  then show ?case by (auto intro: keys_distinct_append)
next
  case (settled f p t)
  then show ?case by (intro keys_distinct_update) simp_all
next
  case (resumed t d r q f)
  then show ?case by (intro keys_distinct_update) simp_all
qed

lemma row_change_lookup:
  "row_change t g t' \<Longrightarrow> lookup t k = Some r \<Longrightarrow> \<exists>r'. lookup t' k = Some r'
     \<and> number r \<le> number r' \<and> (final r \<longrightarrow> r' = r)"
proof (induction rule: row_change.induct)
  case (appended a t)
  then show ?case by (simp add: lookup_append)
next
  case (settled f p t)
  have "lookup (map (\<lambda>r. if p r then f r else r) t) k = Some (if p r then f r else r)"
    using settled(1,3) by (subst lookup_update) auto
  then show ?case using settled(1,2) by auto
next
  case (resumed t d r0 q f)
  have "lookup (map (\<lambda>x. if key x = d \<and> q x then f x else x) t) k = Some (if key r = d \<and> q r then f r else r)"
    using resumed(3,5) by (subst lookup_update) auto
  then show ?case using resumed(3,4) by auto
qed auto

lemma row_change_grant:
  assumes "row_change t (Some (k, n)) t'"
  shows "(\<exists>r'. lookup t' k = Some r' \<and> number r' = n) \<and> (\<forall>r. lookup t k = Some r \<longrightarrow> number r < n)"
  using assms
proof (cases rule: row_change.cases)
  case (appended a)
  then have "lookup t k = None" by (simp add: lookup_None)
  then show ?thesis using appended by (simp add: lookup_append)
next
  case (resumed r0 q f)
  moreover have "key r0 = k" using lookup_Some [OF resumed(3)] by simp
  ultimately show ?thesis by (simp add: lookup_update)
qed

end

text \<open>Statements whose every change is one of these form a machine.\<close>

locale numbered_statements = numbered_rows key number final
  for key :: "'r \<Rightarrow> 'k" and number final +
  fixes exec :: "'op \<Rightarrow> 'r list \<Rightarrow> 'k keyed_grant option \<times> 'r list"
  assumes exec_row_change: "keys_distinct t \<Longrightarrow> exec x t = (g, t') \<Longrightarrow> row_change t g t'"

sublocale numbered_statements \<subseteq> grant_machine key number final exec
proof (unfold_locales)
  fix t x g t' assume d: "keys_distinct t" and ex: "exec x t = (g, t')"
  note ch = exec_row_change [OF d ex]
  show "keys_distinct t'" using ch d by (rule row_change_distinct)
  fix k r assume "lookup t k = Some r"
  note r = row_change_lookup [OF ch this]
  show "\<exists>r'. lookup t' k = Some r' \<and> number r \<le> number r'" using r by blast
  show "final r \<Longrightarrow> lookup t' k = Some r" using r by auto
next
  fix t x k n t' assume d: "keys_distinct t" and ex: "exec x t = (Some (k, n), t')"
  show "(\<exists>r'. lookup t' k = Some r' \<and> number r' = n) \<and> (\<forall>r. lookup t k = Some r \<longrightarrow> number r < n)"
    using exec_row_change [OF d ex] by (rule row_change_grant)
qed

end
