(* ===== verification/Time_Model.thy ===== *)
theory Time_Model
  imports Platform_Prelude
begin

text \<open>
  The part of \<open>datetime\<close> the program uses. A date is its ordinal (1 January of year 1 is 1),
  an instant a number of microseconds on the scale where day \<open>n\<close> starts at \<open>n * day_us\<close>,
  in UTC. The timezone database is outside the repository: a zone is a parameter, the pair of
  functions that reads an instant as a wall-clock time and a wall-clock time as an instant.
\<close>

definition second_us :: int where
  "second_us = 1000000"

definition hour_us :: int where
  "hour_us = 3600 * second_us"

definition day_us :: int where
  "day_us = 24 * hour_us"

text \<open>The last instant a \<open>datetime\<close> can hold, 9999-12-31T23:59:59.999999; beyond it the arithmetic raises.\<close>

definition max_instant :: int where
  "max_instant = 3652060 * day_us - 1"

lemmas us_defs = second_us_def hour_us_def day_us_def

record zone =
  to_wall :: "instant \<Rightarrow> int"
  of_wall :: "int \<Rightarrow> instant"

text \<open>A zone with a fixed offset from UTC, such as Asia/Shanghai today (eight hours).\<close>

definition fixed_zone :: "int \<Rightarrow> zone" where
  "fixed_zone off = \<lparr>to_wall = (\<lambda>t. t + off), of_wall = (\<lambda>w. w - off)\<rparr>"

text \<open>\<open>date.weekday()\<close> (Monday is 0), wall-clock date and time of day, \<open>datetime.combine\<close>.\<close>

definition weekday :: "date \<Rightarrow> int" where
  "weekday d = (d + 6) mod 7"

definition wall_date :: "int \<Rightarrow> date" where
  "wall_date w = w div day_us"

definition wall_time :: "int \<Rightarrow> int" where
  "wall_time w = w mod day_us"

definition time_of_day :: "int \<Rightarrow> int \<Rightarrow> int" where
  "time_of_day h m = h * hour_us + m * (60 * second_us)"

definition combine :: "date \<Rightarrow> int \<Rightarrow> int" where
  "combine d t = d * day_us + t"

lemma time_of_day_bounds:
  "0 \<le> h \<Longrightarrow> h < 24 \<Longrightarrow> 0 \<le> m \<Longrightarrow> m < 60 \<Longrightarrow> 0 \<le> time_of_day h m \<and> time_of_day h m < day_us"
  by (auto simp: time_of_day_def us_defs)

lemma wall_date_combine: "0 \<le> t \<Longrightarrow> t < day_us \<Longrightarrow> wall_date (combine d t) = d"
  by (simp add: wall_date_def combine_def us_defs)

lemma wall_time_combine: "0 \<le> t \<Longrightarrow> t < day_us \<Longrightarrow> wall_time (combine d t) = t"
  by (simp add: wall_time_def combine_def us_defs)

lemma combine_wall: "combine (wall_date w) (wall_time w) = w"
  by (simp add: wall_date_def wall_time_def combine_def)

lemma combine_mono: "t \<le> t' \<Longrightarrow> combine d t \<le> combine d t'"
  by (simp add: combine_def)

lemma weekday_range: "0 \<le> weekday d \<and> weekday d < 7"
  by (simp add: weekday_def)

section \<open>Calendar text\<close>

text \<open>\<open>date.isoformat()\<close>, by the conversion of ordinals to year, month and day of the library.\<close>

definition leap :: "int \<Rightarrow> bool" where
  "leap y \<longleftrightarrow> y mod 4 = 0 \<and> (y mod 100 \<noteq> 0 \<or> y mod 400 = 0)"

definition month_lengths :: "int \<Rightarrow> int list" where
  "month_lengths y = [31, if leap y then 29 else 28, 31, 30, 31, 30, 31, 31, 30, 31, 30, 31]"

fun month_day :: "int list \<Rightarrow> int \<Rightarrow> int \<Rightarrow> int \<times> int" where
  "month_day [] m r = (m, r + 1)"
| "month_day (l # ls) m r = (if r < l then (m, r + 1) else month_day ls (m + 1) (r - l))"

definition ymd :: "date \<Rightarrow> int \<times> int \<times> int" where
  "ymd d = (let n = d - 1; n400 = n div 146097; a = n mod 146097;
     n100 = a div 36524; b = a mod 36524; n4 = b div 1461; c = b mod 1461;
     n1 = c div 365; e = c mod 365; y = n400 * 400 + n100 * 100 + n4 * 4 + n1 + 1
   in if n1 = 4 \<or> n100 = 4 then (y - 1, 12, 31) else (y, month_day (month_lengths y) 1 e))"

definition isodate :: "date \<Rightarrow> string" where
  "isodate d = (case ymd d of (y, m, dd) \<Rightarrow>
     pad0 4 (int_str y) @ ''-'' @ pad0 2 (int_str m) @ ''-'' @ pad0 2 (int_str dd))"

text \<open>\<open>datetime.isoformat()\<close> of a UTC instant with the offset replaced by Z.\<close>

definition iso_utc :: "instant \<Rightarrow> string" where
  "iso_utc t = (let w = wall_time t; s = w div second_us; us = w mod second_us in
     isodate (wall_date t) @ ''T'' @ pad0 2 (int_str (s div 3600)) @ '':''
       @ pad0 2 (int_str (s div 60 mod 60)) @ '':'' @ pad0 2 (int_str (s mod 60))
       @ (if us = 0 then [] else ''.'' @ pad0 6 (int_str us)) @ ''Z'')"

text \<open>\<open>datetime.isoformat()\<close> in UTC.\<close>

definition isoformat_utc :: "instant \<Rightarrow> string" where
  "isoformat_utc t = butlast (iso_utc t) @ ''+00:00''"

lemma isodate_examples:
  "isodate 739447 = ''2025-07-15''" "isodate 738945 = ''2024-02-29''" "weekday 739447 = 1"
  by code_simp+

lemma isodate_nonempty [simp]: "isodate d \<noteq> []"
  by (simp add: isodate_def split: prod.split)

end
