(* ===== verification/Message_Texts.thy ===== *)
theory Message_Texts
  imports Platform_Prelude
begin

text \<open>
  The literal texts of cards and alerts, byte for byte as the source encodes them in UTF-8. They are
  kept apart so that the theories of the components read without them; each is named after the card
  or message it belongs to.
\<close>

definition txt_weekend_notice :: string where
  "txt_weekend_notice =
     [CHR 0xE5, CHR 0x91, CHR 0xA8, CHR 0xE6, CHR 0x9C, CHR 0xAB, CHR 0xEF, CHR 0xBC, CHR 0x8C]
     @ ''CN/HK/US '' @ [CHR 0xE5, CHR 0xB8, CHR 0x82, CHR 0xE5, CHR 0x9C, CHR 0xBA, CHR 0xE4,
     CHR 0xBC, CHR 0x91, CHR 0xE5, CHR 0xB8, CHR 0x82, CHR 0xEF, CHR 0xBC, CHR 0x9B, CHR 0xE6,
     CHR 0x9C, CHR 0xAC, CHR 0xE6, CHR 0x9C, CHR 0x9F, CHR 0xE5, CHR 0x8F, CHR 0x91, CHR 0xE5,
     CHR 0xB8, CHR 0x83, CHR 0xE5, CHR 0xAE, CHR 0x8F, CHR 0xE8, CHR 0xA7, CHR 0x82, CHR 0xE6,
     CHR 0xB6, CHR 0x88, CHR 0xE6, CHR 0x81, CHR 0xAF, CHR 0xE3, CHR 0x80, CHR 0x81, CHR 0xE6,
     CHR 0x97, CHR 0xA5, CHR 0xE5, CHR 0x8E, CHR 0x86, CHR 0xE5, CHR 0x92, CHR 0x8C, CHR 0xE5,
     CHR 0x88, CHR 0x86, CHR 0xE6, CHR 0x9E, CHR 0x90, CHR 0xE3, CHR 0x80, CHR 0x82]"

definition txt_holiday_notice_tail :: string where
  "txt_holiday_notice_tail =
     '' '' @ [CHR 0xE5, CHR 0xB8, CHR 0x82, CHR 0xE5, CHR 0x9C, CHR 0xBA, CHR 0xE5, CHR 0x9B,
     CHR 0xA0, CHR 0xE4, CHR 0xBA, CHR 0xA4, CHR 0xE6, CHR 0x98, CHR 0x93, CHR 0xE6, CHR 0x89,
     CHR 0x80, CHR 0xE8, CHR 0x8A, CHR 0x82, CHR 0xE5, CHR 0x81, CHR 0x87, CHR 0xE6, CHR 0x97,
     CHR 0xA5, CHR 0xE4, CHR 0xBC, CHR 0x91, CHR 0xE5, CHR 0xB8, CHR 0x82, CHR 0xEF, CHR 0xBC,
     CHR 0x9B, CHR 0xE5, CHR 0x85, CHR 0xB6, CHR 0xE4, CHR 0xBB, CHR 0x96, CHR 0xE5, CHR 0x9C,
     CHR 0xB0, CHR 0xE5, CHR 0x8C, CHR 0xBA, CHR 0xE6, CHR 0x8C, CHR 0x89, CHR 0xE6, CHR 0xAD,
     CHR 0xA3, CHR 0xE5, CHR 0xB8, CHR 0xB8, CHR 0xE8, CHR 0xBE, CHR 0x93, CHR 0xE5, CHR 0x85,
     CHR 0xA5, CHR 0xE9, CHR 0x97, CHR 0xA8, CHR 0xE7, CHR 0xA6, CHR 0x81, CHR 0xE3, CHR 0x80,
     CHR 0x82]"

definition txt_sum_ingestion :: string where
  "txt_sum_ingestion =
     [CHR 0xE5, CHR 0xBF, CHR 0x85, CHR 0xE9, CHR 0x9C, CHR 0x80, CHR 0xE9, CHR 0x87, CHR 0x87,
     CHR 0xE9, CHR 0x9B, CHR 0x86, CHR 0xE4, CHR 0xBB, CHR 0xBB, CHR 0xE5, CHR 0x8A, CHR 0xA1,
     CHR 0xE6, CHR 0x9C, CHR 0xAA, CHR 0xE6, CHR 0x88, CHR 0x90, CHR 0xE5, CHR 0x8A, CHR 0x9F,
     CHR 0xE5, CHR 0xAE, CHR 0x8C, CHR 0xE6, CHR 0x88, CHR 0x90, CHR 0xEF, CHR 0xBC, CHR 0x8C,
     CHR 0xE6, CHR 0xAD, CHR 0xA3, CHR 0xE5, CHR 0xB8, CHR 0xB8, CHR 0xE6, CHR 0x97, CHR 0xA5,
     CHR 0xE6, CHR 0x8A, CHR 0xA5, CHR 0xE5, CHR 0xB7, CHR 0xB2, CHR 0xE9, CHR 0x98, CHR 0xBB,
     CHR 0xE6, CHR 0x96, CHR 0xAD, CHR 0xE3, CHR 0x80, CHR 0x82]"

definition txt_sum_quality_gate :: string where
  "txt_sum_quality_gate =
     ''08:15 '' @ [CHR 0xE8, CHR 0xBE, CHR 0x93, CHR 0xE5, CHR 0x85, CHR 0xA5, CHR 0xE5,
     CHR 0xBF, CHR 0xAB, CHR 0xE7, CHR 0x85, CHR 0xA7, CHR 0xE6, CHR 0x9C, CHR 0xAA, CHR 0xE6,
     CHR 0xBB, CHR 0xA1, CHR 0xE8, CHR 0xB6, CHR 0xB3, CHR 0xE8, CHR 0xB4, CHR 0xA8, CHR 0xE9,
     CHR 0x87, CHR 0x8F, CHR 0xE9, CHR 0x97, CHR 0xA8, CHR 0xE7, CHR 0xA6, CHR 0x81, CHR 0xEF,
     CHR 0xBC, CHR 0x8C, CHR 0xE6, CHR 0xAD, CHR 0xA3, CHR 0xE5, CHR 0xB8, CHR 0xB8, CHR 0xE6,
     CHR 0x97, CHR 0xA5, CHR 0xE6, CHR 0x8A, CHR 0xA5, CHR 0xE5, CHR 0xB7, CHR 0xB2, CHR 0xE9,
     CHR 0x98, CHR 0xBB, CHR 0xE6, CHR 0x96, CHR 0xAD, CHR 0xE3, CHR 0x80, CHR 0x82]"

definition txt_sum_generation :: string where
  "txt_sum_generation =
     [CHR 0xE6, CHR 0x8A, CHR 0xA5, CHR 0xE5, CHR 0x91, CHR 0x8A, CHR 0xE7, CHR 0x94, CHR 0x9F,
     CHR 0xE6, CHR 0x88, CHR 0x90, CHR 0xE6, CHR 0x9C, CHR 0xAA, CHR 0xE5, CHR 0xAE, CHR 0x89,
     CHR 0xE5, CHR 0x85, CHR 0xA8, CHR 0xE5, CHR 0xAE, CHR 0x8C, CHR 0xE6, CHR 0x88, CHR 0x90,
     CHR 0xEF, CHR 0xBC, CHR 0x8C, CHR 0xE6, CHR 0xAD, CHR 0xA3, CHR 0xE5, CHR 0xB8, CHR 0xB8,
     CHR 0xE6, CHR 0x97, CHR 0xA5, CHR 0xE6, CHR 0x8A, CHR 0xA5, CHR 0xE5, CHR 0xB7, CHR 0xB2,
     CHR 0xE9, CHR 0x98, CHR 0xBB, CHR 0xE6, CHR 0x96, CHR 0xAD, CHR 0xE3, CHR 0x80, CHR 0x82]"

definition txt_sum_validation :: string where
  "txt_sum_validation =
     [CHR 0xE6, CHR 0x8A, CHR 0xA5, CHR 0xE5, CHR 0x91, CHR 0x8A, CHR 0xE6, CHR 0x9C, CHR 0xAA,
     CHR 0xE9, CHR 0x80, CHR 0x9A, CHR 0xE8, CHR 0xBF, CHR 0x87, CHR 0xE4, CHR 0xBA, CHR 0x8B,
     CHR 0xE5, CHR 0xAE, CHR 0x9E, CHR 0xE4, CHR 0xB8, CHR 0x8E, CHR 0xE5, CHR 0xBC, CHR 0x95,
     CHR 0xE7, CHR 0x94, CHR 0xA8, CHR 0xE6, CHR 0xA0, CHR 0xA1, CHR 0xE9, CHR 0xAA, CHR 0x8C,
     CHR 0xEF, CHR 0xBC, CHR 0x8C, CHR 0xE6, CHR 0xAD, CHR 0xA3, CHR 0xE5, CHR 0xB8, CHR 0xB8,
     CHR 0xE6, CHR 0x97, CHR 0xA5, CHR 0xE6, CHR 0x8A, CHR 0xA5, CHR 0xE5, CHR 0xB7, CHR 0xB2,
     CHR 0xE9, CHR 0x98, CHR 0xBB, CHR 0xE6, CHR 0x96, CHR 0xAD, CHR 0xE3, CHR 0x80, CHR 0x82]"

definition txt_sum_delivery :: string where
  "txt_sum_delivery =
     [CHR 0xE6, CHR 0xAD, CHR 0xA3, CHR 0xE5, CHR 0xB8, CHR 0xB8, CHR 0xE6, CHR 0x97, CHR 0xA5,
     CHR 0xE6, CHR 0x8A, CHR 0xA5, CHR 0xE6, CHR 0x9C, CHR 0xAA, CHR 0xE8, CHR 0x83, CHR 0xBD,
     CHR 0xE7, CHR 0xA1, CHR 0xAE, CHR 0xE8, CHR 0xAE, CHR 0xA4, CHR 0xE9, CHR 0x80, CHR 0x81,
     CHR 0xE8, CHR 0xBE, CHR 0xBE, CHR 0xE6, CHR 0x97, CHR 0xA5, CHR 0xE6, CHR 0x8A, CHR 0xA5,
     CHR 0xE7, CHR 0xBE, CHR 0xA4, CHR 0xE3, CHR 0x80, CHR 0x82]"

definition txt_sum_scheduler :: string where
  "txt_sum_scheduler =
     [CHR 0xE5, CHR 0xAE, CHR 0x9A, CHR 0xE6, CHR 0x97, CHR 0xB6] @ '' worker '' @ [CHR 0xE6,
     CHR 0x9C, CHR 0xAA, CHR 0xE8, CHR 0x83, CHR 0xBD, CHR 0xE5, CHR 0xAE, CHR 0x89, CHR 0xE5,
     CHR 0x85, CHR 0xA8, CHR 0xE5, CHR 0xAE, CHR 0x8C, CHR 0xE6, CHR 0x88, CHR 0x90, CHR 0xE6,
     CHR 0x9C, CHR 0xAC, CHR 0xE6, CHR 0x8A, CHR 0xA5, CHR 0xE5, CHR 0x91, CHR 0x8A, CHR 0xE6,
     CHR 0x97, CHR 0xA5, CHR 0xE6, CHR 0x9C, CHR 0x9F, CHR 0xE3, CHR 0x80, CHR 0x82]"

definition txt_paren_open :: string where
  "txt_paren_open =
     [CHR 0xEF, CHR 0xBC, CHR 0x88]"

definition txt_paren_close :: string where
  "txt_paren_close =
     [CHR 0xEF, CHR 0xBC, CHR 0x89]"

definition txt_retry_new_head :: string where
  "txt_retry_new_head =
     [CHR 0xE5, CHR 0x85, CHR 0x88, CHR 0xE6, CHR 0xA0, CHR 0xB8, CHR 0xE5, CHR 0xAF, CHR 0xB9,
     CHR 0xE6, CHR 0x97, CHR 0xA5, CHR 0xE6, CHR 0x8A, CHR 0xA5, CHR 0xE7, CHR 0xBE, CHR 0xA4,
     CHR 0xE5, CHR 0x92, CHR 0x8C, CHR 0xE6, CHR 0x8A, CHR 0x95, CHR 0xE9, CHR 0x80, CHR 0x92,
     CHR 0xE5, CHR 0xAE, CHR 0xA1, CHR 0xE8, CHR 0xAE, CHR 0xA1, CHR 0xEF, CHR 0xBC, CHR 0x8C,
     CHR 0xE7, CHR 0xA1, CHR 0xAE, CHR 0xE8, CHR 0xAE, CHR 0xA4, CHR 0xE6, CHR 0xB2, CHR 0xA1,
     CHR 0xE6, CHR 0x9C, CHR 0x89, CHR 0xE5, CHR 0xB7, CHR 0xB2, CHR 0xE9, CHR 0x80, CHR 0x81,
     CHR 0xE8, CHR 0xBE, CHR 0xBE, CHR 0xE6, CHR 0xB6, CHR 0x88, CHR 0xE6, CHR 0x81, CHR 0xAF,
     CHR 0xEF, CHR 0xBC, CHR 0x9B, CHR 0xE4, CHR 0xBF, CHR 0xAE, CHR 0xE5, CHR 0xA4, CHR 0x8D,
     CHR 0xE5, CHR 0x8E, CHR 0x9F, CHR 0xE5, CHR 0x9B, CHR 0xA0, CHR 0xE5, CHR 0x90, CHR 0x8E,
     CHR 0xE4, CHR 0xBD, CHR 0xBF, CHR 0xE7, CHR 0x94, CHR 0xA8, CHR 0xE6, CHR 0x96, CHR 0xB0,
     CHR 0xE7, CHR 0x9A, CHR 0x84, CHR 0xE5, CHR 0xAE, CHR 0xA1, CHR 0xE6, CHR 0xA0, CHR 0xB8,
     CHR 0xE7, CHR 0x89, CHR 0x88, CHR 0xE6, CHR 0x9C, CHR 0xAC, CHR 0xE6, CHR 0x89, CHR 0xA7,
     CHR 0xE8, CHR 0xA1, CHR 0x8C] @ '' '' @ [CHR 0x60]"

definition txt_retry_new_tail :: string where
  "txt_retry_new_tail =
     [CHR 0x60, CHR 0xE3, CHR 0x80, CHR 0x82, CHR 0xE5, CHR 0x90, CHR 0x8C, CHR 0xE4, CHR 0xB8,
     CHR 0x80, CHR 0xE7, CHR 0x89, CHR 0x88, CHR 0xE6, CHR 0x9C, CHR 0xAC, CHR 0xE4, CHR 0xB8,
     CHR 0x8D, CHR 0xE8, CHR 0xA6, CHR 0x81, CHR 0xE7, CHR 0x9B, CHR 0xB4, CHR 0xE6, CHR 0x8E,
     CHR 0xA5, CHR 0xE9, CHR 0x87, CHR 0x8D, CHR 0xE5, CHR 0x8F, CHR 0x91, CHR 0xE3, CHR 0x80,
     CHR 0x82]"

definition txt_retry_same_head :: string where
  "txt_retry_same_head =
     [CHR 0xE7, CHR 0xA1, CHR 0xAE, CHR 0xE8, CHR 0xAE, CHR 0xA4, CHR 0xE4, CHR 0xBE, CHR 0x9D,
     CHR 0xE8, CHR 0xB5, CHR 0x96, CHR 0xE6, CHR 0x81, CHR 0xA2, CHR 0xE5, CHR 0xA4, CHR 0x8D,
     CHR 0xE5, CHR 0xB9, CHR 0xB6, CHR 0xE6, CHR 0xA0, CHR 0xB8, CHR 0xE5, CHR 0xAF, CHR 0xB9,
     CHR 0xE5, CHR 0xAE, CHR 0xA1, CHR 0xE8, CHR 0xAE, CHR 0xA1, CHR 0xE8, CHR 0xAE, CHR 0xB0,
     CHR 0xE5, CHR 0xBD, CHR 0x95, CHR 0xE5, CHR 0x90, CHR 0x8E, CHR 0xEF, CHR 0xBC, CHR 0x8C,
     CHR 0xE6, CHR 0x89, CHR 0xA7, CHR 0xE8, CHR 0xA1, CHR 0x8C] @ '' '' @ [CHR 0x60]"

definition txt_retry_same_tail :: string where
  "txt_retry_same_tail =
     [CHR 0x60, CHR 0xE3, CHR 0x80, CHR 0x82, CHR 0xE5, CHR 0x90, CHR 0x8C, CHR 0xE4, CHR 0xB8,
     CHR 0x80, CHR 0xE7, CHR 0x89, CHR 0x88, CHR 0xE6, CHR 0x9C, CHR 0xAC, CHR 0xE4, CHR 0xBC,
     CHR 0x9A, CHR 0xE5, CHR 0xB9, CHR 0x82, CHR 0xE7, CHR 0xAD, CHR 0x89, CHR 0xE5, CHR 0xA4,
     CHR 0x8D, CHR 0xE6, CHR 0x94, CHR 0xBE, CHR 0xE3, CHR 0x80, CHR 0x82]"

definition txt_group :: string where
  "txt_group =
     [CHR 0xE7, CHR 0xBE, CHR 0xA4]"

definition txt_none :: string where
  "txt_none =
     [CHR 0xE6, CHR 0x97, CHR 0xA0]"

definition txt_list_sep :: string where
  "txt_list_sep =
     [CHR 0xE3, CHR 0x80, CHR 0x81]"

definition txt_alert_title :: string where
  "txt_alert_title =
     [CHR 0xE5, CHR 0xAE, CHR 0x8F, CHR 0xE8, CHR 0xA7, CHR 0x82, CHR 0xE6, CHR 0x97, CHR 0xA5,
     CHR 0xE6, CHR 0x8A, CHR 0xA5, CHR 0xE8, CHR 0xBF, CHR 0x90, CHR 0xE8, CHR 0xA1, CHR 0x8C,
     CHR 0xE9, CHR 0xA2, CHR 0x84, CHR 0xE8, CHR 0xAD, CHR 0xA6] @ '' '' @ [CHR 0xC2, CHR 0xB7]
     @ '' ''"

definition txt_alert_stage :: string where
  "txt_alert_stage =
     ''**'' @ [CHR 0xE9, CHR 0x98, CHR 0xB6, CHR 0xE6, CHR 0xAE, CHR 0xB5] @ ''**''
     @ [CHR 0xEF, CHR 0xBC, CHR 0x9A]"

definition txt_alert_code :: string where
  "txt_alert_code =
     [CHR 0x0A] @ ''**'' @ [CHR 0xE9, CHR 0x94, CHR 0x99, CHR 0xE8, CHR 0xAF, CHR 0xAF,
     CHR 0xE7, CHR 0xA0, CHR 0x81] @ ''**'' @ [CHR 0xEF, CHR 0xBC, CHR 0x9A]"

definition txt_alert_run :: string where
  "txt_alert_run =
     [CHR 0x0A] @ ''**Workflow Run ID**'' @ [CHR 0xEF, CHR 0xBC, CHR 0x9A]"

definition txt_alert_providers :: string where
  "txt_alert_providers =
     [CHR 0x0A] @ ''**Provider Run IDs**'' @ [CHR 0xEF, CHR 0xBC, CHR 0x9A]"

definition txt_alert_summary :: string where
  "txt_alert_summary =
     ''**'' @ [CHR 0xE7, CHR 0x8E, CHR 0xB0, CHR 0xE8, CHR 0xB1, CHR 0xA1] @ ''**''
     @ [CHR 0x0A]"

definition txt_alert_retry :: string where
  "txt_alert_retry =
     ''**'' @ [CHR 0xE5, CHR 0xAE, CHR 0x89, CHR 0xE5, CHR 0x85, CHR 0xA8, CHR 0xE5, CHR 0xA4,
     CHR 0x84, CHR 0xE7, CHR 0xBD, CHR 0xAE] @ ''**'' @ [CHR 0x0A]"

definition txt_alert_footer :: string where
  "txt_alert_footer =
     [CHR 0xE8, CHR 0xAF, CHR 0xB7, CHR 0xE5, CHR 0x85, CHR 0x88, CHR 0xE6, CHR 0xA0, CHR 0xB8,
     CHR 0xE5, CHR 0xAF, CHR 0xB9, CHR 0xE8, CHR 0xBF, CHR 0x90, CHR 0xE8, CHR 0xA1, CHR 0x8C,
     CHR 0xE5, CHR 0xAE, CHR 0xA1, CHR 0xE8, CHR 0xAE, CHR 0xA1, CHR 0xE5, CHR 0x92, CHR 0x8C,
     CHR 0xE7, CHR 0x9B, CHR 0xAE, CHR 0xE6, CHR 0xA0, CHR 0x87, CHR 0xE7, CHR 0xBE, CHR 0xA4,
     CHR 0xEF, CHR 0xBC, CHR 0x8C, CHR 0xE5, CHR 0x86, CHR 0x8D, CHR 0xE6, CHR 0x89, CHR 0xA7,
     CHR 0xE8, CHR 0xA1, CHR 0x8C, CHR 0xE6, CHR 0x8C, CHR 0x89, CHR 0xE6, CHR 0x97, CHR 0xA5,
     CHR 0xE6, CHR 0x9C, CHR 0x9F, CHR 0xE9, CHR 0x87, CHR 0x8D, CHR 0xE8, CHR 0xAF, CHR 0x95,
     CHR 0xE3, CHR 0x80, CHR 0x82]"

definition txt_card_title :: string where
  "txt_card_title =
     [CHR 0xE5, CHR 0xAE, CHR 0x8F, CHR 0xE8, CHR 0xA7, CHR 0x82, CHR 0xE6, CHR 0x97, CHR 0xA5,
     CHR 0xE6, CHR 0x8A, CHR 0xA5] @ '' '' @ [CHR 0xC2, CHR 0xB7] @ '' ''"

definition txt_card_summary :: string where
  "txt_card_summary =
     ''**'' @ [CHR 0xE6, CHR 0x91, CHR 0x98, CHR 0xE8, CHR 0xA6, CHR 0x81] @ ''**''
     @ [CHR 0x0A]"

definition txt_card_cn :: string where
  "txt_card_cn =
     ''**'' @ [CHR 0xE4, CHR 0xB8, CHR 0xAD, CHR 0xE5, CHR 0x9B, CHR 0xBD, CHR 0xE5, CHR 0x86,
     CHR 0x85, CHR 0xE5, CHR 0x9C, CHR 0xB0] @ ''**'' @ [CHR 0x0A]"

definition txt_card_hk :: string where
  "txt_card_hk =
     ''**'' @ [CHR 0xE9, CHR 0xA6, CHR 0x99, CHR 0xE6, CHR 0xB8, CHR 0xAF] @ ''**''
     @ [CHR 0x0A]"

definition txt_card_us :: string where
  "txt_card_us =
     ''**'' @ [CHR 0xE7, CHR 0xBE, CHR 0x8E, CHR 0xE5, CHR 0x9B, CHR 0xBD] @ ''**''
     @ [CHR 0x0A]"

definition txt_card_calendar :: string where
  "txt_card_calendar =
     ''**'' @ [CHR 0xE6, CHR 0x9C, CHR 0xAA, CHR 0xE6, CHR 0x9D, CHR 0xA5, CHR 0xE6, CHR 0x97,
     CHR 0xA5, CHR 0xE7, CHR 0xA8, CHR 0x8B] @ ''**'' @ [CHR 0x0A]"

definition txt_card_quality :: string where
  "txt_card_quality =
     ''**'' @ [CHR 0xE6, CHR 0x95, CHR 0xB0, CHR 0xE6, CHR 0x8D, CHR 0xAE, CHR 0xE8, CHR 0xB4,
     CHR 0xA8, CHR 0xE9, CHR 0x87, CHR 0x8F] @ ''**'' @ [CHR 0x0A]"

definition txt_card_sources :: string where
  "txt_card_sources =
     ''**'' @ [CHR 0xE6, CHR 0x9D, CHR 0xA5, CHR 0xE6, CHR 0xBA, CHR 0x90] @ ''**''
     @ [CHR 0x0A]"

definition txt_card_verified :: string where
  "txt_card_verified =
     '' '' @ [CHR 0xC2, CHR 0xB7] @ '' '' @ [CHR 0xE4, CHR 0xBB, CHR 0x85, CHR 0xE5, CHR 0xB1,
     CHR 0x95, CHR 0xE7, CHR 0xA4, CHR 0xBA, CHR 0xE5, CHR 0xB7, CHR 0xB2, CHR 0xE9, CHR 0xAA,
     CHR 0x8C, CHR 0xE8, CHR 0xAF, CHR 0x81, CHR 0xE4, CHR 0xBA, CHR 0x8B, CHR 0xE5, CHR 0xAE,
     CHR 0x9E]"

definition txt_no_data :: string where
  "txt_no_data =
     [CHR 0xE6, CHR 0x9A, CHR 0x82, CHR 0xE6, CHR 0x97, CHR 0xA0, CHR 0xE5, CHR 0x8F, CHR 0xAF,
     CHR 0xE7, CHR 0x94, CHR 0xA8, CHR 0xE6, CHR 0x95, CHR 0xB0, CHR 0xE6, CHR 0x8D, CHR 0xAE]"

definition txt_no_sources :: string where
  "txt_no_sources =
     [CHR 0xE6, CHR 0x8A, CHR 0xA5, CHR 0xE5, CHR 0x91, CHR 0x8A, CHR 0xE6, CHR 0x9C, CHR 0xAA,
     CHR 0xE6, CHR 0x8F, CHR 0x90, CHR 0xE4, CHR 0xBE, CHR 0x9B, CHR 0xE6, CHR 0x9D, CHR 0xA5,
     CHR 0xE6, CHR 0xBA, CHR 0x90, CHR 0xE9, CHR 0x93, CHR 0xBE, CHR 0xE6, CHR 0x8E, CHR 0xA5]"

definition txt_bullet :: string where
  "txt_bullet =
     [CHR 0xE2, CHR 0x80, CHR 0xA2] @ '' ''"

definition txt_quality_passed :: string where
  "txt_quality_passed =
     [CHR 0xE5, CHR 0xBF, CHR 0x85, CHR 0xE9, CHR 0x9C, CHR 0x80, CHR 0xE6, CHR 0x95, CHR 0xB0,
     CHR 0xE6, CHR 0x8D, CHR 0xAE, CHR 0xE5, CHR 0x9D, CHR 0x87, CHR 0xE5, CHR 0xB7, CHR 0xB2,
     CHR 0xE9, CHR 0x80, CHR 0x9A, CHR 0xE8, CHR 0xBF, CHR 0x87, CHR 0xE8, CHR 0xB4, CHR 0xA8,
     CHR 0xE9, CHR 0x87, CHR 0x8F, CHR 0xE6, CHR 0xA0, CHR 0xA1, CHR 0xE9, CHR 0xAA, CHR 0x8C,
     CHR 0xE3, CHR 0x80, CHR 0x82]"

definition txt_quality_incomplete :: string where
  "txt_quality_incomplete =
     [CHR 0xE6, CHR 0x97, CHR 0xA5, CHR 0xE6, CHR 0x8A, CHR 0xA5, CHR 0xE6, CHR 0x9C, CHR 0xAA,
     CHR 0xE5, CHR 0x8F, CHR 0x91, CHR 0xE5, CHR 0xB8, CHR 0x83, CHR 0xEF, CHR 0xBC, CHR 0x9A,
     CHR 0xE5, CHR 0xBF, CHR 0x85, CHR 0xE9, CHR 0x9C, CHR 0x80, CHR 0xE6, CHR 0x95, CHR 0xB0,
     CHR 0xE6, CHR 0x8D, CHR 0xAE, CHR 0xE6, CHR 0x9C, CHR 0xAA, CHR 0xE6, CHR 0xBB, CHR 0xA1,
     CHR 0xE8, CHR 0xB6, CHR 0xB3, CHR 0xE8, CHR 0xB4, CHR 0xA8, CHR 0xE9, CHR 0x87, CHR 0x8F,
     CHR 0xE6, CHR 0xA0, CHR 0xA1, CHR 0xE9, CHR 0xAA, CHR 0x8C, CHR 0xE3, CHR 0x80, CHR 0x82]"

definition txt_quality_degraded :: string where
  "txt_quality_degraded =
     [CHR 0xE9, CHR 0x83, CHR 0xA8, CHR 0xE5, CHR 0x88, CHR 0x86, CHR 0xE5, CHR 0x8F, CHR 0xAF,
     CHR 0xE9, CHR 0x80, CHR 0x89, CHR 0xE6, CHR 0x95, CHR 0xB0, CHR 0xE6, CHR 0x8D, CHR 0xAE,
     CHR 0xE4, CHR 0xB8, CHR 0x8D, CHR 0xE5, CHR 0x8F, CHR 0xAF, CHR 0xE7, CHR 0x94, CHR 0xA8,
     CHR 0xEF, CHR 0xBC, CHR 0x8C, CHR 0xE6, CHR 0x97, CHR 0xA5, CHR 0xE6, CHR 0x8A, CHR 0xA5,
     CHR 0xE5, CHR 0xB7, CHR 0xB2, CHR 0xE9, CHR 0x99, CHR 0x8D, CHR 0xE7, CHR 0xBA, CHR 0xA7,
     CHR 0xE3, CHR 0x80, CHR 0x82]"

definition txt_data_unavailable :: string where
  "txt_data_unavailable =
     [CHR 0xE6, CHR 0x95, CHR 0xB0, CHR 0xE6, CHR 0x8D, CHR 0xAE, CHR 0xE4, CHR 0xB8, CHR 0x8D,
     CHR 0xE5, CHR 0x8F, CHR 0xAF, CHR 0xE7, CHR 0x94, CHR 0xA8, CHR 0xE3, CHR 0x80, CHR 0x82]"

definition txt_no_facts :: string where
  "txt_no_facts =
     [CHR 0xE6, CHR 0x9A, CHR 0x82, CHR 0xE6, CHR 0x97, CHR 0xA0, CHR 0xE5, CHR 0xB7, CHR 0xB2,
     CHR 0xE9, CHR 0xAA, CHR 0x8C, CHR 0xE8, CHR 0xAF, CHR 0x81, CHR 0xE4, CHR 0xBA, CHR 0x8B,
     CHR 0xE5, CHR 0xAE, CHR 0x9E, CHR 0xE3, CHR 0x80, CHR 0x82]"

end
