(* ===== verification/Report_Day_Policy.thy ===== *)
theory Report_Day_Policy
  imports Json_Values Time_Model Message_Texts
begin

text \<open>
  \<open>services/report_day_policy.py\<close>: which market inputs a report date requires. The package
  \<open>exchange_calendars\<close> is outside the repository: its calendars are the parameter
  \<open>exchange\<close>. Also the enumerations \<open>Region\<close> and \<open>Dataset\<close> of the contracts.
\<close>

section \<open>Enumerations of the contracts\<close>

datatype region = CN | HK | US | GLOBAL

fun region_value :: "region \<Rightarrow> string" where
  "region_value CN = ''CN''"
| "region_value HK = ''HK''"
| "region_value US = ''US''"
| "region_value GLOBAL = ''GLOBAL''"

text \<open>\<open>Region(value)\<close>: a ValueError for any other text.\<close>

definition region_of :: "string \<Rightarrow> exn + region" where
  "region_of s = (if s = ''CN'' then Inr CN else if s = ''HK'' then Inr HK
     else if s = ''US'' then Inr US else if s = ''GLOBAL'' then Inr GLOBAL else Inl ValueError)"

lemma region_of_value [simp]: "region_of (region_value r) = Inr r"
  by (cases r) (simp_all add: region_of_def)

datatype dataset =
  Instruments | Bars | Market_observations | Macro_series | Macro_observations | Macro_releases | News

fun dataset_value :: "dataset \<Rightarrow> string" where
  "dataset_value Instruments = ''instruments''"
| "dataset_value Bars = ''bars''"
| "dataset_value Market_observations = ''market_observations''"
| "dataset_value Macro_series = ''macro_series''"
| "dataset_value Macro_observations = ''macro_observations''"
| "dataset_value Macro_releases = ''macro_releases''"
| "dataset_value News = ''news''"

definition all_datasets :: "dataset list" where
  "all_datasets = [Instruments, Bars, Market_observations, Macro_series, Macro_observations,
     Macro_releases, News]"

definition dataset_of :: "string \<Rightarrow> exn + dataset" where
  "dataset_of s = (case find (\<lambda>d. dataset_value d = s) all_datasets of
     None \<Rightarrow> Inl ValueError | Some d \<Rightarrow> Inr d)"

lemma dataset_of_value [simp]: "dataset_of (dataset_value d) = Inr d"
  by (cases d) (simp_all add: dataset_of_def all_datasets_def)

lemma dataset_value_inj: "dataset_value a = dataset_value b \<Longrightarrow> a = b"
  by (metis dataset_of_value sum.inject(2))

lemma region_value_inj: "region_value a = region_value b \<Longrightarrow> a = b"
  by (metis region_of_value sum.inject(2))

section \<open>Constants\<close>

definition policy_id_v1 :: string where
  "policy_id_v1 = ''cn_hk_us_report_day_v1''"

definition always_required :: "string list" where
  "always_required =
     [''news.cn.official_headlines_24h'', ''news.hk.official_headlines_24h'',
      ''calendar.macro_releases_7d'']"

fun market_input_id :: "region \<Rightarrow> exn + string" where
  "market_input_id CN = Inr ''market.cn.core_indices.previous_close''"
| "market_input_id HK = Inr ''market.hk.core_indices.previous_close''"
| "market_input_id US = Inr ''market.us.core_indices.previous_close''"
| "market_input_id GLOBAL = Inl (OtherError ''KeyError'')"

fun venue_calendar :: "region \<Rightarrow> exn + string" where
  "venue_calendar CN = Inr ''XSHG''"
| "venue_calendar HK = Inr ''XHKG''"
| "venue_calendar US = Inr ''XNYS''"
| "venue_calendar GLOBAL = Inl (OtherError ''KeyError'')"

section \<open>The policy of a report date\<close>

datatype market_status = Scheduled_session | Weekend_closed | Exchange_holiday

fun market_status_text :: "market_status \<Rightarrow> string" where
  "market_status_text Scheduled_session = ''scheduled_session''"
| "market_status_text Weekend_closed = ''weekend_closed''"
| "market_status_text Exchange_holiday = ''exchange_holiday''"

datatype day_type = Regular | Weekend | Regional_holiday

fun day_type_text :: "day_type \<Rightarrow> string" where
  "day_type_text Regular = ''regular''"
| "day_type_text Weekend = ''weekend''"
| "day_type_text Regional_holiday = ''regional_holiday''"

record region_policy =
  rp_region :: string
  rp_calendar :: string
  rp_status :: market_status
  rp_input :: string
  rp_required :: bool
  rp_previous :: string

record day_policy =
  dp_policy_id :: string
  dp_calendar_version :: string
  dp_report_date :: string
  dp_day_type :: day_type
  dp_required :: "string list"
  dp_optional :: "string list"
  dp_regions :: "region_policy list"

text \<open>
  The calendars: sessions by calendar name and date, the session before a session, and the last
  session up to a date. Each call may raise.
\<close>

record exchange =
  is_session :: "string \<Rightarrow> date \<Rightarrow> exn + bool"
  previous_session :: "string \<Rightarrow> date \<Rightarrow> exn + date"
  last_session :: "string \<Rightarrow> date \<Rightarrow> exn + date"

text \<open>\<open>except (CalendarError, ValueError)\<close>.\<close>

definition is_value_error :: "exn \<Rightarrow> bool" where
  "is_value_error e \<longleftrightarrow> e \<in> {ValueError, ValidationError, ReportDayPolicyUnavailableError}"

definition is_calendar_error :: "exn \<Rightarrow> bool" where
  "is_calendar_error e \<longleftrightarrow> e = OtherError ''CalendarError'' \<or> is_value_error e"

definition market_day_status :: "bool \<Rightarrow> bool \<Rightarrow> market_status" where
  "market_day_status weekend session =
     (if weekend then Weekend_closed else if \<not> session then Exchange_holiday else Scheduled_session)"

definition session_lookup :: "exchange \<Rightarrow> string \<Rightarrow> date \<Rightarrow> exn + bool \<times> date" where
  "session_lookup ex cal d =
     bindE (is_session ex cal d) (\<lambda>s.
       bindE (if s then previous_session ex cal d else last_session ex cal d) (\<lambda>prev. Inr (s, prev)))"

definition region_day_policy :: "exchange \<Rightarrow> bool \<Rightarrow> date \<Rightarrow> region \<Rightarrow> exn + region_policy" where
  "region_day_policy ex weekend d r =
     bindE (venue_calendar r) (\<lambda>cal.
       case session_lookup ex cal d of
         Inl e \<Rightarrow> Inl (if is_calendar_error e then ReportDayPolicyUnavailableError else e)
       | Inr (s, prev) \<Rightarrow>
           bindE (market_input_id r) (\<lambda>mid.
             let status = market_day_status weekend s
             in Inr \<lparr>rp_region = region_value r, rp_calendar = cal, rp_status = status,
                  rp_input = mid, rp_required = (status = Scheduled_session),
                  rp_previous = isodate prev\<rparr>))"

definition evaluate_policy :: "exchange \<Rightarrow> string \<Rightarrow> date \<Rightarrow> exn + day_policy" where
  "evaluate_policy ex version d =
     (let weekend = 5 \<le> weekday d in
      bindE (mapE (region_day_policy ex weekend d) [CN, HK, US]) (\<lambda>regions.
        let req = map rp_input (filter rp_required regions);
            opt = map rp_input (filter (\<lambda>p. \<not> rp_required p) regions);
            day = (if weekend then Weekend else if opt \<noteq> [] then Regional_holiday else Regular)
        in Inr \<lparr>dp_policy_id = policy_id_v1, dp_calendar_version = version,
             dp_report_date = isodate d, dp_day_type = day,
             dp_required = sorted_set (always_required @ req), dp_optional = sorted_set opt,
             dp_regions = regions\<rparr>))"

text \<open>\<open>to_payload\<close>: the dataclass as nested dictionaries.\<close>

definition region_payload :: "region_policy \<Rightarrow> json" where
  "region_payload p = JObj [
     (''region'', JStr (rp_region p)), (''calendar_name'', JStr (rp_calendar p)),
     (''status'', JStr (market_status_text (rp_status p))),
     (''market_input_id'', JStr (rp_input p)), (''market_input_required'', JBool (rp_required p)),
     (''previous_session'', JStr (rp_previous p))]"

definition policy_payload :: "day_policy \<Rightarrow> json" where
  "policy_payload p = JObj [
     (''policy_id'', JStr (dp_policy_id p)), (''calendar_version'', JStr (dp_calendar_version p)),
     (''report_date'', JStr (dp_report_date p)), (''day_type'', JStr (day_type_text (dp_day_type p))),
     (''required_input_ids'', JList (map JStr (dp_required p))),
     (''optional_input_ids'', JList (map JStr (dp_optional p))),
     (''regions'', JList (map region_payload (dp_regions p)))]"

section \<open>The calendar of the report\<close>

definition calendar_obj :: "string \<Rightarrow> json \<Rightarrow> json" where
  "calendar_obj day notice = JObj [(''day_type'', JStr day), (''holiday_notice'', notice)]"

definition closed_region_names :: "json \<Rightarrow> string list" where
  "closed_region_names regions = (case regions of
     JList items \<Rightarrow> sort (concat (map (\<lambda>item. case item of
         JObj d \<Rightarrow> if jget d ''status'' = JStr ''exchange_holiday'' then [py_str (jget d ''region'')] else []
       | _ \<Rightarrow> []) items))
   | _ \<Rightarrow> [])"

definition report_calendar_payload :: "json \<Rightarrow> date \<Rightarrow> json" where
  "report_calendar_payload raw d =
     (case raw of
        JObj p \<Rightarrow>
          if jget p ''report_date'' \<noteq> JStr (isodate d)
          then calendar_obj (if 5 \<le> weekday d then ''weekend'' else ''business_day'') JNull
          else if jget p ''day_type'' = JStr ''weekend''
          then calendar_obj ''weekend'' (JStr txt_weekend_notice)
          else if jget p ''day_type'' = JStr ''regional_holiday''
               \<and> closed_region_names (jget p ''regions'') \<noteq> []
          then calendar_obj ''holiday''
                 (JStr (join '', '' (closed_region_names (jget p ''regions'')) @ txt_holiday_notice_tail))
          else calendar_obj ''business_day'' JNull
      | _ \<Rightarrow> calendar_obj (if 5 \<le> weekday d then ''weekend'' else ''business_day'') JNull)"

section \<open>What the policy is\<close>

lemma region_day_policy_Inr:
  assumes "region_day_policy ex weekend d r = Inr p"
  obtains s mid where "market_input_id r = Inr mid" "rp_region p = region_value r"
    "rp_input p = mid" "rp_status p = market_day_status weekend s"
    "rp_required p = (market_day_status weekend s = Scheduled_session)"
proof -
  from assms obtain cal where cal: "(case session_lookup ex cal d of
         Inl e \<Rightarrow> Inl (if is_calendar_error e then ReportDayPolicyUnavailableError else e)
       | Inr (s, prev) \<Rightarrow>
           bindE (market_input_id r) (\<lambda>mid.
             let status = market_day_status weekend s
             in Inr \<lparr>rp_region = region_value r, rp_calendar = cal, rp_status = status,
                  rp_input = mid, rp_required = (status = Scheduled_session),
                  rp_previous = isodate prev\<rparr>)) = Inr p"
    by (auto simp: region_day_policy_def bindE_eq_Inr)
  then obtain s prev where "session_lookup ex cal d = Inr (s, prev)"
    by (cases "session_lookup ex cal d") auto
  with cal show ?thesis by (auto simp: bindE_eq_Inr Let_def intro: that)
qed

lemma evaluate_policy_Inr:
  assumes "evaluate_policy ex version d = Inr p"
  obtains c h u where "dp_regions p = [c, h, u]"
    "region_day_policy ex (5 \<le> weekday d) d CN = Inr c"
    "region_day_policy ex (5 \<le> weekday d) d HK = Inr h"
    "region_day_policy ex (5 \<le> weekday d) d US = Inr u"
    "dp_policy_id p = policy_id_v1" "dp_calendar_version p = version" "dp_report_date p = isodate d"
    "dp_required p = sorted_set (always_required @ map rp_input (filter rp_required [c, h, u]))"
    "dp_optional p = sorted_set (map rp_input (filter (\<lambda>p. \<not> rp_required p) [c, h, u]))"
    "dp_day_type p = (if 5 \<le> weekday d then Weekend
       else if filter (\<lambda>p. \<not> rp_required p) [c, h, u] \<noteq> [] then Regional_holiday else Regular)"
  using assms by (auto simp: evaluate_policy_def bindE_eq_Inr Let_def)

text \<open>Every input of the program is required or optional, never both.\<close>

definition market_inputs :: "string list" where
  "market_inputs = [''market.cn.core_indices.previous_close'',
     ''market.hk.core_indices.previous_close'', ''market.us.core_indices.previous_close'']"

end
