(* ===== verification/Quality_Gate.thy ===== *)
theory Quality_Gate
  imports Report_Day_Policy
begin

text \<open>
  \<open>services/report_input_quality.py\<close>: the decision on one immutable input snapshot, whether a
  report may be generated from it. The payload is any JSON document, so every shape check of the
  source is a branch here, with the TypeError that membership of a list or dictionary in a set
  raises. Also the stored snapshot, \<open>storage/reporting.py\<close>.
\<close>

section \<open>The stored snapshot\<close>

record input_snapshot =
  sn_id :: string
  sn_version :: string
  sn_report_date :: date
  sn_as_of :: instant
  sn_cutoff_at :: instant
  sn_fingerprint :: string
  sn_fact_ids :: "string list"
  sn_payload :: "(string \<times> json) list"

text \<open>
  \<open>validate_payload_contract\<close>: the payload must repeat the storage identity. A snapshot that
  fails it cannot be constructed.
\<close>

definition snapshot_identity :: "input_snapshot \<Rightarrow> (string \<times> json) list" where
  "snapshot_identity s = [(''snapshot_id'', JStr (sn_id s)), (''snapshot_version'', JStr (sn_version s)),
     (''as_of'', JStr (iso_utc (sn_as_of s))), (''cutoff_at'', JStr (iso_utc (sn_cutoff_at s))),
     (''fingerprint_sha256'', JStr (sn_fingerprint s)),
     (''fact_ids'', JList (map JStr (sn_fact_ids s)))]"

definition snapshot_contract :: "input_snapshot \<Rightarrow> bool" where
  "snapshot_contract s \<longleftrightarrow> (\<forall>(k, v) \<in> set (snapshot_identity s). jget (sn_payload s) k = v)"

section \<open>Issues and decisions\<close>

datatype gate_status = QPassed | QDegraded | QBlocked | QRetryable

record gate_issue =
  qi_input :: string
  qi_code :: string
  qi_message :: string
  qi_required :: bool

record gate_result =
  qr_status :: gate_status
  qr_issues :: "gate_issue list"

definition issue :: "string \<Rightarrow> string \<Rightarrow> string \<Rightarrow> bool \<Rightarrow> gate_issue" where
  "issue i c m r = \<lparr>qi_input = i, qi_code = c, qi_message = m, qi_required = r\<rparr>"

definition required_input_ids :: "string list" where
  "required_input_ids = always_required @ market_inputs"

definition blocking_statuses :: "string list" where
  "blocking_statuses = [''missing'', ''stale'', ''late'', ''unavailable'', ''quarantined'', ''invalid'']"

definition known_statuses :: "string list" where
  "known_statuses = blocking_statuses @ [''available'', ''revised'', ''retryable'']"

definition decision :: "gate_issue list \<Rightarrow> gate_status" where
  "decision issues =
     (if \<exists>i \<in> set issues. qi_required i \<and> \<not> starts_with ''RETRYABLE_'' (qi_code i)
           \<and> \<not> starts_with ''REVISED_'' (qi_code i) then QBlocked
      else if \<exists>i \<in> set issues. qi_required i \<and> starts_with ''RETRYABLE_'' (qi_code i) then QRetryable
      else if issues \<noteq> [] then QDegraded
      else QPassed)"

definition issue_for_status :: "string \<Rightarrow> json \<Rightarrow> string \<Rightarrow> bool \<Rightarrow> gate_issue option" where
  "issue_for_status i status reason r =
     (if status = JStr ''denied'' then None
      else case as_str status of
        None \<Rightarrow> Some (issue i (if r then ''INVALID_REQUIRED_INPUT_STATUS'' else ''INVALID_INPUT_STATUS'')
                 ''input quality status is not recognized'' r)
      | Some st \<Rightarrow>
          if st \<notin> set known_statuses
          then Some (issue i (if r then ''INVALID_REQUIRED_INPUT_STATUS'' else ''INVALID_INPUT_STATUS'')
                 ''input quality status is not recognized'' r)
          else if st = ''available'' then None
          else let suffix = (if r then ''REQUIRED_INPUT'' else ''OPTIONAL_INPUT'') in
               if st = ''revised'' then Some (issue i (''REVISED_'' @ suffix) reason r)
               else if st = ''retryable'' then Some (issue i (''RETRYABLE_'' @ suffix) reason r)
               else Some (issue i (upper st @ ''_'' @ suffix) reason r))"

text \<open>\<open>raw.get("required", False) is True\<close>: the default matters only for a missing key.\<close>

definition input_is_required :: "string list \<Rightarrow> string \<Rightarrow> json \<Rightarrow> bool" where
  "input_is_required req i raw =
     (if i \<in> set req then True
      else case as_obj raw of None \<Rightarrow> True | Some d \<Rightarrow> jget d ''required'' = JBool True)"

definition has_materialized_facts :: "input_snapshot \<Rightarrow> exn + bool" where
  "has_materialized_facts s =
     (case jget (sn_payload s) ''facts'' of
        JList raw \<Rightarrow>
          if sn_fact_ids s = [] \<or> raw = [] then Inr False
          else let ids = concat (map (\<lambda>f. case f of JObj d \<Rightarrow> [jget d ''fact_id''] | _ \<Rightarrow> []) raw) in
            if \<not> distinct (sn_fact_ids s) then Inr False
            else if length ids \<noteq> length raw \<or> length raw \<noteq> length (sn_fact_ids s) then Inr False
            else if \<not> list_all hashable ids then Inl TypeError
            else Inr (set ids = JStr ` set (sn_fact_ids s))
      | _ \<Rightarrow> Inr False)"

section \<open>The inputs a snapshot must have\<close>

text \<open>
  The loop over \<open>regions\<close>: \<open>observed\<close> maps a region to its status, \<open>closed\<close> holds the
  inputs of the regions whose market input is optional. None is the \<open>return False\<close> of the loop.
\<close>

definition expected_market_ids :: "(string \<times> string) list" where
  "expected_market_ids = zip [''CN'', ''HK'', ''US''] market_inputs"

fun scan_regions :: "json list \<Rightarrow> (string \<times> string) list \<Rightarrow> string list
    \<Rightarrow> exn + ((string \<times> string) list \<times> string list) option" where
  "scan_regions [] observed closed = Inr (Some (observed, closed))"
| "scan_regions (item # items) observed closed =
     (case item of
        JObj d \<Rightarrow>
          bindE (in_strs (jget d ''region'') (map fst expected_market_ids)) (\<lambda>known.
            case as_str (jget d ''region'') of
              None \<Rightarrow> Inr None
            | Some r \<Rightarrow>
                if \<not> known \<or> r \<in> fst ` set observed then Inr None
                else if jget d ''market_input_id'' \<noteq> JStr (the (map_of expected_market_ids r)) then Inr None
                else bindE (in_strs (jget d ''status'') (map market_status_text
                       [Scheduled_session, Weekend_closed, Exchange_holiday])) (\<lambda>ok.
                  case (as_str (jget d ''status''), jget d ''market_input_required'') of
                    (Some st, JBool req) \<Rightarrow>
                      if \<not> ok \<or> req \<noteq> (st = ''scheduled_session'') then Inr None
                      else scan_regions items ((r, st) # observed)
                             (if req then closed else the (map_of expected_market_ids r) # closed)
                  | _ \<Rightarrow> Inr None))
      | _ \<Rightarrow> Inr None)"

declare scan_regions.simps(2) [simp del]

definition policy_regions_match :: "(string \<times> json) list \<Rightarrow> date \<Rightarrow> string list \<Rightarrow> exn + bool" where
  "policy_regions_match raw d optional =
     bindE (in_strs (jget raw ''day_type'') [''regular'', ''weekend'', ''regional_holiday'']) (\<lambda>known.
       case (known, as_list (jget raw ''regions'')) of
         (True, Some items) \<Rightarrow>
           bindE (scan_regions items [] []) (\<lambda>scanned.
             case scanned of
               None \<Rightarrow> Inr False
             | Some (observed, closed) \<Rightarrow>
                 if fst ` set observed \<noteq> fst ` set expected_market_ids \<or> set closed \<noteq> set optional
                 then Inr False
                 else let statuses = snd ` set observed; day = jget raw ''day_type'' in
                   Inr ((day = JStr ''regular'' \<and> weekday d < 5 \<and> statuses = {''scheduled_session''})
                     \<or> (day = JStr ''weekend'' \<and> 5 \<le> weekday d \<and> statuses = {''weekend_closed''})
                     \<or> (day = JStr ''regional_holiday'' \<and> weekday d < 5 \<and> ''exchange_holiday'' \<in> statuses
                         \<and> statuses \<subseteq> {''scheduled_session'', ''exchange_holiday''})))
       | _ \<Rightarrow> Inr False)"

definition policy_invalid :: gate_issue where
  "policy_invalid = issue ''report.day_policy'' ''REPORT_DAY_POLICY_INVALID''
     ''report-day policy is incomplete or inconsistent with the input contract'' True"

definition inputs_for_snapshot ::
    "input_snapshot \<Rightarrow> exn + string list \<times> string list \<times> gate_issue option" where
  "inputs_for_snapshot s =
     (let invalid = (required_input_ids, [], Some policy_invalid) in
      case jget (sn_payload s) ''report_day_policy'' of
        JNull \<Rightarrow> Inr (required_input_ids, [], None)
      | JObj raw \<Rightarrow>
          if jget raw ''report_date'' \<noteq> JStr (isodate (sn_report_date s)) then Inr invalid
          else if jget raw ''policy_id'' \<noteq> JStr policy_id_v1 then Inr invalid
          else (case jget raw ''calendar_version'' of
            JStr v \<Rightarrow>
              if v = [] then Inr invalid
              else (case (as_list (jget raw ''required_input_ids''), as_list (jget raw ''optional_input_ids'')) of
                (Some rs, Some os) \<Rightarrow>
                  (case all_strs (rs @ os) of
                     None \<Rightarrow> Inr invalid
                   | Some ids \<Rightarrow>
                       let req = take (length rs) ids; opt = drop (length rs) ids in
                       if set req \<inter> set opt \<noteq> {} \<or> set req \<union> set opt \<noteq> set required_input_ids
                          \<or> \<not> set always_required \<subseteq> set req
                       then Inr invalid
                       else bindE (policy_regions_match raw (sn_report_date s) opt) (\<lambda>ok.
                              Inr (if ok then (req, opt, None) else invalid)))
              | _ \<Rightarrow> Inr invalid)
          | _ \<Rightarrow> Inr invalid)
      | _ \<Rightarrow> Inr invalid)"

section \<open>The gate\<close>

definition quality_of :: "input_snapshot \<Rightarrow> (string \<times> json) list" where
  "quality_of s = (case jget (sn_payload s) ''input_quality'' of JObj q \<Rightarrow> q | _ \<Rightarrow> [])"

definition missing_issues :: "(string \<times> json) list \<Rightarrow> string list \<Rightarrow> bool \<Rightarrow> gate_issue list" where
  "missing_issues q ids r =
     map (\<lambda>i. if r then issue i ''REQUIRED_INPUT_UNAVAILABLE'' ''required report input has no quality-gate result'' True
              else issue i ''OPTIONAL_INPUT_UNAVAILABLE'' ''closed-market input has no explicit quality-gate result'' False)
       (sorted_set (filter (\<lambda>i. i \<notin> fst ` set q) ids))"

definition closure_issues :: "(string \<times> json) list \<Rightarrow> string list \<Rightarrow> gate_issue list" where
  "closure_issues q opt =
     map (\<lambda>i. issue i ''SCHEDULED_MARKET_CLOSURE''
              ''market is closed for this report date; latest facts are optional'' False)
       (filter (\<lambda>i. case jget q i of JObj d \<Rightarrow> jget d ''status'' = JStr ''available'' | _ \<Rightarrow> False)
         (sorted_set (filter (\<lambda>i. i \<in> fst ` set q) opt)))"

definition entry_issues :: "string list \<Rightarrow> string \<Rightarrow> json \<Rightarrow> gate_issue list" where
  "entry_issues req i raw =
     (let r = input_is_required req i raw in
      case raw of
        JObj d \<Rightarrow>
          (if i \<in> set req \<and> jhas d ''required'' \<and> jget d ''required'' \<noteq> JBool True
           then [issue i ''REQUIRED_INPUT_DECLARATION_INVALID''
                   ''required report input cannot be downgraded to optional'' True] else [])
          @ (case issue_for_status i (jget d ''status'')
                    (py_str (if jhas d ''reason'' then jget d ''reason''
                             else JStr (''input status is '' @ py_str (jget d ''status'')))) r of
               None \<Rightarrow> [] | Some x \<Rightarrow> [x])
      | _ \<Rightarrow> [issue i (if r then ''INVALID_REQUIRED_INPUT_QUALITY'' else ''INVALID_OPTIONAL_INPUT_QUALITY'')
                ''input quality entry must be an object'' r])"

definition evaluate_quality :: "input_snapshot \<Rightarrow> exn + gate_result" where
  "evaluate_quality s =
     (let q = quality_of s in
      bindE (inputs_for_snapshot s) (\<lambda>(req, opt, policy_issue).
        let issues = (case policy_issue of None \<Rightarrow> [] | Some x \<Rightarrow> [x])
              @ missing_issues q req True @ missing_issues q opt False @ closure_issues q opt
              @ concat (map (\<lambda>i. entry_issues req i (jget q i)) (sorted_set (map fst q)))
        in bindE (has_materialized_facts s) (\<lambda>facts.
          let all_issues = issues @ (if facts then [] else
                [issue ''report.facts'' ''REQUIRED_FACTS_UNAVAILABLE''
                   ''approved input snapshot contains no materialized report facts'' True])
          in Inr \<lparr>qr_status = decision all_issues, qr_issues = all_issues\<rparr>)))"

section \<open>Severity\<close>

text \<open>The decisions in order of severity; a gate decision only ever rises with more issues.\<close>

instantiation gate_status :: linorder
begin

fun gate_rank :: "gate_status \<Rightarrow> nat" where
  "gate_rank QPassed = 0"
| "gate_rank QDegraded = 1"
| "gate_rank QRetryable = 2"
| "gate_rank QBlocked = 3"

definition less_eq_gate_status :: "gate_status \<Rightarrow> gate_status \<Rightarrow> bool" where
  "less_eq_gate_status a b \<longleftrightarrow> gate_rank a \<le> gate_rank b"

definition less_gate_status :: "gate_status \<Rightarrow> gate_status \<Rightarrow> bool" where
  "less_gate_status a b \<longleftrightarrow> gate_rank a < gate_rank b"

instance
proof
  fix a b c :: gate_status
  show "a < b \<longleftrightarrow> a \<le> b \<and> \<not> b \<le> a"
    by (auto simp: less_eq_gate_status_def less_gate_status_def)
  show "a \<le> a" "a \<le> b \<Longrightarrow> b \<le> c \<Longrightarrow> a \<le> c" "a \<le> b \<or> b \<le> a"
    by (auto simp: less_eq_gate_status_def)
  show "a \<le> b \<Longrightarrow> b \<le> a \<Longrightarrow> a = b"
    by (cases a; cases b) (simp_all add: less_eq_gate_status_def)
qed

end

lemmas gate_order_defs = less_eq_gate_status_def less_gate_status_def

text \<open>The severity of one issue, and the decision as the greatest of them.\<close>

definition issue_severity :: "gate_issue \<Rightarrow> gate_status" where
  "issue_severity i =
     (if \<not> qi_required i then QDegraded
      else if starts_with ''RETRYABLE_'' (qi_code i) then QRetryable
      else if starts_with ''REVISED_'' (qi_code i) then QDegraded
      else QBlocked)"

lemma prefixes_differ: "starts_with ''RETRYABLE_'' c \<Longrightarrow> \<not> starts_with ''REVISED_'' c"
  by (auto simp: starts_with_iff)

lemma decision_lower: "i \<in> set issues \<Longrightarrow> issue_severity i \<le> decision issues"
  by (auto simp: decision_def issue_severity_def gate_order_defs)

lemma decision_attained: "decision issues = QPassed \<or> (\<exists>i \<in> set issues. issue_severity i = decision issues)"
proof (cases "decision issues")
  case QDegraded
  then obtain i where "i \<in> set issues" by (cases issues) (auto simp: decision_def)
  moreover have "issue_severity i = QDegraded"
    using QDegraded \<open>i \<in> set issues\<close> by (auto simp: decision_def issue_severity_def split: if_splits)
  ultimately show ?thesis using QDegraded by auto
next
  case QBlocked
  then show ?thesis by (auto simp: decision_def issue_severity_def split: if_splits)
next
  case QRetryable
  then show ?thesis by (auto simp: decision_def issue_severity_def split: if_splits dest: prefixes_differ)
qed simp

lemma decision_mono: "set xs \<subseteq> set ys \<Longrightarrow> decision xs \<le> decision ys"
  using decision_attained [of xs] decision_lower [of _ ys]
  by (auto simp: gate_order_defs) (metis subsetD)

lemma decision_open:
  "decision issues \<le> QDegraded \<longleftrightarrow>
     (\<forall>i \<in> set issues. qi_required i \<longrightarrow> starts_with ''REVISED_'' (qi_code i))"
  by (auto simp: decision_def gate_order_defs dest: prefixes_differ)

section \<open>An open gate\<close>

lemma issue_simps [simp]:
  "qi_input (issue i c m r) = i" "qi_code (issue i c m r) = c"
  "qi_message (issue i c m r) = m" "qi_required (issue i c m r) = r"
  by (simp_all add: issue_def)

lemma upper_statuses:
  "upper ''missing'' = ''MISSING''" "upper ''stale'' = ''STALE''" "upper ''late'' = ''LATE''"
  "upper ''unavailable'' = ''UNAVAILABLE''" "upper ''quarantined'' = ''QUARANTINED''"
  "upper ''invalid'' = ''INVALID''"
  by code_simp+

lemma issue_for_status_known:
  "issue_for_status i (JStr ''missing'') m True = Some (issue i ''MISSING_REQUIRED_INPUT'' m True)"
  "issue_for_status i (JStr ''stale'') m True = Some (issue i ''STALE_REQUIRED_INPUT'' m True)"
  "issue_for_status i (JStr ''late'') m True = Some (issue i ''LATE_REQUIRED_INPUT'' m True)"
  "issue_for_status i (JStr ''unavailable'') m True = Some (issue i ''UNAVAILABLE_REQUIRED_INPUT'' m True)"
  "issue_for_status i (JStr ''quarantined'') m True = Some (issue i ''QUARANTINED_REQUIRED_INPUT'' m True)"
  "issue_for_status i (JStr ''invalid'') m True = Some (issue i ''INVALID_REQUIRED_INPUT'' m True)"
  "issue_for_status i (JStr ''retryable'') m True = Some (issue i ''RETRYABLE_REQUIRED_INPUT'' m True)"
  by (simp_all add: issue_for_status_def known_statuses_def blocking_statuses_def upper_statuses)

lemma issue_for_status_bad:
  assumes "st \<notin> {JStr ''available'', JStr ''revised'', JStr ''denied''}"
  shows "\<exists>x. issue_for_status i st m True = Some x \<and> qi_required x
           \<and> \<not> starts_with ''REVISED_'' (qi_code x)"
proof (cases st)
  case (JStr t)
  show ?thesis
  proof (cases "t \<in> set known_statuses")
    case True
    then have "t = ''missing'' \<or> t = ''stale'' \<or> t = ''late'' \<or> t = ''unavailable'' \<or> t = ''quarantined''
        \<or> t = ''invalid'' \<or> t = ''available'' \<or> t = ''revised'' \<or> t = ''retryable''"
      by (simp add: known_statuses_def blocking_statuses_def)
    then show ?thesis
      using assms JStr by (elim disjE) (simp_all add: issue_for_status_known starts_with_def)
  next
    case False
    with assms JStr show ?thesis by (simp add: issue_for_status_def starts_with_def)
  qed
qed (simp_all add: issue_for_status_def starts_with_def)

lemma issue_for_status_required: "issue_for_status i st m r = Some x \<Longrightarrow> qi_required x = r"
  by (auto simp: issue_for_status_def Let_def split: if_splits option.splits)

text \<open>The entry of a required input raises no blocking issue only when its status is good.\<close>

definition good_entry :: "json \<Rightarrow> bool" where
  "good_entry raw \<longleftrightarrow> (\<exists>d. raw = JObj d
     \<and> jget d ''status'' \<in> {JStr ''available'', JStr ''revised'', JStr ''denied''}
     \<and> (jhas d ''required'' \<longrightarrow> jget d ''required'' = JBool True))"

lemma entry_issues_open:
  assumes req: "i \<in> set req"
    and revised: "\<forall>x \<in> set (entry_issues req i raw). qi_required x \<longrightarrow> starts_with ''REVISED_'' (qi_code x)"
  shows "good_entry raw"
proof (cases raw)
  case (JObj d)
  have need: "input_is_required req i raw" using req by (simp add: input_is_required_def)
  have "jget d ''status'' \<in> {JStr ''available'', JStr ''revised'', JStr ''denied''}"
  proof (rule ccontr)
    assume "\<not> ?thesis"
    then obtain x where
      "issue_for_status i (jget d ''status'')
         (py_str (if jhas d ''reason'' then jget d ''reason''
                  else JStr (''input status is '' @ py_str (jget d ''status'')))) True = Some x"
      "qi_required x" "\<not> starts_with ''REVISED_'' (qi_code x)"
      using issue_for_status_bad by blast
    then show False using revised need JObj by (auto simp: entry_issues_def)
  qed
  moreover have "jget d ''required'' = JBool True" if "jhas d ''required''"
  proof (rule ccontr)
    assume "jget d ''required'' \<noteq> JBool True"
    then show False using revised req that JObj by (auto simp: entry_issues_def Let_def starts_with_def)
  qed
  ultimately show ?thesis using JObj by (simp add: good_entry_def)
qed (use assms in \<open>auto simp: entry_issues_def input_is_required_def starts_with_def\<close>)

lemma missing_issues_open:
  assumes "\<forall>x \<in> set (missing_issues q req True). qi_required x \<longrightarrow> starts_with ''REVISED_'' (qi_code x)"
    and "i \<in> set req"
  shows "i \<in> fst ` set q"
proof (rule ccontr)
  assume "i \<notin> fst ` set q"
  with assms(2) have "issue i ''REQUIRED_INPUT_UNAVAILABLE''
      ''required report input has no quality-gate result'' True \<in> set (missing_issues q req True)"
    by (auto simp: missing_issues_def)
  with assms(1) show False by (auto simp: starts_with_def)
qed

lemma inputs_for_snapshot_required:
  assumes "inputs_for_snapshot s = Inr (req, opt, pi)"
  shows "set always_required \<subseteq> set req"
  using assms
  by (auto simp: inputs_for_snapshot_def required_input_ids_def Let_def bindE_eq_Inr
      split: json.splits if_splits option.splits)

text \<open>What an open gate (passed or degraded) has checked.\<close>

lemma evaluate_quality_open:
  assumes ev: "evaluate_quality s = Inr r" and gate_open: "qr_status r \<le> QDegraded"
    and ins: "inputs_for_snapshot s = Inr (req, opt, pi)"
  shows "pi = None" "has_materialized_facts s = Inr True"
    "\<And>i. i \<in> set req \<Longrightarrow> \<exists>raw. map_of (quality_of s) i = Some raw \<and> good_entry raw"
proof -
  let ?q = "quality_of s"
  obtain facts where facts: "has_materialized_facts s = Inr facts"
    using ev ins by (auto simp: evaluate_quality_def bindE_eq_Inr Let_def)
  define all where "all = (case pi of None \<Rightarrow> [] | Some x \<Rightarrow> [x])
      @ missing_issues ?q req True @ missing_issues ?q opt False @ closure_issues ?q opt
      @ concat (map (\<lambda>i. entry_issues req i (jget ?q i)) (sorted_set (map fst ?q)))
      @ (if facts then [] else [issue ''report.facts'' ''REQUIRED_FACTS_UNAVAILABLE''
           ''approved input snapshot contains no materialized report facts'' True])"
  have "qr_status r = decision all"
    using ev ins facts by (auto simp: evaluate_quality_def Let_def all_def)
  with gate_open have ok: "\<forall>x \<in> set all. qi_required x \<longrightarrow> starts_with ''REVISED_'' (qi_code x)"
    by (simp add: decision_open)
  have "pi = None \<or> pi = Some policy_invalid"
    using ins by (auto simp: inputs_for_snapshot_def Let_def bindE_eq_Inr
        split: json.splits if_splits option.splits)
  with ok show "pi = None" by (auto simp: all_def policy_invalid_def starts_with_def)
  show "has_materialized_facts s = Inr True"
    using ok facts by (cases facts) (auto simp: all_def starts_with_def)
  fix i assume i: "i \<in> set req"
  have mem: "i \<in> fst ` set ?q" by (rule missing_issues_open [OF _ i]) (use ok in \<open>simp add: all_def\<close>)
  then obtain raw where raw: "map_of ?q i = Some raw"
    by (metis domIff dom_map_of_conv_image_fst option.exhaust)
  have "\<forall>x \<in> set (entry_issues req i raw). qi_required x \<longrightarrow> starts_with ''REVISED_'' (qi_code x)"
  proof -
    have "entry_issues req i (jget ?q i)
        \<in> set (map (\<lambda>i. entry_issues req i (jget ?q i)) (sorted_set (map fst ?q)))"
      using mem by simp
    moreover have "jget ?q i = raw" using raw by (simp add: jget_def)
    ultimately have "x \<in> set all" if "x \<in> set (entry_issues req i raw)" for x
      using that unfolding all_def set_append set_concat by blast
    with ok show ?thesis by blast
  qed
  with i have "good_entry raw" by (rule entry_issues_open)
  with raw show "\<exists>raw. map_of ?q i = Some raw \<and> good_entry raw" by blast
qed

section \<open>The policy of the evaluator is accepted\<close>

lemma scan_regions_payload:
  assumes "map_of expected_market_ids (rp_region p) = Some (rp_input p)"
    and "rp_region p \<notin> fst ` set observed"
    and "rp_required p = (rp_status p = Scheduled_session)"
  shows "scan_regions (region_payload p # items) observed closed =
    scan_regions items ((rp_region p, market_status_text (rp_status p)) # observed)
      (if rp_required p then closed else rp_input p # closed)"
proof -
  have "rp_region p \<in> set (map fst expected_market_ids)"
    using assms(1) by (metis list.set_map map_of_SomeD image_eqI fst_conv)
  then show ?thesis
    using assms by (cases "rp_status p") (auto simp: region_payload_def jget_def scan_regions.simps(2))
qed

lemma market_inputs_distinct:
  "distinct market_inputs" "set always_required \<inter> set market_inputs = {}"
  by (simp_all add: market_inputs_def always_required_def)

lemma region_day_policy_expected:
  assumes "region_day_policy ex w d r = Inr p" "r \<in> {CN, HK, US}"
  shows "map_of expected_market_ids (rp_region p) = Some (rp_input p)"
    "rp_required p = (rp_status p = Scheduled_session)" "rp_region p = region_value r"
    "rp_status p \<in> (if w then {Weekend_closed} else {Scheduled_session, Exchange_holiday})"
  using assms
  by (auto elim!: region_day_policy_Inr split: if_splits
      simp: expected_market_ids_def market_inputs_def market_day_status_def)

lemma region_inputs:
  assumes "region_day_policy ex w d CN = Inr c" "region_day_policy ex w d HK = Inr h"
    "region_day_policy ex w d US = Inr u"
  shows "[rp_input c, rp_input h, rp_input u] = market_inputs"
  using assms by (auto elim!: region_day_policy_Inr simp: market_inputs_def)

lemma split_required:
  "set (map rp_input (filter rp_required ps)) \<union> set (map rp_input (filter (\<lambda>p. \<not> rp_required p) ps))
     = set (map rp_input ps)"
  by auto

lemma policy_partition:
  assumes "evaluate_policy ex v d = Inr p"
  shows "set (dp_required p) \<inter> set (dp_optional p) = {}"
    "set (dp_required p) \<union> set (dp_optional p) = set required_input_ids"
    "set always_required \<subseteq> set (dp_required p)"
proof -
  obtain c h u where r: "dp_required p = sorted_set (always_required @ map rp_input (filter rp_required [c, h, u]))"
    and o: "dp_optional p = sorted_set (map rp_input (filter (\<lambda>p. \<not> rp_required p) [c, h, u]))"
    and c: "region_day_policy ex (5 \<le> weekday d) d CN = Inr c"
    and h: "region_day_policy ex (5 \<le> weekday d) d HK = Inr h"
    and u: "region_day_policy ex (5 \<le> weekday d) d US = Inr u"
    using assms by (elim evaluate_policy_Inr)
  note ins = region_inputs [OF c h u]
  have un: "set (map rp_input (filter rp_required [c, h, u]))
      \<union> set (map rp_input (filter (\<lambda>p. \<not> rp_required p) [c, h, u])) = set market_inputs"
    using split_required [of "[c, h, u]"] ins by (metis list.simps(8,9))
  have "distinct [rp_input c, rp_input h, rp_input u]"
    using ins market_inputs_distinct(1) by metis
  then have dis: "set (map rp_input (filter rp_required [c, h, u]))
      \<inter> set (map rp_input (filter (\<lambda>p. \<not> rp_required p) [c, h, u])) = {}"
    by auto
  have "set (map rp_input (filter (\<lambda>p. \<not> rp_required p) [c, h, u])) \<inter> set always_required = {}"
    using un market_inputs_distinct(2) by blast
  then show "set (dp_required p) \<inter> set (dp_optional p) = {}"
    unfolding r o set_sorted_set set_append using dis by blast
  show "set (dp_required p) \<union> set (dp_optional p) = set required_input_ids"
    unfolding r o set_sorted_set set_append required_input_ids_def using un by blast
  show "set always_required \<subseteq> set (dp_required p)"
    unfolding r by simp
qed

lemma policy_regions_match_evaluated:
  assumes ev: "evaluate_policy ex v d = Inr p" and raw: "policy_payload p = JObj raw"
  shows "policy_regions_match raw d (dp_optional p) = Inr True"
proof -
  obtain c h u where regs: "dp_regions p = [c, h, u]"
    and c: "region_day_policy ex (5 \<le> weekday d) d CN = Inr c"
    and h: "region_day_policy ex (5 \<le> weekday d) d HK = Inr h"
    and u: "region_day_policy ex (5 \<le> weekday d) d US = Inr u"
    and o: "dp_optional p = sorted_set (map rp_input (filter (\<lambda>p. \<not> rp_required p) [c, h, u]))"
    and day: "dp_day_type p = (if 5 \<le> weekday d then Weekend
       else if filter (\<lambda>p. \<not> rp_required p) [c, h, u] \<noteq> [] then Regional_holiday else Regular)"
    using ev by (elim evaluate_policy_Inr)
  note C = region_day_policy_expected [OF c, simplified]
    and H = region_day_policy_expected [OF h, simplified]
    and U = region_day_policy_expected [OF u, simplified]
  let ?obs = "map (\<lambda>q. (rp_region q, market_status_text (rp_status q))) [u, h, c]"
  let ?cl = "map rp_input (filter (\<lambda>q. \<not> rp_required q) [u, h, c])"
  have scan: "scan_regions (map region_payload [c, h, u]) [] [] = Inr (Some (?obs, ?cl))"
    using C(3) H(3) U(3)
    by (simp add: scan_regions_payload [OF C(1) _ C(2)] scan_regions_payload [OF H(1) _ H(2)]
        scan_regions_payload [OF U(1) _ U(2)])
  have r: "jget raw ''day_type'' = JStr (day_type_text (dp_day_type p))"
    "jget raw ''regions'' = JList (map region_payload [c, h, u])"
    using raw regs by (auto simp: policy_payload_def jget_def)
  have keys: "fst ` set ?obs = fst ` set expected_market_ids"
    using C(3) H(3) U(3) by (auto simp: expected_market_ids_def market_inputs_def)
  have closed: "set ?cl = set (dp_optional p)" by (auto simp: o)
  have known: "in_strs (JStr (day_type_text (dp_day_type p)))
      [''regular'', ''weekend'', ''regional_holiday''] = Inr True"
    by (cases "dp_day_type p") simp_all
  define st where "st = {market_status_text (rp_status c), market_status_text (rp_status h),
      market_status_text (rp_status u)}"
  have obs_st: "snd ` set ?obs = st" by (auto simp: st_def)
  let ?day = "dp_day_type p"
  have "policy_regions_match raw d (dp_optional p) = Inr
      ((?day = Regular \<and> weekday d < 5 \<and> st = {''scheduled_session''})
       \<or> (?day = Weekend \<and> 5 \<le> weekday d \<and> st = {''weekend_closed''})
       \<or> (?day = Regional_holiday \<and> weekday d < 5 \<and> ''exchange_holiday'' \<in> st
           \<and> st \<subseteq> {''scheduled_session'', ''exchange_holiday''}))"
    unfolding policy_regions_match_def r as_list.simps known bindE_Inr scan prod.case option.case
    using keys closed obs_st by (cases ?day) (simp_all add: Let_def)
  moreover have "(?day = Regular \<and> weekday d < 5 \<and> st = {''scheduled_session''})
       \<or> (?day = Weekend \<and> 5 \<le> weekday d \<and> st = {''weekend_closed''})
       \<or> (?day = Regional_holiday \<and> weekday d < 5 \<and> ''exchange_holiday'' \<in> st
           \<and> st \<subseteq> {''scheduled_session'', ''exchange_holiday''})"
  proof (cases "5 \<le> weekday d")
    case True
    then show ?thesis using C(4) H(4) U(4) by (simp add: day st_def)
  next
    case False
    then show ?thesis using C(2,4) H(2,4) U(2,4) by (auto simp: day st_def)
  qed
  ultimately show ?thesis by simp
qed

lemma evaluated_policy_inputs:
  assumes "evaluate_policy ex version d = Inr p" and "version \<noteq> []"
    and "sn_report_date s = d" and "jget (sn_payload s) ''report_day_policy'' = policy_payload p"
  shows "inputs_for_snapshot s = Inr (dp_required p, dp_optional p, None)"
proof -
  obtain raw where raw: "policy_payload p = JObj raw" by (simp add: policy_payload_def)
  have fields: "jget raw ''report_date'' = JStr (isodate d)" "jget raw ''policy_id'' = JStr policy_id_v1"
    "jget raw ''calendar_version'' = JStr version"
    "jget raw ''required_input_ids'' = JList (map JStr (dp_required p))"
    "jget raw ''optional_input_ids'' = JList (map JStr (dp_optional p))"
    using raw assms(1) by (auto simp: policy_payload_def jget_def elim!: evaluate_policy_Inr)
  have strs: "all_strs (map JStr (dp_required p) @ map JStr (dp_optional p))
      = Some (dp_required p @ dp_optional p)"
    by (metis all_strs_map_JStr map_append)
  show ?thesis
    using assms(2-4) raw policy_partition [OF assms(1)] policy_regions_match_evaluated [OF assms(1) raw]
    by (simp add: inputs_for_snapshot_def fields strs Let_def)
qed

text \<open>C13: the policy the exchange calendars give for a date is accepted by the quality gate of a
  snapshot of that date that carries it: the gate then requires exactly the inputs of the policy
  and raises no issue about the policy itself.\<close>

theorem policy_accepted_by_gate:
  assumes "evaluate_policy ex version d = Inr p" and "version \<noteq> []"
    and "sn_report_date s = d" and "jget (sn_payload s) ''report_day_policy'' = policy_payload p"
  shows "inputs_for_snapshot s = Inr (dp_required p, dp_optional p, None)"
  using assms by (rule evaluated_policy_inputs)

text \<open>A calendar with a session every day, and a snapshot that carries its policy.\<close>

definition open_exchange :: exchange where
  "open_exchange = \<lparr>is_session = (\<lambda>_ _. Inr True), previous_session = (\<lambda>_ d. Inr (d - 1)),
     last_session = (\<lambda>_ d. Inr d)\<rparr>"

definition tuesday :: date where
  "tuesday = 739447"

definition demo_policy :: day_policy where
  "demo_policy = (case evaluate_policy open_exchange ''4.5'' tuesday of Inr p \<Rightarrow> p | Inl _ \<Rightarrow> undefined)"

definition demo_snapshot :: "(string \<times> json) list \<Rightarrow> input_snapshot" where
  "demo_snapshot payload = \<lparr>sn_id = ''s1'', sn_version = ''1.0'', sn_report_date = tuesday,
     sn_as_of = 0, sn_cutoff_at = 0, sn_fingerprint = ''f'', sn_fact_ids = [''a''], sn_payload = payload\<rparr>"

lemma demo_policy_eq: "evaluate_policy open_exchange ''4.5'' tuesday = Inr demo_policy"
  by (simp add: demo_policy_def evaluate_policy_def region_day_policy_def session_lookup_def
      open_exchange_def Let_def)

theorem policy_accepted_by_gate_witness:
  "inputs_for_snapshot (demo_snapshot [(''report_day_policy'', policy_payload demo_policy)])
     = Inr (dp_required demo_policy, dp_optional demo_policy, None)"
  by (rule policy_accepted_by_gate [OF demo_policy_eq]) (simp_all add: demo_snapshot_def jget_def)

text \<open>when the gate lets a snapshot through (passed or degraded), the day policy was valid, the
  snapshot holds materialized facts, and every required input, the three always-required ones among
  them, has an entry whose status is available, revised or the legacy denied and which does not
  declare itself optional.\<close>

theorem open_gate_inputs_good:
  assumes "evaluate_quality s = Inr r" and "qr_status r \<le> QDegraded"
  shows "\<exists>req opt. inputs_for_snapshot s = Inr (req, opt, None) \<and> set always_required \<subseteq> set req
    \<and> has_materialized_facts s = Inr True
    \<and> (\<forall>i \<in> set req. \<exists>raw. map_of (quality_of s) i = Some raw \<and> good_entry raw)"
proof -
  obtain req opt pi where ins: "inputs_for_snapshot s = Inr (req, opt, pi)"
    using assms(1) by (auto simp: evaluate_quality_def bindE_eq_Inr Let_def)
  note o = evaluate_quality_open [OF assms ins]
  show ?thesis
    using o inputs_for_snapshot_required [OF ins] ins by blast
qed

definition good_quality :: "string list \<Rightarrow> json" where
  "good_quality ids = JObj (map (\<lambda>i. (i, JObj [(''status'', JStr ''available''), (''required'', JBool True)])) ids)"

definition good_payload :: "(string \<times> json) list" where
  "good_payload = [(''input_quality'', good_quality required_input_ids),
     (''facts'', JList [JObj [(''fact_id'', JStr ''a'')]])]"

theorem open_gate_inputs_good_witness:
  "has_materialized_facts (demo_snapshot good_payload) = Inr True"
proof -
  have "case evaluate_quality (demo_snapshot good_payload) of
      Inr r \<Rightarrow> qr_status r = QPassed | Inl _ \<Rightarrow> False"
    by code_simp
  then obtain r where "evaluate_quality (demo_snapshot good_payload) = Inr r" "qr_status r = QPassed"
    by (auto split: sum.splits)
  then show ?thesis
    using open_gate_inputs_good [of "demo_snapshot good_payload" r] by (auto simp: gate_order_defs)
qed

end
