(* ===== verification/Report_Store.thy ===== *)
theory Report_Store
  imports Attempt_Store Quality_Gate
begin

text \<open>
  \<open>ReportRepository\<close> of \<open>storage/repositories.py\<close>, the rows it keeps (\<open>storage/models.py\<close>) and
  the storage commands of \<open>storage/reporting.py\<close>: immutable snapshots and reports, generation
  attempts, and delivery attempts with their compare-and-set transitions. The timestamp syntax that
  pydantic accepts is the parameter \<open>aware\<close>.
\<close>

section \<open>Storage commands\<close>

text \<open>Length in characters, and string fields as pydantic reads them (whitespace stripped).\<close>

definition str_field :: "nat \<Rightarrow> nat \<Rightarrow> json \<Rightarrow> string option" where
  "str_field lo hi j = (case j of
     JStr s \<Rightarrow> let t = strip s in if lo \<le> ulen t \<and> ulen t \<le> hi then Some t else None
   | _ \<Rightarrow> None)"

definition is_hex64 :: "string \<Rightarrow> bool" where
  "is_hex64 s \<longleftrightarrow> length s = 64 \<and> list_all (\<lambda>c. c \<in> set ''abcdef0123456789'') s"

record source_ref =
  sf_id :: string
  sf_provider :: string
  sf_record :: string
  sf_name :: string
  sf_url :: "string option"
  sf_retrieved :: json
  sf_checksum :: string
  sf_llm :: "bool option"

definition source_ref_fields :: "string list" where
  "source_ref_fields = [''source_ref_id'', ''provider_id'', ''provider_record_id'', ''source_name'',
     ''source_url'', ''retrieved_at'', ''checksum_sha256'', ''external_llm_allowed'']"

definition parse_source_ref :: "(json \<Rightarrow> bool) \<Rightarrow> json \<Rightarrow> exn + source_ref" where
  "parse_source_ref aware item = (case item of
     JObj d \<Rightarrow>
       if \<not> set (map fst d) \<subseteq> set source_ref_fields then Inl ValidationError
       else (case (str_field 1 128 (jget d ''source_ref_id''), str_field 2 64 (jget d ''provider_id''),
             str_field 1 256 (jget d ''provider_record_id''), str_field 1 256 (jget d ''source_name''),
             str_field 0 64 (jget d ''checksum_sha256'')) of
         (Some i, Some p, Some r, Some n, Some c) \<Rightarrow>
           if \<not> aware (jget d ''retrieved_at'') \<or> \<not> is_hex64 c then Inl ValidationError
           else (case (jget d ''source_url'', jget d ''external_llm_allowed'') of
               (JNull, JNull) \<Rightarrow> Inr \<lparr>sf_id = i, sf_provider = p, sf_record = r, sf_name = n, sf_url = None,
                   sf_retrieved = jget d ''retrieved_at'', sf_checksum = c, sf_llm = None\<rparr>
             | (JStr u, JNull) \<Rightarrow> Inr \<lparr>sf_id = i, sf_provider = p, sf_record = r, sf_name = n, sf_url = Some (strip u),
                   sf_retrieved = jget d ''retrieved_at'', sf_checksum = c, sf_llm = None\<rparr>
             | (JNull, JBool b) \<Rightarrow> Inr \<lparr>sf_id = i, sf_provider = p, sf_record = r, sf_name = n, sf_url = None,
                   sf_retrieved = jget d ''retrieved_at'', sf_checksum = c, sf_llm = Some b\<rparr>
             | (JStr u, JBool b) \<Rightarrow> Inr \<lparr>sf_id = i, sf_provider = p, sf_record = r, sf_name = n, sf_url = Some (strip u),
                   sf_retrieved = jget d ''retrieved_at'', sf_checksum = c, sf_llm = Some b\<rparr>
             | _ \<Rightarrow> Inl ValidationError)
       | _ \<Rightarrow> Inl ValidationError)
   | _ \<Rightarrow> Inl ValidationError)"

datatype lifecycle = Draft | Generated | Gen_failed | Validated | Superseded

fun lifecycle_text :: "lifecycle \<Rightarrow> string" where
  "lifecycle_text Draft = ''draft''"
| "lifecycle_text Generated = ''generated''"
| "lifecycle_text Gen_failed = ''failed''"
| "lifecycle_text Validated = ''validated''"
| "lifecycle_text Superseded = ''superseded''"

record validation_issue =
  vi_code :: string
  vi_message :: string
  vi_error :: bool                 \<comment> \<open>severity error rather than warning\<close>
  vi_input :: "string option"
  vi_fact :: "string option"
  vi_source :: "string option"

record stored_report =
  sr_id :: string
  sr_date :: date
  sr_version :: string
  sr_contract :: string
  sr_snapshot :: string
  sr_status :: string
  sr_decision :: string
  sr_generated_at :: instant
  sr_payload :: "(string \<times> json) list"
  sr_lifecycle :: lifecycle
  sr_generation :: "uuid option"
  sr_errors :: "validation_issue list"

text \<open>
  \<open>_section_reference_ids\<close>: the references under a field name at any depth, in the order of the
  visit; a field that is not a list of strings is a ValueError.
\<close>

fun collect_refs :: "string \<Rightarrow> json \<Rightarrow> exn + string list" and
    collect_list :: "string \<Rightarrow> json list \<Rightarrow> exn + string list" and
    collect_fields :: "string \<Rightarrow> (string \<times> json) list \<Rightarrow> exn + string list" where
  "collect_refs f (JObj d) =
     bindE (case jget d f of
              JNull \<Rightarrow> Inr []
            | JList l \<Rightarrow> (case all_strs l of Some ss \<Rightarrow> Inr ss | None \<Rightarrow> Inl ValueError)
            | _ \<Rightarrow> Inl ValueError) (\<lambda>own.
       bindE (collect_fields f d) (\<lambda>below. Inr (own @ below)))"
| "collect_refs f (JList l) = collect_list f l"
| "collect_refs f _ = Inr []"
| "collect_list f [] = Inr []"
| "collect_list f (x # xs) = bindE (collect_refs f x) (\<lambda>a. bindE (collect_list f xs) (\<lambda>b. Inr (a @ b)))"
| "collect_fields f [] = Inr []"
| "collect_fields f ((k, v) # d) =
     bindE (collect_refs f v) (\<lambda>a. bindE (collect_fields f d) (\<lambda>b. Inr (a @ b)))"

definition section_reference_ids :: "(string \<times> json) list \<Rightarrow> string \<Rightarrow> exn + string list" where
  "section_reference_ids payload f = (case jget payload ''sections'' of
     JObj d \<Rightarrow> collect_refs f (JObj d) | _ \<Rightarrow> Inl ValueError)"

text \<open>\<open>payload.get(k, {})\<close>, on which the code then calls \<open>get\<close>: an AttributeError for a value that is no dictionary.\<close>

definition sub_dict :: "(string \<times> json) list \<Rightarrow> string \<Rightarrow> exn + (string \<times> json) list" where
  "sub_dict d k = (if \<not> jhas d k then Inr [] else case jget d k of
     JObj e \<Rightarrow> Inr e | _ \<Rightarrow> Inl (OtherError ''AttributeError''))"

definition source_references :: "(json \<Rightarrow> bool) \<Rightarrow> (string \<times> json) list \<Rightarrow> exn + source_ref list" where
  "source_references aware payload =
     bindE (sub_dict payload ''sections'') (\<lambda>sections.
       case (if jhas sections ''source_references'' then jget sections ''source_references'' else JObj []) of
         JObj section \<Rightarrow> (case jget section ''items'' of
             JList items \<Rightarrow> mapE (parse_source_ref aware) items
           | _ \<Rightarrow> Inl ValueError)
       | _ \<Rightarrow> Inl ValueError)"

text \<open>
  Construction of a \<open>StoredDailyReport\<close>: the literals, then \<open>validate_payload_identity\<close>, whose
  ValueErrors pydantic reports as a ValidationError.
\<close>

definition as_validation :: "exn + 'a \<Rightarrow> exn + 'a" where
  "as_validation r = (case r of Inl e \<Rightarrow> Inl (if is_value_error e then ValidationError else e) | Inr a \<Rightarrow> Inr a)"

definition payload_identity :: "(json \<Rightarrow> bool) \<Rightarrow> stored_report \<Rightarrow> exn + unit" where
  "payload_identity aware r =
     (let p = sr_payload r in
      if jget p ''report_id'' \<noteq> JStr (sr_id r) then Inl ValueError
      else if jget p ''report_date'' \<noteq> JStr (isodate (sr_date r)) then Inl ValueError
      else if jget p ''contract_version'' \<noteq> JStr (sr_contract r) then Inl ValueError
      else if jget p ''status'' \<noteq> JStr (sr_status r) then Inl ValueError
      else bindE (sub_dict p ''publication'') (\<lambda>publication.
        if jget publication ''decision'' \<noteq> JStr (sr_decision r) then Inl ValueError
        else bindE (sub_dict p ''input_snapshot'') (\<lambda>snap.
          if jget snap ''snapshot_id'' \<noteq> JStr (sr_snapshot r) then Inl ValueError
          else bindE (source_references aware p) (\<lambda>refs.
            if \<not> distinct (map sf_id refs) then Inl ValueError
            else bindE (section_reference_ids p ''source_ref_ids'') (\<lambda>ids.
              if \<not> set ids \<subseteq> sf_id ` set refs then Inl ValueError else Inr ())))))"

definition make_stored_report :: "(json \<Rightarrow> bool) \<Rightarrow> stored_report \<Rightarrow> exn + stored_report" where
  "make_stored_report aware r =
     (if sr_status r \<notin> {''complete'', ''degraded'', ''incomplete''}
         \<or> sr_decision r \<notin> {''published'', ''not_published''}
         \<or> \<not> (1 \<le> ulen (sr_id r) \<and> ulen (sr_id r) \<le> 128)
         \<or> \<not> (1 \<le> ulen (sr_version r) \<and> ulen (sr_version r) \<le> 64)
         \<or> \<not> (1 \<le> ulen (sr_contract r) \<and> ulen (sr_contract r) \<le> 32)
         \<or> \<not> (1 \<le> ulen (sr_snapshot r) \<and> ulen (sr_snapshot r) \<le> 128)
      then Inl ValidationError
      else as_validation (bindE (payload_identity aware r) (\<lambda>_. Inr r)))"

definition validate_fact_references :: "stored_report \<Rightarrow> string list \<Rightarrow> exn + unit" where
  "validate_fact_references r available =
     bindE (section_reference_ids (sr_payload r) ''fact_ids'') (\<lambda>ids.
       if set ids \<subseteq> set available then Inr () else Inl ValueError)"

record generation_attempt =
  ga_id :: uuid
  ga_report :: string
  ga_version :: string
  ga_snapshot :: string
  ga_lifecycle :: lifecycle
  ga_no :: int
  ga_prompt :: string
  ga_model :: string
  ga_parameters :: "(string \<times> json) list"
  ga_fingerprint :: string
  ga_sources :: "string list"
  ga_error :: "string option"
  ga_response :: "json option"

record delivery_attempt =
  da_id :: uuid
  da_report :: string
  da_version :: string
  da_target :: string
  da_key :: string
  da_no :: int
  da_status :: attempt_status
  da_request :: json
  da_response :: "json option"
  da_message :: "string option"
  da_error :: "string option"

section \<open>The database\<close>

record report_db =
  db_snapshots :: "input_snapshot list"
  db_generations :: "generation_attempt list"
  db_reports :: "stored_report list"
  db_source_refs :: "(string \<times> source_ref) list"
  db_deliveries :: "delivery_attempt list"

section \<open>Generation attempts and snapshots\<close>

fun opt_json_eq :: "json option \<Rightarrow> json option \<Rightarrow> bool" where
  "opt_json_eq None None = True"
| "opt_json_eq (Some a) (Some b) = json_eq a b"
| "opt_json_eq _ _ = False"

definition same_generation :: "generation_attempt \<Rightarrow> generation_attempt \<Rightarrow> bool" where
  "same_generation a b \<longleftrightarrow>
     json_eq (JObj (ga_parameters a)) (JObj (ga_parameters b))
     \<and> opt_json_eq (ga_response a) (ga_response b)
     \<and> a\<lparr>ga_parameters := [], ga_response := None\<rparr> = b\<lparr>ga_parameters := [], ga_response := None\<rparr>"

definition load_generation_attempt :: "uuid \<Rightarrow> (report_db, generation_attempt option) act" where
  "load_generation_attempt g w = (Inr (select_one (\<lambda>r. ga_id r = g) (db_generations w)), w)"

definition put_generation_attempt :: "generation_attempt \<Rightarrow> (report_db, bool) act" where
  "put_generation_attempt a w =
     (if \<exists>r \<in> set (db_generations w). ga_id r = ga_id a \<or> (ga_report r = ga_report a \<and> ga_version r = ga_version a)
      then (case select_one (\<lambda>r. ga_id r = ga_id a) (db_generations w) of
              None \<Rightarrow> (Inl ValueError, w)
            | Some e \<Rightarrow> if same_generation e a then (Inr False, w) else (Inl ValueError, w))
      else if ga_no a < 1 \<or> \<not> (\<exists>n \<in> set (db_snapshots w). sn_id n = ga_snapshot a)
      then (Inl IntegrityError, w)
      else (Inr True, w\<lparr>db_generations := db_generations w @ [a]\<rparr>))"

definition update_generation_attempt :: "generation_attempt \<Rightarrow> (report_db, unit) act" where
  "update_generation_attempt a w =
     (case update_where (\<lambda>r. ga_id r = ga_id a)
             (\<lambda>r. r\<lparr>ga_lifecycle := ga_lifecycle a, ga_no := ga_no a, ga_error := ga_error a,
                    ga_response := ga_response a\<rparr>) (db_generations w) of
        (False, _) \<Rightarrow> (Inl ValueError, w)
      | (True, t) \<Rightarrow> if ga_no a < 1 then (Inl IntegrityError, w) else (Inr (), w\<lparr>db_generations := t\<rparr>))"

definition make_snapshot :: "input_snapshot \<Rightarrow> exn + input_snapshot" where
  "make_snapshot s = (if snapshot_contract s then Inr s else Inl ValidationError)"

definition load_input_snapshot :: "string \<Rightarrow> (report_db, input_snapshot option) act" where
  "load_input_snapshot i w = (case select_one (\<lambda>r. sn_id r = i) (db_snapshots w) of
     None \<Rightarrow> (Inr None, w)
   | Some r \<Rightarrow> (case make_snapshot r of Inl e \<Rightarrow> (Inl e, w) | Inr s \<Rightarrow> (Inr (Some s), w)))"

definition put_input_snapshot :: "input_snapshot \<Rightarrow> (report_db, bool) act" where
  "put_input_snapshot s w =
     (if \<exists>r \<in> set (db_snapshots w). sn_id r = sn_id s
         \<or> (sn_report_date r = sn_report_date s \<and> sn_version r = sn_version s \<and> sn_fingerprint r = sn_fingerprint s)
      then (case select_one (\<lambda>r. sn_id r = sn_id s) (db_snapshots w) of
              None \<Rightarrow> (Inl ValueError, w)
            | Some e \<Rightarrow>
                if e\<lparr>sn_payload := []\<rparr> \<noteq> s\<lparr>sn_payload := []\<rparr>
                   \<or> \<not> json_eq (JObj (sn_payload e)) (JObj (sn_payload s))
                then (Inl ValueError, w) else (Inr False, w))
      else (Inr True, w\<lparr>db_snapshots := db_snapshots w @ [s]\<rparr>))"

section \<open>Reports\<close>

text \<open>What a stored report compares equal on; its payload compares as Python dictionaries do.\<close>

definition same_report :: "stored_report \<Rightarrow> stored_report \<Rightarrow> bool" where
  "same_report a b \<longleftrightarrow> json_eq (JObj (sr_payload a)) (JObj (sr_payload b))
     \<and> a\<lparr>sr_payload := []\<rparr> = b\<lparr>sr_payload := []\<rparr>"

definition insert_report :: "(json \<Rightarrow> bool) \<Rightarrow> stored_report \<Rightarrow> (report_db, bool) act" where
  "insert_report aware r w =
     (if \<exists>e \<in> set (db_reports w). sr_id e = sr_id r \<or> (sr_date e = sr_date r \<and> sr_version e = sr_version r)
      then (case select_one (\<lambda>e. sr_id e = sr_id r) (db_reports w) of
              None \<Rightarrow> (Inl ValueError, w)
            | Some e \<Rightarrow> if same_report e r then (Inr False, w) else (Inl ValueError, w))
      else if (case sr_generation r of None \<Rightarrow> False
               | Some g \<Rightarrow> \<not> (\<exists>a \<in> set (db_generations w). ga_id a = g))
      then (Inl IntegrityError, w)
      else (case source_references aware (sr_payload r) of
              Inl e \<Rightarrow> (Inl e, w\<lparr>db_reports := db_reports w @ [r]\<rparr>)
            | Inr refs \<Rightarrow> (Inr True, w\<lparr>db_reports := db_reports w @ [r],
                 db_source_refs := db_source_refs w @ map (\<lambda>s. (sr_id r, s)) refs\<rparr>)))"

definition put_report :: "(json \<Rightarrow> bool) \<Rightarrow> stored_report \<Rightarrow> (report_db, bool) act" where
  "put_report aware r =
     bindA (load_input_snapshot (sr_snapshot r)) (\<lambda>found.
       case found of
         None \<Rightarrow> throw ValueError
       | Some s \<Rightarrow>
           if \<not> json_eq (jget (sr_payload r) ''input_snapshot'') (JObj (snapshot_identity s))
           then throw ValueError
           else bindA (liftA (validate_fact_references r (sn_fact_ids s))) (\<lambda>_. insert_report aware r))"

text \<open>The compare-and-set on the lifecycle status: another worker's progress is never overwritten.\<close>

definition update_report_validation :: "stored_report \<Rightarrow> lifecycle \<Rightarrow> (report_db, bool) act" where
  "update_report_validation r expected w =
     (case update_where (\<lambda>e. sr_id e = sr_id r \<and> sr_lifecycle e = expected)
             (\<lambda>e. e\<lparr>sr_status := sr_status r, sr_decision := sr_decision r, sr_lifecycle := sr_lifecycle r,
                    sr_errors := sr_errors r, sr_payload := sr_payload r\<rparr>) (db_reports w) of
        (ok, t) \<Rightarrow> (Inr ok, w\<lparr>db_reports := t\<rparr>))"

definition load_report :: "(json \<Rightarrow> bool) \<Rightarrow> string \<Rightarrow> (report_db, stored_report option) act" where
  "load_report aware i w = (case select_one (\<lambda>e. sr_id e = i) (db_reports w) of
     None \<Rightarrow> (Inr None, w)
   | Some e \<Rightarrow> (case make_stored_report aware e of Inl x \<Rightarrow> (Inl x, w) | Inr r \<Rightarrow> (Inr (Some r), w)))"

section \<open>Delivery attempts\<close>

definition same_delivery_key :: "delivery_attempt \<Rightarrow> delivery_attempt \<Rightarrow> bool" where
  "same_delivery_key r a \<longleftrightarrow> da_report r = da_report a \<and> da_target r = da_target a \<and> da_key r = da_key a"

text \<open>
  Construction of a \<open>DeliveryAttempt\<close>, also of each one that is read back: whitespace around the
  text fields is stripped before their lengths are checked.
\<close>

definition make_delivery_attempt :: "delivery_attempt \<Rightarrow> exn + delivery_attempt" where
  "make_delivery_attempt a =
     (let b = a\<lparr>da_report := strip (da_report a), da_version := strip (da_version a), da_target := strip (da_target a),
              da_key := strip (da_key a), da_message := map_option strip (da_message a),
              da_error := map_option strip (da_error a)\<rparr> in
      if len_ok 128 (da_report b) \<and> len_ok 64 (da_version b) \<and> len_ok 128 (da_target b) \<and> len_ok 128 (da_key b)
         \<and> 1 \<le> da_no b \<and> opt_len_ok 128 (da_message b) \<and> opt_len_ok 64 (da_error b)
      then Inr b else Inl ValidationError)"

definition read_delivery :: "delivery_attempt option \<Rightarrow> exn + delivery_attempt option" where
  "read_delivery row = (case row of None \<Rightarrow> Inr None | Some r \<Rightarrow> bindE (make_delivery_attempt r) (\<lambda>a. Inr (Some a)))"

definition load_delivery_attempt :: "uuid \<Rightarrow> (report_db, delivery_attempt option) act" where
  "load_delivery_attempt d w = (read_delivery (select_one (\<lambda>r. da_id r = d) (db_deliveries w)), w)"

definition load_delivery_for_key :: "string \<Rightarrow> string \<Rightarrow> string \<Rightarrow> (report_db, delivery_attempt option) act" where
  "load_delivery_for_key report target key w =
     (read_delivery (select_one (\<lambda>r. da_report r = report \<and> da_target r = target \<and> da_key r = key) (db_deliveries w)), w)"

definition reserve_delivery_attempt :: "delivery_attempt \<Rightarrow> (report_db, bool) act" where
  "reserve_delivery_attempt a w =
     (if \<not> (\<exists>r \<in> set (db_deliveries w). same_delivery_key r a)
         \<and> \<not> (\<exists>e \<in> set (db_reports w). sr_id e = da_report a)
      then (Inl IntegrityError, w)
      else (case insert_on_conflict same_delivery_key (\<lambda>r a. da_id r = da_id a) a (db_deliveries w) of
        (Inl e, _) \<Rightarrow> (Inl e, w)
      | (Inr True, t) \<Rightarrow> (Inr True, w\<lparr>db_deliveries := t\<rparr>)
      | (Inr False, _) \<Rightarrow>
          (case fst (load_delivery_for_key (da_report a) (da_target a) (da_key a) w) of
             Inl x \<Rightarrow> (Inl x, w)
           | Inr None \<Rightarrow> (Inl RuntimeError, w)
           | Inr (Some e) \<Rightarrow> if json_eq (da_request e) (da_request a) then (Inr False, w) else (Inl ValueError, w))))"

text \<open>A text longer than its \<open>String(n)\<close> column is refused by the database.\<close>

definition settle_delivery ::
    "attempt_status \<Rightarrow> json option \<Rightarrow> string option \<Rightarrow> string option \<Rightarrow> delivery_attempt \<Rightarrow> delivery_attempt" where
  "settle_delivery st response message err r =
     r\<lparr>da_status := st, da_response := response, da_message := message, da_error := err\<rparr>"

definition resume_delivery :: "delivery_attempt \<Rightarrow> delivery_attempt" where
  "resume_delivery r = r\<lparr>da_no := da_no r + 1, da_status := Pending, da_response := None,
     da_message := None, da_error := None\<rparr>"

definition update_delivery_attempt :: "uuid \<Rightarrow> int \<Rightarrow> attempt_status \<Rightarrow> json option \<Rightarrow> string option
    \<Rightarrow> string option \<Rightarrow> (report_db, bool) act" where
  "update_delivery_attempt d expected st response message err w =
     (if expected < 1 then (Inl ValueError, w)
      else (case update_where (\<lambda>r. da_id r = d \<and> (da_no r = expected \<and> da_status r = Pending))
                  (settle_delivery st response message err) (db_deliveries w) of
              (ok, t) \<Rightarrow> if ok \<and> \<not> (column_fits 128 message \<and> column_fits 64 err)
                then (Inl (OtherError ''DBAPIError''), w) else (Inr ok, w\<lparr>db_deliveries := t\<rparr>)))"

definition retry_delivery_attempt :: "uuid \<Rightarrow> (report_db, bool) act" where
  "retry_delivery_attempt d w =
     (case update_where (\<lambda>r. da_id r = d \<and> da_status r \<in> {Failed, Retry_wait}) resume_delivery (db_deliveries w) of
        (ok, t) \<Rightarrow> (Inr ok, w\<lparr>db_deliveries := t\<rparr>))"

definition authorize_manual_retry :: "uuid \<Rightarrow> int \<Rightarrow> bool \<Rightarrow> (report_db, bool) act" where
  "authorize_manual_retry d expected allow_uncertain w =
     (case update_where (\<lambda>r. da_id r = d \<and> (da_no r = expected
              \<and> da_status r \<in> (if allow_uncertain then {Failed, Retry_wait, Uncertain} else {Failed, Retry_wait})))
            resume_delivery (db_deliveries w) of
        (ok, t) \<Rightarrow> (Inr ok, w\<lparr>db_deliveries := t\<rparr>))"

end
