(* ===== verification/Delivery_Ops.thy ===== *)
theory Delivery_Ops
  imports Report_Store
begin

text \<open>
  The delivery statements of \<open>ReportRepository\<close> as the operations of one machine, run in any order by
  any number of workers. Each operation carries the database it finds beside the delivery rows, since
  other transactions may change the other tables between two statements. The interpretation of
  \<open>numbered_statements\<close> discharges its laws on these statements; the properties are its lemmas.
\<close>

datatype delivery_op =
    Reserve delivery_attempt
  | Update uuid int attempt_status "json option" "string option" "string option"
  | Retry uuid
  | Authorize uuid int bool

fun delivery_act :: "delivery_op \<Rightarrow> (report_db, bool) act" where
  "delivery_act (Reserve a) = reserve_delivery_attempt a"
| "delivery_act (Update d n st response message err) = update_delivery_attempt d n st response message err"
| "delivery_act (Retry d) = retry_delivery_attempt d"
| "delivery_act (Authorize d n u) = authorize_manual_retry d n u"

text \<open>The attempt number a successful statement lets its caller send.\<close>

fun granted :: "delivery_op \<Rightarrow> delivery_attempt list \<Rightarrow> grant option" where
  "granted (Reserve a) t = Some (da_id a, da_no a)"
| "granted (Update _ _ _ _ _ _) t = None"
| "granted (Retry d) t = map_option (\<lambda>r. (d, da_no r)) (select_one (\<lambda>r. da_id r = d) t)"
| "granted (Authorize d n _) t = map_option (\<lambda>r. (d, da_no r)) (select_one (\<lambda>r. da_id r = d) t)"

definition delivery_exec ::
    "report_db \<times> delivery_op \<Rightarrow> delivery_attempt list \<Rightarrow> grant option \<times> delivery_attempt list" where
  "delivery_exec x t = (case x of (db, q) \<Rightarrow>
     case delivery_act q (db\<lparr>db_deliveries := t\<rparr>) of
       (Inr True, db') \<Rightarrow> (granted q (db_deliveries db'), db_deliveries db')
     | (_, db') \<Rightarrow> (None, db_deliveries db'))"

lemma settle_resume_simps [simp]:
  "da_id (settle_delivery st p m e r) = da_id r" "da_no (settle_delivery st p m e r) = da_no r"
  "da_status (settle_delivery st p m e r) = st"
  "da_id (resume_delivery r) = da_id r" "da_no (resume_delivery r) = da_no r + 1"
  "da_status (resume_delivery r) = Pending"
  by (simp_all add: settle_delivery_def resume_delivery_def)

interpretation da_rows: numbered_rows da_id da_no "\<lambda>r. da_status r = Succeeded" .

lemma da_lookup_eq: "select_one (\<lambda>r. da_id r = k) t = da_rows.lookup t k"
  by (simp add: select_one_def da_rows.lookup_def)

lemma insert_change:
  assumes "reserve_delivery_attempt a w = (res, w')"
  shows "if res = Inr True then da_rows.row_change (db_deliveries w) (Some (da_id a, da_no a)) (db_deliveries w')
         else db_deliveries w' = db_deliveries w"
proof (cases rule: insert_on_conflict_cases
    [of same_delivery_key "\<lambda>r a. da_id r = da_id a" a "db_deliveries w"])
  case inserted
  then have "da_id a \<notin> da_id ` set (db_deliveries w)" by auto
  then show ?thesis
    using assms inserted(1) by (auto simp: reserve_delivery_attempt_def intro: da_rows.row_change.appended
      split: if_splits)
qed (use assms in \<open>auto simp: reserve_delivery_attempt_def split: if_splits option.splits sum.splits\<close>)

lemma update_rows:
  "update_delivery_attempt k n st p m e w = (res, w') \<Longrightarrow> w' = w \<or> w' = w\<lparr>db_deliveries :=
     map (\<lambda>r. if da_id r = k \<and> (da_no r = n \<and> da_status r = Pending) then settle_delivery st p m e r else r)
       (db_deliveries w)\<rparr>"
  by (auto simp: update_delivery_attempt_def update_where_def split: if_splits)

lemma exec_row_change:
  assumes d: "da_rows.keys_distinct t" and ex: "delivery_exec x t = (g, t')"
  shows "da_rows.row_change t g t'"
proof -
  obtain db q where x: "x = (db, q)" by fastforce
  let ?w = "db\<lparr>db_deliveries := t\<rparr>"
  obtain res w' where act: "delivery_act q ?w = (res, w')" by fastforce
  have gt: "t' = db_deliveries w'" "g = (if res = Inr True then granted q t' else None)"
    using ex act by (auto simp: x delivery_exec_def split: sum.splits bool.splits)
  show ?thesis
  proof (cases q)
    case (Reserve a)
    then show ?thesis
      using insert_change [of a ?w res w'] act gt da_rows.row_change.unchanged [of t] by (auto split: if_splits)
  next
    case (Update k n st p m e)
    have "g = None" using gt(2) Update by (simp split: if_splits)
    moreover have "t' = t \<or> t' = map (\<lambda>r. if da_id r = k \<and> (da_no r = n \<and> da_status r = Pending)
        then settle_delivery st p m e r else r) t"
      using update_rows [of k n st p m e ?w res w'] act gt(1) Update by auto
    moreover have "da_rows.row_change t None (map (\<lambda>r. if da_id r = k \<and> (da_no r = n \<and> da_status r = Pending)
        then settle_delivery st p m e r else r) t)"
      by (rule da_rows.row_change.settled) simp_all
    ultimately show ?thesis using da_rows.row_change.unchanged [of t] by auto
  next
    case (Retry k)
    obtain ok t1 where u: "update_where (\<lambda>r. da_id r = k \<and> da_status r \<in> {Failed, Retry_wait})
        resume_delivery t = (ok, t1)" by fastforce
    have "res = Inr ok" "t' = t1" using act gt(1) Retry u by (auto simp: retry_delivery_attempt_def)
    moreover have "if ok then da_rows.row_change t (map_option (\<lambda>r. (k, da_no r)) (da_rows.lookup t1 k)) t1 else t1 = t"
      by (rule da_rows.resume_change [OF d _ u]) auto
    ultimately show ?thesis
      using gt(2) Retry da_rows.row_change.unchanged [of t] by (auto simp: da_lookup_eq split: if_splits)
  next
    case (Authorize k n allow)
    let ?q = "\<lambda>r. da_no r = n \<and> da_status r \<in> (if allow then {Failed, Retry_wait, Uncertain} else {Failed, Retry_wait})"
    obtain ok t1 where u: "update_where (\<lambda>r. da_id r = k \<and> ?q r) resume_delivery t = (ok, t1)" by fastforce
    have "res = Inr ok" "t' = t1" using act gt(1) Authorize u by (auto simp: authorize_manual_retry_def)
    moreover have "if ok then da_rows.row_change t (map_option (\<lambda>r. (k, da_no r)) (da_rows.lookup t1 k)) t1 else t1 = t"
      by (rule da_rows.resume_change [OF d _ u]) (auto split: if_splits)
    ultimately show ?thesis
      using gt(2) Authorize da_rows.row_change.unchanged [of t] by (auto simp: da_lookup_eq split: if_splits)
  qed
qed

interpretation da: numbered_statements da_id da_no "\<lambda>r. da_status r = Succeeded" delivery_exec
  by unfold_locales (rule exec_row_change)

text \<open>C14: however the delivery statements of any number of workers interleave, no attempt number of a
  delivery row is granted twice, so at most one worker may send each attempt.\<close>

theorem delivery_attempt_granted_once:
  assumes "distinct (map da_id t)" and "run_ops delivery_exec ops t = (grants, t')"
  shows "distinct grants"
  using da.run_grants_distinct assms by (simp add: da_rows.keys_distinct_def)

definition demo_attempt :: "attempt_status \<Rightarrow> delivery_attempt" where
  "demo_attempt st = \<lparr>da_id = ''d1'', da_report = ''r1'', da_version = ''v1'', da_target = ''feishu:c'',
     da_key = ''k1'', da_no = 1, da_status = st, da_request = JNull, da_response = None,
     da_message = None, da_error = None\<rparr>"

definition empty_db :: report_db where
  "empty_db = \<lparr>db_snapshots = [], db_generations = [], db_reports = [], db_source_refs = [], db_deliveries = []\<rparr>"

theorem delivery_attempt_granted_once_witness:
  "distinct (fst (run_ops delivery_exec [(empty_db, Retry ''d1''), (empty_db, Authorize ''d1'' 1 True),
      (empty_db, Update ''d1'' 2 Uncertain None None None), (empty_db, Retry ''d1''),
      (empty_db, Authorize ''d1'' 2 True)] [demo_attempt Retry_wait]))
   \<and> fst (run_ops delivery_exec [(empty_db, Retry ''d1''), (empty_db, Authorize ''d1'' 1 True),
      (empty_db, Update ''d1'' 2 Uncertain None None None), (empty_db, Retry ''d1''),
      (empty_db, Authorize ''d1'' 2 True)] [demo_attempt Retry_wait]) = [(''d1'', 2), (''d1'', 3)]"
proof
  let ?ops = "[(empty_db, Retry ''d1''), (empty_db, Authorize ''d1'' 1 True),
      (empty_db, Update ''d1'' 2 Uncertain None None None), (empty_db, Retry ''d1''),
      (empty_db, Authorize ''d1'' 2 True)]"
  obtain gs t' where run: "run_ops delivery_exec ?ops [demo_attempt Retry_wait] = (gs, t')" by fastforce
  have "distinct gs" by (rule delivery_attempt_granted_once [OF _ run]) simp
  with run show "distinct (fst (run_ops delivery_exec ?ops [demo_attempt Retry_wait]))" by simp
  show "fst (run_ops delivery_exec ?ops [demo_attempt Retry_wait]) = [(''d1'', 2), (''d1'', 3)]"
    by code_simp
qed

text \<open>a delivery row that has succeeded is final: no interleaving of delivery statements, manual
  authorizations included, ever changes it.\<close>

theorem succeeded_delivery_is_final:
  assumes "distinct (map da_id t)" and "run_ops delivery_exec ops t = (grants, t')"
    and "select_one (\<lambda>r. da_id r = d) t = Some r" and "da_status r = Succeeded"
  shows "select_one (\<lambda>r. da_id r = d) t' = Some r"
  using da.run_final assms by (simp add: da_rows.keys_distinct_def da_lookup_eq)

theorem succeeded_delivery_is_final_witness:
  "select_one (\<lambda>r. da_id r = ''d1'') (snd (run_ops delivery_exec [(empty_db, Retry ''d1''),
      (empty_db, Authorize ''d1'' 1 True), (empty_db, Update ''d1'' 1 Failed None None None)]
      [demo_attempt Succeeded])) = Some (demo_attempt Succeeded)"
proof -
  let ?ops = "[(empty_db, Retry ''d1''), (empty_db, Authorize ''d1'' 1 True),
      (empty_db, Update ''d1'' 1 Failed None None None)]"
  obtain gs t' where run: "run_ops delivery_exec ?ops [demo_attempt Succeeded] = (gs, t')" by fastforce
  have "select_one (\<lambda>r. da_id r = ''d1'') t' = Some (demo_attempt Succeeded)"
    by (rule succeeded_delivery_is_final [OF _ run]) (simp_all add: demo_attempt_def select_one_def)
  with run show ?thesis by simp
qed

text \<open>An attempt of unknown outcome waits for an operator who has confirmed it was not delivered.\<close>

lemma exec_uncertain:
  assumes ex: "delivery_exec (db, q) t = (g, t')" and d: "da_rows.keys_distinct t"
    and r: "da_rows.lookup t k = Some r" "da_status r = Uncertain" and no: "\<And>n. q \<noteq> Authorize k n True"
  shows "da_rows.lookup t' k = Some r"
proof (cases q)
  case (Reserve a)
  obtain res w' where res: "reserve_delivery_attempt a (db\<lparr>db_deliveries := t\<rparr>) = (res, w')" by fastforce
  have "t' = db_deliveries w'" using ex Reserve res by (auto simp: delivery_exec_def split: sum.splits bool.splits)
  then consider "t' = t" | "da_rows.row_change t (Some (da_id a, da_no a)) t'" "res = Inr True"
    using insert_change [OF res] by (auto split: if_splits)
  then show ?thesis
  proof cases
    case 2
    then have "t' = t @ [a]"
      using res \<open>t' = db_deliveries w'\<close>
      by (auto simp: reserve_delivery_attempt_def insert_on_conflict_def split: if_splits option.splits sum.splits)
    then show ?thesis using r(1) by (simp add: da_rows.lookup_append)
  qed (use r in simp)
next
  case (Update k' n st p m e)
  then show ?thesis
    using ex r by (auto simp: delivery_exec_def update_delivery_attempt_def update_where_def
        da_rows.lookup_update split: if_splits bool.splits)
next
  case (Retry k')
  then show ?thesis
    using ex r by (auto simp: delivery_exec_def retry_delivery_attempt_def update_where_def
        da_rows.lookup_update split: bool.splits)
next
  case (Authorize k' n u)
  have "da_id r = k" using da_rows.lookup_Some [OF r(1)] by simp
  then have "da_rows.lookup t' k = Some r" if "k' = k \<longrightarrow> \<not> u"
    using ex r that Authorize by (auto simp: delivery_exec_def authorize_manual_retry_def update_where_def
        da_rows.lookup_update split: if_splits bool.splits)
  then show ?thesis using no Authorize by auto
qed

text \<open>a delivery whose outcome is unknown is never touched again unless an operator authorizes that
  delivery having confirmed that it was not delivered: without such an authorization, no
  interleaving of delivery statements changes its row.\<close>

theorem uncertain_delivery_waits_for_operator:
  assumes "distinct (map da_id t)" and "run_ops delivery_exec ops t = (grants, t')"
    and "select_one (\<lambda>r. da_id r = d) t = Some r" and "da_status r = Uncertain"
    and "\<forall>(db, q) \<in> set ops. \<forall>n. q \<noteq> Authorize d n True"
  shows "select_one (\<lambda>r. da_id r = d) t' = Some r"
  using assms(1-3,5) unfolding da_lookup_eq
proof (induction ops arbitrary: t grants)
  case (Cons x ops)
  obtain db q where x: "x = (db, q)" by fastforce
  obtain g t1 gs1 where s: "delivery_exec x t = (g, t1)" "run_ops delivery_exec ops t1 = (gs1, t')"
    using Cons.prems(2) by (auto split: prod.splits)
  have d: "da_rows.keys_distinct t" using Cons.prems(1) by (simp add: da_rows.keys_distinct_def)
  have "da_rows.lookup t1 d = Some r"
    using exec_uncertain [OF _ d Cons.prems(3) assms(4)] s(1) Cons.prems(4) x by auto
  moreover have "distinct (map da_id t1)"
    using da.exec_distinct [OF d s(1)] by (simp add: da_rows.keys_distinct_def)
  ultimately show ?case using Cons.IH [OF _ s(2)] Cons.prems(4) by simp
qed simp

theorem uncertain_delivery_waits_for_operator_witness:
  "select_one (\<lambda>r. da_id r = ''d1'') (snd (run_ops delivery_exec [(empty_db, Retry ''d1''),
      (empty_db, Authorize ''d1'' 1 False), (empty_db, Update ''d1'' 1 Failed None None None)]
      [demo_attempt Uncertain])) = Some (demo_attempt Uncertain)"
proof -
  let ?ops = "[(empty_db, Retry ''d1''), (empty_db, Authorize ''d1'' 1 False),
      (empty_db, Update ''d1'' 1 Failed None None None)]"
  obtain gs t' where run: "run_ops delivery_exec ?ops [demo_attempt Uncertain] = (gs, t')" by fastforce
  have "select_one (\<lambda>r. da_id r = ''d1'') t' = Some (demo_attempt Uncertain)"
    by (rule uncertain_delivery_waits_for_operator [OF _ run]) (simp_all add: demo_attempt_def select_one_def)
  with run show ?thesis by simp
qed

end
