(* ===== verification/Feishu_Transport.thy ===== *)
theory Feishu_Transport
  imports Json_Values Time_Model Message_Texts
begin

text \<open>
  \<open>FeishuTransport\<close> of \<open>services/report_delivery.py\<close>: the tenant token cached with a refresh margin,
  one message request with at most one refresh after a 401, and the classification of every answer.
  The HTTP service is outside the repository: \<open>http n r\<close> is what the \<open>n\<close>-th request \<open>r\<close> gets, a
  transport failure or a status with a body (None when it is not JSON); \<open>clock n\<close> is the \<open>n\<close>-th
  reading of the clock. The state logs the requests sent. One task uses the transport at a time; the
  lock around the token request, which only orders concurrent callers, has no other effect.
\<close>

section \<open>Requests, answers and state\<close>

datatype http_request =
    Token_request string string                    \<comment> \<open>app id, app secret\<close>
  | Message_request string string string string    \<comment> \<open>chat, content, uuid, bearer token\<close>

datatype http_result =
    Request_error string
  | Response int "json option"

record feishu_config =
  fc_app_id :: string
  fc_app_secret :: string
  fc_base_url :: string
  fc_timeout :: int

record feishu_state =
  fs_token :: "string option"
  fs_expires :: "instant option"
  fs_log :: "http_request list"
  fs_reads :: nat

record feishu_send =
  fm_message :: string
  fm_response :: json

definition rstrip_slash :: "string \<Rightarrow> string" where
  "rstrip_slash s = rev (dropWhile (\<lambda>c. c = CHR ''/'') (rev s))"

definition make_transport :: "string \<Rightarrow> string \<Rightarrow> string \<Rightarrow> int \<Rightarrow> exn + feishu_config" where
  "make_transport app secret base timeout =
     (if strip app = [] then Inl ValueError
      else if strip secret = [] then Inl ValueError
      else if \<not> starts_with ''https://'' base then Inl ValueError
      else if timeout \<le> 0 then Inl ValueError
      else Inr \<lparr>fc_app_id = app, fc_app_secret = secret, fc_base_url = rstrip_slash base, fc_timeout = timeout\<rparr>)"

definition initial_transport :: feishu_state where
  "initial_transport = \<lparr>fs_token = None, fs_expires = None, fs_log = [], fs_reads = 0\<rparr>"

section \<open>Classification of answers\<close>

definition rate_limit_codes :: "int list" where
  "rate_limit_codes = [230020, 11232, 11233, 99991400]"

definition auth_codes :: "int list" where
  "auth_codes = [230006, 230027]"

definition card_invalid_codes :: "int list" where
  "card_invalid_codes = [200621, 200732, 200861, 230099]"

definition chat_unavailable_codes :: "int list" where
  "chat_unavailable_codes = [230002, 230013, 230018, 230034, 230035, 230053, 230054, 230075, 232009]"

definition rate_limited_payload :: "(string \<times> json) list \<Rightarrow> exn + bool" where
  "rate_limited_payload p = in_ints (jget p ''code'') rate_limit_codes"

definition status_payload :: "int \<Rightarrow> json" where
  "status_payload st = JObj [(''http_status'', JInt st)]"

definition response_object :: "int \<Rightarrow> json option \<Rightarrow> bool \<Rightarrow> bool \<Rightarrow> exn + (string \<times> json) list" where
  "response_object st body invalid_retryable invalid_unknown = (case body of
     Some (JObj d) \<Rightarrow> Inr d
   | _ \<Rightarrow> Inl (FeishuTransportError ''FEISHU_RESPONSE_INVALID'' (Some (status_payload st))
            invalid_retryable invalid_unknown))"

definition response_object_or_status :: "int \<Rightarrow> json option \<Rightarrow> (string \<times> json) list" where
  "response_object_or_status st body = (case body of Some (JObj d) \<Rightarrow> d | _ \<Rightarrow> [(''http_status'', JInt st)])"

definition diagnostic_text :: "(string \<times> json) list \<Rightarrow> string" where
  "diagnostic_text p = lower (join '' '' (concat (map (\<lambda>k. case jget p k of JStr s \<Rightarrow> [s] | _ \<Rightarrow> []) [''msg'', ''message''])))"

definition classify_send_failure :: "(string \<times> json) list \<Rightarrow> string \<Rightarrow> exn + string" where
  "classify_send_failure p fallback =
     (let code = jget p ''code'' in
      bindE (in_ints code auth_codes) (\<lambda>a. if a then Inr ''FEISHU_AUTH_FAILED'' else
      bindE (in_ints code card_invalid_codes) (\<lambda>b. if b then Inr ''FEISHU_CARD_INVALID'' else
      bindE (in_ints code chat_unavailable_codes) (\<lambda>c. if c then Inr ''FEISHU_CHAT_UNAVAILABLE'' else
      bindE (in_ints code rate_limit_codes) (\<lambda>d. if d then Inr ''FEISHU_RATE_LIMITED'' else
      Inr (if eq_int code 230001
           then let m = diagnostic_text p in
             (if \<exists>t \<in> {''card'', ''content'', ''interactive'', ''schema''}. contains t m
              then ''FEISHU_CARD_INVALID''
              else if \<exists>t \<in> {''receive_id'', ''chat_id'', ''group'', txt_group}. contains t m
              then ''FEISHU_CHAT_UNAVAILABLE'' else ''FEISHU_REQUEST_INVALID'')
           else fallback))))))"

definition rate_limited :: "(string \<times> json) list \<Rightarrow> exn + 'a" where
  "rate_limited p = Inl (FeishuTransportError ''FEISHU_RATE_LIMITED'' (Some (JObj p)) True False)"

text \<open>The answer to a token request.\<close>

definition token_outcome :: "http_result \<Rightarrow> exn + (string \<times> json) list" where
  "token_outcome res = (case res of
     Request_error name \<Rightarrow> Inl (FeishuTransportError ''FEISHU_TOKEN_REQUEST_FAILED''
       (Some (JObj [(''exception'', JStr name)])) True False)
   | Response st body \<Rightarrow>
       if st = 429 then rate_limited (response_object_or_status st body)
       else if 400 \<le> st \<and> st < 500 then
         (let p = response_object_or_status st body in
          bindE (rate_limited_payload p) (\<lambda>limited.
            if limited then rate_limited p
            else Inl (FeishuTransportError ''FEISHU_AUTH_FAILED'' (Some (JObj p)) False False)))
       else bindE (response_object st body (500 \<le> st) False) (\<lambda>p.
         bindE (rate_limited_payload p) (\<lambda>limited.
           if limited then rate_limited p
           else if 500 \<le> st then Inl (FeishuTransportError ''FEISHU_TOKEN_SERVER_ERROR'' (Some (JObj p)) True False)
           else if \<not> eq_int (jget p ''code'') 0
           then Inl (FeishuTransportError ''FEISHU_AUTH_FAILED'' (Some (JObj p)) False False)
           else Inr p)))"

text \<open>The answer to a message request; a 401 asks for a fresh token when a refresh is allowed.\<close>

definition is_success :: "int \<Rightarrow> bool" where
  "is_success st \<longleftrightarrow> 200 \<le> st \<and> st < 300"

definition wants_refresh :: "bool \<Rightarrow> http_result \<Rightarrow> bool" where
  "wants_refresh allow res = (case res of Response st _ \<Rightarrow> st = 401 \<and> allow | _ \<Rightarrow> False)"

definition send_outcome :: "http_result \<Rightarrow> exn + feishu_send" where
  "send_outcome res = (case res of
     Request_error name \<Rightarrow> Inl (FeishuTransportError ''FEISHU_SEND_OUTCOME_UNKNOWN''
       (Some (JObj [(''exception'', JStr name)])) False True)
   | Response st body \<Rightarrow>
       if st = 401 \<or> st = 403 then Inl (FeishuTransportError ''FEISHU_AUTH_FAILED''
         (Some (JObj (response_object_or_status st body))) False False)
       else if st = 429 then rate_limited (response_object_or_status st body)
       else bindE (response_object st body False (is_success st \<or> 500 \<le> st)) (\<lambda>p.
         bindE (rate_limited_payload p) (\<lambda>limited.
           if limited then rate_limited p
           else if 500 \<le> st then Inl (FeishuTransportError ''FEISHU_SEND_OUTCOME_UNKNOWN'' (Some (JObj p)) False True)
           else if 400 \<le> st then bindE (classify_send_failure p ''FEISHU_SEND_HTTP_ERROR'')
             (\<lambda>c. Inl (FeishuTransportError c (Some (JObj p)) False False))
           else if \<not> eq_int (jget p ''code'') 0 then bindE (classify_send_failure p ''FEISHU_SEND_REJECTED'')
             (\<lambda>c. Inl (FeishuTransportError c (Some (JObj p)) False False))
           else (case jget p ''data'' of
               JObj d \<Rightarrow> (case jget d ''message_id'' of
                   JStr m \<Rightarrow> if m \<noteq> [] then Inr \<lparr>fm_message = m, fm_response = JObj p\<rparr>
                     else Inl (FeishuTransportError ''FEISHU_MESSAGE_ID_MISSING'' (Some (JObj p)) False True)
                 | _ \<Rightarrow> Inl (FeishuTransportError ''FEISHU_MESSAGE_ID_MISSING'' (Some (JObj p)) False True))
             | _ \<Rightarrow> Inl (FeishuTransportError ''FEISHU_MESSAGE_ID_MISSING'' (Some (JObj p)) False True)))))"

section \<open>Requests\<close>

type_synonym http = "nat \<Rightarrow> http_request \<Rightarrow> http_result"

definition post :: "http \<Rightarrow> http_request \<Rightarrow> feishu_state \<Rightarrow> http_result \<times> feishu_state" where
  "post http r s = (http (length (fs_log s)) r, s\<lparr>fs_log := fs_log s @ [r]\<rparr>)"

definition read_clock :: "(nat \<Rightarrow> instant) \<Rightarrow> feishu_state \<Rightarrow> instant \<times> feishu_state" where
  "read_clock clock s = (clock (fs_reads s), s\<lparr>fs_reads := fs_reads s + 1\<rparr>)"

definition refresh_margin :: int where
  "refresh_margin = 60 * second_us"

definition fresh_token :: "feishu_state \<Rightarrow> instant \<Rightarrow> string option" where
  "fresh_token s now = (case (fs_token s, fs_expires s) of
     (Some t, Some e) \<Rightarrow> if e - refresh_margin > now then Some t else None
   | _ \<Rightarrow> None)"

definition store_token :: "instant \<Rightarrow> (string \<times> json) list \<Rightarrow> (feishu_state, string) act" where
  "store_token now p s =
     (case jget p ''tenant_access_token'' of
        JStr t \<Rightarrow>
          if t = [] then (Inl (FeishuTransportError ''FEISHU_TOKEN_RESPONSE_INVALID'' (Some (JObj p)) False False), s)
          else (case as_int (if jhas p ''expire'' then jget p ''expire'' else jget p ''expires_in'') of
                  Some n \<Rightarrow>
                    if n \<le> 0
                    then (Inl (FeishuTransportError ''FEISHU_TOKEN_EXPIRY_INVALID'' (Some (JObj p)) False False), s)
                    else if now + n * second_us > max_instant then (Inl (OtherError ''OverflowError''), s)
                    else (Inr t, s\<lparr>fs_token := Some t, fs_expires := Some (now + n * second_us)\<rparr>)
                | None \<Rightarrow> (Inl (FeishuTransportError ''FEISHU_TOKEN_EXPIRY_INVALID'' (Some (JObj p)) False False), s))
      | _ \<Rightarrow> (Inl (FeishuTransportError ''FEISHU_TOKEN_RESPONSE_INVALID'' (Some (JObj p)) False False), s))"

definition tenant_token :: "feishu_config \<Rightarrow> http \<Rightarrow> (nat \<Rightarrow> instant) \<Rightarrow> (feishu_state, string) act" where
  "tenant_token cfg http clock s =
     (case read_clock clock s of (now, s1) \<Rightarrow>
        case fresh_token s1 now of
          Some t \<Rightarrow> (Inr t, s1)
        | None \<Rightarrow>
            (case read_clock clock s1 of (now2, s2) \<Rightarrow>
               case fresh_token s2 now2 of
                 Some t \<Rightarrow> (Inr t, s2)
               | None \<Rightarrow>
                   (case post http (Token_request (fc_app_id cfg) (fc_app_secret cfg)) s2 of (res, s3) \<Rightarrow>
                      case token_outcome res of Inl e \<Rightarrow> (Inl e, s3) | Inr p \<Rightarrow> store_token now2 p s3)))"

fun send_with_token :: "feishu_config \<Rightarrow> http \<Rightarrow> (nat \<Rightarrow> instant) \<Rightarrow> string \<Rightarrow> string \<Rightarrow> string
    \<Rightarrow> string \<Rightarrow> nat \<Rightarrow> (feishu_state, feishu_send) act" where
  "send_with_token cfg http clock chat content u token refreshes s =
     (case post http (Message_request chat content u token) s of (res, s1) \<Rightarrow>
        case refreshes of
          0 \<Rightarrow> (send_outcome res, s1)
        | Suc left \<Rightarrow>
            if wants_refresh True res
            then (case tenant_token cfg http clock (s1\<lparr>fs_token := None, fs_expires := None\<rparr>) of
                    (Inl e, s2) \<Rightarrow> (Inl e, s2)
                  | (Inr t, s2) \<Rightarrow> send_with_token cfg http clock chat content u t left s2)
            else (send_outcome res, s1))"

declare send_with_token.simps [simp del]

definition max_card_bytes :: nat where
  "max_card_bytes = 30 * 1024"

text \<open>\<open>allow_token_refresh=True\<close> is one refresh left, and the call after it none.\<close>

definition send_card :: "feishu_config \<Rightarrow> http \<Rightarrow> (nat \<Rightarrow> instant) \<Rightarrow> string \<Rightarrow> json \<Rightarrow> string
    \<Rightarrow> (feishu_state, feishu_send) act" where
  "send_card cfg http clock chat crd u s =
     (if strip chat = [] then (Inl ValueError, s)
      else if u = [] \<or> length u > 50 then (Inl ValueError, s)
      else if length (dumps crd) > max_card_bytes
      then (Inl (FeishuTransportError ''FEISHU_CARD_INVALID''
              (Some (JObj [(''reason'', JStr ''card content exceeds the 30 KB API limit'')])) False False), s)
      else (case tenant_token cfg http clock s of
              (Inl e, s1) \<Rightarrow> (Inl e, s1)
            | (Inr t, s1) \<Rightarrow> send_with_token cfg http clock chat (dumps crd) u t 1 s1))"

section \<open>What a call sends\<close>

text \<open>
  An answer that says the message was not accepted: a status that is neither a success nor a server
  error, or a document whose code is not 0. After any other answer Feishu may hold the message.
\<close>

definition rejected :: "http_result \<Rightarrow> bool" where
  "rejected res = (case res of
     Request_error _ \<Rightarrow> False
   | Response st body \<Rightarrow> (\<not> is_success st \<and> st < 500)
       \<or> (case body of Some (JObj d) \<Rightarrow> \<not> eq_int (jget d ''code'') 0 | _ \<Rightarrow> False))"

fun is_message :: "http_request \<Rightarrow> bool" where
  "is_message (Message_request _ _ _ _) = True"
| "is_message _ = False"

definition messages :: "feishu_state \<Rightarrow> http_request list" where
  "messages s = filter is_message (fs_log s)"

text \<open>The answers to the requests of a log, in order.\<close>

definition answers :: "http \<Rightarrow> nat \<Rightarrow> http_request list \<Rightarrow> (http_request \<times> http_result) list" where
  "answers http k rs = map (\<lambda>i. (rs ! i, http (k + i) (rs ! i))) [0..<length rs]"

lemma answers_Cons: "answers http k (r # rs) = (r, http k r) # answers http (Suc k) rs"
  by (simp add: answers_def upt_conv_Cons del: upt_Suc) (simp add: map_Suc_upt [symmetric] del: upt_Suc map_Suc_upt)

lemma answers_Nil [simp]: "answers http k [] = []"
  by (simp add: answers_def)

lemma answers_append: "answers http k (xs @ ys) = answers http k xs @ answers http (k + length xs) ys"
  by (induction xs arbitrary: k) (simp_all add: answers_Cons)

definition answers_since :: "http \<Rightarrow> feishu_state \<Rightarrow> feishu_state \<Rightarrow> (http_request \<times> http_result) list" where
  "answers_since http s s' = answers http (length (fs_log s)) (drop (length (fs_log s)) (fs_log s'))"

definition message_answers :: "http \<Rightarrow> feishu_state \<Rightarrow> feishu_state \<Rightarrow> (http_request \<times> http_result) list" where
  "message_answers http s s' = filter (\<lambda>p. is_message (fst p)) (answers_since http s s')"

lemma answers_since_append:
  "fs_log s' = fs_log s @ xs \<Longrightarrow> answers_since http s s' = answers http (length (fs_log s)) xs"
  by (simp add: answers_since_def)

lemma messages_of_answers:
  assumes "fs_log s' = fs_log s @ xs"
  shows "message_answers http s s' = filter (\<lambda>p. is_message (fst p)) (answers http (length (fs_log s)) xs)"
  using assms by (simp add: message_answers_def answers_since_append)

definition known :: "exn \<Rightarrow> bool" where
  "known e = (case e of FeishuTransportError _ _ _ unknown \<Rightarrow> \<not> unknown | _ \<Rightarrow> True)"

definition not_both :: "exn \<Rightarrow> bool" where
  "not_both e = (case e of FeishuTransportError _ _ retryable unknown \<Rightarrow> \<not> (retryable \<and> unknown) | _ \<Rightarrow> True)"

lemma rate_limited_payload_Inl: "rate_limited_payload p = Inl e \<Longrightarrow> e = TypeError"
  by (auto simp: rate_limited_payload_def in_ints_def split: if_splits)

lemma classify_Inl: "classify_send_failure p f = Inl e \<Longrightarrow> e = TypeError"
  by (auto simp: classify_send_failure_def in_ints_def Let_def bindE_def split: if_splits sum.splits)

lemma rate_limited_not_0: "rate_limited_payload p = Inr True \<Longrightarrow> \<not> eq_int (jget p ''code'') 0"
  using eq_int_inj [of "jget p ''code''" 0]
  by (force simp: rate_limited_payload_def rate_limit_codes_def in_ints_def split: if_splits)

lemma token_outcome_known: "token_outcome res = Inl e \<Longrightarrow> known e"
  by (auto simp: token_outcome_def known_def rate_limited_def Let_def bindE_def response_object_def
      dest: rate_limited_payload_Inl split: http_result.splits if_splits sum.splits option.splits json.splits)

lemma store_token_known: "store_token now p s = (Inl e, s') \<Longrightarrow> known e"
  by (auto simp: store_token_def known_def split: json.splits option.splits if_splits)

lemma store_token_log: "store_token now p s = (r, s') \<Longrightarrow> fs_log s' = fs_log s"
  by (auto simp: store_token_def split: json.splits option.splits if_splits)

lemma tenant_token_log:
  assumes "tenant_token cfg http clock s = (r, s')"
  shows "\<exists>xs. fs_log s' = fs_log s @ xs \<and> filter is_message xs = [] \<and> length xs \<le> 1"
proof -
  have "fs_log s' = fs_log s \<or> fs_log s' = fs_log s @ [Token_request (fc_app_id cfg) (fc_app_secret cfg)]"
    using assms
    by (auto simp: tenant_token_def read_clock_def post_def dest: store_token_log split: option.splits sum.splits)
  then show ?thesis by auto
qed

lemma tenant_token_known: "tenant_token cfg http clock s = (Inl e, s') \<Longrightarrow> known e"
  by (auto simp: tenant_token_def read_clock_def post_def dest: token_outcome_known store_token_known
      split: option.splits sum.splits)

lemma send_outcome_known: "send_outcome (Response st body) = Inl (FeishuTransportError c p r False) \<Longrightarrow> rejected (Response st body)"
  by (auto simp: send_outcome_def rejected_def rate_limited_def is_success_def bindE_def response_object_def
      dest: rate_limited_payload_Inl classify_Inl rate_limited_not_0
      split: if_splits sum.splits option.splits json.splits)

lemma send_outcome_not_both: "send_outcome res = Inl e \<Longrightarrow> not_both e"
  by (auto simp: send_outcome_def not_both_def rate_limited_def bindE_def response_object_def
      dest: rate_limited_payload_Inl classify_Inl
      split: http_result.splits if_splits sum.splits option.splits json.splits)

lemma token_outcome_not_both: "known e \<Longrightarrow> not_both e"
  by (simp add: known_def not_both_def split: exn.splits)

lemma wants_refresh_rejected: "wants_refresh b res \<Longrightarrow> rejected res"
  by (auto simp: wants_refresh_def rejected_def is_success_def split: http_result.splits)

text \<open>The message requests of one call: the shapes that the single token refresh allows.\<close>

lemma send_with_token_0:
  assumes "send_with_token cfg http clock chat content u token 0 s = (r, s')"
  shows "\<exists>a. message_answers http s s' = [(Message_request chat content u token, a)] \<and> r = send_outcome a"
proof -
  have "fs_log s' = fs_log s @ [Message_request chat content u token]"
    "r = send_outcome (http (length (fs_log s)) (Message_request chat content u token))"
    using assms by (auto simp: send_with_token.simps post_def)
  then show ?thesis using messages_of_answers [of s' s _ http] by (simp add: answers_Cons)
qed

lemma message_answers_trans:
  assumes "fs_log s1 = fs_log s @ xs" "fs_log s2 = fs_log s1 @ ys"
  shows "message_answers http s s2 = message_answers http s s1 @ message_answers http s1 s2"
  using assms by (simp add: messages_of_answers answers_append)

lemma message_answers_none:
  assumes "fs_log s1 = fs_log s @ xs" "filter is_message xs = []"
  shows "message_answers http s s1 = []"
proof -
  have "\<forall>p \<in> set (answers http k xs). fst p \<in> set xs" for k
    by (auto simp: answers_def)
  then show ?thesis using assms by (auto simp: messages_of_answers filter_empty_conv)
qed

lemma send_with_token_extends:
  "send_with_token cfg http clock chat content u token n s = (r, s') \<Longrightarrow> \<exists>ys. fs_log s' = fs_log s @ ys"
proof (induction n arbitrary: token s)
  case 0
  then show ?case by (auto simp: send_with_token.simps post_def)
next
  case (Suc n)
  let ?m = "Message_request chat content u token"
  let ?s1 = "s\<lparr>fs_log := fs_log s @ [?m], fs_token := None, fs_expires := None\<rparr>"
  obtain rt s3 where tok: "tenant_token cfg http clock ?s1 = (rt, s3)" by fastforce
  obtain xs where "fs_log s3 = fs_log s @ ?m # xs" using tenant_token_log [OF tok] by auto
  moreover have "\<exists>ys. fs_log s' = fs_log s3 @ ys"
    if "send_with_token cfg http clock chat content u t n s3 = (r, s')" for t
    using that by (rule Suc.IH)
  moreover have "fs_log s' = fs_log s @ [?m] \<or> s' = s3
      \<or> (\<exists>t. send_with_token cfg http clock chat content u t n s3 = (r, s'))"
    using Suc.prems tok by (auto simp: send_with_token.simps [of _ _ _ _ _ _ _ "Suc n"] post_def split: if_splits sum.splits)
  ultimately show ?case by fastforce
qed

lemma send_with_token_1:
  assumes run: "send_with_token cfg http clock chat content u token 1 s = (r, s')"
  shows "\<exists>a. (message_answers http s s' = [(Message_request chat content u token, a)]
        \<and> (r = send_outcome a \<or> rejected a \<and> (\<exists>e. r = Inl e \<and> known e)))
      \<or> (\<exists>t b. message_answers http s s' = [(Message_request chat content u token, a), (Message_request chat content u t, b)]
        \<and> wants_refresh True a \<and> r = send_outcome b)"
proof -
  let ?m = "Message_request chat content u token"
  define a where "a = http (length (fs_log s)) ?m"
  define s1 where "s1 = s\<lparr>fs_log := fs_log s @ [?m]\<rparr>"
  have post: "post http ?m s = (a, s1)" by (simp add: post_def a_def s1_def)
  have log1: "fs_log s1 = fs_log s @ [?m]" by (simp add: s1_def)
  have first: "message_answers http s s1 = [(?m, a)]"
    unfolding messages_of_answers [OF log1] by (simp add: answers_Cons a_def)
  show ?thesis
  proof (cases "wants_refresh True a")
    case False
    then have "r = send_outcome a" "s' = s1"
      using run post by (auto simp: One_nat_def send_with_token.simps [of _ _ _ _ _ _ _ "Suc 0"])
    then show ?thesis using first by blast
  next
    case True
    let ?s2 = "s1\<lparr>fs_token := None, fs_expires := None\<rparr>"
    obtain rt s3 where tok: "tenant_token cfg http clock ?s2 = (rt, s3)" by fastforce
    obtain xs where xs: "fs_log s3 = fs_log s1 @ xs" "filter is_message xs = []"
      using tenant_token_log [OF tok] by auto
    have second: "message_answers http s s3 = [(?m, a)]"
      using message_answers_trans [OF log1 xs(1), of http] message_answers_none [OF xs, of http] first by simp
    show ?thesis
    proof (cases rt)
      case (Inl e)
      then have "r = Inl e" "s' = s3"
        using run post True tok by (auto simp: One_nat_def send_with_token.simps [of _ _ _ _ _ _ _ "Suc 0"])
      then show ?thesis
        using second tenant_token_known tok Inl wants_refresh_rejected [OF True] by blast
    next
      case (Inr t)
      then have r: "send_with_token cfg http clock chat content u t 0 s3 = (r, s')"
        using run post True tok by (auto simp: One_nat_def send_with_token.simps [of _ _ _ _ _ _ _ "Suc 0"])
      obtain b where b: "message_answers http s3 s' = [(Message_request chat content u t, b)]" "r = send_outcome b"
        using send_with_token_0 [OF r] by blast
      have "fs_log s' = fs_log s3 @ [Message_request chat content u t]"
        using r by (auto simp: send_with_token.simps post_def)
      then have "message_answers http s s' = message_answers http s s3 @ message_answers http s3 s'"
        using xs log1 by (intro message_answers_trans [of s3 s "?m # xs"]) simp_all
      then show ?thesis using second b True by auto
    qed
  qed
qed

lemma send_card_shape:
  assumes run: "send_card cfg http clock chat crd u s = (r, s')"
  shows "(message_answers http s s' = [] \<and> (\<exists>e. r = Inl e \<and> known e))
    \<or> (\<exists>t a. message_answers http s s' = [(Message_request chat (dumps crd) u t, a)]
        \<and> (r = send_outcome a \<or> rejected a \<and> (\<exists>e. r = Inl e \<and> known e)))
    \<or> (\<exists>t a t2 b. message_answers http s s'
        = [(Message_request chat (dumps crd) u t, a), (Message_request chat (dumps crd) u t2, b)]
        \<and> wants_refresh True a \<and> r = send_outcome b)"
proof -
  have none: "message_answers http s s = []"
    by (rule message_answers_none [where xs = "[]"]) simp_all
  obtain rt s1 where tok: "tenant_token cfg http clock s = (rt, s1)" by fastforce
  obtain xs where xs: "fs_log s1 = fs_log s @ xs" "filter is_message xs = []"
    using tenant_token_log [OF tok] by auto
  note none1 = message_answers_none [OF xs, of http]
  show ?thesis
  proof (cases "\<exists>t. rt = Inr t \<and> send_with_token cfg http clock chat (dumps crd) u t 1 s1 = (r, s')")
    case True
    then obtain t where st: "send_with_token cfg http clock chat (dumps crd) u t 1 s1 = (r, s')" by blast
    have "\<exists>ys. fs_log s' = fs_log s1 @ ys"
      using st by (rule send_with_token_extends)
    then have "message_answers http s s' = message_answers http s1 s'"
      using message_answers_trans xs(1) none1 by (metis append_Nil)
    then show ?thesis using send_with_token_1 [OF st] by metis
  next
    case False
    then have "(\<exists>e. r = Inl e \<and> known e) \<and> (s' = s \<or> s' = s1)"
      using run tok tenant_token_known [of cfg http clock s _ s1]
      by (auto simp: send_card_def known_def split: if_splits sum.splits prod.splits exn.splits)
    then show ?thesis using none none1 by auto
  qed
qed

lemma known_rejected:
  "send_outcome a = Inl (FeishuTransportError c p retryable False) \<Longrightarrow> rejected a"
proof (cases a)
  case (Request_error n)
  then show "send_outcome a = Inl (FeishuTransportError c p retryable False) \<Longrightarrow> rejected a"
    by (simp add: send_outcome_def)
qed (use send_outcome_known in blast)

text \<open>C15: a transport error that allows a retry never has an unknown outcome, and when the outcome is
  not unknown Feishu has rejected every message request of the call, so nothing was delivered.\<close>

theorem retryable_send_delivered_nothing:
  assumes run: "send_card cfg http clock chat crd u s = (Inl (FeishuTransportError c p retryable unknown), s')"
    and "retryable \<or> \<not> unknown"
  shows "\<not> unknown \<and> (\<forall>(m, a) \<in> set (message_answers http s s'). rejected a)"
proof -
  have "\<not> (retryable \<and> unknown)"
    using send_card_shape [OF run]
    by (auto simp: known_def not_both_def dest: send_outcome_not_both [OF sym] token_outcome_not_both)
  then have "\<not> unknown" using assms(2) by blast
  then show ?thesis
    using send_card_shape [OF run] known_rejected [OF sym] wants_refresh_rejected by (elim disjE) auto
qed

definition demo_config :: feishu_config where
  "demo_config = \<lparr>fc_app_id = ''app'', fc_app_secret = ''secret'', fc_base_url = ''https://f'', fc_timeout = 15\<rparr>"

definition demo_token :: http_result where
  "demo_token = Response 200 (Some (JObj [(''code'', JInt 0), (''tenant_access_token'', JStr ''t''), (''expire'', JInt 7200)]))"

definition demo_http :: "http_result list \<Rightarrow> http" where
  "demo_http script n r = (case r of Token_request _ _ \<Rightarrow> demo_token
     | _ \<Rightarrow> if n < length script then script ! n else Request_error ''ConnectError'')"

definition demo_clock :: "nat \<Rightarrow> instant" where
  "demo_clock n = int n * second_us"

lemma demo_send_evaluated:
  "case send_card demo_config (demo_http [demo_token, Response 401 None, demo_token, Response 429 None]) demo_clock
       ''chat'' (JObj []) ''u'' initial_transport of
     (r, s') \<Rightarrow> r = Inl (FeishuTransportError ''FEISHU_RATE_LIMITED'' (Some (status_payload 429)) True False)
       \<and> message_answers (demo_http [demo_token, Response 401 None, demo_token, Response 429 None]) initial_transport s'
         = [(Message_request ''chat'' ''{}'' ''u'' ''t'', Response 401 None), (Message_request ''chat'' ''{}'' ''u'' ''t'', Response 429 None)]"
  by code_simp

theorem retryable_send_delivered_nothing_witness:
  "\<exists>s'. send_card demo_config (demo_http [demo_token, Response 401 None, demo_token, Response 429 None]) demo_clock
       ''chat'' (JObj []) ''u'' initial_transport
     = (Inl (FeishuTransportError ''FEISHU_RATE_LIMITED'' (Some (status_payload 429)) True False), s')
     \<and> rejected (Response 401 None) \<and> rejected (Response 429 None)"
proof -
  let ?h = "demo_http [demo_token, Response 401 None, demo_token, Response 429 None]"
  obtain r s' where run: "send_card demo_config ?h demo_clock ''chat'' (JObj []) ''u'' initial_transport = (r, s')"
    by fastforce
  then have r: "r = Inl (FeishuTransportError ''FEISHU_RATE_LIMITED'' (Some (status_payload 429)) True False)"
    and m: "message_answers ?h initial_transport s' = [(Message_request ''chat'' ''{}'' ''u'' ''t'', Response 401 None),
      (Message_request ''chat'' ''{}'' ''u'' ''t'', Response 429 None)]"
    using demo_send_evaluated by simp_all
  show ?thesis
    using retryable_send_delivered_nothing [OF run [unfolded r]] m run r by auto
qed

text \<open>one call posts at most two message requests, both with the caller's chat, the caller's card
  and the caller's request id, and the second only after a 401; a success is the reading of the
  answer to the last of them.\<close>

theorem send_card_posts_at_most_twice:
  assumes run: "send_card cfg http clock chat crd u s = (r, s')"
  shows "length (message_answers http s s') \<le> 2
    \<and> (\<forall>(m, a) \<in> set (message_answers http s s'). \<exists>t. m = Message_request chat (dumps crd) u t)
    \<and> (length (message_answers http s s') = 2 \<longrightarrow> wants_refresh True (snd (hd (message_answers http s s'))))
    \<and> (\<forall>m. r = Inr m \<longrightarrow> message_answers http s s' \<noteq> [] \<and> send_outcome (snd (last (message_answers http s s'))) = Inr m)"
  using send_card_shape [OF run] by (elim disjE) auto

theorem send_card_posts_at_most_twice_witness:
  "\<exists>s'. length (message_answers (demo_http [demo_token, Response 401 None, demo_token, Response 429 None]) initial_transport s') = 2
     \<and> wants_refresh True (Response 401 None)"
proof -
  let ?h = "demo_http [demo_token, Response 401 None, demo_token, Response 429 None]"
  obtain r s' where run: "send_card demo_config ?h demo_clock ''chat'' (JObj []) ''u'' initial_transport = (r, s')"
    by fastforce
  then have m: "message_answers ?h initial_transport s' = [(Message_request ''chat'' ''{}'' ''u'' ''t'', Response 401 None),
      (Message_request ''chat'' ''{}'' ''u'' ''t'', Response 429 None)]"
    using demo_send_evaluated by simp_all
  show ?thesis using send_card_posts_at_most_twice [OF run] m by (intro exI [of _ s']) auto
qed

end
