(* ===== verification/Action_Loops.thy ===== *)
theory Action_Loops
  imports Platform_Prelude
begin

text \<open>
  Loops of actions. An iteration ends the loop with a result or asks for another iteration; the loop
  \<open>repeatA\<close> runs iterations until one of them ends it or raises. A loop that never ends has the value
  \<open>None\<close>, so that it ends is a statement of its own: \<open>repeatA_returns\<close> gives it from a measure that
  decreases along a relation the iterations keep. \<open>bindO\<close> sequences an action after a computation that
  may not end.
\<close>

datatype ('r, 'a) loop_step = Finished 'r | Again 'a

type_synonym ('w, 'a) loop_act = "'w \<Rightarrow> ((exn + 'a) \<times> 'w) option"

partial_function (option) repeatA :: "('a \<Rightarrow> ('w, ('r, 'a) loop_step) act) \<Rightarrow> 'a \<Rightarrow> ('w, 'r) loop_act" where
  "repeatA step a w = (case step a w of
     (Inl e, w') \<Rightarrow> Some (Inl e, w')
   | (Inr (Finished r), w') \<Rightarrow> Some (Inr r, w')
   | (Inr (Again b), w') \<Rightarrow> repeatA step b w')"

lemma repeatA_raise: "step a w = (Inl e, w') \<Longrightarrow> repeatA step a w = Some (Inl e, w')"
  by (subst repeatA.simps) simp

lemma repeatA_finish: "step a w = (Inr (Finished r), w') \<Longrightarrow> repeatA step a w = Some (Inr r, w')"
  by (subst repeatA.simps) simp

lemma repeatA_again: "step a w = (Inr (Again b), w') \<Longrightarrow> repeatA step a w = repeatA step b w'"
  by (subst repeatA.simps) simp

lemmas repeatA_step = repeatA_raise repeatA_finish repeatA_again

text \<open>The outcome of an iteration that ends the loop.\<close>

fun ends_with :: "exn + ('r, 'a) loop_step \<Rightarrow> exn + 'r \<Rightarrow> bool" where
  "ends_with (Inl e) r = (r = Inl e)"
| "ends_with (Inr (Finished x)) r = (r = Inr x)"
| "ends_with (Inr (Again b)) r = False"

lemma repeatA_cases:
  assumes "repeatA step a w = Some (r, w')"
  obtains (ended) s where "step a w = (s, w')" "ends_with s r"
  | (again) b w1 where "step a w = (Inr (Again b), w1)" "repeatA step b w1 = Some (r, w')"
proof -
  obtain s w1 where s: "step a w = (s, w1)" by fastforce
  show thesis
  proof (cases s)
    case (Inl e)
    then show thesis using assms s repeatA_raise [of step a w e w1] ended [of s] by simp
  next
    case (Inr x)
    show thesis
    proof (cases x)
      case (Finished y)
      then show thesis using assms s Inr repeatA_finish [of step a w y w1] ended [of s] by simp
    next
      case (Again b)
      then show thesis using assms s Inr repeatA_again [of step a w b w1] again [of b w1] by simp
    qed
  qed
qed

text \<open>An invariant of the iterations holds where the loop ends.\<close>

lemma repeatA_invariant:
  assumes run: "repeatA step a w = Some (r, w')" and start: "I a w"
    and again: "\<And>a w b w1. I a w \<Longrightarrow> step a w = (Inr (Again b), w1) \<Longrightarrow> I b w1"
    and ended: "\<And>a w s w1 r. I a w \<Longrightarrow> step a w = (s, w1) \<Longrightarrow> ends_with s r \<Longrightarrow> Q r w1"
  shows "Q r w'"
proof -
  have "step = step \<longrightarrow> I a w \<longrightarrow> Q (fst (r, w')) (snd (r, w'))"
  proof (rule repeatA.raw_induct [where P = "\<lambda>s a w y. s = step \<longrightarrow> I a w \<longrightarrow> Q (fst y) (snd y)", OF _ run])
    fix rep s a w y
    assume ih: "\<And>s a w y. rep s a w = Some y \<Longrightarrow> s = step \<longrightarrow> I a w \<longrightarrow> Q (fst y) (snd y)"
      and eq: "(case s a w of (Inl e, w') \<Rightarrow> Some (Inl e, w') | (Inr (Finished r), w') \<Rightarrow> Some (Inr r, w')
        | (Inr (Again b), w') \<Rightarrow> rep s b w') = Some y"
    show "s = step \<longrightarrow> I a w \<longrightarrow> Q (fst y) (snd y)"
    proof (intro impI)
      assume s: "s = step" and inv: "I a w"
      obtain x w1 where st: "step a w = (x, w1)" by fastforce
      show "Q (fst y) (snd y)"
      proof (cases "\<exists>b. x = Inr (Again b)")
        case True
        then obtain b where b: "x = Inr (Again b)" by blast
        have "rep step b w1 = Some y" using eq s st b by simp
        then show ?thesis using ih again [OF inv st [unfolded b]] by blast
      next
        case False
        then have "ends_with x (fst y) \<and> snd y = w1"
          using eq s st by (auto split: sum.splits loop_step.splits)
        then show ?thesis using ended [OF inv st] by blast
      qed
    qed
  qed
  then show ?thesis using start by simp
qed

text \<open>A loop whose iterations decrease a measure ends.\<close>

lemma repeatA_returns:
  assumes "I a w"
    and "\<And>a w b w1. I a w \<Longrightarrow> step a w = (Inr (Again b), w1) \<Longrightarrow> I b w1 \<and> (m b w1 :: nat) < m a w"
  shows "\<exists>r w'. repeatA step a w = Some (r, w')"
  using assms(1)
proof (induction "m a w" arbitrary: a w rule: less_induct)
  case less
  obtain x w1 where st: "step a w = (x, w1)" by fastforce
  show ?case
  proof (cases "\<exists>b. x = Inr (Again b)")
    case True
    then obtain b where b: "x = Inr (Again b)" by blast
    note ok = assms(2) [OF less(2) st [unfolded b]]
    show ?thesis using less(1) [of b w1] ok repeatA_again [of step a w b w1] st b by simp
  next
    case False
    then show ?thesis using repeatA_raise repeatA_finish st by (metis loop_step.exhaust sum.exhaust)
  qed
qed

text \<open>What every iteration keeps, the loop keeps.\<close>

lemma repeatA_keeps:
  assumes R: "reflp R" "transp R" and keep: "\<And>a. keeps R (step a)"
    and run: "repeatA step a w = Some (r, w')"
  shows "R w w'"
proof (rule repeatA_invariant [where I = "\<lambda>_ v. R w v" and Q = "\<lambda>_ v. R w v", OF run])
  show "R w w" using R(1) by (simp add: reflp_def)
qed (use keep R(2) in \<open>blast dest: keepsD transpD\<close>)+

section \<open>Computations that may not end\<close>

definition bindO :: "('w, 'a) loop_act \<Rightarrow> ('a \<Rightarrow> ('w, 'b) loop_act) \<Rightarrow> ('w, 'b) loop_act" where
  "bindO m f w = (case m w of
     None \<Rightarrow> None | Some (Inl e, w') \<Rightarrow> Some (Inl e, w') | Some (Inr a, w') \<Rightarrow> f a w')"

definition runO :: "('w, 'a) act \<Rightarrow> ('w, 'a) loop_act" where
  "runO m w = Some (m w)"

lemma bindO_eq: "bindO m f w = Some (r, w') \<longleftrightarrow>
    (\<exists>e. m w = Some (Inl e, w') \<and> r = Inl e) \<or> (\<exists>a w1. m w = Some (Inr a, w1) \<and> f a w1 = Some (r, w'))"
  by (auto simp: bindO_def split: prod.splits sum.splits option.splits)

lemma runO_eq [simp]: "runO m w = Some (r, w') \<longleftrightarrow> m w = (r, w')"
  by (simp add: runO_def)

lemma bindO_returns:
  assumes "\<exists>r w'. m w = Some (r, w')" "\<And>a w1. m w = Some (Inr a, w1) \<Longrightarrow> \<exists>r w'. f a w1 = Some (r, w')"
  shows "\<exists>r w'. bindO m f w = Some (r, w')"
  using assms by (auto simp: bindO_def split: sum.splits)

section \<open>Postconditions\<close>

text \<open>A postcondition of an action, whatever the state it starts in.\<close>

definition yields :: "(exn + 'a \<Rightarrow> 'w \<Rightarrow> bool) \<Rightarrow> ('w, 'a) act \<Rightarrow> bool" where
  "yields P m \<longleftrightarrow> (\<forall>w. P (fst (m w)) (snd (m w)))"

lemma yieldsD: "yields P m \<Longrightarrow> m w = (r, w') \<Longrightarrow> P r w'"
  unfolding yields_def by (metis fst_conv snd_conv)

lemma yields_bindA: "(\<And>e w. P (Inl e) w) \<Longrightarrow> (\<And>a. yields P (f a)) \<Longrightarrow> yields P (bindA m f)"
  by (auto simp: yields_def bindA_def split: prod.splits sum.splits)

lemma yields_option: "yields P m \<Longrightarrow> (\<And>x. yields P (f x)) \<Longrightarrow> yields P (case z of None \<Rightarrow> m | Some x \<Rightarrow> f x)"
  by (cases z) simp_all

lemma yields_if: "(b \<Longrightarrow> yields P m) \<Longrightarrow> (\<not> b \<Longrightarrow> yields P n) \<Longrightarrow> yields P (if b then m else n)"
  by simp

lemma yields_ret: "(\<And>w. P (Inr a) w) \<Longrightarrow> yields P (ret a)"
  by (simp add: yields_def)

lemma yields_throw: "(\<And>w. P (Inl e) w) \<Longrightarrow> yields P (throw e)"
  by (simp add: yields_def)

text \<open>The rest of a computation starts from what the first part guarantees.\<close>

lemma yields_bind_post:
  assumes "\<And>e w. P (Inl e) w" "yields Q m" "\<And>a w. Q (Inr a) w \<Longrightarrow> yields P (f a)"
  shows "yields P (bindA m f)"
proof (unfold yields_def, rule allI)
  fix w
  obtain r w1 where m: "m w = (r, w1)" by fastforce
  then show "P (fst (bindA m f w)) (snd (bindA m f w))"
    using assms(1,3) yieldsD [OF assms(2) m] by (cases r) (auto simp: bindA_def yields_def)
qed

lemma yields_try_post:
  assumes "\<And>e. yields P (h e)" "yields Q m" "\<And>a w. Q (Inr a) w \<Longrightarrow> yields P (f a)"
  shows "yields P (tryA m h f)"
proof (unfold yields_def, rule allI)
  fix w
  obtain r w1 where m: "m w = (r, w1)" by fastforce
  then show "P (fst (tryA m h f w)) (snd (tryA m h f w))"
    using assms(1,3) yieldsD [OF assms(2) m] by (cases r) (auto simp: tryA_def yields_def)
qed

lemmas yields_control = yields_bindA yields_option yields_if yields_ret yields_throw

end
