(* ===== verification/Attempt_Loop.thy ===== *)
theory Attempt_Loop
  imports Feishu_Transport Action_Loops
begin

text \<open>
  What the two sending services share: a loop that sends, records the outcome and, after a rejection
  that allows a retry, waits and sends again under the next attempt number. The locale
  \<open>attempt_loop\<close> states what one iteration does; its lemmas describe what the whole loop sends and how
  long it waits, and carry any relation that one iteration keeps to the loop.
\<close>

type_synonym sent_attempt = "uuid \<times> int \<times> (exn + feishu_send)"

definition retryable_rejection :: "exn + feishu_send \<Rightarrow> bool" where
  "retryable_rejection r = (case r of Inl (FeishuTransportError _ _ retryable unknown) \<Rightarrow> retryable \<and> \<not> unknown | _ \<Rightarrow> False)"

text \<open>
  Sends of one row with consecutive attempt numbers up to a limit, where only a rejection that allows
  a retry is followed by another send.
\<close>

fun attempt_chain :: "int \<Rightarrow> sent_attempt list \<Rightarrow> bool" where
  "attempt_chain limit [] = True"
| "attempt_chain limit [(d, n, r)] = (n \<le> limit)"
| "attempt_chain limit ((d, n, r) # (d', n', r') # xs) =
     (retryable_rejection r \<and> d' = d \<and> n' = n + 1 \<and> attempt_chain limit ((d', n', r') # xs))"

lemma chain_bounds:
  assumes "attempt_chain limit ((d, n, x) # s)"
  shows "n + int (length s) \<le> limit \<and> (\<forall>y \<in> set (butlast ((d, n, x) # s)). retryable_rejection (snd (snd y)))
    \<and> (\<forall>j < length ((d, n, x) # s). fst (((d, n, x) # s) ! j) = d \<and> fst (snd (((d, n, x) # s) ! j)) = n + int j)"
  using assms
proof (induction s arbitrary: n x)
  case (Cons y s)
  obtain d' n' x' where y: "y = (d', n', x')" by (cases y)
  have c: "retryable_rejection x" "d' = d" "n' = n + 1" "attempt_chain limit ((d, n + 1, x') # s)"
    using Cons.prems y by auto
  note ih = Cons.IH [OF c(4)]
  have "fst (((d, n, x) # y # s) ! j) = d \<and> fst (snd (((d, n, x) # y # s) ! j)) = n + int j"
    if "j < length ((d, n, x) # y # s)" for j
    using ih that y c(2,3) by (cases j) auto
  then show ?case using ih c y by auto
qed simp

text \<open>The waits after sends under given numbers, and their sum when they double.\<close>

definition waits :: "(int \<Rightarrow> int) \<Rightarrow> sent_attempt list \<Rightarrow> int list" where
  "waits delay s = map (\<lambda>x. delay (fst (snd x))) s"

definition doubling :: "int \<Rightarrow> int \<Rightarrow> int" where
  "doubling base n = base * 2 ^ nat (n - 1)"

lemma waits_sum:
  assumes "attempt_chain limit ((d, n, x) # s)" "1 \<le> n"
  shows "sum_list (waits (doubling base) ((d, n, x) # s)) = base * (2 ^ nat (n + int (length s)) - 2 ^ nat (n - 1))
    \<and> sum_list (waits (doubling base) (butlast ((d, n, x) # s))) = base * (2 ^ nat (n + int (length s) - 1) - 2 ^ nat (n - 1))"
  using assms
proof (induction s arbitrary: n x)
  case Nil
  have "nat n = Suc (nat (n - 1))" using Nil by simp
  then have "(2::int) ^ nat n = 2 * 2 ^ nat (n - 1)" by simp
  then show ?case by (simp add: waits_def doubling_def algebra_simps)
next
  case (Cons y s)
  obtain d' n' x' where y: "y = (d', n', x')" by (cases y)
  have c: "d' = d" "n' = n + 1" "attempt_chain limit ((d, n + 1, x') # s)"
    using Cons.prems y by auto
  have "nat n = Suc (nat (n - 1))" using Cons.prems by simp
  then have two: "(2::int) ^ nat n = 2 * 2 ^ nat (n - 1)" by simp
  have "1 \<le> n + 1" using Cons.prems(2) by simp
  note ih = Cons.IH [OF c(3) this]
  have "waits (doubling base) ((d, n, x) # y # s) = doubling base n # waits (doubling base) ((d, n + 1, x') # s)"
    "waits (doubling base) (butlast ((d, n, x) # y # s)) = doubling base n # waits (doubling base) (butlast ((d, n + 1, x') # s))"
    using y c by (simp_all add: waits_def)
  moreover have "doubling base n = base * 2 ^ nat (n - 1)" by (simp add: doubling_def)
  moreover have "n + int (length (y # s)) = n + 1 + int (length s)" by simp
  ultimately show ?case using ih two by (simp only:) (simp add: algebra_simps)
qed

locale attempt_loop =
  fixes step :: "'a \<Rightarrow> 'w \<Rightarrow> (exn + ('r, 'a) loop_step) \<times> 'w"
    and loop :: "'a \<Rightarrow> 'w \<Rightarrow> (exn + 'r) \<times> 'w"
    and ident :: "'a \<Rightarrow> uuid"
    and number :: "'a \<Rightarrow> int"
    and limit :: int
    and sends :: "'w \<Rightarrow> sent_attempt list"
    and sleeps :: "'w \<Rightarrow> int list"
    and delay :: "int \<Rightarrow> int"
  assumes step_trace: "step a w = (r, w') \<Longrightarrow> \<exists>x. sends w' = sends w @ [(ident a, number a, x)]
      \<and> (\<forall>b. r = Inr (Again b) \<longrightarrow> retryable_rejection x \<and> ident b = ident a \<and> number b = number a + 1)
      \<and> (sleeps w' = sleeps w \<and> (\<forall>b. r \<noteq> Inr (Again b))
        \<or> sleeps w' = sleeps w @ [delay (number a)] \<and> number a < limit)"
    and loop_eq: "loop a w = (case step a w of
        (Inl e, w') \<Rightarrow> (Inl e, w') | (Inr (Finished r), w') \<Rightarrow> (Inr r, w') | (Inr (Again b), w') \<Rightarrow> loop b w')"
begin

lemma loop_Again: "step a w = (Inr (Again b), w1) \<Longrightarrow> loop a w = loop b w1"
  by (simp add: loop_eq [of a w])

lemma loop_end: "step a w = (r, w1) \<Longrightarrow> \<forall>b. r \<noteq> Inr (Again b) \<Longrightarrow> snd (loop a w) = w1"
  by (auto simp: loop_eq [of a w] split: sum.splits loop_step.splits)

lemma step_Again:
  "step a w = (Inr (Again b), w1) \<Longrightarrow> number b = number a + 1 \<and> ident b = ident a \<and> number a < limit"
  using step_trace [of a w "Inr (Again b)" w1] by auto

lemma loop_induct [case_names step]:
  assumes "\<And>a w. (\<And>b w1. step a w = (Inr (Again b), w1) \<Longrightarrow> P b w1) \<Longrightarrow> P a w"
  shows "P a w"
proof (induction "nat (limit - number a)" arbitrary: a w rule: less_induct)
  case (less a w)
  have "P b w1" if "step a w = (Inr (Again b), w1)" for b w1
    using step_Again [OF that] by (intro less) auto
  then show ?case by (rule assms)
qed

lemma loop_trace:
  assumes "loop a w = (r, w')" "number a \<le> limit"
  shows "\<exists>x s z. sends w' = sends w @ (ident a, number a, x) # s \<and> sleeps w' = sleeps w @ z
    \<and> attempt_chain limit ((ident a, number a, x) # s)
    \<and> (z = waits delay (butlast ((ident a, number a, x) # s))
      \<or> z = waits delay ((ident a, number a, x) # s) \<and> fst (snd (last ((ident a, number a, x) # s))) < limit)"
  using assms
proof (induction a w arbitrary: r w' rule: loop_induct)
  case (step a w)
  obtain s1 w1 where st: "step a w = (s1, w1)" by fastforce
  note keep = step_trace [OF st]
  show ?case
  proof (cases "\<exists>b. s1 = Inr (Again b)")
    case True
    then obtain b where b: "s1 = Inr (Again b)" by blast
    have num: "number b = number a + 1" "number a < limit" "ident b = ident a"
      using step_Again [OF st [unfolded b]] by auto
    have run: "loop b w1 = (r, w')" using step(2) loop_Again [OF st [unfolded b]] by simp
    obtain x s z where ih: "sends w' = sends w1 @ (ident b, number b, x) # s" "sleeps w' = sleeps w1 @ z"
      "attempt_chain limit ((ident b, number b, x) # s)"
      "z = waits delay (butlast ((ident b, number b, x) # s))
        \<or> z = waits delay ((ident b, number b, x) # s) \<and> fst (snd (last ((ident b, number b, x) # s))) < limit"
      using step(1) [OF st [unfolded b] run] num by auto
    obtain y where y: "sends w1 = sends w @ [(ident a, number a, y)]" "retryable_rejection y"
      "sleeps w1 = sleeps w @ [delay (number a)]"
      using keep b by auto
    show ?thesis
      using ih y num
      by (intro exI [of _ y] exI [of _ "(ident b, number b, x) # s"] exI [of _ "delay (number a) # z"])
        (auto simp: waits_def)
  next
    case False
    then have "w' = w1" using loop_end [OF st] step(2) by simp
    then show ?thesis using keep False step(3) by (auto simp: waits_def)
  qed
qed

lemma loop_keeps:
  assumes "reflp R" "transp R" and kept: "\<And>a. keeps R (step a)"
  shows "keeps R (loop a)"
proof -
  have "R w (snd (loop a w))" for w
  proof (induction a w rule: loop_induct)
    case (step a w)
    obtain s1 w1 where st: "step a w = (s1, w1)" by fastforce
    have first: "R w w1" using kept st by (rule keepsD)
    show ?case
    proof (cases "\<exists>b. s1 = Inr (Again b)")
      case True
      then obtain b where b: "s1 = Inr (Again b)" by blast
      have "R w1 (snd (loop b w1))" using step [OF st [unfolded b]] .
      then show ?thesis using first assms(2) loop_Again [OF st [unfolded b]] by (metis transpD)
    next
      case False
      then show ?thesis using loop_end [OF st] first by simp
    qed
  qed
  then show ?thesis by (simp add: keeps_def)
qed

end

end
