(* ===== verification/Report_Delivery.thy ===== *)
theory Report_Delivery
  imports Delivery_Ops Attempt_Loop
begin

text \<open>
  \<open>ReportDeliveryService\<close>, \<open>PostgresReportDeliveryStore\<close> and \<open>ConfiguredFeishuDelivery\<close> of
  \<open>services/report_delivery.py\<close>. The service awaits the store and the transport; between any two of
  its statements other workers may change the database, which the parameter \<open>dx_env\<close> stands for
  (\<open>dx_env k\<close> is what they do before statement \<open>k\<close>). SHA-256, \<open>uuid4\<close>, the timestamp syntax of
  pydantic and the card renderer handed to the service are parameters; the transport is any action on a
  state of its own. The world logs the sends, with the attempt they are made for and their outcome,
  and the sleeps in microseconds.
\<close>

section \<open>Redaction\<close>

definition redacted_key_names :: "string list" where
  "redacted_key_names = [''accesstoken'', ''appsecret'', ''authorization'', ''password'', ''secret'',
     ''tenantaccesstoken'', ''token'']"

definition is_sensitive_key :: "string \<Rightarrow> bool" where
  "is_sensitive_key k \<longleftrightarrow> filter is_alnum (lower k) \<in> set redacted_key_names"

fun redact :: "json \<Rightarrow> json" where
  "redact (JObj d) = JObj (map (\<lambda>p. (fst p, if is_sensitive_key (fst p) then JStr ''[REDACTED]'' else redact (snd p))) d)"
| "redact (JList l) = JList (map redact l)"
| "redact v = v"

section \<open>Keys and audit payloads\<close>

definition idempotency_key :: "(string \<Rightarrow> string) \<Rightarrow> stored_report \<Rightarrow> string \<Rightarrow> string" where
  "idempotency_key sha r target = ''feishu:'' @ sha (join [CHR 0x00] [isodate (sr_date r), target, sr_version r])"

definition feishu_request_uuid :: "(string \<Rightarrow> string) \<Rightarrow> string \<Rightarrow> string" where
  "feishu_request_uuid sha key = take 50 (sha key)"

definition request_audit_payload :: "(string \<Rightarrow> string) \<Rightarrow> stored_report \<Rightarrow> string \<Rightarrow> json \<Rightarrow> string \<Rightarrow> json" where
  "request_audit_payload sha r target crd request_uuid = JObj
     [(''provider'', JStr ''feishu''), (''delivery_target'', JStr target),
      (''report_date'', JStr (isodate (sr_date r))), (''report_version'', JStr (sr_version r)),
      (''message_type'', JStr ''interactive''), (''request_uuid'', JStr request_uuid),
      (''card_sha256'', JStr (sha (dumps (sort_keys crd))))]"

definition failure_audit_payload :: "string \<Rightarrow> json option \<Rightarrow> bool \<Rightarrow> json" where
  "failure_audit_payload code payload unknown = JObj
     [(''provider'', JStr ''feishu''), (''result'', JStr (if unknown then ''uncertain'' else ''failed'')),
      (''error_code'', JStr code), (''response'', case payload of None \<Rightarrow> JNull | Some p \<Rightarrow> redact p)]"

definition success_audit_payload :: "feishu_send \<Rightarrow> json" where
  "success_audit_payload sent = JObj
     [(''provider'', JStr ''feishu''), (''result'', JStr ''succeeded''), (''response'', redact (fm_response sent))]"

section \<open>Service, world and result\<close>

record 't delivery_service =
  dx_send :: "string \<Rightarrow> json \<Rightarrow> string \<Rightarrow> ('t, feishu_send) act"
  dx_render :: "stored_report \<Rightarrow> exn + json"
  dx_max_attempts :: int
  dx_max_total :: int
  dx_retry_delay :: int
  dx_sha :: "string \<Rightarrow> string"
  dx_aware :: "json \<Rightarrow> bool"
  dx_fresh :: "nat \<Rightarrow> uuid"
  dx_env :: "nat \<Rightarrow> report_db \<Rightarrow> report_db"

definition make_service :: "'t delivery_service \<Rightarrow> exn + 't delivery_service" where
  "make_service c =
     (if dx_max_attempts c < 1 then Inl ValueError
      else if dx_retry_delay c < 0 then Inl ValueError
      else if dx_max_total c < dx_max_attempts c then Inl ValueError
      else Inr c)"

record 't delivery_world =
  dw_db :: report_db
  dw_steps :: nat
  dw_uuids :: nat
  dw_transport :: 't
  dw_sends :: "sent_attempt list"
  dw_sleeps :: "int list"

record delivery_request =
  rq_report :: stored_report
  rq_chat :: string
  rq_card :: json
  rq_target :: string
  rq_key :: string
  rq_uuid :: string

record delivery_result =
  rd_report :: string
  rd_version :: string
  rd_target :: string
  rd_key :: string
  rd_card :: json
  rd_dry :: bool
  rd_attempt :: "delivery_attempt option"

definition delivery_result_status :: "delivery_result \<Rightarrow> string" where
  "delivery_result_status r = (if rd_dry r then ''dry_run''
     else case rd_attempt r of Some a \<Rightarrow> attempt_status_text (da_status a) | None \<Rightarrow> [])"

definition delivery_request_of :: "'t delivery_service \<Rightarrow> stored_report \<Rightarrow> string \<Rightarrow> json \<Rightarrow> delivery_request" where
  "delivery_request_of c r chat crd =
     (let target = ''feishu:'' @ chat; key = idempotency_key (dx_sha c) r target in
      \<lparr>rq_report = r, rq_chat = chat, rq_card = crd, rq_target = target, rq_key = key,
       rq_uuid = feishu_request_uuid (dx_sha c) key\<rparr>)"

definition result_of :: "delivery_request \<Rightarrow> delivery_attempt option \<Rightarrow> delivery_result" where
  "result_of q a = \<lparr>rd_report = sr_id (rq_report q), rd_version = sr_version (rq_report q), rd_target = rq_target q,
     rd_key = rq_key q, rd_card = rq_card q, rd_dry = False, rd_attempt = a\<rparr>"

text \<open>One store call: a session of its own, committed before the call returns.\<close>

definition statement :: "'t delivery_service \<Rightarrow> (report_db, 'a) act \<Rightarrow> ('t delivery_world, 'a) act" where
  "statement c m w = (case transaction m (dx_env c (dw_steps w) (dw_db w)) of
     (r, db) \<Rightarrow> (r, w\<lparr>dw_db := db, dw_steps := dw_steps w + 1\<rparr>))"

definition fresh_uuid :: "'t delivery_service \<Rightarrow> ('t delivery_world, uuid) act" where
  "fresh_uuid c w = (Inr (dx_fresh c (dw_uuids w)), w\<lparr>dw_uuids := dw_uuids w + 1\<rparr>)"

definition sleep :: "int \<Rightarrow> ('t delivery_world, unit) act" where
  "sleep d w = (Inr (), w\<lparr>dw_sleeps := dw_sleeps w @ [d]\<rparr>)"

definition send_attempt :: "'t delivery_service \<Rightarrow> delivery_request \<Rightarrow> delivery_attempt
    \<Rightarrow> 't delivery_world \<Rightarrow> (exn + feishu_send) \<times> 't delivery_world" where
  "send_attempt c q a w = (case dx_send c (rq_chat q) (rq_card q) (rq_uuid q) (dw_transport w) of
     (r, t) \<Rightarrow> (r, w\<lparr>dw_transport := t, dw_sends := dw_sends w @ [(da_id a, da_no a, r)]\<rparr>))"

section \<open>Sending with retries\<close>

definition resume_retry :: "'t delivery_service \<Rightarrow> delivery_attempt \<Rightarrow> ('t delivery_world, delivery_attempt option) act" where
  "resume_retry c a = bindA (statement c (retry_delivery_attempt (da_id a))) (\<lambda>resumed.
     ret (if resumed then Some (resume_delivery a) else None))"

definition current_result :: "'t delivery_service \<Rightarrow> delivery_request \<Rightarrow> uuid \<Rightarrow> ('t delivery_world, delivery_result) act" where
  "current_result c q d = bindA (statement c (load_delivery_attempt d)) (\<lambda>current.
     case current of None \<Rightarrow> throw ReportDeliveryError | Some a \<Rightarrow> ret (result_of q (Some a)))"

definition finish :: "('w, delivery_result) act \<Rightarrow> ('w, (delivery_result, delivery_attempt) loop_step) act" where
  "finish m = bindA m (\<lambda>r. ret (Finished r))"

definition next_status :: "bool \<Rightarrow> bool \<Rightarrow> int \<Rightarrow> int \<Rightarrow> attempt_status" where
  "next_status unknown retryable no max_no =
     (if unknown then Uncertain else if retryable \<and> no < max_no then Retry_wait else Failed)"

definition after_failure :: "'t delivery_service \<Rightarrow> delivery_request \<Rightarrow> delivery_attempt \<Rightarrow> int
    \<Rightarrow> string \<Rightarrow> json option \<Rightarrow> bool \<Rightarrow> bool \<Rightarrow> ('t delivery_world, (delivery_result, delivery_attempt) loop_step) act" where
  "after_failure c q a max_no code payload retryable unknown =
     (let st = next_status unknown retryable (da_no a) max_no;
          audit = Some (failure_audit_payload code payload unknown);
          a1 = settle_delivery st audit None (Some code) a in
      bindA (statement c (update_delivery_attempt (da_id a) (da_no a) st audit None (Some code))) (\<lambda>updated.
        if \<not> updated then finish (current_result c q (da_id a))
        else if st \<noteq> Retry_wait then ret (Finished (result_of q (Some a1)))
        else bindA (sleep (dx_retry_delay c * 2 ^ nat (da_no a - 1))) (\<lambda>_.
          bindA (resume_retry c a1) (\<lambda>resumed. case resumed of
              None \<Rightarrow> finish (current_result c q (da_id a))
            | Some a2 \<Rightarrow> ret (Again a2)))))"

definition after_success :: "'t delivery_service \<Rightarrow> delivery_request \<Rightarrow> delivery_attempt \<Rightarrow> feishu_send
    \<Rightarrow> ('t delivery_world, delivery_result) act" where
  "after_success c q a sent =
     (let response = Some (success_audit_payload sent) in
      bindA (statement c (update_delivery_attempt (da_id a) (da_no a) Succeeded response (Some (fm_message sent)) None)) (\<lambda>updated.
        if \<not> updated then current_result c q (da_id a)
        else ret (result_of q (Some (settle_delivery Succeeded response (Some (fm_message sent)) None a)))))"

definition send_step :: "'t delivery_service \<Rightarrow> delivery_request \<Rightarrow> int \<Rightarrow> delivery_attempt \<Rightarrow> ('t delivery_world, (delivery_result, delivery_attempt) loop_step) act" where
  "send_step c q max_no a w = (case send_attempt c q a w of (r, w1) \<Rightarrow>
     case r of
       Inr sent \<Rightarrow> finish (after_success c q a sent) w1
     | Inl e \<Rightarrow> (case e of
           FeishuTransportError code payload retryable unknown \<Rightarrow>
             after_failure c q a max_no code payload retryable unknown w1
         | _ \<Rightarrow> (Inl e, w1)))"

text \<open>A new iteration follows only a resumed attempt, whose number is one higher and within the limit.\<close>

lemma after_failure_Again:
  assumes "after_failure c q a max_no code payload retryable unknown w = (Inr (Again a'), w')"
  shows "da_no a' = da_no a + 1 \<and> da_no a < max_no \<and> da_id a' = da_id a \<and> retryable \<and> \<not> unknown"
  using assms
  by (auto simp: after_failure_def bindA_eq finish_def resume_retry_def Let_def next_status_def
      split: if_splits option.splits)

lemma send_step_Again:
  assumes "send_step c q max_no a w = (Inr (Again a'), w')"
  shows "da_no a' = da_no a + 1 \<and> da_no a < max_no \<and> da_id a' = da_id a"
  using assms
  by (auto simp: send_step_def finish_def bindA_eq dest: after_failure_Again
      split: prod.splits sum.splits exn.splits)

function send_loop :: "'t delivery_service \<Rightarrow> delivery_request \<Rightarrow> int \<Rightarrow> delivery_attempt
    \<Rightarrow> ('t delivery_world, delivery_result) act" where
  "send_loop c q max_no a w = (case send_step c q max_no a w of
     (Inl e, w') \<Rightarrow> (Inl e, w')
   | (Inr (Finished r), w') \<Rightarrow> (Inr r, w')
   | (Inr (Again a'), w') \<Rightarrow> send_loop c q max_no a' w')"
  by pat_completeness auto

termination
  by (relation "measure (\<lambda>(c, q, max_no, a, w). nat (max_no - da_no a))") (auto dest!: send_step_Again [OF sym])

declare send_loop.simps [simp del]

section \<open>Delivery, manual retry and inspection\<close>

definition deliverable :: "stored_report \<Rightarrow> bool" where
  "deliverable r \<longleftrightarrow> sr_lifecycle r = Validated \<and> sr_decision r = ''published''"

definition initial_attempt :: "'t delivery_service \<Rightarrow> delivery_request \<Rightarrow> uuid \<Rightarrow> delivery_attempt" where
  "initial_attempt c q d = \<lparr>da_id = d, da_report = sr_id (rq_report q), da_version = sr_version (rq_report q),
     da_target = rq_target q, da_key = rq_key q, da_no = 1, da_status = Pending,
     da_request = request_audit_payload (dx_sha c) (rq_report q) (rq_target q) (rq_card q) (rq_uuid q),
     da_response = None, da_message = None, da_error = None\<rparr>"

definition load_for_request :: "'t delivery_service \<Rightarrow> delivery_request \<Rightarrow> ('t delivery_world, delivery_attempt option) act" where
  "load_for_request c q = statement c (load_delivery_for_key (sr_id (rq_report q)) (rq_target q) (rq_key q))"

definition deliver_existing :: "'t delivery_service \<Rightarrow> delivery_request \<Rightarrow> ('t delivery_world, delivery_result) act" where
  "deliver_existing c q = bindA (load_for_request c q) (\<lambda>found. case found of
       None \<Rightarrow> throw ReportDeliveryError
     | Some old \<Rightarrow>
         if da_status old \<noteq> Retry_wait \<or> dx_max_attempts c \<le> da_no old then ret (result_of q (Some old))
         else bindA (resume_retry c old) (\<lambda>resumed. case resumed of
             None \<Rightarrow> current_result c q (da_id old)
           | Some a \<Rightarrow> send_loop c q (dx_max_attempts c) a))"

definition deliver :: "'t delivery_service \<Rightarrow> string \<Rightarrow> string \<Rightarrow> bool \<Rightarrow> ('t delivery_world, delivery_result) act" where
  "deliver c report_id chat dry_run = bindA (statement c (load_report (dx_aware c) report_id)) (\<lambda>found. case found of
       None \<Rightarrow> throw ReportDeliveryError
     | Some r \<Rightarrow>
         if \<not> deliverable r then throw ReportDeliveryError
         else if strip chat = [] then throw ReportDeliveryError
         else bindA (liftA (dx_render c r)) (\<lambda>crd.
           let q = delivery_request_of c r chat crd in
           if dry_run then ret ((result_of q None)\<lparr>rd_dry := True\<rparr>)
           else bindA (fresh_uuid c) (\<lambda>d.
             bindA (liftA (make_delivery_attempt (initial_attempt c q d))) (\<lambda>a.
               bindA (statement c (reserve_delivery_attempt a)) (\<lambda>inserted.
                 if inserted then send_loop c q (dx_max_attempts c) a else deliver_existing c q)))))"

text \<open>The checks that a manual action makes on the report and the chat before anything else.\<close>

definition manual_request :: "'t delivery_service \<Rightarrow> string \<Rightarrow> string \<Rightarrow> ('t delivery_world, delivery_request) act" where
  "manual_request c report_id chat = bindA (statement c (load_report (dx_aware c) report_id)) (\<lambda>found. case found of
       None \<Rightarrow> throw (ManualDeliveryRetryError ''REPORT_NOT_FOUND'')
     | Some r \<Rightarrow>
         if \<not> deliverable r then throw (ManualDeliveryRetryError ''REPORT_NOT_PUBLISHABLE'')
         else if strip chat = [] then throw (ManualDeliveryRetryError ''DELIVERY_TARGET_NOT_CONFIGURED'')
         else bindA (liftA (dx_render c r)) (\<lambda>crd. ret (delivery_request_of c r chat crd)))"

definition retry_delivery :: "'t delivery_service \<Rightarrow> string \<Rightarrow> string \<Rightarrow> bool \<Rightarrow> ('t delivery_world, delivery_result) act" where
  "retry_delivery c report_id chat confirmed = bindA (manual_request c report_id chat) (\<lambda>q.
     bindA (load_for_request c q) (\<lambda>found. case found of
       None \<Rightarrow> throw (ManualDeliveryRetryError ''DELIVERY_ATTEMPT_NOT_FOUND'')
     | Some old \<Rightarrow>
         if da_status old = Succeeded then ret (result_of q (Some old))
         else if da_status old = Pending then throw (ManualDeliveryRetryError ''DELIVERY_ATTEMPT_IN_PROGRESS'')
         else if da_status old = Uncertain \<and> \<not> confirmed
         then throw (ManualDeliveryRetryError ''DELIVERY_ABSENCE_CONFIRMATION_REQUIRED'')
         else if dx_max_total c \<le> da_no old then throw (ManualDeliveryRetryError ''DELIVERY_RETRY_LIMIT_EXHAUSTED'')
         else if da_status old \<notin> {Failed, Retry_wait, Uncertain}
         then throw (ManualDeliveryRetryError ''DELIVERY_ATTEMPT_NOT_RETRYABLE'')
         else bindA (statement c (authorize_manual_retry (da_id old) (da_no old) confirmed)) (\<lambda>authorized.
           if \<not> authorized then throw (ManualDeliveryRetryError ''DELIVERY_RETRY_CONFLICT'')
           else send_loop c q (da_no old + 1) (resume_delivery old))))"

definition inspect_delivery :: "'t delivery_service \<Rightarrow> string \<Rightarrow> string \<Rightarrow> ('t delivery_world, delivery_result) act" where
  "inspect_delivery c report_id chat = bindA (manual_request c report_id chat) (\<lambda>q.
     bindA (load_for_request c q) (\<lambda>found. ret (result_of q found)))"

section \<open>What a call sends and how long it waits\<close>

definition sends_since :: "'t delivery_world \<Rightarrow> 't delivery_world \<Rightarrow> sent_attempt list" where
  "sends_since w w' = drop (length (dw_sends w)) (dw_sends w')"

definition sleeps_since :: "'t delivery_world \<Rightarrow> 't delivery_world \<Rightarrow> int list" where
  "sleeps_since w w' = drop (length (dw_sleeps w)) (dw_sleeps w')"

lemma statement_keeps:
  "statement c m w = (r, w') \<Longrightarrow> dw_sends w' = dw_sends w \<and> dw_sleeps w' = dw_sleeps w
    \<and> dw_transport w' = dw_transport w \<and> dw_uuids w' = dw_uuids w"
  by (auto simp: statement_def split: prod.splits)

lemma current_result_keeps:
  "current_result c q d w = (r, w') \<Longrightarrow> dw_sends w' = dw_sends w \<and> dw_sleeps w' = dw_sleeps w"
  by (auto simp: current_result_def bindA_eq dest!: statement_keeps split: option.splits)

lemma resume_retry_keeps:
  "resume_retry c a w = (r, w') \<Longrightarrow> dw_sends w' = dw_sends w \<and> dw_sleeps w' = dw_sleeps w"
  by (auto simp: resume_retry_def bindA_eq dest!: statement_keeps)

lemma resume_retry_Some: "resume_retry c a w = (Inr (Some b), w') \<Longrightarrow> b = resume_delivery a"
  by (auto simp: resume_retry_def bindA_eq split: if_splits)

lemma after_success_keeps:
  "after_success c q a sent w = (r, w') \<Longrightarrow> dw_sends w' = dw_sends w \<and> dw_sleeps w' = dw_sleeps w"
  by (auto simp: after_success_def bindA_eq Let_def dest!: statement_keeps current_result_keeps split: if_splits)

lemma after_failure_keeps:
  assumes "after_failure c q a max_no code payload retryable unknown w = (r, w')"
  shows "dw_sends w' = dw_sends w \<and> (dw_sleeps w' = dw_sleeps w \<and> (\<forall>b. r \<noteq> Inr (Again b))
    \<or> dw_sleeps w' = dw_sleeps w @ [doubling (dx_retry_delay c) (da_no a)] \<and> da_no a < max_no)"
proof -
  define st where "st = next_status unknown retryable (da_no a) max_no"
  define audit where "audit = Some (failure_audit_payload code payload unknown)"
  obtain u w1 where u: "statement c (update_delivery_attempt (da_id a) (da_no a) st audit None (Some code)) w = (u, w1)"
    by fastforce
  note k1 = statement_keeps [OF u]
  note run = assms [unfolded after_failure_def Let_def, folded st_def audit_def]
  have early: "finish (current_result c q d) w2 = (r, w') \<Longrightarrow> dw_sends w' = dw_sends w2
      \<and> dw_sleeps w' = dw_sleeps w2 \<and> (\<forall>b. r \<noteq> Inr (Again b))" for d w2
    by (auto simp: finish_def bindA_eq dest!: current_result_keeps)
  show ?thesis
  proof (cases "u = Inr True \<and> st = Retry_wait")
    case False
    have "(\<exists>e. r = Inl e \<and> w' = w1) \<or> finish (current_result c q (da_id a)) w1 = (r, w')
        \<or> (\<exists>x. r = Inr (Finished x) \<and> w' = w1)"
      using run u False by (cases u) (auto simp: bindA_def split: if_splits)
    then show ?thesis using k1 early by auto
  next
    case True
    then have lim: "da_no a < max_no" by (auto simp: st_def next_status_def split: if_splits)
    define w2 where "w2 = w1\<lparr>dw_sleeps := dw_sleeps w1 @ [doubling (dx_retry_delay c) (da_no a)]\<rparr>"
    define a1 where "a1 = settle_delivery st audit None (Some code) a"
    obtain v w3 where v: "resume_retry c a1 w2 = (v, w3)" by fastforce
    have "(\<exists>e. r = Inl e \<and> w' = w3) \<or> finish (current_result c q (da_id a)) w3 = (r, w')
        \<or> (\<exists>b. r = Inr (Again b) \<and> w' = w3)"
      using run u True v
      by (auto simp: bindA_def sleep_def doubling_def a1_def w2_def split: sum.splits option.splits)
    then show ?thesis using k1 early resume_retry_keeps [OF v] lim by (auto simp: w2_def)
  qed
qed

lemma send_step_keeps:
  assumes "send_step c q max_no a w = (r, w')"
  shows "\<exists>x. dw_sends w' = dw_sends w @ [(da_id a, da_no a, x)] \<and> (\<forall>b. r = Inr (Again b) \<longrightarrow> retryable_rejection x)
    \<and> (dw_sleeps w' = dw_sleeps w \<and> (\<forall>b. r \<noteq> Inr (Again b))
      \<or> dw_sleeps w' = dw_sleeps w @ [doubling (dx_retry_delay c) (da_no a)] \<and> da_no a < max_no)"
proof -
  obtain x w1 where sent: "send_attempt c q a w = (x, w1)" by fastforce
  then have w1: "dw_sends w1 = dw_sends w @ [(da_id a, da_no a, x)]" "dw_sleeps w1 = dw_sleeps w"
    by (auto simp: send_attempt_def split: prod.splits)
  show ?thesis
  proof (cases "\<exists>code p rt un. x = Inl (FeishuTransportError code p rt un)")
    case True
    then obtain code p rt un where x: "x = Inl (FeishuTransportError code p rt un)" by blast
    have run: "after_failure c q a max_no code p rt un w1 = (r, w')"
      using assms sent by (simp add: send_step_def x)
    have "retryable_rejection x" if "r = Inr (Again b)" for b
      using after_failure_Again run that by (fastforce simp: x retryable_rejection_def)
    then show ?thesis using after_failure_keeps [OF run] w1 by (intro exI [of _ x]) auto
  next
    case False
    then have "(\<exists>m. x = Inr m \<and> finish (after_success c q a m) w1 = (r, w')) \<or> (\<exists>e. r = Inl e \<and> w' = w1)"
      using assms sent by (auto simp: send_step_def split: sum.splits exn.splits)
    then have "dw_sends w' = dw_sends w1 \<and> dw_sleeps w' = dw_sleeps w1 \<and> (\<forall>b. r \<noteq> Inr (Again b))"
      by (auto simp: finish_def bindA_eq dest!: after_success_keeps)
    then show ?thesis using w1 by (intro exI [of _ x]) auto
  qed
qed

interpretation dl: attempt_loop "send_step c q limit" "send_loop c q limit" da_id da_no limit dw_sends dw_sleeps
  "doubling (dx_retry_delay c)" for c :: "'t delivery_service" and q limit
proof (unfold_locales)
  fix a w r and w' :: "'t delivery_world"
  assume step: "send_step c q limit a w = (r, w')"
  have "da_no b = da_no a + 1 \<and> da_id b = da_id a" if "r = Inr (Again b)" for b
    using send_step_Again step that by blast
  then show "\<exists>x. dw_sends w' = dw_sends w @ [(da_id a, da_no a, x)]
      \<and> (\<forall>b. r = Inr (Again b) \<longrightarrow> retryable_rejection x \<and> da_id b = da_id a \<and> da_no b = da_no a + 1)
      \<and> (dw_sleeps w' = dw_sleeps w \<and> (\<forall>b. r \<noteq> Inr (Again b))
        \<or> dw_sleeps w' = dw_sleeps w @ [doubling (dx_retry_delay c) (da_no a)] \<and> da_no a < limit)"
    using send_step_keeps [OF step] by blast
qed (rule send_loop.simps)

lemma load_for_request_number: "load_for_request c q w = (Inr (Some a), w') \<Longrightarrow> 1 \<le> da_no a"
  by (auto simp: load_for_request_def statement_def transaction_def load_delivery_for_key_def read_delivery_def
      make_delivery_attempt_def Let_def bindE_eq_Inr split: prod.splits sum.splits option.splits if_splits)

lemma make_delivery_attempt_number: "make_delivery_attempt a = Inr b \<Longrightarrow> da_no b = da_no a \<and> da_id b = da_id a \<and> da_status b = da_status a"
  by (auto simp: make_delivery_attempt_def Let_def split: if_splits)

definition quiet :: "'t delivery_world \<Rightarrow> 't delivery_world \<Rightarrow> bool" where
  "quiet w w' \<longleftrightarrow> dw_sends w' = dw_sends w \<and> dw_sleeps w' = dw_sleeps w \<and> dw_transport w' = dw_transport w"

lemma quiet_refl [simp]: "quiet w w"
  by (simp add: quiet_def)

lemma statement_quiet: "statement c m w = (r, w') \<Longrightarrow> quiet w w'"
  by (drule statement_keeps) (simp add: quiet_def)

lemma quiet_trans: "quiet w w1 \<Longrightarrow> quiet w1 w' \<Longrightarrow> quiet w w'"
  by (simp add: quiet_def)

text \<open>A call either sends nothing or enters the loop once.\<close>

lemma deliver_existing_loop:
  assumes "deliver_existing c q w = (r, w')"
  shows "quiet w w' \<or> (\<exists>a w1. quiet w w1 \<and> send_loop c q (dx_max_attempts c) a w1 = (r, w')
    \<and> 1 \<le> da_no a \<and> da_no a \<le> dx_max_attempts c)"
proof -
  obtain x w1 where x: "load_for_request c q w = (x, w1)" by fastforce
  have k1: "quiet w w1" using x unfolding load_for_request_def by (rule statement_quiet)
  show ?thesis
  proof (cases "\<exists>a. x = Inr (Some a) \<and> da_status a = Retry_wait \<and> da_no a < dx_max_attempts c")
    case False
    then have "w' = w1" using assms x by (auto simp: deliver_existing_def bindA_eq split: option.splits if_splits)
    then show ?thesis using k1 by simp
  next
    case True
    then obtain a where a: "x = Inr (Some a)" "da_status a = Retry_wait" "da_no a < dx_max_attempts c" by blast
    have n: "1 \<le> da_no a" using x a(1) by (auto dest: load_for_request_number)
    obtain y w2 where y: "resume_retry c a w1 = (y, w2)" by fastforce
    then have k2: "quiet w1 w2" by (auto simp: resume_retry_def bindA_eq dest!: statement_quiet)
    have "(\<exists>e. y = Inl e \<and> w' = w2) \<or> current_result c q (da_id a) w2 = (r, w')
        \<or> send_loop c q (dx_max_attempts c) (resume_delivery a) w2 = (r, w')"
      using assms x a y resume_retry_Some [of c a w1 _ w2]
      by (cases y) (auto simp: deliver_existing_def bindA_def split: option.splits)
    moreover have "quiet w2 w'" if "current_result c q (da_id a) w2 = (r, w')"
      using that by (auto simp: current_result_def bindA_eq dest!: statement_quiet split: option.splits)
    moreover have "1 \<le> da_no (resume_delivery a)" "da_no (resume_delivery a) \<le> dx_max_attempts c"
      using n a(3) by simp_all
    ultimately show ?thesis using quiet_trans [OF k1 k2] quiet_trans by blast
  qed
qed

lemma deliver_loop:
  assumes run: "deliver c i chat dry w = (r, w')" and "1 \<le> dx_max_attempts c"
  shows "quiet w w' \<or> (\<exists>q a w1. quiet w w1 \<and> send_loop c q (dx_max_attempts c) a w1 = (r, w')
    \<and> 1 \<le> da_no a \<and> da_no a \<le> dx_max_attempts c \<and> \<not> dry)"
proof -
  obtain x w1 where x: "statement c (load_report (dx_aware c) i) w = (x, w1)" by fastforce
  have k1: "quiet w w1" using x by (rule statement_quiet)
  show ?thesis
  proof (cases "\<exists>rep crd. x = Inr (Some rep) \<and> deliverable rep \<and> strip chat \<noteq> [] \<and> dx_render c rep = Inr crd \<and> \<not> dry")
    case False
    then have "w' = w1" using run x
      by (auto simp: deliver_def bindA_eq Let_def split: option.splits if_splits)
    then show ?thesis using k1 by simp
  next
    case True
    then obtain rep crd where pre: "x = Inr (Some rep)" "deliverable rep" "strip chat \<noteq> []" "dx_render c rep = Inr crd"
      and nd: "\<not> dry" by blast
    define q where "q = delivery_request_of c rep chat crd"
    define w2 where "w2 = w1\<lparr>dw_uuids := dw_uuids w1 + 1\<rparr>"
    define m where "m = make_delivery_attempt (initial_attempt c q (dx_fresh c (dw_uuids w1)))"
    have k2: "quiet w w2" using k1 by (simp add: quiet_def w2_def)
    show ?thesis
    proof (cases m)
      case (Inl e)
      then have "w' = w2" using run x pre nd
        by (auto simp: deliver_def bindA_def fresh_uuid_def Let_def q_def w2_def m_def split: if_splits)
      then show ?thesis using k2 by simp
    next
      case (Inr a)
      have num: "da_no a = 1" using make_delivery_attempt_number Inr by (fastforce simp: m_def initial_attempt_def)
      obtain y w3 where y: "statement c (reserve_delivery_attempt a) w2 = (y, w3)" by fastforce
      have k3: "quiet w w3" using k2 statement_quiet [OF y] by (rule quiet_trans)
      have "(\<exists>e. y = Inl e \<and> w' = w3) \<or> send_loop c q (dx_max_attempts c) a w3 = (r, w')
          \<or> deliver_existing c q w3 = (r, w')"
        using run x pre nd Inr y
        by (cases y) (auto simp: deliver_def bindA_def fresh_uuid_def Let_def q_def w2_def m_def split: if_splits)
      then show ?thesis
      proof (elim disjE)
        assume "deliver_existing c q w3 = (r, w')"
        from deliver_existing_loop [OF this] show ?thesis using k3 nd quiet_trans by blast
      next
        assume "send_loop c q (dx_max_attempts c) a w3 = (r, w')"
        moreover have "1 \<le> da_no a" "da_no a \<le> dx_max_attempts c" using num assms(2) by simp_all
        ultimately show ?thesis using k3 nd by blast
      qed (use k3 in blast)
    qed
  qed
qed

definition one_accepted :: "'t delivery_service \<Rightarrow> sent_attempt list \<Rightarrow> bool" where
  "one_accepted c s \<longleftrightarrow> int (length s) \<le> dx_max_attempts c \<and> (\<forall>x \<in> set (butlast s). retryable_rejection (snd (snd x)))
    \<and> (\<forall>j < length s. fst (s ! j) = fst (hd s) \<and> fst (snd (s ! j)) = fst (snd (hd s)) + int j
        \<and> 1 \<le> fst (snd (s ! j)) \<and> fst (snd (s ! j)) \<le> dx_max_attempts c)"

lemma deliver_one_accepted:
  assumes run: "deliver c report_id chat dry w = (r, w')" and "1 \<le> dx_max_attempts c"
  shows "one_accepted c (sends_since w w') \<and> (dry \<longrightarrow> sends_since w w' = [])"
  using deliver_loop [OF assms(1,2)]
proof (elim disjE exE conjE)
  assume "quiet w w'"
  then show ?thesis using assms(2) by (simp add: one_accepted_def sends_since_def quiet_def)
next
  fix q a w1
  assume k: "quiet w w1" and loop: "send_loop c q (dx_max_attempts c) a w1 = (r, w')"
    and n: "1 \<le> da_no a" "da_no a \<le> dx_max_attempts c" and nd: "\<not> dry"
  obtain x t where t: "dw_sends w' = dw_sends w1 @ (da_id a, da_no a, x) # t"
    "attempt_chain (dx_max_attempts c) ((da_id a, da_no a, x) # t)"
    using dl.loop_trace [OF loop n(2)] by blast
  have "sends_since w w' = (da_id a, da_no a, x) # t" using t(1) k by (simp add: sends_since_def quiet_def)
  then show ?thesis using chain_bounds [OF t(2)] n nd by (auto simp: one_accepted_def)
qed

text \<open>whatever other workers do meanwhile, one delivery call sends at most the configured number of
  times, for one row and under consecutive attempt numbers, and only after a rejection that allows a
  retry does another send follow; so at most its last send can have reached the chat.\<close>

theorem deliver_sends_once_accepted:
  assumes run: "deliver c report_id chat dry w = (r, w')" and "1 \<le> dx_max_attempts c"
  defines "s \<equiv> sends_since w w'"
  shows "int (length s) \<le> dx_max_attempts c \<and> (\<forall>x \<in> set (butlast s). retryable_rejection (snd (snd x)))
    \<and> (\<forall>j < length s. fst (s ! j) = fst (hd s) \<and> fst (snd (s ! j)) = fst (snd (hd s)) + int j
        \<and> 1 \<le> fst (snd (s ! j)) \<and> fst (snd (s ! j)) \<le> dx_max_attempts c)
    \<and> (dry \<longrightarrow> s = [])"
  using deliver_one_accepted [OF assms(1,2)] unfolding s_def one_accepted_def by blast

text \<open>the waits between the sends of one delivery call double from the base delay and add up to less
  than the base delay times 2 to the number of attempts: the backoff is bounded by the configuration.\<close>

theorem deliver_backoff_bounded:
  assumes run: "deliver c report_id chat dry w = (r, w')"
    and "1 \<le> dx_max_attempts c" and "0 \<le> dx_retry_delay c"
  shows "sum_list (sleeps_since w w') \<le> dx_retry_delay c * (2 ^ nat (dx_max_attempts c - 1) - 1)"
  using deliver_loop [OF assms(1,2)]
proof (elim disjE exE conjE)
  assume "quiet w w'"
  moreover have "(0::int) \<le> 2 ^ nat (dx_max_attempts c - 1) - 1" by simp
  ultimately show ?thesis using assms(3) by (simp add: sleeps_since_def quiet_def)
next
  fix q a w1
  assume k: "quiet w w1" and loop: "send_loop c q (dx_max_attempts c) a w1 = (r, w')"
    and n: "1 \<le> da_no a" "da_no a \<le> dx_max_attempts c"
  obtain x s z where t: "dw_sleeps w' = dw_sleeps w1 @ z" "attempt_chain (dx_max_attempts c) ((da_id a, da_no a, x) # s)"
    "z = waits (doubling (dx_retry_delay c)) (butlast ((da_id a, da_no a, x) # s)) \<or> z = waits (doubling (dx_retry_delay c)) ((da_id a, da_no a, x) # s)
      \<and> fst (snd (last ((da_id a, da_no a, x) # s))) < dx_max_attempts c"
    using dl.loop_trace [OF loop n(2)] by blast
  let ?l = "(da_id a, da_no a, x) # s" and ?m = "dx_max_attempts c"
  have "last ?l = ?l ! length s" by (simp add: last_conv_nth)
  then have "fst (snd (last ?l)) = da_no a + int (length s)"
    using chain_bounds [OF t(2)] by (metis length_Cons lessI)
  then obtain e where e: "e \<le> nat (?m - 1)" "sum_list z = dx_retry_delay c * (2 ^ e - 2 ^ nat (da_no a - 1))"
    using t(3) waits_sum [OF t(2) n(1), of "dx_retry_delay c"] chain_bounds [OF t(2)]
    by (metis add.commute nat_mono diff_right_mono zle_diff1_eq add_le_imp_le_diff)
  have "(2::int) ^ e \<le> 2 ^ nat (?m - 1)" using e(1) by (rule power_increasing) simp
  moreover have "(1::int) \<le> 2 ^ nat (da_no a - 1)" by simp
  ultimately have "(2::int) ^ e - 2 ^ nat (da_no a - 1) \<le> 2 ^ nat (?m - 1) - 1" by linarith
  then have "sum_list z \<le> dx_retry_delay c * (2 ^ nat (?m - 1) - 1)"
    unfolding e(2) using assms(3) by (rule mult_left_mono)
  moreover have "sleeps_since w w' = z" using t(1) k by (simp add: sleeps_since_def quiet_def)
  ultimately show ?thesis by simp
qed

section \<open>A worker on its own\<close>

definition alone :: "'t delivery_service \<Rightarrow> bool" where
  "alone c \<longleftrightarrow> dx_env c = (\<lambda>_ db. db)"

definition rows :: "'t delivery_world \<Rightarrow> delivery_attempt list" where
  "rows w = db_deliveries (dw_db w)"

definition no_retry_wait :: "delivery_attempt list \<Rightarrow> bool" where
  "no_retry_wait t \<longleftrightarrow> list_all (\<lambda>r. da_status r \<noteq> Retry_wait) t"

text \<open>The row of an attempt that the worker has in hand: pending under the number it knows.\<close>

definition held :: "delivery_attempt list \<Rightarrow> delivery_attempt \<Rightarrow> bool" where
  "held t a \<longleftrightarrow> da_rows.keys_distinct t
     \<and> (\<exists>r. da_rows.lookup t (da_id a) = Some r \<and> da_status r = Pending \<and> da_no r = da_no a)
     \<and> (\<forall>r \<in> set t. da_id r \<noteq> da_id a \<longrightarrow> da_status r \<noteq> Retry_wait)"

definition row_keys :: "delivery_attempt list \<Rightarrow> (string \<times> string \<times> string) list" where
  "row_keys t = map (\<lambda>r. (da_report r, da_target r, da_key r)) t"

definition set_row :: "uuid \<Rightarrow> (delivery_attempt \<Rightarrow> delivery_attempt) \<Rightarrow> delivery_attempt list \<Rightarrow> delivery_attempt list" where
  "set_row d f t = map (\<lambda>r. if da_id r = d then f r else r) t"

lemma held_row: "held t a \<Longrightarrow> r \<in> set t \<Longrightarrow> da_id r = da_id a \<Longrightarrow> da_status r = Pending \<and> da_no r = da_no a"
  using da_rows.lookup_mem by (fastforce simp: held_def)

lemma held_no_retry_wait: "held t a \<Longrightarrow> no_retry_wait t"
  unfolding no_retry_wait_def list_all_iff
proof
  fix r assume h: "held t a" and r: "r \<in> set t"
  show "da_status r \<noteq> Retry_wait"
    by (cases "da_id r = da_id a") (use h r held_row [OF h r] in \<open>auto simp: held_def\<close>)
qed

lemma row_keys_set_row:
  "(\<And>r. da_report (f r) = da_report r \<and> da_target (f r) = da_target r \<and> da_key (f r) = da_key r)
    \<Longrightarrow> row_keys (set_row d f t) = row_keys t"
  by (simp add: row_keys_def set_row_def)

lemma settle_row_keys [simp]: "row_keys (set_row d (settle_delivery st p m e) t) = row_keys t"
  by (rule row_keys_set_row) (simp add: settle_delivery_def)

lemma resume_row_keys [simp]: "row_keys (set_row d resume_delivery t) = row_keys t"
  by (rule row_keys_set_row) (simp add: resume_delivery_def)

lemma set_row_distinct: "(\<And>r. da_id (f r) = da_id r) \<Longrightarrow> da_rows.keys_distinct t \<Longrightarrow> da_rows.keys_distinct (set_row d f t)"
  unfolding set_row_def by (rule da_rows.keys_distinct_update)

lemma set_row_lookup:
  assumes "\<And>r. da_id (f r) = da_id r"
  shows "da_rows.lookup (set_row d f t) d = map_option f (da_rows.lookup t d)"
proof -
  have "da_rows.lookup (set_row d f t) d = map_option (\<lambda>r. if da_id r = d then f r else r) (da_rows.lookup t d)"
    unfolding set_row_def using assms by (rule da_rows.lookup_update)
  then show ?thesis using da_rows.lookup_Some by (cases "da_rows.lookup t d") auto
qed

lemma held_update:
  assumes "alone c" "held (rows w) a"
    and run: "statement c (update_delivery_attempt (da_id a) (da_no a) st p m e) w = (u, w1)"
  shows "(u = Inr True \<and> rows w1 = set_row (da_id a) (settle_delivery st p m e) (rows w))
    \<or> ((\<exists>x. u = Inl x) \<and> rows w1 = rows w)"
proof -
  have "\<exists>r \<in> set (rows w). da_id r = da_id a \<and> da_no r = da_no a \<and> da_status r = Pending"
    using assms(2) da_rows.lookup_Some by (force simp: held_def)
  moreover have "map (\<lambda>r. if da_id r = da_id a \<and> da_no r = da_no a \<and> da_status r = Pending then settle_delivery st p m e r else r) (rows w)
      = set_row (da_id a) (settle_delivery st p m e) (rows w)"
    unfolding set_row_def using held_row [OF assms(2)] by (intro map_cong refl) auto
  ultimately show ?thesis
    using run assms(1)
    by (auto simp: statement_def transaction_def alone_def update_delivery_attempt_def update_where_def rows_def
        split: prod.splits sum.splits if_splits)
qed

text \<open>After a row in hand is put to \<open>Retry_wait\<close>, the retry statement takes it back under the next number.\<close>

lemma held_resume:
  assumes "alone c" "held t a" and w: "rows w = set_row (da_id a) (settle_delivery Retry_wait p m e) t"
    and a1: "a1 = settle_delivery Retry_wait p m e a" and run: "resume_retry c a1 w = (v, w')"
  shows "v = Inr (Some (resume_delivery a1)) \<and> held (rows w') (resume_delivery a1) \<and> row_keys (rows w') = row_keys t"
proof -
  let ?s = "settle_delivery Retry_wait p m e"
  obtain r where r: "da_rows.lookup t (da_id a) = Some r" "da_no r = da_no a"
    and d: "da_rows.keys_distinct t" using assms(2) by (auto simp: held_def)
  have mem: "?s r \<in> set (rows w)"
    using r(1) da_rows.lookup_Some [OF r(1)] by (force simp: w set_row_def)
  have st: "da_status x = Retry_wait" if "x \<in> set (rows w)" "da_id x = da_id a" for x
    using that by (auto simp: w set_row_def split: if_splits)
  have "map (\<lambda>x. if da_id x = da_id a \<and> (da_status x = Failed \<or> da_status x = Retry_wait) then resume_delivery x else x) (rows w)
      = set_row (da_id a) resume_delivery (rows w)"
    unfolding set_row_def using st by (intro map_cong refl) auto
  moreover have "\<exists>x \<in> set (rows w). da_id x = da_id a \<and> (da_status x = Failed \<or> da_status x = Retry_wait)"
    using mem st [OF mem] da_rows.lookup_Some [OF r(1)] by (intro bexI [OF _ mem]) simp
  ultimately have v: "v = Inr (Some (resume_delivery a1))" "rows w' = set_row (da_id a) resume_delivery (rows w)"
    using run assms(1)
    by (auto simp: resume_retry_def bindA_def statement_def transaction_def alone_def retry_delivery_attempt_def
        update_where_def rows_def a1 split: prod.splits sum.splits if_splits)
  have "da_rows.keys_distinct (rows w')"
    unfolding v(2) w by (intro set_row_distinct d) simp_all
  moreover have "da_rows.lookup (rows w') (da_id a) = Some (resume_delivery (?s r))"
    unfolding v(2) w by (simp add: set_row_lookup r(1))
  moreover have "da_status x \<noteq> Retry_wait" if "x \<in> set (rows w')" "da_id x \<noteq> da_id a" for x
    using that assms(2) by (auto simp: v(2) w set_row_def held_def split: if_splits)
  ultimately have "held (rows w') (resume_delivery a1)"
    using r(2) by (auto simp: held_def a1)
  then show ?thesis using v w by simp
qed

definition settled_rows :: "delivery_attempt list \<Rightarrow> bool" where
  "settled_rows t \<longleftrightarrow> da_rows.keys_distinct t \<and> no_retry_wait t"

lemma held_settled: "held t a \<Longrightarrow> settled_rows t"
  using held_no_retry_wait by (auto simp: settled_rows_def held_def)

lemma set_row_settled:
  assumes "held t a" "st \<noteq> Retry_wait"
  shows "settled_rows (set_row (da_id a) (settle_delivery st p m e) t)"
proof -
  have "no_retry_wait (set_row (da_id a) (settle_delivery st p m e) t)"
    using assms by (auto simp: no_retry_wait_def list_all_iff set_row_def held_def)
  moreover have "da_rows.keys_distinct (set_row (da_id a) (settle_delivery st p m e) t)"
    using assms(1) by (intro set_row_distinct) (simp_all add: held_def)
  ultimately show ?thesis by (simp add: settled_rows_def)
qed

lemma current_result_rows: "alone c \<Longrightarrow> current_result c q d w = (r, w') \<Longrightarrow> rows w' = rows w"
  by (auto simp: current_result_def bindA_eq statement_def transaction_def load_delivery_attempt_def alone_def rows_def
      split: option.splits prod.splits sum.splits)

lemma after_failure_rows:
  assumes al: "alone c" and h: "held (rows w) a"
    and run: "after_failure c q a limit code payload retryable unknown w = (r, w')"
  shows "row_keys (rows w') = row_keys (rows w)
    \<and> ((\<exists>b. r = Inr (Again b) \<and> held (rows w') b) \<or> (\<forall>b. r \<noteq> Inr (Again b)) \<and> settled_rows (rows w'))"
proof -
  define st where "st = next_status unknown retryable (da_no a) limit"
  define audit where "audit = Some (failure_audit_payload code payload unknown)"
  obtain u w1 where u: "statement c (update_delivery_attempt (da_id a) (da_no a) st audit None (Some code)) w = (u, w1)"
    by fastforce
  note run = run [unfolded after_failure_def Let_def, folded st_def audit_def]
  from held_update [OF al h u] show ?thesis
  proof (elim disjE conjE exE)
    fix x assume "u = Inl x" "rows w1 = rows w"
    then show ?thesis using run u held_settled [OF h] by (auto simp: bindA_def)
  next
    assume ok: "u = Inr True" "rows w1 = set_row (da_id a) (settle_delivery st audit None (Some code)) (rows w)"
    show ?thesis
    proof (cases "st = Retry_wait")
      case False
      then have "w' = w1" "\<forall>b. r \<noteq> Inr (Again b)" using run u ok(1) by (auto simp: bindA_def)
      then show ?thesis using ok(2) set_row_settled [OF h False] by simp
    next
      case True
      define w2 where "w2 = w1\<lparr>dw_sleeps := dw_sleeps w1 @ [doubling (dx_retry_delay c) (da_no a)]\<rparr>"
      define a1 where "a1 = settle_delivery Retry_wait audit None (Some code) a"
      obtain v w3 where v: "resume_retry c a1 w2 = (v, w3)" by fastforce
      have w2: "rows w2 = set_row (da_id a) (settle_delivery Retry_wait audit None (Some code)) (rows w)"
        using ok(2) True by (simp add: w2_def rows_def)
      note res = held_resume [OF al h w2 a1_def v]
      have "r = Inr (Again (resume_delivery a1)) \<and> w' = w3"
        using run u ok(1) True v res by (auto simp: bindA_def sleep_def doubling_def w2_def a1_def)
      then show ?thesis using res by simp
    qed
  qed
qed

lemma after_success_rows:
  assumes al: "alone c" and h: "held (rows w) a" and run: "after_success c q a sent w = (r, w')"
  shows "row_keys (rows w') = row_keys (rows w) \<and> settled_rows (rows w')"
proof -
  let ?p = "Some (success_audit_payload sent)" and ?m = "Some (fm_message sent)"
  obtain u w1 where u: "statement c (update_delivery_attempt (da_id a) (da_no a) Succeeded ?p ?m None) w = (u, w1)"
    by fastforce
  from held_update [OF al h u] show ?thesis
  proof (elim disjE conjE exE)
    fix x assume "u = Inl x" "rows w1 = rows w"
    then show ?thesis using run u held_settled [OF h] by (auto simp: after_success_def bindA_def Let_def)
  next
    assume ok: "u = Inr True" "rows w1 = set_row (da_id a) (settle_delivery Succeeded ?p ?m None) (rows w)"
    then have "w' = w1" using run u by (auto simp: after_success_def bindA_def Let_def)
    then show ?thesis using ok(2) set_row_settled [OF h] by simp
  qed
qed

lemma send_step_rows:
  assumes al: "alone c" and h: "held (rows w) a" and run: "send_step c q limit a w = (r, w')"
  shows "row_keys (rows w') = row_keys (rows w)
    \<and> ((\<exists>b. r = Inr (Again b) \<and> held (rows w') b) \<or> (\<forall>b. r \<noteq> Inr (Again b)) \<and> settled_rows (rows w'))"
proof -
  obtain x w1 where sent: "send_attempt c q a w = (x, w1)" by fastforce
  then have w1: "rows w1 = rows w" by (auto simp: send_attempt_def rows_def split: prod.splits)
  then have h1: "held (rows w1) a" using h by simp
  have "(\<exists>code p rt un. after_failure c q a limit code p rt un w1 = (r, w'))
    \<or> (\<exists>m y. after_success c q a m w1 = (y, w') \<and> (\<forall>b. r \<noteq> Inr (Again b))) \<or> (\<exists>e. r = Inl e \<and> w' = w1)"
    using run sent by (auto simp: send_step_def finish_def bindA_eq split: sum.splits exn.splits)
  then show ?thesis
  proof (elim disjE exE conjE)
    fix code p rt un assume "after_failure c q a limit code p rt un w1 = (r, w')"
    from after_failure_rows [OF al h1 this] show ?thesis using w1 by simp
  next
    fix m y assume "after_success c q a m w1 = (y, w')" "\<forall>b. r \<noteq> Inr (Again b)"
    then show ?thesis using after_success_rows [OF al h1] w1 by fastforce
  next
    fix e assume "r = Inl e" "w' = w1"
    then show ?thesis using held_settled [OF h] w1 by simp
  qed
qed

lemma send_loop_rows:
  assumes "alone c" "held (rows w) a" "send_loop c q limit a w = (r, w')"
  shows "row_keys (rows w') = row_keys (rows w) \<and> settled_rows (rows w')"
  using assms
proof (induction c q limit a w arbitrary: r w' rule: send_loop.induct)
  case (1 c q limit a w)
  obtain s1 w1 where step: "send_step c q limit a w = (s1, w1)" by fastforce
  from send_step_rows [OF 1(2,3) step] show ?case
  proof (elim conjE disjE exE)
    fix b assume k: "row_keys (rows w1) = row_keys (rows w)" and b: "s1 = Inr (Again b)" and h: "held (rows w1) b"
    have run: "send_loop c q limit b w1 = (r, w')"
      using 1(4) step b by (simp add: send_loop.simps [of c q limit a w])
    show ?thesis using "1.IH" [OF step [symmetric] b refl 1(2) h run] k by simp
  next
    assume "\<forall>b. s1 \<noteq> Inr (Again b)"
    then have "w' = w1" using 1(4) step
      by (auto simp: send_loop.simps [of c q limit a w] split: sum.splits loop_step.splits)
    then show "row_keys (rows w1) = row_keys (rows w) \<Longrightarrow> settled_rows (rows w1) \<Longrightarrow> ?thesis" by simp
  qed
qed

text \<open>The other tables, which delivery only reads.\<close>

definition others :: "report_db \<Rightarrow> report_db" where
  "others db = db\<lparr>db_deliveries := []\<rparr>"

definition same_others :: "'t delivery_world \<Rightarrow> 't delivery_world \<Rightarrow> bool" where
  "same_others w w' \<longleftrightarrow> others (dw_db w') = others (dw_db w)"

lemma same_others_rel [simp]: "reflp same_others" "transp same_others"
  by (auto simp: same_others_def reflp_def transp_def)

lemma keeps_others_ops [simp]:
  "others (snd (update_delivery_attempt d n st p m e db)) = others db"
  "others (snd (retry_delivery_attempt d db)) = others db"
  "others (snd (load_delivery_attempt d db)) = others db"
  "others (snd (load_delivery_for_key r t k db)) = others db"
  "others (snd (reserve_delivery_attempt a db)) = others db"
  "others (snd (load_report aware i db)) = others db"
  by (auto simp: others_def update_delivery_attempt_def retry_delivery_attempt_def load_delivery_attempt_def
      load_delivery_for_key_def reserve_delivery_attempt_def load_report_def update_where_def
      split: option.splits sum.splits prod.splits bool.splits)

lemma keeps_others_statement:
  fixes c :: "'t delivery_service"
  assumes "alone c" "\<And>db. others (snd (m db)) = others db"
  shows "keeps same_others (statement c m)"
  unfolding keeps_def
proof
  fix w :: "'t delivery_world"
  have "others (snd (transaction m (dw_db w))) = others (dw_db w)"
    using assms(2) [of "dw_db w"] by (auto simp: transaction_def split: prod.splits sum.splits)
  then show "same_others w (snd (statement c m w))"
    using assms(1) by (auto simp: statement_def alone_def same_others_def split: prod.splits)
qed

lemmas keeps_others = keeps_bindA keeps_ret keeps_throw keeps_others_statement

lemma keeps_others_current: "alone c \<Longrightarrow> keeps same_others (current_result c q d)"
  unfolding current_result_def by (intro keeps_others; simp add: keeps_others split: option.split)

lemma keeps_others_resume: "alone c \<Longrightarrow> keeps same_others (resume_retry c a)"
  unfolding resume_retry_def by (intro keeps_others; simp)

lemma keeps_others_sleep: "keeps same_others (sleep d)"
  by (simp add: keeps_def sleep_def same_others_def)

lemma keeps_others_finish: "keeps same_others m \<Longrightarrow> keeps same_others (finish m)"
  unfolding finish_def by (intro keeps_others; simp)

lemma keeps_others_failure:
  "alone c \<Longrightarrow> keeps same_others (after_failure c q a limit code payload retryable unknown)"
  unfolding after_failure_def Let_def
  by (intro keeps_others keeps_others_sleep keeps_others_resume; simp add: keeps_others keeps_others_sleep
      keeps_others_resume keeps_others_finish keeps_others_current split: option.split)

lemma keeps_others_success: "alone c \<Longrightarrow> keeps same_others (after_success c q a sent)"
  unfolding after_success_def Let_def
  by (intro keeps_others; simp add: keeps_others keeps_others_current)

lemma send_step_others:
  assumes al: "alone c" and run: "send_step c q limit a w = (r, w')"
  shows "same_others w w'"
proof -
  obtain x w1 where sent: "send_attempt c q a w = (x, w1)" by fastforce
  then have "same_others w w1" by (auto simp: send_attempt_def same_others_def split: prod.splits)
  moreover have "same_others w1 w'"
    using run sent keepsD [OF keeps_others_failure [OF al]] keepsD [OF keeps_others_finish [OF keeps_others_success [OF al]]]
    by (auto simp: send_step_def same_others_def split: sum.splits exn.splits)
  ultimately show ?thesis by (simp add: same_others_def)
qed

lemma send_loop_others:
  assumes "alone c" "send_loop c q limit a w = (r, w')"
  shows "same_others w w'"
proof -
  have "keeps same_others (send_step c q limit b)" for b
    unfolding keeps_def using send_step_others [OF assms(1)] by (metis prod.collapse)
  then show ?thesis
    using keepsD [OF dl.loop_keeps [OF same_others_rel] assms(2)] by blast
qed

text \<open>The row that a call asks for, fixed by the stored report, the chat and the rendering.\<close>

definition attempt_key :: "delivery_attempt \<Rightarrow> string \<times> string \<times> string" where
  "attempt_key a = (da_report a, da_target a, da_key a)"

definition wanted_key :: "'t delivery_service \<Rightarrow> string \<Rightarrow> string \<Rightarrow> report_db \<Rightarrow> (string \<times> string \<times> string) option" where
  "wanted_key c i chat db = (case fst (load_report (dx_aware c) i db) of
     Inr (Some rep) \<Rightarrow> (case dx_render c rep of
         Inr crd \<Rightarrow> (case make_delivery_attempt (initial_attempt c (delivery_request_of c rep chat crd) []) of
             Inr a \<Rightarrow> Some (attempt_key a) | Inl _ \<Rightarrow> None)
       | Inl _ \<Rightarrow> None)
   | _ \<Rightarrow> None)"

lemma wanted_key_others: "others db = others db' \<Longrightarrow> wanted_key c i chat db = wanted_key c i chat db'"
proof -
  assume "others db = others db'"
  then have "db_reports db = db_reports db'" by (metis others_def report_db.select_convs(3) report_db.update_convs(5) report_db.surjective)
  then show ?thesis by (simp add: wanted_key_def load_report_def split: option.splits sum.splits)
qed

lemma initial_attempt_key:
  "make_delivery_attempt (initial_attempt c q d) = Inr a
    \<Longrightarrow> \<exists>b. make_delivery_attempt (initial_attempt c q []) = Inr b \<and> attempt_key b = attempt_key a"
  by (auto simp: make_delivery_attempt_def initial_attempt_def Let_def attempt_key_def split: if_splits)

lemma reserve_rows:
  assumes "reserve_delivery_attempt a db = (r, db')" "da_rows.keys_distinct (db_deliveries db)"
  shows "(r = Inr True \<and> db_deliveries db' = db_deliveries db @ [a] \<and> da_id a \<notin> da_id ` set (db_deliveries db)
      \<and> attempt_key a \<notin> set (row_keys (db_deliveries db)))
    \<or> (r \<noteq> Inr True \<and> db_deliveries db' = db_deliveries db)"
  using assms(1)
  by (auto simp: reserve_delivery_attempt_def insert_on_conflict_def same_delivery_key_def attempt_key_def row_keys_def
      split: if_splits sum.splits option.splits)

lemma select_one_mem: "select_one p t = Some r \<Longrightarrow> r \<in> set t"
  by (auto simp: select_one_def find_Some_iff)

lemma existing_alone:
  assumes al: "alone c" and st: "settled_rows (rows w)" and run: "deliver_existing c q w = (r, w')"
  shows "dw_db w' = dw_db w \<and> dw_sends w' = dw_sends w"
proof -
  obtain x w1 where x: "load_for_request c q w = (x, w1)" by fastforce
  have same: "dw_db w1 = dw_db w" "dw_sends w1 = dw_sends w"
    using x al by (auto simp: load_for_request_def statement_def transaction_def alone_def load_delivery_for_key_def
        split: prod.splits sum.splits)
  have "da_status a \<noteq> Retry_wait" if a: "x = Inr (Some a)" for a
  proof -
    obtain b where b: "b \<in> set (rows w)" "make_delivery_attempt b = Inr a"
      using x al a by (auto simp: load_for_request_def statement_def transaction_def alone_def load_delivery_for_key_def
          read_delivery_def bindE_eq_Inr rows_def dest: select_one_mem split: option.splits prod.splits sum.splits)
    have "da_status a = da_status b" using make_delivery_attempt_number [OF b(2)] by simp
    then show ?thesis using st b(1) by (simp add: settled_rows_def no_retry_wait_def list_all_iff)
  qed
  then have "w' = w1" using run x by (auto simp: deliver_existing_def bindA_eq split: option.splits if_splits)
  then show ?thesis using same by simp
qed

lemma deliver_alone:
  assumes al: "alone c" and st: "settled_rows (rows w)" and run: "deliver c i chat dry w = (r, w')"
  shows "same_others w w' \<and> settled_rows (rows w') \<and> ((rows w' = rows w \<and> dw_sends w' = dw_sends w)
    \<or> (\<exists>k. wanted_key c i chat (dw_db w) = Some k \<and> k \<notin> set (row_keys (rows w)) \<and> row_keys (rows w') = row_keys (rows w) @ [k]))"
proof -
  obtain x w1 where x: "statement c (load_report (dx_aware c) i) w = (x, w1)" by fastforce
  have w1: "dw_db w1 = dw_db w" "dw_sends w1 = dw_sends w" and rep: "fst (load_report (dx_aware c) i (dw_db w)) = x"
    using x al by (auto simp: statement_def transaction_def alone_def load_report_def split: prod.splits sum.splits option.splits)
  show ?thesis
  proof (cases "\<exists>rep crd. x = Inr (Some rep) \<and> deliverable rep \<and> strip chat \<noteq> [] \<and> dx_render c rep = Inr crd \<and> \<not> dry")
    case False
    then have "w' = w1" using run x by (auto simp: deliver_def bindA_eq Let_def split: option.splits if_splits)
    then show ?thesis using w1 st by (simp add: same_others_def rows_def)
  next
    case True
    then obtain rp crd where pre: "x = Inr (Some rp)" "deliverable rp" "strip chat \<noteq> []" "dx_render c rp = Inr crd"
      and nd: "\<not> dry" by blast
    define q where "q = delivery_request_of c rp chat crd"
    define w2 where "w2 = w1\<lparr>dw_uuids := dw_uuids w1 + 1\<rparr>"
    define m where "m = make_delivery_attempt (initial_attempt c q (dx_fresh c (dw_uuids w1)))"
    have w2: "dw_db w2 = dw_db w" "dw_sends w2 = dw_sends w" using w1 by (simp_all add: w2_def)
    show ?thesis
    proof (cases m)
      case (Inl e)
      then have "w' = w2" using run x pre nd
        by (auto simp: deliver_def bindA_def fresh_uuid_def Let_def q_def w2_def m_def split: if_splits)
      then show ?thesis using w2 st by (simp add: same_others_def rows_def)
    next
      case (Inr a)
      obtain y w3 where y: "statement c (reserve_delivery_attempt a) w2 = (y, w3)" by fastforce
      obtain db where db: "reserve_delivery_attempt a (dw_db w) = (y, db)"
          "w3 = w2\<lparr>dw_db := (if isl y then dw_db w else db), dw_steps := dw_steps w2 + 1\<rparr>"
        using y al w2 by (auto simp: statement_def transaction_def alone_def split: prod.splits sum.splits)
      have oth: "same_others w w3"
        using keepsD [OF keeps_others_statement [OF al keeps_others_ops(5)] y] w2 by (simp add: same_others_def)
      have d: "da_rows.keys_distinct (db_deliveries (dw_db w))" using st by (simp add: settled_rows_def rows_def)
      have "(\<exists>e. y = Inl e \<and> w' = w3) \<or> (y = Inr True \<and> send_loop c q (dx_max_attempts c) a w3 = (r, w'))
          \<or> (y = Inr False \<and> deliver_existing c q w3 = (r, w'))"
        using run x pre nd Inr y
        by (cases y) (auto simp: deliver_def bindA_def fresh_uuid_def Let_def q_def w2_def m_def split: if_splits)
      then show ?thesis
      proof (elim disjE exE conjE)
        fix e assume "y = Inl e" "w' = w3"
        then show ?thesis using db w2 st oth by (simp add: rows_def)
      next
        assume f: "y = Inr False" and ex: "deliver_existing c q w3 = (r, w')"
        have rows3: "rows w3 = rows w" using reserve_rows [OF db(1) d] f db(2) by (simp add: rows_def)
        from existing_alone [OF al _ ex] have "dw_db w' = dw_db w3 \<and> dw_sends w' = dw_sends w3" using st rows3 by simp
        then show ?thesis using rows3 st oth db(2) w2 by (simp add: same_others_def rows_def)
      next
        assume t: "y = Inr True" and loop: "send_loop c q (dx_max_attempts c) a w3 = (r, w')"
        have rows3: "rows w3 = rows w @ [a]" and new: "da_id a \<notin> da_id ` set (rows w)" "attempt_key a \<notin> set (row_keys (rows w))"
          using reserve_rows [OF db(1) d] t db(2) by (simp_all add: rows_def)
        have a: "da_status a = Pending"
          using make_delivery_attempt_number Inr by (fastforce simp: m_def initial_attempt_def)
        have "da_rows.lookup (rows w) (da_id a) = None" using new(1) by (simp add: da_rows.lookup_None)
        then have "held (rows w3) a"
          using st new(1) a da_rows.keys_distinct_append [of "rows w" "da_id a" a]
          by (auto simp: rows3 held_def da_rows.lookup_append settled_rows_def no_retry_wait_def list_all_iff)
        from send_loop_rows [OF al this loop]
        have "row_keys (rows w') = row_keys (rows w) @ [attempt_key a]" "settled_rows (rows w')"
          by (simp_all add: rows3 row_keys_def attempt_key_def)
        moreover have "wanted_key c i chat (dw_db w) = Some (attempt_key a)"
          using initial_attempt_key [OF Inr [unfolded m_def]] rep pre by (auto simp: wanted_key_def q_def)
        moreover have "same_others w w'" using send_loop_others [OF al loop] oth by (simp add: same_others_def)
        ultimately show ?thesis using new(2) by blast
      qed
    qed
  qed
qed

text \<open>The same report delivered to the same chat again and again.\<close>

primrec deliver_times :: "'t delivery_service \<Rightarrow> string \<Rightarrow> string \<Rightarrow> nat \<Rightarrow> 't delivery_world \<Rightarrow> 't delivery_world" where
  "deliver_times c i chat 0 w = w"
| "deliver_times c i chat (Suc n) w = snd (deliver c i chat False (deliver_times c i chat n w))"

lemma deliver_times_invariant:
  assumes al: "alone c" and st: "settled_rows (rows w)" and m: "1 \<le> dx_max_attempts c"
  shows "same_others w (deliver_times c i chat n w) \<and> settled_rows (rows (deliver_times c i chat n w))
    \<and> (dw_sends (deliver_times c i chat n w) = dw_sends w
      \<or> (\<exists>k. wanted_key c i chat (dw_db (deliver_times c i chat n w)) = Some k
          \<and> k \<in> set (row_keys (rows (deliver_times c i chat n w)))
          \<and> one_accepted c (sends_since w (deliver_times c i chat n w))))"
proof (induction n)
  case 0
  then show ?case using st by (simp add: same_others_def)
next
  case (Suc n)
  let ?v = "deliver_times c i chat n w"
  obtain r v' where run: "deliver c i chat False ?v = (r, v')" by fastforce
  have stv: "settled_rows (rows ?v)" and ov: "same_others w ?v" using Suc by auto
  note one = deliver_alone [OF al stv run]
  have oth: "same_others w v'" using one ov by (simp add: same_others_def)
  have key: "wanted_key c i chat (dw_db v') = wanted_key c i chat (dw_db ?v)"
    using one by (intro wanted_key_others) (simp add: same_others_def)
  show ?case
  proof (cases "rows v' = rows ?v \<and> dw_sends v' = dw_sends ?v")
    case True
    then show ?thesis using Suc one oth key run by (simp add: sends_since_def)
  next
    case False
    then obtain k where k: "wanted_key c i chat (dw_db ?v) = Some k" "k \<notin> set (row_keys (rows ?v))"
      "row_keys (rows v') = row_keys (rows ?v) @ [k]" using one by blast
    then have same: "dw_sends ?v = dw_sends w" using Suc by auto
    have "one_accepted c (sends_since w v')"
      using deliver_one_accepted [OF run m] same by (simp add: sends_since_def)
    then show ?thesis using k key oth one run by simp
  qed
qed

text \<open>C16: When one worker delivers the same report to the same chat again and again, one call after the other, with no other writer
  between its statements and no row waiting for a retry at the start, all its calls together send at most the configured number of
  times and only the last send can have reached the chat: a succeeded, failed, uncertain or abandoned attempt is never sent again by
  a delivery call. (Two workers at once can send twice.)\<close>

theorem repeated_delivery_accepted_once:
  assumes "dx_env c = (\<lambda>_ db. db)" and "1 \<le> dx_max_attempts c"
    and "distinct (map da_id (db_deliveries (dw_db w)))"
    and "\<forall>r \<in> set (db_deliveries (dw_db w)). da_status r \<noteq> Retry_wait"
  shows "int (length (sends_since w (deliver_times c report_id chat n w))) \<le> dx_max_attempts c
    \<and> (\<forall>x \<in> set (butlast (sends_since w (deliver_times c report_id chat n w))). retryable_rejection (snd (snd x)))"
proof -
  have "settled_rows (rows w)"
    using assms(3,4) by (simp add: settled_rows_def rows_def da_rows.keys_distinct_def no_retry_wait_def list_all_iff)
  from deliver_times_invariant [OF _ this assms(2), of report_id chat n]
  show ?thesis using assms(1,2) by (auto simp: alone_def one_accepted_def sends_since_def)
qed

section \<open>A concrete service\<close>

definition demo_report :: stored_report where
  "demo_report = \<lparr>sr_id = ''r1'', sr_date = 1, sr_version = ''v1'', sr_contract = ''1.0.0'', sr_snapshot = ''s1'',
     sr_status = ''complete'', sr_decision = ''published'', sr_generated_at = 0,
     sr_payload = [(''report_id'', JStr ''r1''), (''report_date'', JStr ''0001-01-01''), (''contract_version'', JStr ''1.0.0''),
       (''status'', JStr ''complete''), (''publication'', JObj [(''decision'', JStr ''published'')]),
       (''input_snapshot'', JObj [(''snapshot_id'', JStr ''s1'')]),
       (''sections'', JObj [(''source_references'', JObj [(''items'', JList [])])])],
     sr_lifecycle = Validated, sr_generation = None, sr_errors = []\<rparr>"

definition demo_db :: report_db where
  "demo_db = \<lparr>db_snapshots = [], db_generations = [], db_reports = [demo_report], db_source_refs = [], db_deliveries = []\<rparr>"

definition demo_world :: "nat delivery_world" where
  "demo_world = \<lparr>dw_db = demo_db, dw_steps = 0, dw_uuids = 0, dw_transport = 0, dw_sends = [], dw_sleeps = []\<rparr>"

definition demo_rejection :: "exn + feishu_send" where
  "demo_rejection = Inl (FeishuTransportError ''FEISHU_RATE_LIMITED'' None True False)"

definition demo_sent :: "exn + feishu_send" where
  "demo_sent = Inr \<lparr>fm_message = ''om1'', fm_response = JObj [(''token'', JStr ''t'')]\<rparr>"

definition demo_service :: "(exn + feishu_send) list \<Rightarrow> nat delivery_service" where
  "demo_service script = \<lparr>dx_send = (\<lambda>chat crd u n. (if n < length script then script ! n else Inl RuntimeError, n + 1)),
     dx_render = (\<lambda>r. Inr (JObj [(''schema'', JStr ''2.0'')])), dx_max_attempts = 3, dx_max_total = 10, dx_retry_delay = 250000,
     dx_sha = (\<lambda>s. take 64 (filter is_alnum s @ replicate 64 CHR ''0'')), dx_aware = (\<lambda>_. True),
     dx_fresh = (\<lambda>n. int_str (int n)), dx_env = (\<lambda>_ db. db)\<rparr>"

lemma demo_deliver:
  "case deliver (demo_service [demo_rejection, demo_sent]) ''r1'' ''c'' False demo_world of (r, w') \<Rightarrow>
     dw_sends w' = [(''0'', 1, demo_rejection), (''0'', 2, demo_sent)] \<and> dw_sleeps w' = [250000]
     \<and> (case r of Inr x \<Rightarrow> delivery_result_status x = ''succeeded'' | _ \<Rightarrow> False)"
  by code_simp

theorem deliver_sends_once_accepted_witness:
  "\<exists>w'. length (sends_since demo_world w') = 2 \<and> retryable_rejection (snd (snd (hd (sends_since demo_world w'))))
     \<and> fst (snd (sends_since demo_world w' ! 1)) = 2"
proof -
  let ?c = "demo_service [demo_rejection, demo_sent]"
  obtain r w' where run: "deliver ?c ''r1'' ''c'' False demo_world = (r, w')" by fastforce
  have sends: "sends_since demo_world w' = [(''0'', 1, demo_rejection), (''0'', 2, demo_sent)]"
    using demo_deliver run by (simp add: sends_since_def demo_world_def)
  have "1 \<le> dx_max_attempts ?c" by (simp add: demo_service_def)
  from deliver_sends_once_accepted [OF run this] show ?thesis
    by (intro exI [of _ w']) (simp add: sends)
qed

theorem deliver_backoff_bounded_witness:
  "\<exists>w'. sleeps_since demo_world w' = [250000] \<and> sum_list (sleeps_since demo_world w') \<le> 250000 * (2 ^ nat 2 - 1)"
proof -
  let ?c = "demo_service [demo_rejection, demo_sent]"
  obtain r w' where run: "deliver ?c ''r1'' ''c'' False demo_world = (r, w')" by fastforce
  have "1 \<le> dx_max_attempts ?c" "0 \<le> dx_retry_delay ?c" by (simp_all add: demo_service_def)
  from deliver_backoff_bounded [OF run this] show ?thesis
    using demo_deliver run
    by (intro exI [of _ w']) (simp add: sleeps_since_def demo_world_def demo_service_def)
qed

theorem repeated_delivery_accepted_once_witness:
  "int (length (sends_since demo_world (deliver_times (demo_service [demo_rejection, demo_sent]) ''r1'' ''c'' 5 demo_world))) \<le> 3"
  using repeated_delivery_accepted_once [of "demo_service [demo_rejection, demo_sent]" demo_world "''r1''" "''c''" 5]
  by (simp add: demo_service_def demo_world_def demo_db_def)

section \<open>Redacted audit records\<close>

text \<open>The values that stand under a sensitive key at any depth.\<close>

fun sensitive_values :: "json \<Rightarrow> json list" where
  "sensitive_values (JObj d) = concat (map (\<lambda>p. (if is_sensitive_key (fst p) then [snd p] else []) @ sensitive_values (snd p)) d)"
| "sensitive_values (JList l) = concat (map sensitive_values l)"
| "sensitive_values v = []"

definition redacted :: "json \<Rightarrow> bool" where
  "redacted j \<longleftrightarrow> list_all (\<lambda>v. v = JStr ''[REDACTED]'') (sensitive_values j)"

lemma redacted_redact: "redacted (redact j)"
  by (induction j rule: redact.induct) (auto simp: redacted_def list_all_iff)

lemma redact_redact: "redact (redact j) = redact j"
  by (induction j rule: redact.induct) auto

definition clean_rows :: "report_db \<Rightarrow> bool" where
  "clean_rows db \<longleftrightarrow> (\<forall>r \<in> set (db_deliveries db). \<forall>p. da_response r = Some p \<longrightarrow> redacted p)"

definition keeps_clean :: "'t delivery_world \<Rightarrow> 't delivery_world \<Rightarrow> bool" where
  "keeps_clean w w' \<longleftrightarrow> (clean_rows (dw_db w) \<longrightarrow> clean_rows (dw_db w'))"

lemma keeps_clean_rel [simp]: "reflp keeps_clean" "transp keeps_clean"
  by (auto simp: keeps_clean_def reflp_def transp_def)

definition clean_env :: "'t delivery_service \<Rightarrow> bool" where
  "clean_env c \<longleftrightarrow> (\<forall>k db. clean_rows db \<longrightarrow> clean_rows (dx_env c k db))"

lemma clean_statement:
  fixes c :: "'t delivery_service"
  assumes "clean_env c" "\<And>db. clean_rows db \<Longrightarrow> clean_rows (snd (m db))"
  shows "keeps keeps_clean (statement c m)"
  unfolding keeps_def
proof
  fix w :: "'t delivery_world"
  have "clean_rows (snd (transaction m db))" if "clean_rows db" for db
    using assms(2) [OF that] that by (auto simp: transaction_def split: prod.splits sum.splits)
  then have "clean_rows (dw_db w) \<Longrightarrow> clean_rows (snd (transaction m (dx_env c (dw_steps w) (dw_db w))))"
    using assms(1) by (simp add: clean_env_def)
  then show "keeps_clean w (snd (statement c m w))"
    by (auto simp: statement_def keeps_clean_def split: prod.splits)
qed

lemma clean_update: "redacted p \<Longrightarrow> clean_rows db \<Longrightarrow> clean_rows (snd (update_delivery_attempt d n st (Some p) m e db))"
  by (auto simp: update_delivery_attempt_def update_where_def clean_rows_def settle_delivery_def split: if_splits)

lemma clean_resume:
  "clean_rows db \<Longrightarrow> clean_rows (snd (retry_delivery_attempt d db))"
  "clean_rows db \<Longrightarrow> clean_rows (snd (authorize_manual_retry d n u db))"
  by (auto simp: retry_delivery_attempt_def authorize_manual_retry_def update_where_def clean_rows_def resume_delivery_def
      split: if_splits)

lemma clean_loads:
  "clean_rows db \<Longrightarrow> clean_rows (snd (load_delivery_attempt d db))"
  "clean_rows db \<Longrightarrow> clean_rows (snd (load_delivery_for_key r t k db))"
  "clean_rows db \<Longrightarrow> clean_rows (snd (load_report aware i db))"
  by (auto simp: load_delivery_attempt_def load_delivery_for_key_def load_report_def split: option.splits sum.splits)

lemma clean_reserve:
  "da_response a = None \<Longrightarrow> clean_rows db \<Longrightarrow> clean_rows (snd (reserve_delivery_attempt a db))"
  by (auto simp: reserve_delivery_attempt_def insert_on_conflict_def clean_rows_def split: if_splits option.splits sum.splits)

lemma audit_keys_plain [simp]:
  "\<not> is_sensitive_key ''provider''" "\<not> is_sensitive_key ''result''"
  "\<not> is_sensitive_key ''error_code''" "\<not> is_sensitive_key ''response''"
  by code_simp+

lemma redacted_failure: "redacted (failure_audit_payload code p unknown)"
  using redacted_redact by (cases p) (simp_all add: failure_audit_payload_def redacted_def)

lemma redacted_success: "redacted (success_audit_payload sent)"
  using redacted_redact [of "fm_response sent"] by (simp add: success_audit_payload_def redacted_def)

lemmas keeps_clean_rules = keeps_bindA [OF keeps_clean_rel(2)] keeps_ret [OF keeps_clean_rel(1)] keeps_throw [OF keeps_clean_rel(1)]

lemma clean_current: "clean_env c \<Longrightarrow> keeps keeps_clean (current_result c q d)"
  unfolding current_result_def
  by (intro keeps_clean_rules clean_statement clean_loads) (auto simp: keeps_clean_rules split: option.split)

lemma clean_resume_retry: "clean_env c \<Longrightarrow> keeps keeps_clean (resume_retry c a)"
  unfolding resume_retry_def by (intro keeps_clean_rules clean_statement clean_resume)

lemma clean_sleep: "keeps keeps_clean (sleep d)"
  by (simp add: keeps_def sleep_def keeps_clean_def)

lemma clean_finish: "keeps keeps_clean m \<Longrightarrow> keeps keeps_clean (finish m)"
  unfolding finish_def by (intro keeps_clean_rules)

lemma clean_liftA: "keeps keeps_clean (liftA r)"
  by (simp add: keeps_def keeps_clean_def)

lemma clean_fresh: "keeps keeps_clean (fresh_uuid c)"
  by (simp add: keeps_def fresh_uuid_def keeps_clean_def)

lemma clean_failure:
  assumes "clean_env c"
  shows "keeps keeps_clean (after_failure c q a limit code payload retryable unknown)"
proof -
  have "keeps keeps_clean (case x of None \<Rightarrow> finish (current_result c q d) | Some b \<Rightarrow> ret (Again b))" for x d
    using assms by (cases x) (simp_all add: clean_finish clean_current keeps_clean_rules)
  then show ?thesis
    unfolding after_failure_def Let_def
    using assms by (intro keeps_clean_rules clean_statement clean_update redacted_failure)
      (auto intro!: keeps_clean_rules clean_sleep clean_resume_retry clean_finish clean_current)
qed

lemma clean_success: "clean_env c \<Longrightarrow> keeps keeps_clean (after_success c q a sent)"
  unfolding after_success_def Let_def
  by (intro keeps_clean_rules clean_statement clean_update redacted_success) (auto intro!: keeps_clean_rules clean_current)

lemma clean_step:
  assumes "clean_env c"
  shows "keeps keeps_clean (send_step c q limit a)"
  unfolding keeps_def
proof
  fix w
  obtain x w1 where sent: "send_attempt c q a w = (x, w1)" by fastforce
  then have "keeps_clean w w1" by (auto simp: send_attempt_def keeps_clean_def split: prod.splits)
  moreover have "keeps_clean w1 (snd (send_step c q limit a w))"
    using sent clean_failure [OF assms] clean_finish [OF clean_success [OF assms]]
    by (auto simp: send_step_def keeps_def keeps_clean_def split: sum.splits exn.splits)
  ultimately show "keeps_clean w (snd (send_step c q limit a w))" by (simp add: keeps_clean_def)
qed

lemma clean_loop: "clean_env c \<Longrightarrow> keeps keeps_clean (send_loop c q limit a)"
  by (rule dl.loop_keeps) (simp_all add: clean_step)

lemma clean_existing: "clean_env c \<Longrightarrow> keeps keeps_clean (deliver_existing c q)"
proof -
  assume c: "clean_env c"
  have "keeps keeps_clean (case x of None \<Rightarrow> current_result c q d | Some a \<Rightarrow> send_loop c q n a)" for x d n
    using c by (cases x) (simp_all add: clean_current clean_loop)
  then show ?thesis
    unfolding deliver_existing_def load_for_request_def
    using c by (intro keeps_clean_rules clean_statement clean_loads)
      (auto intro!: keeps_clean_rules clean_resume_retry split: option.split)
qed

lemma clean_bind_lift:
  assumes "\<And>a. r = Inr a \<Longrightarrow> keeps keeps_clean (f a)"
  shows "keeps keeps_clean (bindA (liftA r) f)"
  using assms by (cases r) (simp_all add: keeps_def bindA_def keeps_clean_def)

lemma clean_deliver:
  assumes c: "clean_env c"
  shows "keeps keeps_clean (deliver c i chat dry)"
proof -
  have new: "keeps keeps_clean (bindA (liftA (make_delivery_attempt (initial_attempt c q d))) (\<lambda>a.
      bindA (statement c (reserve_delivery_attempt a)) (\<lambda>inserted.
        if inserted then send_loop c q (dx_max_attempts c) a else deliver_existing c q)))" for q d
  proof (rule clean_bind_lift)
    fix a assume "make_delivery_attempt (initial_attempt c q d) = Inr a"
    then have "da_response a = None" by (auto simp: make_delivery_attempt_def initial_attempt_def Let_def split: if_splits)
    then show "keeps keeps_clean (bindA (statement c (reserve_delivery_attempt a)) (\<lambda>inserted.
        if inserted then send_loop c q (dx_max_attempts c) a else deliver_existing c q))"
      using c by (intro keeps_clean_rules clean_statement clean_reserve) (auto intro: clean_loop clean_existing)
  qed
  have fresh: "keeps keeps_clean (bindA (fresh_uuid c) (\<lambda>d. bindA (liftA (make_delivery_attempt (initial_attempt c q d))) (\<lambda>a.
      bindA (statement c (reserve_delivery_attempt a)) (\<lambda>inserted.
        if inserted then send_loop c q (dx_max_attempts c) a else deliver_existing c q))))" for q
    by (intro keeps_clean_rules clean_fresh new)
  show ?thesis
    unfolding deliver_def Let_def
    using c by (intro keeps_clean_rules clean_statement clean_loads)
      (auto intro!: keeps_clean_rules(2,3) fresh keeps_bindA [OF keeps_clean_rel(2) clean_liftA] split: option.split)
qed

lemma clean_retry:
  assumes c: "clean_env c"
  shows "keeps keeps_clean (retry_delivery c i chat confirmed)"
proof -
  have m: "keeps keeps_clean (manual_request c i chat)"
    unfolding manual_request_def using c
    by (intro keeps_clean_rules clean_statement clean_loads) (auto intro!: keeps_clean_rules clean_liftA split: option.split)
  show ?thesis
    unfolding retry_delivery_def load_for_request_def
    using c m by (intro keeps_clean_rules clean_statement clean_loads)
      (auto intro!: keeps_clean_rules clean_statement clean_resume clean_loop split: option.split)
qed

text \<open>C17: no delivery, automatic or manual, on any branch, ever stores a secret: as long as the other
  workers store none, every stored response keeps nothing but the redaction mark under a sensitive
  key, at any depth.\<close>

theorem stored_responses_are_redacted:
  assumes "deliver c report_id chat dry w = (r, w') \<or> retry_delivery c report_id chat confirmed w = (r, w')"
    and "\<forall>k db. clean_rows db \<longrightarrow> clean_rows (dx_env c k db)" and "clean_rows (dw_db w)"
    and "row \<in> set (db_deliveries (dw_db w'))" and "da_response row = Some p" and "v \<in> set (sensitive_values p)"
  shows "v = JStr ''[REDACTED]''"
proof -
  have c: "clean_env c" using assms(2) by (simp add: clean_env_def)
  have "keeps_clean w w'"
    using assms(1) keepsD [OF clean_deliver [OF c]] keepsD [OF clean_retry [OF c]] by blast
  then show ?thesis using assms(3-6) by (auto simp: keeps_clean_def clean_rows_def redacted_def list_all_iff)
qed

lemma demo_deliver_response:
  "case deliver (demo_service [demo_sent]) ''r1'' ''c'' False demo_world of (r, w') \<Rightarrow>
     map da_response (db_deliveries (dw_db w')) = [Some (JObj [(''provider'', JStr ''feishu''), (''result'', JStr ''succeeded''),
       (''response'', JObj [(''token'', JStr ''[REDACTED]'')])])]"
  by code_simp

theorem stored_responses_are_redacted_witness:
  "\<exists>p. map da_response (db_deliveries (dw_db (snd (deliver (demo_service [demo_sent]) ''r1'' ''c'' False demo_world)))) = [Some p]
     \<and> sensitive_values p \<noteq> [] \<and> list_all (\<lambda>v. v = JStr ''[REDACTED]'') (sensitive_values p)"
proof -
  let ?p = "JObj [(''provider'', JStr ''feishu''), (''result'', JStr ''succeeded''),
       (''response'', JObj [(''token'', JStr ''[REDACTED]'')])]"
  let ?c = "demo_service [demo_sent]"
  obtain r w' where run: "deliver ?c ''r1'' ''c'' False demo_world = (r, w')" by fastforce
  then have rows: "map da_response (db_deliveries (dw_db w')) = [Some ?p]" using demo_deliver_response by simp
  then obtain row where "row \<in> set (db_deliveries (dw_db w'))" "da_response row = Some ?p" by auto
  then have "\<forall>v \<in> set (sensitive_values ?p). v = JStr ''[REDACTED]''"
    using stored_responses_are_redacted [of ?c "''r1''" "''c''" False demo_world r w' False row ?p] run
    by (simp add: demo_service_def clean_rows_def demo_world_def demo_db_def)
  moreover have "sensitive_values ?p \<noteq> []" by code_simp
  ultimately show ?thesis using rows by (intro exI [of _ ?p]) (simp add: run list_all_iff)
qed

section \<open>Manual retry\<close>

text \<open>A manual retry of a worker on its own either sends nothing or runs the loop on a row it read and authorized.\<close>

definition resendable :: "'t delivery_service \<Rightarrow> bool \<Rightarrow> delivery_attempt \<Rightarrow> bool" where
  "resendable c confirmed a \<longleftrightarrow> da_status a \<in> {Failed, Retry_wait, Uncertain} \<and> (da_status a = Uncertain \<longrightarrow> confirmed)
     \<and> da_no a < dx_max_total c"

lemma manual_request_alone:
  assumes "alone c" "manual_request c report_id chat w = (x, w')"
  shows "dw_db w' = dw_db w \<and> dw_sends w' = dw_sends w"
  using assms
  by (auto simp: manual_request_def bindA_def statement_def transaction_def alone_def load_report_def Let_def
      split: prod.splits sum.splits option.splits if_splits)

lemma load_for_request_alone:
  assumes "alone c" "load_for_request c q w = (x, w')"
  shows "dw_db w' = dw_db w \<and> dw_sends w' = dw_sends w"
    "x = Inr (Some old) \<Longrightarrow> \<exists>row \<in> set (db_deliveries (dw_db w)). make_delivery_attempt row = Inr old"
  using assms
  by (auto simp: load_for_request_def statement_def transaction_def alone_def load_delivery_for_key_def read_delivery_def
      bindE_eq_Inr dest: select_one_mem split: prod.splits sum.splits option.splits)

lemma retry_delivery_shape:
  assumes al: "alone c" and run: "retry_delivery c report_id chat confirmed w = (r, w')"
  shows "dw_sends w' = dw_sends w \<or>
    (\<exists>q old w3. (\<exists>row \<in> set (db_deliveries (dw_db w)). make_delivery_attempt row = Inr old) \<and> resendable c confirmed old
       \<and> dw_sends w3 = dw_sends w \<and> send_loop c q (da_no old + 1) (resume_delivery old) w3 = (r, w'))"
proof -
  obtain x w1 where x: "manual_request c report_id chat w = (x, w1)" by fastforce
  note w1 = manual_request_alone [OF al x]
  show ?thesis
  proof (cases x)
    case (Inl e)
    then show ?thesis using run x w1 by (simp add: retry_delivery_def bindA_def)
  next
    case (Inr q)
    obtain y w2 where y: "load_for_request c q w1 = (y, w2)" by fastforce
    note w2 = load_for_request_alone [OF al y]
    show ?thesis
    proof (cases "\<exists>old. y = Inr (Some old) \<and> resendable c confirmed old")
      case False
      then have "w' = w2" using run x Inr y
        by (cases y; cases "projr y") (auto simp: retry_delivery_def bindA_def resendable_def split: option.splits if_splits)
      then show ?thesis using w1 w2(1) by simp
    next
      case True
      then obtain old where old: "y = Inr (Some old)" "resendable c confirmed old" by blast
      obtain z w3 where z: "statement c (authorize_manual_retry (da_id old) (da_no old) confirmed) w2 = (z, w3)" by fastforce
      have w3: "dw_sends w3 = dw_sends w" using statement_keeps [OF z] w1 w2(1) by simp
      have "w' = w3 \<or> send_loop c q (da_no old + 1) (resume_delivery old) w3 = (r, w')"
        using run x Inr y old z by (cases z) (auto simp: retry_delivery_def bindA_def resendable_def split: if_splits)
      then show ?thesis using w1 w2(2) [OF old(1)] w3 old(2) by auto
    qed
  qed
qed

text \<open>a manual retry sends only what an operator may resend: at most once, under the next attempt
  number of a stored row that has failed, or whose outcome is unknown and which the operator confirms
  was not delivered, and never past the total attempt limit.\<close>

theorem manual_retry_sends_one_authorized_attempt:
  assumes "dx_env c = (\<lambda>_ db. db)" and "retry_delivery c report_id chat confirmed w = (r, w')"
    and "sends_since w w' \<noteq> []"
  shows "\<exists>row \<in> set (db_deliveries (dw_db w)). \<exists>x. sends_since w w' = [(da_id row, da_no row + 1, x)]
    \<and> da_no row < dx_max_total c
    \<and> (da_status row \<in> {Failed, Retry_wait} \<or> da_status row = Uncertain \<and> confirmed)"
proof -
  have al: "alone c" using assms(1) by (simp add: alone_def)
  obtain q old w3 row where row: "row \<in> set (db_deliveries (dw_db w))" "make_delivery_attempt row = Inr old"
    and old: "resendable c confirmed old" "dw_sends w3 = dw_sends w"
    and loop: "send_loop c q (da_no old + 1) (resume_delivery old) w3 = (r, w')"
    using retry_delivery_shape [OF al assms(2)] assms(3) by (auto simp: sends_since_def)
  obtain v s where v: "dw_sends w' = dw_sends w3 @ (da_id old, da_no old + 1, v) # s"
    "attempt_chain (da_no old + 1) ((da_id old, da_no old + 1, v) # s)"
    using dl.loop_trace [OF loop] by auto
  have "s = []" using chain_bounds [OF v(2)] by simp
  then show ?thesis using v(1) old make_delivery_attempt_number [OF row(2)]
    by (intro bexI [OF _ row(1)]) (auto simp: sends_since_def resendable_def)
qed

definition demo_row :: "attempt_status \<Rightarrow> delivery_attempt" where
  "demo_row st = (initial_attempt (demo_service [])
     (delivery_request_of (demo_service []) demo_report ''c'' (JObj [(''schema'', JStr ''2.0'')])) ''d1'')\<lparr>da_status := st\<rparr>"

definition demo_retry_world :: "attempt_status \<Rightarrow> nat delivery_world" where
  "demo_retry_world st = demo_world\<lparr>dw_db := demo_db\<lparr>db_deliveries := [demo_row st]\<rparr>\<rparr>"

lemma demo_manual_retry:
  "dw_sends (snd (retry_delivery (demo_service [demo_sent]) ''r1'' ''c'' True (demo_retry_world Uncertain)))
     = [(''d1'', 2, demo_sent)]"
  by code_simp

theorem manual_retry_sends_one_authorized_attempt_witness:
  "\<exists>row \<in> set (db_deliveries (dw_db (demo_retry_world Uncertain))). da_no row < 10 \<and> da_status row = Uncertain"
proof -
  let ?c = "demo_service [demo_sent]" and ?w = "demo_retry_world Uncertain"
  obtain r w' where run: "retry_delivery ?c ''r1'' ''c'' True ?w = (r, w')" by fastforce
  have "sends_since ?w w' \<noteq> []"
    using demo_manual_retry run by (simp add: sends_since_def demo_retry_world_def demo_world_def)
  with manual_retry_sends_one_authorized_attempt [OF _ run] show ?thesis
    by (simp add: demo_service_def demo_retry_world_def demo_row_def)
qed

section \<open>Two workers resuming the same row\<close>

text \<open>
  \<open>retry_delivery_attempt\<close> does not compare the attempt number. A worker that has loaded a row may find it resumed, rejected and put
  back by another worker when it resumes it itself: it then holds the attempt under a number which the row no longer has.
\<close>

lemma stale_resume:
  assumes row: "da_rows.lookup (db_deliveries (dx_env c (dw_steps w) (dw_db w))) (da_id old) = Some row"
    and d: "da_rows.keys_distinct (db_deliveries (dx_env c (dw_steps w) (dw_db w)))" and st: "da_status row \<in> {Failed, Retry_wait}"
  obtains w' where "resume_retry c old w = (Inr (Some (resume_delivery old)), w')" "da_rows.lookup (rows w') (da_id old) = Some (resume_delivery row)"
    "da_rows.keys_distinct (rows w')" "dw_steps w' = Suc (dw_steps w)" "dw_sends w' = dw_sends w" "dw_transport w' = dw_transport w"
proof -
  let ?db = "dx_env c (dw_steps w) (dw_db w)"
  obtain ok t where u: "update_where (\<lambda>r. da_id r = da_id old \<and> da_status r \<in> {Failed, Retry_wait}) resume_delivery (db_deliveries ?db) = (ok, t)"
    by fastforce
  have "da_id (resume_delivery r) = da_id r" for r by (simp add: resume_delivery_def)
  note one = da_rows.update_one [OF this d u]
  have ok: "ok" using one(1) row st by blast
  let ?w = "w\<lparr>dw_db := ?db\<lparr>db_deliveries := t\<rparr>, dw_steps := dw_steps w + 1\<rparr>"
  have "resume_retry c old w = (Inr (Some (resume_delivery old)), ?w)"
    using u ok by (simp add: resume_retry_def bindA_def statement_def transaction_def retry_delivery_attempt_def ret_def)
  then show thesis using that [of ?w] one(2,4) ok row by (simp add: rows_def)
qed

lemma stale_success:
  assumes b: "da_rows.lookup (rows w) (da_id a) = Some b" "da_no b \<noteq> da_no a" and d: "da_rows.keys_distinct (rows w)" and no: "1 \<le> da_no a"
    and quiet: "\<forall>k db. dw_steps w \<le> k \<longrightarrow> dx_env c k db = db"
  shows "after_success c q a m w = (bindE (make_delivery_attempt b) (\<lambda>x. Inr (result_of q (Some x))), w\<lparr>dw_steps := dw_steps w + 2\<rparr>)"
proof -
  let ?w = "w\<lparr>dw_steps := dw_steps w + 1\<rparr>" and ?response = "Some (success_audit_payload m)"
  obtain ok t where u: "update_where (\<lambda>r. da_id r = da_id a \<and> (da_no r = da_no a \<and> da_status r = Pending))
      (settle_delivery Succeeded ?response (Some (fm_message m)) None) (rows w) = (ok, t)" by fastforce
  have "da_id (settle_delivery Succeeded ?response (Some (fm_message m)) None r) = da_id r" for r by (simp add: settle_delivery_def)
  note one = da_rows.update_one [OF this d u]
  have "\<not> ok" "t = rows w" using one(1,5) b by simp_all
  then have "statement c (update_delivery_attempt (da_id a) (da_no a) Succeeded ?response (Some (fm_message m)) None) w = (Inr False, ?w)"
    using u no quiet by (simp add: statement_def transaction_def update_delivery_attempt_def rows_def)
  moreover have "select_one (\<lambda>r. da_id r = da_id a) (rows w) = Some b" using b(1) by (simp add: select_one_def da_rows.lookup_def)
  ultimately show ?thesis using quiet
    by (cases "make_delivery_attempt b")
      (simp_all add: after_success_def Let_def bindA_def current_result_def statement_def transaction_def load_delivery_attempt_def
        read_delivery_def bindE_def rows_def ret_def)
qed

text \<open>C18: When a worker resumes a waiting delivery row that another worker has resumed, lost and put back since it was loaded, under
  another number, it still sends, under its own next number, and the message the chat accepts is recorded nowhere: the row is left
  pending under the next number of the other worker, without a message id, and the call answers with that pending row.\<close>

theorem concurrent_resume_loses_outcome:
  fixes c q w w1
  defines "db \<equiv> dx_env c (dw_steps w1) (dw_db w1)"
  assumes load: "load_for_request c q w = (Inr (Some old), w1)" "da_status old = Retry_wait" "da_no old < dx_max_attempts c"
    and other: "row \<in> set (db_deliveries db)" "da_id row = da_id old" "da_no row \<noteq> da_no old" "da_status row \<in> {Failed, Retry_wait}"
    and keys: "distinct (map da_id (db_deliveries db))" and quiet: "\<forall>k d. dw_steps w1 < k \<longrightarrow> dx_env c k d = d"
    and accepted: "dx_send c (rq_chat q) (rq_card q) (rq_uuid q) (dw_transport w1) = (Inr m, t)"
    and run: "deliver_existing c q w = (r, w')"
  shows "sends_since w w' = [(da_id old, da_no old + 1, Inr m)]
    \<and> filter (\<lambda>x. da_id x = da_id old) (db_deliveries (dw_db w')) = [resume_delivery row]
    \<and> r = bindE (make_delivery_attempt (resume_delivery row)) (\<lambda>x. Inr (result_of q (Some x)))"
proof -
  have d: "da_rows.keys_distinct (db_deliveries db)" using keys by (simp add: da_rows.keys_distinct_def)
  have row: "da_rows.lookup (db_deliveries db) (da_id old) = Some row" using da_rows.lookup_mem [OF d other(1)] other(2) by simp
  obtain w2 where w2: "resume_retry c old w1 = (Inr (Some (resume_delivery old)), w2)"
    "da_rows.lookup (rows w2) (da_id old) = Some (resume_delivery row)" "da_rows.keys_distinct (rows w2)"
    "dw_steps w2 = Suc (dw_steps w1)" "dw_sends w2 = dw_sends w1" "dw_transport w2 = dw_transport w1"
    using stale_resume [of c w1 old row, folded db_def, OF row d other(4)] by blast
  define a where "a = resume_delivery old"
  define w3 where "w3 = w2\<lparr>dw_transport := t, dw_sends := dw_sends w2 @ [(da_id a, da_no a, Inr m)]\<rparr>"
  have a: "da_id a = da_id old" "da_no a = da_no old + 1" "1 \<le> da_no a" "da_no (resume_delivery row) \<noteq> da_no a"
    using load_for_request_number [OF load(1)] other(3) by (simp_all add: a_def resume_delivery_def)
  have send: "send_attempt c q a w2 = (Inr m, w3)" using accepted w2(6) by (simp add: send_attempt_def w3_def)
  define x where "x = bindE (make_delivery_attempt (resume_delivery row)) (\<lambda>x. Inr (result_of q (Some x)))"
  have success: "after_success c q a m w3 = (x, w3\<lparr>dw_steps := dw_steps w3 + 2\<rparr>)"
    unfolding x_def by (rule stale_success) (use w2 a quiet in \<open>auto simp: w3_def rows_def\<close>)
  have "send_loop c q (dx_max_attempts c) a w2 = (x, w3\<lparr>dw_steps := dw_steps w3 + 2\<rparr>)"
    using success by (cases x) (simp_all add: send_loop.simps [of _ _ _ a] send_step_def send finish_def bindA_def ret_def)
  then have "r = x" "w' = w3\<lparr>dw_steps := dw_steps w3 + 2\<rparr>"
    using run load w2(1) by (simp_all add: deliver_existing_def bindA_def a_def)
  moreover have "dw_sends w1 = dw_sends w" using load(1) by (simp add: load_for_request_def statement_keeps)
  moreover have "filter (\<lambda>x. da_id x = da_id old) (rows w2) = [resume_delivery row]"
    using w2(3) da_rows.lookup_Some [OF w2(2)] by (intro filter_unique) (simp_all add: da_rows.keys_distinct_def)
  ultimately show ?thesis using w2(5) a(1,2) by (simp add: x_def w3_def sends_since_def rows_def)
qed

definition other_worker :: "nat \<Rightarrow> nat \<Rightarrow> report_db \<Rightarrow> report_db" where
  "other_worker j k db = (if k = j
     then snd (delivery_act (Update ''d1'' 2 Retry_wait None None None) (snd (delivery_act (Retry ''d1'') db))) else db)"

text \<open>A whole delivery, whose fourth statement is the resumption, and a manual retry afterwards, which is refused.\<close>

lemma demo_concurrent_resume:
  "case deliver (demo_service [demo_sent] \<lparr>dx_env := other_worker 3\<rparr>) ''r1'' ''c'' False (demo_retry_world Retry_wait) of
     (r, w') \<Rightarrow> dw_sends w' = [(''d1'', 2, demo_sent)]
       \<and> map (\<lambda>a. (da_id a, da_no a, da_status a, da_message a)) (db_deliveries (dw_db w')) = [(''d1'', 3, Pending, None)]
       \<and> fst (retry_delivery (demo_service [demo_sent]) ''r1'' ''c'' True w')
           = Inl (ManualDeliveryRetryError ''DELIVERY_ATTEMPT_IN_PROGRESS'')"
  by code_simp

lemma demo_stale_row:
  "fst (load_for_request (demo_service [demo_sent] \<lparr>dx_env := other_worker 1\<rparr>)
     (delivery_request_of (demo_service []) demo_report ''c'' (JObj [(''schema'', JStr ''2.0'')])) (demo_retry_world Retry_wait))
     = Inr (Some (demo_row Retry_wait))"
  "db_deliveries (other_worker 1 1 (demo_db\<lparr>db_deliveries := [demo_row Retry_wait]\<rparr>)) = [(demo_row Retry_wait)\<lparr>da_no := 2\<rparr>]"
  by code_simp+

theorem concurrent_resume_loses_outcome_witness:
  "\<exists>q r w'. deliver_existing (demo_service [demo_sent] \<lparr>dx_env := other_worker 1\<rparr>) q (demo_retry_world Retry_wait) = (r, w')
     \<and> dw_sends w' = [(''d1'', 2, demo_sent)]
     \<and> map (\<lambda>a. (da_no a, da_status a, da_message a)) (filter (\<lambda>x. da_id x = ''d1'') (db_deliveries (dw_db w'))) = [(3, Pending, None)]"
proof -
  let ?c = "demo_service [demo_sent] \<lparr>dx_env := other_worker 1\<rparr>" and ?old = "demo_row Retry_wait" and ?w = "demo_retry_world Retry_wait"
  let ?q = "delivery_request_of (demo_service []) demo_report ''c'' (JObj [(''schema'', JStr ''2.0'')])"
  let ?w1 = "?w\<lparr>dw_steps := 1\<rparr>" and ?row = "?old\<lparr>da_no := 2\<rparr>"
  obtain r w' where run: "deliver_existing ?c ?q ?w = (r, w')" by fastforce
  have load: "load_for_request ?c ?q ?w = (Inr (Some ?old), ?w1)"
    using demo_stale_row(1)
    by (simp add: load_for_request_def statement_def transaction_def load_delivery_for_key_def other_worker_def demo_retry_world_def
        demo_world_def split: sum.splits prod.splits)
  have env: "db_deliveries (dx_env ?c (dw_steps ?w1) (dw_db ?w1)) = [?row]"
    using demo_stale_row(2) by (simp add: demo_retry_world_def)
  have old: "da_status ?old = Retry_wait" "da_no ?old = 1" "da_id ?old = ''d1''" by (simp_all add: demo_row_def initial_attempt_def)
  obtain m where m: "demo_sent = Inr m" by (simp add: demo_sent_def)
  have sent: "dx_send ?c (rq_chat ?q) (rq_card ?q) (rq_uuid ?q) (dw_transport ?w1) = (Inr m, 1)"
    by (simp add: demo_service_def demo_retry_world_def demo_world_def m)
  have quiet: "\<forall>k d. dw_steps ?w1 < k \<longrightarrow> dx_env ?c k d = d" by (simp add: other_worker_def)
  have "sends_since ?w w' = [(''d1'', 2, Inr m)] \<and> filter (\<lambda>x. da_id x = ''d1'') (db_deliveries (dw_db w')) = [resume_delivery ?row]"
    using concurrent_resume_loses_outcome [OF load old(1) _ _ _ _ _ _ quiet sent run, of ?row] env old by (simp add: demo_service_def)
  then show ?thesis using run m
    by (intro exI [of _ ?q]) (simp add: sends_since_def demo_retry_world_def demo_world_def resume_delivery_def)
qed

section \<open>The configured delivery\<close>

text \<open>
  \<open>ConfiguredFeishuDelivery\<close>: the settings it reads, the service it builds on a Feishu transport, and
  its three calls, all on the configured chat.
\<close>

record feishu_settings =
  se_enabled :: bool
  se_app_id :: "string option"
  se_app_secret :: "string option"
  se_chat_id :: "string option"
  se_base_url :: string
  se_timeout :: int
  se_max_attempts :: int
  se_max_total :: int

record configured_delivery =
  cd_chat :: string
  cd_service :: "feishu_state delivery_service"

definition feishu_service :: "http \<Rightarrow> (nat \<Rightarrow> instant) \<Rightarrow> (string \<Rightarrow> string) \<Rightarrow> (json \<Rightarrow> bool) \<Rightarrow> (nat \<Rightarrow> uuid)
    \<Rightarrow> (stored_report \<Rightarrow> exn + json) \<Rightarrow> (nat \<Rightarrow> report_db \<Rightarrow> report_db) \<Rightarrow> feishu_config \<Rightarrow> int \<Rightarrow> int
    \<Rightarrow> feishu_state delivery_service" where
  "feishu_service http clock sha aware fresh render env cfg max_attempts max_total =
     \<lparr>dx_send = send_card cfg http clock, dx_render = render, dx_max_attempts = max_attempts, dx_max_total = max_total,
      dx_retry_delay = second_us div 4, dx_sha = sha, dx_aware = aware, dx_fresh = fresh, dx_env = env\<rparr>"

definition configure_delivery :: "http \<Rightarrow> (nat \<Rightarrow> instant) \<Rightarrow> (string \<Rightarrow> string) \<Rightarrow> (json \<Rightarrow> bool) \<Rightarrow> (nat \<Rightarrow> uuid)
    \<Rightarrow> (stored_report \<Rightarrow> exn + json) \<Rightarrow> (nat \<Rightarrow> report_db \<Rightarrow> report_db) \<Rightarrow> feishu_settings \<Rightarrow> exn + configured_delivery" where
  "configure_delivery http clock sha aware fresh render env s =
     (if \<not> se_enabled s then Inl ValueError
      else case (se_app_id s, se_app_secret s, se_chat_id s) of
        (Some app, Some secret, Some chat) \<Rightarrow>
          bindE (make_transport app secret (se_base_url s) (se_timeout s)) (\<lambda>cfg.
            bindE (make_service (feishu_service http clock sha aware fresh render env cfg (se_max_attempts s) (se_max_total s)))
              (\<lambda>c. Inr \<lparr>cd_chat = chat, cd_service = c\<rparr>))
      | _ \<Rightarrow> Inl ValueError)"

definition configured_deliver :: "configured_delivery \<Rightarrow> string \<Rightarrow> bool \<Rightarrow> (feishu_state delivery_world, delivery_result) act" where
  "configured_deliver d report_id dry = deliver (cd_service d) report_id (cd_chat d) dry"

definition configured_retry :: "configured_delivery \<Rightarrow> string \<Rightarrow> bool \<Rightarrow> (feishu_state delivery_world, delivery_result) act" where
  "configured_retry d report_id confirmed = retry_delivery (cd_service d) report_id (cd_chat d) confirmed"

definition configured_inspect :: "configured_delivery \<Rightarrow> string \<Rightarrow> (feishu_state delivery_world, delivery_result) act" where
  "configured_inspect d report_id = inspect_delivery (cd_service d) report_id (cd_chat d)"

end
