(* ===== verification/Delivery_Recovery.thy ===== *)
theory Delivery_Recovery
  imports Report_Delivery
begin

text \<open>
  \<open>services/delivery_recovery.py\<close>: the manual recovery of a delivery, idempotent by request id and
  audited. The delivery is a port with the two calls that \<open>ConfiguredFeishuDelivery\<close> offers, on a state of
  its own; the audit table is the list of its rows. Between two audit statements other requests may
  change the table (\<open>rx_env k\<close> before audit statement \<open>k\<close>). The world logs the request ids for which
  the delivery was retried.
\<close>

section \<open>Audit records\<close>

datatype action_status = Action_pending | Action_succeeded | Action_rejected | Action_failed

record operator_action =
  oa_id :: uuid
  oa_request :: uuid
  oa_report :: string
  oa_delivery :: "uuid option"
  oa_confirmed :: bool
  oa_prior_status :: string
  oa_prior_no :: "int option"
  oa_status :: action_status
  oa_result_status :: "string option"
  oa_error :: "string option"

record recovery_result =
  rr_action :: uuid
  rr_request :: uuid
  rr_report :: string
  rr_delivery :: "uuid option"
  rr_status :: action_status
  rr_delivery_status :: "string option"
  rr_error :: "string option"
  rr_replayed :: bool

record 'd recovery_service =
  rx_inspect :: "string \<Rightarrow> ('d, delivery_result) act"
  rx_retry :: "string \<Rightarrow> bool \<Rightarrow> ('d, delivery_result) act"
  rx_fresh :: "nat \<Rightarrow> uuid"
  rx_env :: "nat \<Rightarrow> operator_action list \<Rightarrow> operator_action list"

record 'd recovery_world =
  rw_delivery :: 'd
  rw_actions :: "operator_action list"
  rw_steps :: nat
  rw_uuids :: nat
  rw_retries :: "uuid list"

section \<open>The audit store\<close>

definition reserve_action :: "operator_action \<Rightarrow> (operator_action list, bool) act" where
  "reserve_action a t = insert_on_conflict (\<lambda>x y. oa_request y = oa_request x) (\<lambda>x y. oa_id y = oa_id x) a t"

definition load_action :: "uuid \<Rightarrow> (operator_action list, operator_action option) act" where
  "load_action request t = (Inr (select_one (\<lambda>a. oa_request a = request) t), t)"

definition settle_action :: "action_status \<Rightarrow> uuid option \<Rightarrow> string option \<Rightarrow> string option \<Rightarrow> operator_action \<Rightarrow> operator_action" where
  "settle_action st delivery result err a =
     a\<lparr>oa_status := st, oa_delivery := delivery, oa_result_status := result, oa_error := err\<rparr>"

definition complete_action :: "uuid \<Rightarrow> action_status \<Rightarrow> uuid option \<Rightarrow> string option \<Rightarrow> string option
    \<Rightarrow> (operator_action list, operator_action) act" where
  "complete_action i st delivery result err t =
     (let t' = snd (update_where (\<lambda>a. oa_id a = i \<and> oa_status a = Action_pending) (settle_action st delivery result err) t) in
      case select_one (\<lambda>a. oa_id a = i) t' of None \<Rightarrow> (Inl RuntimeError, t') | Some a \<Rightarrow> (Inr a, t'))"

definition audit :: "'d recovery_service \<Rightarrow> (operator_action list, 'a) act \<Rightarrow> ('d recovery_world, 'a) act" where
  "audit c m w = (case transaction m (rx_env c (rw_steps w) (rw_actions w)) of
     (r, t) \<Rightarrow> (r, w\<lparr>rw_actions := t, rw_steps := rw_steps w + 1\<rparr>))"

definition on_delivery :: "('d, 'a) act \<Rightarrow> ('d recovery_world, 'a) act" where
  "on_delivery m w = (case m (rw_delivery w) of (r, d) \<Rightarrow> (r, w\<lparr>rw_delivery := d\<rparr>))"

definition note_retry :: "uuid \<Rightarrow> ('d recovery_world, unit) act" where
  "note_retry request w = (Inr (), w\<lparr>rw_retries := rw_retries w @ [request]\<rparr>)"

definition new_action_id :: "'d recovery_service \<Rightarrow> ('d recovery_world, uuid) act" where
  "new_action_id c w = (Inr (rx_fresh c (rw_uuids w)), w\<lparr>rw_uuids := rw_uuids w + 1\<rparr>)"

section \<open>The service\<close>

definition recovery_result_of :: "bool \<Rightarrow> operator_action \<Rightarrow> recovery_result" where
  "recovery_result_of replayed a = \<lparr>rr_action = oa_id a, rr_request = oa_request a, rr_report = oa_report a,
     rr_delivery = oa_delivery a, rr_status = oa_status a, rr_delivery_status = oa_result_status a,
     rr_error = oa_error a, rr_replayed = replayed\<rparr>"

definition assert_same_request :: "operator_action \<Rightarrow> string \<Rightarrow> bool \<Rightarrow> exn + unit" where
  "assert_same_request a report_id confirmed =
     (if oa_report a \<noteq> report_id \<or> oa_confirmed a \<noteq> confirmed
      then Inl (DeliveryRecoveryError ''DELIVERY_RECOVERY_REQUEST_CONFLICT'') else Inr ())"

definition make_action :: "operator_action \<Rightarrow> exn + operator_action" where
  "make_action a = (let b = a\<lparr>oa_report := strip (oa_report a)\<rparr> in
     if len_ok 128 (oa_report b) \<and> len_ok 24 (oa_prior_status b) then Inr b else Inl ValidationError)"

fun is_manual :: "exn \<Rightarrow> bool" where
  "is_manual (ManualDeliveryRetryError _) = True"
| "is_manual _ = False"

fun error_code_of :: "exn \<Rightarrow> string" where
  "error_code_of (ManualDeliveryRetryError code) = code"
| "error_code_of e = take 64 (exn_name e)"

definition nonempty_or :: "string option \<Rightarrow> string \<Rightarrow> string" where
  "nonempty_or s fallback = (case s of Some t \<Rightarrow> if t = [] then fallback else t | None \<Rightarrow> fallback)"

definition reconcile_pending :: "'d recovery_service \<Rightarrow> operator_action \<Rightarrow> ('d recovery_world, operator_action) act" where
  "reconcile_pending c a = (case oa_prior_no a of
     None \<Rightarrow> ret a
   | Some prior \<Rightarrow>
       if oa_status a \<noteq> Action_pending then ret a
       else tryA (on_delivery (rx_inspect c (oa_report a)))
         (\<lambda>e. if is_manual e then ret a else throw e)
         (\<lambda>inspection. case rd_attempt inspection of
            None \<Rightarrow> ret a
          | Some d \<Rightarrow>
              if da_no d \<le> prior then ret a
              else if da_status d = Pending then ret a
              else let ok = (da_status d = Succeeded) in
                audit c (complete_action (oa_id a) (if ok then Action_succeeded else Action_failed) (Some (da_id d))
                  (Some (attempt_status_text (da_status d)))
                  (if ok then None else Some (nonempty_or (da_error d) ''DELIVERY_RECOVERY_FAILED'')))))"

definition replay :: "'d recovery_service \<Rightarrow> operator_action \<Rightarrow> string \<Rightarrow> bool \<Rightarrow> ('d recovery_world, recovery_result) act" where
  "replay c a report_id confirmed = bindA (liftA (assert_same_request a report_id confirmed)) (\<lambda>_.
     bindA (reconcile_pending c a) (\<lambda>b. ret (recovery_result_of True b)))"

definition new_action :: "uuid \<Rightarrow> uuid \<Rightarrow> string \<Rightarrow> bool \<Rightarrow> delivery_attempt option \<Rightarrow> operator_action" where
  "new_action i request report_id confirmed attempt = \<lparr>oa_id = i, oa_request = request, oa_report = report_id,
     oa_delivery = map_option da_id attempt, oa_confirmed = confirmed,
     oa_prior_status = (case attempt of Some a \<Rightarrow> attempt_status_text (da_status a) | None \<Rightarrow> ''missing''),
     oa_prior_no = map_option da_no attempt, oa_status = Action_pending, oa_result_status = None, oa_error = None\<rparr>"

definition finish_action :: "'d recovery_service \<Rightarrow> uuid \<Rightarrow> action_status \<Rightarrow> uuid option \<Rightarrow> string option \<Rightarrow> string option
    \<Rightarrow> ('d recovery_world, recovery_result) act" where
  "finish_action c i st delivery result err =
     bindA (audit c (complete_action i st delivery result err)) (\<lambda>a. ret (recovery_result_of False a))"

definition retry_and_settle :: "'d recovery_service \<Rightarrow> operator_action \<Rightarrow> delivery_attempt \<Rightarrow> string \<Rightarrow> bool
    \<Rightarrow> ('d recovery_world, recovery_result) act" where
  "retry_and_settle c a attempt report_id confirmed =
     tryA (on_delivery (rx_retry c report_id confirmed))
       (\<lambda>e. if is_manual e
         then finish_action c (oa_id a) Action_rejected (Some (da_id attempt)) (Some (attempt_status_text (da_status attempt)))
                (Some (error_code_of e))
         else finish_action c (oa_id a) Action_failed (Some (da_id attempt)) None (Some (error_code_of e)))
       (\<lambda>delivery. let st = (if delivery_result_status delivery = [] then None else Some (delivery_result_status delivery));
            ok = (st = Some ''succeeded'') in
          finish_action c (oa_id a) (if ok then Action_succeeded else Action_failed)
            (case rd_attempt delivery of Some d \<Rightarrow> Some (da_id d) | None \<Rightarrow> Some (da_id attempt)) st
            (if ok then None else case rd_attempt delivery of Some d \<Rightarrow> da_error d
              | None \<Rightarrow> Some ''DELIVERY_RECOVERY_FAILED''))"

definition perform_retry :: "'d recovery_service \<Rightarrow> operator_action \<Rightarrow> delivery_attempt \<Rightarrow> string \<Rightarrow> bool
    \<Rightarrow> ('d recovery_world, recovery_result) act" where
  "perform_retry c a attempt report_id confirmed = bindA (note_retry (oa_request a)) (\<lambda>_.
     retry_and_settle c a attempt report_id confirmed)"

text \<open>The insertion of the record decides which of two concurrent calls with one request id retries.\<close>

definition recover_reserved :: "'d recovery_service \<Rightarrow> operator_action \<Rightarrow> delivery_attempt option \<Rightarrow> string \<Rightarrow> bool
    \<Rightarrow> ('d recovery_world, recovery_result) act" where
  "recover_reserved c a found report_id confirmed = bindA (audit c (reserve_action a)) (\<lambda>inserted.
     if \<not> inserted
     then bindA (audit c (load_action (oa_request a))) (\<lambda>again. case again of
         None \<Rightarrow> throw RuntimeError
       | Some b \<Rightarrow> replay c b report_id confirmed)
     else case found of
         None \<Rightarrow> finish_action c (oa_id a) Action_rejected None None (Some ''DELIVERY_ATTEMPT_NOT_FOUND'')
       | Some attempt \<Rightarrow> perform_retry c a attempt report_id confirmed)"

definition recover_new :: "'d recovery_service \<Rightarrow> uuid \<Rightarrow> string \<Rightarrow> bool \<Rightarrow> ('d recovery_world, recovery_result) act" where
  "recover_new c request report_id confirmed = tryA (on_delivery (rx_inspect c report_id))
     (\<lambda>e. throw (if is_manual e then DeliveryRecoveryError (error_code_of e) else e))
     (\<lambda>inspection. bindA (new_action_id c) (\<lambda>i.
       bindA (liftA (make_action (new_action i request report_id confirmed (rd_attempt inspection)))) (\<lambda>a.
         recover_reserved c a (rd_attempt inspection) report_id confirmed)))"

definition recover :: "'d recovery_service \<Rightarrow> uuid \<Rightarrow> string \<Rightarrow> bool \<Rightarrow> ('d recovery_world, recovery_result) act" where
  "recover c request report_id confirmed = bindA (audit c (load_action request)) (\<lambda>existing. case existing of
       Some a \<Rightarrow> replay c a report_id confirmed
     | None \<Rightarrow> recover_new c request report_id confirmed)"

section \<open>What a recovery call may change\<close>

text \<open>Any number of recovery calls, one after the other.\<close>

fun recover_all :: "'d recovery_service \<Rightarrow> (uuid \<times> string \<times> bool) list \<Rightarrow> 'd recovery_world \<Rightarrow> 'd recovery_world" where
  "recover_all c [] w = w"
| "recover_all c ((request, report_id, confirmed) # xs) w = recover_all c xs (snd (recover c request report_id confirmed w))"

definition keeps_requests :: "'d recovery_service \<Rightarrow> bool" where
  "keeps_requests c \<longleftrightarrow> (\<forall>k t. oa_request ` set t \<subseteq> oa_request ` set (rx_env c k t))"

definition requests :: "'d recovery_world \<Rightarrow> uuid set" where
  "requests w = oa_request ` set (rw_actions w)"

text \<open>Requests are never forgotten, and a retry is logged only for a request of this call that was new.\<close>

definition grows :: "'d recovery_world \<Rightarrow> 'd recovery_world \<Rightarrow> bool" where
  "grows w w' \<longleftrightarrow> requests w \<subseteq> requests w' \<and> rw_retries w' = rw_retries w"

lemma grows_rel [simp]: "reflp grows" "transp grows"
  by (auto simp: grows_def reflp_def transp_def)

lemmas grows_rules = keeps_bindA [OF grows_rel(2)] keeps_tryA [OF grows_rel(2)] keeps_ret [OF grows_rel(1)] keeps_throw [OF grows_rel(1)]

lemma reserve_requests: "oa_request ` set t \<subseteq> oa_request ` set (snd (reserve_action a t))"
  by (auto simp: reserve_action_def insert_on_conflict_def)

lemma complete_requests: "oa_request ` set t \<subseteq> oa_request ` set (snd (complete_action i st d p e t))"
proof -
  have "map oa_request (snd (update_where q (settle_action st d p e) t)) = map oa_request t" for q
    by (simp add: update_where_def settle_action_def)
  then have "oa_request ` set (snd (update_where q (settle_action st d p e) t)) = oa_request ` set t" for q
    by (metis list.set_map)
  then show ?thesis by (auto simp: complete_action_def Let_def split: option.split)
qed

lemma audit_grows:
  fixes c :: "'d recovery_service"
  assumes "keeps_requests c" "\<And>t. oa_request ` set t \<subseteq> oa_request ` set (snd (m t))"
  shows "keeps grows (audit c m)"
  unfolding keeps_def
proof
  fix w :: "'d recovery_world"
  let ?t = "rx_env c (rw_steps w) (rw_actions w)"
  have "requests w \<subseteq> oa_request ` set ?t" using assms(1) by (simp add: keeps_requests_def requests_def)
  moreover have "oa_request ` set ?t \<subseteq> oa_request ` set (snd (transaction m ?t))"
    using assms(2) [of ?t] by (auto simp: transaction_def split: prod.splits sum.splits)
  ultimately have "requests w \<subseteq> oa_request ` set (snd (transaction m ?t))" by (rule order_trans)
  then show "grows w (snd (audit c m w))"
    by (simp add: audit_def grows_def requests_def case_prod_beta)
qed

lemma load_grows: "keeps_requests c \<Longrightarrow> keeps grows (audit c (load_action request))"
  by (rule audit_grows) (auto simp: load_action_def)

lemma small_grows:
  "keeps grows (on_delivery m)" "keeps grows (new_action_id c)" "keeps grows (liftA r)"
  by (auto simp: keeps_def on_delivery_def grows_def requests_def new_action_id_def split: prod.splits)

lemma reconcile_grows: "keeps_requests c \<Longrightarrow> keeps grows (reconcile_pending c a)"
  unfolding reconcile_pending_def Let_def
  by (auto intro!: grows_rules small_grows audit_grows complete_requests split: option.split)

lemma replay_grows: "keeps_requests c \<Longrightarrow> keeps grows (replay c a report_id confirmed)"
  unfolding replay_def by (intro grows_rules small_grows reconcile_grows)

lemma finish_grows: "keeps_requests c \<Longrightarrow> keeps grows (finish_action c i st d p e)"
  unfolding finish_action_def by (intro grows_rules audit_grows complete_requests)

lemma perform_retries:
  assumes "keeps_requests c" "perform_retry c a attempt report_id confirmed w = (r, w')"
  shows "requests w \<subseteq> requests w' \<and> rw_retries w' = rw_retries w @ [oa_request a]"
proof -
  let ?w = "w\<lparr>rw_retries := rw_retries w @ [oa_request a]\<rparr>"
  have "keeps grows (retry_and_settle c a attempt report_id confirmed)"
    unfolding retry_and_settle_def Let_def using assms(1) by (auto intro!: grows_rules small_grows finish_grows)
  moreover have "retry_and_settle c a attempt report_id confirmed ?w = (r, w')"
    using assms(2) by (simp add: perform_retry_def bindA_def note_retry_def)
  ultimately have "grows ?w w'" by (rule keepsD)
  then show ?thesis by (simp add: grows_def requests_def)
qed

lemma reserve_new:
  assumes "audit c (reserve_action a) w = (Inr True, w')" "keeps_requests c"
  shows "oa_request a \<notin> requests w \<and> oa_request a \<in> requests w'"
proof -
  let ?t = "rx_env c (rw_steps w) (rw_actions w)"
  have "oa_request a \<notin> oa_request ` set ?t \<and> rw_actions w' = ?t @ [a]"
    using assms(1) by (auto simp: audit_def transaction_def reserve_action_def insert_on_conflict_def
        split: prod.splits sum.splits if_splits)
  moreover have "requests w \<subseteq> oa_request ` set ?t" using assms(2) by (simp add: keeps_requests_def requests_def)
  ultimately show ?thesis by (auto simp: requests_def)
qed

definition one_retry :: "uuid \<Rightarrow> 'd recovery_world \<Rightarrow> 'd recovery_world \<Rightarrow> bool" where
  "one_retry request w w' \<longleftrightarrow> requests w \<subseteq> requests w' \<and> (rw_retries w' = rw_retries w
    \<or> rw_retries w' = rw_retries w @ [request] \<and> request \<notin> requests w \<and> request \<in> requests w')"

lemma grows_one_retry: "grows w w' \<Longrightarrow> one_retry request w w'"
  by (simp add: grows_def one_retry_def)

lemma grows_then_one_retry: "grows w w1 \<Longrightarrow> one_retry request w1 w' \<Longrightarrow> one_retry request w w'"
  by (auto simp: grows_def one_retry_def)

lemma reserved_retries:
  assumes k: "keeps_requests c" and run: "recover_reserved c a found report_id confirmed w = (r, w')"
  shows "one_retry (oa_request a) w w'"
proof -
  obtain z w1 where z: "audit c (reserve_action a) w = (z, w1)" by fastforce
  have g: "grows w w1" using audit_grows [OF k reserve_requests] z by (rule keepsD)
  show ?thesis
  proof (cases "z = Inr True \<and> found \<noteq> None")
    case True
    then obtain attempt where "perform_retry c a attempt report_id confirmed w1 = (r, w')"
      using run z by (auto simp: recover_reserved_def bindA_def)
    with perform_retries [OF k this] reserve_new [of c a w w1] z True k g show ?thesis
      by (auto simp: one_retry_def grows_def)
  next
    case False
    have "keeps grows (bindA (audit c (load_action (oa_request a))) (\<lambda>again. case again of
         None \<Rightarrow> throw RuntimeError | Some b \<Rightarrow> replay c b report_id confirmed))"
      by (auto intro!: grows_rules load_grows k replay_grows split: option.split)
    note again = keepsD [OF this]
    have "w' = w1 \<or> grows w1 w'"
      using run z False again keepsD [OF finish_grows [OF k]]
      by (cases z; cases found) (auto simp: recover_reserved_def bindA_def [of "audit c (reserve_action a)"] split: if_splits)
    then show ?thesis using g grows_one_retry grows_then_one_retry by blast
  qed
qed

lemma recover_retries:
  assumes k: "keeps_requests c" and run: "recover c request report_id confirmed w = (r, w')"
  shows "one_retry request w w'"
proof -
  have new: "one_retry request w1 w'" if n: "recover_new c request report_id confirmed w1 = (r, w')" for w1
  proof -
    obtain y w2 where y: "on_delivery (rx_inspect c report_id) w1 = (y, w2)" by fastforce
    have g2: "grows w1 w2" using small_grows(1) y by (rule keepsD)
    define w3 where "w3 = w2\<lparr>rw_uuids := rw_uuids w2 + 1\<rparr>"
    have g3: "grows w1 w3" using g2 by (simp add: w3_def grows_def requests_def)
    have "w' = w2 \<or> w' = w3 \<or> (\<exists>a found. oa_request a = request \<and> recover_reserved c a found report_id confirmed w3 = (r, w'))"
      using n y
      by (cases y) (auto simp: recover_new_def tryA_def bindA_def new_action_id_def w3_def make_action_def new_action_def Let_def
          split: sum.splits if_splits)
    then show ?thesis using g2 g3 reserved_retries [OF k] grows_one_retry grows_then_one_retry by metis
  qed
  obtain x w1 where x: "audit c (load_action request) w = (x, w1)" by fastforce
  have g1: "grows w w1" using load_grows [OF k] x by (rule keepsD)
  have "w' = w1 \<or> (\<exists>a. replay c a report_id confirmed w1 = (r, w')) \<or> recover_new c request report_id confirmed w1 = (r, w')"
    using run x by (cases x) (auto simp: recover_def bindA_def split: option.splits)
  then show ?thesis
    using g1 new keepsD [OF replay_grows [OF k]] grows_one_retry grows_then_one_retry by metis
qed

text \<open>however many recovery calls are made, with whatever parameters and whatever other requests are
  recorded meanwhile, no request id makes the delivery be retried twice.\<close>

theorem recovery_retries_once_per_request:
  assumes "\<forall>k t. oa_request ` set t \<subseteq> oa_request ` set (rx_env c k t)"
    and "distinct (rw_retries w)" and "set (rw_retries w) \<subseteq> oa_request ` set (rw_actions w)"
  shows "distinct (rw_retries (recover_all c calls w))"
  using assms
proof (induction c calls w rule: recover_all.induct)
  case (2 c request report_id confirmed xs w)
  obtain r w' where run: "recover c request report_id confirmed w = (r, w')" by fastforce
  have "one_retry request w w'" using recover_retries [OF _ run] 2(2) by (simp add: keeps_requests_def)
  then have "distinct (rw_retries w') \<and> set (rw_retries w') \<subseteq> requests w'"
    using 2(3,4) [folded requests_def] unfolding one_retry_def by auto
  then show ?case using 2(1,2) run by (simp add: requests_def)
qed simp

section \<open>A concrete recovery\<close>

definition demo_inspection :: "attempt_status \<Rightarrow> int \<Rightarrow> delivery_result" where
  "demo_inspection st n = \<lparr>rd_report = ''r1'', rd_version = ''v1'', rd_target = ''feishu:c'', rd_key = ''k1'', rd_card = JNull,
     rd_dry = False, rd_attempt = Some ((demo_attempt st)\<lparr>da_no := n\<rparr>)\<rparr>"

text \<open>The delivery as a counter of its retries: uncertain before the first, succeeded after it.\<close>

definition demo_recovery :: "nat recovery_service" where
  "demo_recovery = \<lparr>rx_inspect = (\<lambda>r n. (Inr (demo_inspection (if n = 0 then Uncertain else Succeeded) (int n + 1)), n)),
     rx_retry = (\<lambda>r u n. (Inr (demo_inspection Succeeded (int n + 2)), n + 1)), rx_fresh = (\<lambda>n. int_str (int n)),
     rx_env = (\<lambda>_ t. t)\<rparr>"

definition demo_recovery_world :: "nat recovery_world" where
  "demo_recovery_world = \<lparr>rw_delivery = 0, rw_actions = [], rw_steps = 0, rw_uuids = 0, rw_retries = []\<rparr>"

lemma demo_recover_all:
  "rw_retries (recover_all demo_recovery [(''q1'', ''r1'', True), (''q1'', ''r1'', True), (''q1'', ''r1'', False)] demo_recovery_world) = [''q1'']"
  by code_simp

theorem recovery_retries_once_per_request_witness:
  "distinct (rw_retries (recover_all demo_recovery [(''q1'', ''r1'', True), (''q1'', ''r1'', True), (''q1'', ''r1'', False)] demo_recovery_world))"
  by (rule recovery_retries_once_per_request) (simp_all add: demo_recovery_def demo_recovery_world_def)

section \<open>Settled records\<close>

definition keeps_settled :: "'d recovery_world \<Rightarrow> 'd recovery_world \<Rightarrow> bool" where
  "keeps_settled w w' \<longleftrightarrow> (\<forall>a \<in> set (rw_actions w). oa_status a \<noteq> Action_pending \<longrightarrow> a \<in> set (rw_actions w'))"

lemma keeps_settled_rel [simp]: "reflp keeps_settled" "transp keeps_settled"
  by (auto simp: keeps_settled_def reflp_def transp_def)

lemmas settled_rules = keeps_bindA [OF keeps_settled_rel(2)] keeps_tryA [OF keeps_settled_rel(2)]
  keeps_ret [OF keeps_settled_rel(1)] keeps_throw [OF keeps_settled_rel(1)]

definition env_keeps_settled :: "'d recovery_service \<Rightarrow> bool" where
  "env_keeps_settled c \<longleftrightarrow> (\<forall>k t. \<forall>a \<in> set t. oa_status a \<noteq> Action_pending \<longrightarrow> a \<in> set (rx_env c k t))"

lemma complete_settled: "a \<in> set t \<Longrightarrow> oa_status a \<noteq> Action_pending \<Longrightarrow> a \<in> set (snd (complete_action i st d p e t))"
  by (force simp: complete_action_def update_where_def Let_def split: option.split)

lemma audit_settled:
  fixes c :: "'d recovery_service"
  assumes "env_keeps_settled c" "\<And>a t. a \<in> set t \<Longrightarrow> oa_status a \<noteq> Action_pending \<Longrightarrow> a \<in> set (snd (m t))"
  shows "keeps keeps_settled (audit c m)"
  unfolding keeps_def keeps_settled_def
proof (intro allI ballI impI)
  fix w :: "'d recovery_world" and a
  let ?t = "rx_env c (rw_steps w) (rw_actions w)"
  assume a: "a \<in> set (rw_actions w)" "oa_status a \<noteq> Action_pending"
  then have "a \<in> set ?t" using assms(1) by (simp add: env_keeps_settled_def)
  then have "a \<in> set (snd (transaction m ?t))"
    using assms(2) [of a ?t] a(2) by (auto simp: transaction_def split: prod.splits sum.splits)
  then show "a \<in> set (rw_actions (snd (audit c m w)))" by (simp add: audit_def case_prod_beta)
qed

lemma audit_settled_ops:
  assumes "env_keeps_settled c"
  shows "keeps keeps_settled (audit c (load_action q))" "keeps keeps_settled (audit c (reserve_action b))"
    "keeps keeps_settled (audit c (complete_action i st d p e))"
  using assms by (auto intro!: audit_settled complete_settled simp: load_action_def reserve_action_def insert_on_conflict_def)

lemma small_settled:
  "keeps keeps_settled (on_delivery m)" "keeps keeps_settled (new_action_id c)" "keeps keeps_settled (liftA r)"
  "keeps keeps_settled (note_retry q)"
  by (auto simp: keeps_def on_delivery_def keeps_settled_def new_action_id_def note_retry_def split: prod.splits)

lemma replay_settled: "env_keeps_settled c \<Longrightarrow> keeps keeps_settled (replay c a report_id confirmed)"
  unfolding replay_def reconcile_pending_def Let_def
  by (auto intro!: settled_rules small_settled audit_settled_ops split: option.split)

lemma finish_settled: "env_keeps_settled c \<Longrightarrow> keeps keeps_settled (finish_action c i st d p e)"
  unfolding finish_action_def by (intro settled_rules audit_settled_ops)

lemma perform_settled: "env_keeps_settled c \<Longrightarrow> keeps keeps_settled (perform_retry c a attempt report_id confirmed)"
  unfolding perform_retry_def retry_and_settle_def Let_def
  by (auto intro!: settled_rules small_settled finish_settled)

lemma reserved_settled: "env_keeps_settled c \<Longrightarrow> keeps keeps_settled (recover_reserved c a found report_id confirmed)"
  unfolding recover_reserved_def
  by (auto intro!: settled_rules audit_settled_ops replay_settled finish_settled perform_settled split: option.split)

lemma recover_settled: "env_keeps_settled c \<Longrightarrow> keeps keeps_settled (recover c request report_id confirmed)"
  unfolding recover_def recover_new_def
  by (auto intro!: settled_rules small_settled audit_settled_ops replay_settled reserved_settled split: option.split)

text \<open>an audit record that has been settled is never rewritten: no later recovery call, replay or
  reconciliation changes it, as long as nothing else does.\<close>

theorem settled_recovery_record_is_final:
  assumes "\<forall>k t. \<forall>a \<in> set t. oa_status a \<noteq> Action_pending \<longrightarrow> a \<in> set (rx_env c k t)"
    and "a \<in> set (rw_actions w)" and "oa_status a \<noteq> Action_pending"
  shows "a \<in> set (rw_actions (recover_all c calls w))"
  using assms
proof (induction c calls w rule: recover_all.induct)
  case (2 c request report_id confirmed xs w)
  have "keeps_settled w (snd (recover c request report_id confirmed w))"
    using recover_settled [of c] 2(2) by (simp add: keeps_def env_keeps_settled_def)
  then show ?case using 2 by (simp add: keeps_settled_def)
qed simp

definition demo_settled :: operator_action where
  "demo_settled = settle_action Action_succeeded (Some ''d1'') (Some ''succeeded'') None (new_action ''a1'' ''q1'' ''r1'' True None)"

theorem settled_recovery_record_is_final_witness:
  "demo_settled \<in> set (rw_actions (recover_all demo_recovery [(''q1'', ''r1'', True), (''q2'', ''r1'', True)]
     (demo_recovery_world\<lparr>rw_actions := [demo_settled]\<rparr>)))"
  by (rule settled_recovery_record_is_final) (simp_all add: demo_recovery_def demo_settled_def settle_action_def)

end
