(* ===== verification/Ingestion_Runs.thy ===== *)
theory Ingestion_Runs
  imports Attempt_Store Report_Day_Policy Time_Model
begin

text \<open>
  The durable ingestion runs: \<open>IngestionRunRepository\<close> of \<open>storage/repositories.py\<close> on the table of
  runs, and \<open>JobRunner\<close> of \<open>jobs/runner.py\<close>. A run is leased under an attempt number; a claim of an
  expired or failed run raises the number, and every later statement of the old owner compares it.
  The statements form a machine whose final rows are the completed runs.
\<close>

section \<open>Requests, results and rows\<close>

datatype run_status = Run_running | Run_succeeded | Run_partial | Run_failed | Run_retry_wait

fun run_status_text :: "run_status \<Rightarrow> string" where
  "run_status_text Run_running = ''running''"
| "run_status_text Run_succeeded = ''succeeded''"
| "run_status_text Run_partial = ''partial''"
| "run_status_text Run_failed = ''failed''"
| "run_status_text Run_retry_wait = ''retry_wait''"

text \<open>The regions are a set; the list gives the order in which the process iterates over it.\<close>

record ingest_request =
  iq_role :: string
  iq_dataset :: dataset
  iq_regions :: "region list"
  iq_start :: instant
  iq_end :: instant
  iq_as_of :: instant
  iq_cursor :: "string option"
  iq_dry_run :: bool
  iq_force :: bool

text \<open>The contracts strip their text fields; the counts of a result are not negative and it is not running.\<close>

definition make_request :: "ingest_request \<Rightarrow> ingest_request" where
  "make_request q = q\<lparr>iq_role := strip (iq_role q), iq_cursor := map_option strip (iq_cursor q)\<rparr>"

definition request_payload :: "ingest_request \<Rightarrow> json" where
  "request_payload q = JObj
     [(''provider_role'', JStr (iq_role q)), (''dataset'', JStr (dataset_value (iq_dataset q))),
      (''regions'', JList (map (\<lambda>r. JStr (region_value r)) (iq_regions q))),
      (''start'', JStr (iso_utc (iq_start q))), (''end'', JStr (iso_utc (iq_end q))),
      (''as_of'', JStr (iso_utc (iq_as_of q))), (''cursor'', opt_str (iq_cursor q)),
      (''dry_run'', JBool (iq_dry_run q)), (''force'', JBool (iq_force q))]"

record ingest_result =
  ir_run :: uuid
  ir_status :: run_status
  ir_role :: string
  ir_dataset :: dataset
  ir_started :: instant
  ir_finished :: instant
  ir_fetched :: int
  ir_accepted :: int
  ir_rejected :: int
  ir_inserted :: int
  ir_updated :: int
  ir_cursor :: "string option"
  ir_watermark :: "string option"
  ir_error :: "string option"
  ir_retry_after :: "int option"
  ir_warnings :: "json list"

definition make_result :: "ingest_result \<Rightarrow> exn + ingest_result" where
  "make_result r =
     (let s = r\<lparr>ir_role := strip (ir_role r), ir_cursor := map_option strip (ir_cursor r),
        ir_watermark := map_option strip (ir_watermark r), ir_error := map_option strip (ir_error r)\<rparr> in
      if ir_status s \<noteq> Run_running \<and> 0 \<le> ir_fetched s \<and> 0 \<le> ir_accepted s \<and> 0 \<le> ir_rejected s
         \<and> 0 \<le> ir_inserted s \<and> 0 \<le> ir_updated s \<and> (case ir_retry_after s of None \<Rightarrow> True | Some n \<Rightarrow> 0 \<le> n)
      then Inr s else Inl ValidationError)"

definition valid_result :: "ingest_result \<Rightarrow> bool" where
  "valid_result r \<longleftrightarrow> make_result r = Inr r"

record run_details =
  dt_inserted :: int
  dt_updated :: int
  dt_cursor :: "string option"
  dt_watermark :: "string option"
  dt_retry_after :: "int option"
  dt_warnings :: "json list"

definition no_details :: run_details where
  "no_details = \<lparr>dt_inserted = 0, dt_updated = 0, dt_cursor = None, dt_watermark = None, dt_retry_after = None, dt_warnings = []\<rparr>"

record provider_run =
  pr_id :: uuid
  pr_key :: string
  pr_role :: string
  pr_dataset :: dataset
  pr_status :: run_status
  pr_no :: int
  pr_lease :: "instant option"
  pr_started :: instant
  pr_finished :: "instant option"
  pr_fetched :: int
  pr_accepted :: int
  pr_rejected :: int
  pr_error :: "string option"
  pr_details :: run_details
  pr_request :: json

record run_lease =
  le_run :: uuid
  le_no :: int

section \<open>The run repository\<close>

text \<open>A value that its column cannot hold: the driver raises and the statement has no effect.\<close>

definition database_error :: exn where
  "database_error = OtherError ''DBAPIError''"

definition new_run :: "ingest_request \<Rightarrow> string \<Rightarrow> uuid \<Rightarrow> instant \<Rightarrow> instant \<Rightarrow> provider_run" where
  "new_run q key i now expires = \<lparr>pr_id = i, pr_key = key, pr_role = iq_role q, pr_dataset = iq_dataset q,
     pr_status = Run_running, pr_no = 1, pr_lease = Some expires, pr_started = now, pr_finished = None,
     pr_fetched = 0, pr_accepted = 0, pr_rejected = 0, pr_error = None, pr_details = no_details,
     pr_request = request_payload q\<rparr>"

definition acquire_run :: "ingest_request \<Rightarrow> string \<Rightarrow> uuid \<Rightarrow> instant \<Rightarrow> instant \<Rightarrow> (provider_run list, run_lease option \<times> uuid) act" where
  "acquire_run q key i now expires t =
     (case insert_on_conflict (\<lambda>x y. pr_key y = pr_key x) (\<lambda>x y. pr_id y = pr_id x) (new_run q key i now expires) t of
        (Inl e, _) \<Rightarrow> (Inl e, t)
      | (Inr True, t') \<Rightarrow> if \<not> (column_fits 64 (Some (iq_role q)) \<and> column_fits 128 (Some key)) then (Inl database_error, t)
          else (Inr (Some \<lparr>le_run = i, le_no = 1\<rparr>, i), t')
      | (Inr False, _) \<Rightarrow> (case select_one (\<lambda>r. pr_key r = key) t of
            None \<Rightarrow> (Inl RuntimeError, t)
          | Some r \<Rightarrow> if json_eq (pr_request r) (request_payload q) then (Inr (None, pr_id r), t) else (Inl ValueError, t)))"

definition recoverable :: "instant \<Rightarrow> provider_run \<Rightarrow> bool" where
  "recoverable now r \<longleftrightarrow> pr_status r \<in> {Run_failed, Run_retry_wait}
     \<or> pr_status r = Run_running \<and> (case pr_lease r of None \<Rightarrow> True | Some e \<Rightarrow> e \<le> now)"

definition reclaim_run :: "instant \<Rightarrow> instant \<Rightarrow> provider_run \<Rightarrow> provider_run" where
  "reclaim_run now expires r = r\<lparr>pr_status := Run_running, pr_no := pr_no r + 1, pr_lease := Some expires, pr_started := now,
     pr_finished := None, pr_error := None\<rparr>"

definition claim_recoverable_run :: "uuid \<Rightarrow> instant \<Rightarrow> instant \<Rightarrow> (provider_run list, run_lease option) act" where
  "claim_recoverable_run i now expires t =
     (case update_where (\<lambda>r. pr_id r = i \<and> recoverable now r) (reclaim_run now expires) t of
        (ok, t') \<Rightarrow> (Inr (if ok then map_option (\<lambda>r. \<lparr>le_run = pr_id r, le_no = pr_no r\<rparr>) (select_one (\<lambda>r. pr_id r = i) t')
                       else None), t'))"

definition holds_lease :: "run_lease \<Rightarrow> provider_run \<Rightarrow> bool" where
  "holds_lease l r \<longleftrightarrow> pr_no r = le_no l \<and> pr_status r = Run_running"

definition renew_lease :: "run_lease \<Rightarrow> instant \<Rightarrow> (provider_run list, bool) act" where
  "renew_lease l expires t =
     (case update_where (\<lambda>r. pr_id r = le_run l \<and> holds_lease l r) (\<lambda>r. r\<lparr>pr_lease := Some expires\<rparr>) t of (ok, t') \<Rightarrow> (Inr ok, t'))"

definition finish_run :: "ingest_result \<Rightarrow> provider_run \<Rightarrow> provider_run" where
  "finish_run res r = r\<lparr>pr_status := ir_status res, pr_started := ir_started res, pr_finished := Some (ir_finished res),
     pr_fetched := ir_fetched res, pr_accepted := ir_accepted res, pr_rejected := ir_rejected res,
     pr_error := ir_error res, pr_lease := None,
     pr_details := \<lparr>dt_inserted = ir_inserted res, dt_updated = ir_updated res, dt_cursor = ir_cursor res,
       dt_watermark = ir_watermark res, dt_retry_after = ir_retry_after res, dt_warnings = ir_warnings res\<rparr>\<rparr>"

definition complete_run :: "ingest_result \<Rightarrow> run_lease \<Rightarrow> (provider_run list, bool) act" where
  "complete_run res l t =
     (case update_where (\<lambda>r. pr_id r = ir_run res \<and> holds_lease l r) (finish_run res) t of
        (ok, t') \<Rightarrow> if ok \<and> \<not> (column_fits 64 (ir_error res) \<and> int4_fits (ir_fetched res) \<and> int4_fits (ir_accepted res)
                   \<and> int4_fits (ir_rejected res))
          then (Inl database_error, t) else (Inr ok, t'))"

definition fail_run :: "run_lease \<Rightarrow> string \<Rightarrow> (provider_run list, bool) act" where
  "fail_run l code t =
     (case update_where (\<lambda>r. pr_id r = le_run l \<and> holds_lease l r)
             (\<lambda>r. r\<lparr>pr_status := Run_failed, pr_error := Some code, pr_lease := None\<rparr>) t of
        (ok, t') \<Rightarrow> if ok \<and> \<not> column_fits 64 (Some code) then (Inl database_error, t) else (Inr ok, t'))"

definition load_run :: "uuid \<Rightarrow> (provider_run list, provider_run option) act" where
  "load_run i t = (Inr (select_one (\<lambda>r. pr_id r = i) t), t)"

definition completed :: "provider_run \<Rightarrow> bool" where
  "completed r \<longleftrightarrow> pr_status r \<in> {Run_succeeded, Run_partial}"

definition stored_result :: "provider_run \<Rightarrow> instant \<Rightarrow> ingest_result" where
  "stored_result r finished = \<lparr>ir_run = pr_id r, ir_status = pr_status r, ir_role = pr_role r, ir_dataset = pr_dataset r,
     ir_started = pr_started r, ir_finished = finished, ir_fetched = pr_fetched r, ir_accepted = pr_accepted r,
     ir_rejected = pr_rejected r, ir_inserted = dt_inserted (pr_details r), ir_updated = dt_updated (pr_details r),
     ir_cursor = dt_cursor (pr_details r), ir_watermark = dt_watermark (pr_details r), ir_error = pr_error r,
     ir_retry_after = dt_retry_after (pr_details r), ir_warnings = dt_warnings (pr_details r)\<rparr>"

definition load_completed_result :: "uuid \<Rightarrow> (provider_run list, ingest_result option) act" where
  "load_completed_result i t = (case select_one (\<lambda>r. pr_id r = i) t of
     None \<Rightarrow> (Inr None, t)
   | Some r \<Rightarrow> (case pr_finished r of
         None \<Rightarrow> (Inr None, t)
       | Some f \<Rightarrow> if completed r then (bindE (make_result (stored_result r f)) (\<lambda>x. Inr (Some x)), t) else (Inr None, t)))"

section \<open>The run statements as a machine\<close>

datatype run_op =
    Acquire ingest_request string uuid instant instant
  | Claim uuid instant instant
  | Renew run_lease instant
  | Complete ingest_result run_lease
  | Fail run_lease string

definition lease_grant :: "run_lease \<Rightarrow> grant" where
  "lease_grant l = (le_run l, le_no l)"

text \<open>What a statement leaves in the table, and the lease it grants.\<close>

fun run_exec :: "run_op \<Rightarrow> provider_run list \<Rightarrow> grant option \<times> provider_run list" where
  "run_exec (Acquire q key i now expires) t = (case acquire_run q key i now expires t of
     (Inr (l, _), t') \<Rightarrow> (map_option lease_grant l, t') | (Inl _, t') \<Rightarrow> (None, t'))"
| "run_exec (Claim i now expires) t = (case claim_recoverable_run i now expires t of
     (Inr l, t') \<Rightarrow> (map_option lease_grant l, t') | (Inl _, t') \<Rightarrow> (None, t'))"
| "run_exec (Renew l expires) t = (None, snd (renew_lease l expires t))"
| "run_exec (Complete res l) t = (None, snd (complete_run res l t))"
| "run_exec (Fail l code) t = (None, snd (fail_run l code t))"

interpretation pr_rows: numbered_rows pr_id pr_no completed .

lemma pr_lookup_eq: "select_one (\<lambda>r. pr_id r = k) t = pr_rows.lookup t k"
  by (simp add: select_one_def pr_rows.lookup_def)

lemma holds_not_completed: "holds_lease l r \<Longrightarrow> \<not> completed r"
  by (simp add: holds_lease_def completed_def)

lemma leased_change:
  assumes "update_where (\<lambda>r. pr_id r = i \<and> holds_lease l r) f t = (ok, t')"
    and "\<And>r. pr_id (f r) = pr_id r \<and> pr_no (f r) = pr_no r"
  shows "pr_rows.row_change t None t'"
proof -
  have "t' = map (\<lambda>r. if pr_id r = i \<and> holds_lease l r then f r else r) t" using assms(1) by (simp add: update_where_def)
  moreover have "pr_rows.row_change t None (map (\<lambda>r. if pr_id r = i \<and> holds_lease l r then f r else r) t)"
    using assms(2) holds_not_completed by (intro pr_rows.row_change.settled) auto
  ultimately show ?thesis by simp
qed

lemma run_row_change:
  assumes d: "pr_rows.keys_distinct t" and ex: "run_exec x t = (g, t')"
  shows "pr_rows.row_change t g t'"
proof (cases x)
  case (Acquire q key i now expires)
  show ?thesis
  proof (cases rule: insert_on_conflict_cases [of "\<lambda>x y. pr_key y = pr_key x" "\<lambda>x y. pr_id y = pr_id x" "new_run q key i now expires" t])
    case inserted
    then have "i \<notin> pr_id ` set t" by (auto simp: new_run_def)
    then have "pr_rows.row_change t (Some (i, 1)) (t @ [new_run q key i now expires])"
      using pr_rows.row_change.appended [of "new_run q key i now expires" t] by (simp add: new_run_def)
    then show ?thesis using ex inserted(1) Acquire pr_rows.row_change.unchanged [of t]
      by (cases "column_fits 64 (Some (iq_role q)) \<and> column_fits 128 (Some key)")
        (auto simp: acquire_run_def lease_grant_def)
  qed (use ex Acquire pr_rows.row_change.unchanged [of t] in
      \<open>auto simp: acquire_run_def split: option.splits if_splits\<close>)
next
  case (Claim i now expires)
  obtain ok t1 where u: "update_where (\<lambda>r. pr_id r = i \<and> recoverable now r) (reclaim_run now expires) t = (ok, t1)" by fastforce
  have ch: "if ok then pr_rows.row_change t (map_option (\<lambda>r. (i, pr_no r)) (pr_rows.lookup t1 i)) t1 else t1 = t"
    by (rule pr_rows.resume_change [OF d _ u]) (auto simp: reclaim_run_def recoverable_def completed_def)
  have "map_option (\<lambda>r. (pr_id r, pr_no r)) (pr_rows.lookup t1 i) = map_option (\<lambda>r. (i, pr_no r)) (pr_rows.lookup t1 i)"
    using pr_rows.lookup_Some by (cases "pr_rows.lookup t1 i") auto
  then show ?thesis
    using ex Claim u ch pr_rows.row_change.unchanged [of t]
    by (auto simp: claim_recoverable_run_def pr_lookup_eq option.map_comp comp_def lease_grant_def split: if_splits)
next
  case (Renew l expires)
  then show ?thesis using ex by (auto simp: renew_lease_def split: prod.splits intro!: leased_change)
next
  case (Complete res l)
  then show ?thesis using ex pr_rows.row_change.unchanged [of t]
    by (auto simp: complete_run_def finish_run_def split: prod.splits if_splits intro!: leased_change)
next
  case (Fail l code)
  then show ?thesis using ex pr_rows.row_change.unchanged [of t]
    by (auto simp: fail_run_def split: prod.splits if_splits intro!: leased_change)
qed

interpretation pr: numbered_statements pr_id pr_no completed run_exec
  by unfold_locales (rule run_row_change)

text \<open>C19: Whatever statements any number of workers execute in whatever order, no lease (a run with an attempt number) is granted
  twice, and a completed run keeps its row and is never leased again.\<close>

theorem run_leases_granted_once:
  fixes t :: "provider_run list"
  assumes "distinct (map pr_id t)" "run_ops run_exec xs t = (gs, t')"
  shows "distinct gs \<and> (\<forall>i r. select_one (\<lambda>r. pr_id r = i) t = Some r \<and> completed r
    \<longrightarrow> select_one (\<lambda>r. pr_id r = i) t' = Some r \<and> (\<forall>n. (i, n) \<notin> set gs))"
  using pr.run_grants_distinct [OF _ assms(2)] pr.run_final [OF _ assms(2)] assms(1)
  by (simp add: pr_lookup_eq pr_rows.keys_distinct_def)

section \<open>Fencing\<close>

lemma superseded_not_held:
  fixes t :: "provider_run list"
  assumes "distinct (map pr_id t)" "select_one (\<lambda>r. pr_id r = i) t = Some r0" "n < pr_no r0"
    and "r \<in> set t" "pr_id r = i"
  shows "pr_no r \<noteq> n"
  using pr_rows.lookup_mem [of t r] assms by (simp add: pr_lookup_eq pr_rows.keys_distinct_def)

lemma update_none: "\<forall>r \<in> set t. \<not> p r \<Longrightarrow> update_where p f t = (False, t)"
  by (auto simp: update_where_def intro: map_idI)

text \<open>Once a newer lease of a run has been granted, the renewal, the completion and the failure report of the older lease
  all report that the lease is lost and leave the table as it is.\<close>

theorem superseded_lease_changes_nothing:
  assumes "distinct (map pr_id t)" "select_one (\<lambda>r. pr_id r = le_run l) t = Some r" "le_no l \<le> pr_no r"
    and "run_ops run_exec xs t = (gs, t')" "(le_run l, n) \<in> set gs" "ir_run res = le_run l"
  shows "renew_lease l expires t' = (Inr False, t') \<and> complete_run res l t' = (Inr False, t') \<and> fail_run l code t' = (Inr False, t')"
proof -
  have d: "pr_rows.keys_distinct t" using assms(1) by (simp add: pr_rows.keys_distinct_def)
  have "pr_no r < n" using pr.run_grants_above [OF d assms(4)] assms(2,5) by (simp add: pr_lookup_eq)
  moreover obtain r' where "pr_rows.lookup t' (le_run l) = Some r'" "n \<le> pr_no r'"
    using pr.run_grants_below [OF d assms(4,5)] by blast
  moreover have "distinct (map pr_id t')"
    using pr.run_distinct [OF d assms(4)] by (simp add: pr_rows.keys_distinct_def)
  ultimately have "\<forall>r \<in> set t'. \<not> (pr_id r = le_run l \<and> holds_lease l r)"
    using superseded_not_held [of t' "le_run l" r' "le_no l"] assms(3) by (auto simp: pr_lookup_eq holds_lease_def)
  note none = update_none [OF this]
  show ?thesis
    using none assms(6) by (simp_all add: renew_lease_def complete_run_def fail_run_def)
qed

section \<open>Leases that are renewed in time\<close>

text \<open>
  A timed sequence of statements of any workers, each with the time at which the database executes it, in which the owner of the lease
  \<open>l\<close> keeps up: every statement is executed less than a lease duration after the clock reading of the grant or of the last renewal
  that precedes it. The owner has not reported an end yet, and a claim or a renewal works with a clock reading that is not later than
  its statement.
\<close>

fun kept_up :: "int \<Rightarrow> run_lease \<Rightarrow> instant \<Rightarrow> (instant \<times> run_op) list \<Rightarrow> bool" where
  "kept_up duration l renewed [] \<longleftrightarrow> True"
| "kept_up duration l renewed ((now, x) # xs) \<longleftrightarrow> now < renewed + duration \<and> (case x of
     Renew k expires \<Rightarrow> if k = l then expires - duration \<le> now \<and> kept_up duration l (expires - duration) xs else kept_up duration l renewed xs
   | Claim i read expires \<Rightarrow> read \<le> now \<and> kept_up duration l renewed xs
   | Complete res k \<Rightarrow> (ir_run res, le_no k) \<noteq> (le_run l, le_no l) \<and> kept_up duration l renewed xs
   | Fail k code \<Rightarrow> k \<noteq> l \<and> kept_up duration l renewed xs
   | Acquire q key i read expires \<Rightarrow> kept_up duration l renewed xs)"

definition lease_row :: "run_lease \<Rightarrow> instant \<Rightarrow> provider_run list \<Rightarrow> bool" where
  "lease_row l expires t \<longleftrightarrow> pr_rows.keys_distinct t
     \<and> (\<exists>r. pr_rows.lookup t (le_run l) = Some r \<and> holds_lease l r \<and> pr_lease r = Some expires)"

lemma lease_row_update:
  assumes row: "lease_row l e t" and u: "update_where (\<lambda>r. pr_id r = i \<and> p r) f t = (ok, t')"
    and f: "\<And>r. pr_id (f r) = pr_id r"
    and hit: "\<And>r. i = le_run l \<Longrightarrow> holds_lease l r \<Longrightarrow> pr_lease r = Some e \<Longrightarrow> p r \<Longrightarrow> holds_lease l (f r) \<and> pr_lease (f r) = Some e'"
    and miss: "\<And>r. i \<noteq> le_run l \<or> \<not> p r \<Longrightarrow> holds_lease l r \<Longrightarrow> pr_lease r = Some e \<Longrightarrow> e' = e"
  shows "lease_row l e' t'"
proof -
  obtain r where d: "pr_rows.keys_distinct t"
    and r: "pr_rows.lookup t (le_run l) = Some r" "holds_lease l r" "pr_lease r = Some e" using row by (auto simp: lease_row_def)
  note one = pr_rows.update_one [OF f d u]
  show ?thesis
  proof (cases "i = le_run l \<and> p r")
    case True
    then have "ok" using one(1) r(1) by blast
    then show ?thesis using one(2,4) True r hit [of r] by (simp add: lease_row_def)
  next
    case False
    then have "pr_rows.lookup t' (le_run l) = Some r" using one(1-3) r(1) by (cases "i = le_run l") auto
    moreover have "e' = e" using miss [of r] False r by blast
    ultimately show ?thesis using one(4) r by (simp add: lease_row_def)
  qed
qed

lemma lease_row_acquire:
  assumes "lease_row l e t" "acquire_run q key i now expires t = (y, t')"
  shows "lease_row l e t'"
proof -
  have "t' = t \<or> t' = t @ [new_run q key i now expires] \<and> i \<notin> pr_id ` set t"
    using assms(2) by (auto simp: acquire_run_def insert_on_conflict_def new_run_def split: if_splits option.splits)
  then show ?thesis using assms(1)
    by (auto simp: lease_row_def pr_rows.lookup_append new_run_def intro: pr_rows.keys_distinct_append)
qed

lemma kept_up_step:
  assumes row: "lease_row l (renewed + duration) t" and kept: "kept_up duration l renewed ((now, x) # xs)" and ex: "run_exec x t = (g, t')"
  shows "\<exists>renewed'. lease_row l (renewed' + duration) t' \<and> kept_up duration l renewed' xs"
proof (cases x)
  case (Acquire q key i read expires)
  have "t' = snd (acquire_run q key i read expires t)" using ex Acquire by (auto split: prod.splits sum.splits)
  then have "lease_row l (renewed + duration) t'" using lease_row_acquire [OF row] by (metis prod.collapse)
  then show ?thesis using kept Acquire by auto
next
  case (Claim i read expires)
  obtain ok t1 where u: "update_where (\<lambda>r. pr_id r = i \<and> recoverable read r) (reclaim_run read expires) t = (ok, t1)" by fastforce
  have "t' = t1" using ex Claim u by (simp add: claim_recoverable_run_def)
  moreover have "lease_row l (renewed + duration) t1"
    by (rule lease_row_update [OF row u]) (use kept Claim in \<open>auto simp: reclaim_run_def recoverable_def holds_lease_def\<close>)
  ultimately show ?thesis using kept Claim by auto
next
  case (Renew k expires)
  obtain ok t1 where u: "update_where (\<lambda>r. pr_id r = le_run k \<and> holds_lease k r) (\<lambda>r. r\<lparr>pr_lease := Some expires\<rparr>) t = (ok, t1)" by fastforce
  have t': "t' = t1" using ex Renew u by (simp add: renew_lease_def)
  show ?thesis
  proof (cases "k = l")
    case True
    have "lease_row l ((expires - duration) + duration) t1"
      by (rule lease_row_update [OF row u]) (use True in \<open>auto simp: holds_lease_def\<close>)
    then show ?thesis using kept Renew True t' by (intro exI [of _ "expires - duration"]) auto
  next
    case False
    have "lease_row l (renewed + duration) t1"
      by (rule lease_row_update [OF row u]) (use False in \<open>auto simp: holds_lease_def\<close>)
    then show ?thesis using kept Renew False t' by auto
  qed
next
  case (Complete res k)
  obtain ok t1 where u: "update_where (\<lambda>r. pr_id r = ir_run res \<and> holds_lease k r) (finish_run res) t = (ok, t1)" by fastforce
  have "t' = t1 \<or> t' = t" using ex Complete u by (auto simp: complete_run_def split: if_splits)
  moreover have "lease_row l (renewed + duration) t1"
    by (rule lease_row_update [OF row u]) (use kept Complete in \<open>auto simp: finish_run_def holds_lease_def\<close>)
  ultimately show ?thesis using row kept Complete by auto
next
  case (Fail k code)
  obtain ok t1 where u: "update_where (\<lambda>r. pr_id r = le_run k \<and> holds_lease k r)
      (\<lambda>r. r\<lparr>pr_status := Run_failed, pr_error := Some code, pr_lease := None\<rparr>) t = (ok, t1)" by fastforce
  have "t' = t1 \<or> t' = t" using ex Fail u by (auto simp: fail_run_def split: if_splits)
  moreover have "lease_row l (renewed + duration) t1"
    by (rule lease_row_update [OF row u]) (use kept Fail in \<open>auto simp: holds_lease_def intro: run_lease.equality\<close>)
  ultimately show ?thesis using row kept Fail by auto
qed

lemma kept_up_row:
  "lease_row l (renewed + duration) t \<Longrightarrow> kept_up duration l renewed xs \<Longrightarrow> run_ops run_exec (map snd xs) t = (gs, t')
    \<Longrightarrow> \<exists>renewed'. lease_row l (renewed' + duration) t'"
proof (induction xs arbitrary: renewed t gs)
  case (Cons y xs)
  obtain now x where y: "y = (now, x)" by fastforce
  obtain g t1 where g: "run_exec x t = (g, t1)" by fastforce
  obtain gs1 where "run_ops run_exec (map snd xs) t1 = (gs1, t')" using Cons.prems(3) g y by (auto split: prod.splits)
  then show ?case using Cons.IH kept_up_step [OF Cons.prems(1) Cons.prems(2) [unfolded y] g] by blast
qed auto

text \<open>C20: However the statements of any workers interleave, an owner that keeps up is never displaced: as long as every statement is
  executed less than a lease duration after its last renewal (or its grant), its run is granted to no other worker, its row stays
  running under its attempt number, and when it completes the run, with a result whose counts and error code fit their columns, the
  completion succeeds.\<close>

theorem renewed_lease_is_not_claimed:
  assumes "distinct (map pr_id t)" "r \<in> set t" "pr_id r = le_run l" "holds_lease l r" "pr_lease r = Some (renewed + duration)"
    and "kept_up duration l renewed xs" "run_ops run_exec (map snd xs) t = (gs, t')"
    and "ir_run res = le_run l" "column_fits 64 (ir_error res)" "list_all int4_fits [ir_fetched res, ir_accepted res, ir_rejected res]"
  shows "(\<forall>n. (le_run l, n) \<notin> set gs)
    \<and> (\<exists>r'. filter (\<lambda>r. pr_id r = le_run l) t' = [r'] \<and> pr_no r' = le_no l \<and> pr_status r' = Run_running)
    \<and> fst (complete_run res l t') = Inr True"
proof -
  have d: "pr_rows.keys_distinct t" using assms(1) by (simp add: pr_rows.keys_distinct_def)
  have row: "pr_rows.lookup t (le_run l) = Some r" using pr_rows.lookup_mem [OF d assms(2)] assms(3) by simp
  then obtain renewed' where "lease_row l (renewed' + duration) t'"
    using kept_up_row [OF _ assms(6,7)] d assms(4,5) by (auto simp: lease_row_def)
  then obtain r' where r': "pr_rows.keys_distinct t'" "pr_rows.lookup t' (le_run l) = Some r'" "holds_lease l r'" by (auto simp: lease_row_def)
  have none: "(le_run l, n) \<notin> set gs" for n
    using pr.run_grants_above [OF d assms(7) row] pr.run_grants_below [OF d assms(7)] r'(2,3) assms(4) by (fastforce simp: holds_lease_def)
  have one: "filter (\<lambda>r. pr_id r = le_run l) t' = [r']"
    using r'(1) pr_rows.lookup_Some [OF r'(2)] by (intro filter_unique) (simp_all add: pr_rows.keys_distinct_def)
  have "\<exists>r \<in> set t'. pr_id r = le_run l \<and> holds_lease l r" using pr_rows.lookup_Some [OF r'(2)] r'(3) by blast
  then have "fst (complete_run res l t') = Inr True" using assms(8-10) by (simp add: complete_run_def update_where_def)
  then show ?thesis using none one r'(3) by (simp add: holds_lease_def)
qed

section \<open>Replay\<close>

lemma complete_run_replay:
  assumes d: "distinct (map pr_id t)" and c: "complete_run res l t = (Inr True, t')"
    and r: "select_one (\<lambda>r. pr_id r = ir_run res) t = Some r" "pr_role r = ir_role res" "pr_dataset r = ir_dataset res"
    and res: "valid_result res"
  shows "select_one (\<lambda>r. pr_id r = ir_run res) t' = Some (finish_run res r)"
    and "ir_status res \<in> {Run_succeeded, Run_partial} \<Longrightarrow> load_completed_result (ir_run res) t' = (Inr (Some res), t')"
proof -
  obtain ok t1 where u: "update_where (\<lambda>r. pr_id r = ir_run res \<and> holds_lease l r) (finish_run res) t = (ok, t1)"
    by fastforce
  have ok: "ok \<and> t1 = t'" using c u by (auto simp: complete_run_def split: if_splits)
  have k: "pr_id (finish_run res r) = pr_id r" for r by (simp add: finish_run_def)
  have kd: "pr_rows.keys_distinct t" using d by (simp add: pr_rows.keys_distinct_def)
  have "pr_rows.lookup t1 (ir_run res) = Some (finish_run res r)"
    using pr_rows.update_one(2) [OF k kd u] r(1) ok by (simp add: pr_lookup_eq)
  then show sel: "select_one (\<lambda>r. pr_id r = ir_run res) t' = Some (finish_run res r)"
    using ok by (simp add: pr_lookup_eq)
  have "pr_id r = ir_run res" using r(1) by (auto simp: pr_lookup_eq dest: pr_rows.lookup_Some)
  then have "stored_result (finish_run res r) (ir_finished res) = res"
    using r(2,3) by (simp add: stored_result_def finish_run_def)
  then show "ir_status res \<in> {Run_succeeded, Run_partial} \<Longrightarrow> load_completed_result (ir_run res) t' = (Inr (Some res), t')"
    using sel res by (auto simp: load_completed_result_def completed_def finish_run_def valid_result_def)
qed

section \<open>Well-formed tables\<close>

text \<open>Ids and keys are unique, and a row repeats the role and the dataset of the request it stores.\<close>

definition wf_run :: "provider_run \<Rightarrow> bool" where
  "wf_run r \<longleftrightarrow> (\<exists>q. pr_request r = request_payload q \<and> pr_role r = iq_role q \<and> pr_dataset r = iq_dataset q) \<and> 1 \<le> pr_no r
     \<and> (completed r \<longrightarrow> pr_finished r \<noteq> None)"

definition wf_runs :: "provider_run list \<Rightarrow> bool" where
  "wf_runs t \<longleftrightarrow> distinct (map pr_id t) \<and> distinct (map pr_key t) \<and> (\<forall>r \<in> set t. wf_run r)"

text \<open>What no statement changes in a row.\<close>

definition run_identity :: "provider_run \<Rightarrow> uuid \<times> string \<times> string \<times> dataset \<times> json" where
  "run_identity r = (pr_id r, pr_key r, pr_role r, pr_dataset r, pr_request r)"

lemma wf_run_identity:
  "wf_run r \<Longrightarrow> run_identity r' = run_identity r \<Longrightarrow> 1 \<le> pr_no r' \<Longrightarrow> (completed r' \<longrightarrow> pr_finished r' \<noteq> None) \<Longrightarrow> wf_run r'"
  by (auto simp: wf_run_def run_identity_def)

lemma update_identity:
  assumes "update_where p f t = (ok, t')" "\<And>r. run_identity (f r) = run_identity r"
  shows "map run_identity t' = map run_identity t"
  using assms by (auto simp: update_where_def)

lemma update_wf:
  assumes u: "update_where p f t = (ok, t')" and f: "\<And>r. run_identity (f r) = run_identity r"
    and no: "\<And>r. pr_no r \<le> pr_no (f r)" "\<And>r. p r \<Longrightarrow> completed (f r) \<Longrightarrow> pr_finished (f r) \<noteq> None" and wf: "wf_runs t"
  shows "wf_runs t' \<and> map run_identity t' = map run_identity t"
proof -
  note same = update_identity [OF u f]
  have "map pr_id t' = map pr_id t" "map pr_key t' = map pr_key t"
    using arg_cong [OF same, of "map fst"] arg_cong [OF same, of "map (fst \<circ> snd)"]
    by (simp_all add: run_identity_def comp_def)
  moreover have "wf_run r" if "r \<in> set t'" for r
  proof -
    have "r \<in> (\<lambda>r. if p r then f r else r) ` set t" using that u by (auto simp only: update_where_def set_map)
    then obtain x where "x \<in> set t" "r = (if p x then f x else x)" by blast
    then show ?thesis using wf wf_run_identity [of x "f x"] f no(1) [of x] no(2) [of x] order_trans [of 1 "pr_no x"]
      by (auto simp: wf_runs_def wf_run_def)
  qed
  ultimately show ?thesis using wf same by (simp add: wf_runs_def)
qed

text \<open>What every statement keeps: well-formed tables, the identity of every row, and completed rows.\<close>

definition run_step_ok :: "provider_run list \<Rightarrow> provider_run list \<Rightarrow> bool" where
  "run_step_ok t t' \<longleftrightarrow> (wf_runs t \<longrightarrow> wf_runs t' \<and> (\<forall>i r. select_one (\<lambda>r. pr_id r = i) t = Some r \<longrightarrow>
     (\<exists>r'. select_one (\<lambda>r. pr_id r = i) t' = Some r' \<and> run_identity r' = run_identity r \<and> pr_no r \<le> pr_no r'
       \<and> (completed r \<longrightarrow> r' = r))))"

lemma run_step_ok_rel [simp]: "reflp run_step_ok" "transp run_step_ok"
proof -
  show "reflp run_step_ok" by (simp add: reflp_def run_step_ok_def)
  show "transp run_step_ok"
  proof (rule transpI)
    fix t t1 t' assume a: "run_step_ok t t1" and b: "run_step_ok t1 t'"
    show "run_step_ok t t'"
    proof (unfold run_step_ok_def, intro impI)
      assume wf: "wf_runs t"
      note a' = a [unfolded run_step_ok_def, rule_format, OF wf]
      note b' = b [unfolded run_step_ok_def, rule_format, OF conjunct1 [OF a']]
      show "wf_runs t' \<and> (\<forall>i r. select_one (\<lambda>r. pr_id r = i) t = Some r \<longrightarrow>
        (\<exists>r'. select_one (\<lambda>r. pr_id r = i) t' = Some r' \<and> run_identity r' = run_identity r \<and> pr_no r \<le> pr_no r'
          \<and> (completed r \<longrightarrow> r' = r)))"
      proof (intro conjI allI impI)
        show "wf_runs t'" using b' by blast
        fix i r assume "select_one (\<lambda>r. pr_id r = i) t = Some r"
        then obtain r1 where r1: "select_one (\<lambda>r. pr_id r = i) t1 = Some r1" "run_identity r1 = run_identity r"
          "pr_no r \<le> pr_no r1" "completed r \<longrightarrow> r1 = r" using a' by blast
        obtain r2 where r2: "select_one (\<lambda>r. pr_id r = i) t' = Some r2" "run_identity r2 = run_identity r1"
          "pr_no r1 \<le> pr_no r2" "completed r1 \<longrightarrow> r2 = r1" using b' r1(1) by blast
        show "\<exists>r'. select_one (\<lambda>r. pr_id r = i) t' = Some r' \<and> run_identity r' = run_identity r \<and> pr_no r \<le> pr_no r'
          \<and> (completed r \<longrightarrow> r' = r)"
          using r1 r2 by (intro exI [of _ r2]) auto
      qed
    qed
  qed
qed

lemma acquire_run_eq:
  assumes "acquire_run q key i now expires t = (r, t')"
  shows "t' = t \<and> (\<forall>l. r \<noteq> Inr (Some l, i)) \<or> t' = t @ [new_run q key i now expires] \<and> r = Inr (Some \<lparr>le_run = i, le_no = 1\<rparr>, i)
    \<and> (\<forall>x \<in> set t. pr_id x \<noteq> i \<and> pr_key x \<noteq> key)"
  using assms by (cases rule: insert_on_conflict_cases [of "\<lambda>x y. pr_key y = pr_key x" "\<lambda>x y. pr_id y = pr_id x" "new_run q key i now expires" t])
    (auto simp: acquire_run_def new_run_def split: option.splits if_splits)

lemma lookup_identity:
  assumes "map run_identity t' = map run_identity t" "pr_rows.lookup t i = Some r"
  shows "\<exists>r'. pr_rows.lookup t' i = Some r' \<and> run_identity r' = run_identity r"
  using assms
proof (induction t arbitrary: t')
  case (Cons x t)
  then obtain y u where t': "t' = y # u" "run_identity y = run_identity x" "map run_identity u = map run_identity t" by auto
  have "pr_id y = pr_id x" using t'(2) by (simp add: run_identity_def)
  then show ?case using Cons t' by (auto simp: pr_rows.lookup_Cons split: if_splits)
qed (simp add: pr_rows.lookup_def)

lemma run_exec_wf:
  assumes wf: "wf_runs t" and ex: "run_exec x t = (g, t')"
  shows "wf_runs t' \<and> (\<forall>i r. pr_rows.lookup t i = Some r
    \<longrightarrow> (\<exists>r'. pr_rows.lookup t' i = Some r' \<and> run_identity r' = run_identity r))"
proof -
  have upd: "wf_runs t1 \<and> (\<forall>i r. pr_rows.lookup t i = Some r
    \<longrightarrow> (\<exists>r'. pr_rows.lookup t1 i = Some r' \<and> run_identity r' = run_identity r))"
    if "update_where p f t = (ok, t1)" "\<And>r. run_identity (f r) = run_identity r"
      "\<And>r. pr_no r \<le> pr_no (f r)" "\<And>r. p r \<Longrightarrow> completed (f r) \<Longrightarrow> pr_finished (f r) \<noteq> None" for p f ok t1
    using update_wf [OF that wf] lookup_identity [of t1 t] by blast
  have same: "wf_runs t \<and> (\<forall>i r. pr_rows.lookup t i = Some r
    \<longrightarrow> (\<exists>r'. pr_rows.lookup t i = Some r' \<and> run_identity r' = run_identity r))" using wf by simp
  show ?thesis
  proof (cases x)
    case (Acquire q key i now expires)
    obtain r t1 where a: "acquire_run q key i now expires t = (r, t1)" by fastforce
    have t': "t' = t1" using ex a Acquire by (auto split: sum.splits prod.splits)
    have new: "wf_run (new_run q key i now expires)" by (auto simp: wf_run_def new_run_def completed_def)
    show ?thesis using acquire_run_eq [OF a] same new unfolding t'
      by (auto simp: wf_runs_def pr_rows.lookup_append new_run_def)
  next
    case (Claim i now expires)
    obtain ok t1 where u: "update_where (\<lambda>r. pr_id r = i \<and> recoverable now r) (reclaim_run now expires) t = (ok, t1)" by fastforce
    have "t' = t1" using ex u Claim by (simp add: claim_recoverable_run_def)
    then show ?thesis using upd [OF u] by (simp add: reclaim_run_def run_identity_def completed_def)
  next
    case (Renew l expires)
    obtain ok t1 where u: "update_where (\<lambda>r. pr_id r = le_run l \<and> holds_lease l r) (\<lambda>r. r\<lparr>pr_lease := Some expires\<rparr>) t = (ok, t1)" by fastforce
    have "t' = t1" using ex u Renew by (simp add: renew_lease_def)
    then show ?thesis using upd [OF u] by (auto simp: run_identity_def holds_lease_def completed_def)
  next
    case (Complete res l)
    obtain ok t1 where u: "update_where (\<lambda>r. pr_id r = ir_run res \<and> holds_lease l r) (finish_run res) t = (ok, t1)" by fastforce
    have "t' = t1 \<or> t' = t" using ex u Complete by (auto simp: complete_run_def)
    then show ?thesis using upd [OF u] same by (auto simp: finish_run_def run_identity_def)
  next
    case (Fail l code)
    obtain ok t1 where u: "update_where (\<lambda>r. pr_id r = le_run l \<and> holds_lease l r)
             (\<lambda>r. r\<lparr>pr_status := Run_failed, pr_error := Some code, pr_lease := None\<rparr>) t = (ok, t1)" by fastforce
    have "t' = t1 \<or> t' = t" using ex u Fail by (auto simp: fail_run_def)
    then show ?thesis using upd [OF u] same by (auto simp: run_identity_def completed_def)
  qed
qed

lemma run_exec_step: "run_step_ok t (snd (run_exec x t))"
proof (unfold run_step_ok_def, intro impI)
  assume wf: "wf_runs t"
  obtain g t' where ex: "run_exec x t = (g, t')" by fastforce
  have d: "pr_rows.keys_distinct t" using wf by (simp add: wf_runs_def pr_rows.keys_distinct_def)
  note a = run_exec_wf [OF wf ex] and b = pr.exec_number [OF d ex] and c = pr.exec_final [OF d ex]
  show "wf_runs (snd (run_exec x t)) \<and> (\<forall>i r. select_one (\<lambda>r. pr_id r = i) t = Some r \<longrightarrow>
     (\<exists>r'. select_one (\<lambda>r. pr_id r = i) (snd (run_exec x t)) = Some r' \<and> run_identity r' = run_identity r \<and> pr_no r \<le> pr_no r'
       \<and> (completed r \<longrightarrow> r' = r)))"
    using a b c unfolding ex pr_lookup_eq snd_conv by (metis option.inject)
qed

lemma run_ops_step: "run_ops run_exec xs t = (gs, t') \<Longrightarrow> run_step_ok t t'"
proof (induction xs arbitrary: t gs)
  case Nil
  then show ?case using run_step_ok_rel(1) by (simp add: reflp_def)
next
  case (Cons x xs)
  then obtain g t1 gs1 where s: "run_exec x t = (g, t1)" "run_ops run_exec xs t1 = (gs1, t')"
    by (auto split: prod.splits)
  have "run_step_ok t t1" using run_exec_step [of t x] s(1) by simp
  then show ?case using Cons.IH [OF s(2)] run_step_ok_rel(2) by (meson transpD)
qed

text \<open>Every sequence of run statements keeps the table well formed: run ids and idempotency keys unique, each row with the
  role and the dataset of the request it stores, attempt numbers from one, completed rows with a finishing time; and it changes
  neither the identity of a row nor a completed row.\<close>

theorem run_statements_keep_tables_well_formed:
  assumes "wf_runs t" "run_ops run_exec xs t = (gs, t')"
  shows "wf_runs t' \<and> (\<forall>i r. select_one (\<lambda>r. pr_id r = i) t = Some r \<longrightarrow>
     (\<exists>r'. select_one (\<lambda>r. pr_id r = i) t' = Some r' \<and> run_identity r' = run_identity r \<and> pr_no r \<le> pr_no r'
       \<and> (completed r \<longrightarrow> r' = r)))"
  using run_ops_step [OF assms(2)] assms(1) by (simp add: run_step_ok_def)

section \<open>Examples\<close>

definition demo_request :: ingest_request where
  "demo_request = \<lparr>iq_role = ''cn.bars'', iq_dataset = Bars, iq_regions = [CN], iq_start = 0, iq_end = 5, iq_as_of = 7,
     iq_cursor = None, iq_dry_run = False, iq_force = False\<rparr>"

definition demo_result :: "run_status \<Rightarrow> ingest_result" where
  "demo_result st = \<lparr>ir_run = ''r1'', ir_status = st, ir_role = ''cn.bars'', ir_dataset = Bars, ir_started = 1, ir_finished = 3,
     ir_fetched = 2, ir_accepted = 2, ir_rejected = 0, ir_inserted = 2, ir_updated = 0, ir_cursor = None,
     ir_watermark = Some ''w'', ir_error = None, ir_retry_after = None, ir_warnings = []\<rparr>"

definition demo_run :: provider_run where
  "demo_run = new_run demo_request ''k'' ''r1'' 1 4"

definition demo_completed :: provider_run where
  "demo_completed = finish_run (demo_result Run_succeeded) demo_run"

lemmas demo_defs = demo_run_def demo_completed_def new_run_def demo_result_def demo_request_def finish_run_def

lemma demo_claim:
  "run_ops run_exec [Claim ''r1'' 4 9] [demo_run] = ([(''r1'', 2)], [reclaim_run 4 9 demo_run])"
  by (simp add: demo_run_def new_run_def claim_recoverable_run_def update_where_def recoverable_def select_one_def
      lease_grant_def reclaim_run_def)

lemma demo_renew:
  "renew_lease \<lparr>le_run = ''r1'', le_no = 1\<rparr> 9 [demo_run] = (Inr True, [demo_run\<lparr>pr_lease := Some 9\<rparr>])"
  by (simp add: demo_run_def new_run_def renew_lease_def update_where_def holds_lease_def)

lemma demo_completed_claim: "run_ops run_exec [Claim ''r1'' 4 9] [demo_completed] = ([], [demo_completed])"
  by (simp add: demo_defs claim_recoverable_run_def update_where_def recoverable_def select_one_def demo_completed_def)

lemma demo_wf: "wf_runs [demo_run]"
  by (auto simp: wf_runs_def wf_run_def demo_run_def new_run_def completed_def)

theorem run_leases_granted_once_witness:
  "distinct ([] :: grant list) \<and> select_one (\<lambda>r. pr_id r = ''r1'') [demo_completed] = Some demo_completed"
  using run_leases_granted_once [OF _ demo_completed_claim]
  by (simp add: select_one_def demo_completed_def demo_run_def new_run_def finish_run_def)

theorem superseded_lease_changes_nothing_witness:
  "renew_lease \<lparr>le_run = ''r1'', le_no = 1\<rparr> 20 [reclaim_run 4 9 demo_run] = (Inr False, [reclaim_run 4 9 demo_run])"
  using superseded_lease_changes_nothing [OF _ _ _ demo_claim, of "\<lparr>le_run = ''r1'', le_no = 1\<rparr>" demo_run 2
      "demo_result Run_succeeded" 20]
  by (simp add: select_one_def demo_defs)

text \<open>The lease is granted until 5 and renewed at 4 until 9; the claims of another worker at 3 and 8 fail, and the run is completed.\<close>

definition demo_lease :: run_lease where
  "demo_lease = \<lparr>le_run = ''r1'', le_no = 1\<rparr>"

definition demo_statements :: "(instant \<times> run_op) list" where
  "demo_statements = [(3, Claim ''r1'' 3 8), (4, Renew demo_lease 9), (8, Claim ''r1'' 8 13), (8, Fail \<lparr>le_run = ''r1'', le_no = 2\<rparr> ''E'')]"

theorem renewed_lease_is_not_claimed_witness:
  "\<exists>t. run_ops run_exec (map snd demo_statements) [demo_run\<lparr>pr_lease := Some 5\<rparr>] = ([], t)
     \<and> fst (complete_run (demo_result Run_succeeded) demo_lease t) = Inr True"
proof -
  let ?t = "[demo_run\<lparr>pr_lease := Some 5\<rparr>]" and ?res = "demo_result Run_succeeded"
  obtain gs t where run: "run_ops run_exec (map snd demo_statements) ?t = (gs, t)" by fastforce
  have "gs = fst (run_ops run_exec (map snd demo_statements) ?t)" using run by simp
  also have "\<dots> = []" by code_simp
  finally have gs: "gs = []" .
  have "kept_up 5 demo_lease 0 demo_statements" "ir_run ?res = le_run demo_lease" "column_fits 64 (ir_error ?res)"
    "list_all int4_fits [ir_fetched ?res, ir_accepted ?res, ir_rejected ?res]" by code_simp+
  from renewed_lease_is_not_claimed [OF _ _ _ _ _ this(1) run this(2-4), of "demo_run\<lparr>pr_lease := Some 5\<rparr>"]
  show ?thesis using run gs by (simp add: demo_run_def new_run_def demo_lease_def holds_lease_def)
qed

theorem run_statements_keep_tables_well_formed_witness: "wf_runs [reclaim_run 4 9 demo_run]"
  using run_statements_keep_tables_well_formed [OF demo_wf demo_claim] by blast

end
