(* ===== verification/Scheduled_Tasks.thy ===== *)
theory Scheduled_Tasks
  imports Ingestion_Runs Action_Loops
begin

text \<open>
  The durable progress of a scheduled task: \<open>ScheduledTaskCheckpointRepository\<close> of
  \<open>storage/repositories.py\<close>, and \<open>CheckpointedScheduledTask\<close> of \<open>jobs/scheduled_tasks.py\<close>, which runs
  one page after another from the checkpoint until the source has no further cursor. A claim of an
  active checkpoint raises its epoch, and an advance compares epoch and owner. The executor of a page
  (\<open>JobRunner\<close> in production) and the request factory are parameters.
\<close>

section \<open>Checkpoints\<close>

datatype checkpoint_status = Active | Completed

record checkpoint =
  sc_date :: date
  sc_task :: string
  sc_role :: string
  sc_dataset :: dataset
  sc_region :: string
  sc_as_of :: instant
  sc_status :: checkpoint_status
  sc_cursor :: "string option"
  sc_watermark :: "string option"
  sc_run :: "uuid option"
  sc_run_ids :: "uuid list"
  sc_accepted :: int
  sc_rejected :: int
  sc_epoch :: int
  sc_owner :: "uuid option"

type_synonym checkpoint_key = "date \<times> string"

definition checkpoint_key :: "checkpoint \<Rightarrow> checkpoint_key" where
  "checkpoint_key r = (sc_date r, sc_task r)"

definition checkpoint_done :: "checkpoint \<Rightarrow> bool" where
  "checkpoint_done r \<longleftrightarrow> sc_status r = Completed"

text \<open>\<open>_scheduled_task_checkpoint\<close>: the stored run ids must be distinct.\<close>

definition read_checkpoint :: "checkpoint \<Rightarrow> exn + checkpoint" where
  "read_checkpoint r = (if distinct (sc_run_ids r) then Inr r else Inl RuntimeError)"

definition new_checkpoint :: "date \<Rightarrow> string \<Rightarrow> string \<Rightarrow> dataset \<Rightarrow> string \<Rightarrow> instant \<Rightarrow> uuid \<Rightarrow> checkpoint" where
  "new_checkpoint d task role ds reg as_of owner = \<lparr>sc_date = d, sc_task = task, sc_role = role, sc_dataset = ds, sc_region = reg,
     sc_as_of = as_of, sc_status = Active, sc_cursor = None, sc_watermark = None, sc_run = None, sc_run_ids = [], sc_accepted = 0,
     sc_rejected = 0, sc_epoch = 1, sc_owner = Some owner\<rparr>"

definition claim_checkpoint :: "uuid \<Rightarrow> checkpoint \<Rightarrow> checkpoint" where
  "claim_checkpoint owner r = r\<lparr>sc_epoch := sc_epoch r + 1, sc_owner := Some owner\<rparr>"

text \<open>\<open>INSERT ... ON CONFLICT DO UPDATE ... WHERE status = 'active'\<close>, then the row as it stands.\<close>

definition upsert_checkpoint :: "checkpoint \<Rightarrow> uuid \<Rightarrow> checkpoint list \<Rightarrow> checkpoint list" where
  "upsert_checkpoint new owner t =
     (if \<exists>r \<in> set t. checkpoint_key r = checkpoint_key new
      then snd (update_where (\<lambda>r. checkpoint_key r = checkpoint_key new \<and> \<not> checkpoint_done r) (claim_checkpoint owner) t)
      else t @ [new])"

definition begin_or_load :: "date \<Rightarrow> string \<Rightarrow> string \<Rightarrow> dataset \<Rightarrow> string \<Rightarrow> instant \<Rightarrow> uuid \<Rightarrow> (checkpoint list, checkpoint) act" where
  "begin_or_load d task role ds reg as_of owner = transaction (\<lambda>t.
     let t' = upsert_checkpoint (new_checkpoint d task role ds reg as_of owner) owner t in
     case select_one (\<lambda>r. checkpoint_key r = (d, task)) t' of
       None \<Rightarrow> (Inl RuntimeError, t')
     | Some r \<Rightarrow> if sc_role r \<noteq> role \<or> sc_dataset r \<noteq> ds \<or> sc_region r \<noteq> reg then (Inl ValueError, t')
         else (read_checkpoint r, t'))"

record page_progress =
  pp_run :: uuid
  pp_cursor :: "string option"
  pp_watermark :: "string option"
  pp_accepted :: int
  pp_rejected :: int

definition add_run :: "uuid \<Rightarrow> uuid list \<Rightarrow> uuid list" where
  "add_run i is = (if i \<in> set is then is else is @ [i])"

definition advance_row :: "checkpoint \<Rightarrow> page_progress \<Rightarrow> checkpoint \<Rightarrow> checkpoint" where
  "advance_row c p r = r\<lparr>sc_status := if pp_cursor p = None then Completed else Active, sc_run := Some (pp_run p),
     sc_run_ids := add_run (pp_run p) (sc_run_ids c), sc_cursor := pp_cursor p, sc_watermark := pp_watermark p,
     sc_accepted := sc_accepted r + pp_accepted p, sc_rejected := sc_rejected r + pp_rejected p\<rparr>"

definition fenced :: "checkpoint \<Rightarrow> checkpoint \<Rightarrow> bool" where
  "fenced c r \<longleftrightarrow> \<not> checkpoint_done r \<and> sc_epoch r = sc_epoch c \<and> sc_owner r = sc_owner c"

definition advance :: "checkpoint \<Rightarrow> page_progress \<Rightarrow> (checkpoint list, checkpoint) act" where
  "advance c p t =
     (if checkpoint_done c then (Inl ValueError, t)
      else case update_where (\<lambda>r. checkpoint_key r = checkpoint_key c \<and> fenced c r) (advance_row c p) t of
        (ok, t') \<Rightarrow> (case if ok then select_one (\<lambda>r. checkpoint_key r = checkpoint_key c) t' else None of
            None \<Rightarrow> (Inl RuntimeError, t)
          | Some r \<Rightarrow> (case read_checkpoint r of Inl e \<Rightarrow> (Inl e, t) | Inr r \<Rightarrow> (Inr r, t'))))"

section \<open>Checkpoint statements as a machine\<close>

datatype checkpoint_op =
    Begin date string string dataset string instant uuid
  | Advance checkpoint page_progress

fun checkpoint_exec :: "checkpoint_op \<Rightarrow> checkpoint list \<Rightarrow> checkpoint_key keyed_grant option \<times> checkpoint list" where
  "checkpoint_exec (Begin d task role ds reg as_of owner) t = (case begin_or_load d task role ds reg as_of owner t of
     (Inl e, t') \<Rightarrow> (None, t')
   | (Inr r, t') \<Rightarrow> (if checkpoint_done r then None else Some ((d, task), sc_epoch r), t'))"
| "checkpoint_exec (Advance c p) t = (None, snd (advance c p t))"

interpretation sc_rows: numbered_rows checkpoint_key sc_epoch checkpoint_done .

lemma select_checkpoint: "select_one (\<lambda>r. checkpoint_key r = k) t = sc_rows.lookup t k"
  by (simp add: select_one_def sc_rows.lookup_def)

lemma claim_checkpoint_simps [simp]: "checkpoint_key (claim_checkpoint o' r) = checkpoint_key r"
  "sc_epoch (claim_checkpoint o' r) = sc_epoch r + 1" "checkpoint_done (claim_checkpoint o' r) = checkpoint_done r"
  by (simp_all add: claim_checkpoint_def checkpoint_key_def checkpoint_done_def)

lemma advance_row_simps [simp]: "checkpoint_key (advance_row c p r) = checkpoint_key r" "sc_epoch (advance_row c p r) = sc_epoch r"
  by (simp_all add: advance_row_def checkpoint_key_def)

text \<open>What the upsert does: it appends a new row, claims an active one, or finds a completed one.\<close>

lemma upsert_cases:
  assumes d: "sc_rows.keys_distinct t"
  obtains (new) "sc_rows.lookup t (checkpoint_key n) = None" "upsert_checkpoint n owner t = t @ [n]"
      "sc_rows.lookup (t @ [n]) (checkpoint_key n) = Some n"
  | (claimed) r where "sc_rows.lookup t (checkpoint_key n) = Some r" "\<not> checkpoint_done r"
      "upsert_checkpoint n owner t = map (\<lambda>x. if checkpoint_key x = checkpoint_key n \<and> \<not> checkpoint_done x then claim_checkpoint owner x else x) t"
      "sc_rows.lookup (upsert_checkpoint n owner t) (checkpoint_key n) = Some (claim_checkpoint owner r)"
  | (finished) r where "sc_rows.lookup t (checkpoint_key n) = Some r" "checkpoint_done r" "upsert_checkpoint n owner t = t"
proof (cases "sc_rows.lookup t (checkpoint_key n)")
  case None
  then have "\<not> (\<exists>r \<in> set t. checkpoint_key r = checkpoint_key n)"
    unfolding sc_rows.lookup_None by (metis image_eqI)
  then show thesis using new None by (simp add: upsert_checkpoint_def sc_rows.lookup_append)
next
  case (Some r)
  have mem: "\<exists>r \<in> set t. checkpoint_key r = checkpoint_key n" using sc_rows.lookup_Some [OF Some] by blast
  obtain ok t' where u: "update_where (\<lambda>r. checkpoint_key r = checkpoint_key n \<and> \<not> checkpoint_done r) (claim_checkpoint owner) t = (ok, t')"
    by fastforce
  have t': "upsert_checkpoint n owner t = t'" using u mem by (simp add: upsert_checkpoint_def)
  note upd = sc_rows.update_one [OF claim_checkpoint_simps(1) d u]
  show thesis
  proof (cases "checkpoint_done r")
    case True
    then have "\<not> ok" using upd(1) Some by simp
    then show thesis using finished Some True t' upd(5) by simp
  next
    case False
    then have ok: ok using upd(1) Some by blast
    have "t' = map (\<lambda>x. if checkpoint_key x = checkpoint_key n \<and> \<not> checkpoint_done x then claim_checkpoint owner x else x) t"
      using u by (simp add: update_where_def)
    then show thesis using claimed Some False t' upd(2) ok by simp
  qed
qed

lemma new_checkpoint_key [simp]: "checkpoint_key (new_checkpoint d task role ds reg as_of owner) = (d, task)"
  by (simp add: new_checkpoint_def checkpoint_key_def)

text \<open>The outcomes of a begin: a refusal that changes nothing, or the row as the upsert left it.\<close>

lemma begin_cases:
  assumes "begin_or_load d task role ds reg as_of owner t = (x, t')"
  obtains (refused) e where "x = Inl e" "t' = t"
  | (loaded) r where "x = Inr r" "t' = upsert_checkpoint (new_checkpoint d task role ds reg as_of owner) owner t"
      "sc_rows.lookup t' (d, task) = Some r" "sc_role r = role" "sc_dataset r = ds" "sc_region r = reg" "distinct (sc_run_ids r)"
  using assms
  by (auto simp: begin_or_load_def transaction_def Let_def select_checkpoint read_checkpoint_def split: option.splits if_splits sum.splits)

lemma checkpoint_row_change:
  assumes d: "sc_rows.keys_distinct t" and ex: "checkpoint_exec x t = (g, t')"
  shows "sc_rows.row_change t g t'"
proof (cases x)
  case (Begin d' task role ds reg as_of owner)
  define n where "n = new_checkpoint d' task role ds reg as_of owner"
  have key: "checkpoint_key n = (d', task)" by (simp add: n_def)
  obtain y t1 where b: "begin_or_load d' task role ds reg as_of owner t = (y, t1)" by fastforce
  have ex': "g = (case y of Inl e \<Rightarrow> None | Inr r \<Rightarrow> if checkpoint_done r then None else Some ((d', task), sc_epoch r))" "t' = t1"
    using ex b Begin by (auto split: sum.splits)
  show ?thesis
  proof (rule begin_cases [OF b])
    fix e assume "y = Inl e" "t1 = t"
    then show ?thesis using ex' sc_rows.row_change.unchanged by simp
  next
    fix r assume y: "y = Inr r" and t1: "t1 = upsert_checkpoint (new_checkpoint d' task role ds reg as_of owner) owner t"
      and l: "sc_rows.lookup t1 (d', task) = Some r"
    note t1 = t1 [folded n_def]
    show ?thesis
    proof (rule upsert_cases [OF d, of n owner])
      assume a: "sc_rows.lookup t (checkpoint_key n) = None" "upsert_checkpoint n owner t = t @ [n]"
        "sc_rows.lookup (t @ [n]) (checkpoint_key n) = Some n"
      have "\<not> checkpoint_done n" "r = n" using a(2,3) l t1 key by (auto simp: n_def new_checkpoint_def checkpoint_done_def)
      then show ?thesis using sc_rows.row_change.appended [of n t] a ex' t1 y key by (simp add: sc_rows.lookup_None)
    next
      fix r0 assume a: "sc_rows.lookup t (checkpoint_key n) = Some r0" "\<not> checkpoint_done r0"
        "upsert_checkpoint n owner t = map (\<lambda>x. if checkpoint_key x = checkpoint_key n \<and> \<not> checkpoint_done x then claim_checkpoint owner x else x) t"
        "sc_rows.lookup (upsert_checkpoint n owner t) (checkpoint_key n) = Some (claim_checkpoint owner r0)"
      have "r = claim_checkpoint owner r0" using a(4) l t1 key by simp
      then show ?thesis
        using sc_rows.row_change.resumed [OF a(1), where q = "\<lambda>x. \<not> checkpoint_done x" and f = "claim_checkpoint owner", OF a(2)]
          a(2,3) ex' t1 y key by simp
    next
      fix r0 assume a: "sc_rows.lookup t (checkpoint_key n) = Some r0" "checkpoint_done r0" "upsert_checkpoint n owner t = t"
      then have "r = r0" using l t1 key by simp
      then show ?thesis using a ex' t1 y sc_rows.row_change.unchanged by simp
    qed
  qed
next
  case (Advance c p)
  obtain ok t1 where u: "update_where (\<lambda>r. checkpoint_key r = checkpoint_key c \<and> fenced c r) (advance_row c p) t = (ok, t1)" by fastforce
  have "t' = t \<or> t' = t1" "g = None" using ex Advance u
    by (auto simp: advance_def split: option.splits sum.splits if_splits)
  moreover have "t1 = map (\<lambda>r. if checkpoint_key r = checkpoint_key c \<and> fenced c r then advance_row c p r else r) t"
    using u by (simp add: update_where_def)
  moreover have "sc_rows.row_change t None (map (\<lambda>r. if checkpoint_key r = checkpoint_key c \<and> fenced c r then advance_row c p r else r) t)"
    by (intro sc_rows.row_change.settled) (auto simp: fenced_def)
  ultimately show ?thesis using sc_rows.row_change.unchanged by auto
qed

interpretation sc: numbered_statements checkpoint_key sc_epoch checkpoint_done checkpoint_exec
  by unfold_locales (rule checkpoint_row_change)

section \<open>Tasks\<close>

datatype task_status = Task_succeeded | Task_failed | Task_retryable

record task_result =
  tr_task :: string
  tr_role :: string
  tr_status :: task_status
  tr_dataset :: "dataset option"
  tr_region :: "region option"
  tr_count :: int
  tr_rejected :: int
  tr_attempt :: int
  tr_run :: "uuid option"
  tr_runs :: "uuid list"
  tr_error :: "string option"

text \<open>\<open>evidence_run_ids\<close>.\<close>

definition evidence_run_ids :: "task_result \<Rightarrow> uuid list" where
  "evidence_run_ids r = dedup (tr_runs r @ (case tr_run r of None \<Rightarrow> [] | Some i \<Rightarrow> [i]))"

record 'e task_world =
  tw_rows :: "checkpoint list"
  tw_exec :: 'e
  tw_steps :: nat
  tw_claims :: nat
  tw_log :: "(ingest_request \<times> (exn + ingest_result)) list"

record 'e checkpointed_task =
  ct_id :: string
  ct_required :: bool
  ct_role :: string
  ct_dataset :: dataset
  ct_region :: region
  ct_execute :: "ingest_request \<Rightarrow> ('e, ingest_result) act"
  ct_factory :: "date \<Rightarrow> instant \<Rightarrow> string option \<Rightarrow> exn + ingest_request"
  ct_now :: "nat \<Rightarrow> instant"
  ct_owner :: "nat \<Rightarrow> uuid"
  ct_lead :: int
  ct_env :: "nat \<Rightarrow> checkpoint list \<Rightarrow> checkpoint list"

definition make_checkpointed_task :: "'e checkpointed_task \<Rightarrow> exn + 'e checkpointed_task" where
  "make_checkpointed_task c = (if strip (ct_id c) = [] \<or> strip (ct_role c) = [] then Inl ValueError
     else if ct_lead c \<le> 0 then Inl ValueError else Inr c)"

text \<open>Each call of the checkpoint store is a transaction of its own; before it others may write.\<close>

definition store_call :: "'e checkpointed_task \<Rightarrow> (checkpoint list, 'a) act \<Rightarrow> ('e task_world, 'a) act" where
  "store_call c m w = (case transaction m (ct_env c (tw_steps w) (tw_rows w)) of
     (r, t) \<Rightarrow> (r, w\<lparr>tw_rows := t, tw_steps := tw_steps w + 1\<rparr>))"

definition claim_task :: "'e checkpointed_task \<Rightarrow> date \<Rightarrow> ('e task_world, checkpoint) act" where
  "claim_task c d w = store_call c (begin_or_load d (ct_id c) (ct_role c) (ct_dataset c) (region_value (ct_region c))
     (ct_now c (tw_claims w) + ct_lead c) (ct_owner c (tw_claims w))) (w\<lparr>tw_claims := tw_claims w + 1\<rparr>)"

definition execute_page :: "'e checkpointed_task \<Rightarrow> ingest_request \<Rightarrow> ('e task_world, ingest_result) act" where
  "execute_page c q w = (case ct_execute c q (tw_exec w) of (r, e) \<Rightarrow> (r, w\<lparr>tw_exec := e, tw_log := tw_log w @ [(q, r)]\<rparr>))"

definition result_from_checkpoint :: "checkpoint \<Rightarrow> exn + task_result" where
  "result_from_checkpoint r = (case sc_run r of
     None \<Rightarrow> Inl RuntimeError
   | Some i \<Rightarrow> bindE (region_of (sc_region r)) (\<lambda>reg. Inr \<lparr>tr_task = sc_task r, tr_role = sc_role r, tr_status = Task_succeeded,
       tr_dataset = Some (sc_dataset r), tr_region = Some reg, tr_count = sc_accepted r, tr_rejected = sc_rejected r, tr_attempt = 1,
       tr_run = Some i, tr_runs = sc_run_ids r, tr_error = None\<rparr>))"

definition unfinished :: "'e checkpointed_task \<Rightarrow> task_status \<Rightarrow> uuid option \<Rightarrow> string option \<Rightarrow> task_result" where
  "unfinished c st i code = \<lparr>tr_task = ct_id c, tr_role = ct_role c, tr_status = st, tr_dataset = Some (ct_dataset c),
     tr_region = Some (ct_region c), tr_count = 0, tr_rejected = 0, tr_attempt = 1, tr_run = i, tr_runs = [], tr_error = code\<rparr>"

definition progress_of :: "ingest_result \<Rightarrow> page_progress" where
  "progress_of r = \<lparr>pp_run = ir_run r, pp_cursor = ir_cursor r, pp_watermark = ir_watermark r, pp_accepted = ir_accepted r,
     pp_rejected = ir_rejected r\<rparr>"

text \<open>What follows an executed page: the end of the task, or the next page.\<close>

definition after_page :: "'e checkpointed_task \<Rightarrow> checkpoint \<Rightarrow> ingest_result \<Rightarrow> ('e task_world, (task_result, checkpoint) loop_step) act" where
  "after_page c cp res =
     (if ir_role res \<noteq> ct_role c \<or> ir_dataset res \<noteq> ct_dataset c then throw ValueError
      else if ir_status res = Run_retry_wait then ret (Finished (unfinished c Task_retryable (Some (ir_run res)) (ir_error res)))
      else if ir_status res = Run_failed then ret (Finished (unfinished c Task_failed (Some (ir_run res)) (ir_error res)))
      else bindA (store_call c (advance cp (progress_of res))) (\<lambda>cp'.
        if checkpoint_done cp' then bindA (liftA (result_from_checkpoint cp')) (\<lambda>r. ret (Finished r)) else ret (Again cp')))"

definition page_step :: "'e checkpointed_task \<Rightarrow> date \<Rightarrow> checkpoint \<Rightarrow> ('e task_world, (task_result, checkpoint) loop_step) act" where
  "page_step c d cp = bindA (liftA (ct_factory c d (sc_as_of cp) (sc_cursor cp))) (\<lambda>q.
     tryA (execute_page c q)
       (\<lambda>e. case e of
           ProviderError name code retryable \<Rightarrow> ret (Finished (unfinished c (if retryable then Task_retryable else Task_failed) None (Some code)))
         | _ \<Rightarrow> throw e)
       (after_page c cp))"

definition run_checkpointed_task :: "'e checkpointed_task \<Rightarrow> date \<Rightarrow> ('e task_world, task_result) loop_act" where
  "run_checkpointed_task c d = bindO (runO (claim_task c d)) (\<lambda>cp.
     if checkpoint_done cp then runO (liftA (result_from_checkpoint cp)) else repeatA (page_step c d) cp)"

section \<open>Fencing\<close>

lemma advance_stale:
  assumes d: "sc_rows.keys_distinct t" and l: "sc_rows.lookup t (checkpoint_key c) = Some r" and "sc_epoch c < sc_epoch r"
  shows "\<exists>e. advance c p t = (Inl e, t)"
proof -
  have "\<not> (checkpoint_key x = checkpoint_key c \<and> fenced c x)" if "x \<in> set t" for x
    using sc_rows.lookup_mem [OF d that] l assms(3) by (auto simp: fenced_def)
  then have "update_where (\<lambda>x. checkpoint_key x = checkpoint_key c \<and> fenced c x) (advance_row c p) t = (False, t)"
    by (intro update_none) blast
  then show ?thesis by (simp add: advance_def)
qed

text \<open>C24: Whatever claims and advances any number of workers execute in whatever order, no epoch of a task's checkpoint is granted
  twice, a completed checkpoint never changes and is never granted again, and a worker whose epoch is older than a granted one
  cannot advance: its advance raises and leaves the table.\<close>

theorem checkpoint_claims_are_fenced:
  assumes "distinct (map checkpoint_key t)" "run_ops checkpoint_exec xs t = (gs, t')"
  shows "distinct gs
    \<and> (\<forall>k r. select_one (\<lambda>r. checkpoint_key r = k) t = Some r \<and> sc_status r = Completed
        \<longrightarrow> select_one (\<lambda>r. checkpoint_key r = k) t' = Some r \<and> (\<forall>n. (k, n) \<notin> set gs))
    \<and> (\<forall>c p n. (checkpoint_key c, n) \<in> set gs \<and> sc_epoch c < n \<longrightarrow> (\<exists>e. advance c p t' = (Inl e, t')))"
proof -
  have d: "sc_rows.keys_distinct t" using assms(1) by (simp add: sc_rows.keys_distinct_def)
  have "\<exists>e. advance c p t' = (Inl e, t')" if g: "(checkpoint_key c, n) \<in> set gs" "sc_epoch c < n" for c p n
  proof -
    obtain r where "sc_rows.lookup t' (checkpoint_key c) = Some r" "n \<le> sc_epoch r"
      using sc.run_grants_below [OF d assms(2) g(1)] by blast
    then show ?thesis using advance_stale [OF sc.run_distinct [OF d assms(2)]] g(2) by fastforce
  qed
  moreover have "select_one (\<lambda>r. checkpoint_key r = k) t' = Some r \<and> (\<forall>n. (k, n) \<notin> set gs)"
    if "select_one (\<lambda>r. checkpoint_key r = k) t = Some r \<and> sc_status r = Completed" for k r
    using sc.run_final [OF d assms(2)] that by (simp add: select_checkpoint checkpoint_done_def)
  ultimately show ?thesis using sc.run_grants_distinct [OF d assms(2)] by blast
qed

section \<open>Pages across restarts\<close>

text \<open>
  A task of one date as its workers run it, one at a time: at any moment a new worker may begin (the
  old one having returned, raised or died), a worker that holds a checkpoint runs its next page, and a
  page may end the worker. The third component is the checkpoint the live worker holds.
\<close>

inductive session :: "'e checkpointed_task \<Rightarrow> date \<Rightarrow> 'e task_world \<Rightarrow> 'e task_world \<Rightarrow> checkpoint option \<Rightarrow> bool"
  for c d w0 where
  start: "session c d w0 w0 None"
| claim: "session c d w0 w x \<Longrightarrow> claim_task c d w = (Inr cp, w') \<Longrightarrow> session c d w0 w' (Some cp)"
| refused: "session c d w0 w x \<Longrightarrow> claim_task c d w = (Inl e, w') \<Longrightarrow> session c d w0 w' None"
| page: "session c d w0 w (Some cp) \<Longrightarrow> \<not> checkpoint_done cp \<Longrightarrow> page_step c d cp w = (Inr (Again cp'), w') \<Longrightarrow> session c d w0 w' (Some cp')"
| stop: "session c d w0 w (Some cp) \<Longrightarrow> \<not> checkpoint_done cp \<Longrightarrow> page_step c d cp w = (s, w') \<Longrightarrow> \<forall>b. s \<noteq> Inr (Again b)
    \<Longrightarrow> session c d w0 w' None"

definition alone_task :: "'e checkpointed_task \<Rightarrow> bool" where
  "alone_task c \<longleftrightarrow> (\<forall>k t. ct_env c k t = t)"

text \<open>The pages of a log that were accepted, the cursor after them and the runs they came from.\<close>

definition accepted_page :: "'e checkpointed_task \<Rightarrow> ingest_request \<times> (exn + ingest_result) \<Rightarrow> ingest_result option" where
  "accepted_page c x = (case snd x of
     Inr r \<Rightarrow> if ir_role r = ct_role c \<and> ir_dataset r = ct_dataset c \<and> ir_status r \<notin> {Run_retry_wait, Run_failed} then Some r else None
   | Inl _ \<Rightarrow> None)"

definition pages :: "'e checkpointed_task \<Rightarrow> (ingest_request \<times> (exn + ingest_result)) list \<Rightarrow> ingest_result list" where
  "pages c = List.map_filter (accepted_page c)"

definition cursor_after :: "ingest_result list \<Rightarrow> string option" where
  "cursor_after ps = (if ps = [] then None else ir_cursor (last ps))"

definition runs_of :: "ingest_result list \<Rightarrow> uuid list" where
  "runs_of ps = fold (\<lambda>p. add_run (ir_run p)) ps []"

text \<open>The row of a task after some pages, for a given \<open>as_of\<close>.\<close>

definition row_after :: "'e checkpointed_task \<Rightarrow> date \<Rightarrow> instant \<Rightarrow> ingest_result list \<Rightarrow> checkpoint \<Rightarrow> bool" where
  "row_after c d as_of ps r \<longleftrightarrow> checkpoint_key r = (d, ct_id c) \<and> sc_role r = ct_role c \<and> sc_dataset r = ct_dataset c
     \<and> sc_region r = region_value (ct_region c) \<and> sc_as_of r = as_of
     \<and> sc_status r = (if ps \<noteq> [] \<and> ir_cursor (last ps) = None then Completed else Active) \<and> sc_cursor r = cursor_after ps
     \<and> sc_run r = (if ps = [] then None else Some (ir_run (last ps))) \<and> sc_run_ids r = runs_of ps
     \<and> sc_accepted r = sum_list (map ir_accepted ps) \<and> sc_rejected r = sum_list (map ir_rejected ps)"

definition chained :: "'e checkpointed_task \<Rightarrow> date \<Rightarrow> instant \<Rightarrow> (ingest_request \<times> (exn + ingest_result)) list \<Rightarrow> bool" where
  "chained c d as_of log \<longleftrightarrow> (\<forall>k < length log. ct_factory c d as_of (cursor_after (pages c (take k log))) = Inr (fst (log ! k)))"

lemma runs_of_snoc: "runs_of (ps @ [p]) = add_run (ir_run p) (runs_of ps)"
  by (simp add: runs_of_def)

lemma distinct_runs_of: "distinct (runs_of ps)"
  by (induction ps rule: rev_induct) (auto simp: runs_of_snoc add_run_def runs_of_def)

lemma pages_snoc: "pages c (log @ [x]) = pages c log @ (case accepted_page c x of None \<Rightarrow> [] | Some r \<Rightarrow> [r])"
  by (simp add: pages_def map_filter_def split: option.split)

lemma chained_snoc:
  "chained c d as_of (log @ [x]) \<longleftrightarrow> chained c d as_of log \<and> ct_factory c d as_of (cursor_after (pages c log)) = Inr (fst x)"
  by (auto simp: chained_def less_Suc_eq nth_append)

text \<open>
  The invariant: the table has at most the row of the task that its pages have made, and the live
  worker holds exactly that row unless the row has been completed.
\<close>

definition session_ok :: "'e checkpointed_task \<Rightarrow> date \<Rightarrow> 'e task_world \<Rightarrow> checkpoint option \<Rightarrow> bool" where
  "session_ok c d w x \<longleftrightarrow> sc_rows.keys_distinct (tw_rows w) \<and>
     (case sc_rows.lookup (tw_rows w) (d, ct_id c) of
        None \<Rightarrow> tw_log w = [] \<and> x = None
      | Some r \<Rightarrow> row_after c d (sc_as_of r) (pages c (tw_log w)) r \<and> chained c d (sc_as_of r) (tw_log w) \<and> (\<forall>cp. x = Some cp \<longrightarrow> cp = r))"

lemma store_call_alone: "alone_task c \<Longrightarrow> store_call c m w = (case transaction m (tw_rows w) of
     (r, t) \<Rightarrow> (r, w\<lparr>tw_rows := t, tw_steps := tw_steps w + 1\<rparr>))"
  by (simp add: store_call_def alone_task_def)

lemma row_after_key: "row_after c d as_of ps r \<Longrightarrow> checkpoint_key r = (d, ct_id c)"
  by (simp add: row_after_def)

lemma claim_ok:
  assumes a: "alone_task c" and ok: "session_ok c d w x" and run: "claim_task c d w = (y, w')"
  shows "session_ok c d w' (case y of Inl _ \<Rightarrow> None | Inr cp \<Rightarrow> Some cp) \<and> tw_log w' = tw_log w"
proof -
  define n where "n = new_checkpoint d (ct_id c) (ct_role c) (ct_dataset c) (region_value (ct_region c)) (ct_now c (tw_claims w) + ct_lead c) (ct_owner c (tw_claims w))"
  define o' where "o' = ct_owner c (tw_claims w)"
  have key: "checkpoint_key n = (d, ct_id c)" by (simp add: n_def)
  have dist: "sc_rows.keys_distinct (tw_rows w)" using ok by (simp add: session_ok_def)
  obtain z t where b: "begin_or_load d (ct_id c) (ct_role c) (ct_dataset c) (region_value (ct_region c)) (ct_now c (tw_claims w) + ct_lead c) o' (tw_rows w) = (z, t)"
    by fastforce
  have tr: "transaction (begin_or_load d (ct_id c) (ct_role c) (ct_dataset c) (region_value (ct_region c)) (ct_now c (tw_claims w) + ct_lead c) o') (tw_rows w) = (z, t)"
    using b by (auto simp: transaction_def begin_or_load_def split: prod.splits sum.splits)
  have w': "y = z" "tw_rows w' = t" "tw_log w' = tw_log w"
    using run tr by (auto simp: claim_task_def store_call_alone [OF a] o'_def)
  show ?thesis
  proof (rule begin_cases [OF b])
    fix e assume "z = Inl e" "t = tw_rows w"
    then show ?thesis using ok w' by (auto simp: session_ok_def split: option.splits)
  next
    fix r assume z: "z = Inr r" and t: "t = upsert_checkpoint (new_checkpoint d (ct_id c) (ct_role c) (ct_dataset c) (region_value (ct_region c)) (ct_now c (tw_claims w) + ct_lead c) o') o' (tw_rows w)"
      and l: "sc_rows.lookup t (d, ct_id c) = Some r"
    have t: "t = upsert_checkpoint n o' (tw_rows w)" using t by (simp add: n_def o'_def)
    show ?thesis
    proof (rule upsert_cases [OF dist, of n o'])
      assume u: "sc_rows.lookup (tw_rows w) (checkpoint_key n) = None" "upsert_checkpoint n o' (tw_rows w) = tw_rows w @ [n]"
        "sc_rows.lookup (tw_rows w @ [n]) (checkpoint_key n) = Some n"
      have "r = n" "tw_log w = []" using u l t key ok by (auto simp: session_ok_def)
      moreover have "sc_rows.keys_distinct t" using u t dist sc_rows.keys_distinct_append by (simp add: sc_rows.lookup_None)
      moreover have "row_after c d (sc_as_of n) [] n"
        by (simp add: row_after_def n_def new_checkpoint_def checkpoint_key_def cursor_after_def runs_of_def)
      ultimately show ?thesis using z w' l by (simp add: session_ok_def pages_def map_filter_def chained_def)
    next
      fix r0 assume u: "sc_rows.lookup (tw_rows w) (checkpoint_key n) = Some r0" "\<not> checkpoint_done r0"
        "upsert_checkpoint n o' (tw_rows w) = map (\<lambda>x. if checkpoint_key x = checkpoint_key n \<and> \<not> checkpoint_done x then claim_checkpoint o' x else x) (tw_rows w)"
        "sc_rows.lookup (upsert_checkpoint n o' (tw_rows w)) (checkpoint_key n) = Some (claim_checkpoint o' r0)"
      have r: "r = claim_checkpoint o' r0" using u(4) l t key by simp
      have "sc_rows.keys_distinct t" unfolding t u(3) by (rule sc_rows.keys_distinct_update) (auto simp: dist)
      moreover have "row_after c d (sc_as_of r0) (pages c (tw_log w)) r" "chained c d (sc_as_of r0) (tw_log w)"
        using ok u(1) key r by (auto simp: session_ok_def row_after_def claim_checkpoint_def checkpoint_key_def)
      moreover have "sc_as_of r = sc_as_of r0" by (simp add: r claim_checkpoint_def)
      ultimately show ?thesis using z w' l by (simp add: session_ok_def)
    next
      fix r0 assume u: "sc_rows.lookup (tw_rows w) (checkpoint_key n) = Some r0" "upsert_checkpoint n o' (tw_rows w) = tw_rows w"
      then have "r = r0" "t = tw_rows w" using l t key by simp_all
      then show ?thesis using ok z w' l by (simp add: session_ok_def)
    qed
  qed
qed

lemma advance_held:
  assumes d: "sc_rows.keys_distinct t" and l: "sc_rows.lookup t (checkpoint_key c) = Some c" and n: "\<not> checkpoint_done c"
    and dist: "distinct (sc_run_ids c)"
  shows "\<exists>t'. advance c p t = (Inr (advance_row c p c), t') \<and> sc_rows.keys_distinct t'
    \<and> sc_rows.lookup t' (checkpoint_key c) = Some (advance_row c p c)"
proof -
  obtain ok t' where u: "update_where (\<lambda>r. checkpoint_key r = checkpoint_key c \<and> fenced c r) (advance_row c p) t = (ok, t')" by fastforce
  note upd = sc_rows.update_one [OF advance_row_simps(1) d u]
  have "fenced c c" using n by (simp add: fenced_def)
  then have ok: ok using upd(1) l by blast
  have row: "sc_rows.lookup t' (checkpoint_key c) = Some (advance_row c p c)" using upd(2) ok l by simp
  have "distinct (sc_run_ids (advance_row c p c))" using dist by (simp add: advance_row_def add_run_def)
  then have "advance c p t = (Inr (advance_row c p c), t')"
    using u ok n row by (simp add: advance_def select_checkpoint read_checkpoint_def)
  then show ?thesis using row upd(4) by blast
qed

lemma row_after_advance:
  assumes "row_after c d as_of ps r"
  shows "row_after c d as_of (ps @ [res]) (advance_row r (progress_of res) r)"
  using assms
  by (simp add: row_after_def advance_row_def progress_of_def checkpoint_key_def cursor_after_def runs_of_snoc)

lemma page_ok:
  assumes a: "alone_task c" and ok: "session_ok c d w (Some cp)" and n: "\<not> checkpoint_done cp" and run: "page_step c d cp w = (s, w')"
  shows "session_ok c d w' (case s of Inr (Again cp') \<Rightarrow> Some cp' | _ \<Rightarrow> None)"
proof -
  define ps where "ps = pages c (tw_log w)"
  have l: "sc_rows.lookup (tw_rows w) (d, ct_id c) = Some cp" and row: "row_after c d (sc_as_of cp) ps cp"
    and ch: "chained c d (sc_as_of cp) (tw_log w)" and dist: "sc_rows.keys_distinct (tw_rows w)"
    using ok by (auto simp: session_ok_def ps_def split: option.splits)
  have cur: "sc_cursor cp = cursor_after ps" and key: "checkpoint_key cp = (d, ct_id c)" and ids: "distinct (sc_run_ids cp)"
    using row distinct_runs_of by (auto simp: row_after_def)
  have weaker: "session_ok c d v y \<Longrightarrow> session_ok c d v None" for v y by (auto simp: session_ok_def split: option.splits)
  show ?thesis
  proof (cases "ct_factory c d (sc_as_of cp) (sc_cursor cp)")
    case (Inl e)
    then show ?thesis using run ok weaker by (auto simp: page_step_def bindA_def)
  next
    case (Inr q)
    obtain r w1 where ex: "execute_page c q w = (r, w1)" by fastforce
    have w1: "tw_rows w1 = tw_rows w" "tw_log w1 = tw_log w @ [(q, r)]"
      using ex by (auto simp: execute_page_def split: prod.splits)
    have ch1: "chained c d (sc_as_of cp) (tw_log w1)" unfolding w1(2) chained_snoc using ch Inr cur by (simp add: ps_def)
    show ?thesis
    proof (cases "accepted_page c (q, r)")
      case None
      have pg: "pages c (tw_log w1) = ps" by (simp add: w1(2) pages_snoc None ps_def)
      have ok1: "session_ok c d w1 None" using l row ch1 dist pg w1(1) by (simp add: session_ok_def)
      have "w' = w1 \<and> (\<forall>b. s \<noteq> Inr (Again b))"
      proof (cases r)
        case (Inl e)
        then show ?thesis using run ex \<open>ct_factory c d (sc_as_of cp) (sc_cursor cp) = Inr q\<close>
          by (cases e) (auto simp: page_step_def bindA_def tryA_def)
      next
        case (Inr res)
        then show ?thesis using run ex None \<open>ct_factory c d (sc_as_of cp) (sc_cursor cp) = Inr q\<close>
          by (auto simp: page_step_def bindA_def tryA_def after_page_def accepted_page_def split: if_splits)
      qed
      then show ?thesis using ok1 by (auto split: sum.splits loop_step.splits)
    next
      case (Some res)
      have res: "r = Inr res" "ir_role res = ct_role c" "ir_dataset res = ct_dataset c" "ir_status res \<noteq> Run_retry_wait" "ir_status res \<noteq> Run_failed"
        using Some by (auto simp: accepted_page_def split: sum.splits if_splits)
      define p where "p = advance_row cp (progress_of res) cp"
      obtain t' where adv: "advance cp (progress_of res) (tw_rows w1) = (Inr p, t')" "sc_rows.keys_distinct t'"
        "sc_rows.lookup t' (checkpoint_key cp) = Some p"
        using advance_held [OF dist _ n ids, of "progress_of res"] l key w1(1) unfolding p_def by auto
      define w2 where "w2 = w1\<lparr>tw_rows := t', tw_steps := tw_steps w1 + 1\<rparr>"
      have st: "store_call c (advance cp (progress_of res)) w1 = (Inr p, w2)"
        using adv(1) by (simp add: store_call_alone [OF a] transaction_def w2_def)
      have pg: "pages c (tw_log w2) = ps @ [res]" by (simp add: w2_def w1(2) pages_snoc Some ps_def)
      have "row_after c d (sc_as_of cp) (ps @ [res]) p" unfolding p_def by (rule row_after_advance [OF row])
      moreover have "sc_as_of p = sc_as_of cp" by (simp add: p_def advance_row_def)
      ultimately have ok2: "session_ok c d w2 (Some p)"
        using adv(2,3) ch1 pg key by (simp add: session_ok_def w2_def)
      have "w' = w2 \<and> (\<forall>b. s = Inr (Again b) \<longrightarrow> b = p)"
        using run ex st res Inr by (auto simp: page_step_def bindA_def tryA_def after_page_def split: if_splits sum.splits)
      then show ?thesis using ok2 weaker by (auto split: sum.splits loop_step.splits)
    qed
  qed
qed

lemma session_invariant:
  assumes "session c d w0 w x" and a: "alone_task c" and ok: "session_ok c d w0 None"
  shows "session_ok c d w x"
  using assms(1)
proof (induction rule: session.induct)
  case start
  then show ?case by (rule ok)
next
  case (claim w x cp w')
  then show ?case using claim_ok [OF a claim(3) claim(2)] by simp
next
  case (refused w x e w')
  then show ?case using claim_ok [OF a refused(3) refused(2)] by simp
next
  case (page w cp cp' w')
  then show ?case using page_ok [OF a page(4) page(2,3)] by simp
next
  case (stop w cp s w')
  then show ?case using page_ok [OF a stop(5) stop(2,3)] by (auto split: sum.splits loop_step.splits)
qed

text \<open>C25: However often the workers of a task die or fail and new ones take over (one at a time), all pages of one report date are
  requested for one and the same \<open>as_of\<close>, the one of the first claim; each request continues from the cursor of the last accepted
  page before it, so no page is skipped; and the checkpoint holds exactly the sums of accepted and rejected records of the
  accepted pages and their runs, and is completed exactly when the last of them had no further cursor.\<close>

theorem scheduled_pages_chain:
  assumes "alone_task c" "session c d w0 w x" "tw_log w0 = []" "distinct (map checkpoint_key (tw_rows w0))"
    and "select_one (\<lambda>r. checkpoint_key r = (d, ct_id c)) (tw_rows w0) = None"
  shows "tw_log w = [] \<or> (\<exists>r. select_one (\<lambda>r. checkpoint_key r = (d, ct_id c)) (tw_rows w) = Some r
    \<and> (\<forall>k < length (tw_log w). ct_factory c d (sc_as_of r) (cursor_after (pages c (take k (tw_log w)))) = Inr (fst (tw_log w ! k)))
    \<and> row_after c d (sc_as_of r) (pages c (tw_log w)) r)"
proof -
  have "session_ok c d w0 None" using assms(3-5) by (simp add: session_ok_def select_checkpoint sc_rows.keys_distinct_def)
  from session_invariant [OF assms(2,1) this] show ?thesis
    by (auto simp: session_ok_def select_checkpoint chained_def split: option.splits)
qed

section \<open>The task ends\<close>

text \<open>Others keep the keys of the table distinct, as its primary key demands.\<close>

definition orderly :: "'e checkpointed_task \<Rightarrow> bool" where
  "orderly c \<longleftrightarrow> (\<forall>k t. distinct (map checkpoint_key t) \<longrightarrow> distinct (map checkpoint_key (ct_env c k t)))"

lemma advance_result:
  assumes d: "sc_rows.keys_distinct t" and run: "advance c p t = (x, t')"
  shows "sc_rows.keys_distinct t' \<and> (\<forall>r. x = Inr r \<longrightarrow> sc_cursor r = pp_cursor p \<and> (pp_cursor p = None \<longrightarrow> checkpoint_done r))"
proof (cases "checkpoint_done c")
  case True
  then show ?thesis using run d by (auto simp: advance_def)
next
  case False
  obtain ok t1 where u: "update_where (\<lambda>r. checkpoint_key r = checkpoint_key c \<and> fenced c r) (advance_row c p) t = (ok, t1)" by fastforce
  note upd = sc_rows.update_one [OF advance_row_simps(1) d u]
  have dist: "sc_rows.keys_distinct t'"
    using run u d upd(4) False by (auto simp: advance_def split: option.splits sum.splits if_splits)
  show ?thesis
  proof (cases ok)
    case True
    then obtain r where "sc_rows.lookup t (checkpoint_key c) = Some r" using upd(1) by blast
    then have "sc_rows.lookup t1 (checkpoint_key c) = Some (advance_row c p r)" using upd(2) True by simp
    then show ?thesis using run u False True dist
      by (auto simp: advance_def select_checkpoint read_checkpoint_def advance_row_def checkpoint_done_def split: if_splits)
  next
    case False
    then show ?thesis using run u dist \<open>\<not> checkpoint_done c\<close> by (auto simp: advance_def)
  qed
qed

lemma page_step_Again:
  assumes o: "orderly c" and d: "sc_rows.keys_distinct (tw_rows w)" and run: "page_step c d cp w = (Inr (Again cp'), w')"
  shows "sc_rows.keys_distinct (tw_rows w') \<and> (\<exists>q res. ct_factory c d (sc_as_of cp) (sc_cursor cp) = Inr q
    \<and> fst (ct_execute c q (tw_exec w)) = Inr res \<and> sc_cursor cp' = ir_cursor res \<and> ir_cursor res \<noteq> None)"
proof -
  obtain q where q: "ct_factory c d (sc_as_of cp) (sc_cursor cp) = Inr q"
    using run by (auto simp: page_step_def bindA_eq)
  obtain r w1 where ex: "execute_page c q w = (r, w1)" by fastforce
  have w1: "tw_rows w1 = tw_rows w" "fst (ct_execute c q (tw_exec w)) = r" using ex by (auto simp: execute_page_def split: prod.splits)
  obtain res where res: "r = Inr res"
    using run q ex by (cases r) (auto simp: page_step_def bindA_def tryA_def split: exn.splits)
  have "after_page c cp res w1 = (Inr (Again cp'), w')" using run q ex res by (simp add: page_step_def bindA_def tryA_def)
  then have st: "store_call c (advance cp (progress_of res)) w1 = (Inr cp', w')" "\<not> checkpoint_done cp'"
    by (auto simp: after_page_def bindA_eq split: if_splits)
  define t where "t = ct_env c (tw_steps w1) (tw_rows w1)"
  have dt: "sc_rows.keys_distinct t" using o d w1(1) by (simp add: t_def orderly_def sc_rows.keys_distinct_def)
  have "advance cp (progress_of res) t = (Inr cp', tw_rows w')"
    using st(1) by (auto simp: store_call_def t_def transaction_def split: prod.splits sum.splits)
  note adv = advance_result [OF dt this]
  then show ?thesis using q w1(2) res st(2) by (auto simp: progress_of_def)
qed

text \<open>C26: A task ends whatever other workers do, provided its source does: if some measure of the cursor decreases from each request
  to the next cursor of its result, then the run of the task returns a result or raises.\<close>

theorem scheduled_task_ends:
  fixes c :: "'a checkpointed_task"
  assumes "orderly c" "distinct (map checkpoint_key (tw_rows w))"
    and "\<And>as_of cursor q e res next. ct_factory c d as_of cursor = Inr q \<Longrightarrow> fst (ct_execute c q e) = Inr res
      \<Longrightarrow> ir_cursor res = Some next \<Longrightarrow> (m (Some next) :: nat) < m cursor"
  shows "\<exists>r w'. run_checkpointed_task c d w = Some (r, w')"
proof -
  have ends: "\<exists>r w'. repeatA (page_step c d) cp v = Some (r, w')" if v: "sc_rows.keys_distinct (tw_rows v)" for cp v
  proof (rule repeatA_returns [where I = "\<lambda>_ v. sc_rows.keys_distinct (tw_rows v)" and m = "\<lambda>cp _. m (sc_cursor cp)"])
    show "sc_rows.keys_distinct (tw_rows v)" by (rule v)
  next
    fix cp b and v v1 :: "'a task_world"
    assume kd: "sc_rows.keys_distinct (tw_rows v)" and st: "page_step c d cp v = (Inr (Again b), v1)"
    obtain q res where q: "ct_factory c d (sc_as_of cp) (sc_cursor cp) = Inr q" "fst (ct_execute c q (tw_exec v)) = Inr res"
      "sc_cursor b = ir_cursor res" "ir_cursor res \<noteq> None" and kd': "sc_rows.keys_distinct (tw_rows v1)"
      using page_step_Again [OF assms(1) kd st] by blast
    show "sc_rows.keys_distinct (tw_rows v1) \<and> m (sc_cursor b) < m (sc_cursor cp)"
      using kd' assms(3) [OF q(1,2)] q(3,4) by auto
  qed
  obtain y w1 where cl: "claim_task c d w = (y, w1)" by fastforce
  have "sc_rows.keys_distinct (tw_rows w1)"
  proof -
    define t where "t = ct_env c (tw_steps w) (tw_rows w)"
    have dt: "sc_rows.keys_distinct t" using assms(1,2) by (simp add: t_def orderly_def sc_rows.keys_distinct_def)
    define x where "x = Begin d (ct_id c) (ct_role c) (ct_dataset c) (region_value (ct_region c)) (ct_now c (tw_claims w) + ct_lead c) (ct_owner c (tw_claims w))"
    have "tw_rows w1 = snd (checkpoint_exec x t)"
      using cl by (auto simp: claim_task_def store_call_def t_def x_def transaction_def begin_or_load_def split: prod.splits sum.splits)
    then show ?thesis using sc.exec_distinct [OF dt] by (metis prod.collapse)
  qed
  then show ?thesis using cl ends by (cases y) (auto simp: run_checkpointed_task_def bindO_def runO_def)
qed

section \<open>Examples\<close>

text \<open>A source of two pages; the cursor of the second is a.\<close>

definition demo_pages :: "ingest_request \<Rightarrow> (nat, ingest_result) act" where
  "demo_pages q n = (Inr ((demo_result Run_succeeded)\<lparr>ir_run := (if iq_cursor q = None then ''r1'' else ''r2''),
     ir_cursor := (if iq_cursor q = None then Some ''a'' else None)\<rparr>), n + 1)"

definition demo_task :: "nat checkpointed_task" where
  "demo_task = \<lparr>ct_id = ''t'', ct_required = True, ct_role = ''cn.bars'', ct_dataset = Bars, ct_region = CN, ct_execute = demo_pages,
     ct_factory = (\<lambda>d as_of cursor. Inr (demo_request\<lparr>iq_as_of := as_of, iq_cursor := cursor\<rparr>)), ct_now = (\<lambda>k. int k), ct_owner = (\<lambda>k. ''o''),
     ct_lead = 100, ct_env = (\<lambda>k t. t)\<rparr>"

definition demo_task_world :: "nat task_world" where
  "demo_task_world = \<lparr>tw_rows = [], tw_exec = 0, tw_steps = 0, tw_claims = 0, tw_log = []\<rparr>"

theorem checkpoint_claims_are_fenced_witness:
  "\<exists>e. advance (new_checkpoint 1 ''t'' ''cn.bars'' Bars ''CN'' 5 ''o1'') (progress_of (demo_result Run_succeeded))
      [claim_checkpoint ''o2'' (new_checkpoint 1 ''t'' ''cn.bars'' Bars ''CN'' 5 ''o1'')]
    = (Inl e, [claim_checkpoint ''o2'' (new_checkpoint 1 ''t'' ''cn.bars'' Bars ''CN'' 5 ''o1'')])"
proof -
  let ?c = "new_checkpoint 1 ''t'' ''cn.bars'' Bars ''CN'' 5 ''o1''"
  have run: "run_ops checkpoint_exec [Begin 1 ''t'' ''cn.bars'' Bars ''CN'' 9 ''o2''] [?c] = ([((1, ''t''), 2)], [claim_checkpoint ''o2'' ?c])"
    by (simp add: begin_or_load_def transaction_def Let_def upsert_checkpoint_def update_where_def select_one_def new_checkpoint_def
        claim_checkpoint_def checkpoint_key_def checkpoint_done_def read_checkpoint_def)
  have d: "distinct (map checkpoint_key [?c])" by simp
  have k: "(checkpoint_key ?c, 2) \<in> set [((1, ''t''), 2)]" "sc_epoch ?c < 2" by (simp_all add: new_checkpoint_def checkpoint_key_def)
  show ?thesis using checkpoint_claims_are_fenced [OF d run] k by blast
qed

definition demo_checkpoint :: checkpoint where
  "demo_checkpoint = new_checkpoint 1 ''t'' ''cn.bars'' Bars ''CN'' 100 ''o''"

definition demo_request_page :: "ingest_request \<times> (exn + ingest_result)" where
  "demo_request_page = (demo_request\<lparr>iq_as_of := 100, iq_cursor := None\<rparr>,
     Inr ((demo_result Run_succeeded)\<lparr>ir_run := ''r1'', ir_cursor := Some ''a''\<rparr>))"

definition demo_advanced :: checkpoint where
  "demo_advanced = advance_row demo_checkpoint (progress_of ((demo_result Run_succeeded)\<lparr>ir_run := ''r1'', ir_cursor := Some ''a''\<rparr>)) demo_checkpoint"

lemma demo_claim_task: "claim_task demo_task 1 demo_task_world
    = (Inr demo_checkpoint, demo_task_world\<lparr>tw_rows := [demo_checkpoint], tw_steps := 1, tw_claims := 1\<rparr>)"
  by (simp add: claim_task_def store_call_def demo_task_def demo_task_world_def begin_or_load_def transaction_def Let_def upsert_checkpoint_def
      select_one_def demo_checkpoint_def new_checkpoint_def checkpoint_key_def read_checkpoint_def)

lemma demo_page_step: "page_step demo_task 1 demo_checkpoint (demo_task_world\<lparr>tw_rows := [demo_checkpoint], tw_steps := 1, tw_claims := 1\<rparr>)
    = (Inr (Again demo_advanced), \<lparr>tw_rows = [demo_advanced], tw_exec = 1, tw_steps = 2, tw_claims = 1, tw_log = [demo_request_page]\<rparr>)"
  by (simp add: page_step_def bindA_def tryA_def execute_page_def demo_task_def demo_pages_def after_page_def demo_result_def
      demo_checkpoint_def new_checkpoint_def demo_task_world_def store_call_def transaction_def advance_def checkpoint_done_def
      update_where_def fenced_def checkpoint_key_def select_one_def advance_row_def read_checkpoint_def add_run_def demo_advanced_def
      demo_request_page_def progress_of_def)

theorem scheduled_pages_chain_witness:
  "\<exists>w. session demo_task 1 demo_task_world w (Some demo_advanced) \<and> tw_log w = [demo_request_page]
    \<and> row_after demo_task 1 100 (pages demo_task [demo_request_page]) demo_advanced"
proof -
  define w where "w = \<lparr>tw_rows = [demo_advanced], tw_exec = (1::nat), tw_steps = 2, tw_claims = 1, tw_log = [demo_request_page]\<rparr>"
  have "\<not> checkpoint_done demo_checkpoint" by (simp add: demo_checkpoint_def new_checkpoint_def checkpoint_done_def)
  then have s: "session demo_task 1 demo_task_world w (Some demo_advanced)"
    unfolding w_def by (rule session.page [OF session.claim [OF session.start demo_claim_task] _ demo_page_step])
  have "sc_as_of demo_advanced = 100" "checkpoint_key demo_advanced = (1, ''t'')"
    by (simp_all add: demo_advanced_def advance_row_def demo_checkpoint_def new_checkpoint_def checkpoint_key_def)
  moreover have "alone_task demo_task" "tw_log demo_task_world = []" "tw_rows demo_task_world = []" "ct_id demo_task = ''t''"
    by (simp_all add: alone_task_def demo_task_def demo_task_world_def)
  ultimately have "row_after demo_task 1 100 (pages demo_task [demo_request_page]) demo_advanced"
    using scheduled_pages_chain [OF _ s] by (auto simp: w_def select_one_def)
  then show ?thesis using s by (auto simp: w_def)
qed

theorem scheduled_task_ends_witness: "\<exists>r w'. run_checkpointed_task demo_task 1 demo_task_world = Some (r, w')"
proof (rule scheduled_task_ends [where m = "\<lambda>cursor. if cursor = None then 1 else 0"])
  show "orderly demo_task" by (simp add: orderly_def demo_task_def)
  show "distinct (map checkpoint_key (tw_rows demo_task_world))" by (simp add: demo_task_world_def)
qed (auto simp: demo_task_def demo_pages_def split: if_splits)

end
