(* ===== verification/Scheduled_Worker.thy ===== *)
theory Scheduled_Worker
  imports Scheduled_Tasks Quality_Gate "HOL-Library.Word"
begin

text \<open>
  \<open>ScheduledIngestionWorker\<close> of \<open>jobs/scheduled_worker.py\<close>: the tasks of one report date under an
  exclusive lock, each with bounded retries, then the materialization of the report input and the
  report workflow. Tasks, materializer, workflow and the database's advisory lock are parameters, as
  actions on a state of their own; the world adds the locks this worker holds and its sleeps. The
  statuses are ordered by severity.
\<close>

section \<open>Statuses and results\<close>

datatype worker_status = Wk_succeeded | Wk_degraded | Wk_retryable | Wk_blocked | Wk_locked

fun severity :: "worker_status \<Rightarrow> nat" where
  "severity Wk_succeeded = 0"
| "severity Wk_degraded = 1"
| "severity Wk_retryable = 2"
| "severity Wk_blocked = 3"
| "severity Wk_locked = 4"

lemma severity_inj: "severity a = severity b \<Longrightarrow> a = b"
  by (cases a; cases b) simp_all

instantiation worker_status :: linorder
begin

definition less_eq_worker_status :: "worker_status \<Rightarrow> worker_status \<Rightarrow> bool" where
  "less_eq_worker_status a b \<longleftrightarrow> severity a \<le> severity b"

definition less_worker_status :: "worker_status \<Rightarrow> worker_status \<Rightarrow> bool" where
  "less_worker_status a b \<longleftrightarrow> severity a < severity b"

instance
  by intro_classes (auto simp: less_eq_worker_status_def less_worker_status_def intro: severity_inj)

end

record worker_result =
  wr_date :: date
  wr_status :: worker_status
  wr_tasks :: "task_result list"
  wr_snapshot :: "string option"
  wr_quality :: "gate_status option"
  wr_workflow :: "uuid option"
  wr_report :: "string option"
  wr_delivery :: "string option"
  wr_alert :: "string option"
  wr_stage :: "string option"
  wr_error :: "string option"

definition plain_result :: "date \<Rightarrow> worker_status \<Rightarrow> task_result list \<Rightarrow> worker_result" where
  "plain_result d st ts = \<lparr>wr_date = d, wr_status = st, wr_tasks = ts, wr_snapshot = None, wr_quality = None, wr_workflow = None,
     wr_report = None, wr_delivery = None, wr_alert = None, wr_stage = None, wr_error = None\<rparr>"

record 'x scheduled_task =
  st_id :: string
  st_required :: bool
  st_role :: "string option"
  st_run :: "date \<Rightarrow> ('x, task_result) act"

record 'x report_workflow =
  rw_complete :: "worker_result \<Rightarrow> ('x, worker_result) act"
  rw_retry_exhausted :: "worker_result \<Rightarrow> ('x, worker_result) act"
  rw_unhandled_failure :: "worker_result \<Rightarrow> string \<Rightarrow> ('x, worker_result) act"

record 'x worker =
  wk_tasks :: "'x scheduled_task list"
  wk_try_lock :: "int \<Rightarrow> ('x, bool) act"
  wk_unlock :: "int \<Rightarrow> ('x, unit) act"
  wk_max_attempts :: int
  wk_retry_delay :: int
  wk_materialize :: "(date \<Rightarrow> task_result list \<Rightarrow> ('x, string \<times> gate_status) act) option"
  wk_workflow :: "'x report_workflow option"
  wk_digest :: "string \<Rightarrow> nat list"

record 'x worker_world =
  ww_state :: 'x
  ww_held :: "int list"
  ww_sleeps :: "int list"

definition make_worker :: "'x worker \<Rightarrow> exn + 'x worker" where
  "make_worker c = (if wk_max_attempts c < 1 then Inl ValueError
     else if wk_retry_delay c \<le> 0 then Inl ValueError
     else if \<not> distinct (map st_id (wk_tasks c)) then Inl ValueError
     else Inr c)"

definition lift_state :: "('x, 'a) act \<Rightarrow> ('x worker_world, 'a) act" where
  "lift_state m w = (case m (ww_state w) of (r, x) \<Rightarrow> (r, w\<lparr>ww_state := x\<rparr>))"

definition nap :: "int \<Rightarrow> ('x worker_world, unit) act" where
  "nap d w = (Inr (), w\<lparr>ww_sleeps := ww_sleeps w @ [d]\<rparr>)"

section \<open>One task\<close>

definition task_role :: "'x scheduled_task \<Rightarrow> string" where
  "task_role t = (case st_role t of Some r \<Rightarrow> if r = [] then st_id t else r | None \<Rightarrow> st_id t)"

definition retry_task :: "'x worker \<Rightarrow> int \<Rightarrow> ('x worker_world, unit) act" where
  "retry_task c n = nap (wk_retry_delay c * 2 ^ nat (n - 1))"

definition task_ended :: "'x scheduled_task \<Rightarrow> task_status \<Rightarrow> int \<Rightarrow> string \<Rightarrow> task_result" where
  "task_ended t st n code = \<lparr>tr_task = st_id t, tr_role = task_role t, tr_status = st, tr_dataset = None, tr_region = None, tr_count = 0,
     tr_rejected = 0, tr_attempt = n, tr_run = None, tr_runs = [], tr_error = Some code\<rparr>"

definition missing_run :: "task_result \<Rightarrow> int \<Rightarrow> task_result" where
  "missing_run r n = \<lparr>tr_task = tr_task r, tr_role = tr_role r, tr_status = Task_failed, tr_dataset = tr_dataset r, tr_region = tr_region r,
     tr_count = tr_count r, tr_rejected = tr_rejected r, tr_attempt = n, tr_run = None, tr_runs = [], tr_error = Some ''MISSING_DURABLE_RUN_ID''\<rparr>"

text \<open>The body of the loop: \<open>Again\<close> is \<open>continue\<close>.\<close>

definition run_attempt :: "'x worker \<Rightarrow> 'x scheduled_task \<Rightarrow> date \<Rightarrow> int \<Rightarrow> ('x worker_world, (task_result, unit) loop_step) act" where
  "run_attempt c t d n = tryA
     (bindA (lift_state (st_run t d)) (\<lambda>r.
        if tr_task r \<noteq> st_id t then throw ValueError
        else if tr_status r = Task_retryable \<and> n < wk_max_attempts c then bindA (retry_task c n) (\<lambda>_. ret (Again ()))
        else if tr_status r = Task_succeeded \<and> tr_run r = None then ret (Finished (missing_run r n))
        else ret (Finished (r\<lparr>tr_attempt := n\<rparr>))))
     (\<lambda>e. if e = RetryableScheduledTaskError
        then (if n < wk_max_attempts c then bindA (retry_task c n) (\<lambda>_. ret (Again ()))
              else ret (Finished (task_ended t Task_retryable n (exn_name e))))
        else ret (Finished (task_ended t Task_failed n (exn_name e))))
     ret"

text \<open>\<open>for attempt_no in range(1, max_attempts + 1)\<close>, with the assertion that follows the loop.\<close>

fun run_attempts :: "'x worker \<Rightarrow> 'x scheduled_task \<Rightarrow> date \<Rightarrow> nat \<Rightarrow> int \<Rightarrow> ('x worker_world, task_result) act" where
  "run_attempts c t d 0 n = throw AssertionError"
| "run_attempts c t d (Suc k) n = bindA (run_attempt c t d n) (\<lambda>s. case s of Finished r \<Rightarrow> ret r | Again _ \<Rightarrow> run_attempts c t d k (n + 1))"

definition run_task :: "'x worker \<Rightarrow> 'x scheduled_task \<Rightarrow> date \<Rightarrow> ('x worker_world, task_result) act" where
  "run_task c t d = run_attempts c t d (nat (wk_max_attempts c)) 1"

fun run_tasks :: "'x worker \<Rightarrow> date \<Rightarrow> 'x scheduled_task list \<Rightarrow> ('x worker_world, task_result list) act" where
  "run_tasks c d [] = ret []"
| "run_tasks c d (t # ts) = bindA (run_task c t d) (\<lambda>r. bindA (run_tasks c d ts) (\<lambda>rs. ret (r # rs)))"

section \<open>One report date\<close>

definition worker_status :: "task_result list \<Rightarrow> 'x scheduled_task list \<Rightarrow> worker_status" where
  "worker_status rs ts = (let required = (\<lambda>r. map_of (map (\<lambda>t. (st_id t, st_required t)) ts) (tr_task r) = Some True) in
     if ts = [] then Wk_blocked
     else if \<exists>r \<in> set rs. tr_status r = Task_failed \<and> required r then Wk_blocked
     else if \<exists>r \<in> set rs. tr_status r = Task_retryable \<and> required r then Wk_retryable
     else if \<exists>r \<in> set rs. tr_status r \<noteq> Task_succeeded then Wk_degraded
     else Wk_succeeded)"

definition combine_status :: "worker_status \<Rightarrow> gate_status \<Rightarrow> worker_status" where
  "combine_status ws qs =
     (if ws \<in> {Wk_locked, Wk_blocked} \<or> qs = QBlocked then (if ws \<noteq> Wk_locked then Wk_blocked else Wk_locked)
      else if ws = Wk_retryable \<or> qs = QRetryable then Wk_retryable
      else if ws = Wk_degraded \<or> qs = QDegraded then Wk_degraded
      else Wk_succeeded)"

text \<open>\<open>int.from_bytes(digest[:8], "big", signed=True)\<close>.\<close>

definition signed_key :: "nat list \<Rightarrow> int" where
  "signed_key bs = sint (fold (\<lambda>b acc. push_bit 8 acc + of_nat b) (take 8 bs) (0 :: 64 word))"

definition report_date_lock_key :: "(string \<Rightarrow> nat list) \<Rightarrow> date \<Rightarrow> int" where
  "report_date_lock_key digest d = signed_key (digest (''macro-data-platform:scheduled-report:'' @ isodate d))"

text \<open>\<open>PostgresReportDateLock.hold\<close> around a body that is told whether the lock was acquired.\<close>

definition hold_lock :: "'x worker \<Rightarrow> date \<Rightarrow> (bool \<Rightarrow> ('x worker_world, 'a) act) \<Rightarrow> ('x worker_world, 'a) act" where
  "hold_lock c d body = (let key = report_date_lock_key (wk_digest c) d in
     bindA (lift_state (wk_try_lock c key)) (\<lambda>acquired w.
       if \<not> acquired then body False w
       else case body True (w\<lparr>ww_held := key # ww_held w\<rparr>) of (r, w1) \<Rightarrow>
         (case lift_state (wk_unlock c key) w1 of
            (Inl e, w2) \<Rightarrow> (Inl e, w2)
          | (Inr _, w2) \<Rightarrow> (r, w2\<lparr>ww_held := remove1 key (ww_held w2)\<rparr>))))"

definition materialized_result :: "'x worker \<Rightarrow> date \<Rightarrow> task_result list \<Rightarrow> ('x worker_world, worker_result) act" where
  "materialized_result c d rs = (let r = plain_result d (worker_status rs (wk_tasks c)) rs in
     case wk_materialize c of
       None \<Rightarrow> ret r
     | Some m \<Rightarrow> tryA (lift_state (m d rs))
         (\<lambda>e. ret (r\<lparr>wr_status := Wk_blocked, wr_error := Some (exn_name e)\<rparr>))
         (\<lambda>(snapshot, quality). ret (r\<lparr>wr_status := combine_status (wr_status r) quality, wr_snapshot := Some snapshot, wr_quality := Some quality\<rparr>)))"

definition complete_workflow :: "'x worker \<Rightarrow> worker_result \<Rightarrow> ('x worker_world, worker_result) act" where
  "complete_workflow c r = (case wk_workflow c of
     None \<Rightarrow> ret r
   | Some flow \<Rightarrow> tryA (lift_state (rw_complete flow r))
       (\<lambda>e. let failed = r\<lparr>wr_status := Wk_blocked, wr_stage := Some ''scheduler'', wr_error := Some (exn_name e)\<rparr> in
          tryA (lift_state (rw_unhandled_failure flow failed (exn_name e)))
            (\<lambda>_. ret (failed\<lparr>wr_alert := Some ''failed''\<rparr>)) ret)
       ret)"

definition run_for_date :: "'x worker \<Rightarrow> date \<Rightarrow> ('x worker_world, worker_result) act" where
  "run_for_date c d =
     (if wk_tasks c = [] then ret (plain_result d Wk_blocked [])
      else hold_lock c d (\<lambda>acquired.
        if \<not> acquired then ret (plain_result d Wk_locked [])
        else bindA (run_tasks c d (wk_tasks c)) (\<lambda>rs.
          bindA (materialized_result c d rs) (complete_workflow c))))"

definition notify_retry_exhausted :: "'x worker \<Rightarrow> worker_result \<Rightarrow> ('x worker_world, worker_result) act" where
  "notify_retry_exhausted c r = (case wk_workflow c of None \<Rightarrow> ret r | Some flow \<Rightarrow> lift_state (rw_retry_exhausted flow r))"

definition run_date :: "'x worker \<Rightarrow> date \<Rightarrow> ('x worker_world, worker_result) act" where
  "run_date c d = bindA (run_for_date c d) (\<lambda>r. if wr_status r = Wk_retryable then notify_retry_exhausted c r else ret r)"

function backfill_from :: "'x worker \<Rightarrow> date \<Rightarrow> date \<Rightarrow> ('x worker_world, worker_result list) act" where
  "backfill_from c d until = (if d \<le> until
     then bindA (run_date c d) (\<lambda>r. bindA (backfill_from c (d + 1) until) (\<lambda>rs. ret (r # rs)))
     else ret [])"
  by pat_completeness auto

termination
  by (relation "measure (\<lambda>(c, d, until). nat (until + 1 - d))") auto

declare backfill_from.simps [simp del]

definition backfill :: "'x worker \<Rightarrow> date \<Rightarrow> date \<Rightarrow> ('x worker_world, worker_result list) act" where
  "backfill c start until = (if until < start then throw ValueError else backfill_from c start until)"

section \<open>Attempts of a task\<close>

text \<open>What a task run leaves behind: the waits between its attempts double, and its result is under the last attempt number.\<close>

definition retry_waits :: "int \<Rightarrow> int \<Rightarrow> int \<Rightarrow> int list" where
  "retry_waits delay n m = map (\<lambda>k. delay * 2 ^ nat (k - 1)) [n..m - 1]"

definition attempt_result :: "'x worker \<Rightarrow> 'x scheduled_task \<Rightarrow> task_result \<Rightarrow> bool" where
  "attempt_result c t r \<longleftrightarrow> tr_task r = st_id t \<and> tr_attempt r \<le> wk_max_attempts c
     \<and> (tr_status r = Task_succeeded \<longrightarrow> tr_run r \<noteq> None) \<and> (tr_status r = Task_retryable \<longrightarrow> tr_attempt r = wk_max_attempts c)"

lemma lift_state_frame: "lift_state m w = (r, w') \<Longrightarrow> ww_held w' = ww_held w \<and> ww_sleeps w' = ww_sleeps w"
  by (auto simp: lift_state_def split: prod.splits)

lemma run_attempt_cases:
  assumes "run_attempt c t d n w = (s, w')" "n \<le> wk_max_attempts c"
  shows "(\<exists>r. s = Inr (Finished r) \<and> attempt_result c t r \<and> tr_attempt r = n \<and> ww_sleeps w' = ww_sleeps w \<and> ww_held w' = ww_held w)
    \<or> s = Inr (Again ()) \<and> n < wk_max_attempts c \<and> ww_sleeps w' = ww_sleeps w @ [wk_retry_delay c * 2 ^ nat (n - 1)] \<and> ww_held w' = ww_held w"
proof -
  obtain x w1 where x: "lift_state (st_run t d) w = (x, w1)" by fastforce
  note fr = lift_state_frame [OF x]
  have ended: "attempt_result c t (task_ended t Task_failed n code)" "n = wk_max_attempts c \<Longrightarrow> attempt_result c t (task_ended t Task_retryable n code)" for code
    using assms(2) by (simp_all add: attempt_result_def task_ended_def)
  show ?thesis
  proof (cases x)
    case (Inl e)
    then show ?thesis using assms x fr ended
      by (auto simp: run_attempt_def tryA_def bindA_def retry_task_def nap_def task_ended_def split: if_splits)
  next
    case (Inr r)
    have "attempt_result c t (missing_run r n)"
      "\<not> (tr_status r = Task_retryable \<and> n < wk_max_attempts c) \<Longrightarrow> \<not> (tr_status r = Task_succeeded \<and> tr_run r = None)
        \<Longrightarrow> attempt_result c t (r\<lparr>tr_attempt := n\<rparr>)" if "tr_task r = st_id t"
      using assms(2) that by (auto simp: attempt_result_def missing_run_def)
    then show ?thesis using assms x Inr fr ended(1)
      by (cases "tr_task r = st_id t")
        (auto simp: run_attempt_def tryA_def bindA_def retry_task_def nap_def missing_run_def task_ended_def split: if_splits)
  qed
qed

lemma run_attempts_result:
  assumes "run_attempts c t d k n w = (s, w')" "k \<noteq> 0" "n + int k = wk_max_attempts c + 1"
  shows "\<exists>r. s = Inr r \<and> attempt_result c t r \<and> n \<le> tr_attempt r \<and> ww_held w' = ww_held w
    \<and> ww_sleeps w' = ww_sleeps w @ retry_waits (wk_retry_delay c) n (tr_attempt r)"
  using assms
proof (induction k arbitrary: n w)
  case (Suc k)
  obtain x w1 where x: "run_attempt c t d n w = (x, w1)" by fastforce
  have n: "n \<le> wk_max_attempts c" using Suc.prems(3) by simp
  from run_attempt_cases [OF x n] show ?case
  proof (elim disjE exE conjE)
    fix r assume a: "x = Inr (Finished r)" "attempt_result c t r" "tr_attempt r = n" "ww_sleeps w1 = ww_sleeps w" "ww_held w1 = ww_held w"
    have "s = Inr r \<and> w' = w1" using Suc.prems(1) x a(1) by (simp add: bindA_def)
    then show ?thesis using a by (simp add: retry_waits_def)
  next
    assume a: "x = Inr (Again ())" "n < wk_max_attempts c" "ww_sleeps w1 = ww_sleeps w @ [wk_retry_delay c * 2 ^ nat (n - 1)]" "ww_held w1 = ww_held w"
    have run: "run_attempts c t d k (n + 1) w1 = (s, w')" using Suc.prems(1) x a(1) by (simp add: bindA_def)
    have "k \<noteq> 0" "n + 1 + int k = wk_max_attempts c + 1" using a(2) Suc.prems(3) by auto
    from Suc.IH [OF run this] obtain r where r: "s = Inr r" "attempt_result c t r" "n + 1 \<le> tr_attempt r" "ww_held w' = ww_held w1"
      "ww_sleeps w' = ww_sleeps w1 @ retry_waits (wk_retry_delay c) (n + 1) (tr_attempt r)" by blast
    have "[n..tr_attempt r - 1] = n # [n + 1..tr_attempt r - 1]" using r(3) by (simp add: upto_rec1)
    then show ?thesis using r a by (auto simp: retry_waits_def)
  qed
qed simp

text \<open>However a task behaves, its run under the worker returns a result and never raises: of that task, after at most the
  configured number of attempts, with one wait before each further attempt, each twice the one before. A result is retryable only
  when the attempts are used up, and a result counts as succeeded only with a durable run.\<close>

theorem task_runs_within_attempts:
  assumes "make_worker c = Inr c" "run_task c t d w = (s, w')"
  shows "\<exists>r. s = Inr r \<and> tr_task r = st_id t \<and> 1 \<le> tr_attempt r \<and> tr_attempt r \<le> wk_max_attempts c
    \<and> (tr_status r = Task_succeeded \<longrightarrow> tr_run r \<noteq> None) \<and> (tr_status r = Task_retryable \<longrightarrow> tr_attempt r = wk_max_attempts c)
    \<and> ww_sleeps w' = ww_sleeps w @ map (\<lambda>k. wk_retry_delay c * 2 ^ nat (k - 1)) [1..tr_attempt r - 1] \<and> ww_held w' = ww_held w"
proof -
  have m: "1 \<le> wk_max_attempts c" using assms(1) by (auto simp: make_worker_def split: if_splits)
  have "nat (wk_max_attempts c) \<noteq> 0" "1 + int (nat (wk_max_attempts c)) = wk_max_attempts c + 1" using m by simp_all
  from run_attempts_result [OF assms(2) [unfolded run_task_def] this] show ?thesis
    unfolding attempt_result_def retry_waits_def by blast
qed

section \<open>Severity\<close>

fun quality_severity :: "gate_status \<Rightarrow> worker_status" where
  "quality_severity QPassed = Wk_succeeded"
| "quality_severity QDegraded = Wk_degraded"
| "quality_severity QRetryable = Wk_retryable"
| "quality_severity QBlocked = Wk_blocked"

text \<open>The severity of one task result: an optional task never does more than degrade the report.\<close>

definition task_severity :: "bool \<Rightarrow> task_result \<Rightarrow> worker_status" where
  "task_severity required r = (case tr_status r of
     Task_succeeded \<Rightarrow> Wk_succeeded
   | Task_retryable \<Rightarrow> if required then Wk_retryable else Wk_degraded
   | Task_failed \<Rightarrow> if required then Wk_blocked else Wk_degraded)"

lemma combine_status_max: "combine_status a q = max a (quality_severity q)"
  by (cases a; cases q) (simp_all add: combine_status_def max_def less_eq_worker_status_def)

definition worst :: "worker_status list \<Rightarrow> worker_status" where
  "worst ss = fold max ss Wk_succeeded"

lemma fold_max: "fold max ss a = (max a (worst ss) :: worker_status)"
proof (induction ss arbitrary: a)
  case Nil
  have "Wk_succeeded \<le> a" by (simp add: less_eq_worker_status_def)
  then show ?case by (simp add: worst_def max_absorb1)
next
  case (Cons x xs)
  have "Wk_succeeded \<le> x" by (simp add: less_eq_worker_status_def)
  then have "worst (x # xs) = max x (worst xs)" using Cons [of "max x Wk_succeeded"] by (simp add: worst_def max_absorb1)
  then show ?case using Cons [of "max x a"] by (simp add: max.assoc max.left_commute max.commute)
qed

lemma worst_Cons: "worst (x # xs) = max x (worst xs)"
proof -
  have "Wk_succeeded \<le> x" by (simp add: less_eq_worker_status_def)
  then show ?thesis using fold_max [of xs "max x Wk_succeeded"] by (simp add: worst_def max_absorb1)
qed

lemma le_worst: "s \<in> set ss \<Longrightarrow> s \<le> worst ss"
  by (induction ss) (auto simp: worst_Cons le_max_iff_disj)

lemma worst_Nil [simp]: "worst [] = Wk_succeeded"
  by (simp add: worst_def)

lemma worst_mem: "worst ss = Wk_succeeded \<or> worst ss \<in> set ss"
  by (induction ss) (auto simp: worst_Cons max_def)

lemma worst_eqI: "(\<And>s. s \<in> set ss \<Longrightarrow> s \<le> m) \<Longrightarrow> m = Wk_succeeded \<or> m \<in> set ss \<Longrightarrow> worst ss = m"
  using le_worst worst_mem by (metis antisym le_worst less_eq_worker_status_def severity.simps(1) zero_le)

lemma worker_status_worst:
  fixes rs :: "task_result list"
  defines "required ts r \<equiv> map_of (map (\<lambda>t. (st_id t, st_required t)) ts) (tr_task r) = Some True"
  assumes "ts \<noteq> []"
  shows "worst (map (\<lambda>r. task_severity (required ts r) r) rs) = worker_status rs ts"
proof (rule worst_eqI)
  fix s assume "s \<in> set (map (\<lambda>r. task_severity (required ts r) r) rs)"
  then obtain r where "r \<in> set rs" "s = task_severity (required ts r) r" by auto
  then show "s \<le> worker_status rs ts" using assms(2)
    by (cases "tr_status r") (auto simp: worker_status_def required_def task_severity_def less_eq_worker_status_def Let_def
        intro!: bexI [of _ r])
next
  consider (blocked) r where "r \<in> set rs" "tr_status r = Task_failed" "required ts r"
    | (deferred) r where "\<forall>x \<in> set rs. \<not> (tr_status x = Task_failed \<and> required ts x)" "r \<in> set rs" "tr_status r = Task_retryable" "required ts r"
    | (degraded) r where "\<forall>x \<in> set rs. \<not> (tr_status x = Task_failed \<and> required ts x)"
        "\<forall>x \<in> set rs. \<not> (tr_status x = Task_retryable \<and> required ts x)" "r \<in> set rs" "tr_status r \<noteq> Task_succeeded"
    | (succeeded) "\<forall>x \<in> set rs. tr_status x = Task_succeeded" by blast
  then have "worker_status rs ts = Wk_succeeded \<or> (\<exists>r \<in> set rs. worker_status rs ts = task_severity (required ts r) r)"
  proof cases
    case (blocked r)
    then have "\<exists>x \<in> set rs. tr_status x = Task_failed \<and> required ts x" by blast
    then show ?thesis using assms(2) blocked
      unfolding worker_status_def Let_def required_def [symmetric] by (intro disjI2 bexI [of _ r]) (auto simp: task_severity_def)
  next
    case (deferred r)
    moreover from this have "\<exists>x \<in> set rs. tr_status x = Task_retryable \<and> required ts x" by blast
    ultimately show ?thesis using assms(2)
      unfolding worker_status_def Let_def required_def [symmetric] by (intro disjI2 bexI [of _ r]) (auto simp: task_severity_def)
  next
    case (degraded r)
    then have "\<not> required ts r" by (cases "tr_status r") auto
    moreover have "worker_status rs ts = Wk_degraded" using assms(2) degraded
      unfolding worker_status_def Let_def required_def [symmetric] by auto
    ultimately show ?thesis using degraded(3,4)
      by (cases "tr_status r") (auto simp: task_severity_def intro!: bexI [of _ r])
  next
    case succeeded
    then show ?thesis using assms(2) by (auto simp: worker_status_def)
  qed
  then show "worker_status rs ts = Wk_succeeded \<or> worker_status rs ts \<in> set (map (\<lambda>r. task_severity (required ts r) r) rs)"
    by auto
qed

text \<open>With distinct task ids, the flag looked up for a result is the one of its task.\<close>

lemma required_of_task:
  assumes "distinct (map st_id ts)" "map tr_task rs = map st_id ts" "k < length ts"
  shows "(map_of (map (\<lambda>t. (st_id t, st_required t)) ts) (tr_task (rs ! k)) = Some True) = st_required (ts ! k)"
proof -
  have "tr_task (rs ! k) = st_id (ts ! k)" using assms(2,3) by (metis length_map nth_map)
  moreover have "map_of (map (\<lambda>t. (st_id t, st_required t)) ts) (st_id (ts ! k)) = Some (st_required (ts ! k))"
    using assms(1,3) by (intro map_of_is_SomeI) (auto simp: comp_def)
  ultimately show ?thesis by simp
qed

text \<open>C27: The status of a report date is the most severe of its parts: of the outcomes of its tasks (a required task blocks or defers
  the report, an optional one at most degrades it) and of the quality decision.\<close>

theorem report_status_is_worst_outcome:
  fixes rs :: "task_result list"
  assumes "ts \<noteq> []" "distinct (map st_id ts)" "map tr_task rs = map st_id ts"
  shows "combine_status (worker_status rs ts) q
    = max (worst (map2 (\<lambda>t r. task_severity (st_required t) r) ts rs)) (quality_severity q)"
proof -
  have "length rs = length ts" using assms(3) by (metis length_map)
  then have "map2 (\<lambda>t r. task_severity (st_required t) r) ts rs
    = map (\<lambda>r. task_severity (map_of (map (\<lambda>t. (st_id t, st_required t)) ts) (tr_task r) = Some True) r) rs"
    using required_of_task [OF assms(2,3)] by (intro nth_equalityI) auto
  then show ?thesis using worker_status_worst [OF assms(1)] combine_status_max by simp
qed

section \<open>The report date\<close>

lemma run_tasks_result:
  assumes "make_worker c = Inr c" "run_tasks c d ts w = (s, w')"
  shows "\<exists>rs. s = Inr rs \<and> map tr_task rs = map st_id ts \<and> ww_held w' = ww_held w"
  using assms(2)
proof (induction ts arbitrary: s w w')
  case (Cons t ts)
  obtain x w1 where x: "run_task c t d w = (x, w1)" by fastforce
  obtain r where r: "x = Inr r" "tr_task r = st_id t" "ww_held w1 = ww_held w"
    using run_attempts_result [OF x [unfolded run_task_def]] assms(1)
    by (force simp: make_worker_def attempt_result_def split: if_splits)
  obtain y w2 where y: "run_tasks c d ts w1 = (y, w2)" by fastforce
  obtain rs where rs: "y = Inr rs" "map tr_task rs = map st_id ts" "ww_held w2 = ww_held w1" using Cons.IH [OF y] by blast
  have "s = Inr (r # rs) \<and> w' = w2" using Cons.prems x y r rs by (simp add: bindA_def)
  then show ?case using r rs by simp
qed simp

lemma materialized_result_total:
  "\<exists>r w'. materialized_result c d rs w = (Inr r, w') \<and> ww_held w' = ww_held w \<and> wr_date r = d \<and> wr_tasks r = rs
    \<and> (worker_status rs (wk_tasks c) \<le> wr_status r) \<and> (wr_quality r = None \<and> wk_materialize c \<noteq> None \<longrightarrow> wr_status r = Wk_blocked)
    \<and> wr_status r \<noteq> Wk_locked"
proof -
  have nl: "worker_status rs (wk_tasks c) \<noteq> Wk_locked" by (auto simp: worker_status_def Let_def)
  show ?thesis
  proof (cases "wk_materialize c")
    case None
    then show ?thesis using nl by (simp add: materialized_result_def Let_def plain_result_def)
  next
    case (Some m)
    obtain x w1 where x: "lift_state (m d rs) w = (x, w1)" by fastforce
    have "worker_status rs (wk_tasks c) \<le> Wk_blocked" using nl by (cases "worker_status rs (wk_tasks c)") (simp_all add: less_eq_worker_status_def)
    moreover have "worker_status rs (wk_tasks c) \<le> combine_status (worker_status rs (wk_tasks c)) q" for q
      by (simp add: combine_status_max)
    moreover have "combine_status (worker_status rs (wk_tasks c)) q \<noteq> Wk_locked" for q
      using nl by (auto simp: combine_status_def)
    ultimately show ?thesis using Some x lift_state_frame [OF x]
      by (cases x) (auto simp: materialized_result_def Let_def tryA_def plain_result_def)
  qed
qed

lemma complete_workflow_result:
  assumes "complete_workflow c r w = (x, w')"
  shows "\<exists>r'. x = Inr r' \<and> ww_held w' = ww_held w
    \<and> (case wk_workflow c of None \<Rightarrow> r' = r | Some flow \<Rightarrow> (case rw_complete flow r (ww_state w) of
          (Inr y, _) \<Rightarrow> r' = y
        | (Inl e, v) \<Rightarrow> (let failed = r\<lparr>wr_status := Wk_blocked, wr_stage := Some ''scheduler'', wr_error := Some (exn_name e)\<rparr>
            in r' = (case fst (rw_unhandled_failure flow failed (exn_name e) v) of Inr y \<Rightarrow> y | Inl _ \<Rightarrow> failed\<lparr>wr_alert := Some ''failed''\<rparr>))))"
proof (cases "wk_workflow c")
  case None
  then show ?thesis using assms by (simp add: complete_workflow_def)
next
  case (Some flow)
  obtain y v where y: "rw_complete flow r (ww_state w) = (y, v)" by fastforce
  show ?thesis
  proof (cases y)
    case (Inr r')
    then show ?thesis using Some y assms by (auto simp: complete_workflow_def tryA_def lift_state_def)
  next
    case (Inl e)
    define failed where "failed = r\<lparr>wr_status := Wk_blocked, wr_stage := Some ''scheduler'', wr_error := Some (exn_name e)\<rparr>"
    obtain z u where z: "rw_unhandled_failure flow failed (exn_name e) v = (z, u)" by fastforce
    show ?thesis using Some y Inl z assms
      by (cases z) (auto simp: complete_workflow_def tryA_def lift_state_def Let_def failed_def)
  qed
qed

lemma run_for_date_locked:
  assumes "wk_tasks c \<noteq> []" "wk_try_lock c (report_date_lock_key (wk_digest c) d) (ww_state w) = (Inr False, x)"
  shows "run_for_date c d w = (Inr (plain_result d Wk_locked []), w\<lparr>ww_state := x\<rparr>)"
  using assms by (simp add: run_for_date_def hold_lock_def bindA_def lift_state_def Let_def)

lemma run_for_date_body:
  assumes "make_worker c = Inr c" "wk_tasks c \<noteq> []" and key: "key = report_date_lock_key (wk_digest c) d"
    and "wk_try_lock c key (ww_state w) = (Inr True, x)"
  obtains rs m r w1 w2 w3 where "run_tasks c d (wk_tasks c) (w\<lparr>ww_state := x, ww_held := key # ww_held w\<rparr>) = (Inr rs, w1)"
    "materialized_result c d rs w1 = (Inr m, w2)" "complete_workflow c m w2 = (Inr r, w3)"
    "run_for_date c d w = (case wk_unlock c key (ww_state w3) of
       (Inr _, y) \<Rightarrow> (Inr r, w3\<lparr>ww_state := y, ww_held := ww_held w\<rparr>) | (Inl e, y) \<Rightarrow> (Inl e, w3\<lparr>ww_state := y\<rparr>))"
proof -
  define v where "v = w\<lparr>ww_state := x, ww_held := key # ww_held w\<rparr>"
  obtain s w1 where s: "run_tasks c d (wk_tasks c) v = (s, w1)" by fastforce
  obtain rs where rs: "s = Inr rs" "ww_held w1 = ww_held v" using run_tasks_result [OF assms(1) s] by blast
  obtain m w2 where m: "materialized_result c d rs w1 = (Inr m, w2)" "ww_held w2 = ww_held w1"
    using materialized_result_total [of c d rs w1] by blast
  obtain y w3 where y: "complete_workflow c m w2 = (y, w3)" by fastforce
  then obtain r where r: "complete_workflow c m w2 = (Inr r, w3)" "ww_held w3 = ww_held w2" using complete_workflow_result by blast
  have held: "ww_held w3 = key # ww_held w" using rs(2) m(2) r(2) by (simp add: v_def)
  have "run_for_date c d w = (case wk_unlock c key (ww_state w3) of
       (Inr _, y) \<Rightarrow> (Inr r, w3\<lparr>ww_state := y, ww_held := ww_held w\<rparr>) | (Inl e, y) \<Rightarrow> (Inl e, w3\<lparr>ww_state := y\<rparr>))"
    using assms(2,4) s rs(1) m(1) r(1) held
    by (auto simp: run_for_date_def hold_lock_def bindA_def lift_state_def Let_def key [symmetric] v_def split: prod.splits sum.splits)
  then show thesis using that s rs(1) m(1) r(1) unfolding v_def by blast
qed

text \<open>C28: A report date fails closed. When the lock is not acquired the result is locked and neither a task nor the materializer nor
  the workflow has run. Otherwise the tasks and the materializer always end with a result that is at least as severe as the tasks, and
  is blocked when the report input could not be materialized. The report of the date is what the workflow makes of it; if the workflow
  raises, the date is blocked at the stage \<open>scheduler\<close> under the name of the exception, and its report is what the failure notice
  makes of that, or, when the notice raises as well, that result with a failed alert. The report is returned, with the locks held as
  before, exactly when the lock can be released; otherwise the exception of the release is raised.\<close>

theorem report_date_fails_closed:
  fixes c d
  defines "key \<equiv> report_date_lock_key (wk_digest c) d"
  assumes "make_worker c = Inr c" "wk_tasks c \<noteq> []" and "wk_try_lock c key (ww_state w) = (Inr acquired, x)"
  shows "if \<not> acquired then run_for_date c d w = (Inr (plain_result d Wk_locked []), w\<lparr>ww_state := x\<rparr>)
    else \<exists>rs m r w1 w2 w3. run_tasks c d (wk_tasks c) (w\<lparr>ww_state := x, ww_held := key # ww_held w\<rparr>) = (Inr rs, w1)
      \<and> materialized_result c d rs w1 = (Inr m, w2) \<and> worker_status rs (wk_tasks c) \<le> wr_status m
      \<and> (wr_quality m = None \<and> wk_materialize c \<noteq> None \<longrightarrow> wr_status m = Wk_blocked)
      \<and> (case wk_workflow c of None \<Rightarrow> r = m | Some flow \<Rightarrow> (case rw_complete flow m (ww_state w2) of
            (Inr y, _) \<Rightarrow> r = y
          | (Inl e, v) \<Rightarrow> (let failed = m\<lparr>wr_status := Wk_blocked, wr_stage := Some ''scheduler'', wr_error := Some (exn_name e)\<rparr>
              in r = (case fst (rw_unhandled_failure flow failed (exn_name e) v) of Inr y \<Rightarrow> y | Inl _ \<Rightarrow> failed\<lparr>wr_alert := Some ''failed''\<rparr>))))
      \<and> complete_workflow c m w2 = (Inr r, w3)
      \<and> run_for_date c d w = (case wk_unlock c key (ww_state w3) of
          (Inr _, y) \<Rightarrow> (Inr r, w3\<lparr>ww_state := y, ww_held := ww_held w\<rparr>) | (Inl e, y) \<Rightarrow> (Inl e, w3\<lparr>ww_state := y\<rparr>))"
proof (cases acquired)
  case False
  then show ?thesis using run_for_date_locked [OF assms(3)] assms(4) by (simp add: key_def)
next
  case True
  obtain rs m r w1 w2 w3 where tasks: "run_tasks c d (wk_tasks c) (w\<lparr>ww_state := x, ww_held := key # ww_held w\<rparr>) = (Inr rs, w1)"
    and m: "materialized_result c d rs w1 = (Inr m, w2)" and r: "complete_workflow c m w2 = (Inr r, w3)"
    and run: "run_for_date c d w = (case wk_unlock c key (ww_state w3) of
       (Inr _, y) \<Rightarrow> (Inr r, w3\<lparr>ww_state := y, ww_held := ww_held w\<rparr>) | (Inl e, y) \<Rightarrow> (Inl e, w3\<lparr>ww_state := y\<rparr>))"
    by (rule run_for_date_body [OF assms(2,3) key_def [THEN meta_eq_to_obj_eq]]) (use True assms(4) in simp)
  have input: "worker_status rs (wk_tasks c) \<le> wr_status m" "wr_quality m = None \<and> wk_materialize c \<noteq> None \<longrightarrow> wr_status m = Wk_blocked"
    using materialized_result_total [of c d rs w1] m by auto
  show ?thesis unfolding if_not_P [OF not_not [THEN iffD2, OF True]]
    by (rule exI [of _ rs], rule exI [of _ m], rule exI [of _ r], rule exI [of _ w1], rule exI [of _ w2], rule exI [of _ w3],
      intro conjI tasks m input r run) (use complete_workflow_result [OF r] in simp)
qed

text \<open>A workflow that returns results of the date it was given.\<close>

definition keeps_date :: "'x report_workflow \<Rightarrow> bool" where
  "keeps_date flow \<longleftrightarrow> (\<forall>r x r' x'. (rw_complete flow r x = (Inr r', x') \<longrightarrow> wr_date r' = wr_date r)
     \<and> (rw_retry_exhausted flow r x = (Inr r', x') \<longrightarrow> wr_date r' = wr_date r)
     \<and> (\<forall>code. rw_unhandled_failure flow r code x = (Inr r', x') \<longrightarrow> wr_date r' = wr_date r))"

lemma lift_state_Inr: "lift_state m w = (Inr r, w') \<Longrightarrow> \<exists>x'. m (ww_state w) = (Inr r, x')"
  by (auto simp: lift_state_def split: prod.splits)

lemma complete_workflow_date:
  assumes k: "\<And>flow. wk_workflow c = Some flow \<Longrightarrow> keeps_date flow" and run: "complete_workflow c r w = (Inr r', w')"
  shows "wr_date r' = wr_date r"
proof (cases "wk_workflow c")
  case None
  then show ?thesis using run by (simp add: complete_workflow_def)
next
  case (Some flow)
  have f: "rw_complete flow r x = (Inr r', x') \<Longrightarrow> wr_date r' = wr_date r"
    "rw_unhandled_failure flow r code x = (Inr r', x') \<Longrightarrow> wr_date r' = wr_date r" for r r' x x' code
    using k [OF Some] unfolding keeps_date_def by blast+
  show ?thesis using run Some by (auto simp: complete_workflow_def tryA_eq Let_def dest!: lift_state_Inr dest: f)
qed

lemma run_date_date:
  assumes k: "\<And>flow. wk_workflow c = Some flow \<Longrightarrow> keeps_date flow" and run: "run_date c d w = (Inr r, w')"
  shows "wr_date r = d"
proof -
  obtain r1 w1 where a: "run_for_date c d w = (Inr r1, w1)"
    "(if wr_status r1 = Wk_retryable then notify_retry_exhausted c r1 else ret r1) w1 = (Inr r, w')"
    using run unfolding run_date_def bindA_eq by blast
  have "wr_date r1 = d"
  proof (cases "wk_tasks c = []")
    case True
    then show ?thesis using a(1) by (auto simp: run_for_date_def plain_result_def)
  next
    case False
    define body where "body = (\<lambda>acquired. if \<not> acquired then ret (plain_result d Wk_locked [])
        else bindA (run_tasks c d (wk_tasks c)) (\<lambda>rs. bindA (materialized_result c d rs) (complete_workflow c)))"
    have h: "hold_lock c d body w = (Inr r1, w1)" using a(1) False by (simp add: run_for_date_def body_def)
    have "\<exists>b v v1. body b v = (Inr r1, v1)"
      using h by (auto simp: hold_lock_def Let_def bindA_def split: prod.splits sum.splits if_splits)
    then obtain b v v1 where "body b v = (Inr r1, v1)" by blast
    moreover have "wr_date m = d" if "materialized_result c d rs u = (Inr m, u')" for rs u m u'
      using materialized_result_total [of c d rs u] that by auto
    ultimately show ?thesis using complete_workflow_date [OF k]
      by (auto simp: body_def bindA_eq plain_result_def split: if_splits)
  qed
  moreover have "wr_date r = wr_date r1"
  proof (cases "wr_status r1 = Wk_retryable")
    case True
    then show ?thesis
    proof (cases "wk_workflow c")
      case (Some flow)
      then obtain x' where "rw_retry_exhausted flow r1 (ww_state w1) = (Inr r, x')"
        using True a(2) lift_state_Inr by (force simp: notify_retry_exhausted_def)
      then show ?thesis using k [OF Some] unfolding keeps_date_def by blast
    qed (use True a(2) in \<open>simp add: notify_retry_exhausted_def\<close>)
  qed (use a(2) in simp)
  ultimately show ?thesis by simp
qed

text \<open>A backfill that returns has run every date of its range exactly once and in order; a backfill always ends, and only an
  exception (an inverted range, the lock service, the final notification) keeps it from returning.\<close>

theorem backfill_covers_each_date:
  assumes "\<And>flow. wk_workflow c = Some flow \<Longrightarrow> keeps_date flow" and "backfill c start until w = (Inr rs, w')"
  shows "start \<le> until \<and> map wr_date rs = [start..until]"
proof -
  have "map wr_date rs = [d..until]" if "backfill_from c d until w = (Inr rs, w')" for d w rs
    using that
  proof (induction "nat (until + 1 - d)" arbitrary: d w rs)
    case 0
    then show ?case by (subst (asm) backfill_from.simps) (auto split: if_splits)
  next
    case (Suc k)
    have le: "d \<le> until" using Suc(2) by simp
    then obtain r v rs' v' where a: "run_date c d w = (Inr r, v)" "backfill_from c (d + 1) until v = (Inr rs', v')" "rs = r # rs'" "v' = w'"
      using Suc.prems by (subst (asm) backfill_from.simps) (auto simp: bindA_eq)
    have "map wr_date rs' = [d + 1..until]" using Suc(1) [of "d + 1" v rs'] Suc(2) a by simp
    then show ?case using a run_date_date [OF assms(1) a(1)] le by (simp add: upto_rec1)
  qed
  then show ?thesis using assms(2) by (auto simp: backfill_def split: if_splits)
qed

section \<open>Examples\<close>

definition demo_scheduled :: "nat scheduled_task" where
  "demo_scheduled = \<lparr>st_id = ''t'', st_required = True, st_role = Some ''cn.bars'', st_run = (\<lambda>d n. if n = 0 then (Inl RetryableScheduledTaskError, 1)
     else (Inr \<lparr>tr_task = ''t'', tr_role = ''cn.bars'', tr_status = Task_succeeded, tr_dataset = Some Bars, tr_region = Some CN, tr_count = 2,
       tr_rejected = 0, tr_attempt = 1, tr_run = Some ''r1'', tr_runs = [''r1''], tr_error = None\<rparr>, n + 1))\<rparr>"

definition demo_worker :: "nat worker" where
  "demo_worker = \<lparr>wk_tasks = [demo_scheduled], wk_try_lock = (\<lambda>k. ret True), wk_unlock = (\<lambda>k. ret ()), wk_max_attempts = 3, wk_retry_delay = 5,
     wk_materialize = Some (\<lambda>d rs. throw ValueError), wk_workflow = None, wk_digest = (\<lambda>s. [1, 2, 3, 4, 5, 6, 7, 8, 9])\<rparr>"

definition demo_worker_world :: "nat worker_world" where
  "demo_worker_world = \<lparr>ww_state = 0, ww_held = [], ww_sleeps = []\<rparr>"

lemma demo_make_worker: "make_worker demo_worker = Inr demo_worker"
  by (simp add: make_worker_def demo_worker_def)

theorem task_runs_within_attempts_witness:
  "\<exists>r w'. run_task demo_worker demo_scheduled 1 demo_worker_world = (Inr r, w') \<and> tr_attempt r \<le> (3 :: int)"
proof -
  obtain s w' where run: "run_task demo_worker demo_scheduled 1 demo_worker_world = (s, w')" by fastforce
  show ?thesis using task_runs_within_attempts [OF demo_make_worker run] run by (auto simp: demo_worker_def)
qed

definition demo_failed :: task_result where
  "demo_failed = task_ended demo_scheduled Task_failed 1 ''ValueError''"

theorem report_status_is_worst_outcome_witness:
  "combine_status (worker_status [demo_failed] [demo_scheduled]) QDegraded = Wk_blocked"
proof -
  have "map tr_task [demo_failed] = map st_id [demo_scheduled]" by (simp add: demo_failed_def task_ended_def)
  from report_status_is_worst_outcome [OF _ _ this, of QDegraded] show ?thesis
    by (simp add: worst_Cons task_severity_def demo_failed_def task_ended_def demo_scheduled_def max_def less_eq_worker_status_def)
qed

text \<open>A workflow that raises, and whose failure notice raises as well.\<close>

definition demo_broken_flow :: "nat report_workflow" where
  "demo_broken_flow = \<lparr>rw_complete = (\<lambda>r. throw RuntimeError), rw_retry_exhausted = ret, rw_unhandled_failure = (\<lambda>r code. throw ValueError)\<rparr>"

theorem report_date_fails_closed_witness:
  "\<exists>r w'. run_for_date (demo_worker\<lparr>wk_workflow := Some demo_broken_flow\<rparr>) 1 demo_worker_world = (Inr r, w') \<and> ww_held w' = []
     \<and> wr_status r = Wk_blocked \<and> wr_stage r = Some ''scheduler'' \<and> wr_error r = Some ''RuntimeError'' \<and> wr_alert r = Some ''failed''"
proof -
  let ?c = "demo_worker\<lparr>wk_workflow := Some demo_broken_flow\<rparr>"
  have c: "make_worker ?c = Inr ?c" "wk_tasks ?c \<noteq> []" by (simp_all add: make_worker_def demo_worker_def)
  have lock: "wk_try_lock ?c (report_date_lock_key (wk_digest ?c) 1) (ww_state demo_worker_world) = (Inr True, ww_state demo_worker_world)"
    by (simp add: demo_worker_def)
  have unlock: "wk_unlock ?c k y = (Inr (), y)" for k y by (simp add: demo_worker_def)
  have flow: "wk_workflow ?c = Some demo_broken_flow" by simp
  have held: "ww_held demo_worker_world = []" by (simp add: demo_worker_world_def)
  from report_date_fails_closed [OF c lock, unfolded if_not_P [OF not_not [THEN iffD2, OF TrueI]] unlock flow held]
  show ?thesis by (force simp: demo_broken_flow_def Let_def)
qed

lemma demo_run_date: "\<exists>r w'. run_date demo_worker d w = (Inr r, w')"
proof -
  have tasks: "wk_tasks demo_worker \<noteq> []" by (simp add: demo_worker_def)
  have lock: "wk_try_lock demo_worker k x = (Inr True, x)" "wk_unlock demo_worker k y = (Inr (), y)" for k x y
    by (simp_all add: demo_worker_def)
  have "\<exists>r w'. run_for_date demo_worker d w = (Inr r, w')"
    by (rule run_for_date_body [OF demo_make_worker tasks refl lock(1), of d w]) (simp add: lock)
  moreover have "notify_retry_exhausted demo_worker r v = (Inr r, v)" for r v
    by (simp add: notify_retry_exhausted_def demo_worker_def)
  ultimately show ?thesis by (auto simp: run_date_def bindA_def)
qed

theorem backfill_covers_each_date_witness:
  "\<exists>rs w'. backfill demo_worker 1 2 demo_worker_world = (Inr rs, w') \<and> map wr_date rs = [1, 2 :: int]"
proof -
  obtain r1 w1 where 1: "run_date demo_worker 1 demo_worker_world = (Inr r1, w1)" using demo_run_date by blast
  obtain r2 w2 where 2: "run_date demo_worker 2 w1 = (Inr r2, w2)" using demo_run_date by blast
  have run: "backfill demo_worker 1 2 demo_worker_world = (Inr [r1, r2], w2)"
    using 1 2 by (simp add: backfill_def backfill_from.simps bindA_def)
  have "wk_workflow demo_worker = None" by (simp add: demo_worker_def)
  then have "map wr_date [r1, r2] = [1..2]" using backfill_covers_each_date [OF _ run] by simp
  also have "[1..2] = [1, 2 :: int]" by (simp add: upto.simps)
  finally show ?thesis using run by (intro exI conjI)
qed

end
