(* ===== verification/Schedule_Loop.thy ===== *)
theory Schedule_Loop
  imports Scheduled_Worker
begin

text \<open>
  The daily schedule of the worker: \<open>_run_configured_schedule\<close>, \<open>_first_safe_run_time\<close> and
  \<open>_report_cutoff_at\<close> of \<open>jobs/scheduled_runtime.py\<close>. The loop polls the clock, runs the worker for the
  date of the local day once its time has come, and retries a date that did not finish. The worker,
  the clock and the sleeper are ports; the world adds a log of the runs and notices. The lemmas show the
  retry policy of every date in every state the loop can reach, and that a loop with a limited
  number of runs returns.
\<close>

section \<open>The loop\<close>

text \<open>Times are microseconds. \<open>sd_max_runs\<close> is \<open>max_schedule_runs\<close>.\<close>

record 'w schedule =
  sd_run :: "date \<Rightarrow> ('w, worker_result) act"
  sd_notify :: "worker_result \<Rightarrow> ('w, worker_result) act"
  sd_now :: "('w, instant) act"
  sd_sleep :: "int \<Rightarrow> ('w, unit) act"
  sd_zone :: zone
  sd_time :: int
  sd_poll :: int
  sd_retry_delay :: int
  sd_max_attempts :: int
  sd_max_runs :: "int option"

text \<open>The log has a run as the local time that was read before it, with the status it returned.\<close>

record 'w schedule_world =
  sx_state :: 'w
  sx_runs :: "(int \<times> worker_status) list"
  sx_notices :: "date list"

text \<open>The local variables of the loop.\<close>

record schedule_state =
  ss_completed :: "date list"
  ss_attempts :: "date \<rightharpoonup> int"
  ss_next :: "date \<rightharpoonup> int"
  ss_runs :: int

definition schedule_start :: schedule_state where
  "schedule_start = \<lparr>ss_completed = [], ss_attempts = Map.empty, ss_next = Map.empty, ss_runs = 0\<rparr>"

definition on_state :: "('w, 'a) act \<Rightarrow> ('w schedule_world, 'a) act" where
  "on_state m w = (case m (sx_state w) of (r, x) \<Rightarrow> (r, w\<lparr>sx_state := x\<rparr>))"

definition log_run :: "int \<Rightarrow> worker_result \<Rightarrow> ('w schedule_world, unit) act" where
  "log_run t r w = (Inr (), w\<lparr>sx_runs := sx_runs w @ [(t, wr_status r)]\<rparr>)"

definition log_notice :: "date \<Rightarrow> ('w schedule_world, unit) act" where
  "log_notice d w = (Inr (), w\<lparr>sx_notices := sx_notices w @ [d]\<rparr>)"

definition unfinished_status :: "worker_status \<Rightarrow> bool" where
  "unfinished_status st \<longleftrightarrow> st \<notin> {Wk_succeeded, Wk_degraded, Wk_blocked}"

text \<open>The wait before the attempt after the \<open>n\<close>-th one.\<close>

definition run_delay :: "'w schedule \<Rightarrow> int \<Rightarrow> worker_status \<Rightarrow> int" where
  "run_delay c n st = (if st = Wk_locked then sd_poll c else sd_retry_delay c * 2 ^ nat (n - 1))"

definition attempts_of :: "schedule_state \<Rightarrow> date \<Rightarrow> int" where
  "attempts_of s d = (case ss_attempts s d of Some n \<Rightarrow> n | None \<Rightarrow> 0)"

definition complete_date :: "date \<Rightarrow> schedule_state \<Rightarrow> schedule_state" where
  "complete_date d s = s\<lparr>ss_completed := List.insert d (ss_completed s), ss_next := (ss_next s)(d := None)\<rparr>"

definition after_run :: "'w schedule \<Rightarrow> schedule_state \<Rightarrow> int \<Rightarrow> worker_result \<Rightarrow> ('w schedule_world, (unit, schedule_state) loop_step) act" where
  "after_run c s t r = (let d = wall_date t; n = attempts_of s d + 1; s1 = s\<lparr>ss_runs := ss_runs s + 1\<rparr>;
       s2 = s1\<lparr>ss_attempts := (ss_attempts s)(d \<mapsto> n)\<rparr> in
     if \<not> unfinished_status (wr_status r) then ret (Again ((complete_date d s1)\<lparr>ss_attempts := (ss_attempts s)(d := None)\<rparr>))
     else if sd_max_attempts c \<le> n then bindA (log_notice d) (\<lambda>_. bindA (on_state (sd_notify c r)) (\<lambda>_. ret (Again (complete_date d s2))))
     else ret (Again (s2\<lparr>ss_next := (ss_next s)(d \<mapsto> t + run_delay c n (wr_status r))\<rparr>)))"

text \<open>The date of a local time is due: its time has come, it is not completed and its next attempt may start.\<close>

definition date_due :: "'w schedule \<Rightarrow> schedule_state \<Rightarrow> int \<Rightarrow> bool" where
  "date_due c s t \<longleftrightarrow> sd_time c \<le> wall_time t \<and> wall_date t \<notin> set (ss_completed s)
     \<and> (case ss_next s (wall_date t) of None \<Rightarrow> True | Some due \<Rightarrow> due \<le> t)"

definition schedule_step :: "'w schedule \<Rightarrow> schedule_state \<Rightarrow> ('w schedule_world, (unit, schedule_state) loop_step) act" where
  "schedule_step c s =
     (if case sd_max_runs c of None \<Rightarrow> False | Some m \<Rightarrow> m \<le> ss_runs s then ret (Finished ())
      else bindA (on_state (sd_now c)) (\<lambda>now. let t = to_wall (sd_zone c) now in
        if date_due c s t
        then bindA (on_state (sd_run c (wall_date t))) (\<lambda>r. bindA (log_run t r) (\<lambda>_. after_run c s t r))
        else bindA (on_state (sd_sleep c (sd_poll c))) (\<lambda>_. ret (Again s))))"

definition run_configured_schedule :: "'w schedule \<Rightarrow> ('w schedule_world, unit) loop_act" where
  "run_configured_schedule c = (if sd_max_attempts c < 1 then runO (throw ValueError) else repeatA (schedule_step c) schedule_start)"

text \<open>\<open>_first_safe_run_time\<close> and \<open>_report_cutoff_at\<close>.\<close>

definition first_safe_run_time :: "int \<Rightarrow> int \<Rightarrow> int \<Rightarrow> int \<Rightarrow> exn + int" where
  "first_safe_run_time h m cutoff_h cutoff_m =
     (if time_of_day cutoff_h cutoff_m \<le> time_of_day h m then Inl ValueError else Inr (time_of_day h m))"

definition report_cutoff_at :: "zone \<Rightarrow> int \<Rightarrow> int \<Rightarrow> date \<Rightarrow> instant" where
  "report_cutoff_at z h m d = of_wall z (combine d (time_of_day h m))"

section \<open>The states of the loop\<close>

inductive schedule_reaches :: "'w schedule \<Rightarrow> 'w schedule_world \<Rightarrow> schedule_state \<Rightarrow> 'w schedule_world \<Rightarrow> bool" for c w0 where
  start: "schedule_reaches c w0 schedule_start w0"
| step: "schedule_reaches c w0 s w \<Longrightarrow> schedule_step c s w = (Inr (Again s'), w') \<Longrightarrow> schedule_reaches c w0 s' w'"

code_pred schedule_reaches .

text \<open>What one iteration does: nothing, or one run, logged under its date.\<close>

lemma on_state_log: "on_state m w = (r, w') \<Longrightarrow> sx_runs w' = sx_runs w \<and> sx_notices w' = sx_notices w"
  by (auto simp: on_state_def split: prod.splits)

lemma schedule_step_cases:
  assumes "schedule_step c s w = (Inr (Again s'), w')"
  obtains (idle) "s' = s" "sx_runs w' = sx_runs w" "sx_notices w' = sx_notices w"
  | (finished) t st where "date_due c s t" "\<not> unfinished_status st" "sx_runs w' = sx_runs w @ [(t, st)]" "sx_notices w' = sx_notices w"
      "s' = (complete_date (wall_date t) s)\<lparr>ss_runs := ss_runs s + 1, ss_attempts := (ss_attempts s)(wall_date t := None)\<rparr>"
  | (exhausted) t st where "date_due c s t" "unfinished_status st" "sd_max_attempts c \<le> attempts_of s (wall_date t) + 1"
      "sx_runs w' = sx_runs w @ [(t, st)]" "sx_notices w' = sx_notices w @ [wall_date t]"
      "s' = (complete_date (wall_date t) s)\<lparr>ss_runs := ss_runs s + 1, ss_attempts := (ss_attempts s)(wall_date t \<mapsto> attempts_of s (wall_date t) + 1)\<rparr>"
  | (retried) t st where "date_due c s t" "unfinished_status st" "attempts_of s (wall_date t) + 1 < sd_max_attempts c"
      "sx_runs w' = sx_runs w @ [(t, st)]" "sx_notices w' = sx_notices w"
      "s' = s\<lparr>ss_runs := ss_runs s + 1, ss_attempts := (ss_attempts s)(wall_date t \<mapsto> attempts_of s (wall_date t) + 1),
         ss_next := (ss_next s)(wall_date t \<mapsto> t + run_delay c (attempts_of s (wall_date t) + 1) st)\<rparr>"
proof -
  obtain now w1 where now: "on_state (sd_now c) w = (Inr now, w1)" and log1: "sx_runs w1 = sx_runs w" "sx_notices w1 = sx_notices w"
    using assms on_state_log by (fastforce simp: schedule_step_def bindA_def split: prod.splits sum.splits if_splits)
  define t where "t = to_wall (sd_zone c) now"
  show thesis
  proof (cases "date_due c s t")
    case False
    then obtain w2 where "on_state (sd_sleep c (sd_poll c)) w1 = (Inr (), w2)" "s' = s" "w' = w2"
      using assms now by (auto simp: schedule_step_def bindA_def t_def [symmetric] split: prod.splits sum.splits if_splits)
    then show thesis using idle on_state_log log1 by metis
  next
    case True
    then obtain r w2 where run: "on_state (sd_run c (wall_date t)) w1 = (Inr r, w2)"
      and next_s: "bindA (log_run t r) (\<lambda>_. after_run c s t r) w2 = (Inr (Again s'), w')"
      using assms now by (auto simp: schedule_step_def bindA_eq t_def [symmetric] split: if_splits)
    define w3 where "w3 = w2\<lparr>sx_runs := sx_runs w2 @ [(t, wr_status r)]\<rparr>"
    have log: "sx_runs w3 = sx_runs w @ [(t, wr_status r)]" "sx_notices w3 = sx_notices w"
      using on_state_log [OF run] log1 by (simp_all add: w3_def)
    have after: "after_run c s t r w3 = (Inr (Again s'), w')" using next_s by (simp add: bindA_def log_run_def w3_def)
    show thesis
    proof (cases "unfinished_status (wr_status r)")
      case False
      then show thesis using after log finished [OF True, of "wr_status r"] by (auto simp: after_run_def Let_def complete_date_def)
    next
      case left: True
      show thesis
      proof (cases "sd_max_attempts c \<le> attempts_of s (wall_date t) + 1")
        case False
        then show thesis using after log left retried [OF True left] by (auto simp: after_run_def Let_def)
      next
        case max: True
        define w4 where "w4 = w3\<lparr>sx_notices := sx_notices w3 @ [wall_date t]\<rparr>"
        obtain x where x: "on_state (sd_notify c r) w4 = (Inr x, w')"
          and s': "s' = complete_date (wall_date t) (s\<lparr>ss_runs := ss_runs s + 1, ss_attempts := (ss_attempts s)(wall_date t \<mapsto> attempts_of s (wall_date t) + 1)\<rparr>)"
          using after left max by (auto simp: after_run_def Let_def bindA_eq log_notice_def w4_def [symmetric])
        show thesis using exhausted [OF True left max] on_state_log [OF x] log s' by (simp add: w4_def complete_date_def)
      qed
    qed
  qed
qed


section \<open>The retry policy of a date\<close>

definition runs_on :: "date \<Rightarrow> 'w schedule_world \<Rightarrow> (int \<times> worker_status) list" where
  "runs_on d w = filter (\<lambda>x. wall_date (fst x) = d) (sx_runs w)"

text \<open>Every run starts after the time of the schedule; another run follows only an unfinished one, after its delay.\<close>

definition follows_policy :: "'w schedule \<Rightarrow> (int \<times> worker_status) list \<Rightarrow> bool" where
  "follows_policy c rs \<longleftrightarrow> (\<forall>x \<in> set rs. sd_time c \<le> wall_time (fst x))
     \<and> (\<forall>k. Suc k < length rs \<longrightarrow> unfinished_status (snd (rs ! k)) \<and> fst (rs ! k) + run_delay c (int k + 1) (snd (rs ! k)) \<le> fst (rs ! Suc k))"

lemma follows_policy_snoc:
  assumes "follows_policy c rs" "sd_time c \<le> wall_time t"
    and "rs \<noteq> [] \<Longrightarrow> unfinished_status (snd (last rs)) \<and> fst (last rs) + run_delay c (int (length rs)) (snd (last rs)) \<le> t"
  shows "follows_policy c (rs @ [(t, st)])"
proof -
  let ?q = "rs @ [(t, st)]"
  have "unfinished_status (snd (?q ! k)) \<and> fst (?q ! k) + run_delay c (int k + 1) (snd (?q ! k)) \<le> fst (?q ! Suc k)" if "Suc k < length ?q" for k
  proof (cases "Suc k < length rs")
    case True
    then show ?thesis using assms(1) by (auto simp: follows_policy_def nth_append)
  next
    case False
    then have k: "length rs = Suc k" using that by simp
    then have "rs \<noteq> []" "int k + 1 = int (length rs)" by auto
    moreover from this(1) have "last rs = rs ! k" using k by (simp add: last_conv_nth)
    ultimately have "rs \<noteq> []" "last rs = rs ! k" "int k + 1 = int (length rs)" by auto
    then show ?thesis using assms(3) k by (auto simp: nth_append ac_simps)
  qed
  then show ?thesis using assms(1,2) by (auto simp: follows_policy_def)
qed

definition date_state :: "'w schedule \<Rightarrow> date \<Rightarrow> schedule_state \<Rightarrow> 'w schedule_world \<Rightarrow> bool" where
  "date_state c d s w \<longleftrightarrow> (let rs = runs_on d w; given_up = rs \<noteq> [] \<and> unfinished_status (snd (last rs)) in
     follows_policy c rs \<and> int (length rs) \<le> sd_max_attempts c
     \<and> (if d \<in> set (ss_completed s)
        then rs \<noteq> [] \<and> count_list (sx_notices w) d = (if given_up then 1 else 0) \<and> (given_up \<longrightarrow> int (length rs) = sd_max_attempts c)
        else count_list (sx_notices w) d = 0 \<and> attempts_of s d = int (length rs) \<and> int (length rs) < sd_max_attempts c
          \<and> ss_next s d = (if rs = [] then None else Some (fst (last rs) + run_delay c (int (length rs)) (snd (last rs)))) \<and> (rs \<noteq> [] \<longrightarrow> given_up)))"

lemma date_state_other:
  assumes "date_state c d s w" "runs_on d w' = runs_on d w" "count_list (sx_notices w') d = count_list (sx_notices w) d"
    and "d \<in> set (ss_completed s') \<longleftrightarrow> d \<in> set (ss_completed s)" "attempts_of s' d = attempts_of s d" "ss_next s' d = ss_next s d"
  shows "date_state c d s' w'"
  using assms(1) unfolding date_state_def assms(2-6) .

lemma date_state_step:
  assumes "date_state c d s w" "schedule_step c s w = (Inr (Again s'), w')"
  shows "date_state c d s' w'"
  using assms(2)
proof (cases rule: schedule_step_cases)
  case idle
  then show ?thesis by (intro date_state_other [OF assms(1)]) (simp_all add: runs_on_def)
next
  case (finished t st)
  show ?thesis
  proof (cases "wall_date t = d")
    case True
    have "follows_policy c (runs_on d w @ [(t, st)])"
      by (rule follows_policy_snoc) (use assms(1) finished(1) True in \<open>auto simp: date_state_def Let_def date_due_def split: if_splits\<close>)
    then show ?thesis using assms(1) finished True
      by (auto simp: date_state_def Let_def date_due_def runs_on_def complete_date_def split: if_splits)
  next
    case False
    then show ?thesis using finished
      by (intro date_state_other [OF assms(1)]) (auto simp: runs_on_def complete_date_def attempts_of_def)
  qed
next
  case (exhausted t st)
  show ?thesis
  proof (cases "wall_date t = d")
    case True
    have "follows_policy c (runs_on d w @ [(t, st)])"
      by (rule follows_policy_snoc) (use assms(1) exhausted(1) True in \<open>auto simp: date_state_def Let_def date_due_def split: if_splits\<close>)
    then show ?thesis using assms(1) exhausted True
      by (auto simp: date_state_def Let_def date_due_def runs_on_def complete_date_def split: if_splits)
  next
    case False
    then show ?thesis using exhausted
      by (intro date_state_other [OF assms(1)]) (auto simp: runs_on_def complete_date_def attempts_of_def)
  qed
next
  case (retried t st)
  show ?thesis
  proof (cases "wall_date t = d")
    case True
    have "follows_policy c (runs_on d w @ [(t, st)])"
      by (rule follows_policy_snoc) (use assms(1) retried(1) True in \<open>auto simp: date_state_def Let_def date_due_def split: if_splits\<close>)
    then show ?thesis using assms(1) retried True
      by (auto simp: date_state_def Let_def date_due_def runs_on_def attempts_of_def ac_simps split: if_splits option.splits)
  next
    case False
    then show ?thesis using retried
      by (intro date_state_other [OF assms(1)]) (auto simp: runs_on_def attempts_of_def)
  qed
qed

lemma schedule_date_state:
  assumes "schedule_reaches c w0 s w" "1 \<le> sd_max_attempts c" "sx_runs w0 = []" "sx_notices w0 = []"
  shows "date_state c d s w"
  using assms(1)
proof (induction rule: schedule_reaches.induct)
  case start
  show ?case using assms(2-4) by (simp add: date_state_def schedule_start_def runs_on_def attempts_of_def follows_policy_def)
qed (rule date_state_step)

text \<open>C11: In every state the schedule can reach, each date was run at most the configured number of times, never before the time of the
  schedule on that day; another run followed only an unfinished one, and not before its delay (the poll interval when the date was locked,
  otherwise the doubling retry delay); and the exhaustion of its retries was reported exactly once, exactly when all runs are used up and
  the last of them is unfinished.\<close>

theorem schedule_retries_each_date_by_policy:
  fixes d :: date
  assumes "schedule_reaches c w0 s w" "1 \<le> sd_max_attempts c" "sx_runs w0 = []" "sx_notices w0 = []"
  defines "rs \<equiv> filter (\<lambda>x. wall_date (fst x) = d) (sx_runs w)"
  shows "int (length rs) \<le> sd_max_attempts c \<and> (\<forall>x \<in> set rs. sd_time c \<le> wall_time (fst x))
    \<and> (\<forall>k. Suc k < length rs \<longrightarrow> snd (rs ! k) \<in> {Wk_retryable, Wk_locked}
         \<and> fst (rs ! k) + (if snd (rs ! k) = Wk_locked then sd_poll c else sd_retry_delay c * 2 ^ k) \<le> fst (rs ! Suc k))
    \<and> count_list (sx_notices w) d = (if int (length rs) = sd_max_attempts c \<and> snd (last rs) \<in> {Wk_retryable, Wk_locked} then 1 else 0)"
proof -
  have left: "unfinished_status st \<longleftrightarrow> st \<in> {Wk_retryable, Wk_locked}" for st by (cases st) (simp_all add: unfinished_status_def)
  have "rs = runs_on d w" by (simp add: rs_def runs_on_def)
  moreover note schedule_date_state [OF assms(1-4), of d]
  ultimately have st: "follows_policy c rs" "int (length rs) \<le> sd_max_attempts c"
    "count_list (sx_notices w) d = (if int (length rs) = sd_max_attempts c \<and> unfinished_status (snd (last rs)) then 1 else 0)"
    using assms(2) by (auto simp: date_state_def Let_def split: if_splits)
  then show ?thesis unfolding follows_policy_def run_delay_def left by auto
qed

section \<open>A loop with a limited number of runs returns\<close>

text \<open>
  A clock that the run and the notice never turn back and that a sleep moves by its length and at most
  \<open>slack\<close> more, read in a zone with a fixed offset.
\<close>

definition schedule_clock :: "'w schedule \<Rightarrow> int \<Rightarrow> int \<Rightarrow> ('w \<Rightarrow> instant) \<Rightarrow> bool" where
  "schedule_clock c off slack clk \<longleftrightarrow> sd_zone c = fixed_zone off \<and> (\<forall>x. sd_now c x = (Inr (clk x), x))
     \<and> (\<forall>d x. clk x \<le> clk (snd (sd_run c d x))) \<and> (\<forall>r x. clk x \<le> clk (snd (sd_notify c r x)))
     \<and> (\<forall>x. clk x + sd_poll c \<le> clk (snd (sd_sleep c (sd_poll c) x)) \<and> clk (snd (sd_sleep c (sd_poll c) x)) \<le> clk x + sd_poll c + slack)"

definition known_dates :: "schedule_state \<Rightarrow> date set" where
  "known_dates s = set (ss_completed s) \<union> dom (ss_next s)"

lemma schedule_step_clock:
  assumes clock: "schedule_clock c off slack clk" and run: "schedule_step c s w = (Inr (Again s'), w')"
  defines "t \<equiv> clk (sx_state w) + off" and "t' \<equiv> clk (sx_state w') + off"
  shows "(\<forall>m. sd_max_runs c = Some m \<longrightarrow> ss_runs s < m)
    \<and> (\<not> date_due c s t \<and> s' = s \<and> sx_runs w' = sx_runs w \<and> t + sd_poll c \<le> t' \<and> t' \<le> t + sd_poll c + slack
      \<or> date_due c s t \<and> ss_runs s' = ss_runs s + 1 \<and> length (sx_runs w') = length (sx_runs w) + 1 \<and> t \<le> t'
        \<and> known_dates s' \<subseteq> insert (wall_date t) (known_dates s))"
proof -
  have now: "on_state (sd_now c) w = (Inr (clk (sx_state w)), w)" and wall: "to_wall (sd_zone c) (clk (sx_state w)) = t"
    using clock by (simp_all add: on_state_def schedule_clock_def fixed_zone_def t_def)
  have mono: "clk (sx_state v) \<le> clk (sx_state v')" if "on_state (sd_run c d) v = (r, v') \<or> on_state (sd_notify c q) v = (r, v')" for d q v v' r
    using that clock by (auto simp: schedule_clock_def on_state_def split: prod.splits dest: arg_cong [where f = snd]) (metis snd_conv)+
  have limit: "\<forall>m. sd_max_runs c = Some m \<longrightarrow> ss_runs s < m"
    using run by (auto simp: schedule_step_def split: if_splits)
  show ?thesis
  proof (cases "date_due c s t")
    case False
    obtain w2 where "on_state (sd_sleep c (sd_poll c)) w = (Inr (), w2)" "s' = s" "w' = w2"
      using run False by (auto simp: schedule_step_def bindA_def now wall split: prod.splits sum.splits if_splits)
    then show ?thesis using clock False limit on_state_log [of "sd_sleep c (sd_poll c)" w]
      by (auto simp: schedule_clock_def on_state_def t_def t'_def split: prod.splits dest!: spec [of _ "sx_state w"])
  next
    case True
    then obtain r w2 where r: "on_state (sd_run c (wall_date t)) w = (Inr r, w2)"
      and rest: "after_run c s t r (w2\<lparr>sx_runs := sx_runs w2 @ [(t, wr_status r)]\<rparr>) = (Inr (Again s'), w')"
      using run by (auto simp: schedule_step_def bindA_eq now wall log_run_def split: if_splits)
    have "t \<le> clk (sx_state w2) + off" using mono [of "wall_date t" w "Inr r" w2] r by (simp add: t_def)
    moreover have "clk (sx_state w2) \<le> clk (sx_state w')" "length (sx_runs w') = length (sx_runs w2) + 1" "ss_runs s' = ss_runs s + 1"
      "known_dates s' \<subseteq> insert (wall_date t) (known_dates s)"
      using rest mono by (fastforce simp: after_run_def Let_def bindA_eq log_notice_def known_dates_def complete_date_def dest: on_state_log split: if_splits)+
    ultimately show ?thesis using True limit on_state_log [OF r] by (simp add: t'_def)
  qed
qed


lemma wall_bounds: "wall_date t * day_us \<le> t" "t < (wall_date t + 1) * day_us"
  by (simp_all add: wall_date_def us_defs)

lemma wall_date_eqI: "d * day_us \<le> t \<Longrightarrow> t < (d + 1) * day_us \<Longrightarrow> wall_date t = d"
  by (simp add: wall_date_def us_defs)

text \<open>The start of the next run that is certain to come: today's when the date is new, otherwise tomorrow's.\<close>

definition next_start :: "'w schedule \<Rightarrow> schedule_state \<Rightarrow> int \<Rightarrow> int" where
  "next_start c s t = combine (if wall_date t \<in> known_dates s then wall_date t + 1 else wall_date t) (sd_time c)"

lemma new_date_due: "wall_date t \<notin> known_dates s \<Longrightarrow> combine (wall_date t) (sd_time c) \<le> t \<Longrightarrow> date_due c s t"
  using combine_wall [of t] by (auto simp: date_due_def known_dates_def combine_def dom_def)

lemma next_start_bounds:
  assumes "0 \<le> sd_time c" "sd_time c < day_us" "\<not> date_due c s t"
  shows "t < next_start c s t"
proof (cases "wall_date t \<in> known_dates s")
  case True
  then show ?thesis using wall_bounds(2) [of t] assms(1) by (simp add: next_start_def combine_def)
next
  case False
  then have "\<not> combine (wall_date t) (sd_time c) \<le> t" using new_date_due assms(3) by blast
  then show ?thesis using False by (simp add: next_start_def)
qed

lemma next_start_idle:
  assumes w: "0 \<le> sd_time c" "sd_time c < day_us" "0 < sd_poll c" "0 \<le> slack" "sd_poll c + slack \<le> day_us - sd_time c"
    and "\<not> date_due c s t" "t + sd_poll c \<le> t'" "t' \<le> t + sd_poll c + slack" "\<forall>d \<in> known_dates s. d \<le> wall_date t"
  shows "next_start c s t' = next_start c s t \<and> wall_date t \<le> wall_date t'"
proof -
  note b = wall_bounds [of t]
  have lower: "wall_date t * day_us \<le> t'" using b(1) assms(7) w(3) by simp
  show ?thesis
  proof (cases "t' < (wall_date t + 1) * day_us")
    case True
    then have "wall_date t' = wall_date t" using lower by (intro wall_date_eqI)
    then show ?thesis by (simp add: next_start_def)
  next
    case False
    have "t' < (wall_date t + 1) * day_us + day_us" using b(2) assms(8) w by linarith
    then have tomorrow: "wall_date t' = wall_date t + 1" using False by (intro wall_date_eqI) (simp_all add: algebra_simps)
    have "wall_date t \<in> known_dates s"
    proof (rule ccontr)
      assume new: "wall_date t \<notin> known_dates s"
      then have "t < combine (wall_date t) (sd_time c)" using new_date_due assms(6) by (metis not_le)
      then show False using False assms(8) w(5) by (simp add: combine_def algebra_simps)
    qed
    moreover have "wall_date t + 1 \<notin> known_dates s" using assms(9) by auto
    ultimately show ?thesis by (simp add: next_start_def tomorrow)
  qed
qed

lemma next_start_near: "0 \<le> sd_time c \<Longrightarrow> sd_time c < day_us \<Longrightarrow> nat (next_start c s t - t) \<le> nat (2 * day_us)"
  using wall_bounds(1) [of t] by (auto simp: next_start_def combine_def algebra_simps intro!: nat_mono)

text \<open>C12: With a limit on the number of runs, the schedule returns, however long a run takes, where four conditions hold: the zone is at a
  fixed offset from UTC, the clock answers and never runs backwards (a run or a notice may take any time), a pause lasts at least the
  poll interval and is late by at most \<open>slack\<close>, and the poll interval with this lateness is not longer than the time from the schedule
  time to midnight, so that no date is stepped over. The loop then ends with exactly the configured number of runs, unless a run, a
  notice, the clock or the sleeper raises. (Accepted settings can violate the last condition, and the loop may then never return.)\<close>

theorem schedule_with_run_limit_returns:
  fixes c :: "'w schedule" and w :: "'w schedule_world"
  assumes clock: "schedule_clock c off slack clk" and "sd_max_runs c = Some m" "0 \<le> m" "0 \<le> slack"
    and "0 \<le> sd_time c" "sd_time c < day_us" "0 < sd_poll c" "sd_poll c + slack \<le> day_us - sd_time c" "1 \<le> sd_max_attempts c"
  shows "\<exists>r w'. run_configured_schedule c w = Some (r, w') \<and> (r = Inr () \<longrightarrow> int (length (sx_runs w')) = int (length (sx_runs w)) + m)"
proof -
  define t where "t v = clk (sx_state v) + off" for v :: "'w schedule_world"
  define I where "I = (\<lambda>s v. \<forall>d \<in> known_dates s. d \<le> wall_date (t v))"
  define \<mu> where "\<mu> = (\<lambda>s v. nat (m - ss_runs s) * (nat (2 * day_us) + 1) + nat (next_start c s (t v) - t v))"
  have step: "I s' v' \<and> \<mu> s' v' < \<mu> s v" if inv: "I s v" and st: "schedule_step c s v = (Inr (Again s'), v')" for s v s' v'
  proof -
    note cases = schedule_step_clock [OF clock st, folded t_def]
    have runs: "ss_runs s < m" using cases assms(2) by simp
    from cases show ?thesis
    proof (elim conjE disjE)
      assume idle: "\<not> date_due c s (t v)" "s' = s" "t v + sd_poll c \<le> t v'" "t v' \<le> t v + sd_poll c + slack"
      note same = next_start_idle [OF assms(5,6,7,4,8) idle(1,3,4)] and far = next_start_bounds [OF assms(5,6) idle(1)]
      have "\<forall>d \<in> known_dates s. d \<le> wall_date (t v)" using inv by (simp add: I_def)
      from same [OF this] show ?thesis using inv idle far assms(7) by (auto simp: I_def \<mu>_def)
    next
      assume ran: "ss_runs s' = ss_runs s + 1" "t v \<le> t v'" "known_dates s' \<subseteq> insert (wall_date (t v)) (known_dates s)"
      have "wall_date (t v) \<le> wall_date (t v')" using ran(2) by (simp add: wall_date_def zdiv_mono1 us_defs)
      then have "I s' v'" using inv ran(3) by (fastforce simp: I_def)
      moreover have "nat (m - ss_runs s) = Suc (nat (m - ss_runs s'))" using runs ran(1) by simp
      then have "\<mu> s' v' < \<mu> s v" using next_start_near [OF assms(5,6), of s' "t v'"] unfolding \<mu>_def by simp
      ultimately show ?thesis by simp
    qed
  qed
  have "I schedule_start w" by (simp add: I_def schedule_start_def known_dates_def)
  then obtain r w' where ran: "repeatA (schedule_step c) schedule_start w = Some (r, w')"
    using repeatA_returns [where I = I and m = \<mu>, of schedule_start w "schedule_step c"] step by blast
  have "r = Inr () \<longrightarrow> int (length (sx_runs w')) = int (length (sx_runs w)) + m"
  proof (rule repeatA_invariant [where I = "\<lambda>s v. int (length (sx_runs v)) = int (length (sx_runs w)) + ss_runs s \<and> ss_runs s \<le> m"
      and Q = "\<lambda>r v. r = Inr () \<longrightarrow> int (length (sx_runs v)) = int (length (sx_runs w)) + m", OF ran])
    show "int (length (sx_runs w)) = int (length (sx_runs w)) + ss_runs schedule_start \<and> ss_runs schedule_start \<le> m"
      using assms(3) by (simp add: schedule_start_def)
  next
    fix s s' and v v' :: "'w schedule_world"
    assume "int (length (sx_runs v)) = int (length (sx_runs w)) + ss_runs s \<and> ss_runs s \<le> m" "schedule_step c s v = (Inr (Again s'), v')"
    then show "int (length (sx_runs v')) = int (length (sx_runs w)) + ss_runs s' \<and> ss_runs s' \<le> m"
      using schedule_step_clock [OF clock] assms(2) by fastforce
  next
    fix s x r and v v' :: "'w schedule_world"
    assume inv: "int (length (sx_runs v)) = int (length (sx_runs w)) + ss_runs s \<and> ss_runs s \<le> m"
      and st: "schedule_step c s v = (x, v')" and ends: "ends_with x r"
    show "r = Inr () \<longrightarrow> int (length (sx_runs v')) = int (length (sx_runs w)) + m"
    proof
      assume "r = Inr ()"
      then have "x = Inr (Finished ())" using ends by (cases x rule: sum.exhaust; cases "projr x") auto
      then have "m \<le> ss_runs s \<and> v' = v" using st assms(2)
        by (auto simp: schedule_step_def bindA_eq after_run_def Let_def split: if_splits)
      then show "int (length (sx_runs v')) = int (length (sx_runs w)) + m" using inv by simp
    qed
  qed
  then show ?thesis using ran assms(9) by (auto simp: run_configured_schedule_def)
qed


section \<open>Examples\<close>

text \<open>A clock, and a worker whose runs take a second and find the date locked by another worker.\<close>

definition demo_schedule :: "int option \<Rightarrow> instant schedule" where
  "demo_schedule max_runs = \<lparr>sd_run = (\<lambda>d t. (Inr (plain_result d Wk_locked []), t + second_us)), sd_notify = (\<lambda>r t. (Inr r, t)), sd_now = (\<lambda>t. (Inr t, t)),
     sd_sleep = (\<lambda>d t. (Inr (), t + d)), sd_zone = fixed_zone (8 * hour_us), sd_time = time_of_day 7 50, sd_poll = 60 * second_us,
     sd_retry_delay = second_us, sd_max_attempts = 3, sd_max_runs = max_runs\<rparr>"

definition demo_schedule_world :: "instant schedule_world" where
  "demo_schedule_world = \<lparr>sx_state = combine tuesday 0, sx_runs = [], sx_notices = []\<rparr>"

text \<open>Iterations of the loop as long as it goes on.\<close>

primrec schedule_steps :: "'w schedule \<Rightarrow> nat \<Rightarrow> schedule_state \<times> 'w schedule_world \<Rightarrow> schedule_state \<times> 'w schedule_world" where
  "schedule_steps c 0 x = x"
| "schedule_steps c (Suc n) x = (let y = schedule_steps c n x in
     case schedule_step c (fst y) (snd y) of (Inr (Again s'), w') \<Rightarrow> (s', w') | _ \<Rightarrow> y)"

lemma schedule_steps_reach: "schedule_reaches c w0 (fst (schedule_steps c n (schedule_start, w0))) (snd (schedule_steps c n (schedule_start, w0)))"
  by (induction n) (auto simp: Let_def intro: schedule_reaches.intros split: prod.splits sum.splits loop_step.splits)

lemma demo_locked_runs:
  "let w = snd (schedule_steps (demo_schedule None) 5 (schedule_start, demo_schedule_world)) in
     map snd (sx_runs w) = [Wk_locked, Wk_locked, Wk_locked] \<and> map (wall_date \<circ> fst) (sx_runs w) = [tuesday, tuesday, tuesday] \<and> sx_notices w = [tuesday]"
  by code_simp

text \<open>A date that another worker holds for three polls counts as given up: the exhaustion of its retries is reported, and it is not run again.\<close>

lemma locked_date_is_given_up:
  "\<exists>s w. schedule_reaches (demo_schedule None) demo_schedule_world s w \<and> set (map snd (sx_runs w)) = {Wk_locked}
     \<and> sx_notices w = [tuesday] \<and> (\<forall>t. wall_date t = tuesday \<longrightarrow> \<not> date_due (demo_schedule None) s t)"
proof -
  let ?x = "schedule_steps (demo_schedule None) 5 (schedule_start, demo_schedule_world)"
  note run = demo_locked_runs [unfolded Let_def]
  have reach: "schedule_reaches (demo_schedule None) demo_schedule_world (fst ?x) (snd ?x)" by (rule schedule_steps_reach)
  have "date_state (demo_schedule None) tuesday (fst ?x) (snd ?x)"
    by (rule schedule_date_state [OF reach]) (simp_all add: demo_schedule_def demo_schedule_world_def)
  then have "tuesday \<in> set (ss_completed (fst ?x))" using run by (auto simp: date_state_def Let_def split: if_splits)
  moreover have "set (map snd (sx_runs (snd ?x))) = {Wk_locked}" using run by simp
  ultimately show ?thesis using reach run by (intro exI [of _ "fst ?x"] exI [of _ "snd ?x"]) (auto simp: date_due_def)
qed

theorem schedule_retries_each_date_by_policy_witness:
  "\<exists>s w. schedule_reaches (demo_schedule None) demo_schedule_world s w \<and> length (sx_runs w) = 3
     \<and> fst (sx_runs w ! 0) + 60 * second_us \<le> fst (sx_runs w ! 1) \<and> count_list (sx_notices w) tuesday = 1"
proof -
  let ?x = "schedule_steps (demo_schedule None) 5 (schedule_start, demo_schedule_world)" and ?c = "demo_schedule None"
  note run = demo_locked_runs [unfolded Let_def]
  have reach: "schedule_reaches ?c demo_schedule_world (fst ?x) (snd ?x)" by (rule schedule_steps_reach)
  obtain a b d where abd: "sx_runs (snd ?x) = [a, b, d]" using run by auto
  have "filter (\<lambda>x. wall_date (fst x) = tuesday) (sx_runs (snd ?x)) = [a, b, d]" "snd a = Wk_locked" using run abd by auto
  moreover have "1 \<le> sd_max_attempts ?c" "sx_runs demo_schedule_world = []" "sx_notices demo_schedule_world = []"
    "sd_poll ?c = 60 * second_us" by (simp_all add: demo_schedule_def demo_schedule_world_def)
  ultimately have "fst a + 60 * second_us \<le> fst b"
    using schedule_retries_each_date_by_policy [OF reach, of tuesday] by (auto dest!: spec [of _ 0])
  then show ?thesis using reach run abd by (intro exI [of _ "fst ?x"] exI [of _ "snd ?x"]) simp
qed

theorem schedule_with_run_limit_returns_witness:
  "\<exists>r w'. run_configured_schedule (demo_schedule (Some 3)) demo_schedule_world = Some (r, w') \<and> (r = Inr () \<longrightarrow> length (sx_runs w') = 3)"
proof -
  have "schedule_clock (demo_schedule (Some 3)) (8 * hour_us) 0 id"
    by (simp add: schedule_clock_def demo_schedule_def second_us_def)
  moreover have "sd_max_runs (demo_schedule (Some 3)) = Some 3" "(0::int) \<le> 3" "(0::int) \<le> 0" "0 \<le> sd_time (demo_schedule (Some 3))"
    "sd_time (demo_schedule (Some 3)) < day_us" "0 < sd_poll (demo_schedule (Some 3))"
    "sd_poll (demo_schedule (Some 3)) + 0 \<le> day_us - sd_time (demo_schedule (Some 3))" "1 \<le> sd_max_attempts (demo_schedule (Some 3))"
    by (simp_all add: demo_schedule_def time_of_day_def us_defs)
  ultimately show ?thesis using schedule_with_run_limit_returns [of "demo_schedule (Some 3)" "8 * hour_us" 0 id 3 demo_schedule_world]
    by (simp add: demo_schedule_world_def)
qed

end
