(* ===== verification/Workflow_Alerts.thy ===== *)
theory Workflow_Alerts
  imports Report_Delivery
begin

text \<open>
  \<open>services/workflow_alerts.py\<close>: durable alerts for terminal workflow failures. The alert table has one
  row per idempotency key, and its statements are interpreted as an attempt machine. The service is
  modelled like the delivery service: other workers change the table between two statements
  (\<open>ax_env\<close>), the transport is an action on a state of its own, and sends and sleeps are logged.
\<close>

section \<open>Alerts and their rows\<close>

datatype workflow_stage = Stage_scheduler | Stage_ingestion | Stage_quality_gate | Stage_generation | Stage_validation | Stage_delivery

fun stage_text :: "workflow_stage \<Rightarrow> string" where
  "stage_text Stage_scheduler = ''scheduler''"
| "stage_text Stage_ingestion = ''ingestion''"
| "stage_text Stage_quality_gate = ''quality_gate''"
| "stage_text Stage_generation = ''generation''"
| "stage_text Stage_validation = ''validation''"
| "stage_text Stage_delivery = ''delivery''"

record workflow_alert =
  wa_run :: uuid
  wa_date :: date
  wa_stage :: workflow_stage
  wa_code :: string
  wa_summary :: string
  wa_retry :: string
  wa_providers :: "uuid list"

record alert_attempt =
  aa_id :: uuid
  aa_run :: uuid
  aa_date :: date
  aa_stage :: workflow_stage
  aa_target :: string
  aa_key :: string
  aa_no :: int
  aa_status :: attempt_status
  aa_request :: json
  aa_response :: "json option"
  aa_message :: "string option"
  aa_error :: "string option"

definition make_alert_attempt :: "alert_attempt \<Rightarrow> exn + alert_attempt" where
  "make_alert_attempt a =
     (let b = a\<lparr>aa_target := strip (aa_target a), aa_key := strip (aa_key a),
              aa_message := map_option strip (aa_message a), aa_error := map_option strip (aa_error a)\<rparr> in
      if len_ok 128 (aa_target b) \<and> len_ok 128 (aa_key b) \<and> 1 \<le> aa_no b
         \<and> opt_len_ok 128 (aa_message b) \<and> opt_len_ok 64 (aa_error b)
      then Inr b else Inl ValidationError)"

definition read_alert :: "alert_attempt option \<Rightarrow> exn + alert_attempt option" where
  "read_alert row = (case row of None \<Rightarrow> Inr None | Some r \<Rightarrow> bindE (make_alert_attempt r) (\<lambda>a. Inr (Some a)))"

section \<open>The alert store\<close>

definition settle_alert :: "attempt_status \<Rightarrow> json option \<Rightarrow> string option \<Rightarrow> string option \<Rightarrow> alert_attempt \<Rightarrow> alert_attempt" where
  "settle_alert st response message err r =
     r\<lparr>aa_status := st, aa_response := response, aa_message := message, aa_error := err\<rparr>"

definition resume_alert :: "alert_attempt \<Rightarrow> alert_attempt" where
  "resume_alert r = r\<lparr>aa_no := aa_no r + 1, aa_status := Pending, aa_response := None, aa_message := None, aa_error := None\<rparr>"

definition insert_alert :: "alert_attempt \<Rightarrow> (alert_attempt list, bool) act" where
  "insert_alert a = insert_on_conflict (\<lambda>x y. aa_key y = aa_key x) (\<lambda>x y. aa_id y = aa_id x) a"

definition load_alert :: "uuid \<Rightarrow> (alert_attempt list, alert_attempt option) act" where
  "load_alert i t = (read_alert (select_one (\<lambda>r. aa_id r = i) t), t)"

definition load_alert_for_key :: "string \<Rightarrow> (alert_attempt list, alert_attempt option) act" where
  "load_alert_for_key key t = (read_alert (select_one (\<lambda>r. aa_key r = key) t), t)"

definition update_alert :: "uuid \<Rightarrow> int \<Rightarrow> attempt_status \<Rightarrow> json option \<Rightarrow> string option \<Rightarrow> string option
    \<Rightarrow> (alert_attempt list, bool) act" where
  "update_alert i expected st response message err t =
     (case update_where (\<lambda>r. aa_id r = i \<and> (aa_no r = expected \<and> aa_status r = Pending)) (settle_alert st response message err) t of
        (ok, t') \<Rightarrow> if ok \<and> \<not> (column_fits 128 message \<and> column_fits 64 err)
          then (Inl (OtherError ''DBAPIError''), t) else (Inr ok, t'))"

definition retry_alert :: "uuid \<Rightarrow> (alert_attempt list, bool) act" where
  "retry_alert i t = (case update_where (\<lambda>r. aa_id r = i \<and> aa_status r = Retry_wait) resume_alert t of (ok, t') \<Rightarrow> (Inr ok, t'))"

section \<open>The alert statements as an attempt machine\<close>

datatype alert_op =
    Insert_alert alert_attempt
  | Update_alert uuid int attempt_status "json option" "string option" "string option"
  | Retry_alert uuid

fun alert_act :: "alert_op \<Rightarrow> (alert_attempt list, bool) act" where
  "alert_act (Insert_alert a) = insert_alert a"
| "alert_act (Update_alert i n st response message err) = update_alert i n st response message err"
| "alert_act (Retry_alert i) = retry_alert i"

fun alert_grant :: "alert_op \<Rightarrow> alert_attempt list \<Rightarrow> grant option" where
  "alert_grant (Insert_alert a) t = Some (aa_id a, aa_no a)"
| "alert_grant (Update_alert _ _ _ _ _ _) t = None"
| "alert_grant (Retry_alert i) t = map_option (\<lambda>r. (i, aa_no r)) (select_one (\<lambda>r. aa_id r = i) t)"

definition alert_exec :: "alert_op \<Rightarrow> alert_attempt list \<Rightarrow> grant option \<times> alert_attempt list" where
  "alert_exec q t = (case alert_act q t of
     (Inr True, t') \<Rightarrow> (alert_grant q t', t') | (_, t') \<Rightarrow> (None, t'))"

lemma alert_row_simps [simp]:
  "aa_id (settle_alert st p m e r) = aa_id r" "aa_no (settle_alert st p m e r) = aa_no r"
  "aa_id (resume_alert r) = aa_id r" "aa_no (resume_alert r) = aa_no r + 1" "aa_status (resume_alert r) = Pending"
  by (simp_all add: settle_alert_def resume_alert_def)

definition alert_final :: "alert_attempt \<Rightarrow> bool" where
  "alert_final r \<longleftrightarrow> aa_status r \<in> {Succeeded, Failed, Uncertain}"

interpretation aa_rows: numbered_rows aa_id aa_no alert_final .

lemma alert_row_change:
  assumes d: "aa_rows.keys_distinct t" and ex: "alert_exec q t = (g, t')"
  shows "aa_rows.row_change t g t'"
proof (cases q)
  case (Insert_alert a)
  show ?thesis
  proof (cases rule: insert_on_conflict_cases [of "\<lambda>x y. aa_key y = aa_key x" "\<lambda>x y. aa_id y = aa_id x" a t])
    case inserted
    then have "aa_id a \<notin> aa_id ` set t" by force
    then show ?thesis
      using ex inserted(1) Insert_alert
      by (auto simp: alert_exec_def insert_alert_def intro: aa_rows.row_change.appended)
  qed (use ex Insert_alert in \<open>auto simp: alert_exec_def insert_alert_def intro: aa_rows.row_change.unchanged\<close>)
next
  case (Update_alert i n st p m e)
  have "aa_rows.row_change t None (map (\<lambda>r. if aa_id r = i \<and> (aa_no r = n \<and> aa_status r = Pending)
      then settle_alert st p m e r else r) t)"
    by (rule aa_rows.row_change.settled) (simp_all add: alert_final_def)
  then show ?thesis
    using ex Update_alert aa_rows.row_change.unchanged [of t]
    by (auto simp: alert_exec_def update_alert_def update_where_def split: if_splits bool.splits)
next
  case (Retry_alert i)
  obtain ok t1 where u: "update_where (\<lambda>r. aa_id r = i \<and> aa_status r = Retry_wait) resume_alert t = (ok, t1)" by fastforce
  have "if ok then aa_rows.row_change t (map_option (\<lambda>r. (i, aa_no r)) (aa_rows.lookup t1 i)) t1 else t1 = t"
    by (rule aa_rows.resume_change [OF d _ u]) (simp_all add: alert_final_def)
  then show ?thesis
    using ex Retry_alert u aa_rows.row_change.unchanged [of t]
    by (auto simp: alert_exec_def retry_alert_def select_one_def aa_rows.lookup_def split: if_splits bool.splits)
qed

interpretation aa: numbered_statements aa_id aa_no alert_final alert_exec
  by unfold_locales (rule alert_row_change)

text \<open>however the alert statements of any number of workers interleave, no attempt number of an alert is
  granted twice, and an alert that succeeded, failed or has an unknown outcome never changes again, so
  it is never sent again.\<close>

theorem alert_attempts_safe:
  assumes "distinct (map aa_id t)" and "run_ops alert_exec ops t = (grants, t')"
  shows "distinct grants \<and> (\<forall>k r. select_one (\<lambda>r. aa_id r = k) t = Some r \<and> aa_status r \<in> {Succeeded, Failed, Uncertain}
    \<longrightarrow> select_one (\<lambda>r. aa_id r = k) t' = Some r \<and> (\<forall>n. (k, n) \<notin> set grants))"
proof -
  have d: "aa_rows.keys_distinct t" using assms(1) by (simp add: aa_rows.keys_distinct_def)
  have eq: "select_one (\<lambda>r. aa_id r = k) u = aa_rows.lookup u k" for k u
    by (simp add: select_one_def aa_rows.lookup_def)
  show ?thesis
    using aa.run_grants_distinct [OF d assms(2)] aa.run_final [OF d assms(2)] by (auto simp: eq alert_final_def)
qed

definition demo_alert_row :: "uuid \<Rightarrow> attempt_status \<Rightarrow> alert_attempt" where
  "demo_alert_row i st = \<lparr>aa_id = i, aa_run = ''w1'', aa_date = 1, aa_stage = Stage_delivery, aa_target = ''feishu-alert:c'',
     aa_key = i, aa_no = 1, aa_status = st, aa_request = JNull, aa_response = None, aa_message = None, aa_error = None\<rparr>"

theorem alert_attempts_safe_witness:
  "distinct (fst (run_ops alert_exec [Retry_alert ''a1'', Retry_alert ''a2'', Retry_alert ''a1'', Update_alert ''a2'' 1 Succeeded None None None]
      [demo_alert_row ''a1'' Retry_wait, demo_alert_row ''a2'' Uncertain]))
   \<and> select_one (\<lambda>r. aa_id r = ''a2'') (snd (run_ops alert_exec [Retry_alert ''a1'', Retry_alert ''a2'', Retry_alert ''a1'',
      Update_alert ''a2'' 1 Succeeded None None None] [demo_alert_row ''a1'' Retry_wait, demo_alert_row ''a2'' Uncertain]))
     = Some (demo_alert_row ''a2'' Uncertain)"
proof -
  let ?t = "[demo_alert_row ''a1'' Retry_wait, demo_alert_row ''a2'' Uncertain]"
  let ?ops = "[Retry_alert ''a1'', Retry_alert ''a2'', Retry_alert ''a1'', Update_alert ''a2'' 1 Succeeded None None None]"
  obtain gs t' where run: "run_ops alert_exec ?ops ?t = (gs, t')" by fastforce
  have d: "distinct (map aa_id ?t)" by (simp add: demo_alert_row_def)
  have l: "select_one (\<lambda>r. aa_id r = ''a2'') ?t = Some (demo_alert_row ''a2'' Uncertain)"
    "aa_status (demo_alert_row ''a2'' Uncertain) = Uncertain"
    by (simp_all add: demo_alert_row_def select_one_def)
  show ?thesis using alert_attempts_safe [OF d run] run l by auto
qed

section \<open>Keys, redaction and the card\<close>

definition alert_key :: "(string \<Rightarrow> string) \<Rightarrow> workflow_alert \<Rightarrow> string \<Rightarrow> string" where
  "alert_key sha a target = sha (join '':'' [wa_run a, isodate (wa_date a), stage_text (wa_stage a), wa_code a, target])"

text \<open>\<open>_redact\<close> of this module carries the key of the value it visits.\<close>

function redact_keyed :: "string option \<Rightarrow> json \<Rightarrow> json" where
  "redact_keyed key v =
     (let normalized = (case key of None \<Rightarrow> [] | Some k \<Rightarrow> filter is_alnum (lower k)) in
      if normalized \<in> set redacted_key_names then JStr ''[REDACTED]''
      else case v of
        JObj d \<Rightarrow> JObj (map (\<lambda>p. (fst p, redact_keyed (Some (fst p)) (snd p))) d)
      | JList l \<Rightarrow> JList (map (redact_keyed None) l)
      | _ \<Rightarrow> v)"
  by pat_completeness auto

lemma size_json_snd: "p \<in> set d \<Longrightarrow> size (snd p) < Suc (size_list (size_prod (\<lambda>_. 0) size) d)"
proof (induction d)
  case (Cons q d)
  then show ?case by (cases p; cases q) auto
qed simp

lemma size_json_elem: "x \<in> set l \<Longrightarrow> size x < Suc (size_list size l)"
  by (induction l) auto

termination redact_keyed
  by (relation "measure (\<lambda>(_, v). size v)") (auto dest: size_json_snd size_json_elem)

declare redact_keyed.simps [simp del]

lemma redact_keyed_None: "redact_keyed None v = redact v"
  and redact_keyed_Some: "redact_keyed (Some k) v = (if is_sensitive_key k then JStr ''[REDACTED]'' else redact v)"
proof -
  have "redact_keyed key v = (case key of None \<Rightarrow> redact v
    | Some k \<Rightarrow> if is_sensitive_key k then JStr ''[REDACTED]'' else redact v)" for key
  proof (induction key v rule: redact_keyed.induct)
    case (1 key v)
    have empty: "[] \<notin> set redacted_key_names" by (simp add: redacted_key_names_def)
    have obj: "redact_keyed (Some (fst p)) (snd p) = (if is_sensitive_key (fst p) then JStr ''[REDACTED]'' else redact (snd p))"
      if "v = JObj d" "p \<in> set d" "(case key of None \<Rightarrow> [] | Some k \<Rightarrow> filter is_alnum (lower k)) \<notin> set redacted_key_names" for d p
      using 1(2) [OF refl that(3,1,2)] by simp
    have lst: "redact_keyed None x = redact x"
      if "v = JList l" "x \<in> set l" "(case key of None \<Rightarrow> [] | Some k \<Rightarrow> filter is_alnum (lower k)) \<notin> set redacted_key_names" for l x
      using 1(1) [OF refl that(3,1,2)] by simp
    show ?case
      by (subst redact_keyed.simps, cases v)
        (use obj lst empty in \<open>auto simp: Let_def is_sensitive_key_def split: option.splits\<close>)
  qed
  then show "redact_keyed None v = redact v"
    "redact_keyed (Some k) v = (if is_sensitive_key k then JStr ''[REDACTED]'' else redact v)" by simp_all
qed

definition alert_failure_payload :: "string \<Rightarrow> json option \<Rightarrow> json" where
  "alert_failure_payload code payload = JObj [(''provider'', JStr ''feishu''), (''result'', JStr ''failed''),
     (''error_code'', JStr code), (''response'', redact_keyed None (case payload of None \<Rightarrow> JNull | Some p \<Rightarrow> p))]"

definition alert_success_payload :: "feishu_send \<Rightarrow> json" where
  "alert_success_payload sent = JObj [(''provider'', JStr ''feishu''), (''result'', JStr ''succeeded''),
     (''response'', redact_keyed None (fm_response sent))]"

text \<open>the two redaction routines of the program, that of deliveries and that of alerts, which carries the
  key of the value it visits, are the same function; so what an alert stores of an answer or of an
  error holds nothing but the redaction mark under a sensitive key.\<close>

theorem alert_redaction_agrees:
  "redact_keyed None v = redact v
   \<and> list_all (\<lambda>x. x = JStr ''[REDACTED]'') (sensitive_values (alert_failure_payload code payload))
   \<and> list_all (\<lambda>x. x = JStr ''[REDACTED]'') (sensitive_values (alert_success_payload sent))"
  using redacted_redact
  by (simp add: redact_keyed_None alert_failure_payload_def alert_success_payload_def redacted_def)

definition md :: "string \<Rightarrow> json" where
  "md content = JObj [(''tag'', JStr ''markdown''), (''content'', JStr content)]"

definition render_alert :: "workflow_alert \<Rightarrow> json" where
  "render_alert a =
     (let providers = (if wa_providers a = [] then txt_none else join txt_list_sep (wa_providers a)) in
      JObj [(''schema'', JStr ''2.0''),
        (''header'', JObj [(''title'', JObj [(''tag'', JStr ''plain_text''),
             (''content'', JStr (txt_alert_title @ isodate (wa_date a)))]), (''template'', JStr ''red'')]),
        (''body'', JObj [(''direction'', JStr ''vertical''), (''padding'', JStr ''12px 12px 12px 12px''),
           (''elements'', JList
             [md (txt_alert_stage @ stage_text (wa_stage a) @ txt_alert_code @ wa_code a
                 @ txt_alert_run @ wa_run a @ txt_alert_providers @ providers),
              JObj [(''tag'', JStr ''hr'')],
              md (txt_alert_summary @ wa_summary a),
              md (txt_alert_retry @ wa_retry a),
              md txt_alert_footer])])])"

section \<open>The alert service\<close>

record 't alert_service =
  ax_send :: "string \<Rightarrow> json \<Rightarrow> string \<Rightarrow> ('t, feishu_send) act"
  ax_max_attempts :: int
  ax_retry_delay :: int
  ax_sha :: "string \<Rightarrow> string"
  ax_fresh :: "nat \<Rightarrow> uuid"
  ax_env :: "nat \<Rightarrow> alert_attempt list \<Rightarrow> alert_attempt list"

definition make_alert_service :: "'t alert_service \<Rightarrow> exn + 't alert_service" where
  "make_alert_service c = (if ax_max_attempts c < 1 then Inl ValueError
     else if ax_retry_delay c < 0 then Inl ValueError else Inr c)"

record 't alert_world =
  aw_rows :: "alert_attempt list"
  aw_steps :: nat
  aw_uuids :: nat
  aw_transport :: 't
  aw_sends :: "sent_attempt list"
  aw_sleeps :: "int list"

record alert_request =
  aq_alert :: workflow_alert
  aq_chat :: string
  aq_target :: string
  aq_key :: string
  aq_uuid :: string
  aq_card :: json

record alert_result =
  ar_request :: alert_request
  ar_attempt :: alert_attempt

definition alert_result_status :: "alert_result \<Rightarrow> string" where
  "alert_result_status r = attempt_status_text (aa_status (ar_attempt r))"

definition alert_request_of :: "'t alert_service \<Rightarrow> workflow_alert \<Rightarrow> string \<Rightarrow> alert_request" where
  "alert_request_of c a chat = (let target = ''feishu-alert:'' @ chat; key = alert_key (ax_sha c) a target in
     \<lparr>aq_alert = a, aq_chat = chat, aq_target = target, aq_key = key, aq_uuid = take 50 (ax_sha c key),
      aq_card = render_alert a\<rparr>)"

definition initial_alert :: "alert_request \<Rightarrow> uuid \<Rightarrow> alert_attempt" where
  "initial_alert q i = (let a = aq_alert q in
     \<lparr>aa_id = i, aa_run = wa_run a, aa_date = wa_date a, aa_stage = wa_stage a, aa_target = aq_target q,
      aa_key = aq_key q, aa_no = 1, aa_status = Pending,
      aa_request = JObj [(''provider'', JStr ''feishu''), (''kind'', JStr ''workflow_alert''),
        (''workflow_run_id'', JStr (wa_run a)), (''report_date'', JStr (isodate (wa_date a))),
        (''stage'', JStr (stage_text (wa_stage a))), (''workflow_error_code'', JStr (wa_code a)),
        (''delivery_target'', JStr (aq_target q)), (''request_uuid'', JStr (aq_uuid q)), (''card'', aq_card q)],
      aa_response = None, aa_message = None, aa_error = None\<rparr>)"

definition on_alerts :: "'t alert_service \<Rightarrow> (alert_attempt list, 'a) act \<Rightarrow> ('t alert_world, 'a) act" where
  "on_alerts c m w = (case transaction m (ax_env c (aw_steps w) (aw_rows w)) of
     (r, t) \<Rightarrow> (r, w\<lparr>aw_rows := t, aw_steps := aw_steps w + 1\<rparr>))"

definition fresh_alert_id :: "'t alert_service \<Rightarrow> ('t alert_world, uuid) act" where
  "fresh_alert_id c w = (Inr (ax_fresh c (aw_uuids w)), w\<lparr>aw_uuids := aw_uuids w + 1\<rparr>)"

definition alert_sleep :: "int \<Rightarrow> ('t alert_world, unit) act" where
  "alert_sleep d w = (Inr (), w\<lparr>aw_sleeps := aw_sleeps w @ [d]\<rparr>)"

text \<open>The insertion is one transaction, the comparison with the stored attempt another statement after it.\<close>

definition reserve_alert :: "'t alert_service \<Rightarrow> alert_attempt \<Rightarrow> ('t alert_world, bool) act" where
  "reserve_alert c a = bindA (on_alerts c (insert_alert a)) (\<lambda>inserted.
     if inserted then ret True
     else bindA (on_alerts c (load_alert_for_key (aa_key a))) (\<lambda>found. case found of
         None \<Rightarrow> throw RuntimeError
       | Some old \<Rightarrow> if json_eq (aa_request old) (aa_request a) then ret False else throw ValueError))"

definition send_alert :: "'t alert_service \<Rightarrow> alert_request \<Rightarrow> alert_attempt \<Rightarrow> 't alert_world
    \<Rightarrow> (exn + feishu_send) \<times> 't alert_world" where
  "send_alert c q a w = (case ax_send c (aq_chat q) (aq_card q) (aq_uuid q) (aw_transport w) of
     (r, t) \<Rightarrow> (r, w\<lparr>aw_transport := t, aw_sends := aw_sends w @ [(aa_id a, aa_no a, r)]\<rparr>))"

definition resume_stored_alert :: "'t alert_service \<Rightarrow> alert_attempt \<Rightarrow> ('t alert_world, alert_attempt option) act" where
  "resume_stored_alert c a = bindA (on_alerts c (retry_alert (aa_id a))) (\<lambda>resumed.
     ret (if resumed then Some (resume_alert a) else None))"

definition alert_result_of :: "alert_request \<Rightarrow> alert_attempt \<Rightarrow> alert_result" where
  "alert_result_of q a = \<lparr>ar_request = q, ar_attempt = a\<rparr>"

definition current_alert :: "'t alert_service \<Rightarrow> alert_request \<Rightarrow> uuid \<Rightarrow> ('t alert_world, alert_result) act" where
  "current_alert c q i = bindA (on_alerts c (load_alert i)) (\<lambda>current. case current of
     None \<Rightarrow> throw RuntimeError | Some a \<Rightarrow> ret (alert_result_of q a))"

definition finish_alert :: "('w, alert_result) act \<Rightarrow> ('w, (alert_result, alert_attempt) loop_step) act" where
  "finish_alert m = bindA m (\<lambda>r. ret (Finished r))"

definition alert_failed :: "'t alert_service \<Rightarrow> alert_request \<Rightarrow> alert_attempt
    \<Rightarrow> string \<Rightarrow> json option \<Rightarrow> bool \<Rightarrow> bool \<Rightarrow> ('t alert_world, (alert_result, alert_attempt) loop_step) act" where
  "alert_failed c q a code payload retryable unknown =
     (let st = next_status unknown retryable (aa_no a) (ax_max_attempts c);
          audit = Some (alert_failure_payload code payload);
          a1 = a\<lparr>aa_status := st, aa_response := audit, aa_error := Some code\<rparr> in
      bindA (on_alerts c (update_alert (aa_id a) (aa_no a) st audit None (Some code))) (\<lambda>updated.
        if \<not> updated then finish_alert (current_alert c q (aa_id a))
        else if st \<noteq> Retry_wait then ret (Finished (alert_result_of q a1))
        else bindA (alert_sleep (ax_retry_delay c * 2 ^ nat (aa_no a - 1))) (\<lambda>_.
          bindA (resume_stored_alert c a1) (\<lambda>resumed. case resumed of
              None \<Rightarrow> finish_alert (current_alert c q (aa_id a))
            | Some a2 \<Rightarrow> ret (Again a2)))))"

definition alert_accepted :: "'t alert_service \<Rightarrow> alert_request \<Rightarrow> alert_attempt \<Rightarrow> feishu_send
    \<Rightarrow> ('t alert_world, alert_result) act" where
  "alert_accepted c q a sent =
     (let response = Some (alert_success_payload sent) in
      bindA (on_alerts c (update_alert (aa_id a) (aa_no a) Succeeded response (Some (fm_message sent)) None)) (\<lambda>updated.
        if \<not> updated then current_alert c q (aa_id a)
        else ret (alert_result_of q (settle_alert Succeeded response (Some (fm_message sent)) None a))))"

definition alert_step :: "'t alert_service \<Rightarrow> alert_request \<Rightarrow> alert_attempt
    \<Rightarrow> ('t alert_world, (alert_result, alert_attempt) loop_step) act" where
  "alert_step c q a w = (case send_alert c q a w of (r, w1) \<Rightarrow>
     case r of
       Inr sent \<Rightarrow> finish_alert (alert_accepted c q a sent) w1
     | Inl e \<Rightarrow> (case e of
           FeishuTransportError code payload retryable unknown \<Rightarrow> alert_failed c q a code payload retryable unknown w1
         | _ \<Rightarrow> (Inl e, w1)))"

lemma resume_stored_Some: "resume_stored_alert c a w = (Inr (Some b), w') \<Longrightarrow> b = resume_alert a"
  by (auto simp: resume_stored_alert_def bindA_eq split: if_splits)

lemma alert_failed_Again:
  assumes "alert_failed c q a code payload retryable unknown w = (Inr (Again b), w')"
  shows "aa_no b = aa_no a + 1 \<and> aa_no a < ax_max_attempts c \<and> aa_id b = aa_id a \<and> retryable \<and> \<not> unknown"
proof -
  have "next_status unknown retryable (aa_no a) (ax_max_attempts c) = Retry_wait
    \<and> (\<exists>p. b = resume_alert (a\<lparr>aa_status := Retry_wait, aa_response := p, aa_error := Some code\<rparr>))"
    using assms
    by (auto simp: alert_failed_def bindA_eq finish_alert_def Let_def dest: resume_stored_Some
        split: if_splits option.splits)
  then show ?thesis by (auto simp: next_status_def split: if_splits)
qed

lemma alert_step_Again:
  "alert_step c q a w = (Inr (Again b), w') \<Longrightarrow> aa_no b = aa_no a + 1 \<and> aa_no a < ax_max_attempts c \<and> aa_id b = aa_id a"
  by (auto simp: alert_step_def finish_alert_def bindA_eq dest: alert_failed_Again split: prod.splits sum.splits exn.splits)

function alert_loop :: "'t alert_service \<Rightarrow> alert_request \<Rightarrow> alert_attempt \<Rightarrow> ('t alert_world, alert_result) act" where
  "alert_loop c q a w = (case alert_step c q a w of
     (Inl e, w') \<Rightarrow> (Inl e, w')
   | (Inr (Finished r), w') \<Rightarrow> (Inr r, w')
   | (Inr (Again b), w') \<Rightarrow> alert_loop c q b w')"
  by pat_completeness auto

termination
  by (relation "measure (\<lambda>(c, q, a, w). nat (ax_max_attempts c - aa_no a))") (auto dest!: alert_step_Again [OF sym])

declare alert_loop.simps [simp del]

definition deliver_stored_alert :: "'t alert_service \<Rightarrow> alert_request \<Rightarrow> ('t alert_world, alert_result) act" where
  "deliver_stored_alert c q = bindA (on_alerts c (load_alert_for_key (aq_key q))) (\<lambda>found. case found of
       None \<Rightarrow> throw RuntimeError
     | Some old \<Rightarrow>
         if aa_status old \<noteq> Retry_wait \<or> ax_max_attempts c \<le> aa_no old then ret (alert_result_of q old)
         else bindA (resume_stored_alert c old) (\<lambda>resumed. case resumed of
             None \<Rightarrow> current_alert c q (aa_id old)
           | Some a \<Rightarrow> alert_loop c q a))"

definition deliver_alert :: "'t alert_service \<Rightarrow> workflow_alert \<Rightarrow> string \<Rightarrow> ('t alert_world, alert_result) act" where
  "deliver_alert c alert chat = (if strip chat = [] then throw ValueError
     else let q = alert_request_of c alert chat in
       bindA (fresh_alert_id c) (\<lambda>i.
         bindA (liftA (make_alert_attempt (initial_alert q i))) (\<lambda>a.
           bindA (reserve_alert c a) (\<lambda>inserted.
             if inserted then alert_loop c q a else deliver_stored_alert c q))))"

text \<open>\<open>ConfiguredFeishuAlerts\<close>.\<close>

definition configure_alerts :: "http \<Rightarrow> (nat \<Rightarrow> instant) \<Rightarrow> (string \<Rightarrow> string) \<Rightarrow> (nat \<Rightarrow> uuid)
    \<Rightarrow> (nat \<Rightarrow> alert_attempt list \<Rightarrow> alert_attempt list) \<Rightarrow> feishu_settings \<Rightarrow> string option
    \<Rightarrow> exn + feishu_state alert_service \<times> string" where
  "configure_alerts http clock sha fresh env s alert_chat =
     (if \<not> se_enabled s then Inl ValueError
      else case (se_app_id s, se_app_secret s, alert_chat) of
        (Some app, Some secret, Some chat) \<Rightarrow>
          if strip chat = [] then Inl ValueError
          else bindE (make_transport app secret (se_base_url s) (se_timeout s)) (\<lambda>cfg.
            bindE (make_alert_service \<lparr>ax_send = send_card cfg http clock, ax_max_attempts = se_max_attempts s,
                ax_retry_delay = second_us div 4, ax_sha = sha, ax_fresh = fresh, ax_env = env\<rparr>)
              (\<lambda>c. Inr (c, chat)))
      | _ \<Rightarrow> Inl ValueError)"

section \<open>What an alert call sends\<close>

lemma on_alerts_keeps:
  "on_alerts c m w = (r, w') \<Longrightarrow> aw_sends w' = aw_sends w \<and> aw_sleeps w' = aw_sleeps w"
  by (auto simp: on_alerts_def split: prod.splits)

lemma current_alert_keeps:
  "current_alert c q d w = (r, w') \<Longrightarrow> aw_sends w' = aw_sends w \<and> aw_sleeps w' = aw_sleeps w"
  by (auto simp: current_alert_def bindA_eq dest!: on_alerts_keeps split: option.splits)

lemma resume_stored_keeps:
  "resume_stored_alert c a w = (r, w') \<Longrightarrow> aw_sends w' = aw_sends w \<and> aw_sleeps w' = aw_sleeps w"
  by (auto simp: resume_stored_alert_def bindA_eq dest!: on_alerts_keeps)

lemma alert_accepted_keeps:
  "alert_accepted c q a sent w = (r, w') \<Longrightarrow> aw_sends w' = aw_sends w \<and> aw_sleeps w' = aw_sleeps w"
  by (auto simp: alert_accepted_def bindA_eq Let_def dest!: on_alerts_keeps current_alert_keeps split: if_splits)

lemma alert_failed_keeps:
  assumes "alert_failed c q a code payload retryable unknown w = (r, w')"
  shows "aw_sends w' = aw_sends w \<and> (aw_sleeps w' = aw_sleeps w \<and> (\<forall>b. r \<noteq> Inr (Again b))
    \<or> aw_sleeps w' = aw_sleeps w @ [doubling (ax_retry_delay c) (aa_no a)] \<and> aa_no a < ax_max_attempts c)"
proof -
  define st where "st = next_status unknown retryable (aa_no a) (ax_max_attempts c)"
  define audit where "audit = Some (alert_failure_payload code payload)"
  obtain u w1 where u: "on_alerts c (update_alert (aa_id a) (aa_no a) st audit None (Some code)) w = (u, w1)"
    by fastforce
  note k1 = on_alerts_keeps [OF u]
  note run = assms [unfolded alert_failed_def Let_def, folded st_def audit_def]
  have early: "finish_alert (current_alert c q d) w2 = (r, w') \<Longrightarrow> aw_sends w' = aw_sends w2
      \<and> aw_sleeps w' = aw_sleeps w2 \<and> (\<forall>b. r \<noteq> Inr (Again b))" for d w2
    by (auto simp: finish_alert_def bindA_eq dest!: current_alert_keeps)
  show ?thesis
  proof (cases "u = Inr True \<and> st = Retry_wait")
    case False
    have "(\<exists>e. r = Inl e \<and> w' = w1) \<or> finish_alert (current_alert c q (aa_id a)) w1 = (r, w')
        \<or> (\<exists>x. r = Inr (Finished x) \<and> w' = w1)"
      using run u False by (cases u) (auto simp: bindA_def split: if_splits)
    then show ?thesis using k1 early by auto
  next
    case True
    then have lim: "aa_no a < ax_max_attempts c" by (auto simp: st_def next_status_def split: if_splits)
    define w2 where "w2 = w1\<lparr>aw_sleeps := aw_sleeps w1 @ [doubling (ax_retry_delay c) (aa_no a)]\<rparr>"
    define a1 where "a1 = a\<lparr>aa_status := st, aa_response := audit, aa_error := Some code\<rparr>"
    obtain v w3 where v: "resume_stored_alert c a1 w2 = (v, w3)" by fastforce
    have "(\<exists>e. r = Inl e \<and> w' = w3) \<or> finish_alert (current_alert c q (aa_id a)) w3 = (r, w')
        \<or> (\<exists>b. r = Inr (Again b) \<and> w' = w3)"
      using run u True v
      by (auto simp: bindA_def alert_sleep_def doubling_def a1_def w2_def split: sum.splits option.splits)
    then show ?thesis using k1 early resume_stored_keeps [OF v] lim by (auto simp: w2_def)
  qed
qed

lemma alert_step_keeps:
  assumes "alert_step c q a w = (r, w')"
  shows "\<exists>x. aw_sends w' = aw_sends w @ [(aa_id a, aa_no a, x)] \<and> (\<forall>b. r = Inr (Again b) \<longrightarrow> retryable_rejection x)
    \<and> (aw_sleeps w' = aw_sleeps w \<and> (\<forall>b. r \<noteq> Inr (Again b))
      \<or> aw_sleeps w' = aw_sleeps w @ [doubling (ax_retry_delay c) (aa_no a)] \<and> aa_no a < ax_max_attempts c)"
proof -
  obtain x w1 where sent: "send_alert c q a w = (x, w1)" by fastforce
  then have w1: "aw_sends w1 = aw_sends w @ [(aa_id a, aa_no a, x)]" "aw_sleeps w1 = aw_sleeps w"
    by (auto simp: send_alert_def split: prod.splits)
  show ?thesis
  proof (cases "\<exists>code p rt un. x = Inl (FeishuTransportError code p rt un)")
    case True
    then obtain code p rt un where x: "x = Inl (FeishuTransportError code p rt un)" by blast
    have run: "alert_failed c q a code p rt un w1 = (r, w')"
      using assms sent by (simp add: alert_step_def x)
    have "retryable_rejection x" if "r = Inr (Again b)" for b
      using alert_failed_Again run that by (fastforce simp: x retryable_rejection_def)
    then show ?thesis using alert_failed_keeps [OF run] w1 by (intro exI [of _ x]) auto
  next
    case False
    then have "(\<exists>m. x = Inr m \<and> finish_alert (alert_accepted c q a m) w1 = (r, w')) \<or> (\<exists>e. r = Inl e \<and> w' = w1)"
      using assms sent by (auto simp: alert_step_def split: sum.splits exn.splits)
    then have "aw_sends w' = aw_sends w1 \<and> aw_sleeps w' = aw_sleeps w1 \<and> (\<forall>b. r \<noteq> Inr (Again b))"
      by (auto simp: finish_alert_def bindA_eq dest!: alert_accepted_keeps)
    then show ?thesis using w1 by (intro exI [of _ x]) auto
  qed
qed

interpretation al: attempt_loop "alert_step c q" "alert_loop c q" aa_id aa_no "ax_max_attempts c" aw_sends aw_sleeps
  "doubling (ax_retry_delay c)" for c :: "'t alert_service" and q
proof (unfold_locales)
  fix a w r and w' :: "'t alert_world"
  assume step: "alert_step c q a w = (r, w')"
  have "aa_no b = aa_no a + 1 \<and> aa_id b = aa_id a" if "r = Inr (Again b)" for b
    using alert_step_Again step that by blast
  then show "\<exists>x. aw_sends w' = aw_sends w @ [(aa_id a, aa_no a, x)]
      \<and> (\<forall>b. r = Inr (Again b) \<longrightarrow> retryable_rejection x \<and> aa_id b = aa_id a \<and> aa_no b = aa_no a + 1)
      \<and> (aw_sleeps w' = aw_sleeps w \<and> (\<forall>b. r \<noteq> Inr (Again b))
        \<or> aw_sleeps w' = aw_sleeps w @ [doubling (ax_retry_delay c) (aa_no a)] \<and> aa_no a < ax_max_attempts c)"
    using alert_step_keeps [OF step] by blast
qed (rule alert_loop.simps)

definition silent :: "'t alert_world \<Rightarrow> 't alert_world \<Rightarrow> bool" where
  "silent w w' \<longleftrightarrow> aw_sends w' = aw_sends w"

lemma silent_rel [simp]: "reflp silent" "transp silent"
  by (auto simp: silent_def reflp_def transp_def)

lemmas silent_rules = keeps_bindA [OF silent_rel(2)] keeps_ret [OF silent_rel(1)] keeps_throw [OF silent_rel(1)]

lemma silent_parts:
  "keeps silent (on_alerts c m)" "keeps silent (fresh_alert_id c)" "keeps silent (liftA r)"
  by (auto simp: keeps_def silent_def on_alerts_def fresh_alert_id_def split: prod.splits)

lemma silent_calls:
  "keeps silent (reserve_alert c a)" "keeps silent (current_alert c q i)" "keeps silent (resume_stored_alert c a)"
  unfolding reserve_alert_def current_alert_def resume_stored_alert_def
  by (auto intro!: silent_rules silent_parts split: option.split)

text \<open>A call enters the loop at most once, with an attempt number within the limit.\<close>

lemma stored_alert_loop:
  assumes "deliver_stored_alert c q w = (r, w')"
  shows "silent w w' \<or> (\<exists>a w1. silent w w1 \<and> alert_loop c q a w1 = (r, w') \<and> 1 \<le> aa_no a \<and> aa_no a \<le> ax_max_attempts c)"
proof -
  obtain x w1 where x: "on_alerts c (load_alert_for_key (aq_key q)) w = (x, w1)" by fastforce
  have k1: "silent w w1" using silent_parts(1) x by (rule keepsD)
  have num: "1 \<le> aa_no a" if "x = Inr (Some a)" for a
    using x that by (auto simp: on_alerts_def transaction_def load_alert_for_key_def read_alert_def make_alert_attempt_def
        Let_def bindE_eq_Inr split: prod.splits sum.splits option.splits if_splits)
  show ?thesis
  proof (cases "\<exists>a. x = Inr (Some a) \<and> aa_status a = Retry_wait \<and> aa_no a < ax_max_attempts c")
    case False
    then have "w' = w1" using assms x by (auto simp: deliver_stored_alert_def bindA_eq split: option.splits if_splits)
    then show ?thesis using k1 by simp
  next
    case True
    then obtain a where a: "x = Inr (Some a)" "aa_status a = Retry_wait" "aa_no a < ax_max_attempts c" by blast
    obtain y w2 where y: "resume_stored_alert c a w1 = (y, w2)" by fastforce
    have k2: "silent w w2" using keepsD [OF silent_calls(3) y] k1 by (simp add: silent_def)
    have "(\<exists>e. y = Inl e \<and> w' = w2) \<or> current_alert c q (aa_id a) w2 = (r, w') \<or> alert_loop c q (resume_alert a) w2 = (r, w')"
      using assms x a y resume_stored_Some [of c a w1 _ w2]
      by (cases y) (auto simp: deliver_stored_alert_def bindA_def split: option.splits)
    moreover have "silent w w'" if "current_alert c q (aa_id a) w2 = (r, w')"
      using keepsD [OF silent_calls(2) that] k2 by (simp add: silent_def)
    moreover have "1 \<le> aa_no (resume_alert a)" "aa_no (resume_alert a) \<le> ax_max_attempts c" using num a(1,3) by simp_all
    ultimately show ?thesis using k2 by blast
  qed
qed

lemma deliver_alert_loop:
  assumes run: "deliver_alert c alert chat w = (r, w')" and "1 \<le> ax_max_attempts c"
  shows "silent w w' \<or> (\<exists>q a w1. silent w w1 \<and> alert_loop c q a w1 = (r, w') \<and> 1 \<le> aa_no a \<and> aa_no a \<le> ax_max_attempts c)"
proof (cases "strip chat = []")
  case True
  then show ?thesis using run by (simp add: deliver_alert_def silent_def)
next
  case False
  define q where "q = alert_request_of c alert chat"
  define w1 where "w1 = w\<lparr>aw_uuids := aw_uuids w + 1\<rparr>"
  have k1: "silent w w1" by (simp add: w1_def silent_def)
  show ?thesis
  proof (cases "make_alert_attempt (initial_alert q (ax_fresh c (aw_uuids w)))")
    case (Inl e)
    then have "w' = w1" using run False
      by (simp add: deliver_alert_def Let_def bindA_def fresh_alert_id_def q_def w1_def)
    then show ?thesis using k1 by simp
  next
    case (Inr a)
    then have num: "aa_no a = 1" by (auto simp: make_alert_attempt_def initial_alert_def Let_def split: if_splits)
    obtain y w2 where y: "reserve_alert c a w1 = (y, w2)" by fastforce
    have k2: "silent w w2" using keepsD [OF silent_calls(1) y] k1 by (simp add: silent_def)
    have "(\<exists>e. y = Inl e \<and> w' = w2) \<or> alert_loop c q a w2 = (r, w') \<or> deliver_stored_alert c q w2 = (r, w')"
      using run False Inr y
      by (cases y) (auto simp: deliver_alert_def Let_def bindA_def fresh_alert_id_def q_def w1_def split: if_splits)
    then show ?thesis
    proof (elim disjE)
      assume "alert_loop c q a w2 = (r, w')"
      moreover have "1 \<le> aa_no a" "aa_no a \<le> ax_max_attempts c" using num assms(2) by simp_all
      ultimately show ?thesis using k2 by blast
    next
      assume "deliver_stored_alert c q w2 = (r, w')"
      from stored_alert_loop [OF this] show ?thesis using k2 by (metis silent_def)
    qed (use k2 in blast)
  qed
qed

definition alert_sends_since :: "'t alert_world \<Rightarrow> 't alert_world \<Rightarrow> sent_attempt list" where
  "alert_sends_since w w' = drop (length (aw_sends w)) (aw_sends w')"

text \<open>whatever other workers do meanwhile, delivering an alert sends at most the configured number of
  times and sends again only after a rejection that allows a retry, so at most its last send can have
  reached the alert chat.\<close>

theorem alert_sends_once_accepted:
  assumes "deliver_alert c alert chat w = (r, w')" and "1 \<le> ax_max_attempts c"
  shows "int (length (alert_sends_since w w')) \<le> ax_max_attempts c
    \<and> (\<forall>x \<in> set (butlast (alert_sends_since w w')). retryable_rejection (snd (snd x)))"
  using deliver_alert_loop [OF assms]
proof (elim disjE exE conjE)
  assume "silent w w'"
  then show ?thesis using assms(2) by (simp add: alert_sends_since_def silent_def)
next
  fix q a w1
  assume k: "silent w w1" and loop: "alert_loop c q a w1 = (r, w')"
    and n: "1 \<le> aa_no a" "aa_no a \<le> ax_max_attempts c"
  obtain x s where t: "aw_sends w' = aw_sends w1 @ (aa_id a, aa_no a, x) # s"
    "attempt_chain (ax_max_attempts c) ((aa_id a, aa_no a, x) # s)"
    using al.loop_trace [OF loop n(2)] by blast
  have "alert_sends_since w w' = (aa_id a, aa_no a, x) # s" using t(1) k by (simp add: alert_sends_since_def silent_def)
  then show ?thesis using chain_bounds [OF t(2)] n(1) by auto
qed

definition demo_alert :: workflow_alert where
  "demo_alert = \<lparr>wa_run = ''w1'', wa_date = 1, wa_stage = Stage_delivery, wa_code = ''X'', wa_summary = ''s'',
     wa_retry = ''r'', wa_providers = []\<rparr>"

definition demo_alert_service :: "(exn + feishu_send) list \<Rightarrow> nat alert_service" where
  "demo_alert_service script = \<lparr>ax_send = (\<lambda>chat crd u n. (if n < length script then script ! n else Inl RuntimeError, n + 1)),
     ax_max_attempts = 3, ax_retry_delay = 250000, ax_sha = (\<lambda>s. s), ax_fresh = (\<lambda>n. int_str (int n)), ax_env = (\<lambda>_ t. t)\<rparr>"

definition demo_alert_world :: "nat alert_world" where
  "demo_alert_world = \<lparr>aw_rows = [], aw_steps = 0, aw_uuids = 0, aw_transport = 0, aw_sends = [], aw_sleeps = []\<rparr>"

lemma demo_alert_run:
  "aw_sends (snd (deliver_alert (demo_alert_service [demo_rejection, demo_rejection, demo_sent]) demo_alert ''c'' demo_alert_world))
     = [(''0'', 1, demo_rejection), (''0'', 2, demo_rejection), (''0'', 3, demo_sent)]"
  by code_simp

theorem alert_sends_once_accepted_witness:
  "\<exists>w'. length (alert_sends_since demo_alert_world w') = 3
     \<and> (\<forall>x \<in> set (butlast (alert_sends_since demo_alert_world w')). retryable_rejection (snd (snd x)))"
proof -
  let ?c = "demo_alert_service [demo_rejection, demo_rejection, demo_sent]"
  obtain r w' where run: "deliver_alert ?c demo_alert ''c'' demo_alert_world = (r, w')" by fastforce
  have "1 \<le> ax_max_attempts ?c" by (simp add: demo_alert_service_def)
  from alert_sends_once_accepted [OF run this] show ?thesis
    using demo_alert_run run by (intro exI [of _ w']) (simp add: alert_sends_since_def demo_alert_world_def)
qed

end
