(* ===== verification/Report_Validation.thy ===== *)
theory Report_Validation
  imports Report_Store
begin

text \<open>
  \<open>services/report_validation.py\<close> and the validators of \<open>contracts/report.py\<close>: a generated report is
  checked claim by claim against the facts of its input snapshot, the outcome is written into the
  report, and a report built from the approved facts alone replaces a candidate that is missing.
  Outside the repository, and so parameters of \<open>report_contract\<close>: pydantic's reading of the fields of a
  contract and the text of its errors, the ISO readers of \<open>datetime\<close>, the order in which Python visits a
  set, and the timezone database.
\<close>

section \<open>The typed report\<close>

record report_claim =
  cl_type :: string
  cl_fact :: string
  cl_value :: json
  cl_unit :: "string option"
  cl_direction :: "string option"
  cl_start :: "date option"
  cl_end :: "date option"

record report_section =
  sx_id :: string
  sx_status :: string
  sx_count :: int
  sx_max :: int
  sx_text :: "string option"
  sx_facts :: "string list"
  sx_sources :: "string list"
  sx_items :: "(string \<times> json) list list"
  sx_claims :: "report_claim list"

record snapshot_ref =
  sp_id :: string
  sp_version :: string
  sp_as_of :: instant
  sp_cutoff :: instant
  sp_fingerprint :: string
  sp_facts :: "string list"

record daily_report =
  dr_id :: string
  dr_date :: date
  dr_snapshot :: snapshot_ref
  dr_status :: string
  dr_decision :: string
  dr_sections :: "(string \<times> report_section) list"

text \<open>
  \<open>cx_report\<close> reads the fields of a \<open>DailyReport\<close> (\<open>Inl\<close> the text of the error), \<open>cx_source\<close> those of a
  \<open>ReportSourceReference\<close> and dumps them again as JSON, and \<open>cx_error\<close> is the text of the error of a
  validator. Other workers may change the tables before every statement (\<open>cx_env\<close>).
\<close>

record report_contract =
  cx_report :: "(string \<times> json) list \<Rightarrow> string + daily_report"
  cx_error :: "daily_report \<Rightarrow> string"
  cx_source :: "json \<Rightarrow> (string \<times> (string \<times> json) list) option"
  cx_datetime :: "string \<Rightarrow> instant option"
  cx_date :: "string \<Rightarrow> date option"
  cx_order :: "string list \<Rightarrow> string list"
  cx_zone :: zone
  cx_aware :: "json \<Rightarrow> bool"
  cx_env :: "nat \<Rightarrow> report_db \<Rightarrow> report_db"

definition section_limits :: "(string \<times> int) list" where
  "section_limits = [(''executive_summary'', 800), (''cn_highlights'', 1000), (''hk_highlights'', 1000), (''us_highlights'', 1000),
     (''key_movements'', 1200), (''upcoming_calendar'', 1600), (''data_quality_notice'', 600), (''source_references'', 4000)]"

text \<open>\<open>ReportSection.validate_visible_text\<close>.\<close>

definition validate_visible_text :: "report_section \<Rightarrow> bool" where
  "validate_visible_text s \<longleftrightarrow>
     (let visible = (case sx_text s of None \<Rightarrow> [] | Some t \<Rightarrow> t)
            @ concat (map (\<lambda>item. concat (map (\<lambda>f. case jget item f of JStr t \<Rightarrow> t | _ \<Rightarrow> []) [''label'', ''text'', ''name''])) (sx_items s)) in
      int (ulen visible) = sx_count s
      \<and> (case map_of section_limits (sx_id s) of None \<Rightarrow> True | Some limit \<Rightarrow> sx_max s \<le> limit)
      \<and> sx_count s \<le> sx_max s)"

text \<open>
  \<open>_nested_reference_ids\<close> of the contract over one section: its own list, and every list of that name in
  its items and in the values of its claims; a list of anything but strings is an error.
\<close>

definition contract_refs :: "(report_section \<Rightarrow> string list) \<Rightarrow> string \<Rightarrow> report_section \<Rightarrow> exn + string list" where
  "contract_refs own f s = bindE (collect_list f (map JObj (sx_items s) @ map cl_value (sx_claims s))) (\<lambda>below. Inr (own s @ below))"

text \<open>\<open>DailyReport.validate_references\<close>.\<close>

definition validate_references :: "report_contract \<Rightarrow> daily_report \<Rightarrow> bool" where
  "validate_references c r \<longleftrightarrow>
     (let sections = map snd (dr_sections r) in
      set (map fst (dr_sections r)) = set (map fst section_limits)
      \<and> list_all (\<lambda>(k, s). sx_id s = k) (dr_sections r)
      \<and> \<not> (dr_status r = ''incomplete'' \<and> dr_decision r \<noteq> ''not_published'')
      \<and> (case mapE (contract_refs sx_facts ''fact_ids'') sections of
           Inl e \<Rightarrow> False
         | Inr refs \<Rightarrow> set (concat refs @ concat (map (map cl_fact \<circ> sx_claims) sections)) \<subseteq> set (sp_facts (dr_snapshot r)))
      \<and> (case map_of (dr_sections r) ''source_references'' of
           None \<Rightarrow> False
         | Some section \<Rightarrow>
             let sources = map (\<lambda>item. cx_source c (JObj item)) (sx_items section) in
             None \<notin> set sources \<and> distinct (map (fst \<circ> the) sources)
             \<and> (case mapE (contract_refs sx_sources ''source_ref_ids'') sections of
                  Inl e \<Rightarrow> False
                | Inr refs \<Rightarrow> set (concat refs) \<subseteq> set (map (fst \<circ> the) sources))))"

text \<open>\<open>DailyReport.model_validate\<close>.\<close>

definition model_validate :: "report_contract \<Rightarrow> (string \<times> json) list \<Rightarrow> string + daily_report" where
  "model_validate c payload = (case cx_report c payload of
     Inl text \<Rightarrow> Inl text
   | Inr r \<Rightarrow> if list_all validate_visible_text (map snd (dr_sections r)) \<and> validate_references c r then Inr r else Inl (cx_error c r))"

section \<open>The facts of a snapshot\<close>

record approved_fact =
  af_value :: json
  af_unit :: "string option"
  af_direction :: "string option"
  af_available :: "instant option"
  af_date :: "date option"
  af_start :: "date option"
  af_end :: "date option"
  af_sources :: "string list"
  af_bad_available :: bool
  af_bad_date :: bool

definition parse_datetime :: "report_contract \<Rightarrow> json \<Rightarrow> instant option" where
  "parse_datetime c v = (case v of
     JStr s \<Rightarrow> cx_datetime c (concat (map (\<lambda>x. if x = CHR ''Z'' then ''+00:00'' else [x]) s))
   | _ \<Rightarrow> None)"

definition parse_date :: "report_contract \<Rightarrow> json \<Rightarrow> date option" where
  "parse_date c v = (case v of JStr s \<Rightarrow> cx_date c s | _ \<Rightarrow> None)"

definition strings_of :: "json list \<Rightarrow> string list" where
  "strings_of l = List.map_filter as_str l"

definition raw_dicts :: "(string \<times> json) list \<Rightarrow> string \<Rightarrow> (string \<times> json) list list" where
  "raw_dicts payload k = (case jget payload k of JList l \<Rightarrow> List.map_filter as_obj l | _ \<Rightarrow> [])"

definition raw_facts :: "input_snapshot \<Rightarrow> (string \<times> json) list list" where
  "raw_facts s = raw_dicts (sn_payload s) ''facts''"

definition raw_sources :: "input_snapshot \<Rightarrow> (string \<times> json) list list" where
  "raw_sources s = raw_dicts (sn_payload s) ''source_references''"

definition approved_fact_of :: "report_contract \<Rightarrow> (string \<times> json) list \<Rightarrow> approved_fact" where
  "approved_fact_of c raw = (let at = parse_datetime c (jget raw ''available_at''); d = parse_date c (jget raw ''report_date'') in
     \<lparr>af_value = jget raw ''value'', af_unit = as_str (jget raw ''unit''), af_direction = as_str (jget raw ''direction''),
      af_available = at, af_date = d,
      af_start = parse_date c (jget raw ''period_start''), af_end = parse_date c (jget raw ''period_end''),
      af_sources = (case jget raw ''source_ref_ids'' of JList l \<Rightarrow> strings_of l | _ \<Rightarrow> []),
      af_bad_available = (jget raw ''available_at'' \<noteq> JNull \<and> at = None),
      af_bad_date = (jget raw ''report_date'' \<noteq> JNull \<and> d = None)\<rparr>)"

text \<open>Dictionaries by fact id and by source id: a later entry replaces an earlier one, so the list is reversed.\<close>

definition load_facts :: "report_contract \<Rightarrow> input_snapshot \<Rightarrow> (string \<times> approved_fact) list" where
  "load_facts c s = rev (List.map_filter (\<lambda>raw. map_option (\<lambda>i. (i, approved_fact_of c raw)) (as_str (jget raw ''fact_id''))) (raw_facts s))"

text \<open>\<open>_source_record\<close> of a dictionary, and of a typed reference from its JSON dump.\<close>

definition source_record :: "(string \<times> json) list \<Rightarrow> (string \<times> json) list" where
  "source_record raw = filter (\<lambda>(k, v). k \<noteq> ''external_llm_allowed'' \<or> v \<noteq> JNull) (map (\<lambda>k. (k, jget raw k)) source_ref_fields)"

definition load_source_records :: "input_snapshot \<Rightarrow> (string \<times> (string \<times> json) list) list" where
  "load_source_records s = rev (List.map_filter (\<lambda>raw. map_option (\<lambda>i. (i, source_record raw)) (as_str (jget raw ''source_ref_id''))) (raw_sources s))"

section \<open>Equality of claimed and approved values\<close>

text \<open>\<open>Decimal(text)\<close> as digits and exponent; no value for the text of an invalid or non-finite number.\<close>

definition digits_value :: "string \<Rightarrow> int" where
  "digits_value ds = fold (\<lambda>c n. 10 * n + int (of_char c) - 48) ds 0"

definition split_sign :: "string \<Rightarrow> int \<times> string" where
  "split_sign s = (case s of
     [] \<Rightarrow> (1, [])
   | c # cs \<Rightarrow> if c = CHR ''-'' then (-1, cs) else if c = CHR ''+'' then (1, cs) else (1, c # cs))"

definition exponent_of :: "string \<Rightarrow> int option" where
  "exponent_of s = (case s of
     [] \<Rightarrow> Some 0
   | c # cs \<Rightarrow> (case split_sign cs of (sg, ds) \<Rightarrow>
       if to_lower c = CHR ''e'' \<and> ds \<noteq> [] \<and> list_all is_digit ds then Some (sg * digits_value ds) else None))"

definition decimal_of :: "string \<Rightarrow> (int \<times> int) option" where
  "decimal_of text = (case split_sign (filter (\<lambda>c. c \<noteq> CHR ''_'') (strip text)) of (sg, s) \<Rightarrow>
     let whole = takeWhile is_digit s; after = dropWhile is_digit s;
         point = (after \<noteq> [] \<and> hd after = CHR ''.'');
         fraction = (if point then takeWhile is_digit (tl after) else []);
         rest = (if point then dropWhile is_digit (tl after) else after) in
     if whole @ fraction = [] then None
     else map_option (\<lambda>e. (sg * digits_value (whole @ fraction), e - int (length fraction))) (exponent_of rest))"

definition decimal_eq :: "int \<times> int \<Rightarrow> int \<times> int \<Rightarrow> bool" where
  "decimal_eq a b \<longleftrightarrow> (let low = min (snd a) (snd b) in
     fst a * 10 ^ nat (snd a - low) = fst b * 10 ^ nat (snd b - low))"

text \<open>\<open>Decimal(str(v))\<close>; the text of a bool is no number.\<close>

fun json_decimal :: "json \<Rightarrow> (int \<times> int) option" where
  "json_decimal (JInt i) = Some (i, 0)"
| "json_decimal (JFloat m d) = Some (m, - int d)"
| "json_decimal (JStr s) = decimal_of s"
| "json_decimal _ = None"

fun is_number :: "json \<Rightarrow> bool" where
  "is_number (JInt i) = True"
| "is_number (JFloat m d) = True"
| "is_number (JBool b) = True"
| "is_number _ = False"

definition values_equal :: "json \<Rightarrow> json \<Rightarrow> bool" where
  "values_equal l r =
     (if is_number l \<and> (is_number r \<or> as_str r \<noteq> None)
      then (case (json_decimal l, json_decimal r) of (Some a, Some b) \<Rightarrow> decimal_eq a b | _ \<Rightarrow> False)
      else json_eq l r)"

section \<open>The validator\<close>

definition an_issue :: "string \<Rightarrow> string \<Rightarrow> validation_issue" where
  "an_issue code message = \<lparr>vi_code = code, vi_message = message, vi_error = True, vi_input = None, vi_fact = None, vi_source = None\<rparr>"

definition input_issue :: "string \<Rightarrow> string \<Rightarrow> string \<Rightarrow> validation_issue" where
  "input_issue code message i = (an_issue code message)\<lparr>vi_input := Some i\<rparr>"

definition fact_issue :: "string \<Rightarrow> string \<Rightarrow> string \<Rightarrow> validation_issue" where
  "fact_issue code message i = (an_issue code message)\<lparr>vi_fact := Some i\<rparr>"

definition source_issue :: "string \<Rightarrow> string \<Rightarrow> string \<Rightarrow> validation_issue" where
  "source_issue code message i = (an_issue code message)\<lparr>vi_source := Some i\<rparr>"

definition when_issue :: "bool \<Rightarrow> validation_issue \<Rightarrow> validation_issue list" where
  "when_issue b i = (if b then [i] else [])"

text \<open>\<open>_quality_issues\<close>: the issues of the quality gate; an optional or revised input is only a warning.\<close>

definition gate_validation_issue :: "gate_issue \<Rightarrow> validation_issue" where
  "gate_validation_issue i = \<lparr>vi_code = qi_code i, vi_message = qi_message i,
     vi_error = (qi_required i \<and> \<not> starts_with ''REVISED_'' (qi_code i)), vi_input = Some (qi_input i), vi_fact = None, vi_source = None\<rparr>"

definition quality_issues :: "input_snapshot \<Rightarrow> exn + validation_issue list" where
  "quality_issues s = bindE (evaluate_quality s) (\<lambda>g. Inr (map gate_validation_issue (qr_issues g)))"

definition identity_mismatches :: "snapshot_ref \<Rightarrow> input_snapshot \<Rightarrow> string list" where
  "identity_mismatches p s = concat (map (\<lambda>(differs, name). if differs then [name] else [])
     [(sp_id p \<noteq> sn_id s, ''snapshot_id''), (sp_version p \<noteq> sn_version s, ''snapshot_version''),
      (sp_as_of p \<noteq> sn_as_of s, ''as_of''), (sp_cutoff p \<noteq> sn_cutoff_at s, ''cutoff_at''),
      (sp_fingerprint p \<noteq> sn_fingerprint s, ''fingerprint_sha256''), (sp_facts p \<noteq> sn_fact_ids s, ''fact_ids'')])"

text \<open>\<open>_nested_reference_ids\<close> of this module: here whatever is no list of strings is skipped.\<close>

fun nested_ids :: "string \<Rightarrow> json \<Rightarrow> string list" where
  "nested_ids f (JObj d) = (case jget d f of JList l \<Rightarrow> strings_of l | _ \<Rightarrow> []) @ concat (map (\<lambda>p. nested_ids f (snd p)) d)"
| "nested_ids f (JList l) = concat (map (nested_ids f) l)"
| "nested_ids f _ = []"

definition section_ids :: "(report_section \<Rightarrow> string list) \<Rightarrow> string \<Rightarrow> report_section \<Rightarrow> string list" where
  "section_ids own f s = own s @ concat (map (nested_ids f) (map JObj (sx_items s)))"

text \<open>Every source id is looked up once; \<open>checked\<close> are those seen before.\<close>

definition append_source_issues :: "string list \<Rightarrow> string list \<Rightarrow> validation_issue list \<times> string list \<Rightarrow> validation_issue list \<times> string list" where
  "append_source_issues known ids st = (let new = sorted_set (filter (\<lambda>i. i \<notin> set (snd st)) ids) in
     (fst st @ map (source_issue ''SOURCE_NOT_IN_SNAPSHOT'' ''source reference is not present in the approved input snapshot'')
        (filter (\<lambda>i. i \<notin> set known) new), snd st @ new))"

definition fact_findings :: "input_snapshot \<Rightarrow> string list \<Rightarrow> string \<Rightarrow> approved_fact \<Rightarrow> validation_issue list" where
  "fact_findings s cited i f =
     when_issue (af_bad_available f) (fact_issue ''FACT_AVAILABLE_AT_INVALID'' ''fact available_at must be a timezone-aware timestamp'' i)
     @ when_issue (af_bad_date f) (fact_issue ''FACT_REPORT_DATE_INVALID'' ''fact report_date must be an ISO date'' i)
     @ when_issue (case af_available f of None \<Rightarrow> False | Some t \<Rightarrow> sn_cutoff_at s < t)
         (fact_issue ''FACT_AFTER_CUTOFF'' ''fact became available after the snapshot cutoff'' i)
     @ when_issue (case af_date f of None \<Rightarrow> False | Some d \<Rightarrow> d \<noteq> sn_report_date s)
         (fact_issue ''FACT_DATE_MISMATCH'' ''fact report date does not match the report date'' i)
     @ when_issue (set cited \<inter> set (af_sources f) = {})
         (fact_issue ''FACT_UNCITED'' ''reported fact has no matching cited source reference'' i)"

definition check_fact :: "input_snapshot \<Rightarrow> (string \<times> approved_fact) list \<Rightarrow> string list \<Rightarrow> string list \<Rightarrow> string
    \<Rightarrow> validation_issue list \<times> string list \<Rightarrow> validation_issue list \<times> string list" where
  "check_fact s facts known cited i st = (case map_of facts i of
     None \<Rightarrow> (fst st @ [fact_issue ''FACT_NOT_MATERIALIZED'' ''fact ID is declared but its approved value is absent from the snapshot'' i], snd st)
   | Some f \<Rightarrow> (let st1 = append_source_issues known (af_sources f) st in (fst st1 @ fact_findings s cited i f, snd st1)))"

definition check_claim :: "(string \<times> approved_fact) list \<Rightarrow> report_claim \<Rightarrow> validation_issue list" where
  "check_claim facts cl = (case map_of facts (cl_fact cl) of
     None \<Rightarrow> [fact_issue ''CLAIM_FACT_NOT_FOUND'' ''machine-readable claim points to an unknown fact'' (cl_fact cl)]
   | Some f \<Rightarrow>
       when_issue (\<not> values_equal (cl_value cl) (af_value f))
         (fact_issue ''FACT_VALUE_MISMATCH'' ''machine-readable claim value differs from the approved fact'' (cl_fact cl))
       @ when_issue (cl_type cl = ''number'' \<and> cl_unit cl \<noteq> af_unit f)
         (fact_issue ''FACT_UNIT_MISMATCH'' ''machine-readable claim unit differs from the approved fact'' (cl_fact cl))
       @ when_issue (cl_type cl = ''direction'' \<and> cl_direction cl \<noteq> af_direction f)
         (fact_issue ''FACT_DIRECTION_MISMATCH'' ''machine-readable claim direction differs from the approved fact'' (cl_fact cl))
       @ when_issue ((cl_start cl, cl_end cl) \<noteq> (af_start f, af_end f))
         (fact_issue ''FACT_PERIOD_MISMATCH'' ''machine-readable claim period differs from the approved fact'' (cl_fact cl)))"

definition section_fact_ids :: "report_section \<Rightarrow> string list" where
  "section_fact_ids x = section_ids sx_facts ''fact_ids'' x @ map cl_fact (sx_claims x)"

definition check_section :: "report_contract \<Rightarrow> input_snapshot \<Rightarrow> (string \<times> approved_fact) list \<Rightarrow> string list \<Rightarrow> report_section
    \<Rightarrow> validation_issue list \<times> string list \<Rightarrow> validation_issue list \<times> string list" where
  "check_section c s facts known x st =
     (let cited = section_ids sx_sources ''source_ref_ids'' x;
          st1 = append_source_issues known cited st;
          st2 = fold (check_fact s facts known cited) (cx_order c (dedup (section_fact_ids x))) st1
      in (fst st2 @ concat (map (check_claim facts) (sx_claims x)), snd st2))"

definition source_findings :: "(string \<times> (string \<times> json) list) list \<Rightarrow> string \<times> (string \<times> json) list \<Rightarrow> validation_issue list" where
  "source_findings records r = (case map_of records (fst r) of
     None \<Rightarrow> [source_issue ''SOURCE_NOT_IN_SNAPSHOT'' ''source record is not present in the approved input snapshot'' (fst r)]
   | Some known \<Rightarrow> when_issue
       (\<not> json_eq (JObj (filter (\<lambda>(k, v). k \<noteq> ''external_llm_allowed'' \<or> v \<noteq> JNull) (snd r))) (JObj known))
       (source_issue ''SOURCE_RECORD_MISMATCH'' ''report source metadata differs from the approved snapshot'' (fst r)))"

definition report_sources :: "report_contract \<Rightarrow> daily_report \<Rightarrow> (string \<times> (string \<times> json) list) list" where
  "report_sources c t = (case map_of (dr_sections t) ''source_references'' of
     None \<Rightarrow> [] | Some x \<Rightarrow> List.map_filter (\<lambda>item. cx_source c (JObj item)) (sx_items x))"

definition validate :: "report_contract \<Rightarrow> stored_report \<Rightarrow> input_snapshot \<Rightarrow> exn + validation_issue list" where
  "validate c r s = (case model_validate c (sr_payload r) of
     Inl text \<Rightarrow> Inr [an_issue ''REPORT_CONTRACT_INVALID'' text]
   | Inr t \<Rightarrow> bindE (quality_issues s) (\<lambda>quality.
       let facts = load_facts c s; records = load_source_records s; known = map fst records;
           mismatches = identity_mismatches (dr_snapshot t) s;
           issues =
             when_issue (sr_date r \<noteq> sn_report_date s)
               (input_issue ''REPORT_DATE_MISMATCH'' ''report date does not match the persisted input snapshot'' (sn_id s))
             @ when_issue (sr_snapshot r \<noteq> sn_id s)
                 (input_issue ''SNAPSHOT_ID_MISMATCH'' ''report references a different input snapshot'' (sn_id s))
             @ when_issue (mismatches \<noteq> [])
                 (input_issue ''SNAPSHOT_IDENTITY_MISMATCH''
                    (''report input_snapshot differs from the persisted snapshot: '' @ join '', '' mismatches) (sn_id s))
             @ when_issue (dr_status t = ''incomplete'')
                 (an_issue ''REPORT_INCOMPLETE'' ''incomplete reports cannot reach publishable state'')
             @ quality
             @ concat (map (source_findings records) (report_sources c t))
       in Inr (fst (fold (check_section c s facts known) (map snd (dr_sections t)) (issues, [])))))"

definition publishable :: "validation_issue list \<Rightarrow> bool" where
  "publishable issues \<longleftrightarrow> list_all (\<lambda>i. \<not> vi_error i) issues"

section \<open>The finalized report\<close>

text \<open>\<open>d[k] = v\<close>: the key keeps its place or is appended.\<close>

fun dset :: "string \<Rightarrow> json \<Rightarrow> (string \<times> json) list \<Rightarrow> (string \<times> json) list" where
  "dset k v [] = [(k, v)]"
| "dset k v ((j, u) # d) = (if j = k then (j, v) # d else (j, u) # dset k v d)"

text \<open>
  \<open>dict(payload.get(k, {}))\<close> and \<open>list(payload.get(k, []))\<close>. A report that reaches the service has
  dictionaries and lists there; any other value is refused with the TypeError of most of them.
\<close>

definition as_dict :: "(string \<times> json) list \<Rightarrow> string \<Rightarrow> exn + (string \<times> json) list" where
  "as_dict d k = (if \<not> jhas d k then Inr [] else case jget d k of JObj e \<Rightarrow> Inr e | JList [] \<Rightarrow> Inr [] | _ \<Rightarrow> Inl TypeError)"

definition as_items :: "(string \<times> json) list \<Rightarrow> string \<Rightarrow> exn + json list" where
  "as_items d k = (if \<not> jhas d k then Inr [] else case jget d k of JList l \<Rightarrow> Inr l | _ \<Rightarrow> Inl TypeError)"

definition quality_bucket :: "string \<Rightarrow> string" where
  "quality_bucket code =
     (if code = ''REQUIRED_INPUT_UNAVAILABLE'' then ''missing_required_inputs''
      else if contains ''STALE'' code then ''stale_inputs''
      else if contains ''LATE'' code then ''late_inputs''
      else if contains ''REVISED'' code then ''revised_inputs''
      else ''unavailable_inputs'')"

text \<open>\<open>a or b or c or code\<close>: the first text that is not empty.\<close>

definition issue_input_id :: "validation_issue \<Rightarrow> string" where
  "issue_input_id i = (case filter (\<lambda>t. t \<noteq> []) (List.map_filter id [vi_input i, vi_fact i, vi_source i]) of t # _ \<Rightarrow> t | [] \<Rightarrow> vi_code i)"

definition quality_entry :: "string \<Rightarrow> validation_issue \<Rightarrow> json" where
  "quality_entry i x = JObj [(''input_id'', JStr i), (''reason_code'', JStr (vi_code x)), (''reason'', JStr (vi_message x))]"

definition has_entry :: "json list \<Rightarrow> string \<Rightarrow> string \<Rightarrow> bool" where
  "has_entry entries i code \<longleftrightarrow> (\<exists>d \<in> set (List.map_filter as_obj entries). jget d ''input_id'' = JStr i \<and> jget d ''reason_code'' = JStr code)"

definition add_quality_entry :: "validation_issue \<Rightarrow> (string \<times> json) list \<Rightarrow> exn + (string \<times> json) list" where
  "add_quality_entry x quality = (let bucket = quality_bucket (vi_code x); i = issue_input_id x in
     bindE (as_items quality bucket) (\<lambda>entries.
       Inr (dset bucket (JList (if has_entry entries i (vi_code x) then entries else entries @ [quality_entry i x])) quality)))"

fun add_quality_entries :: "validation_issue list \<Rightarrow> (string \<times> json) list \<Rightarrow> exn + (string \<times> json) list" where
  "add_quality_entries [] quality = Inr quality"
| "add_quality_entries (x # xs) quality = bindE (add_quality_entry x quality) (add_quality_entries xs)"

definition quality_notice :: "string \<Rightarrow> validation_issue list \<Rightarrow> string" where
  "quality_notice status issues = (if issues = [] then txt_quality_passed
     else if status = ''incomplete'' then txt_quality_incomplete else txt_quality_degraded)"

definition opt_json :: "string option \<Rightarrow> json" where
  "opt_json x = (case x of None \<Rightarrow> JNull | Some t \<Rightarrow> JStr t)"

definition final_status :: "stored_report \<Rightarrow> validation_issue list \<Rightarrow> string" where
  "final_status r issues =
     (if \<not> publishable issues \<or> sr_status r = ''incomplete'' then ''incomplete''
      else if list_ex (\<lambda>i. \<not> vi_error i) issues then ''degraded'' else sr_status r)"

definition finalize_report :: "stored_report \<Rightarrow> validation_issue list \<Rightarrow> exn + stored_report" where
  "finalize_report r issues =
     (let ok = publishable issues \<and> sr_status r \<noteq> ''incomplete''; status = final_status r issues;
          decision = (if ok then ''published'' else ''not_published''); text = quality_notice status issues;
          p1 = dset ''status'' (JStr status) (sr_payload r) in
      bindE (as_dict p1 ''publication'') (\<lambda>publication.
        let p2 = dset ''publication'' (JObj (dset ''reason_code'' (if ok then JNull else JStr ''VALIDATION_FAILED'')
              (dset ''decision'' (JStr decision) publication))) p1 in
        bindE (as_dict p2 ''data_quality'') (\<lambda>quality.
          bindE (add_quality_entries issues (dset ''status'' (JStr status) quality)) (\<lambda>quality1.
            let p3 = dset ''data_quality'' (JObj quality1) p2 in
            bindE (sub_dict p3 ''sections'') (\<lambda>sections.
              bindE (as_dict sections ''data_quality_notice'') (\<lambda>notice.
                let notice1 = dset ''issue_codes'' (JList (map JStr (sorted_set (map vi_code issues))))
                      (dset ''character_count'' (JInt (int (ulen text))) (dset ''text'' (JStr text) (dset ''status'' (JStr ''complete'') notice)))
                in Inr (r\<lparr>sr_status := status, sr_decision := decision,
                      sr_payload := dset ''sections'' (JObj (dset ''data_quality_notice'' (JObj notice1) sections)) p3,
                      sr_lifecycle := (if ok then Validated else Gen_failed), sr_errors := issues\<rparr>)))))))"

section \<open>The fallback report\<close>

text \<open>\<open>str(raw.get(k, fact_id))\<close>: the default stands for a missing key only.\<close>

definition text_or :: "(string \<times> json) list \<Rightarrow> string \<Rightarrow> json \<Rightarrow> string" where
  "text_or raw k v = py_str (if jhas raw k then jget raw k else v)"

text \<open>The strings met when iterating over a value: the elements of a list, the keys of a dictionary, the characters of a text.\<close>

definition continues_char :: "char \<Rightarrow> bool" where
  "continues_char x \<longleftrightarrow> 128 \<le> (of_char x :: nat) \<and> (of_char x :: nat) < 192"

function utf8_chars :: "string \<Rightarrow> string list" where
  "utf8_chars [] = []"
| "utf8_chars (c # cs) = (c # takeWhile continues_char cs) # utf8_chars (dropWhile continues_char cs)"
  by pat_completeness auto

termination
  by (relation "measure length") (auto simp: le_imp_less_Suc length_dropWhile_le)

definition iterated_strings :: "(string \<times> json) list \<Rightarrow> string \<Rightarrow> exn + string list" where
  "iterated_strings raw k = (if \<not> jhas raw k then Inr [] else case jget raw k of
     JList l \<Rightarrow> Inr (strings_of l) | JObj d \<Rightarrow> Inr (map fst d) | JStr t \<Rightarrow> Inr (utf8_chars t) | _ \<Rightarrow> Inl TypeError)"

definition fact_id_of :: "(string \<times> json) list \<Rightarrow> exn + json" where
  "fact_id_of raw = (if jhas raw ''fact_id'' then Inr (jget raw ''fact_id'') else Inl (OtherError ''KeyError''))"

definition fact_item :: "(string \<times> json) list \<Rightarrow> exn + (string \<times> json) list" where
  "fact_item raw = bindE (fact_id_of raw) (\<lambda>i. bindE (iterated_strings raw ''source_ref_ids'') (\<lambda>sources.
     Inr [(''label'', JStr (text_or raw ''label'' i)), (''text'', JStr (text_or raw ''display_text'' i)),
          (''fact_ids'', JList [i]), (''source_ref_ids'', JList (map JStr sources))]))"

definition fact_claim :: "(string \<times> json) list \<Rightarrow> exn + json" where
  "fact_claim raw = (let t = (if jhas raw ''claim_type'' then jget raw ''claim_type'' else JStr ''text'') in
     bindE (in_strs t [''number'', ''date'', ''direction'', ''text'']) (\<lambda>known.
       bindE (fact_id_of raw) (\<lambda>i. Inr (JObj [(''claim_type'', if known then t else JStr ''text''), (''fact_id'', i),
         (''value'', jget raw ''value''), (''unit'', jget raw ''unit''), (''direction'', jget raw ''direction''),
         (''period_start'', jget raw ''period_start''), (''period_end'', jget raw ''period_end'')]))))"

definition source_item :: "(string \<times> json) list \<Rightarrow> (string \<times> json) list" where
  "source_item raw = map (\<lambda>k. (k, jget raw k)) (filter (jhas raw) source_ref_fields)"

definition visible_text :: "(string \<times> json) list list \<Rightarrow> string" where
  "visible_text items = concat (map (\<lambda>item. concat (map (\<lambda>f. if jhas item f then py_str (jget item f) else []) [''label'', ''text'', ''name''])) items)"

text \<open>\<open>_section\<close>; an argument that is left out is None, and no section passes both a text and items.\<close>

definition report_section_obj :: "string \<Rightarrow> string \<Rightarrow> int \<Rightarrow> string option \<Rightarrow> (string \<times> json) list list \<Rightarrow> json list \<Rightarrow> int option
    \<Rightarrow> string list \<Rightarrow> string option \<Rightarrow> json" where
  "report_section_obj i status limit text items claims lookahead codes reason =
     (let facts = sorted_set (concat (map (nested_ids ''fact_ids'' \<circ> JObj) items));
          sources = sorted_set (concat (map (nested_ids ''source_ref_ids'' \<circ> JObj) items));
          visible = (case text of None \<Rightarrow> visible_text items | Some t \<Rightarrow> t) in
      JObj ([(''section_id'', JStr i), (''status'', JStr status), (''character_count'', JInt (int (ulen visible))),
             (''max_characters'', JInt limit), (''items'', JList (map JObj items))]
        @ (if facts = [] then [] else [(''fact_ids'', JList (map JStr facts))])
        @ (if sources = [] then [] else [(''source_ref_ids'', JList (map JStr sources))])
        @ (case text of None \<Rightarrow> [] | Some t \<Rightarrow> [(''text'', JStr t)])
        @ (if claims = [] then [] else [(''claims'', JList claims)])
        @ (case lookahead of None \<Rightarrow> [] | Some n \<Rightarrow> [(''lookahead_days'', JInt n)])
        @ (if codes = [] then [] else [(''issue_codes'', JList (map JStr codes))])
        @ (case reason of None \<Rightarrow> [] | Some t \<Rightarrow> [(''reason_code'', JStr t)])))"

definition fallback_section :: "(string \<times> json) list list \<Rightarrow> bool \<Rightarrow> string \<times> int \<Rightarrow> exn + string \<times> json" where
  "fallback_section facts blocking x = (case x of (i, limit) \<Rightarrow>
     let own = filter (\<lambda>raw. jget raw ''section_id'' = JStr i) facts in
     bindE (mapE fact_item own) (\<lambda>items.
       bindE (mapE fact_claim (filter (\<lambda>raw. jget raw ''value'' \<noteq> JNull) own)) (\<lambda>claims. Inr (i,
         if i = ''upcoming_calendar'' \<and> items = []
         then report_section_obj i (if blocking then ''unavailable'' else ''complete'') limit None [] [] (Some 7) [] None
         else if i = ''key_movements'' \<and> items = []
         then report_section_obj i (if blocking then ''incomplete'' else ''complete'') limit None [] [] None []
                (Some (if blocking then ''REQUIRED_INPUT_UNAVAILABLE'' else ''NO_VERIFIED_MOVEMENTS''))
         else if items \<noteq> []
         then report_section_obj i (if blocking then ''incomplete'' else ''complete'') limit None items claims None [] None
         else report_section_obj i (if blocking then ''unavailable'' else ''degraded'') limit
                (Some (if blocking then txt_data_unavailable else txt_no_facts)) [] [] None []
                (Some (if blocking then ''REQUIRED_INPUT_UNAVAILABLE'' else ''NO_VERIFIED_FACTS''))))))"

definition fallback_sections :: "input_snapshot \<Rightarrow> string \<Rightarrow> validation_issue list \<Rightarrow> bool \<Rightarrow> exn + (string \<times> json) list" where
  "fallback_sections s status issues blocking = mapE (\<lambda>(i, limit).
     if i = ''source_references''
     then let items = map source_item (raw_sources s) in
       Inr (i, report_section_obj i (if items \<noteq> [] then ''complete'' else ''unavailable'') limit None items [] None [] None)
     else if i = ''data_quality_notice''
     then Inr (i, report_section_obj i ''complete'' limit (Some (quality_notice status issues)) [] [] None (map vi_code issues) None)
     else fallback_section (raw_facts s) blocking (i, limit)) section_limits"

definition report_schedule :: json where
  "report_schedule = JObj [(''publish_time_local'', JStr ''08:30:00''), (''late_data_cutoff_local'', JStr ''08:15:00''),
     (''run_policy'', JStr ''every_calendar_day''), (''holiday_policy'', JStr ''publish_with_notice''),
     (''calendar_id'', JStr ''cn_hk_report_calendar_v1''), (''calendar_lookahead_days'', JInt 7),
     (''freshness'', JObj [(''market_close_max_age_hours'', JInt 36), (''official_news_max_age_hours'', JInt 24),
        (''macro_observation_max_age_days'', JInt 45)])]"

definition scheduled_publish_at :: "report_contract \<Rightarrow> input_snapshot \<Rightarrow> json" where
  "scheduled_publish_at c s = JStr (iso_utc (of_wall (cx_zone c) (combine (sn_report_date s) (time_of_day 8 30))))"

definition data_quality_obj :: "validation_issue list \<Rightarrow> string \<Rightarrow> json" where
  "data_quality_obj issues status =
     (let entry = (\<lambda>x. quality_entry (case vi_input x of Some (ch # t) \<Rightarrow> ch # t | _ \<Rightarrow> vi_code x) x);
          those = (\<lambda>p. JList (map entry (filter (\<lambda>x. p (vi_code x)) issues))) in
      JObj [(''status'', JStr status),
        (''missing_required_inputs'', those (\<lambda>k. k = ''REQUIRED_INPUT_UNAVAILABLE'')),
        (''stale_inputs'', those (contains ''STALE'')), (''late_inputs'', those (contains ''LATE'')),
        (''revised_inputs'', those (contains ''REVISED'')),
        (''unavailable_inputs'', those (\<lambda>k. k \<notin> {''REQUIRED_INPUT_UNAVAILABLE'', ''STALE_REQUIRED_INPUT'', ''STALE_OPTIONAL_INPUT'',
            ''LATE_REQUIRED_INPUT'', ''LATE_OPTIONAL_INPUT'', ''REVISED_REQUIRED_INPUT'', ''REVISED_OPTIONAL_INPUT''}))])"

definition build_fallback :: "report_contract \<Rightarrow> input_snapshot \<Rightarrow> string \<Rightarrow> string \<Rightarrow> instant \<Rightarrow> uuid option \<Rightarrow> exn + stored_report" where
  "build_fallback c s report_id version generated_at generation =
     bindE (quality_issues s) (\<lambda>issues.
       let blocking = \<not> publishable issues;
           status = (if blocking then ''incomplete'' else if issues \<noteq> [] then ''degraded'' else ''complete'');
           decision = (if blocking then ''not_published'' else ''published'') in
       bindE (fallback_sections s status issues blocking) (\<lambda>sections.
         make_stored_report (cx_aware c) \<lparr>sr_id = report_id, sr_date = sn_report_date s, sr_version = version, sr_contract = ''1.0'',
           sr_snapshot = sn_id s, sr_status = status, sr_decision = decision, sr_generated_at = generated_at,
           sr_payload = [(''contract_name'', JStr ''DailyReport''), (''contract_version'', JStr ''1.0''), (''report_id'', JStr report_id),
             (''report_date'', JStr (isodate (sn_report_date s))), (''timezone'', JStr ''Asia/Shanghai''), (''schedule'', report_schedule),
             (''calendar'', report_calendar_payload (jget (sn_payload s) ''report_day_policy'') (sn_report_date s)),
             (''generated_at'', JStr (iso_utc generated_at)), (''input_snapshot'', JObj (snapshot_identity s)),
             (''status'', JStr status),
             (''publication'', JObj [(''decision'', JStr decision),
                (''reason_code'', if blocking then JStr ''REQUIRED_INPUT_UNAVAILABLE'' else JNull),
                (''scheduled_publish_at'', scheduled_publish_at c s), (''published_at'', JNull)]),
             (''data_quality'', data_quality_obj issues status), (''sections'', JObj sections)],
           sr_lifecycle = Generated, sr_generation = generation, sr_errors = []\<rparr>))"

section \<open>The validation service\<close>

record report_world =
  gw_db :: report_db
  gw_steps :: nat

definition report_call :: "report_contract \<Rightarrow> (report_db, 'a) act \<Rightarrow> ('z report_world_scheme, 'a) act" where
  "report_call c m w = (case transaction m (cx_env c (gw_steps w) (gw_db w)) of
     (r, db) \<Rightarrow> (r, w\<lparr>gw_db := db, gw_steps := gw_steps w + 1\<rparr>))"

record validation_outcome =
  vo_report :: stored_report
  vo_issues :: "validation_issue list"
  vo_fallback :: bool

definition persist_validation :: "report_contract \<Rightarrow> stored_report option \<Rightarrow> stored_report \<Rightarrow> ('z report_world_scheme, bool) act" where
  "persist_validation c candidate final = (case candidate of
     None \<Rightarrow> report_call c (put_report (cx_aware c) final)
   | Some r \<Rightarrow> report_call c (update_report_validation final (sr_lifecycle r)))"

definition validate_or_fallback :: "report_contract \<Rightarrow> string \<Rightarrow> string \<Rightarrow> string \<Rightarrow> instant \<Rightarrow> stored_report option \<Rightarrow> uuid option
    \<Rightarrow> ('z report_world_scheme, validation_outcome) act" where
  "validate_or_fallback c snapshot_id report_id version generated_at candidate generation =
     bindA (report_call c (load_input_snapshot snapshot_id)) (\<lambda>found. case found of
       None \<Rightarrow> throw ReportValidationError
     | Some s \<Rightarrow>
         bindA (liftA (case candidate of Some r \<Rightarrow> Inr r | None \<Rightarrow> build_fallback c s report_id version generated_at generation)) (\<lambda>r.
           bindA (liftA (validate c r s)) (\<lambda>issues.
             bindA (liftA (finalize_report r issues)) (\<lambda>final.
               bindA (persist_validation c candidate final) (\<lambda>ok.
                 if ok then ret \<lparr>vo_report = final, vo_issues = issues, vo_fallback = (candidate = None)\<rparr>
                 else throw ReportValidationError)))))"

section \<open>What a report without errors states\<close>

definition fact_approved :: "input_snapshot \<Rightarrow> (string \<times> approved_fact) list \<Rightarrow> string list \<Rightarrow> string list \<Rightarrow> string \<Rightarrow> bool" where
  "fact_approved s facts known cited i \<longleftrightarrow> (case map_of facts i of None \<Rightarrow> False | Some f \<Rightarrow>
     set (af_sources f) \<subseteq> set known \<and> set cited \<inter> set (af_sources f) \<noteq> {}
     \<and> \<not> af_bad_available f \<and> \<not> af_bad_date f
     \<and> (case af_available f of None \<Rightarrow> True | Some t \<Rightarrow> t \<le> sn_cutoff_at s)
     \<and> (case af_date f of None \<Rightarrow> True | Some d \<Rightarrow> d = sn_report_date s))"

definition claim_approved :: "(string \<times> approved_fact) list \<Rightarrow> report_claim \<Rightarrow> bool" where
  "claim_approved facts cl \<longleftrightarrow> (case map_of facts (cl_fact cl) of None \<Rightarrow> False | Some f \<Rightarrow>
     values_equal (cl_value cl) (af_value f)
     \<and> (cl_type cl = ''number'' \<longrightarrow> cl_unit cl = af_unit f)
     \<and> (cl_type cl = ''direction'' \<longrightarrow> cl_direction cl = af_direction f)
     \<and> cl_start cl = af_start f \<and> cl_end cl = af_end f)"

definition section_approved :: "input_snapshot \<Rightarrow> (string \<times> approved_fact) list \<Rightarrow> string list \<Rightarrow> report_section \<Rightarrow> bool" where
  "section_approved s facts known x \<longleftrightarrow>
     (let cited = section_ids sx_sources ''source_ref_ids'' x in
      set cited \<subseteq> set known \<and> list_all (fact_approved s facts known cited) (section_fact_ids x)
      \<and> list_all (claim_approved facts) (sx_claims x))"

definition source_approved :: "(string \<times> (string \<times> json) list) list \<Rightarrow> string \<times> (string \<times> json) list \<Rightarrow> bool" where
  "source_approved records q \<longleftrightarrow> (case map_of records (fst q) of None \<Rightarrow> False
     | Some known \<Rightarrow> json_eq (JObj (filter (\<lambda>(k, v). k \<noteq> ''external_llm_allowed'' \<or> v \<noteq> JNull) (snd q))) (JObj known))"

definition report_approved :: "report_contract \<Rightarrow> stored_report \<Rightarrow> input_snapshot \<Rightarrow> daily_report \<Rightarrow> bool" where
  "report_approved c r s t \<longleftrightarrow> model_validate c (sr_payload r) = Inr t \<and> dr_status t \<noteq> ''incomplete''
     \<and> sr_date r = sn_report_date s \<and> sr_snapshot r = sn_id s
     \<and> dr_snapshot t = \<lparr>sp_id = sn_id s, sp_version = sn_version s, sp_as_of = sn_as_of s, sp_cutoff = sn_cutoff_at s,
         sp_fingerprint = sn_fingerprint s, sp_facts = sn_fact_ids s\<rparr>
     \<and> list_all (\<lambda>i. \<not> vi_error i) (case quality_issues s of Inl e \<Rightarrow> [] | Inr q \<Rightarrow> q)
     \<and> list_all (source_approved (load_source_records s)) (report_sources c t)
     \<and> list_all (section_approved s (load_facts c s) (map fst (load_source_records s))) (map snd (dr_sections t))"

lemma publishable_simps [simp]:
  "publishable []" "publishable (xs @ ys) \<longleftrightarrow> publishable xs \<and> publishable ys"
  "publishable (x # xs) \<longleftrightarrow> \<not> vi_error x \<and> publishable xs"
  "publishable (concat xss) \<longleftrightarrow> list_all publishable xss"
  by (induction xss) (auto simp: publishable_def)

lemma issue_errors [simp]:
  "vi_error (an_issue code m)" "vi_error (input_issue code m i)" "vi_error (fact_issue code m i)" "vi_error (source_issue code m i)"
  by (simp_all add: an_issue_def input_issue_def fact_issue_def source_issue_def)

lemma publishable_when [simp]: "publishable (when_issue b i) \<longleftrightarrow> \<not> b \<or> \<not> vi_error i"
  by (simp add: when_issue_def)

lemma publishable_source_issues [simp]: "publishable (map (source_issue code m) ids) \<longleftrightarrow> ids = []"
  by (cases ids) simp_all

lemma append_source_issues_ok:
  assumes "publishable (fst (append_source_issues known ids st))" "set (snd st) \<subseteq> set known"
  shows "publishable (fst st) \<and> set ids \<subseteq> set known \<and> set (snd (append_source_issues known ids st)) \<subseteq> set known"
  using assms by (auto simp: append_source_issues_def Let_def filter_empty_conv)

lemma check_fact_ok:
  assumes "publishable (fst (check_fact s facts known cited i st))" "set (snd st) \<subseteq> set known"
  shows "publishable (fst st) \<and> fact_approved s facts known cited i \<and> set (snd (check_fact s facts known cited i st)) \<subseteq> set known"
  using assms append_source_issues_ok [of known _ st]
  by (auto simp: check_fact_def fact_approved_def fact_findings_def Let_def split: option.splits)

lemma check_fact_grows: "publishable (fst (check_fact s facts known cited i st)) \<Longrightarrow> publishable (fst st)"
  by (auto simp: check_fact_def append_source_issues_def Let_def split: option.splits)

lemma check_facts_grow: "publishable (fst (fold (check_fact s facts known cited) is st)) \<Longrightarrow> publishable (fst st)"
proof (induction "is" arbitrary: st)
  case (Cons i "is")
  then have "publishable (fst (fold (check_fact s facts known cited) is (check_fact s facts known cited i st)))" by simp
  then have "publishable (fst (check_fact s facts known cited i st))" by (rule Cons.IH)
  then show ?case by (rule check_fact_grows)
qed simp

lemma check_facts_ok:
  assumes "publishable (fst (fold (check_fact s facts known cited) is st))" "set (snd st) \<subseteq> set known"
  shows "list_all (fact_approved s facts known cited) is \<and> set (snd (fold (check_fact s facts known cited) is st)) \<subseteq> set known"
  using assms
proof (induction "is" arbitrary: st)
  case (Cons i "is")
  have "publishable (fst (check_fact s facts known cited i st))" using Cons.prems(1) by (auto dest: check_facts_grow)
  then show ?case using Cons check_fact_ok [of s facts known cited i st] by simp
qed simp

lemma check_claim_ok: "publishable (check_claim facts cl) \<Longrightarrow> claim_approved facts cl"
  by (auto simp: check_claim_def claim_approved_def split: option.splits)

lemma check_section_grows: "publishable (fst (check_section c s facts known x st)) \<Longrightarrow> publishable (fst st)"
  by (auto simp: check_section_def append_source_issues_def Let_def dest!: check_facts_grow)

lemma check_sections_grow: "publishable (fst (fold (check_section c s facts known) xs st)) \<Longrightarrow> publishable (fst st)"
proof (induction xs arbitrary: st)
  case (Cons x xs)
  then have "publishable (fst (fold (check_section c s facts known) xs (check_section c s facts known x st)))" by simp
  then have "publishable (fst (check_section c s facts known x st))" by (rule Cons.IH)
  then show ?case by (rule check_section_grows)
qed simp

lemma check_section_ok:
  assumes "\<And>ids. set (cx_order c ids) = set ids"
    and "publishable (fst (check_section c s facts known x st))" "set (snd st) \<subseteq> set known"
  shows "section_approved s facts known x \<and> set (snd (check_section c s facts known x st)) \<subseteq> set known"
proof -
  define cited where "cited = section_ids sx_sources ''source_ref_ids'' x"
  define st1 where "st1 = append_source_issues known cited st"
  define ids where "ids = cx_order c (dedup (section_fact_ids x))"
  define st2 where "st2 = fold (check_fact s facts known cited) ids st1"
  have eq: "check_section c s facts known x st = (fst st2 @ concat (map (check_claim facts) (sx_claims x)), snd st2)"
    by (simp add: check_section_def Let_def cited_def st1_def ids_def st2_def)
  have p: "publishable (fst st2)" "list_all (publishable \<circ> check_claim facts) (sx_claims x)"
    using assms(2) by (simp_all add: eq list.pred_map)
  have "publishable (fst st1)" using p(1) unfolding st2_def by (rule check_facts_grow)
  then have cited: "set cited \<subseteq> set known" "set (snd st1) \<subseteq> set known"
    using append_source_issues_ok [of known cited st] assms(3) by (auto simp: st1_def)
  have facts: "list_all (fact_approved s facts known cited) ids" "set (snd st2) \<subseteq> set known"
    using check_facts_ok [OF p(1) [unfolded st2_def] cited(2)] by (simp_all add: st2_def)
  have "list_all (fact_approved s facts known cited) (section_fact_ids x)"
    using facts(1) by (simp add: list_all_iff ids_def assms(1))
  moreover have "list_all (claim_approved facts) (sx_claims x)" using p(2) by (auto simp: list_all_iff intro: check_claim_ok)
  ultimately show ?thesis using cited(1) facts(2) by (simp add: section_approved_def Let_def cited_def [symmetric] eq)
qed

lemma check_sections_ok:
  assumes "\<And>ids. set (cx_order c ids) = set ids"
    and "publishable (fst (fold (check_section c s facts known) xs st))" "set (snd st) \<subseteq> set known"
  shows "list_all (section_approved s facts known) xs"
  using assms(2,3)
proof (induction xs arbitrary: st)
  case (Cons x xs)
  have "publishable (fst (check_section c s facts known x st))" using Cons.prems(1) by (auto dest: check_sections_grow)
  then show ?case using Cons check_section_ok [OF assms(1), of s facts known x st] by simp
qed simp

lemma source_findings_ok: "publishable (source_findings records q) \<Longrightarrow> source_approved records q"
  by (auto simp: source_findings_def source_approved_def split: option.splits)

lemma identity_matches: "identity_mismatches p s = [] \<Longrightarrow> p = \<lparr>sp_id = sn_id s, sp_version = sn_version s, sp_as_of = sn_as_of s,
    sp_cutoff = sn_cutoff_at s, sp_fingerprint = sn_fingerprint s, sp_facts = sn_fact_ids s\<rparr>"
  by (cases p) (auto simp: identity_mismatches_def split: if_splits)

lemma validate_approved:
  assumes "\<And>ids. set (cx_order c ids) = set ids" and run: "validate c r s = Inr issues" and p: "publishable issues"
  shows "\<exists>t. report_approved c r s t"
proof -
  obtain t where t: "model_validate c (sr_payload r) = Inr t" using run p by (cases "model_validate c (sr_payload r)") (auto simp: validate_def)
  obtain q where q: "quality_issues s = Inr q" using run t by (cases "quality_issues s") (auto simp: validate_def)
  define records where "records = load_source_records s"
  define early where "early = when_issue (sr_date r \<noteq> sn_report_date s)
         (input_issue ''REPORT_DATE_MISMATCH'' ''report date does not match the persisted input snapshot'' (sn_id s))
     @ when_issue (sr_snapshot r \<noteq> sn_id s)
         (input_issue ''SNAPSHOT_ID_MISMATCH'' ''report references a different input snapshot'' (sn_id s))
     @ when_issue (identity_mismatches (dr_snapshot t) s \<noteq> [])
         (input_issue ''SNAPSHOT_IDENTITY_MISMATCH'' (''report input_snapshot differs from the persisted snapshot: ''
            @ join '', '' (identity_mismatches (dr_snapshot t) s)) (sn_id s))
     @ when_issue (dr_status t = ''incomplete'') (an_issue ''REPORT_INCOMPLETE'' ''incomplete reports cannot reach publishable state'')
     @ q @ concat (map (source_findings records) (report_sources c t))"
  have fold: "publishable (fst (fold (check_section c s (load_facts c s) (map fst records)) (map snd (dr_sections t)) (early, [])))"
    using run p t q by (simp add: validate_def Let_def early_def records_def)
  have sections: "list_all (section_approved s (load_facts c s) (map fst records)) (map snd (dr_sections t))"
    using check_sections_ok [OF assms(1) fold] by simp
  have "publishable early" using check_sections_grow [OF fold] by simp
  then have "sr_date r = sn_report_date s" "sr_snapshot r = sn_id s" "identity_mismatches (dr_snapshot t) s = []" "dr_status t \<noteq> ''incomplete''"
    "publishable q" "list_all (source_approved records) (report_sources c t)"
    by (auto simp: early_def list.pred_map list_all_iff comp_def intro: source_findings_ok)
  then show ?thesis using sections t q identity_matches by (auto simp: report_approved_def records_def publishable_def)
qed

section \<open>What the service persists\<close>

lemma finalize_report_Inr:
  assumes "finalize_report r issues = Inr f"
  defines "ok \<equiv> publishable issues \<and> sr_status r \<noteq> ''incomplete''"
  shows "sr_id f = sr_id r" "sr_date f = sr_date r" "sr_version f = sr_version r" "sr_snapshot f = sr_snapshot r"
    "sr_generation f = sr_generation r" "sr_errors f = issues" "sr_status f = final_status r issues"
    "sr_decision f = (if ok then ''published'' else ''not_published'')" "sr_lifecycle f = (if ok then Validated else Gen_failed)"
  using assms by (auto simp: finalize_report_def bindE_eq_Inr Let_def)

definition persisted :: "stored_report \<Rightarrow> report_db \<Rightarrow> bool" where
  "persisted f db \<longleftrightarrow> (\<exists>e \<in> set (db_reports db). sr_id e = sr_id f \<and> sr_status e = sr_status f \<and> sr_decision e = sr_decision f
     \<and> sr_lifecycle e = sr_lifecycle f \<and> sr_errors e = sr_errors f \<and> sr_payload e = sr_payload f)"

lemma update_validation_persists:
  assumes "update_report_validation f expected db = (Inr True, db')"
  shows "persisted f db'"
proof -
  obtain e where e: "e \<in> set (db_reports db)" "sr_id e = sr_id f \<and> sr_lifecycle e = expected"
    and db': "db_reports db' = map (\<lambda>e. if sr_id e = sr_id f \<and> sr_lifecycle e = expected
        then e\<lparr>sr_status := sr_status f, sr_decision := sr_decision f, sr_lifecycle := sr_lifecycle f, sr_errors := sr_errors f,
            sr_payload := sr_payload f\<rparr> else e) (db_reports db)"
    using assms by (auto simp: update_report_validation_def update_where_def)
  have "e\<lparr>sr_status := sr_status f, sr_decision := sr_decision f, sr_lifecycle := sr_lifecycle f, sr_errors := sr_errors f,
      sr_payload := sr_payload f\<rparr> \<in> set (db_reports db')" using e by (auto simp: db' image_iff intro!: bexI [of _ e])
  then show ?thesis using e(2) by (auto simp: persisted_def intro: bexI [rotated])
qed

lemma insert_report_persists:
  assumes "insert_report aware f db = (Inr True, db')"
  shows "persisted f db'"
proof -
  have "db_reports db' = db_reports db @ [f]" using assms by (auto simp: insert_report_def split: if_splits option.splits sum.splits)
  then show ?thesis by (simp add: persisted_def)
qed

lemma put_report_persists: "put_report aware f db = (Inr True, db') \<Longrightarrow> persisted f db'"
  unfolding put_report_def bindA_eq
  by (elim disjE exE conjE) (auto simp: bindA_def intro: insert_report_persists split: option.splits if_splits sum.splits)

lemma persist_validation_persists:
  assumes "persist_validation c candidate f w = (Inr True, w')"
  shows "persisted f (gw_db w')"
  using assms
  by (auto simp: persist_validation_def report_call_def transaction_def
      intro: update_validation_persists put_report_persists split: option.splits prod.splits sum.splits)

lemma validate_or_fallback_shape:
  assumes "validate_or_fallback c snapshot_id report_id version at candidate generation w = (Inr v, w')"
  shows "\<exists>s r. fst (load_input_snapshot snapshot_id (cx_env c (gw_steps w) (gw_db w))) = Inr (Some s)
    \<and> (case candidate of Some r' \<Rightarrow> r = r' | None \<Rightarrow> build_fallback c s report_id version at generation = Inr r)
    \<and> validate c r s = Inr (vo_issues v) \<and> finalize_report r (vo_issues v) = Inr (vo_report v)
    \<and> vo_fallback v = (candidate = None) \<and> persisted (vo_report v) (gw_db w')"
proof -
  obtain x w1 where x: "report_call c (load_input_snapshot snapshot_id) w = (x, w1)" by fastforce
  then have load: "fst (load_input_snapshot snapshot_id (cx_env c (gw_steps w) (gw_db w))) = x"
    by (auto simp: report_call_def transaction_def split: prod.splits sum.splits)
  obtain s where s: "x = Inr (Some s)" using assms x by (auto simp: validate_or_fallback_def bindA_eq split: option.splits)
  obtain r issues f where r: "(case candidate of Some r \<Rightarrow> Inr r | None \<Rightarrow> build_fallback c s report_id version at generation) = Inr r"
    "validate c r s = Inr issues" "finalize_report r issues = Inr f"
    and rest: "bindA (persist_validation c candidate f) (\<lambda>ok. if ok then ret \<lparr>vo_report = f, vo_issues = issues,
        vo_fallback = (candidate = None)\<rparr> else throw ReportValidationError) w1 = (Inr v, w')"
    using assms x s by (auto simp: validate_or_fallback_def bindA_eq)
  then have "v = \<lparr>vo_report = f, vo_issues = issues, vo_fallback = (candidate = None)\<rparr>" "persist_validation c candidate f w1 = (Inr True, w')"
    by (auto simp: bindA_eq split: if_splits)
  then show ?thesis using load s r persist_validation_persists by (intro exI [of _ s] exI [of _ r]) (auto split: option.splits)
qed

definition approved_origin :: "report_contract \<Rightarrow> stored_report \<Rightarrow> bool" where
  "approved_origin c f \<longleftrightarrow> (\<exists>s r t. report_approved c r s t \<and> sr_status r \<noteq> ''incomplete'' \<and> finalize_report r (sr_errors f) = Inr f)"

lemma validate_or_fallback_approved:
  assumes order: "\<And>ids. set (cx_order c ids) = set ids"
    and run: "validate_or_fallback c snapshot_id report_id version at candidate generation w = (Inr v, w')"
    and valid: "sr_lifecycle (vo_report v) = Validated"
  shows "approved_origin c (vo_report v)"
proof -
  obtain s r where s: "validate c r s = Inr (vo_issues v)" "finalize_report r (vo_issues v) = Inr (vo_report v)"
    using validate_or_fallback_shape [OF run] by blast
  note final = finalize_report_Inr [OF s(2)]
  have "publishable (vo_issues v)" "sr_status r \<noteq> ''incomplete''" using valid final(9) by (auto split: if_splits)
  then show ?thesis using validate_approved [OF order s(1)] s(2) final(6) by (auto simp: approved_origin_def)
qed

text \<open>C29: A report that the validation service leaves publishable states only approved facts. When the service returns, the report it
  persisted is validated exactly when it is published, its errors are the issues found, and if it is validated then the report it was
  finalized from satisfies the contract, has the identity of its input snapshot, cites only sources of the snapshot with their recorded
  metadata, and every fact it refers to and every claim it makes agrees with a fact of the snapshot that was available before the
  cutoff; this holds of a generated candidate and of the fallback report.\<close>

theorem validated_report_states_approved_facts:
  assumes "\<And>ids. set (cx_order c ids) = set ids"
    and run: "validate_or_fallback c snapshot_id report_id version at candidate generation w = (Inr v, w')"
  shows "persisted (vo_report v) (gw_db w') \<and> sr_errors (vo_report v) = vo_issues v
    \<and> (sr_lifecycle (vo_report v) = Validated \<longleftrightarrow> sr_decision (vo_report v) = ''published'')
    \<and> (\<exists>s r. fst (load_input_snapshot snapshot_id (cx_env c (gw_steps w) (gw_db w))) = Inr (Some s)
        \<and> (case candidate of Some r' \<Rightarrow> r = r' | None \<Rightarrow> build_fallback c s report_id version at generation = Inr r)
        \<and> finalize_report r (vo_issues v) = Inr (vo_report v)
        \<and> (sr_lifecycle (vo_report v) = Validated \<longrightarrow> sr_status r \<noteq> ''incomplete'' \<and> (\<exists>t. report_approved c r s t)))"
proof -
  obtain s r where s: "fst (load_input_snapshot snapshot_id (cx_env c (gw_steps w) (gw_db w))) = Inr (Some s)"
    "case candidate of Some r' \<Rightarrow> r = r' | None \<Rightarrow> build_fallback c s report_id version at generation = Inr r"
    "validate c r s = Inr (vo_issues v)" and f: "finalize_report r (vo_issues v) = Inr (vo_report v)" "persisted (vo_report v) (gw_db w')"
    using validate_or_fallback_shape [OF run] by blast
  note final = finalize_report_Inr [OF f(1)]
  have "sr_lifecycle (vo_report v) = Validated \<longrightarrow> sr_status r \<noteq> ''incomplete'' \<and> (\<exists>t. report_approved c r s t)"
    using validate_approved [OF assms(1) s(3)] final(9) by simp
  then show ?thesis using s(1,2) f final(6,8,9) by auto
qed

text \<open>A snapshot with one fact and its source, and a report that claims the value of the fact.\<close>

definition demo_reference :: "(string \<times> json) list" where
  "demo_reference = [(''source_ref_id'', JStr ''p1''), (''provider_id'', JStr ''cn.nbs''), (''provider_record_id'', JStr ''1''),
     (''source_name'', JStr ''NBS''), (''source_url'', JNull), (''retrieved_at'', JStr ''t''), (''checksum_sha256'', JStr ''c'')]"

definition fact_snapshot :: input_snapshot where
  "fact_snapshot = demo_snapshot (snapshot_identity (demo_snapshot [])
     @ [(''input_quality'', good_quality required_input_ids),
        (''facts'', JList [JObj [(''fact_id'', JStr ''a''), (''value'', JStr ''7.50''), (''unit'', JStr ''pct''),
           (''source_ref_ids'', JList [JStr ''p1''])]]),
        (''source_references'', JList [JObj demo_reference])])"

definition demo_section :: "string \<times> int \<Rightarrow> string \<times> report_section" where
  "demo_section x = (fst x, \<lparr>sx_id = fst x, sx_status = ''complete'', sx_count = 0, sx_max = snd x, sx_text = None,
     sx_facts = (if fst x = ''cn_highlights'' then [''a''] else []), sx_sources = (if fst x = ''cn_highlights'' then [''p1''] else []),
     sx_items = (if fst x = ''source_references'' then [demo_reference] else []),
     sx_claims = (if fst x = ''cn_highlights''
       then [\<lparr>cl_type = ''number'', cl_fact = ''a'', cl_value = JFloat 75 1, cl_unit = Some ''pct'', cl_direction = None,
          cl_start = None, cl_end = None\<rparr>] else [])\<rparr>)"

definition demo_typed :: daily_report where
  "demo_typed = \<lparr>dr_id = ''r1'', dr_date = tuesday, dr_snapshot = \<lparr>sp_id = ''s1'', sp_version = ''1.0'', sp_as_of = 0, sp_cutoff = 0,
     sp_fingerprint = ''f'', sp_facts = [''a'']\<rparr>, dr_status = ''complete'', dr_decision = ''not_published'',
     dr_sections = map demo_section section_limits\<rparr>"

definition demo_contract :: report_contract where
  "demo_contract = \<lparr>cx_report = (\<lambda>_. Inr demo_typed), cx_error = (\<lambda>_. []),
     cx_source = (\<lambda>j. case j of JObj d \<Rightarrow> Some (''p1'', d @ [(''external_llm_allowed'', JNull)]) | _ \<Rightarrow> None),
     cx_datetime = (\<lambda>_. None), cx_date = (\<lambda>_. None), cx_order = (\<lambda>ids. ids), cx_zone = fixed_zone (8 * hour_us),
     cx_aware = (\<lambda>_. True), cx_env = (\<lambda>_ db. db)\<rparr>"

definition demo_candidate :: stored_report where
  "demo_candidate = \<lparr>sr_id = ''r1'', sr_date = tuesday, sr_version = ''v1'', sr_contract = ''1.0'', sr_snapshot = ''s1'',
     sr_status = ''complete'', sr_decision = ''not_published'', sr_generated_at = 0, sr_payload = [(''report_id'', JStr ''r1'')],
     sr_lifecycle = Generated, sr_generation = None, sr_errors = []\<rparr>"

definition demo_report_world :: report_world where
  "demo_report_world = \<lparr>gw_db = \<lparr>db_snapshots = [fact_snapshot], db_generations = [], db_reports = [demo_candidate],
     db_source_refs = [], db_deliveries = []\<rparr>, gw_steps = 0\<rparr>"

lemma demo_validation:
  "case validate_or_fallback demo_contract ''s1'' ''r1'' ''v1'' 0 (Some demo_candidate) None demo_report_world of
     (Inr v, w') \<Rightarrow> sr_lifecycle (vo_report v) = Validated | _ \<Rightarrow> False"
  by code_simp

theorem validated_report_states_approved_facts_witness:
  "\<exists>s t. sn_id s = ''s1'' \<and> report_approved demo_contract demo_candidate s t"
proof -
  obtain v w' where run: "validate_or_fallback demo_contract ''s1'' ''r1'' ''v1'' 0 (Some demo_candidate) None demo_report_world = (Inr v, w')"
    and valid: "sr_lifecycle (vo_report v) = Validated"
    using demo_validation by (auto split: prod.splits sum.splits)
  have "set (cx_order demo_contract ids) = set ids" for ids by (simp add: demo_contract_def)
  from validated_report_states_approved_facts [OF this run] valid
  obtain s t where "fst (load_input_snapshot ''s1'' (cx_env demo_contract (gw_steps demo_report_world) (gw_db demo_report_world))) = Inr (Some s)"
    "report_approved demo_contract demo_candidate s t" by auto
  moreover from this(1) have "sn_id s = ''s1''"
    by (auto simp: load_input_snapshot_def make_snapshot_def select_one_def find_Some_iff split: option.splits sum.splits if_splits)
  ultimately show ?thesis by blast
qed

end
