(* ===== verification/Report_Generation.thy ===== *)
theory Report_Generation
  imports Report_Validation Action_Loops
begin

text \<open>
  \<open>ReportGenerationService\<close> of \<open>services/report_generator.py\<close>: from a persisted input snapshot, a prompt
  that is free of restricted fields, a bounded number of calls of the language model, and the report
  that the validation service leaves, with every attempt recorded. The language model is a port
  (\<open>services/llm.py\<close>): an action on a state of its own, which also raises when its time is up.
\<close>

section \<open>The prompt\<close>

record llm_request =
  lr_model :: string
  lr_prompt_version :: string
  lr_payload :: "(string \<times> json) list"
  lr_fingerprint :: string
  lr_sources :: "string list"
  lr_parameters :: "(string \<times> json) list"

definition report_prompt_version :: string where
  "report_prompt_version = ''daily-report-v1.0''"

definition forbidden_prompt_keys :: "string list" where
  "forbidden_prompt_keys = [''api_key'', ''authorization'', ''cookie'', ''credential'', ''password'', ''secret'', ''token'']"

definition forbidden_key :: "string \<Rightarrow> bool" where
  "forbidden_key key = (let k = map (\<lambda>c. if c = CHR ''-'' then CHR ''_'' else c) (lower key) in
     k \<in> set forbidden_prompt_keys \<or> list_ex (\<lambda>p. contains p k) [''token'', ''secret'', ''password''])"

text \<open>\<open>_assert_prompt_safe\<close>: no restricted key with a value, at any depth.\<close>

fun prompt_safe :: "json \<Rightarrow> bool" where
  "prompt_safe (JObj d) = list_all (\<lambda>p. \<not> (snd p \<noteq> JNull \<and> forbidden_key (fst p)) \<and> prompt_safe (snd p)) d"
| "prompt_safe (JList l) = list_all prompt_safe l"
| "prompt_safe v = True"

definition assert_prompt_safe :: "(string \<times> json) list \<Rightarrow> exn + unit" where
  "assert_prompt_safe d = (if prompt_safe (JObj d) then Inr () else Inl ValueError)"

definition source_references_of :: "report_contract \<Rightarrow> input_snapshot \<Rightarrow> exn + (string \<times> (string \<times> json) list) list" where
  "source_references_of c s = (case jget (sn_payload s) ''source_references'' of
     JList raw \<Rightarrow> bindE (mapE (\<lambda>item. case cx_source c item of None \<Rightarrow> Inl ValidationError | Some r \<Rightarrow> Inr r) raw) (\<lambda>refs.
       case jget (sn_payload s) ''source_ref_ids'' of
         JList l \<Rightarrow> (case all_strs l of
             None \<Rightarrow> Inl ReportGenerationError
           | Some ids \<Rightarrow> if ids \<noteq> map fst refs \<or> \<not> distinct ids then Inl ReportGenerationError else Inr refs)
       | _ \<Rightarrow> Inl ReportGenerationError)
   | _ \<Rightarrow> Inl ReportGenerationError)"

definition make_llm_request :: "llm_request \<Rightarrow> exn + llm_request" where
  "make_llm_request q = (let q1 = q\<lparr>lr_model := strip (lr_model q), lr_fingerprint := strip (lr_fingerprint q),
       lr_sources := map strip (lr_sources q)\<rparr> in
     if len_ok 128 (lr_model q1) \<and> is_hex64 (lr_fingerprint q1) then Inr q1 else Inl ValidationError)"

text \<open>\<open>ReportPromptBuilder.build\<close>.\<close>

definition build_prompt :: "report_contract \<Rightarrow> input_snapshot \<Rightarrow> string \<Rightarrow> (string \<times> json) list \<Rightarrow> exn + llm_request" where
  "build_prompt c s model parameters = (case jget (sn_payload s) ''editor_context'' of
     JObj context \<Rightarrow>
       let payload = [(''report_date'', JStr (isodate (sn_report_date s))), (''as_of'', JStr (isoformat_utc (sn_as_of s))),
             (''cutoff_at'', JStr (isoformat_utc (sn_cutoff_at s))), (''editor_context'', JObj context)] in
       bindE (assert_prompt_safe payload) (\<lambda>_. bindE (assert_prompt_safe parameters) (\<lambda>_.
         bindE (source_references_of c s) (\<lambda>refs.
           make_llm_request \<lparr>lr_model = model, lr_prompt_version = report_prompt_version, lr_payload = payload,
             lr_fingerprint = sn_fingerprint s, lr_sources = map fst refs, lr_parameters = parameters\<rparr>)))
   | _ \<Rightarrow> Inl ReportGenerationError)"

section \<open>The report of a response\<close>

definition complete_quality :: json where
  "complete_quality = JObj [(''status'', JStr ''complete''), (''missing_required_inputs'', JList []), (''stale_inputs'', JList []),
     (''late_inputs'', JList []), (''revised_inputs'', JList []), (''unavailable_inputs'', JList [])]"

definition dupdate :: "(string \<times> json) list \<Rightarrow> (string \<times> json) list \<Rightarrow> (string \<times> json) list" where
  "dupdate d e = fold (\<lambda>(k, v). dset k v) e d"

definition get_or :: "(string \<times> json) list \<Rightarrow> string \<Rightarrow> json \<Rightarrow> json" where
  "get_or d k v = (if jhas d k then jget d k else v)"

definition snapshot_calendar :: "input_snapshot \<Rightarrow> json" where
  "snapshot_calendar s = report_calendar_payload (jget (sn_payload s) ''report_day_policy'') (sn_report_date s)"

definition materialize_report :: "report_contract \<Rightarrow> (string \<times> json) list \<Rightarrow> input_snapshot \<Rightarrow> string \<Rightarrow> instant \<Rightarrow> exn + (string \<times> json) list" where
  "materialize_report c structured s report_id generated_at =
     (let output = (if jhas structured ''contract_name'' then structured
            else dupdate [(''contract_name'', JStr ''DailyReport''), (''contract_version'', JStr ''1.0''), (''timezone'', JStr ''Asia/Shanghai''),
                (''schedule'', report_schedule), (''calendar'', snapshot_calendar s),
                (''status'', get_or structured ''status'' (JStr ''complete'')), (''data_quality'', get_or structured ''data_quality'' complete_quality),
                (''sections'', get_or structured ''sections'' (JObj []))] structured);
          updated = dupdate output [(''contract_name'', JStr ''DailyReport''), (''contract_version'', JStr ''1.0''),
              (''report_id'', JStr report_id), (''report_date'', JStr (isodate (sn_report_date s))), (''timezone'', JStr ''Asia/Shanghai''),
              (''calendar'', snapshot_calendar s), (''generated_at'', JStr (iso_utc generated_at)), (''input_snapshot'', JObj (snapshot_identity s)),
              (''publication'', JObj [(''decision'', JStr ''not_published''), (''reason_code'', JStr ''PENDING_VALIDATION''),
                 (''scheduled_publish_at'', scheduled_publish_at c s), (''published_at'', JNull)])] in
      case jget updated ''sections'' of
        JObj sections \<Rightarrow> bindE (source_references_of c s) (\<lambda>refs.
          Inr (dset ''sections'' (JObj (dset ''source_references'' (JObj [(''section_id'', JStr ''source_references''), (''status'', JStr ''complete''),
              (''character_count'', JInt 0), (''max_characters'', JInt 4000), (''text'', JNull), (''fact_ids'', JList []),
              (''source_ref_ids'', JList []), (''items'', JList (map (JObj \<circ> snd) refs))]) sections)) updated))
      | _ \<Rightarrow> Inr updated)"

section \<open>The service\<close>

record 'l generation_world = report_world +
  gw_llm :: 'l
  gw_calls :: "llm_request list"
  gw_uuids :: nat
  gw_ticks :: nat

record 'l generation_service =
  gs_contract :: report_contract
  gs_llm :: "llm_request \<Rightarrow> ('l, (string \<times> json) list) act"
  gs_clock :: "nat \<Rightarrow> instant"
  gs_fresh :: "nat \<Rightarrow> uuid"
  gs_timeout :: int
  gs_max_attempts :: int

definition make_generation_service :: "'l generation_service \<Rightarrow> exn + 'l generation_service" where
  "make_generation_service g = (if gs_timeout g \<le> 0 then Inl ValueError else if gs_max_attempts g < 1 then Inl ValueError else Inr g)"

record generation_result =
  gr_report :: "stored_report option"
  gr_attempt :: generation_attempt

definition call_llm :: "'l generation_service \<Rightarrow> llm_request \<Rightarrow> ('l generation_world, (string \<times> json) list) act" where
  "call_llm g q w = (case gs_llm g q (gw_llm w) of (r, l) \<Rightarrow> (r, w\<lparr>gw_llm := l, gw_calls := gw_calls w @ [q]\<rparr>))"

definition generation_clock :: "'l generation_service \<Rightarrow> ('l generation_world, instant) act" where
  "generation_clock g w = (Inr (gs_clock g (gw_ticks w)), w\<lparr>gw_ticks := gw_ticks w + 1\<rparr>)"

definition new_generation_id :: "'l generation_service \<Rightarrow> ('l generation_world, uuid) act" where
  "new_generation_id g w = (Inr (gs_fresh g (gw_uuids w)), w\<lparr>gw_uuids := gw_uuids w + 1\<rparr>)"

definition make_generation_attempt :: "generation_attempt \<Rightarrow> exn + generation_attempt" where
  "make_generation_attempt a =
     (let b = a\<lparr>ga_report := strip (ga_report a), ga_version := strip (ga_version a), ga_snapshot := strip (ga_snapshot a),
          ga_prompt := strip (ga_prompt a), ga_model := strip (ga_model a), ga_fingerprint := strip (ga_fingerprint a),
          ga_sources := map strip (ga_sources a), ga_error := map_option strip (ga_error a)\<rparr> in
      if len_ok 128 (ga_report b) \<and> len_ok 64 (ga_version b) \<and> len_ok 128 (ga_snapshot b) \<and> 1 \<le> ga_no b
         \<and> len_ok 64 (ga_prompt b) \<and> len_ok 128 (ga_model b) \<and> is_hex64 (ga_fingerprint b)
      then Inr b else Inl ValidationError)"

text \<open>\<open>put_generation_attempt\<close> must insert: an attempt of the same report and version ends the call.\<close>

definition start_attempt :: "'l generation_service \<Rightarrow> generation_attempt \<Rightarrow> ('l generation_world, generation_attempt) act" where
  "start_attempt g a = bindA (liftA (make_generation_attempt a)) (\<lambda>a.
     bindA (report_call (gs_contract g) (put_generation_attempt a)) (\<lambda>inserted.
       if inserted then ret a else throw ReportGenerationError))"

definition record_attempt :: "'l generation_service \<Rightarrow> generation_attempt \<Rightarrow> ('l generation_world, unit) act" where
  "record_attempt g a = report_call (gs_contract g) (update_generation_attempt a)"

definition new_attempt :: "input_snapshot \<Rightarrow> string \<Rightarrow> string \<Rightarrow> string \<Rightarrow> (string \<times> json) list \<Rightarrow> uuid \<Rightarrow> generation_attempt" where
  "new_attempt s report_id version model parameters i = \<lparr>ga_id = i, ga_report = report_id, ga_version = version, ga_snapshot = sn_id s,
     ga_lifecycle = Draft, ga_no = 1, ga_prompt = report_prompt_version, ga_model = model, ga_parameters = parameters,
     ga_fingerprint = sn_fingerprint s, ga_sources = [], ga_error = None, ga_response = None\<rparr>"

definition attempt_source_ids :: "input_snapshot \<Rightarrow> string list" where
  "attempt_source_ids s = (case jget (sn_payload s) ''source_ref_ids'' of
     JList l \<Rightarrow> (case all_strs l of Some ids \<Rightarrow> ids | None \<Rightarrow> []) | _ \<Rightarrow> [])"

definition fail_attempt :: "string \<Rightarrow> generation_attempt \<Rightarrow> generation_attempt" where
  "fail_attempt code a = a\<lparr>ga_lifecycle := Gen_failed, ga_error := Some code\<rparr>"

definition settle_attempt :: "'l generation_service \<Rightarrow> stored_report option \<Rightarrow> generation_attempt \<Rightarrow> ('l generation_world, generation_result) act" where
  "settle_attempt g r a = bindA (record_attempt g a) (\<lambda>_. ret \<lparr>gr_report = r, gr_attempt = a\<rparr>)"

text \<open>The model is called, its output completed and checked against the contract.\<close>

definition generated_payload :: "'l generation_service \<Rightarrow> llm_request \<Rightarrow> input_snapshot \<Rightarrow> string
    \<Rightarrow> ('l generation_world, (string \<times> json) list \<times> (string \<times> json) list \<times> instant) act" where
  "generated_payload g q s report_id = bindA (call_llm g q) (\<lambda>structured.
     bindA (generation_clock g) (\<lambda>t.
       bindA (liftA (materialize_report (gs_contract g) structured s report_id t)) (\<lambda>payload.
         case model_validate (gs_contract g) payload of
           Inl text \<Rightarrow> throw ValidationError
         | Inr _ \<Rightarrow> ret (structured, payload, t))))"

definition llm_error_code :: "exn \<Rightarrow> string option" where
  "llm_error_code e =
     (if e \<in> {LlmTimeoutError, TimeoutError} then Some ''LLM_TIMEOUT''
      else if e \<in> {LlmStructuredOutputError, TypeError} \<or> is_value_error e then Some ''MALFORMED_STRUCTURED_OUTPUT''
      else if e = LlmError then Some ''LLM_UNAVAILABLE'' else None)"

definition payload_text :: "json \<Rightarrow> string" where
  "payload_text v = (case v of JStr t \<Rightarrow> t | _ \<Rightarrow> [])"

definition candidate_report :: "report_contract \<Rightarrow> input_snapshot \<Rightarrow> string \<Rightarrow> string \<Rightarrow> (string \<times> json) list \<Rightarrow> instant \<Rightarrow> uuid \<Rightarrow> exn + stored_report" where
  "candidate_report c s report_id version payload t i = make_stored_report (cx_aware c) \<lparr>sr_id = report_id, sr_date = sn_report_date s,
     sr_version = version, sr_contract = ''1.0'', sr_snapshot = sn_id s, sr_status = payload_text (jget payload ''status''),
     sr_decision = (case jget payload ''publication'' of JObj d \<Rightarrow> payload_text (jget d ''decision'') | _ \<Rightarrow> []),
     sr_generated_at = t, sr_payload = payload, sr_lifecycle = Generated, sr_generation = Some i, sr_errors = []\<rparr>"

definition validate_stored :: "'l generation_service \<Rightarrow> input_snapshot \<Rightarrow> string \<Rightarrow> string \<Rightarrow> stored_report option \<Rightarrow> uuid option
    \<Rightarrow> ('l generation_world, validation_outcome) act" where
  "validate_stored g s report_id version candidate generation = bindA (generation_clock g) (\<lambda>t.
     validate_or_fallback (gs_contract g) (sn_id s) report_id version t candidate generation)"

text \<open>\<open>except ReportValidationError\<close>: the attempt is failed where it is still open, and the error is raised anew.\<close>

definition store_candidate :: "'l generation_service \<Rightarrow> input_snapshot \<Rightarrow> string \<Rightarrow> string \<Rightarrow> generation_attempt
    \<Rightarrow> (string \<times> json) list \<times> (string \<times> json) list \<times> instant \<Rightarrow> ('l generation_world, generation_result) act" where
  "store_candidate g s report_id version a x = (case x of (structured, payload, t) \<Rightarrow>
     tryA (bindA (liftA (candidate_report (gs_contract g) s report_id version payload t (ga_id a))) (\<lambda>r.
             bindA (report_call (gs_contract g) (put_report (cx_aware (gs_contract g)) r)) (\<lambda>inserted. ret (r, inserted))))
       (\<lambda>e. if e = TypeError \<or> is_value_error e then settle_attempt g None (fail_attempt ''REPORT_VALIDATION_FAILED'' a) else throw e)
       (\<lambda>(r, inserted).
          if \<not> inserted then settle_attempt g None (fail_attempt ''REPORT_ALREADY_EXISTS'' a)
          else tryA (validate_stored g s report_id version (Some r) None)
            (\<lambda>e. if e = ReportValidationError
               then bindA (record_attempt g (fail_attempt ''REPORT_VALIDATION_PERSISTENCE_FAILED'' a)) (\<lambda>_. throw ReportGenerationError)
               else throw e)
            (\<lambda>v. settle_attempt g (Some (vo_report v)) (a\<lparr>ga_lifecycle := Generated, ga_response := Some (JObj structured),
               ga_error := (if sr_lifecycle (vo_report v) = Validated then None else Some ''REPORT_VALIDATION_FAILED'')\<rparr>))))"

definition store_fallback :: "'l generation_service \<Rightarrow> input_snapshot \<Rightarrow> string \<Rightarrow> string \<Rightarrow> generation_attempt
    \<Rightarrow> ('l generation_world, generation_result) act" where
  "store_fallback g s report_id version a = bindA (record_attempt g a) (\<lambda>_.
     tryA (validate_stored g s report_id version None (Some (ga_id a)))
       (\<lambda>e. throw (if e = ReportValidationError then ReportGenerationError else e))
       (\<lambda>v. ret \<lparr>gr_report = Some (vo_report v), gr_attempt = a\<rparr>))"

text \<open>\<open>for attempt_no in range(1, max_attempts + 1)\<close>; an attempt that produces no report is followed by the next one or the fallback.\<close>

fun generate_attempts :: "'l generation_service \<Rightarrow> input_snapshot \<Rightarrow> string \<Rightarrow> string \<Rightarrow> llm_request \<Rightarrow> nat \<Rightarrow> int \<Rightarrow> generation_attempt
    \<Rightarrow> ('l generation_world, generation_result) act" where
  "generate_attempts g s report_id version q 0 n a = throw AssertionError"
| "generate_attempts g s report_id version q (Suc k) n a =
     (let a1 = (if 1 < n then a\<lparr>ga_no := n\<rparr> else a) in
      bindA (if 1 < n then record_attempt g a1 else ret ()) (\<lambda>_.
        tryA (generated_payload g q s report_id)
          (\<lambda>e. case llm_error_code e of
              None \<Rightarrow> throw e
            | Some code \<Rightarrow> if k = 0 then store_fallback g s report_id version (fail_attempt code a1)
                else generate_attempts g s report_id version q k (n + 1) a1)
          (store_candidate g s report_id version a1)))"

definition refuse_snapshot :: "'l generation_service \<Rightarrow> input_snapshot \<Rightarrow> string \<Rightarrow> string \<Rightarrow> string \<Rightarrow> (string \<times> json) list \<Rightarrow> gate_status
    \<Rightarrow> ('l generation_world, generation_result) act" where
  "refuse_snapshot g s report_id version model parameters status = bindA (new_generation_id g) (\<lambda>i.
     bindA (start_attempt g ((fail_attempt (if status = QBlocked then ''REPORT_INPUT_QUALITY_BLOCKED'' else ''REPORT_INPUT_QUALITY_RETRYABLE'')
          (new_attempt s report_id version model parameters i))\<lparr>ga_sources := attempt_source_ids s\<rparr>))
       (\<lambda>a. ret \<lparr>gr_report = None, gr_attempt = a\<rparr>))"

definition generate_report :: "'l generation_service \<Rightarrow> string \<Rightarrow> string \<Rightarrow> string \<Rightarrow> string \<Rightarrow> (string \<times> json) list
    \<Rightarrow> ('l generation_world, generation_result) act" where
  "generate_report g snapshot_id report_id version model parameters =
     bindA (report_call (gs_contract g) (load_input_snapshot snapshot_id)) (\<lambda>found. case found of
       None \<Rightarrow> throw ReportGenerationError
     | Some s \<Rightarrow> bindA (liftA (evaluate_quality s)) (\<lambda>quality.
         if qr_status quality \<in> {QBlocked, QRetryable}
         then refuse_snapshot g s report_id version model parameters (qr_status quality)
         else bindA (liftA (build_prompt (gs_contract g) s model parameters)) (\<lambda>q.
           bindA (new_generation_id g) (\<lambda>i.
             bindA (start_attempt g ((new_attempt s report_id version model parameters i)\<lparr>ga_sources := lr_sources q\<rparr>)) (\<lambda>a.
               generate_attempts g s report_id version q (nat (gs_max_attempts g)) 1 a)))))"

section \<open>What reaches the model\<close>

definition same_calls :: "'l generation_world \<Rightarrow> 'l generation_world \<Rightarrow> bool" where
  "same_calls w w' \<longleftrightarrow> gw_calls w' = gw_calls w"

lemma same_calls_rel: "reflp same_calls" "transp same_calls"
  by (auto simp: same_calls_def reflp_def transp_def)

lemma same_calls_steps:
  "keeps same_calls (report_call c m)" "keeps same_calls (generation_clock g)" "keeps same_calls (new_generation_id g)"
  by (auto simp: keeps_def same_calls_def report_call_def generation_clock_def new_generation_id_def split: prod.splits)

lemma keeps_prod: "(\<And>a b. keeps R (f a b)) \<Longrightarrow> keeps R (case z of (a, b) \<Rightarrow> f a b)"
  by (cases z) simp

lemma keeps_sum: "(\<And>e. keeps R (f e)) \<Longrightarrow> (\<And>a. keeps R (g a)) \<Longrightarrow> keeps R (case z of Inl e \<Rightarrow> f e | Inr a \<Rightarrow> g a)"
  by (cases z) simp_all

lemma same_calls_validate: "keeps same_calls (validate_stored g s report_id version candidate i)"
  unfolding validate_stored_def validate_or_fallback_def persist_validation_def
  by (intro keeps_control same_calls_rel same_calls_steps)

lemma same_calls_store:
  "keeps same_calls (settle_attempt g r a)" "keeps same_calls (store_fallback g s report_id version a)"
  "keeps same_calls (start_attempt g a)" "keeps same_calls (refuse_snapshot g s report_id version model parameters st)"
  unfolding settle_attempt_def store_fallback_def start_attempt_def refuse_snapshot_def record_attempt_def
  by (intro keeps_control same_calls_rel same_calls_steps same_calls_validate)+

lemma same_calls_candidate: "keeps same_calls (store_candidate g s report_id version a x)"
proof -
  obtain u v t where x: "x = (u, v, t)" using prod_cases3 by blast
  show ?thesis unfolding x store_candidate_def record_attempt_def prod.case
    by (intro keeps_control keeps_prod same_calls_rel same_calls_steps same_calls_validate same_calls_store)
qed

lemma generated_payload_calls:
  assumes "generated_payload g q s report_id w = (r, w')"
  shows "gw_calls w' = gw_calls w @ [q]"
proof -
  define rest where "rest = (\<lambda>structured. bindA (generation_clock g) (\<lambda>t.
     bindA (liftA (materialize_report (gs_contract g) structured s report_id t)) (\<lambda>payload.
       case model_validate (gs_contract g) payload of
         Inl text \<Rightarrow> throw ValidationError
       | Inr x \<Rightarrow> ret (structured, payload, t))))"
  obtain y w1 where y: "call_llm g q w = (y, w1)" by fastforce
  then have w1: "gw_calls w1 = gw_calls w @ [q]" by (auto simp: call_llm_def split: prod.splits)
  have rest: "keeps same_calls (rest structured)" for structured
    unfolding rest_def by (intro keeps_control keeps_sum same_calls_rel same_calls_steps)
  have "bindA (call_llm g q) rest w = (r, w')" using assms by (simp add: generated_payload_def rest_def)
  then have "same_calls w1 w'" using y keepsD [OF rest] same_calls_rel(1) by (cases y) (auto simp: bindA_def reflp_def)
  then show ?thesis using w1 by (simp add: same_calls_def)
qed

text \<open>At most \<open>n\<close> further calls, all with one request.\<close>

definition calls_upto :: "llm_request \<Rightarrow> nat \<Rightarrow> 'l generation_world \<Rightarrow> 'l generation_world \<Rightarrow> bool" where
  "calls_upto q n w w' \<longleftrightarrow> (\<exists>m \<le> n. gw_calls w' = gw_calls w @ replicate m q)"

lemma calls_upto_steps:
  "same_calls w w' \<Longrightarrow> calls_upto q n w w'"
  "gw_calls w1 = gw_calls w @ [q] \<Longrightarrow> calls_upto q n w1 w' \<Longrightarrow> calls_upto q (Suc n) w w'"
  "same_calls w w1 \<Longrightarrow> calls_upto q n w1 w' \<Longrightarrow> calls_upto q n w w'"
proof -
  show "calls_upto q n w w'" if "same_calls w w'"
    using that unfolding calls_upto_def by (intro exI [of _ 0]) (simp add: same_calls_def)
next
  assume "gw_calls w1 = gw_calls w @ [q]" "calls_upto q n w1 w'"
  then obtain m where "m \<le> n" "gw_calls w' = gw_calls w @ replicate (Suc m) q" by (auto simp: calls_upto_def)
  then show "calls_upto q (Suc n) w w'" unfolding calls_upto_def by (intro exI [of _ "Suc m"]) simp
qed (simp add: calls_upto_def same_calls_def)

lemma calls_upto_refl: "calls_upto q n w w"
  by (rule calls_upto_steps(1)) (simp add: same_calls_def)

lemma calls_upto_keeps: "keeps same_calls m \<Longrightarrow> calls_upto q n w (snd (m w))"
  by (rule calls_upto_steps(1)) (simp add: keeps_def)

lemma generate_attempts_calls: "calls_upto q k w (snd (generate_attempts g s report_id version q k n a w))"
proof (induction k arbitrary: n a w)
  case (Suc k)
  define a1 where "a1 = (if 1 < n then a\<lparr>ga_no := n\<rparr> else a)"
  define body where "body = tryA (generated_payload g q s report_id)
     (\<lambda>e. case llm_error_code e of
         None \<Rightarrow> throw e
       | Some code \<Rightarrow> if k = 0 then store_fallback g s report_id version (fail_attempt code a1)
           else generate_attempts g s report_id version q k (n + 1) a1)
     (store_candidate g s report_id version a1)"
  have "calls_upto q (Suc k) v (snd (body v))" for v
  proof -
    obtain y v1 where y: "generated_payload g q s report_id v = (y, v1)" by fastforce
    note one = calls_upto_steps(2) [OF generated_payload_calls [OF y]]
    have "calls_upto q k v1 (snd (body v))"
      using y Suc.IH
      by (cases y) (auto simp: body_def tryA_def split: option.splits
          intro: calls_upto_refl calls_upto_keeps [OF same_calls_candidate] calls_upto_keeps [OF same_calls_store(2)])
    then show ?thesis by (rule one)
  qed
  moreover have "keeps same_calls (if 1 < n then record_attempt g a1 else ret ())"
    unfolding record_attempt_def by (intro keeps_control same_calls_rel same_calls_steps)
  ultimately show ?case
    unfolding generate_attempts.simps Let_def a1_def [symmetric] body_def [symmetric]
    by (cases "(if 1 < n then record_attempt g a1 else ret ()) w"; cases "fst ((if 1 < n then record_attempt g a1 else ret ()) w)")
      (auto simp: bindA_def dest: keepsD intro: calls_upto_steps)
qed (simp add: calls_upto_def)

section \<open>What the service returns\<close>

definition sound_outcome :: "report_contract \<Rightarrow> string \<Rightarrow> exn + validation_outcome \<Rightarrow> 'w \<Rightarrow> bool" where
  "sound_outcome c i r w \<longleftrightarrow> (case r of Inl e \<Rightarrow> True
     | Inr v \<Rightarrow> sr_id (vo_report v) = i \<and> (sr_lifecycle (vo_report v) = Validated \<longrightarrow> approved_origin c (vo_report v)))"

definition sound_result :: "report_contract \<Rightarrow> string \<Rightarrow> exn + generation_result \<Rightarrow> 'w \<Rightarrow> bool" where
  "sound_result c i r w \<longleftrightarrow> (case r of Inl e \<Rightarrow> True
     | Inr res \<Rightarrow> (case gr_report res of
           None \<Rightarrow> ga_lifecycle (gr_attempt res) = Gen_failed \<and> ga_error (gr_attempt res) \<noteq> None
         | Some f \<Rightarrow> sr_id f = i \<and> (sr_lifecycle f = Validated \<longrightarrow> approved_origin c f)))"

lemma sound_Inl [simp]: "sound_outcome c i (Inl e) w" "sound_result c i (Inl e) w"
  by (simp_all add: sound_outcome_def sound_result_def)

lemma make_stored_report_same: "make_stored_report aware r = Inr r' \<Longrightarrow> r' = r"
  by (auto simp: make_stored_report_def as_validation_def bindE_def split: if_splits sum.splits)

lemma build_fallback_id: "build_fallback c s report_id version t g = Inr r \<Longrightarrow> sr_id r = report_id"
  by (auto simp: build_fallback_def bindE_eq_Inr Let_def dest!: make_stored_report_same)

lemma candidate_report_fields:
  "candidate_report c s report_id version payload t g = Inr r \<Longrightarrow> sr_id r = report_id \<and> sr_lifecycle r = Generated"
  by (auto simp: candidate_report_def dest!: make_stored_report_same)

lemma yields_validate_or_fallback:
  assumes "\<And>ids. set (cx_order c ids) = set ids" "\<And>r. candidate = Some r \<Longrightarrow> sr_id r = report_id"
  shows "yields (sound_outcome c report_id) (validate_or_fallback c snapshot_id report_id version t candidate i)"
proof (unfold yields_def, rule allI)
  fix w
  obtain r w' where run: "validate_or_fallback c snapshot_id report_id version t candidate i w = (r, w')" by fastforce
  have "sr_id (vo_report v) = report_id" if "r = Inr v" for v
    using validate_or_fallback_shape [OF run [unfolded that]] assms(2) finalize_report_Inr(1) build_fallback_id
    by (auto split: option.splits)
  then show "sound_outcome c report_id (fst (validate_or_fallback c snapshot_id report_id version t candidate i w))
      (snd (validate_or_fallback c snapshot_id report_id version t candidate i w))"
    using validate_or_fallback_approved [OF assms(1)] run by (cases r) (auto simp: sound_outcome_def)
qed

lemma yields_validate:
  assumes "\<And>ids. set (cx_order (gs_contract g) ids) = set ids" "\<And>r. candidate = Some r \<Longrightarrow> sr_id r = report_id"
  shows "yields (sound_outcome (gs_contract g) report_id) (validate_stored g s report_id version candidate i)"
  unfolding validate_stored_def by (intro yields_control yields_validate_or_fallback [OF assms]) simp_all

lemma yields_settle:
  "(\<And>w :: 'l generation_world. sound_result c i (Inr \<lparr>gr_report = r, gr_attempt = a\<rparr>) w)
    \<Longrightarrow> yields (sound_result c i) (settle_attempt (g :: 'l generation_service) r a)"
  unfolding settle_attempt_def by (intro yields_control) simp_all

lemma yields_store_fallback:
  assumes "\<And>ids. set (cx_order (gs_contract g) ids) = set ids"
  shows "yields (sound_result (gs_contract g) report_id) (store_fallback g s report_id version a)"
proof -
  have none: "None = Some r \<Longrightarrow> sr_id r = report_id" for r by simp
  show ?thesis unfolding store_fallback_def
  proof (intro yields_control yields_try_post [OF _ yields_validate [OF assms none]])
    fix v and u w :: "'a generation_world"
    assume "sound_outcome (gs_contract g) report_id (Inr v) u"
    then show "sound_result (gs_contract g) report_id (Inr \<lparr>gr_report = Some (vo_report v), gr_attempt = a\<rparr>) w"
      by (simp add: sound_outcome_def sound_result_def)
  qed simp_all
qed

lemma yields_stored_candidate:
  assumes "\<And>ids. set (cx_order (gs_contract g) ids) = set ids" "sr_id r = report_id"
  shows "yields (sound_result (gs_contract g) report_id) (tryA (validate_stored g s report_id version (Some r) None)
      (\<lambda>e. if e = ReportValidationError
         then bindA (record_attempt g (fail_attempt ''REPORT_VALIDATION_PERSISTENCE_FAILED'' a)) (\<lambda>_. throw ReportGenerationError)
         else throw e)
      (\<lambda>v. settle_attempt g (Some (vo_report v)) (a\<lparr>ga_lifecycle := Generated, ga_response := Some (JObj structured),
         ga_error := (if sr_lifecycle (vo_report v) = Validated then None else Some ''REPORT_VALIDATION_FAILED'')\<rparr>)))"
proof (rule yields_try_post [OF _ yields_validate [OF assms(1)]])
  show "sr_id r' = report_id" if "Some r = Some r'" for r' using that assms(2) by simp
qed (auto intro!: yields_control yields_settle simp: sound_outcome_def sound_result_def)

lemma yields_store_candidate:
  assumes "\<And>ids. set (cx_order (gs_contract g) ids) = set ids"
  shows "yields (sound_result (gs_contract g) report_id) (store_candidate g s report_id version a x)"
proof -
  obtain structured payload t where x: "x = (structured, payload, t)" using prod_cases3 by blast
  have failed: "yields (sound_result (gs_contract g) report_id) (settle_attempt g None (fail_attempt code a))" for code report_id
    by (rule yields_settle) (simp add: sound_result_def fail_attempt_def)
  have named: "yields (\<lambda>z w. case z of Inl e \<Rightarrow> True | Inr (r, inserted) \<Rightarrow> sr_id r = report_id)
      (bindA (liftA (candidate_report (gs_contract g) s report_id version payload t (ga_id a))) (\<lambda>r.
         bindA (report_call (gs_contract g) (put_report (cx_aware (gs_contract g)) r)) (\<lambda>inserted. ret (r, inserted))))"
    by (auto simp: yields_def bindA_def dest: candidate_report_fields split: sum.splits prod.splits)
  show ?thesis unfolding x store_candidate_def prod.case
    by (rule yields_try_post [OF _ named]) (auto intro!: yields_control failed yields_stored_candidate [OF assms])
qed

lemma yields_generate_attempts:
  assumes "\<And>ids. set (cx_order (gs_contract g) ids) = set ids"
  shows "yields (sound_result (gs_contract g) report_id) (generate_attempts g s report_id version q k n a)"
proof (induction k arbitrary: n a)
  case (Suc k)
  show ?case unfolding generate_attempts.simps Let_def
    by (intro yields_control yields_try_post [where Q = "\<lambda>_ _. True"] yields_store_candidate [OF assms]
        yields_store_fallback [OF assms] Suc.IH) (simp_all add: yields_def [of "\<lambda>_ _. True"])
qed (simp add: yields_throw)

lemma start_attempt_result:
  "yields (\<lambda>r w. case r of Inl e \<Rightarrow> True | Inr b \<Rightarrow> ga_lifecycle b = ga_lifecycle a \<and> (ga_error b = None \<longleftrightarrow> ga_error a = None))
     (start_attempt g a)"
  by (auto simp: yields_def start_attempt_def bindA_def make_generation_attempt_def Let_def report_call_def split: prod.splits sum.splits)

lemma yields_refuse: "yields (sound_result c i) (refuse_snapshot g s report_id version model parameters st)"
  unfolding refuse_snapshot_def
  by (rule yields_control, simp, rule yields_bind_post [OF _ start_attempt_result]) (auto simp: yields_def sound_result_def fail_attempt_def)

lemma yields_generate_report:
  assumes "\<And>ids. set (cx_order (gs_contract g) ids) = set ids"
  shows "yields (sound_result (gs_contract g) report_id) (generate_report g snapshot_id report_id version model parameters)"
  unfolding generate_report_def
  by (intro yields_control yields_refuse yields_generate_attempts [OF assms]) simp_all

lemma build_prompt_safe:
  "build_prompt c s model parameters = Inr q \<Longrightarrow> prompt_safe (JObj (lr_payload q)) \<and> prompt_safe (JObj (lr_parameters q))
    \<and> lr_fingerprint q = strip (sn_fingerprint s)"
  by (auto simp: build_prompt_def assert_prompt_safe_def make_llm_request_def bindE_eq_Inr Let_def simp del: prompt_safe.simps
      split: json.splits if_splits)

text \<open>Either the model is not called, or the gate is open and all calls carry the prompt of the snapshot.\<close>

lemma generate_report_calls:
  assumes "generate_report g snapshot_id report_id version model parameters w = (r, w')"
  shows "same_calls w w' \<or> (\<exists>s quality q. fst (load_input_snapshot snapshot_id (cx_env (gs_contract g) (gw_steps w) (gw_db w))) = Inr (Some s)
      \<and> evaluate_quality s = Inr quality \<and> qr_status quality \<in> {QPassed, QDegraded} \<and> build_prompt (gs_contract g) s model parameters = Inr q
      \<and> calls_upto q (nat (gs_max_attempts g)) w w')"
proof -
  obtain x w1 where x: "report_call (gs_contract g) (load_input_snapshot snapshot_id) w = (x, w1)" by fastforce
  then have load: "fst (load_input_snapshot snapshot_id (cx_env (gs_contract g) (gw_steps w) (gw_db w))) = x"
    by (auto simp: report_call_def transaction_def split: prod.splits sum.splits)
  have w1: "same_calls w w1" using keepsD [OF same_calls_steps(1) x] .
  consider (stop) "w' = w1" | (refused) s quality where "x = Inr (Some s)" "evaluate_quality s = Inr quality"
      "refuse_snapshot g s report_id version model parameters (qr_status quality) w1 = (r, w')"
    | (prompted) s quality q where "x = Inr (Some s)" "evaluate_quality s = Inr quality" "qr_status quality \<notin> {QBlocked, QRetryable}"
      "build_prompt (gs_contract g) s model parameters = Inr q"
      "bindA (new_generation_id g) (\<lambda>i.
         bindA (start_attempt g ((new_attempt s report_id version model parameters i)\<lparr>ga_sources := lr_sources q\<rparr>)) (\<lambda>a.
           generate_attempts g s report_id version q (nat (gs_max_attempts g)) 1 a)) w1 = (r, w')"
    using assms x by (auto simp: generate_report_def bindA_def split: sum.splits option.splits if_splits)
  then show ?thesis
  proof cases
    case stop
    then show ?thesis using w1 by simp
  next
    case refused
    then show ?thesis using w1 keepsD [OF same_calls_store(4) refused(3)] by (simp add: same_calls_def)
  next
    case (prompted s quality q)
    obtain i w2 where i: "new_generation_id g w1 = (Inr i, w2)" by (simp add: new_generation_id_def)
    obtain y w3 where y: "start_attempt g ((new_attempt s report_id version model parameters i)\<lparr>ga_sources := lr_sources q\<rparr>) w2 = (y, w3)"
      by fastforce
    have w3: "same_calls w w3" using w1 keepsD [OF same_calls_steps(3) i] keepsD [OF same_calls_store(3) y] by (simp add: same_calls_def)
    have "calls_upto q (nat (gs_max_attempts g)) w3 w'"
    proof (cases y)
      case (Inl e)
      then show ?thesis using prompted(5) i y calls_upto_refl by (simp add: bindA_def)
    next
      case (Inr a)
      then have "generate_attempts g s report_id version q (nat (gs_max_attempts g)) 1 a w3 = (r, w')"
        using prompted(5) i y by (simp add: bindA_def)
      then show ?thesis using generate_attempts_calls by (metis snd_conv)
    qed
    moreover have "qr_status quality \<in> {QPassed, QDegraded}" using prompted(3) by (cases "qr_status quality") auto
    ultimately show ?thesis using prompted(1,2,4) load w3 calls_upto_steps(3) by blast
  qed
qed

text \<open>C30: The generation service calls the model only for a snapshot whose quality gate is open, at most the configured number of times
  and always with the same prompt, in which no restricted field has a value; and whatever the model answers, a report that the service
  returns has the requested id and, as validated, states only approved facts of a snapshot, while a call that returns no report has recorded why.\<close>

theorem generation_sends_safe_prompts_and_returns_approved_reports:
  assumes "\<And>ids. set (cx_order (gs_contract g) ids) = set ids"
    and run: "generate_report g snapshot_id report_id version model parameters w = (r, w')"
  shows "(\<exists>q n. gw_calls w' = gw_calls w @ replicate n q \<and> n \<le> nat (gs_max_attempts g)
      \<and> (n = 0 \<or> prompt_safe (JObj (lr_payload q)) \<and> prompt_safe (JObj (lr_parameters q))
           \<and> (\<exists>s quality. fst (load_input_snapshot snapshot_id (cx_env (gs_contract g) (gw_steps w) (gw_db w))) = Inr (Some s)
                \<and> lr_fingerprint q = strip (sn_fingerprint s)
                \<and> evaluate_quality s = Inr quality \<and> qr_status quality \<in> {QPassed, QDegraded})))
    \<and> (\<forall>res. r = Inr res \<longrightarrow> (case gr_report res of
           None \<Rightarrow> ga_lifecycle (gr_attempt res) = Gen_failed \<and> ga_error (gr_attempt res) \<noteq> None
         | Some f \<Rightarrow> sr_id f = report_id \<and> (sr_lifecycle f = Validated \<longrightarrow> approved_origin (gs_contract g) f)))"
proof
  show "\<forall>res. r = Inr res \<longrightarrow> (case gr_report res of
       None \<Rightarrow> ga_lifecycle (gr_attempt res) = Gen_failed \<and> ga_error (gr_attempt res) \<noteq> None
     | Some f \<Rightarrow> sr_id f = report_id \<and> (sr_lifecycle f = Validated \<longrightarrow> approved_origin (gs_contract g) f))"
    using yieldsD [OF yields_generate_report [OF assms(1)] run] by (auto simp: sound_result_def)
qed (use generate_report_calls [OF run] build_prompt_safe in
  \<open>auto simp: same_calls_def calls_upto_def simp del: prompt_safe.simps intro: exI [of _ 0]; blast\<close>)

text \<open>A model whose first call runs out of time and whose second answers with an empty object.\<close>

definition prompt_snapshot :: input_snapshot where
  "prompt_snapshot = (let s = \<lparr>sn_id = ''s1'', sn_version = ''1.0'', sn_report_date = tuesday, sn_as_of = 0, sn_cutoff_at = 0,
       sn_fingerprint = replicate 64 CHR ''a'', sn_fact_ids = [''a''], sn_payload = []\<rparr> in
     s\<lparr>sn_payload := snapshot_identity s
     @ [(''input_quality'', good_quality required_input_ids),
        (''facts'', JList [JObj [(''fact_id'', JStr ''a''), (''value'', JStr ''7.50''), (''unit'', JStr ''pct''),
           (''source_ref_ids'', JList [JStr ''p1''])]]),
        (''source_references'', JList [JObj (dset ''checksum_sha256'' (JStr (replicate 64 CHR ''b'')) demo_reference)]),
        (''source_ref_ids'', JList [JStr ''p1'']), (''editor_context'', JObj [(''market'', JObj [(''token'', JNull)])])]\<rparr>)"

definition demo_generation :: "nat generation_service" where
  "demo_generation = \<lparr>gs_contract = demo_contract\<lparr>cx_report := (\<lambda>_. Inr (demo_typed\<lparr>dr_snapshot := (dr_snapshot demo_typed)
       \<lparr>sp_fingerprint := replicate 64 CHR ''a''\<rparr>,
       dr_sections := map (\<lambda>(k, x). (k, x\<lparr>sx_items := map (dset ''checksum_sha256'' (JStr (replicate 64 CHR ''b''))) (sx_items x)\<rparr>))
         (dr_sections demo_typed)\<rparr>))\<rparr>,
     gs_llm = (\<lambda>q n. (if n = 0 then Inl LlmTimeoutError else Inr [], n + 1)), gs_clock = int, gs_fresh = (\<lambda>n. ''g1''),
     gs_timeout = 30, gs_max_attempts = 3\<rparr>"

definition demo_generation_world :: "nat generation_world" where
  "demo_generation_world = \<lparr>gw_db = \<lparr>db_snapshots = [prompt_snapshot], db_generations = [], db_reports = [], db_source_refs = [],
     db_deliveries = []\<rparr>, gw_steps = 0, gw_llm = 0, gw_calls = [], gw_uuids = 0, gw_ticks = 0\<rparr>"

lemma demo_generate:
  "case generate_report demo_generation ''s1'' ''r1'' ''v1'' ''m'' [] demo_generation_world of
     (Inr res, w') \<Rightarrow> length (gw_calls w') = 2 \<and> map_option sr_lifecycle (gr_report res) = Some Validated
   | _ \<Rightarrow> False"
  by code_simp

theorem generation_sends_safe_prompts_and_returns_approved_reports_witness:
  "\<exists>q f w'. generate_report demo_generation ''s1'' ''r1'' ''v1'' ''m'' [] demo_generation_world = (Inr f, w')
     \<and> gw_calls w' = [q, q] \<and> prompt_safe (JObj (lr_payload q)) \<and> approved_origin (gs_contract demo_generation) (the (gr_report f))"
proof -
  obtain res w' f where run: "generate_report demo_generation ''s1'' ''r1'' ''v1'' ''m'' [] demo_generation_world = (Inr res, w')"
    and calls: "length (gw_calls w') = 2" and f: "gr_report res = Some f" "sr_lifecycle f = Validated"
    using demo_generate by (auto split: prod.splits sum.splits)
  have "set (cx_order (gs_contract demo_generation) ids) = set ids" for ids by (simp add: demo_generation_def demo_contract_def)
  note main = generation_sends_safe_prompts_and_returns_approved_reports [OF this run]
  obtain q n where "gw_calls w' = replicate n q" "n = 0 \<or> prompt_safe (JObj (lr_payload q))"
    using main by (auto simp: demo_generation_world_def simp del: prompt_safe.simps)
  moreover from this(1) calls have "n = 2" by simp
  moreover have "approved_origin (gs_contract demo_generation) f" using main f by auto
  ultimately show ?thesis using run f by (intro exI [of _ q] exI [of _ res] exI [of _ w']) (simp add: numeral_2_eq_2)
qed

end
