(* ===== verification/Daily_Workflow.thy ===== *)
theory Daily_Workflow
  imports Scheduled_Worker Workflow_Alerts Report_Generation
begin

text \<open>
  \<open>DailyReportWorkflow\<close> of \<open>services/daily_workflow.py\<close>: what follows the collection of one report date.
  A report is generated once per date and version, published at the publication time, and every other
  outcome ends in an alert. Store, generation, delivery and alerts are its ports (Protocols of the
  source); they are actions on a world that the theory of the pipeline makes concrete.
\<close>

section \<open>Names and texts\<close>

text \<open>\<open>daily_workflow\<close> is the object with its ports; \<open>fw_uuid5\<close> is \<open>uuid5(NAMESPACE_URL, name)\<close>.\<close>

record 'w daily_workflow =
  fw_load_report :: "string \<Rightarrow> ('w, stored_report option) act"
  fw_load_generation :: "uuid \<Rightarrow> ('w, generation_attempt option) act"
  fw_generate :: "string \<Rightarrow> string \<Rightarrow> string \<Rightarrow> string \<Rightarrow> (string \<times> json) list \<Rightarrow> ('w, generation_result) act"
  fw_deliver :: "string \<Rightarrow> ('w, delivery_result) act"
  fw_alert :: "workflow_alert \<Rightarrow> ('w, alert_result) act"
  fw_now :: "('w, instant) act"
  fw_sleep :: "int \<Rightarrow> ('w, unit) act"
  fw_model :: string
  fw_version :: string
  fw_parameters :: "(string \<times> json) list"
  fw_zone :: zone
  fw_hour :: int
  fw_minute :: int
  fw_uuid5 :: "string \<Rightarrow> uuid"

text \<open>\<open>_REPORT_VERSION_PATTERN\<close>: a letter or digit, then at most 31 letters, digits, dots, underscores or hyphens.\<close>

definition word_char :: "char \<Rightarrow> bool" where
  "word_char c \<longleftrightarrow> is_digit c \<or> is_upper c \<or> is_lower c"

definition report_version_ok :: "string \<Rightarrow> bool" where
  "report_version_ok v \<longleftrightarrow> (case v of [] \<Rightarrow> False
     | c # cs \<Rightarrow> word_char c \<and> length cs \<le> 31 \<and> list_all (\<lambda>x. word_char x \<or> x \<in> set ''._-'') cs)"

definition make_daily_workflow :: "'w daily_workflow \<Rightarrow> exn + 'w daily_workflow" where
  "make_daily_workflow c =
     (if \<not> (0 \<le> fw_hour c \<and> fw_hour c \<le> 23 \<and> 0 \<le> fw_minute c \<and> fw_minute c \<le> 59) then Inl ValueError
      else if strip (fw_model c) = [] then Inl ValueError
      else if \<not> report_version_ok (fw_version c) then Inl ValueError
      else Inr c)"

definition workflow_run_id :: "'w daily_workflow \<Rightarrow> date \<Rightarrow> uuid" where
  "workflow_run_id c d = fw_uuid5 c (''macro-data-platform:daily-workflow:'' @ fw_version c @ '':'' @ isodate d)"

definition daily_report_id :: "date \<Rightarrow> string \<Rightarrow> string" where
  "daily_report_id d version = ''daily-report-'' @ isodate d @ ''-'' @ version"

definition safe_retry :: "date \<Rightarrow> string \<Rightarrow> workflow_stage \<Rightarrow> string" where
  "safe_retry d version stage = (let run = ''python -m macro_platform.jobs.scheduler --report-date '' @ isodate d in
     if stage \<in> {Stage_generation, Stage_validation, Stage_delivery}
     then txt_retry_new_head @ run @ '' --report-version '' @ version @ ''-retry1'' @ txt_retry_new_tail
     else txt_retry_same_head @ run @ txt_retry_same_tail)"

definition provider_run_ids :: "worker_result \<Rightarrow> uuid list" where
  "provider_run_ids r = dedup (concat (map evidence_run_ids (wr_tasks r)))"

definition worker_error_code :: "worker_result \<Rightarrow> string" where
  "worker_error_code r = (case sorted_set (List.map_filter tr_error (wr_tasks r)) of [] \<Rightarrow> ''WORKFLOW_BLOCKED'' | code # _ \<Rightarrow> code)"

text \<open>A character outside the pattern becomes an underscore, one for all bytes of a character; at most 64 characters remain.\<close>

definition stable_char :: "string \<Rightarrow> char" where
  "stable_char ch = (case ch of [c] \<Rightarrow> if word_char c \<or> c \<in> set ''_.-'' then c else CHR ''_'' | _ \<Rightarrow> CHR ''_'')"

definition stable_error_code :: "string \<Rightarrow> string" where
  "stable_error_code v = (let normalized = map stable_char (utf8_chars (strip v)) in
     take 64 (if normalized = [] then ''WORKFLOW_ERROR'' else normalized))"

fun stage_summary :: "workflow_stage \<Rightarrow> string" where
  "stage_summary Stage_ingestion = txt_sum_ingestion"
| "stage_summary Stage_quality_gate = txt_sum_quality_gate"
| "stage_summary Stage_generation = txt_sum_generation"
| "stage_summary Stage_validation = txt_sum_validation"
| "stage_summary Stage_delivery = txt_sum_delivery"
| "stage_summary Stage_scheduler = txt_sum_scheduler"

definition alert_summary :: "workflow_stage \<Rightarrow> string \<Rightarrow> string" where
  "alert_summary stage code = stage_summary stage @ txt_paren_open @ code @ txt_paren_close"

text \<open>\<open>a or b\<close> on an optional text.\<close>

definition text_else :: "string option \<Rightarrow> string \<Rightarrow> string" where
  "text_else x y = (case x of None \<Rightarrow> y | Some t \<Rightarrow> if t = [] then y else t)"

section \<open>The end in an alert\<close>

definition with_run :: "'w daily_workflow \<Rightarrow> worker_result \<Rightarrow> uuid" where
  "with_run c r = (case wr_workflow r of None \<Rightarrow> workflow_run_id c (wr_date r) | Some i \<Rightarrow> i)"

definition terminal_alert :: "'w daily_workflow \<Rightarrow> worker_result \<Rightarrow> workflow_stage \<Rightarrow> string \<Rightarrow> workflow_alert" where
  "terminal_alert c r stage code = \<lparr>wa_run = with_run c r, wa_date = wr_date r, wa_stage = stage, wa_code = code,
     wa_summary = alert_summary stage code, wa_retry = safe_retry (wr_date r) (fw_version c) stage, wa_providers = provider_run_ids r\<rparr>"

definition alert_terminal :: "'w daily_workflow \<Rightarrow> worker_result \<Rightarrow> workflow_stage \<Rightarrow> string \<Rightarrow> ('w, worker_result) act" where
  "alert_terminal c r stage error_code = (let code = stable_error_code error_code;
       blocked = (\<lambda>st. r\<lparr>wr_status := Wk_blocked, wr_workflow := Some (with_run c r), wr_alert := Some st,
          wr_stage := Some (stage_text stage), wr_error := Some code\<rparr>) in
     tryA (fw_alert c (terminal_alert c r stage code)) (\<lambda>_. ret (blocked ''failed'')) (\<lambda>d. ret (blocked (alert_result_status d))))"

definition input_stage :: "worker_result \<Rightarrow> workflow_stage" where
  "input_stage r = (if wr_snapshot r \<noteq> None then Stage_quality_gate else Stage_ingestion)"

text \<open>\<open>notify_retry_exhausted\<close> and \<open>notify_unhandled_failure\<close>.\<close>

definition retry_exhausted :: "'w daily_workflow \<Rightarrow> worker_result \<Rightarrow> ('w, worker_result) act" where
  "retry_exhausted c r = alert_terminal c (r\<lparr>wr_status := Wk_blocked, wr_workflow := Some (with_run c r)\<rparr>) (input_stage r) ''WORKFLOW_RETRY_EXHAUSTED''"

definition unhandled_failure :: "'w daily_workflow \<Rightarrow> worker_result \<Rightarrow> string \<Rightarrow> ('w, worker_result) act" where
  "unhandled_failure c r code = alert_terminal c (r\<lparr>wr_status := Wk_blocked, wr_workflow := Some (with_run c r)\<rparr>) Stage_scheduler code"

section \<open>One report\<close>

text \<open>The report of the date and version: the stored one, or a new one; with the error code of its generation.\<close>

definition obtain_report :: "'w daily_workflow \<Rightarrow> string \<Rightarrow> string \<Rightarrow> ('w, stored_report option \<times> string option) act" where
  "obtain_report c snapshot_id report_id = bindA (fw_load_report c report_id) (\<lambda>found. case found of
       None \<Rightarrow> bindA (fw_generate c snapshot_id report_id (fw_version c) (fw_model c) (fw_parameters c)) (\<lambda>res.
         ret (gr_report res, ga_error (gr_attempt res)))
     | Some r \<Rightarrow> (case sr_generation r of
           None \<Rightarrow> ret (Some r, None)
         | Some g \<Rightarrow> bindA (fw_load_generation c g) (\<lambda>a. ret (Some r, case a of None \<Rightarrow> None | Some a \<Rightarrow> ga_error a))))"

definition publish_at :: "'w daily_workflow \<Rightarrow> date \<Rightarrow> instant" where
  "publish_at c d = of_wall (fw_zone c) (combine d (time_of_day (fw_hour c) (fw_minute c)))"

definition wait_until_publish :: "'w daily_workflow \<Rightarrow> date \<Rightarrow> ('w, unit) act" where
  "wait_until_publish c d = bindA (fw_now c) (\<lambda>now. if now < publish_at c d then fw_sleep c (publish_at c d - now) else ret ())"

definition delivery_error_code :: "delivery_result \<Rightarrow> string" where
  "delivery_error_code d = (case rd_attempt d of
     Some a \<Rightarrow> (case da_error a of Some code \<Rightarrow> code | None \<Rightarrow> ''REPORT_DELIVERY_'' @ upper (delivery_result_status d))
   | None \<Rightarrow> ''REPORT_DELIVERY_'' @ upper (delivery_result_status d))"

definition deliver_report :: "'w daily_workflow \<Rightarrow> worker_result \<Rightarrow> stored_report \<Rightarrow> string option \<Rightarrow> ('w, worker_result) act" where
  "deliver_report c r report generation_error = (let current = r\<lparr>wr_report := Some (sr_id report)\<rparr> in
     bindA (wait_until_publish c (wr_date r)) (\<lambda>_.
       tryA (fw_deliver c (sr_id report))
         (\<lambda>e. alert_terminal c (current\<lparr>wr_status := Wk_blocked\<rparr>) Stage_delivery (exn_name e))
         (\<lambda>d. if delivery_result_status d \<noteq> ''succeeded''
            then alert_terminal c (current\<lparr>wr_status := Wk_blocked, wr_delivery := Some (delivery_result_status d)\<rparr>)
                   Stage_delivery (delivery_error_code d)
            else ret (current\<lparr>wr_status := (if wr_status r = Wk_degraded \<or> generation_error \<noteq> None then Wk_degraded else Wk_succeeded),
                   wr_delivery := Some (delivery_result_status d), wr_stage := Some ''completed'', wr_error := generation_error\<rparr>))))"

definition judge_report :: "'w daily_workflow \<Rightarrow> worker_result \<Rightarrow> string \<Rightarrow> stored_report option \<times> string option \<Rightarrow> ('w, worker_result) act" where
  "judge_report c r report_id x = (case x of
     (None, code) \<Rightarrow> alert_terminal c (r\<lparr>wr_status := Wk_blocked, wr_report := Some report_id\<rparr>)
        (if code \<in> {Some ''REPORT_INPUT_QUALITY_BLOCKED'', Some ''REPORT_INPUT_QUALITY_RETRYABLE''} then Stage_quality_gate else Stage_generation)
        (text_else code ''REPORT_GENERATION_FAILED'')
   | (Some report, code) \<Rightarrow>
       if \<not> deliverable report
       then alert_terminal c (r\<lparr>wr_status := Wk_blocked, wr_report := Some (sr_id report)\<rparr>) Stage_validation
              (case sr_errors report of i # _ \<Rightarrow> vi_code i | [] \<Rightarrow> text_else code ''REPORT_NOT_PUBLISHABLE'')
       else deliver_report c r report code)"

definition complete :: "'w daily_workflow \<Rightarrow> worker_result \<Rightarrow> ('w, worker_result) act" where
  "complete c result = (let current = result\<lparr>wr_workflow := Some (workflow_run_id c (wr_date result))\<rparr>;
       report_id = daily_report_id (wr_date result) (fw_version c) in
     if wr_status current \<in> {Wk_locked, Wk_retryable} then ret current
     else if wr_status current = Wk_blocked
     then alert_terminal c current (input_stage current) (text_else (wr_error current) (worker_error_code current))
     else case wr_snapshot current of
         None \<Rightarrow> alert_terminal c (current\<lparr>wr_status := Wk_blocked\<rparr>) Stage_quality_gate ''REPORT_INPUT_SNAPSHOT_MISSING''
       | Some snapshot_id \<Rightarrow> tryA (obtain_report c snapshot_id report_id)
           (\<lambda>e. alert_terminal c (current\<lparr>wr_status := Wk_blocked, wr_report := Some report_id\<rparr>) Stage_generation (exn_name e))
           (judge_report c current report_id))"

definition daily_report_workflow :: "'w daily_workflow \<Rightarrow> 'w report_workflow" where
  "daily_report_workflow c = \<lparr>rw_complete = complete c, rw_retry_exhausted = retry_exhausted c, rw_unhandled_failure = unhandled_failure c\<rparr>"

section \<open>Every outcome is published or alerted\<close>

lemma stable_error_code_bounds: "stable_error_code v \<noteq> [] \<and> length (stable_error_code v) \<le> 64"
  by (auto simp: stable_error_code_def Let_def)

text \<open>The workflow ended in an alert: the alert port was called last, with the facts of the result.\<close>

definition alerted :: "'w daily_workflow \<Rightarrow> worker_result \<Rightarrow> worker_result \<Rightarrow> 'w \<Rightarrow> bool" where
  "alerted c r r' w' \<longleftrightarrow> wr_status r' = Wk_blocked \<and> wr_date r' = wr_date r \<and> wr_tasks r' = wr_tasks r \<and> wr_snapshot r' = wr_snapshot r
     \<and> wr_workflow r' = Some (with_run c r)
     \<and> (\<exists>stage code v y. wr_stage r' = Some (stage_text stage) \<and> wr_error r' = Some code \<and> code \<noteq> [] \<and> length code \<le> 64
          \<and> fw_alert c (terminal_alert c r' stage code) v = (y, w')
          \<and> wr_alert r' = Some (case y of Inl _ \<Rightarrow> ''failed'' | Inr d \<Rightarrow> alert_result_status d))"

lemma alert_terminal_alerted:
  assumes "alert_terminal c r stage e w = (x, w')"
  shows "\<exists>r'. x = Inr r' \<and> alerted c r r' w'"
proof -
  define code where "code = stable_error_code e"
  define blocked where "blocked = (\<lambda>st. r\<lparr>wr_status := Wk_blocked, wr_workflow := Some (with_run c r), wr_alert := Some st,
      wr_stage := Some (stage_text stage), wr_error := Some code\<rparr>)"
  obtain y v where y: "fw_alert c (terminal_alert c r stage code) w = (y, v)" by fastforce
  define st where "st = (case y of Inl _ \<Rightarrow> ''failed'' | Inr d \<Rightarrow> alert_result_status d)"
  have x: "x = Inr (blocked st)" "w' = v"
    using assms y by (cases y; auto simp: alert_terminal_def Let_def tryA_def code_def blocked_def st_def)+
  have "terminal_alert c (blocked st) stage code = terminal_alert c r stage code"
    by (simp add: terminal_alert_def blocked_def with_run_def provider_run_ids_def)
  then have "fw_alert c (terminal_alert c (blocked st) stage code) w = (y, v)" using y by simp
  moreover have "wr_status (blocked st) = Wk_blocked \<and> wr_date (blocked st) = wr_date r \<and> wr_tasks (blocked st) = wr_tasks r
      \<and> wr_snapshot (blocked st) = wr_snapshot r \<and> wr_workflow (blocked st) = Some (with_run c r)"
    "wr_stage (blocked st) = Some (stage_text stage)" "wr_error (blocked st) = Some code" "wr_alert (blocked st) = Some st"
    by (simp_all add: blocked_def)
  ultimately have "alerted c r (blocked st) v"
    using stable_error_code_bounds [of e] unfolding alerted_def code_def [symmetric] st_def by blast
  then show ?thesis using x by blast
qed

lemma with_run_fields [simp]:
  "with_run c (r\<lparr>wr_status := st\<rparr>) = with_run c r" "with_run c (r\<lparr>wr_report := i\<rparr>) = with_run c r"
  "with_run c (r\<lparr>wr_delivery := d\<rparr>) = with_run c r" "with_run c (r\<lparr>wr_workflow := Some u\<rparr>) = u"
  by (simp_all add: with_run_def split: option.split)

lemma alerted_fields [simp]:
  "alerted c (r\<lparr>wr_status := st\<rparr>) = alerted c r" "alerted c (r\<lparr>wr_report := i\<rparr>) = alerted c r" "alerted c (r\<lparr>wr_delivery := d\<rparr>) = alerted c r"
  by (intro ext; simp add: alerted_def)+

text \<open>The workflow published: a deliverable report, at or after the publication time, and the delivery succeeded.\<close>

definition published_by :: "'w daily_workflow \<Rightarrow> ('w \<Rightarrow> instant) \<Rightarrow> worker_result \<Rightarrow> worker_result \<Rightarrow> 'w \<Rightarrow> bool" where
  "published_by c clk r r' w' \<longleftrightarrow> wr_status r \<le> wr_status r' \<and> wr_status r' \<le> Wk_degraded
     \<and> wr_date r' = wr_date r \<and> wr_tasks r' = wr_tasks r \<and> wr_snapshot r' = wr_snapshot r \<and> wr_workflow r' = wr_workflow r
     \<and> (\<exists>report v d. deliverable report \<and> wr_report r' = Some (sr_id report) \<and> publish_at c (wr_date r) \<le> clk v
          \<and> fw_deliver c (sr_id report) v = (Inr d, w') \<and> delivery_result_status d = ''succeeded'')"

lemma wait_until_publish_waits:
  assumes now: "\<And>w. fw_now c w = (Inr (clk w), w)"
    and sleep: "\<And>t w. 0 < t \<Longrightarrow> \<exists>w'. fw_sleep c t w = (Inr (), w') \<and> clk w + t \<le> clk w'"
  shows "\<exists>w'. wait_until_publish c d w = (Inr (), w') \<and> publish_at c d \<le> clk w'"
proof (cases "clk w < publish_at c d")
  case True
  then show ?thesis using sleep [of "publish_at c d - clk w" w] by (auto simp: wait_until_publish_def bindA_def now)
qed (simp add: wait_until_publish_def bindA_def now)

lemma deliver_report_ends:
  assumes now: "\<And>w. fw_now c w = (Inr (clk w), w)"
    and sleep: "\<And>t w. 0 < t \<Longrightarrow> \<exists>w'. fw_sleep c t w = (Inr (), w') \<and> clk w + t \<le> clk w'"
    and ok: "deliverable report" "wr_status r \<in> {Wk_succeeded, Wk_degraded}"
    and run: "deliver_report c r report code w = (x, w')"
  shows "\<exists>r'. x = Inr r' \<and> (alerted c r r' w' \<or> published_by c clk r r' w')"
proof -
  obtain v where v: "wait_until_publish c (wr_date r) w = (Inr (), v)" "publish_at c (wr_date r) \<le> clk v"
    using wait_until_publish_waits [of c clk, OF now sleep] by blast
  obtain y u where y: "fw_deliver c (sr_id report) v = (y, u)" by fastforce
  show ?thesis
  proof (cases "\<exists>d. y = Inr d \<and> delivery_result_status d = ''succeeded''")
    case True
    then have "x = Inr (r\<lparr>wr_report := Some (sr_id report), wr_status := (if wr_status r = Wk_degraded \<or> code \<noteq> None then Wk_degraded else Wk_succeeded),
        wr_delivery := Some ''succeeded'', wr_stage := Some ''completed'', wr_error := code\<rparr>)" "w' = u"
      using run v(1) y by (auto simp: deliver_report_def Let_def bindA_def tryA_def)
    then show ?thesis using True ok v(2) y by (auto simp: published_by_def less_eq_worker_status_def)
  next
    case False
    then have "\<exists>i st d e. alert_terminal c (r\<lparr>wr_report := i, wr_status := st, wr_delivery := d\<rparr>) Stage_delivery e u = (x, w')"
    proof (cases y)
      case (Inl e)
      then have "alert_terminal c (r\<lparr>wr_report := Some (sr_id report), wr_status := Wk_blocked, wr_delivery := wr_delivery r\<rparr>)
          Stage_delivery (exn_name e) u = (x, w')"
        using run v(1) y by (simp add: deliver_report_def Let_def bindA_def tryA_def)
      then show ?thesis by blast
    next
      case (Inr d)
      then show ?thesis using False run v(1) y by (auto simp: deliver_report_def Let_def bindA_def tryA_def)
    qed
    then show ?thesis using alert_terminal_alerted by fastforce
  qed
qed

lemma judge_report_ends:
  assumes now: "\<And>w. fw_now c w = (Inr (clk w), w)"
    and sleep: "\<And>t w. 0 < t \<Longrightarrow> \<exists>w'. fw_sleep c t w = (Inr (), w') \<and> clk w + t \<le> clk w'"
    and st: "wr_status r \<in> {Wk_succeeded, Wk_degraded}"
    and run: "judge_report c r report_id y w = (x, w')"
  shows "\<exists>r'. x = Inr r' \<and> (alerted c r r' w' \<or> published_by c clk r r' w')"
proof -
  obtain found code where y: "y = (found, code)" by fastforce
  show ?thesis
  proof (cases "\<exists>report. found = Some report \<and> deliverable report")
    case True
    then obtain report where "found = Some report" "deliverable report" by blast
    then show ?thesis using deliver_report_ends [of c clk, OF now sleep _ st] run by (simp add: judge_report_def y)
  next
    case False
    have "\<exists>i st stage e. alert_terminal c (r\<lparr>wr_status := st, wr_report := i\<rparr>) stage e w = (x, w')"
      using run False by (cases found) (auto simp: judge_report_def y)
    then show ?thesis using alert_terminal_alerted by fastforce
  qed
qed

lemma complete_ends:
  fixes r
  assumes now: "\<And>w. fw_now c w = (Inr (clk w), w)"
    and sleep: "\<And>t w. 0 < t \<Longrightarrow> \<exists>w'. fw_sleep c t w = (Inr (), w') \<and> clk w + t \<le> clk w'"
    and run: "complete c r w = (x, w')"
  defines "current \<equiv> r\<lparr>wr_workflow := Some (workflow_run_id c (wr_date r))\<rparr>"
  shows "\<exists>r'. x = Inr r' \<and> (if wr_status r \<in> {Wk_locked, Wk_retryable} then r' = current \<and> w' = w
    else alerted c current r' w' \<or> wr_status r \<in> {Wk_succeeded, Wk_degraded} \<and> published_by c clk current r' w')"
proof -
  define report_id where "report_id = daily_report_id (wr_date r) (fw_version c)"
  have st: "wr_status current = wr_status r" by (simp add: current_def)
  consider (passed_on) "wr_status r \<in> {Wk_locked, Wk_retryable}" | (blocked) "wr_status r = Wk_blocked"
    | (missing) "wr_status r \<in> {Wk_succeeded, Wk_degraded}" "wr_snapshot r = None"
    | (report) i where "wr_status r \<in> {Wk_succeeded, Wk_degraded}" "wr_snapshot r = Some i"
    by (cases "wr_status r"; cases "wr_snapshot r") auto
  then show ?thesis
  proof cases
    case passed_on
    then show ?thesis using run by (auto simp: complete_def Let_def current_def)
  next
    case blocked
    then have "alert_terminal c current (input_stage current) (text_else (wr_error current) (worker_error_code current)) w = (x, w')"
      using run by (simp add: complete_def Let_def current_def)
    then show ?thesis using alert_terminal_alerted blocked by fastforce
  next
    case missing
    then have "alert_terminal c (current\<lparr>wr_status := Wk_blocked\<rparr>) Stage_quality_gate ''REPORT_INPUT_SNAPSHOT_MISSING'' w = (x, w')"
      using run by (auto simp: complete_def Let_def current_def)
    then show ?thesis using alert_terminal_alerted missing by fastforce
  next
    case (report i)
    obtain y v where y: "obtain_report c i report_id w = (y, v)" by fastforce
    have rest: "(case y of Inl e \<Rightarrow> alert_terminal c (current\<lparr>wr_status := Wk_blocked, wr_report := Some report_id\<rparr>) Stage_generation (exn_name e)
        | Inr z \<Rightarrow> judge_report c current report_id z) v = (x, w')"
      using run report y by (cases y) (auto simp: complete_def Let_def current_def report_id_def tryA_def)
    show ?thesis
    proof (cases y)
      case (Inl e)
      then have "alert_terminal c (current\<lparr>wr_status := Wk_blocked, wr_report := Some report_id\<rparr>) Stage_generation (exn_name e) v = (x, w')"
        using rest by simp
      then show ?thesis using alert_terminal_alerted report by fastforce
    next
      case (Inr z)
      then have "judge_report c current report_id z v = (x, w')" using rest by simp
      moreover have "wr_status current \<in> {Wk_succeeded, Wk_degraded}" using report(1) st by simp
      ultimately have "\<exists>r'. x = Inr r' \<and> (alerted c current r' w' \<or> published_by c clk current r' w')"
        using judge_report_ends [of c clk, OF now sleep] by blast
      then show ?thesis using report(1) by auto
    qed
  qed
qed

text \<open>C31: Whatever store, generation, delivery and alert channel do, the workflow always returns: a locked or retryable result unchanged,
  and every other result either blocked, after the alert port was called last with the stage and a bounded error code of the result, or
  published: then a validated and published report was delivered successfully, not before the publication time of the date, and the
  status is not better than the one of the collection.\<close>

theorem workflow_publishes_or_alerts:
  fixes r
  assumes "\<And>w. fw_now c w = (Inr (clk w), w)"
    and "\<And>t w. 0 < t \<Longrightarrow> \<exists>w'. fw_sleep c t w = (Inr (), w') \<and> clk w + t \<le> clk w'"
    and "complete c r w = (x, w')"
  defines "current \<equiv> r\<lparr>wr_workflow := Some (workflow_run_id c (wr_date r))\<rparr>"
  shows "\<exists>r'. x = Inr r' \<and> (if wr_status r \<in> {Wk_locked, Wk_retryable} then r' = current \<and> w' = w
    else (wr_status r' = Wk_blocked \<and> alerted c current r' w')
      \<or> (wr_status r' \<in> {Wk_succeeded, Wk_degraded} \<and> wr_status r \<le> wr_status r' \<and> published_by c clk current r' w'))"
proof -
  obtain r' where "x = Inr r'" and r': "if wr_status r \<in> {Wk_locked, Wk_retryable} then r' = current \<and> w' = w
    else alerted c current r' w' \<or> wr_status r \<in> {Wk_succeeded, Wk_degraded} \<and> published_by c clk current r' w'"
    using complete_ends [of c clk, OF assms(1-3)] unfolding current_def by blast
  moreover have "wr_status r' = Wk_blocked" if "alerted c current r' w'" using that by (simp add: alerted_def)
  moreover have "wr_status r' \<in> {Wk_succeeded, Wk_degraded} \<and> wr_status r \<le> wr_status r'" if "published_by c clk current r' w'"
    using that by (cases "wr_status r'") (auto simp: published_by_def less_eq_worker_status_def current_def)
  ultimately show ?thesis by (auto split: if_splits)
qed

text \<open>A workflow on a clock alone: its report is stored, its delivery succeeds.\<close>

definition demo_delivered :: delivery_result where
  "demo_delivered = \<lparr>rd_report = ''r1'', rd_version = ''v1'', rd_target = ''feishu:c'', rd_key = ''k'', rd_card = JNull, rd_dry = False,
     rd_attempt = Some (demo_attempt Succeeded)\<rparr>"

definition demo_workflow :: "instant daily_workflow" where
  "demo_workflow = \<lparr>fw_load_report = (\<lambda>i. ret (Some demo_report)), fw_load_generation = (\<lambda>g. ret None),
     fw_generate = (\<lambda>s i v m p. throw ReportGenerationError), fw_deliver = (\<lambda>i. if i = ''r1'' then ret demo_delivered else throw ReportDeliveryError), fw_alert = (\<lambda>a. throw RuntimeError),
     fw_now = (\<lambda>t. (Inr t, t)), fw_sleep = (\<lambda>d t. (Inr (), t + d)), fw_model = ''m'', fw_version = ''v1'', fw_parameters = [],
     fw_zone = fixed_zone (8 * hour_us), fw_hour = 8, fw_minute = 30, fw_uuid5 = id\<rparr>"

definition demo_collected :: worker_result where
  "demo_collected = (plain_result 1 Wk_succeeded [])\<lparr>wr_snapshot := Some ''s1''\<rparr>"

lemma demo_complete: "\<exists>r' t. complete demo_workflow demo_collected 0 = (Inr r', t) \<and> wr_status r' = Wk_succeeded"
  by (simp add: complete_def demo_collected_def plain_result_def demo_workflow_def Let_def obtain_report_def tryA_def bindA_def
      judge_report_def deliverable_def demo_report_def deliver_report_def wait_until_publish_def demo_delivered_def
      delivery_result_status_def demo_attempt_def)

theorem workflow_publishes_or_alerts_witness:
  "\<exists>r' t v. complete demo_workflow demo_collected 0 = (Inr r', t) \<and> publish_at demo_workflow 1 \<le> v \<and> wr_report r' = Some ''r1''
     \<and> fst (fw_deliver demo_workflow ''r1'' v) = Inr demo_delivered"
proof -
  obtain r' t where run: "complete demo_workflow demo_collected 0 = (Inr r', t)" and st: "wr_status r' = Wk_succeeded"
    using demo_complete by blast
  have now: "fw_now demo_workflow w = (Inr (id w), w)" for w by (simp add: demo_workflow_def)
  have sleep: "\<exists>w'. fw_sleep demo_workflow d w = (Inr (), w') \<and> id w + d \<le> id w'" for d w by (simp add: demo_workflow_def)
  have "wr_status demo_collected = Wk_succeeded" by (simp add: demo_collected_def plain_result_def)
  then have "published_by demo_workflow id (demo_collected\<lparr>wr_workflow := Some (workflow_run_id demo_workflow (wr_date demo_collected))\<rparr>) r' t"
    using workflow_publishes_or_alerts [of demo_workflow id, OF now sleep run] st by (simp add: alerted_def)
  then obtain report v d where "wr_report r' = Some (sr_id report)" "publish_at demo_workflow 1 \<le> v"
    "fw_deliver demo_workflow (sr_id report) v = (Inr d, t)" "deliverable report"
    by (auto simp: published_by_def demo_collected_def plain_result_def)
  moreover from this(3) have "sr_id report = ''r1''" by (auto simp: demo_workflow_def split: if_splits)
  ultimately show ?thesis using run by (auto simp: demo_workflow_def)
qed

end
