(* ===== verification/Provider_Registry.thy ===== *)
theory Provider_Registry
  imports Platform_Settings
begin

text \<open>
  The providers of the process and their roles: \<open>ProviderRegistry\<close> of \<open>providers/registry.py\<close> and the
  factories \<open>create_provider_registry\<close> (\<open>providers/factory.py\<close>) and \<open>create_us_provider_registry\<close>
  (\<open>providers/us/factory.py\<close>), with the constructor checks and the capabilities of every provider they
  build. A provider is a value: its class, its capabilities and, for the bar providers, its instruments.
  The fixture providers read a file; they are the parameter \<open>fixtures\<close>. A registry is a pair of dictionaries
  in insertion order.
\<close>

section \<open>Providers\<close>

datatype provider_class = Cn_synthetic | Hk_synthetic | Us_fixture | Cn_nbs_release | Cn_nbs_news | Cn_baostock
  | Hk_xtquant | Hk_csd | Hk_hkma | Hk_censtatd | Us_twelve_data | Us_official_calendar

record instrument =
  in_id :: string
  in_canonical :: string
  in_symbol :: string
  in_currency :: string

record provider =
  pv_class :: provider_class
  pv_id :: string
  pv_regions :: "region list"
  pv_datasets :: "dataset list"
  pv_page_size :: int
  pv_revisions :: bool
  pv_llm :: bool
  pv_instruments :: "instrument list"

text \<open>No provider of the factories supports point-in-time reads or full texts, so these capabilities are left out.\<close>

definition live_provider :: "provider_class \<Rightarrow> string \<Rightarrow> region \<Rightarrow> dataset list \<Rightarrow> int \<Rightarrow> bool \<Rightarrow> bool \<Rightarrow> instrument list \<Rightarrow> provider" where
  "live_provider c i r ds page revisions llm ins = \<lparr>pv_class = c, pv_id = i, pv_regions = [r], pv_datasets = ds, pv_page_size = page,
     pv_revisions = revisions, pv_llm = llm, pv_instruments = ins\<rparr>"

definition cn_nbs_release :: provider where
  "cn_nbs_release = live_provider Cn_nbs_release ''cn.nbs.release-calendar.v1'' CN [Macro_releases] 1000 False True []"

definition cn_nbs_news :: provider where
  "cn_nbs_news = live_provider Cn_nbs_news ''cn.nbs.data-release-news.v1'' CN [News] 500 False True []"

definition hk_csd :: provider where
  "hk_csd = live_provider Hk_csd ''hk.censtatd.v1'' HK [Macro_series, Macro_observations] 1000 False True []"

definition hk_hkma :: provider where
  "hk_hkma = live_provider Hk_hkma ''hk.hkma.press-releases.v1'' HK [News] 100 False True []"

definition hk_censtatd :: provider where
  "hk_censtatd = live_provider Hk_censtatd ''hk.censtatd.release-calendar.v1'' HK [Macro_releases] 1000 True True []"

definition us_official_calendar :: provider where
  "us_official_calendar = live_provider Us_official_calendar ''us.official.release-calendar.v1'' US [Macro_releases] 1000 True True []"

definition unique_instruments :: "instrument list \<Rightarrow> bool" where
  "unique_instruments ins \<longleftrightarrow> distinct (map in_id ins) \<and> distinct (map in_symbol ins)"

text \<open>The reviewed instruments of BaoStock, XtQuant and Twelve Data; of a XtQuant symbol, whether it is an index, its canonical symbol.\<close>

definition baostock_instruments :: "instrument list" where
  "baostock_instruments = map (\<lambda>(i, c, s). \<lparr>in_id = i, in_canonical = c, in_symbol = s, in_currency = ''CNY''\<rparr>)
     [(''ins_cn_index_sse_composite'', ''XSHG:000001'', ''sh.000001''), (''ins_cn_index_csi300'', ''XSHG:000300'', ''sh.000300''),
      (''ins_cn_index_szse_component'', ''XSHE:399001'', ''sz.399001'')]"

definition xtquant_metadata :: "(string \<times> bool \<times> string) list" where
  "xtquant_metadata = [(''00700.HK'', False, ''XHKG:00700''), (''09988.HK'', False, ''XHKG:09988''), (''03690.HK'', False, ''XHKG:03690''),
     (''01810.HK'', False, ''XHKG:01810''), (''00941.HK'', False, ''XHKG:00941''), (''00005.HK'', False, ''XHKG:00005''),
     (''00388.HK'', False, ''XHKG:00388''), (''01299.HK'', False, ''XHKG:01299''), (''02318.HK'', False, ''XHKG:02318''),
     (''09618.HK'', False, ''XHKG:09618''), (''HSI.HK'', True, ''XHKG:HSI''), (''HSCEI.HK'', True, ''XHKG:HSCEI''),
     (''HSTECH.HK'', True, ''XHKG:HSTECH'')]"

definition without_suffix :: "string \<Rightarrow> string \<Rightarrow> string" where
  "without_suffix suffix s = (if suffix \<noteq> [] \<and> starts_with (rev suffix) (rev s) then take (length s - length suffix) s else s)"

definition xtquant_instruments :: "instrument list" where
  "xtquant_instruments = map (\<lambda>(s, index, c). \<lparr>in_id = ''ins_hk_'' @ (if index then ''index'' else ''equity'') @ ''_'' @ lower (without_suffix ''.HK'' s),
     in_canonical = c, in_symbol = s, in_currency = ''HKD''\<rparr>) xtquant_metadata"

definition xtquant_of_class :: "bool \<Rightarrow> instrument list" where
  "xtquant_of_class index = filter (\<lambda>i. map_option fst (map_of xtquant_metadata (in_symbol i)) = Some index) xtquant_instruments"

definition twelve_data_instruments :: "instrument list" where
  "twelve_data_instruments = map (\<lambda>(i, c, s). \<lparr>in_id = i, in_canonical = c, in_symbol = s, in_currency = ''USD''\<rparr>)
     [(''ins_us_etf_spy'', ''ARCX:SPY'', ''SPY''), (''ins_us_etf_qqq'', ''XNAS:QQQ'', ''QQQ''), (''ins_us_etf_dia'', ''ARCX:DIA'', ''DIA'')]"

text \<open>\<open>hk_xtquant_instruments_from_symbols\<close>.\<close>

fun split_at :: "char \<Rightarrow> string \<Rightarrow> string list" where
  "split_at c [] = [[]]"
| "split_at c (x # xs) = (if x = c then [] # split_at c xs else case split_at c xs of y # ys \<Rightarrow> (x # y) # ys | [] \<Rightarrow> [[x]])"

definition xtquant_instruments_from :: "string \<Rightarrow> exn + instrument list" where
  "xtquant_instruments_from symbols = (let requested = map (\<lambda>s. upper (strip s)) (filter (\<lambda>s. strip s \<noteq> []) (split_at CHR '','' symbols)) in
     if requested = [] then Inl ValueError
     else if \<not> distinct requested then Inl ValueError
     else mapE (\<lambda>s. case find (\<lambda>i. in_symbol i = s) xtquant_instruments of None \<Rightarrow> Inl ValueError | Some i \<Rightarrow> Inr i) requested)"

text \<open>The constructors of the bar providers.\<close>

definition make_baostock :: "int \<Rightarrow> string \<Rightarrow> instrument list \<Rightarrow> exn + provider" where
  "make_baostock timeout secret ins = (if timeout \<le> 0 \<or> secret = [] \<or> ins = [] \<or> \<not> unique_instruments ins then Inl ValueError
     else Inr (live_provider Cn_baostock ''cn.baostock.v1'' CN [Bars] (2500 * int (length ins)) False False ins))"

definition make_xtquant_provider :: "string \<Rightarrow> int \<Rightarrow> int \<Rightarrow> string \<Rightarrow> instrument list \<Rightarrow> exn + provider" where
  "make_xtquant_provider host port timeout secret ins =
     (if timeout \<le> 0 \<or> secret = [] \<or> strip host = [] \<or> 253 < ulen host \<or> port < 1 \<or> 65535 < port \<or> ins = [] \<or> \<not> unique_instruments ins
      then Inl ValueError
      else Inr (live_provider Hk_xtquant ''hk.xtquant.v1'' HK [Bars] 10000 False False ins))"

definition make_twelve_data :: "int \<Rightarrow> string \<Rightarrow> instrument list \<Rightarrow> exn + provider" where
  "make_twelve_data timeout secret ins = (if timeout \<le> 0 \<or> secret = [] \<or> ins = [] \<or> \<not> unique_instruments ins then Inl ValueError
     else Inr (live_provider Us_twelve_data ''us.twelve-data.v1'' US [Bars] 5000 False False ins))"

section \<open>The registry\<close>

record registry =
  rg_providers :: "(string \<times> provider) list"
  rg_roles :: "(string \<times> string) list"

definition empty_registry :: registry where
  "empty_registry = \<lparr>rg_providers = [], rg_roles = []\<rparr>"

definition registry_error :: exn where
  "registry_error = OtherError ''ProviderRegistryError''"

definition register :: "provider \<Rightarrow> registry \<Rightarrow> exn + registry" where
  "register p g = (if map_of (rg_providers g) (pv_id p) \<noteq> None then Inl registry_error
     else Inr (g\<lparr>rg_providers := rg_providers g @ [(pv_id p, p)]\<rparr>))"

text \<open>\<open>d[k] = v\<close>.\<close>

fun set_key :: "'k \<Rightarrow> 'v \<Rightarrow> ('k \<times> 'v) list \<Rightarrow> ('k \<times> 'v) list" where
  "set_key k v [] = [(k, v)]"
| "set_key k v ((k', v') # d) = (if k' = k then (k, v) # d else (k', v') # set_key k v d)"

definition bind_role :: "string \<Rightarrow> string \<Rightarrow> dataset option \<Rightarrow> registry \<Rightarrow> exn + registry" where
  "bind_role role i required g = (case map_of (rg_providers g) i of
     None \<Rightarrow> Inl registry_error
   | Some p \<Rightarrow> (case required of
       Some d \<Rightarrow> if d \<notin> set (pv_datasets p) then Inl registry_error else Inr (g\<lparr>rg_roles := set_key role i (rg_roles g)\<rparr>)
     | None \<Rightarrow> Inr (g\<lparr>rg_roles := set_key role i (rg_roles g)\<rparr>)))"

text \<open>A role bound to an unknown provider would be a \<open>KeyError\<close>.\<close>

definition resolve :: "registry \<Rightarrow> string \<Rightarrow> exn + provider" where
  "resolve g role = (case map_of (rg_roles g) role of
     None \<Rightarrow> Inl registry_error
   | Some i \<Rightarrow> (case map_of (rg_providers g) i of None \<Rightarrow> Inl (OtherError ''KeyError'') | Some p \<Rightarrow> Inr p))"

definition registry_capabilities :: "registry \<Rightarrow> provider list" where
  "registry_capabilities g = map snd (sort_key fst (rg_providers g))"

definition fixture_binding :: "string \<times> string \<Rightarrow> bool" where
  "fixture_binding b \<longleftrightarrow> contains ''fixture'' (lower (fst b)) \<or> contains ''fixture'' (lower (snd b))"

definition assert_production_safe :: "registry \<Rightarrow> exn + unit" where
  "assert_production_safe g = (if \<exists>b \<in> set (rg_roles g). fixture_binding b then Inl registry_error else Inr ())"

primrec close_all :: "(provider \<Rightarrow> ('w, unit) act) \<Rightarrow> (string \<times> provider) list \<Rightarrow> ('w, unit) act" where
  "close_all aclose [] = ret ()"
| "close_all aclose (p # ps) = bindA (aclose (snd p)) (\<lambda>_. close_all aclose ps)"

definition close_registry :: "(provider \<Rightarrow> ('w, unit) act) \<Rightarrow> registry \<Rightarrow> ('w, unit) act" where
  "close_registry aclose g = close_all aclose (rg_providers g)"

section \<open>The factories\<close>

text \<open>A provider with its bindings: role, id, required data set.\<close>

fun bind_roles :: "(string \<times> dataset option) list \<Rightarrow> string \<Rightarrow> registry \<Rightarrow> exn + registry" where
  "bind_roles [] i g = Inr g"
| "bind_roles ((role, required) # rs) i g = bindE (bind_role role i required g) (bind_roles rs i)"

definition register_with :: "provider \<Rightarrow> (string \<times> dataset option) list \<Rightarrow> registry \<Rightarrow> exn + registry" where
  "register_with p roles g = bindE (register p g) (bind_roles roles (pv_id p))"

definition contract_roles :: "string \<Rightarrow> string list \<Rightarrow> (string \<times> dataset option) list" where
  "contract_roles prefix names = map (\<lambda>n. (prefix @ n, None)) names"

definition regional_contracts :: "string list" where
  "regional_contracts = map dataset_value all_datasets"

definition us_contracts :: "string list" where
  "us_contracts = [''us.instruments'', ''us.market'', ''us.rates_fx'', ''us.macro'', ''us.filings'', ''us.news'']"

definition us_registry :: "(provider_class \<Rightarrow> exn + provider) \<Rightarrow> settings \<Rightarrow> registry \<Rightarrow> exn + registry" where
  "us_registry fixtures s g =
     (if se_app_env s = Env_production \<and> se_us_provider_mode s \<noteq> Mode_live then Inl ValueError
      else if se_us_provider_mode s = Mode_fixture
      then bindE (fixtures Us_fixture) (\<lambda>p. bindE (register p g)
        (bind_roles (map (\<lambda>n. (n @ ''.fixture_contract'', None)) us_contracts) ''us.fixture.vertical-slice.v1''))
      else if blank (se_twelve_data_key s) then Inl ValueError
      else case se_twelve_data_secret s of
          None \<Rightarrow> Inl ValueError
        | Some secret \<Rightarrow> if secret = [] then Inl ValueError
            else bindE (make_twelve_data 30 secret twelve_data_instruments) (\<lambda>p.
              bindE (register_with p [(''us.market.primary'', Some Bars)] g)
                (register_with us_official_calendar [(''us.calendar.primary'', Some Macro_releases)])))"

definition contract_registry :: "(provider_class \<Rightarrow> exn + provider) \<Rightarrow> exn + registry" where
  "contract_registry fixtures = bindE (fixtures Cn_synthetic) (\<lambda>cn. bindE (register cn empty_registry) (\<lambda>g.
     bindE (bind_roles (contract_roles ''cn.contract_fixture.'' regional_contracts) ''cn.contract-fixture.v1'' g) (\<lambda>g.
     bindE (fixtures Hk_synthetic) (\<lambda>hk. bindE (register hk g)
       (bind_roles (contract_roles ''hk.contract_fixture.'' regional_contracts) ''hk.contract-fixture.v1'')))))"

definition live_registry :: "settings \<Rightarrow> exn + registry" where
  "live_registry s = bindE (make_baostock (se_provider_timeout s) (se_cursor_secret s) baostock_instruments) (\<lambda>cn_bars.
     bindE (xtquant_instruments_from (se_xtquant_symbols s)) (\<lambda>ins.
     bindE (make_xtquant_provider (se_xtquant_host s) (se_xtquant_port s) (se_provider_timeout s) (se_cursor_secret s) ins) (\<lambda>hk_bars.
     bindE (register cn_nbs_release empty_registry) (\<lambda>g. bindE (register cn_nbs_news g) (\<lambda>g.
     bindE (register_with cn_bars [(''cn.bars.primary'', Some Bars)] g) (\<lambda>g.
     bindE (register_with hk_bars [(''hk.bars.primary'', Some Bars), (''hk.equity-bars.supplemental'', Some Bars)] g) (\<lambda>g.
     bindE (register hk_csd g) (\<lambda>g. bindE (register hk_hkma g) (\<lambda>g. bindE (register hk_censtatd g) (\<lambda>g.
     bindE (bind_role ''cn.macro.primary'' (pv_id cn_nbs_release) None g) (\<lambda>g.
     bindE (bind_role ''cn.news.primary'' (pv_id cn_nbs_news) None g) (\<lambda>g.
     bindE (bind_role ''hk.macro.primary'' (pv_id hk_csd) None g) (\<lambda>g.
     bindE (bind_role ''hk.news.primary'' (pv_id hk_hkma) None g)
       (bind_role ''hk.calendar.primary'' (pv_id hk_censtatd) (Some Macro_releases)))))))))))))))"

definition create_provider_registry :: "(provider_class \<Rightarrow> exn + provider) \<Rightarrow> settings \<Rightarrow> exn + registry" where
  "create_provider_registry fixtures s =
     bindE (if se_provider_mode s = Mode_fixture then contract_registry fixtures else live_registry s) (\<lambda>g.
       if se_app_env s = Env_production then us_registry fixtures s g else Inr g)"

section \<open>Invariant of the registry\<close>

text \<open>Ids and roles are keys, a provider is stored under its id, and every role is bound to a registered provider.\<close>

definition registry_ok :: "registry \<Rightarrow> bool" where
  "registry_ok g \<longleftrightarrow> distinct (map fst (rg_providers g)) \<and> distinct (map fst (rg_roles g))
     \<and> (\<forall>i p. map_of (rg_providers g) i = Some p \<longrightarrow> pv_id p = i)
     \<and> (\<forall>role i. map_of (rg_roles g) role = Some i \<longrightarrow> map_of (rg_providers g) i \<noteq> None)"

lemma empty_registry_ok: "registry_ok empty_registry"
  by (simp add: registry_ok_def empty_registry_def)

lemma map_of_set_key [simp]: "map_of (set_key k v d) = (map_of d)(k \<mapsto> v)"
  by (induction d) auto

lemma set_key_distinct: "distinct (map fst d) \<Longrightarrow> distinct (map fst (set_key k v d))"
proof (induction d)
  case (Cons x d)
  have "fst ` set (set_key k v d) = insert k (fst ` set d)"
    using map_of_set_key [of k v d] by (metis dom_fun_upd dom_map_of_conv_image_fst option.distinct(1))
  then show ?case using Cons by (cases x) auto
qed simp

lemma register_ok:
  assumes "register p g = Inr g'" "registry_ok g"
  shows "registry_ok g'"
proof -
  have new: "map_of (rg_providers g) (pv_id p) = None" and g': "g' = g\<lparr>rg_providers := rg_providers g @ [(pv_id p, p)]\<rparr>"
    using assms(1) by (auto simp: register_def split: if_splits)
  have "map_of (rg_providers g @ [(pv_id p, p)]) = (map_of (rg_providers g))(pv_id p \<mapsto> p)"
    using new by (auto simp: map_add_def split: option.split)
  moreover have "pv_id p \<notin> fst ` set (rg_providers g)" using new by (simp add: map_of_eq_None_iff)
  ultimately show ?thesis using assms(2) new unfolding registry_ok_def g'
    by (auto simp del: map_of_eq_Some_iff map_of_append)
qed

lemma bind_role_ok:
  assumes "bind_role role i required g = Inr g'" "registry_ok g"
  shows "registry_ok g'"
proof -
  have "map_of (rg_providers g) i \<noteq> None" and g': "g' = g\<lparr>rg_roles := set_key role i (rg_roles g)\<rparr>"
    using assms(1) by (auto simp: bind_role_def split: option.splits if_splits)
  then show ?thesis using assms(2) by (auto simp: registry_ok_def g' set_key_distinct)
qed

lemma bind_roles_ok: "bind_roles rs i g = Inr g' \<Longrightarrow> registry_ok g \<Longrightarrow> registry_ok g'"
  by (induction rs arbitrary: g) (auto simp: bindE_eq_Inr, meson bind_role_ok)

lemma register_with_ok: "register_with p rs g = Inr g' \<Longrightarrow> registry_ok g \<Longrightarrow> registry_ok g'"
  by (auto simp: register_with_def bindE_eq_Inr dest: bind_roles_ok register_ok)

lemmas registry_steps_ok = register_ok bind_role_ok bind_roles_ok register_with_ok

lemma us_registry_ok: "us_registry fixtures s g = Inr g' \<Longrightarrow> registry_ok g \<Longrightarrow> registry_ok g'"
  by (auto simp: us_registry_def bindE_eq_Inr split: if_splits option.splits dest!: registry_steps_ok)

lemma contract_registry_ok: "contract_registry fixtures = Inr g \<Longrightarrow> registry_ok g"
  by (clarsimp simp: contract_registry_def bindE_eq_Inr) (meson registry_steps_ok empty_registry_ok)

lemma live_registry_ok: "live_registry s = Inr g \<Longrightarrow> registry_ok g"
  by (clarsimp simp: live_registry_def bindE_eq_Inr) (meson registry_steps_ok empty_registry_ok)

lemma created_registry_ok: "create_provider_registry fixtures s = Inr g \<Longrightarrow> registry_ok g"
  by (auto simp: create_provider_registry_def bindE_eq_Inr split: if_splits dest: us_registry_ok contract_registry_ok live_registry_ok)

text \<open>In a registry that is in order, a bound role has its provider.\<close>

lemma resolve_bound:
  assumes "registry_ok g" "map_of (rg_roles g) role = Some i"
  shows "\<exists>p. resolve g role = Inr p \<and> pv_id p = i"
proof -
  have "map_of (rg_providers g) i \<noteq> None" using assms unfolding registry_ok_def by blast
  then obtain p where p: "map_of (rg_providers g) i = Some p" by blast
  then have "pv_id p = i" using assms(1) unfolding registry_ok_def by blast
  then show ?thesis using p assms(2) by (simp add: resolve_def del: map_of_eq_Some_iff)
qed

section \<open>What a process can resolve\<close>

text \<open>The roles of the live graph and the class and data set behind each.\<close>

definition cn_hk_roles :: "(string \<times> provider_class) list" where
  "cn_hk_roles = [(''cn.bars.primary'', Cn_baostock), (''hk.bars.primary'', Hk_xtquant), (''hk.equity-bars.supplemental'', Hk_xtquant),
     (''cn.macro.primary'', Cn_nbs_release), (''cn.news.primary'', Cn_nbs_news), (''hk.macro.primary'', Hk_csd),
     (''hk.news.primary'', Hk_hkma), (''hk.calendar.primary'', Hk_censtatd)]"

definition us_roles :: "(string \<times> provider_class) list" where
  "us_roles = [(''us.market.primary'', Us_twelve_data), (''us.calendar.primary'', Us_official_calendar)]"

definition serves :: "registry \<Rightarrow> string \<times> provider_class \<Rightarrow> bool" where
  "serves g b \<longleftrightarrow> (case resolve g (fst b) of Inr p \<Rightarrow> pv_class p = snd b | Inl _ \<Rightarrow> False)"

lemma make_baostock_Inr: "make_baostock t secret ins = Inr p \<Longrightarrow> pv_id p = ''cn.baostock.v1'' \<and> pv_datasets p = [Bars] \<and> pv_class p = Cn_baostock"
  by (auto simp: make_baostock_def live_provider_def split: if_splits)

lemma make_xtquant_provider_Inr:
  "make_xtquant_provider host port t secret ins = Inr p \<Longrightarrow> pv_id p = ''hk.xtquant.v1'' \<and> pv_datasets p = [Bars] \<and> pv_class p = Hk_xtquant"
  by (auto simp: make_xtquant_provider_def live_provider_def split: if_splits)

lemma make_twelve_data_Inr:
  "make_twelve_data t secret ins = Inr p \<Longrightarrow> pv_id p = ''us.twelve-data.v1'' \<and> pv_datasets p = [Bars] \<and> pv_class p = Us_twelve_data"
  by (auto simp: make_twelve_data_def live_provider_def split: if_splits)

lemmas live_providers = cn_nbs_release_def cn_nbs_news_def hk_csd_def hk_hkma_def hk_censtatd_def us_official_calendar_def live_provider_def

definition cn_hk_graph :: "provider \<Rightarrow> provider \<Rightarrow> registry" where
  "cn_hk_graph cn hk = \<lparr>rg_providers = map (\<lambda>p. (pv_id p, p)) [cn_nbs_release, cn_nbs_news, cn, hk, hk_csd, hk_hkma, hk_censtatd],
     rg_roles = [(''cn.bars.primary'', pv_id cn), (''hk.bars.primary'', pv_id hk), (''hk.equity-bars.supplemental'', pv_id hk),
       (''cn.macro.primary'', pv_id cn_nbs_release), (''cn.news.primary'', pv_id cn_nbs_news), (''hk.macro.primary'', pv_id hk_csd),
       (''hk.news.primary'', pv_id hk_hkma), (''hk.calendar.primary'', pv_id hk_censtatd)]\<rparr>"

definition us_graph :: "provider \<Rightarrow> registry \<Rightarrow> registry" where
  "us_graph us g = \<lparr>rg_providers = rg_providers g @ map (\<lambda>p. (pv_id p, p)) [us, us_official_calendar],
     rg_roles = rg_roles g @ [(''us.market.primary'', pv_id us), (''us.calendar.primary'', pv_id us_official_calendar)]\<rparr>"

lemma live_registry_graph:
  assumes "live_registry s = Inr g"
  shows "\<exists>cn hk. pv_id cn = ''cn.baostock.v1'' \<and> pv_class cn = Cn_baostock \<and> pv_id hk = ''hk.xtquant.v1'' \<and> pv_class hk = Hk_xtquant
    \<and> xtquant_instruments_from (se_xtquant_symbols s) = Inr (pv_instruments hk) \<and> g = cn_hk_graph cn hk"
proof -
  obtain cn ins hk where p: "make_baostock (se_provider_timeout s) (se_cursor_secret s) baostock_instruments = Inr cn"
    "make_xtquant_provider (se_xtquant_host s) (se_xtquant_port s) (se_provider_timeout s) (se_cursor_secret s) ins = Inr hk"
    "xtquant_instruments_from (se_xtquant_symbols s) = Inr ins"
    using assms by (auto simp: live_registry_def bindE_eq_Inr)
  note cn = make_baostock_Inr [OF p(1)] and hk = make_xtquant_provider_Inr [OF p(2)]
  have "pv_instruments hk = ins" using p(2) by (auto simp: make_xtquant_provider_def live_provider_def split: if_splits)
  moreover have "g = cn_hk_graph cn hk"
    using assms cn hk by (simp add: live_registry_def p register_with_def register_def bind_role_def empty_registry_def live_providers cn_hk_graph_def)
  ultimately show ?thesis using cn hk p(3) by blast
qed

lemma us_registry_graph:
  assumes "us_registry fixtures s (cn_hk_graph cn hk) = Inr g" "se_app_env s = Env_production"
    and "pv_id cn = ''cn.baostock.v1''" "pv_id hk = ''hk.xtquant.v1''"
  shows "\<exists>us. pv_id us = ''us.twelve-data.v1'' \<and> pv_class us = Us_twelve_data \<and> pv_datasets us = [Bars] \<and> g = us_graph us (cn_hk_graph cn hk)"
proof -
  have live: "se_us_provider_mode s = Mode_live" using assms(1,2) by (auto simp: us_registry_def split: if_splits)
  then obtain secret us where us: "se_twelve_data_secret s = Some secret" "secret \<noteq> []" "\<not> blank (se_twelve_data_key s)"
    "make_twelve_data 30 secret twelve_data_instruments = Inr us"
    using assms(1) by (auto simp: us_registry_def bindE_eq_Inr split: if_splits option.splits)
  note u = make_twelve_data_Inr [OF us(4)]
  have "g = us_graph us (cn_hk_graph cn hk)"
    using assms u live us by (simp add: us_registry_def register_with_def register_def bind_role_def live_providers cn_hk_graph_def us_graph_def)
  then show ?thesis using u by blast
qed

lemma no_fixture_names: "list_all (\<lambda>s. \<not> contains ''fixture'' (lower s))
    [''cn.bars.primary'', ''cn.baostock.v1'', ''hk.bars.primary'', ''hk.xtquant.v1'', ''hk.equity-bars.supplemental'',
     ''cn.macro.primary'', ''cn.nbs.release-calendar.v1'', ''cn.news.primary'', ''cn.nbs.data-release-news.v1'', ''hk.macro.primary'',
     ''hk.censtatd.v1'', ''hk.news.primary'', ''hk.hkma.press-releases.v1'', ''hk.calendar.primary'', ''hk.censtatd.release-calendar.v1'',
     ''us.market.primary'', ''us.twelve-data.v1'', ''us.calendar.primary'', ''us.official.release-calendar.v1'']"
  by code_simp

lemma cn_hk_graph_serves:
  assumes "pv_id cn = ''cn.baostock.v1''" "pv_class cn = Cn_baostock" "pv_id hk = ''hk.xtquant.v1''" "pv_class hk = Hk_xtquant"
  shows "list_all (serves (cn_hk_graph cn hk)) cn_hk_roles" "\<not> list_ex (serves (cn_hk_graph cn hk)) us_roles"
    "\<not> (\<exists>b \<in> set (rg_roles (cn_hk_graph cn hk)). fixture_binding b)"
  using assms by (simp_all add: cn_hk_graph_def cn_hk_roles_def us_roles_def serves_def resolve_def live_providers registry_error_def
      fixture_binding_def no_fixture_names [simplified])

lemma us_graph_serves:
  assumes "pv_id cn = ''cn.baostock.v1''" "pv_class cn = Cn_baostock" "pv_id hk = ''hk.xtquant.v1''" "pv_class hk = Hk_xtquant"
    "pv_id us = ''us.twelve-data.v1''" "pv_class us = Us_twelve_data"
  shows "list_all (serves (us_graph us (cn_hk_graph cn hk))) (cn_hk_roles @ us_roles)"
    "\<not> (\<exists>b \<in> set (rg_roles (us_graph us (cn_hk_graph cn hk))). fixture_binding b)"
  using assms by (simp_all add: us_graph_def cn_hk_graph_def cn_hk_roles_def us_roles_def serves_def resolve_def live_providers
      fixture_binding_def no_fixture_names [simplified])

text \<open>The registry of a live process is in order (every bound role has its provider, under its id) and safe for production (no
  fixture is bound), and it serves the mainland and Hong Kong roles with the live provider of each; the American roles are served
  in production, and in any other environment they are not bound at all, so the tasks of the scheduler cannot be built.\<close>

theorem live_registry_serves_roles:
  assumes "make_settings zones s = Inr s" "se_provider_mode s = Mode_live" "create_provider_registry fixtures s = Inr g"
  shows "registry_ok g \<and> assert_production_safe g = Inr () \<and> list_all (serves g) cn_hk_roles
    \<and> (if se_app_env s = Env_production then list_all (serves g) us_roles
       else \<forall>role. role \<in> {''us.market.primary'', ''us.calendar.primary''} \<longrightarrow> resolve g role = Inl registry_error)"
proof -
  obtain g0 where g0: "live_registry s = Inr g0" "(if se_app_env s = Env_production then us_registry fixtures s g0 else Inr g0) = Inr g"
    using assms(2,3) by (auto simp: create_provider_registry_def bindE_eq_Inr)
  obtain cn hk where cn: "pv_id cn = ''cn.baostock.v1''" "pv_class cn = Cn_baostock"
    and hk: "pv_id hk = ''hk.xtquant.v1''" "pv_class hk = Hk_xtquant" and graph: "g0 = cn_hk_graph cn hk"
    using live_registry_graph [OF g0(1)] by blast
  note ok = created_registry_ok [OF assms(3)]
  show ?thesis
  proof (cases "se_app_env s = Env_production")
    case True
    then obtain us where us: "pv_id us = ''us.twelve-data.v1''" "pv_class us = Us_twelve_data" and g: "g = us_graph us g0"
      using us_registry_graph [of fixtures s cn hk g] g0(2) cn(1) hk(1) by (auto simp: graph)
    show ?thesis using us_graph_serves [OF cn hk us] ok True by (simp add: g graph assert_production_safe_def)
  next
    case False
    then have g: "g = cn_hk_graph cn hk" using g0(2) by (simp add: graph)
    have "resolve g role = Inl registry_error" if "role \<in> {''us.market.primary'', ''us.calendar.primary''}" for role
      using that by (auto simp: g cn_hk_graph_def resolve_def)
    then show ?thesis using cn_hk_graph_serves [OF cn hk] ok False by (simp add: g assert_production_safe_def)
  qed
qed

definition demo_settings :: settings where
  "demo_settings = default_settings\<lparr>se_app_env := Env_production, se_provider_mode := Mode_live, se_us_provider_mode := Mode_live,
     se_service_token := ''token'', se_cursor_secret := ''secret'', se_twelve_data_key := Some ''key'', se_twelve_data_secret := Some ''s''\<rparr>"

definition demo_zones :: "string \<Rightarrow> exn + zone" where
  "demo_zones name = Inr (fixed_zone (8 * hour_us))"

lemma demo_settings_accepted: "make_settings demo_zones demo_settings = Inr demo_settings"
proof -
  have "fields_in_range demo_settings" "schedule_time demo_settings < cutoff_time demo_settings"
    "cutoff_time demo_settings < publish_time demo_settings" by code_simp+
  then show ?thesis by (simp add: make_settings_def demo_zones_def demo_settings_def default_settings_def production_ready_def run_mode_ok_def
      feishu_settings_ok_def)
qed

definition demo_registry :: "exn + registry" where
  "demo_registry = create_provider_registry (\<lambda>_. Inl RuntimeError) demo_settings"

lemma demo_registry_made: "case demo_registry of Inl e \<Rightarrow> False | Inr g \<Rightarrow> length (rg_providers g) = 9 \<and> length (rg_roles g) = 10"
  by code_simp

theorem live_registry_serves_roles_witness:
  "\<exists>g. demo_registry = Inr g \<and> assert_production_safe g = Inr () \<and> list_all (serves g) us_roles"
proof -
  obtain g where g: "demo_registry = Inr g" using demo_registry_made by (auto split: sum.splits)
  have "se_provider_mode demo_settings = Mode_live" "se_app_env demo_settings = Env_production" by (simp_all add: demo_settings_def)
  then show ?thesis using live_registry_serves_roles [OF demo_settings_accepted _ g [unfolded demo_registry_def]] g by auto
qed

end
