(* ===== verification/Ingestion_Checkpoint.thy ===== *)
theory Ingestion_Checkpoint
  imports Table_Store Json_Values Report_Day_Policy
begin

text \<open>
  The durable progress of ingestion: \<open>IngestionCheckpointRepository\<close> of
  \<open>storage/repositories.py\<close> and \<open>IngestionCheckpointService\<close> of
  \<open>jobs/ingestion_checkpoint.py\<close>. A page of records is reserved by its fingerprint, written and
  followed by the watermark of its source in one transaction; audits and rejections are written in
  transactions of their own. What a page writes into the fact tables is a parameter. The abstract
  counterpart is a ledger, the list of the pages in the order in which they were committed.
\<close>

section \<open>Rows\<close>

record committed_page =
  cp_role :: string
  cp_dataset :: dataset
  cp_region :: string
  cp_fingerprint :: string
  cp_watermark :: "string option"
  cp_cursor :: "string option"
  cp_records :: "string list"

record page_commit =
  pc_page :: committed_page
  pc_run :: uuid

record job_watermark =
  jm_role :: string
  jm_dataset :: dataset
  jm_region :: string
  jm_watermark :: "string option"
  jm_cursor :: "string option"

record ingest_audit =
  au_run :: uuid
  au_provider :: string
  au_kind :: string
  au_payload :: json

record ingest_rejection =
  rj_run :: uuid
  rj_provider :: string
  rj_error :: string
  rj_payload :: json

record 'f ingest_db =
  ig_pages :: "page_commit list"
  ig_marks :: "job_watermark list"
  ig_audits :: "ingest_audit list"
  ig_rejections :: "ingest_rejection list"
  ig_facts :: 'f

type_synonym source_key = "string \<times> dataset \<times> string"

definition page_source :: "committed_page \<Rightarrow> source_key" where
  "page_source p = (cp_role p, cp_dataset p, cp_region p)"

definition page_key :: "committed_page \<Rightarrow> source_key \<times> string" where
  "page_key p = (page_source p, cp_fingerprint p)"

definition mark_source :: "job_watermark \<Rightarrow> source_key" where
  "mark_source m = (jm_role m, jm_dataset m, jm_region m)"

section \<open>The checkpoint repository\<close>

definition data_error :: exn where
  "data_error = OtherError ''DBAPIError''"

definition add_audit :: "uuid \<Rightarrow> string \<Rightarrow> string \<Rightarrow> json \<Rightarrow> ('f ingest_db, unit) act" where
  "add_audit i provider kind payload d =
     (if column_fits 64 (Some provider) \<and> column_fits 64 (Some kind)
      then (Inr (), d\<lparr>ig_audits := ig_audits d @ [\<lparr>au_run = i, au_provider = provider, au_kind = kind, au_payload = payload\<rparr>]\<rparr>)
      else (Inl data_error, d))"

definition add_rejection :: "uuid \<Rightarrow> string \<Rightarrow> string \<Rightarrow> json \<Rightarrow> ('f ingest_db, unit) act" where
  "add_rejection i provider code payload d =
     (if column_fits 64 (Some provider) \<and> column_fits 64 (Some code)
      then (Inr (), d\<lparr>ig_rejections := ig_rejections d @ [\<lparr>rj_run = i, rj_provider = provider, rj_error = code, rj_payload = payload\<rparr>]\<rparr>)
      else (Inl data_error, d))"

definition page_fits :: "committed_page \<Rightarrow> bool" where
  "page_fits p \<longleftrightarrow> column_fits 64 (Some (cp_role p)) \<and> column_fits 8 (Some (cp_region p)) \<and> column_fits 64 (Some (cp_fingerprint p))"

definition reserve_page :: "uuid \<Rightarrow> committed_page \<Rightarrow> ('f ingest_db, bool) act" where
  "reserve_page i p d =
     (case insert_on_conflict (\<lambda>x y. page_key (pc_page y) = page_key (pc_page x)) (\<lambda>x y. False) \<lparr>pc_page = p, pc_run = i\<rparr> (ig_pages d) of
        (Inl e, _) \<Rightarrow> (Inl e, d)
      | (Inr ok, t) \<Rightarrow> if \<not> page_fits p then (Inl data_error, d) else (Inr ok, d\<lparr>ig_pages := t\<rparr>))"

definition new_mark :: "source_key \<Rightarrow> string option \<Rightarrow> string option \<Rightarrow> job_watermark" where
  "new_mark k watermark cursor = \<lparr>jm_role = fst k, jm_dataset = fst (snd k), jm_region = snd (snd k),
     jm_watermark = watermark, jm_cursor = cursor\<rparr>"

definition save_watermark :: "source_key \<Rightarrow> string option \<Rightarrow> string option \<Rightarrow> ('f ingest_db, unit) act" where
  "save_watermark k watermark cursor d =
     (if select_one (\<lambda>m. mark_source m = k) (ig_marks d) = None
      then (Inr (), d\<lparr>ig_marks := ig_marks d @ [new_mark k watermark cursor]\<rparr>)
      else (Inr (), d\<lparr>ig_marks := snd (update_where (\<lambda>m. mark_source m = k)
             (\<lambda>m. m\<lparr>jm_watermark := watermark, jm_cursor := cursor\<rparr>) (ig_marks d))\<rparr>))"

definition load_watermark :: "source_key \<Rightarrow> ('f ingest_db, string option \<times> string option) act" where
  "load_watermark k d = (Inr (case select_one (\<lambda>m. mark_source m = k) (ig_marks d) of
     None \<Rightarrow> (None, None) | Some m \<Rightarrow> (jm_watermark m, jm_cursor m)), d)"

section \<open>The checkpoint service\<close>

text \<open>The records of a page are written to the fact tables of the same session.\<close>

definition on_facts :: "('f, 'a) act \<Rightarrow> ('f ingest_db, 'a) act" where
  "on_facts m d = (case m (ig_facts d) of (r, f) \<Rightarrow> (r, d\<lparr>ig_facts := f\<rparr>))"

definition commit_page :: "uuid \<Rightarrow> committed_page \<Rightarrow> ('f, unit) act \<Rightarrow> ('f ingest_db, bool) act" where
  "commit_page i p write_records = bindA (reserve_page i p) (\<lambda>reserved.
     if \<not> reserved then ret False
     else bindA (on_facts write_records) (\<lambda>_.
       bindA (save_watermark (page_source p) (cp_watermark p) (cp_cursor p)) (\<lambda>_. ret True)))"

definition recover_committed_watermark :: "source_key \<Rightarrow> ('f ingest_db, string option \<times> string option) act" where
  "recover_committed_watermark = load_watermark"

definition unsupported_capability :: exn where
  "unsupported_capability = ProviderError ''UnsupportedCapabilityError'' ''UNSUPPORTED_CAPABILITY'' False"

definition reject_unsupported_historical_pit :: "uuid \<Rightarrow> string \<Rightarrow> bool \<Rightarrow> bool \<Rightarrow> ('f ingest_db, unit) act" where
  "reject_unsupported_historical_pit i provider supports historical =
     (if \<not> historical \<or> supports then ret ()
      else bindA (transaction (add_audit i provider ''unsupported_historical_pit'' (JObj [(''supports_point_in_time'', JBool False)])))
        (\<lambda>_. throw unsupported_capability))"

definition record_raw_timestamp :: "uuid \<Rightarrow> string \<Rightarrow> string \<Rightarrow> string \<Rightarrow> string \<Rightarrow> ('f ingest_db, unit) act" where
  "record_raw_timestamp i provider raw_value raw_timezone normalized = transaction (add_audit i provider ''raw_timestamp_normalization''
     (JObj [(''raw_value'', JStr raw_value), (''raw_timezone'', JStr raw_timezone), (''normalized_utc'', JStr normalized)]))"

definition record_rejection :: "uuid \<Rightarrow> string \<Rightarrow> string \<Rightarrow> json \<Rightarrow> ('f ingest_db, unit) act" where
  "record_rejection i provider code payload = transaction (add_rejection i provider code payload)"

section \<open>The ledger\<close>

text \<open>
  The abstract state is the list of committed pages. Committing a page that is not in it and whose
  records can be written appends it; anything else leaves the ledger.
\<close>

definition ledger_commit :: "bool \<Rightarrow> committed_page \<Rightarrow> committed_page list \<Rightarrow> committed_page list" where
  "ledger_commit ok p l = (if ok \<and> page_key p \<notin> page_key ` set l then l @ [p] else l)"

definition last_mark :: "source_key \<Rightarrow> committed_page list \<Rightarrow> string option \<times> string option" where
  "last_mark k l = (case filter (\<lambda>p. page_source p = k) (rev l) of [] \<Rightarrow> (None, None) | p # _ \<Rightarrow> (cp_watermark p, cp_cursor p))"

text \<open>The ledger a database stands for, and when its watermarks agree with it.\<close>

definition ledger :: "'f ingest_db \<Rightarrow> committed_page list" where
  "ledger d = map pc_page (ig_pages d)"

definition consistent :: "'f ingest_db \<Rightarrow> bool" where
  "consistent d \<longleftrightarrow> distinct (map page_key (ledger d)) \<and> distinct (map mark_source (ig_marks d))
     \<and> (\<forall>k. fst (load_watermark k d) = Inr (last_mark k (ledger d)))"

interpretation marks: keyed_rows mark_source .

lemma last_mark_snoc: "last_mark k (l @ [p]) = (if page_source p = k then (cp_watermark p, cp_cursor p) else last_mark k l)"
  by (simp add: last_mark_def)

lemma new_mark_simps [simp]: "mark_source (new_mark k wm cu) = k" "jm_watermark (new_mark k wm cu) = wm" "jm_cursor (new_mark k wm cu) = cu"
  by (simp_all add: new_mark_def mark_source_def)

lemma select_mark: "select_one (\<lambda>m. mark_source m = x) t = marks.lookup t x"
  by (simp add: select_one_def marks.lookup_def)

text \<open>Saving a watermark changes what is loaded for its source only.\<close>

lemma save_watermark_load:
  assumes "distinct (map mark_source (ig_marks d))" "save_watermark k wm cu d = (r, d')"
  shows "r = Inr () \<and> ig_pages d' = ig_pages d \<and> ig_facts d' = ig_facts d \<and> distinct (map mark_source (ig_marks d'))
    \<and> fst (load_watermark k' d') = (if k' = k then Inr (wm, cu) else fst (load_watermark k' d))"
proof (cases "marks.lookup (ig_marks d) k")
  case None
  then have "k \<notin> mark_source ` set (ig_marks d)" by (simp add: marks.lookup_None)
  moreover have d': "d' = d\<lparr>ig_marks := ig_marks d @ [new_mark k wm cu]\<rparr>" "r = Inr ()"
    using assms(2) None by (simp_all add: save_watermark_def select_mark)
  ultimately show ?thesis using assms(1) None
    by (auto simp: load_watermark_def select_mark marks.lookup_append split: option.splits)
next
  case (Some m)
  define f where "f = (\<lambda>m. m\<lparr>jm_watermark := wm, jm_cursor := cu\<rparr> :: job_watermark)"
  have f: "mark_source (f m) = mark_source m" for m by (simp add: f_def mark_source_def)
  obtain ok t where u: "update_where (\<lambda>m. mark_source m = k \<and> True) f (ig_marks d) = (ok, t)" by fastforce
  have kd: "marks.keys_distinct (ig_marks d)" using assms(1) by (simp add: marks.keys_distinct_def)
  note upd = marks.update_one [OF f kd u]
  have ok: ok using upd(1) Some by blast
  have d': "d' = d\<lparr>ig_marks := t\<rparr>" "r = Inr ()"
    using assms(2) Some u by (simp_all add: save_watermark_def select_mark f_def)
  have "fst (load_watermark k' d') = (if k' = k then Inr (wm, cu) else fst (load_watermark k' d))"
    using upd(2,3) ok Some by (auto simp: d' load_watermark_def select_mark f_def)
  then show ?thesis using d' upd(4) by (simp add: marks.keys_distinct_def)
qed

text \<open>The outcomes of committing a page.\<close>

lemma commit_page_cases:
  assumes c: "consistent d" and run: "transaction (commit_page i p wr) d = (r, d')"
  obtains (known) "r = Inr False" "d' = d" "page_key p \<in> page_key ` set (ledger d)"
  | (failed) e where "r = Inl e" "d' = d"
  | (committed) "r = Inr True" "page_key p \<notin> page_key ` set (ledger d)" "ledger d' = ledger d @ [p]" "consistent d'"
      "wr (ig_facts d) = (Inr (), ig_facts d')"
proof -
  obtain x u where x: "commit_page i p wr d = (x, u)" by fastforce
  have keys: "(\<exists>y \<in> set (ig_pages d). page_key (pc_page y) = page_key p) \<longleftrightarrow> page_key p \<in> page_key ` set (ledger d)"
    unfolding ledger_def set_map image_image by (metis (mono_tags, lifting) imageE image_eqI)
  show thesis
  proof (cases x)
    case (Inl e)
    then show thesis using run x failed by (auto simp: transaction_def)
  next
    case (Inr b)
    then have d': "r = Inr b" "d' = u" using run x by (simp_all add: transaction_def)
    show thesis
    proof (cases "page_key p \<in> page_key ` set (ledger d)")
      case True
      then have "commit_page i p wr d = (Inr False, d) \<or> (\<exists>e. commit_page i p wr d = (Inl e, d))"
        using keys by (auto simp: commit_page_def reserve_page_def insert_on_conflict_def bindA_def)
      then show thesis using x Inr d' known True by auto
    next
      case False
      define d1 where "d1 = d\<lparr>ig_pages := ig_pages d @ [\<lparr>pc_page = p, pc_run = i\<rparr>]\<rparr>"
      have "page_fits p" using x Inr False keys by (auto simp: commit_page_def reserve_page_def insert_on_conflict_def bindA_def split: if_splits)
      then have res: "reserve_page i p d = (Inr True, d1)" using False keys by (simp add: reserve_page_def insert_on_conflict_def d1_def)
      obtain f where f: "wr (ig_facts d) = (Inr (), f)"
        using x Inr res by (cases "wr (ig_facts d)") (auto simp: commit_page_def bindA_def on_facts_def d1_def split: sum.splits)
      define d2 where "d2 = d1\<lparr>ig_facts := f\<rparr>"
      obtain y d3 where s: "save_watermark (page_source p) (cp_watermark p) (cp_cursor p) d2 = (y, d3)" by fastforce
      have dm: "distinct (map mark_source (ig_marks d2))" using c by (simp add: d2_def d1_def consistent_def)
      note sv = save_watermark_load [OF dm s]
      have u: "u = d3" "b = True" using x Inr res f s sv [of "page_source p"]
        by (simp_all add: commit_page_def bindA_def on_facts_def d1_def d2_def)
      have led: "ledger d3 = ledger d @ [p]" using sv [of "page_source p"] by (simp add: ledger_def d1_def d2_def)
      have "fst (load_watermark k d3) = Inr (last_mark k (ledger d3))" for k
      proof -
        have "fst (load_watermark k d2) = fst (load_watermark k d)" by (simp add: load_watermark_def d2_def d1_def)
        moreover have "fst (load_watermark k d) = Inr (last_mark k (ledger d))" using c unfolding consistent_def by blast
        ultimately show ?thesis using sv [of k] unfolding led last_mark_snoc by presburger
      qed
      then have "consistent d3" using c False led sv [of "page_source p"] by (simp add: consistent_def)
      moreover have "ig_facts d3 = f" using sv [of "page_source p"] by (simp add: d2_def)
      ultimately show thesis using committed False led f u d' by simp
    qed
  qed
qed

text \<open>C22: Committing a page in its transaction implements the ledger: the ledger of the resulting database is the ledger before with
  the page appended when its fingerprint is new and the transaction succeeded, and unchanged otherwise; and the watermark that
  recovery loads for any source stays the one of the last page of that source in the ledger.\<close>

theorem commit_page_refines_ledger:
  assumes "consistent d" "transaction (commit_page i p wr) d = (r, d')"
  shows "ledger d' = ledger_commit (r = Inr True) p (ledger d) \<and> consistent d'
    \<and> recover_committed_watermark k d' = (Inr (last_mark k (ledger d')), d')"
proof (intro conjI)
  show "ledger d' = ledger_commit (r = Inr True) p (ledger d)"
    by (rule commit_page_cases [OF assms]) (auto simp: ledger_commit_def)
  show c: "consistent d'" by (rule commit_page_cases [OF assms]) (use assms(1) in auto)
  show "recover_committed_watermark k d' = (Inr (last_mark k (ledger d')), d')"
  proof -
    have "fst (load_watermark k d') = Inr (last_mark k (ledger d'))" using c unfolding consistent_def by blast
    moreover have "snd (load_watermark k d') = d'" by (simp add: load_watermark_def)
    ultimately show ?thesis unfolding recover_committed_watermark_def by (metis prod.collapse)
  qed
qed

text \<open>A worker that commits pages, each in its transaction, repeating and failing at will.\<close>

fun commit_all :: "(committed_page \<Rightarrow> ('f, unit) act) \<Rightarrow> (uuid \<times> committed_page) list \<Rightarrow> 'f ingest_db \<Rightarrow> 'f ingest_db" where
  "commit_all wr [] d = d"
| "commit_all wr ((i, p) # ps) d = commit_all wr ps (snd (transaction (commit_page i p (wr p)) d))"

text \<open>However often and in whatever order pages are committed, with failures in between, the fact tables hold exactly what the
  newly committed pages wrote, each page once and in the order of the ledger.\<close>

theorem committed_pages_written_once:
  assumes "consistent d" "commit_all wr ps d = d'"
  shows "\<exists>new. ledger d' = ledger d @ new \<and> distinct (map page_key (ledger d'))
    \<and> ig_facts d' = fold (\<lambda>p f. snd (wr p f)) new (ig_facts d)"
  using assms
proof (induction ps arbitrary: d)
  case Nil
  then show ?case by (intro exI [of _ "[]"]) (auto simp: consistent_def)
next
  case (Cons x ps)
  obtain i p where x: "x = (i, p)" by fastforce
  obtain r d1 where t: "transaction (commit_page i p (wr p)) d = (r, d1)" by fastforce
  have rest: "commit_all wr ps d1 = d'" using Cons.prems(2) x t by simp
  show ?case
  proof (rule commit_page_cases [OF Cons.prems(1) t])
    assume a: "ledger d1 = ledger d @ [p]" "consistent d1" "wr p (ig_facts d) = (Inr (), ig_facts d1)"
    obtain new where "ledger d' = ledger d1 @ new" "distinct (map page_key (ledger d'))"
      "ig_facts d' = fold (\<lambda>p f. snd (wr p f)) new (ig_facts d1)" using Cons.IH [OF a(2) rest] by blast
    then show ?thesis using a by (intro exI [of _ "p # new"]) simp
  qed (use Cons.IH [OF _ rest] Cons.prems(1) in auto)
qed

section \<open>Examples\<close>

definition demo_page :: "string \<Rightarrow> committed_page" where
  "demo_page fp = \<lparr>cp_role = ''cn.bars'', cp_dataset = Bars, cp_region = ''CN'', cp_fingerprint = fp, cp_watermark = Some fp,
     cp_cursor = None, cp_records = [fp]\<rparr>"

definition demo_write :: "committed_page \<Rightarrow> (string list, unit) act" where
  "demo_write p f = (if cp_fingerprint p = ''bad'' then (Inl ValueError, f @ [''torn'']) else (Inr (), f @ cp_records p))"

definition empty_ingest :: "string list ingest_db" where
  "empty_ingest = \<lparr>ig_pages = [], ig_marks = [], ig_audits = [], ig_rejections = [], ig_facts = []\<rparr>"

lemma empty_consistent: "consistent empty_ingest"
  by (simp add: consistent_def empty_ingest_def ledger_def load_watermark_def select_one_def last_mark_def)

definition one_page :: "string list ingest_db" where
  "one_page = empty_ingest\<lparr>ig_pages := [\<lparr>pc_page = demo_page ''a'', pc_run = ''r1''\<rparr>],
     ig_marks := [new_mark (''cn.bars'', Bars, ''CN'') (Some ''a'') None], ig_facts := [''a'']\<rparr>"

lemma demo_commit: "transaction (commit_page ''r1'' (demo_page ''a'') (demo_write (demo_page ''a''))) empty_ingest = (Inr True, one_page)"
  by (simp add: transaction_def commit_page_def bindA_def reserve_page_def insert_on_conflict_def empty_ingest_def page_fits_def
      column_fits_def ulen_def demo_page_def on_facts_def demo_write_def save_watermark_def select_one_def one_page_def page_source_def)

theorem commit_page_refines_ledger_witness:
  "ledger one_page = [demo_page ''a''] \<and> recover_committed_watermark (''cn.bars'', Bars, ''CN'') one_page = (Inr (Some ''a'', None), one_page)"
  using commit_page_refines_ledger [OF empty_consistent demo_commit, of "(''cn.bars'', Bars, ''CN'')"]
  by (simp add: ledger_commit_def ledger_def empty_ingest_def last_mark_def page_source_def demo_page_def)

lemma demo_commit_bad: "transaction (commit_page i (demo_page ''bad'') (demo_write (demo_page ''bad''))) empty_ingest = (Inl ValueError, empty_ingest)"
  by (simp add: transaction_def commit_page_def bindA_def reserve_page_def insert_on_conflict_def empty_ingest_def page_fits_def
      column_fits_def ulen_def demo_page_def on_facts_def demo_write_def)

lemma demo_commit_again: "transaction (commit_page i (demo_page ''a'') (demo_write (demo_page ''a''))) one_page = (Inr False, one_page)"
  by (simp add: transaction_def commit_page_def bindA_def reserve_page_def insert_on_conflict_def empty_ingest_def page_fits_def
      column_fits_def ulen_def demo_page_def one_page_def)

theorem committed_pages_written_once_witness:
  "\<exists>new. ledger one_page = new \<and> ig_facts one_page = fold (\<lambda>p f. snd (demo_write p f)) new []"
proof -
  have "commit_all demo_write [(''r1'', demo_page ''bad''), (''r1'', demo_page ''a''), (''r2'', demo_page ''a'')] empty_ingest = one_page"
    by (simp add: demo_commit demo_commit_bad demo_commit_again)
  from committed_pages_written_once [OF empty_consistent this] show ?thesis by (simp add: empty_ingest_def ledger_def)
qed

end
