(* ===== verification/Job_Runner.thy ===== *)
theory Job_Runner
  imports Ingestion_Runs Action_Loops
begin

text \<open>
  \<open>JobRunner\<close> of \<open>jobs/runner.py\<close>: the execution of one ingestion request under a durable run. The
  world holds the table of runs, the other tables as one component that only the handler uses, the two
  clocks and the state of the renewal task. The handler, the checksum, the fresh ids and what happens
  between two statements (other workers, the renewal task, the clocks) are parameters. The wait for a
  run of another worker is a loop that need not end.
\<close>

section \<open>The runner and its world\<close>

record 'f runner_world =
  jw_runs :: "provider_run list"
  jw_facts :: 'f
  jw_now :: instant
  jw_mono :: int
  jw_steps :: nat
  jw_ids :: nat
  jw_sleeps :: "int list"
  jw_beat :: "exn option"                  \<comment> \<open>the exception the renewal task has ended with\<close>

record 'f job_runner =
  jr_handler :: "ingest_request \<Rightarrow> uuid option \<Rightarrow> ('f runner_world, ingest_result) act"
  jr_checkpointed :: bool
  jr_database :: bool
  jr_wait :: int
  jr_poll :: int
  jr_lease :: int
  jr_sha :: "string \<Rightarrow> string"
  jr_fresh :: "nat \<Rightarrow> uuid"
  jr_env :: "nat \<Rightarrow> 'f runner_world \<Rightarrow> 'f runner_world"

definition make_runner :: "'f job_runner \<Rightarrow> exn + 'f job_runner" where
  "make_runner c = (if jr_wait c \<le> 0 \<or> jr_poll c \<le> 0 \<or> jr_lease c \<le> 0 then Inl ValueError else Inr c)"

definition canonical_json_checksum :: "(string \<Rightarrow> string) \<Rightarrow> json \<Rightarrow> string" where
  "canonical_json_checksum sha payload = sha (dumps (sort_keys payload))"

text \<open>One statement of the repository; before it anything may happen outside the worker.\<close>

definition run_statement :: "'f job_runner \<Rightarrow> (provider_run list, 'a) act \<Rightarrow> ('f runner_world, 'a) act" where
  "run_statement c m w = (let v = jr_env c (jw_steps w) w in
     case m (jw_runs v) of (r, t) \<Rightarrow> (r, v\<lparr>jw_runs := t, jw_steps := jw_steps w + 1\<rparr>))"

definition wall_now :: "('f runner_world, instant) act" where
  "wall_now w = (Inr (jw_now w), w)"

definition monotonic :: "('f runner_world, int) act" where
  "monotonic w = (Inr (jw_mono w), w)"

definition new_id :: "'f job_runner \<Rightarrow> ('f runner_world, uuid) act" where
  "new_id c w = (Inr (jr_fresh c (jw_ids w)), w\<lparr>jw_ids := jw_ids w + 1\<rparr>)"

definition pause :: "int \<Rightarrow> ('f runner_world, unit) act" where
  "pause d w = (Inr (), w\<lparr>jw_now := jw_now w + d, jw_mono := jw_mono w + d, jw_sleeps := jw_sleeps w @ [d]\<rparr>)"

section \<open>Waiting for a run of another worker\<close>

type_synonym acquired = "run_lease option \<times> ingest_result option"

text \<open>One round: it ends with a replay or a lease, raises, or asks for a pause.\<close>

definition poll_again :: "'f job_runner \<Rightarrow> int \<Rightarrow> ('f runner_world, (acquired, int) loop_step) act" where
  "poll_again c deadline = bindA monotonic (\<lambda>m. let remaining = deadline - m in
     if remaining \<le> 0 then throw IngestionRunInProgressError else ret (Again (min (jr_poll c) remaining)))"

definition probe_run :: "'f job_runner \<Rightarrow> uuid \<Rightarrow> int \<Rightarrow> ('f runner_world, (acquired, int) loop_step) act" where
  "probe_run c i deadline = bindA (run_statement c (load_completed_result i)) (\<lambda>completed. case completed of
       Some x \<Rightarrow> ret (Finished (None, Some x))
     | None \<Rightarrow> bindA wall_now (\<lambda>now. bindA (run_statement c (claim_recoverable_run i now (now + jr_lease c))) (\<lambda>lease. case lease of
           Some l \<Rightarrow> ret (Finished (Some l, None))
         | None \<Rightarrow> bindA (run_statement c (load_run i)) (\<lambda>run. case run of
               None \<Rightarrow> throw IngestionRunInProgressError
             | Some r \<Rightarrow> if pr_status r \<noteq> Run_running then throw IngestionRunInProgressError
                 else poll_again c deadline))))"

definition poll_once :: "'f job_runner \<Rightarrow> uuid \<Rightarrow> int \<Rightarrow> ('f runner_world, (acquired, unit) loop_step) act" where
  "poll_once c i deadline = bindA (probe_run c i deadline) (\<lambda>s. case s of
       Finished x \<Rightarrow> ret (Finished x)
     | Again d \<Rightarrow> bindA (pause d) (\<lambda>_. ret (Again ())))"

definition wait_or_reclaim_run :: "'f job_runner \<Rightarrow> uuid \<Rightarrow> ('f runner_world, acquired) loop_act" where
  "wait_or_reclaim_run c i =
     (if \<not> jr_database c then runO (throw ValueError)
      else bindO (runO monotonic) (\<lambda>m. repeatA (\<lambda>_. poll_once c i (m + jr_wait c)) ()))"

section \<open>Acquiring a run\<close>

definition acquire_checkpointed_run :: "'f job_runner \<Rightarrow> ingest_request \<Rightarrow> ('f runner_world, acquired) loop_act" where
  "acquire_checkpointed_run c q =
     (if \<not> jr_checkpointed c then runO (ret (None, None))
      else if \<not> jr_database c then runO (throw ValueError)
      else bindO (runO (bindA wall_now (\<lambda>now. bindA (new_id c) (\<lambda>i.
          run_statement c (acquire_run q (canonical_json_checksum (jr_sha c) (request_payload q)) i now (now + jr_lease c))))))
        (\<lambda>(lease, i). case lease of
            Some l \<Rightarrow> runO (ret (Some l, None))
          | None \<Rightarrow> bindO (runO (run_statement c (load_completed_result i))) (\<lambda>completed. case completed of
                Some x \<Rightarrow> runO (ret (None, Some x))
              | None \<Rightarrow> wait_or_reclaim_run c i)))"

section \<open>Executing a request\<close>

definition fail_durable_run :: "'f job_runner \<Rightarrow> run_lease \<Rightarrow> exn \<Rightarrow> ('f runner_world, unit) act" where
  "fail_durable_run c l e =
     (if \<not> jr_database c then ret ()
      else bindA (run_statement c (fail_run l (upper (exn_name e)))) (\<lambda>_. ret ()))"

text \<open>The body of the \<open>try\<close> block.\<close>

definition run_handler :: "'f job_runner \<Rightarrow> ingest_request \<Rightarrow> run_lease option \<Rightarrow> ('f runner_world, ingest_result) act" where
  "run_handler c q lease = bindA
     (if jr_checkpointed c
      then (if \<not> jr_database c then throw ValueError
            else case lease of None \<Rightarrow> throw RuntimeError | Some l \<Rightarrow> jr_handler c q (Some (le_run l)))
      else jr_handler c q None)
     (\<lambda>res. if ir_role res \<noteq> iq_role q \<or> ir_dataset res \<noteq> iq_dataset q then throw ValueError
       else case lease of
           None \<Rightarrow> ret res
         | Some l \<Rightarrow>
             if ir_run res \<noteq> le_run l then throw ValueError
             else if \<not> jr_database c then throw ValueError
             else bindA (run_statement c (complete_run res l)) (\<lambda>completed.
               if \<not> completed then throw IngestionRunInProgressError else ret res))"

definition run_or_fail :: "'f job_runner \<Rightarrow> ingest_request \<Rightarrow> run_lease option \<Rightarrow> ('f runner_world, ingest_result) act" where
  "run_or_fail c q lease = tryA (run_handler c q lease)
     (\<lambda>e. bindA (case lease of None \<Rightarrow> ret () | Some l \<Rightarrow> fail_durable_run c l e) (\<lambda>_. throw e)) ret"

text \<open>
  The \<open>finally\<close> block: the renewal task is cancelled; if it had ended with an exception of its own,
  awaiting it raises that exception in place of the outcome.
\<close>

definition run_leased :: "'f job_runner \<Rightarrow> ingest_request \<Rightarrow> run_lease option \<Rightarrow> ('f runner_world, ingest_result) act" where
  "run_leased c q lease w = (case run_or_fail c q lease (w\<lparr>jw_beat := None\<rparr>) of
     (r, w') \<Rightarrow> ((if lease = None then r else case jw_beat w' of None \<Rightarrow> r | Some e \<Rightarrow> Inl e), w'))"

definition execute :: "'f job_runner \<Rightarrow> ingest_request \<Rightarrow> ('f runner_world, ingest_result) loop_act" where
  "execute c q = bindO (acquire_checkpointed_run c q) (\<lambda>(lease, replay). case replay of
       Some x \<Rightarrow> runO (ret x)
     | None \<Rightarrow> runO (run_leased c q lease))"

text \<open>One round of the renewal task, which runs beside the handler until it is cancelled.\<close>

definition renew_once :: "'f job_runner \<Rightarrow> run_lease \<Rightarrow> ('f runner_world, (unit, unit) loop_step) act" where
  "renew_once c l = bindA (pause (jr_lease c div 3)) (\<lambda>_. bindA wall_now (\<lambda>now.
     bindA (run_statement c (renew_lease l (now + jr_lease c))) (\<lambda>renewed.
       ret (if renewed then Again () else Finished ()))))"

definition renew_lease_until_finished :: "'f job_runner \<Rightarrow> run_lease \<Rightarrow> ('f runner_world, unit) loop_act" where
  "renew_lease_until_finished c l =
     (if \<not> jr_database c then runO (throw ValueError) else repeatA (\<lambda>_. renew_once c l) ())"

section \<open>Waiting ends\<close>

text \<open>The monotonic clock does not go back and nobody else records the pauses of this worker.\<close>

definition steady :: "'f job_runner \<Rightarrow> bool" where
  "steady c \<longleftrightarrow> (\<forall>k w. jw_mono w \<le> jw_mono (jr_env c k w) \<and> jw_sleeps (jr_env c k w) = jw_sleeps w)"

definition calm :: "'f runner_world \<Rightarrow> 'f runner_world \<Rightarrow> bool" where
  "calm w w' \<longleftrightarrow> jw_mono w \<le> jw_mono w' \<and> jw_sleeps w' = jw_sleeps w"

lemma calm_rel [simp]: "reflp calm" "transp calm"
  by (auto simp: reflp_def transp_def calm_def)

lemma keeps_run_statement: "steady c \<Longrightarrow> keeps calm (run_statement c m)"
  by (auto simp: keeps_def run_statement_def steady_def calm_def Let_def split: prod.splits)

lemma keeps_readings [simp]: "reflp R \<Longrightarrow> keeps R wall_now" "reflp R \<Longrightarrow> keeps R monotonic"
  by (simp_all add: keeps_def wall_now_def monotonic_def reflp_def)

lemma probe_run_calm: "steady c \<Longrightarrow> keeps calm (probe_run c i deadline)"
  unfolding probe_run_def poll_again_def Let_def by (intro keeps_control keeps_run_statement keeps_readings calm_rel)

text \<open>A round asks for a pause only before the deadline, and for no more than what remains.\<close>

definition asks_in_time :: "'f job_runner \<Rightarrow> int \<Rightarrow> exn + (acquired, int) loop_step \<Rightarrow> 'f runner_world \<Rightarrow> bool" where
  "asks_in_time c deadline r w = (case r of Inr (Again d) \<Rightarrow> jw_mono w < deadline \<and> d = min (jr_poll c) (deadline - jw_mono w) | _ \<Rightarrow> True)"

lemma asks_simps [simp]: "asks_in_time c deadline (Inl e) w" "asks_in_time c deadline (Inr (Finished x)) w"
  "asks_in_time c deadline (Inr (Again d)) w \<longleftrightarrow> jw_mono w < deadline \<and> d = min (jr_poll c) (deadline - jw_mono w)"
  by (simp_all add: asks_in_time_def)

lemma poll_again_asks: "yields (asks_in_time c deadline) (poll_again c deadline)"
  by (auto simp: yields_def poll_again_def bindA_def monotonic_def Let_def)

lemma probe_run_asks: "yields (asks_in_time c deadline) (probe_run c i deadline)"
  unfolding probe_run_def by (intro poll_again_asks yields_control asks_simps)

text \<open>A round that asks for another one, and one that does not.\<close>

lemma poll_once_Again:
  assumes "steady c" "poll_once c i deadline w = (Inr (Again u), w')"
  shows "\<exists>v d. calm w v \<and> jw_mono v < deadline \<and> d = min (jr_poll c) (deadline - jw_mono v)
    \<and> jw_mono w' = jw_mono v + d \<and> jw_sleeps w' = jw_sleeps v @ [d]"
proof -
  obtain s v where s: "probe_run c i deadline w = (Inr s, v)"
    "(case s of Finished x \<Rightarrow> ret (Finished x) | Again d \<Rightarrow> bindA (pause d) (\<lambda>_. ret (Again ()))) v = (Inr (Again u), w')"
    using assms(2) unfolding poll_once_def by (subst (asm) bindA_eq) auto
  then obtain d where v: "probe_run c i deadline w = (Inr (Again d), v)" "pause d v = (Inr (), w')"
    by (cases s) (auto simp: bindA_eq)
  show ?thesis
    using keepsD [OF probe_run_calm [OF assms(1)] v(1)] yieldsD [OF probe_run_asks v(1)] v(2) by (auto simp: pause_def)
qed

lemma poll_once_ends:
  assumes "steady c" "poll_once c i deadline w = (s, w')" "ends_with s r"
  shows "calm w w'"
proof -
  obtain s1 v where v: "probe_run c i deadline w = (s1, v)" by fastforce
  have "w' = v"
    using assms(2,3) v by (auto simp: poll_once_def bindA_def pause_def split: sum.splits loop_step.splits)
  then show ?thesis using keepsD [OF probe_run_calm [OF assms(1)] v] by simp
qed

text \<open>
  The pauses of a wait that began at some time with a budget: they sum to at most the budget, all but
  the last are as long as a poll, and the clock has advanced by at least their sum.
\<close>

definition waited :: "int \<Rightarrow> int \<Rightarrow> int \<Rightarrow> int list \<Rightarrow> 'f runner_world \<Rightarrow> bool" where
  "waited poll budget start before w \<longleftrightarrow> (\<exists>z. jw_sleeps w = before @ z \<and> sum_list z \<le> budget \<and> sum_list z \<le> jw_mono w - start
     \<and> (z \<noteq> [] \<longrightarrow> (int (length z) - 1) * poll < budget)
     \<and> (int (length z) * poll \<le> sum_list z \<or> start + budget \<le> jw_mono w))"

lemma waited_calm: "waited poll budget start before w \<Longrightarrow> calm w w' \<Longrightarrow> waited poll budget start before w'"
  unfolding waited_def calm_def by (elim exE, intro exI) auto

lemma waited_poll:
  assumes w: "waited (jr_poll c) budget start before w" and "0 < jr_poll c" "steady c"
    and p: "poll_once c i (start + budget) w = (Inr (Again u), w')"
  shows "waited (jr_poll c) budget start before w' \<and> nat (start + budget - jw_mono w') < nat (start + budget - jw_mono w)"
proof -
  obtain v d where v: "calm w v" "jw_mono v < start + budget" "d = min (jr_poll c) (start + budget - jw_mono v)"
    "jw_mono w' = jw_mono v + d" "jw_sleeps w' = jw_sleeps v @ [d]"
    using poll_once_Again [OF assms(3) p] by blast
  have d: "0 < d" using v(2,3) assms(2) by simp
  obtain z where z: "jw_sleeps v = before @ z" "sum_list z \<le> budget" "sum_list z \<le> jw_mono v - start"
    "z \<noteq> [] \<longrightarrow> (int (length z) - 1) * jr_poll c < budget"
    "int (length z) * jr_poll c \<le> sum_list z"
    using waited_calm [OF w v(1)] v(2) unfolding waited_def by auto
  have n: "int (length (z @ [d])) - 1 = int (length z)" by simp
  have "int (length z) * jr_poll c < budget" using z(3,5) v(2) by simp
  moreover have "int (length (z @ [d])) * jr_poll c \<le> sum_list (z @ [d]) \<or> start + budget \<le> jw_mono w'"
    using z(5) v(3,4) by (auto simp: algebra_simps min_def)
  ultimately have "waited (jr_poll c) budget start before w'"
    using z(1,3) v(2,3,4,5) unfolding waited_def n [symmetric] by (intro exI [of _ "z @ [d]"]) auto
  moreover have "jw_mono w \<le> jw_mono v" using v(1) by (simp add: calm_def)
  ultimately show ?thesis using v(2,4) d by simp
qed

text \<open>Waiting for the run of another worker always ends: it returns a replay or a lease, or raises. The pauses sum to at most
  the configured wait, and there are fewer than one more than the wait divided by the poll interval. It needs only that the
  monotonic clock never goes back.\<close>

theorem waiting_for_a_run_ends:
  fixes c :: "'f job_runner" and w :: "'f runner_world"
  assumes "make_runner c = Inr c" "steady c" "jr_database c"
  shows "\<exists>r w' z. wait_or_reclaim_run c i w = Some (r, w') \<and> jw_sleeps w' = jw_sleeps w @ z \<and> sum_list z \<le> jr_wait c
    \<and> (z \<noteq> [] \<longrightarrow> (int (length z) - 1) * jr_poll c < jr_wait c)"
proof -
  have pos: "0 < jr_wait c" "0 < jr_poll c" using assms(1) by (auto simp: make_runner_def split: if_splits)
  define I where "I = (\<lambda>(_::unit) (v :: 'f runner_world). waited (jr_poll c) (jr_wait c) (jw_mono w) (jw_sleeps w) v)"
  have start: "I () w" using pos by (simp add: I_def waited_def)
  let ?step = "\<lambda>_. poll_once c i (jw_mono w + jr_wait c)"
  obtain r w' where run: "repeatA ?step () w = Some (r, w')"
    using repeatA_returns [of I "()" w ?step "\<lambda>_ v. nat (jw_mono w + jr_wait c - jw_mono v)", OF start]
      waited_poll [OF _ pos(2) assms(2)] unfolding I_def by blast
  have "I () w'"
    using run start
  proof (rule repeatA_invariant)
    show "I a v \<Longrightarrow> poll_once c i (jw_mono w + jr_wait c) v = (Inr (Again b), v1) \<Longrightarrow> I b v1" for a v b v1
      using waited_poll [OF _ pos(2) assms(2)] unfolding I_def by blast
    show "I a v \<Longrightarrow> poll_once c i (jw_mono w + jr_wait c) v = (s, v1) \<Longrightarrow> ends_with s r \<Longrightarrow> I () v1" for a v s v1 r
      using waited_calm poll_once_ends [OF assms(2)] unfolding I_def by blast
  qed
  moreover have "wait_or_reclaim_run c i w = Some (r, w')"
    using run assms(3) by (simp add: wait_or_reclaim_run_def bindO_def runO_def monotonic_def)
  ultimately show ?thesis unfolding I_def waited_def by blast
qed

section \<open>A request that has completed is replayed\<close>

text \<open>
  Other workers and the handler change the runs only by the statements of the repository, and the
  handler returns results that satisfy the contract.
\<close>

definition lawful :: "'f job_runner \<Rightarrow> bool" where
  "lawful c \<longleftrightarrow> (\<forall>k w. \<exists>xs gs. run_ops run_exec xs (jw_runs w) = (gs, jw_runs (jr_env c k w)))
    \<and> (\<forall>q i w r w'. jr_handler c q i w = (r, w') \<longrightarrow>
        (\<exists>xs gs. run_ops run_exec xs (jw_runs w) = (gs, jw_runs w')) \<and> (\<forall>res. r = Inr res \<longrightarrow> valid_result res))"

definition runs_ok :: "'f runner_world \<Rightarrow> 'f runner_world \<Rightarrow> bool" where
  "runs_ok w w' \<longleftrightarrow> run_step_ok (jw_runs w) (jw_runs w')"

lemma runs_ok_rel [simp]: "reflp runs_ok" "transp runs_ok"
  using run_step_ok_rel by (auto simp: reflp_def transp_def runs_ok_def)

lemma statements_ok [simp]:
  "run_step_ok t (snd (acquire_run q key i now expires t))" "run_step_ok t (snd (claim_recoverable_run i now expires t))"
  "run_step_ok t (snd (complete_run res l t))" "run_step_ok t (snd (fail_run l code t))"
  "run_step_ok t (snd (renew_lease l expires t))"
  "run_step_ok t (snd (load_run i t))" "run_step_ok t (snd (load_completed_result i t))"
proof -
  show "run_step_ok t (snd (acquire_run q key i now expires t))"
    using run_exec_step [of t "Acquire q key i now expires"] by (simp split: prod.splits sum.splits)
  show "run_step_ok t (snd (claim_recoverable_run i now expires t))"
    using run_exec_step [of t "Claim i now expires"] by (simp split: prod.splits sum.splits)
  show "run_step_ok t (snd (complete_run res l t))" using run_exec_step [of t "Complete res l"] by simp
  show "run_step_ok t (snd (fail_run l code t))" using run_exec_step [of t "Fail l code"] by simp
  show "run_step_ok t (snd (renew_lease l expires t))" using run_exec_step [of t "Renew l expires"] by simp
  show "run_step_ok t (snd (load_run i t))" "run_step_ok t (snd (load_completed_result i t))"
    using run_step_ok_rel(1) by (auto simp: reflp_def load_run_def load_completed_result_def split: option.splits)
qed

lemma env_ok: "lawful c \<Longrightarrow> run_step_ok (jw_runs w) (jw_runs (jr_env c k w))"
  unfolding lawful_def using run_ops_step by blast

text \<open>A statement sees a table that the others have left, and leaves what it makes of it.\<close>

lemma run_statement_table:
  assumes "lawful c" "run_statement c m w = (r, w')"
  shows "\<exists>t. run_step_ok (jw_runs w) t \<and> m t = (r, jw_runs w')"
  using assms(2) env_ok [OF assms(1), of w "jw_steps w"]
  by (auto simp: run_statement_def Let_def split: prod.splits)

lemma keeps_runs:
  assumes "lawful c" "\<And>t. run_step_ok t (snd (m t))"
  shows "keeps runs_ok (run_statement c m)"
proof (unfold keeps_def, rule allI)
  fix w
  obtain r w' where s: "run_statement c m w = (r, w')" by fastforce
  obtain t where t: "run_step_ok (jw_runs w) t" "m t = (r, jw_runs w')" using run_statement_table [OF assms(1) s] by blast
  have "run_step_ok t (jw_runs w')" using assms(2) [of t] t(2) by simp
  then have "run_step_ok (jw_runs w) (jw_runs w')" using t(1) run_step_ok_rel(2) by (meson transpD)
  then show "runs_ok w (snd (run_statement c m w))" using s by (simp add: runs_ok_def)
qed

lemma keeps_handler:
  assumes "lawful c"
  shows "keeps runs_ok (jr_handler c q i)"
proof (unfold keeps_def, rule allI)
  fix w
  obtain r w' where h: "jr_handler c q i w = (r, w')" by fastforce
  obtain xs gs where "run_ops run_exec xs (jw_runs w) = (gs, jw_runs w')" using assms h unfolding lawful_def by blast
  then show "runs_ok w (snd (jr_handler c q i w))" using run_ops_step h by (simp add: runs_ok_def)
qed

text \<open>The row of a run belongs to a request; a completed one carries its result.\<close>

definition bound_to :: "'f job_runner \<Rightarrow> ingest_request \<Rightarrow> uuid \<Rightarrow> provider_run list \<Rightarrow> bool" where
  "bound_to c q i t \<longleftrightarrow> wf_runs t \<and> (\<exists>r. select_one (\<lambda>r. pr_id r = i) t = Some r
     \<and> pr_key r = canonical_json_checksum (jr_sha c) (request_payload q) \<and> json_eq (pr_request r) (request_payload q))"

definition replayable :: "'f job_runner \<Rightarrow> ingest_request \<Rightarrow> ingest_result \<Rightarrow> provider_run list \<Rightarrow> bool" where
  "replayable c q res t \<longleftrightarrow> bound_to c q (ir_run res) t \<and> load_completed_result (ir_run res) t = (Inr (Some res), t)"

lemma bound_to_step: "bound_to c q i t \<Longrightarrow> run_step_ok t t' \<Longrightarrow> bound_to c q i t'"
  unfolding bound_to_def run_step_ok_def run_identity_def by fastforce

lemma load_Some:
  "load_completed_result i t = (Inr (Some x), t') \<longleftrightarrow> t' = t \<and> (\<exists>r f. select_one (\<lambda>r. pr_id r = i) t = Some r \<and> completed r
    \<and> pr_finished r = Some f \<and> make_result (stored_result r f) = Inr x)"
  by (auto simp: load_completed_result_def bindE_def split: option.splits sum.splits if_splits)

lemma replayable_step:
  assumes "replayable c q res t" "run_step_ok t t'"
  shows "replayable c q res t'"
proof -
  have b: "bound_to c q (ir_run res) t" and l: "load_completed_result (ir_run res) t = (Inr (Some res), t)"
    using assms(1) by (simp_all add: replayable_def)
  obtain r f where r: "select_one (\<lambda>r. pr_id r = ir_run res) t = Some r" "completed r"
    "pr_finished r = Some f" "make_result (stored_result r f) = Inr res" using l by (auto simp: load_Some)
  have "wf_runs t" using b by (simp add: bound_to_def)
  then have "select_one (\<lambda>r. pr_id r = ir_run res) t' = Some r"
    using assms(2) r(1,2) unfolding run_step_ok_def by blast
  then show ?thesis using bound_to_step [OF b assms(2)] r by (auto simp: replayable_def load_Some)
qed

lemma load_replayable:
  assumes "bound_to c q i t" "load_completed_result i t = (Inr (Some x), t')"
  shows "replayable c q x t"
proof -
  obtain r f where r: "select_one (\<lambda>r. pr_id r = i) t = Some r" "make_result (stored_result r f) = Inr x"
    using assms(2) by (auto simp: load_Some)
  have "pr_id r = i" using r(1) by (auto simp: pr_lookup_eq dest: pr_rows.lookup_Some)
  then have "ir_run x = i" using r(2) by (auto simp: make_result_def stored_result_def Let_def split: if_splits)
  then show ?thesis using assms by (auto simp: replayable_def load_Some)
qed

lemma request_payload_wf: "json_wf (request_payload q)"
  by (auto simp: request_payload_def opt_str_def split: option.splits)

lemma request_payload_eq:
  "json_eq (request_payload p) (request_payload q) \<Longrightarrow> iq_role p = iq_role q \<and> iq_dataset p = iq_dataset q"
  by (auto simp: request_payload_def dest: dataset_value_inj)

lemma acquire_bound:
  assumes wf: "wf_runs t" and a: "acquire_run q (canonical_json_checksum (jr_sha c) (request_payload q)) i now expires t = (Inr (l, j), t')"
  shows "bound_to c q j t' \<and> (\<forall>x. l = Some x \<longrightarrow> le_run x = j)"
proof -
  have wf': "wf_runs t'" using statements_ok(1) [of t q "canonical_json_checksum (jr_sha c) (request_payload q)" i now expires] a wf
    by (simp add: run_step_ok_def)
  show ?thesis
  proof (cases l)
    case (Some x)
    then have t': "t' = t @ [new_run q (canonical_json_checksum (jr_sha c) (request_payload q)) i now expires]"
      and x: "x = \<lparr>le_run = i, le_no = 1\<rparr>" "j = i" "\<forall>x \<in> set t. pr_id x \<noteq> i"
      using acquire_run_eq [OF a] a by (auto simp: acquire_run_def split: option.splits if_splits prod.splits sum.splits bool.splits)
    have "select_one (\<lambda>r. pr_id r = i) t = None" using x(3) by (auto simp: select_one_def find_None_iff)
    then have "select_one (\<lambda>r. pr_id r = i) t' = Some (new_run q (canonical_json_checksum (jr_sha c) (request_payload q)) i now expires)"
      by (simp add: t' pr_lookup_eq pr_rows.lookup_append new_run_def)
    then show ?thesis using wf' x Some json_eq_refl [OF request_payload_wf] by (auto simp: bound_to_def new_run_def)
  next
    case None
    then obtain r where r: "select_one (\<lambda>r. pr_key r = canonical_json_checksum (jr_sha c) (request_payload q)) t = Some r"
      "json_eq (pr_request r) (request_payload q)" "j = pr_id r" "t' = t"
      using a by (auto simp: acquire_run_def split: option.splits if_splits prod.splits sum.splits bool.splits)
    have "r \<in> set t" "pr_key r = canonical_json_checksum (jr_sha c) (request_payload q)"
      using r(1) by (auto simp: select_one_def find_Some_iff)
    moreover have "select_one (\<lambda>x. pr_id x = pr_id r) t = Some r"
      using pr_rows.lookup_mem [of t r] calculation(1) wf by (simp add: pr_lookup_eq wf_runs_def pr_rows.keys_distinct_def)
    ultimately show ?thesis using r None wf by (auto simp: bound_to_def)
  qed
qed

lemma claim_Some: "claim_recoverable_run i now expires t = (Inr (Some l), t') \<Longrightarrow> le_run l = i"
  by (auto simp: claim_recoverable_run_def pr_lookup_eq split: prod.splits if_splits dest: pr_rows.lookup_Some)

text \<open>What acquiring leaves behind: a replay of the request, or a lease of its run.\<close>

definition acquired_ok :: "'f job_runner \<Rightarrow> ingest_request \<Rightarrow> exn + acquired \<Rightarrow> 'f runner_world \<Rightarrow> bool" where
  "acquired_ok c q r w = (case r of
     Inr (Some l, None) \<Rightarrow> bound_to c q (le_run l) (jw_runs w)
   | Inr (None, Some x) \<Rightarrow> replayable c q x (jw_runs w)
   | Inr _ \<Rightarrow> False | Inl _ \<Rightarrow> True)"

lemma acquired_simps [simp]: "acquired_ok c q (Inl e) w"
  "acquired_ok c q (Inr (Some l, None)) w = bound_to c q (le_run l) (jw_runs w)"
  "acquired_ok c q (Inr (None, Some x)) w = replayable c q x (jw_runs w)"
  by (simp_all add: acquired_ok_def)

lemma load_statement:
  assumes "lawful c" "bound_to c q i (jw_runs w)" "run_statement c (load_completed_result i) w = (Inr x, w')"
  shows "bound_to c q i (jw_runs w') \<and> (\<forall>res. x = Some res \<longrightarrow> replayable c q res (jw_runs w'))"
proof -
  obtain t where t: "run_step_ok (jw_runs w) t" "load_completed_result i t = (Inr x, jw_runs w')"
    using run_statement_table [OF assms(1,3)] by blast
  have same: "jw_runs w' = t" using t(2) by (auto simp: load_completed_result_def split: option.splits if_splits)
  show ?thesis using bound_to_step [OF assms(2) t(1)] load_replayable t(2) same by auto
qed

lemma bound_kept: "keeps runs_ok m \<Longrightarrow> bound_to c q i (jw_runs w) \<Longrightarrow> m w = (r, w') \<Longrightarrow> bound_to c q i (jw_runs w')"
  using bound_to_step keepsD unfolding runs_ok_def by metis

lemma pause_keeps: "keeps runs_ok (pause d)"
  using run_step_ok_rel(1) by (simp add: keeps_def runs_ok_def pause_def reflp_def)

lemma claim_statement:
  assumes "lawful c" "run_statement c (claim_recoverable_run i now expires) w = (Inr (Some l), w')"
  shows "le_run l = i"
  using run_statement_table [OF assms] claim_Some by blast

lemma probe_run_bound:
  assumes c: "lawful c" and b: "bound_to c q i (jw_runs w)" and p: "probe_run c i deadline w = (s, w')"
  shows "bound_to c q i (jw_runs w') \<and> (\<forall>x. s = Inr (Finished x) \<longrightarrow> acquired_ok c q (Inr x) w')"
proof -
  have k: "keeps runs_ok (probe_run c i deadline)"
    unfolding probe_run_def poll_again_def Let_def
    by (intro keeps_control keeps_runs [OF c] statements_ok keeps_readings runs_ok_rel)
  note b' = bound_kept [OF k b p]
  have "acquired_ok c q (Inr x) w'" if s: "s = Inr (Finished x)" for x
  proof -
    obtain y w1 where 1: "run_statement c (load_completed_result i) w = (Inr y, w1)"
      "(case y of Some x \<Rightarrow> ret (Finished (None, Some x))
       | None \<Rightarrow> bindA wall_now (\<lambda>now. bindA (run_statement c (claim_recoverable_run i now (now + jr_lease c))) (\<lambda>lease. case lease of
           Some l \<Rightarrow> ret (Finished (Some l, None))
         | None \<Rightarrow> bindA (run_statement c (load_run i)) (\<lambda>run. case run of
               None \<Rightarrow> throw IngestionRunInProgressError
             | Some r \<Rightarrow> if pr_status r \<noteq> Run_running then throw IngestionRunInProgressError
                 else poll_again c deadline)))) w1 = (Inr (Finished x), w')"
      using p unfolding s probe_run_def by (subst (asm) bindA_eq) auto
    show ?thesis
    proof (cases y)
      case (Some res)
      then show ?thesis using 1(2) load_statement [OF c b 1(1)] by auto
    next
      case None
      obtain l w2 where 2: "run_statement c (claim_recoverable_run i (jw_now w1) (jw_now w1 + jr_lease c)) w1 = (Inr l, w2)"
        "(case l of Some l \<Rightarrow> ret (Finished (Some l, None))
         | None \<Rightarrow> bindA (run_statement c (load_run i)) (\<lambda>run. case run of
               None \<Rightarrow> throw IngestionRunInProgressError
             | Some r \<Rightarrow> if pr_status r \<noteq> Run_running then throw IngestionRunInProgressError
                 else poll_again c deadline)) w2 = (Inr (Finished x), w')"
        using 1(2) unfolding None by (auto simp: wall_now_def bindA_eq [of wall_now]
            bindA_eq [of "run_statement c (claim_recoverable_run i (jw_now w1) (jw_now w1 + jr_lease c))"])
      show ?thesis
      proof (cases l)
        case (Some lease)
        then show ?thesis using 2 claim_statement [OF c] b' by auto
      next
        case None
        then show ?thesis using 2(2) by (auto simp: bindA_eq poll_again_def Let_def split: option.splits if_splits)
      qed
    qed
  qed
  then show ?thesis using b' by blast
qed

lemma wait_acquired:
  fixes c :: "'f job_runner" and w :: "'f runner_world"
  assumes c: "lawful c" and b: "bound_to c q i (jw_runs w)" and run: "wait_or_reclaim_run c i w = Some (r, w')"
  shows "acquired_ok c q r w'"
proof (cases "jr_database c")
  case False
  then show ?thesis using run by (auto simp: wait_or_reclaim_run_def)
next
  case True
  define D where "D = jw_mono w + jr_wait c"
  have "repeatA (\<lambda>_. poll_once c i D) () w = Some (r, w')"
    using run True by (simp add: wait_or_reclaim_run_def bindO_def runO_def monotonic_def D_def)
  then show ?thesis
  proof (rule repeatA_invariant [where I = "\<lambda>_ v. bound_to c q i (jw_runs v)" and Q = "acquired_ok c q"])
    show "bound_to c q i (jw_runs w)" by (rule b)
    fix a d and v v1 :: "'f runner_world" assume bv: "bound_to c q i (jw_runs v)"
    show "bound_to c q i (jw_runs v1)" if st: "poll_once c i D v = (Inr (Again d), v1)"
    proof -
      obtain s u where s: "probe_run c i D v = (Inr s, u)"
        "(case s of Finished x \<Rightarrow> ret (Finished x) | Again d \<Rightarrow> bindA (pause d) (\<lambda>_. ret (Again ()))) u = (Inr (Again d), v1)"
        using st unfolding poll_once_def by (subst (asm) bindA_eq) auto
      then show ?thesis using probe_run_bound [OF c bv s(1)] bound_kept [OF pause_keeps]
        by (cases s) (auto simp: bindA_eq)
    qed
  next
    fix a s r1 and v v1 :: "'f runner_world" assume bv: "bound_to c q i (jw_runs v)" and st: "poll_once c i D v = (s, v1)" and e: "ends_with s r1"
    obtain s1 u where p: "probe_run c i D v = (s1, u)" by fastforce
    show "acquired_ok c q r1 v1"
    proof (cases s1)
      case (Inl e1)
      then show ?thesis using st e p by (auto simp: poll_once_def bindA_def)
    next
      case (Inr x)
      then show ?thesis using st e p probe_run_bound [OF c bv p] by (cases x) (auto simp: poll_once_def bindA_def pause_def)
    qed
  qed
qed

lemma acquire_ok:
  assumes c: "lawful c" "jr_checkpointed c" and wf: "wf_runs (jw_runs w)" and run: "acquire_checkpointed_run c q w = Some (r, w')"
  shows "acquired_ok c q r w'"
proof (cases "jr_database c")
  case False
  then show ?thesis using run c by (auto simp: acquire_checkpointed_run_def)
next
  case True
  define key where "key = canonical_json_checksum (jr_sha c) (request_payload q)"
  define m where "m = bindA wall_now (\<lambda>now. bindA (new_id c) (\<lambda>i. run_statement c (acquire_run q key i now (now + jr_lease c))))"
  obtain a w1 where a: "m w = (a, w1)" by fastforce
  note run' = run [unfolded acquire_checkpointed_run_def key_def [symmetric] m_def [symmetric]]
  show ?thesis
  proof (cases a)
    case (Inl e)
    then show ?thesis using run' a c(2) True by (auto simp: bindO_def runO_def)
  next
    case (Inr lj)
    obtain l j where lj: "lj = (l, j)" by fastforce
    have "run_statement c (acquire_run q key (jr_fresh c (jw_ids w)) (jw_now w) (jw_now w + jr_lease c)) (w\<lparr>jw_ids := jw_ids w + 1\<rparr>)
        = (Inr (l, j), w1)"
      using a Inr lj by (simp add: m_def bindA_def wall_now_def new_id_def)
    then obtain t where t: "run_step_ok (jw_runs w) t" "acquire_run q key (jr_fresh c (jw_ids w)) (jw_now w) (jw_now w + jr_lease c) t = (Inr (l, j), jw_runs w1)"
      using run_statement_table [OF c(1)] by fastforce
    have "wf_runs t" using t(1) wf by (simp add: run_step_ok_def)
    then have b: "bound_to c q j (jw_runs w1)" "\<And>x. l = Some x \<Longrightarrow> le_run x = j"
      using acquire_bound [of t q c] t(2) unfolding key_def by blast+
    show ?thesis
    proof (cases l)
      case (Some x)
      then show ?thesis using run' a Inr lj c(2) True b by (auto simp: bindO_def runO_def)
    next
      case None
      obtain y w2 where y: "run_statement c (load_completed_result j) w1 = (y, w2)" by fastforce
      show ?thesis
      proof (cases y)
        case (Inl e)
        then show ?thesis using run' a Inr lj None y c(2) True \<open>a = Inr lj\<close> by (auto simp: bindO_def runO_def)
      next
        case (Inr z)
        note ld = load_statement [OF c(1) b(1) y [unfolded Inr]]
        show ?thesis
          using run' a \<open>a = Inr lj\<close> lj None y Inr c(2) True ld wait_acquired [OF c(1), of q j w2]
          by (cases z) (auto simp: bindO_def runO_def)
      qed
    qed
  qed
qed

lemma handler_replayable:
  assumes c: "lawful c" and b: "bound_to c q (le_run l) (jw_runs w)" and run: "run_handler c q (Some l) w = (Inr res, w')"
    and st: "ir_status res \<in> {Run_succeeded, Run_partial}"
  shows "replayable c q res (jw_runs w')"
proof -
  obtain i w1 where h: "jr_handler c q i w = (Inr res, w1)" "ir_role res = iq_role q" "ir_dataset res = iq_dataset q"
    "ir_run res = le_run l" "run_statement c (complete_run res l) w1 = (Inr True, w')"
    using run by (auto simp: run_handler_def bindA_eq split: if_splits)
  have valid: "valid_result res" using c h(1) unfolding lawful_def by blast
  have b1: "bound_to c q (le_run l) (jw_runs w1)" using bound_kept [OF keeps_handler [OF c] b h(1)] .
  obtain t where t: "run_step_ok (jw_runs w1) t" "complete_run res l t = (Inr True, jw_runs w')"
    using run_statement_table [OF c h(5)] by blast
  have bt: "bound_to c q (le_run l) t" by (rule bound_to_step [OF b1 t(1)])
  then obtain r where r: "select_one (\<lambda>r. pr_id r = ir_run res) t = Some r" "json_eq (pr_request r) (request_payload q)" and wf: "wf_runs t"
    unfolding bound_to_def h(4) by blast
  have "r \<in> set t" using r(1) by (auto simp: select_one_def find_Some_iff)
  then obtain p where "pr_request r = request_payload p" "pr_role r = iq_role p" "pr_dataset r = iq_dataset p"
    using wf by (auto simp: wf_runs_def wf_run_def)
  then have "pr_role r = ir_role res" "pr_dataset r = ir_dataset res"
    using request_payload_eq [of p q] r(2) h(2,3) by simp_all
  note rep = complete_run_replay [OF _ t(2) r(1) this valid]
  have "run_step_ok t (jw_runs w')" using statements_ok(3) [of t res l] t(2) by simp
  then have "bound_to c q (ir_run res) (jw_runs w')" using bt bound_to_step h(4) by metis
  then show ?thesis using rep(2) st wf by (simp add: replayable_def wf_runs_def)
qed

lemma execute_replayable:
  assumes c: "lawful c" "jr_checkpointed c" and wf: "wf_runs (jw_runs w)" and run: "execute c q w = Some (Inr res, w')"
    and st: "ir_status res \<in> {Run_succeeded, Run_partial}"
  shows "replayable c q res (jw_runs w')"
proof -
  obtain l y w1 where a: "acquire_checkpointed_run c q w = Some (Inr (l, y), w1)"
    "(case y of Some x \<Rightarrow> runO (ret x) | None \<Rightarrow> runO (run_leased c q l)) w1 = Some (Inr res, w')"
    using run by (auto simp: execute_def bindO_eq)
  note ok = acquire_ok [OF c wf a(1)]
  show ?thesis
  proof (cases y)
    case (Some x)
    then show ?thesis using a(2) ok by (cases l) (auto simp: acquired_ok_def)
  next
    case None
    then obtain x where l: "l = Some x" using ok by (cases l) (auto simp: acquired_ok_def)
    have b: "bound_to c q (le_run x) (jw_runs (w1\<lparr>jw_beat := None\<rparr>))" using ok l None by simp
    have "run_or_fail c q (Some x) (w1\<lparr>jw_beat := None\<rparr>) = (Inr res, w')"
      using a(2) None l by (auto simp: run_leased_def split: prod.splits option.splits)
    then have "run_handler c q (Some x) (w1\<lparr>jw_beat := None\<rparr>) = (Inr res, w')"
      by (auto simp: run_or_fail_def tryA_eq bindA_eq)
    then show ?thesis by (rule handler_replayable [OF c(1) b _ st])
  qed
qed

lemma replayed_once:
  assumes c: "lawful c" "jr_checkpointed c" "jr_database c" and wf: "wf_runs (jw_runs w)" and r: "replayable c q res (jw_runs w)"
  shows "\<exists>w'. \<forall>h. execute (c\<lparr>jr_handler := h\<rparr>) q w = Some (Inr res, w')"
proof -
  define key where "key = canonical_json_checksum (jr_sha c) (request_payload q)"
  define v where "v = w\<lparr>jw_ids := jw_ids w + 1\<rparr>"
  define m where "m = acquire_run q key (jr_fresh c (jw_ids w)) (jw_now w) (jw_now w + jr_lease c)"
  obtain a w1 where s: "run_statement c m v = (a, w1)" by fastforce
  obtain t where t: "run_step_ok (jw_runs w) t" "m t = (a, jw_runs w1)"
    using run_statement_table [OF c(1) s] by (auto simp: v_def)
  note rt = replayable_step [OF r t(1)]
  obtain x where x: "select_one (\<lambda>r. pr_id r = ir_run res) t = Some x" "pr_key x = key" "json_eq (pr_request x) (request_payload q)"
    and wt: "wf_runs t" using rt by (auto simp: replayable_def bound_to_def key_def)
  have mem: "x \<in> set t" "pr_id x = ir_run res" using x(1) by (auto simp: select_one_def find_Some_iff)
  have "select_one (\<lambda>r. pr_key r = key) t = Some x"
  proof -
    obtain y where y: "select_one (\<lambda>r. pr_key r = key) t = Some y"
      using mem(1) x(2) by (cases "select_one (\<lambda>r. pr_key r = key) t") (auto simp: select_one_def find_None_iff)
    then have "y \<in> set t" "pr_key y = key" by (auto simp: select_one_def find_Some_iff)
    then have "y = x" using mem(1) x(2) wt unfolding wf_runs_def by (metis distinct_map inj_onD)
    then show ?thesis using y by simp
  qed
  then have m: "m t = (Inr (None, ir_run res), t)"
    using mem x(2,3) by (auto simp: m_def acquire_run_def insert_on_conflict_def new_run_def)
  then have w1: "a = Inr (None, ir_run res)" "jw_runs w1 = t" using t(2) by simp_all
  obtain b w2 where l: "run_statement c (load_completed_result (ir_run res)) w1 = (b, w2)" by fastforce
  obtain t2 where t2: "run_step_ok t t2" "load_completed_result (ir_run res) t2 = (b, jw_runs w2)"
    using run_statement_table [OF c(1) l] w1(2) by auto
  have b: "b = Inr (Some res)" using replayable_step [OF rt t2(1)] t2(2) by (simp add: replayable_def)
  have same: "run_statement (c\<lparr>jr_handler := h\<rparr>) n u = run_statement c n u" for h u and n :: "(provider_run list, 'z) act"
    by (simp add: run_statement_def)
  have "execute (c\<lparr>jr_handler := h\<rparr>) q w = Some (Inr res, w2)" for h
    using s l c(2,3) unfolding w1(1) b m_def v_def key_def
    by (simp add: execute_def acquire_checkpointed_run_def bindO_def runO_def bindA_def wall_now_def new_id_def run_statement_def)
  then show ?thesis by blast
qed

text \<open>Once an execution of a request has returned a completed result, executing the request again returns the same result
  without running the handler (it returns the same whatever the handler is), in any later state that statements of any number of
  workers can reach. It assumes that other code changes the runs only by the repository's statements.\<close>

theorem completed_request_is_replayed:
  assumes "lawful c" "jr_checkpointed c" "jr_database c" "wf_runs (jw_runs w)"
    and "execute c q w = Some (Inr res, w1)" "ir_status res \<in> {Run_succeeded, Run_partial}"
    and "run_ops run_exec xs (jw_runs w1) = (gs, jw_runs w2)"
  shows "\<exists>w3. \<forall>h. execute (c\<lparr>jr_handler := h\<rparr>) q w2 = Some (Inr res, w3)"
proof -
  have "replayable c q res (jw_runs w2)"
    using replayable_step [OF execute_replayable [OF assms(1,2,4,5,6)] run_ops_step [OF assms(7)]] .
  then show ?thesis using replayed_once [OF assms(1,2,3), of w2 q res] by (auto simp: replayable_def bound_to_def)
qed

section \<open>A failed execution\<close>

definition leaves_lease :: "run_lease \<Rightarrow> provider_run list \<Rightarrow> bool" where
  "leaves_lease l t \<longleftrightarrow> (\<forall>now later. fst (claim_recoverable_run (le_run l) now later t) = Inr (Some \<lparr>le_run = le_run l, le_no = le_no l + 1\<rparr>))"

lemma fail_run_lost:
  assumes "\<not> (\<exists>r \<in> set t. pr_id r = le_run l \<and> holds_lease l r)"
  shows "fail_run l code t = (Inr False, t)"
proof -
  have "\<forall>r \<in> set t. \<not> (pr_id r = le_run l \<and> holds_lease l r)" using assms by blast
  note none = update_none [OF this]
  show ?thesis using none by (simp add: fail_run_def)
qed

lemma fail_run_held:
  assumes d: "pr_rows.keys_distinct t" and held: "\<exists>r \<in> set t. pr_id r = le_run l \<and> holds_lease l r" and fits: "column_fits 64 (Some code)"
  obtains t1 r where "fail_run l code t = (Inr True, t1)" "select_one (\<lambda>r. pr_id r = le_run l) t1 = Some r"
    "pr_status r = Run_failed" "pr_error r = Some code" "leaves_lease l t1"
proof -
  define f where "f = (\<lambda>r. r\<lparr>pr_status := Run_failed, pr_error := Some code, pr_lease := None\<rparr> :: provider_run)"
  obtain r where r: "pr_rows.lookup t (le_run l) = Some r" "holds_lease l r" using held pr_rows.lookup_mem [OF d] by force
  obtain ok t1 where u: "update_where (\<lambda>r. pr_id r = le_run l \<and> holds_lease l r) f t = (ok, t1)" by fastforce
  have f: "pr_id (f r) = pr_id r" for r by (simp add: f_def)
  note upd = pr_rows.update_one [OF f d u]
  have ok: "ok" using upd(1) r by blast
  have r1: "pr_rows.lookup t1 (le_run l) = Some (f r)" "pr_rows.keys_distinct t1" using upd(2,4) ok r(1) by simp_all
  have fail: "fail_run l code t = (Inr True, t1)" using u ok fits by (simp add: fail_run_def f_def)
  have "fst (claim_recoverable_run (le_run l) now later t1) = Inr (Some \<lparr>le_run = le_run l, le_no = le_no l + 1\<rparr>)" for now later
  proof -
    obtain k t2 where u2: "update_where (\<lambda>r. pr_id r = le_run l \<and> recoverable now r) (reclaim_run now later) t1 = (k, t2)" by fastforce
    have g: "pr_id (reclaim_run now later r) = pr_id r" for r by (simp add: reclaim_run_def)
    note upd2 = pr_rows.update_one [OF g r1(2) u2]
    have "recoverable now (f r)" by (simp add: recoverable_def f_def)
    then have k: "k" using upd2(1) r1(1) by blast
    have "pr_rows.lookup t2 (le_run l) = Some (reclaim_run now later (f r))" using upd2(2) k r1(1) by simp
    moreover have "pr_id r = le_run l" using pr_rows.lookup_Some [OF r(1)] by simp
    ultimately show ?thesis using u2 k r(2) by (simp add: claim_recoverable_run_def pr_lookup_eq reclaim_run_def f_def holds_lease_def)
  qed
  then show thesis using that [OF fail, of "f r"] r1(1) by (simp add: pr_lookup_eq f_def leaves_lease_def)
qed

lemma run_leased_failed:
  fixes c w1
  defines "v \<equiv> jr_env c (jw_steps w1) w1"
  assumes "run_handler c q (Some l) (w\<lparr>jw_beat := None\<rparr>) = (Inl e, w1)" "jr_database c"
    and "fail_run l (upper (exn_name e)) (jw_runs v) = (y, t)"
  shows "run_leased c q (Some l) w = (Inl (case jw_beat v of Some b \<Rightarrow> b | None \<Rightarrow> (case y of Inl x \<Rightarrow> x | Inr _ \<Rightarrow> e)),
    v\<lparr>jw_runs := t, jw_steps := jw_steps w1 + 1\<rparr>)"
  using assms(2-4) unfolding v_def
  by (cases y) (auto simp: run_leased_def run_or_fail_def tryA_def bindA_def fail_durable_run_def run_statement_def ret_def throw_def
      split: option.splits)

text \<open>C21: When the handler of a leased execution or a check of its result raises, the whole execution, with its \<open>finally\<close> block, ends
  in one of these ways, by the state \<open>v\<close> in which its failure statement finds the tables. A worker that still holds the lease fails the
  row under the upper-case name of the exception, and the run can be claimed at any time under the next attempt number; if that
  name does not fit its column, the statement raises and the tables stay as they are; and a worker that has lost the lease changes no
  run. What is raised is the exception of the renewal task if that has ended with one, then the one of the statement, and otherwise
  the one of the handler.\<close>

theorem failed_execution_releases_run:
  fixes c l w1
  defines "v \<equiv> jr_env c (jw_steps w1) w1"
  defines "keeps_lease \<equiv> \<exists>r \<in> set (jw_runs v). pr_id r = le_run l \<and> holds_lease l r"
  assumes "run_handler c q (Some l) (w\<lparr>jw_beat := None\<rparr>) = (Inl e, w1)" "jr_database c" "distinct (map pr_id (jw_runs v))"
    and "run_leased c q (Some l) w = (x, w')"
  shows "(if keeps_lease \<and> column_fits 64 (Some (upper (exn_name e)))
      then (\<exists>r. select_one (\<lambda>r. pr_id r = le_run l) (jw_runs w') = Some r \<and> pr_status r = Run_failed \<and> pr_error r = Some (upper (exn_name e)))
        \<and> (\<forall>now later. fst (claim_recoverable_run (le_run l) now later (jw_runs w')) = Inr (Some \<lparr>le_run = le_run l, le_no = le_no l + 1\<rparr>))
      else jw_runs w' = jw_runs v)
    \<and> x = Inl (case jw_beat v of Some b \<Rightarrow> b
        | None \<Rightarrow> if keeps_lease \<and> \<not> column_fits 64 (Some (upper (exn_name e))) then database_error else e)"
proof -
  let ?code = "upper (exn_name e)"
  have d: "pr_rows.keys_distinct (jw_runs v)" using assms(5) by (simp add: pr_rows.keys_distinct_def)
  note run = run_leased_failed [OF assms(3,4), folded v_def] assms(6)
  consider (lost) "\<not> keeps_lease" | (long) "keeps_lease" "\<not> column_fits 64 (Some ?code)" | (recorded) "keeps_lease" "column_fits 64 (Some ?code)"
    by blast
  then show ?thesis
  proof cases
    case lost
    then have "fail_run l ?code (jw_runs v) = (Inr False, jw_runs v)" using fail_run_lost unfolding keeps_lease_def by blast
    from run(1) [OF this] show ?thesis using run(2) lost by (auto split: option.splits)
  next
    case long
    then have "fail_run l ?code (jw_runs v) = (Inl database_error, jw_runs v)"
      by (auto simp: fail_run_def update_where_def keeps_lease_def)
    from run(1) [OF this] show ?thesis using run(2) long by (auto split: option.splits)
  next
    case recorded
    obtain t r where t: "fail_run l ?code (jw_runs v) = (Inr True, t)" "select_one (\<lambda>r. pr_id r = le_run l) t = Some r"
      "pr_status r = Run_failed" "pr_error r = Some ?code" "leaves_lease l t"
      using fail_run_held [OF d _ recorded(2)] recorded(1) unfolding keeps_lease_def by blast
    from run(1) [OF t(1)] show ?thesis using run(2) recorded t(2-5) by (auto simp: leaves_lease_def split: option.splits)
  qed
qed

section \<open>Examples\<close>

definition demo_handler :: "exn option \<Rightarrow> ingest_request \<Rightarrow> uuid option \<Rightarrow> (nat runner_world, ingest_result) act" where
  "demo_handler beat q i w = (Inr (demo_result Run_succeeded), w\<lparr>jw_facts := jw_facts w + 1, jw_beat := beat\<rparr>)"

definition demo_runner :: "exn option \<Rightarrow> nat job_runner" where
  "demo_runner beat = \<lparr>jr_handler = demo_handler beat, jr_checkpointed = True, jr_database = True, jr_wait = 30, jr_poll = 10,
     jr_lease = 60, jr_sha = (\<lambda>s. ''k''), jr_fresh = (\<lambda>n. ''r1''), jr_env = (\<lambda>k w. w)\<rparr>"

definition demo_runner_world :: "provider_run list \<Rightarrow> nat runner_world" where
  "demo_runner_world t = \<lparr>jw_runs = t, jw_facts = 0, jw_now = 1, jw_mono = 100, jw_steps = 0, jw_ids = 0, jw_sleeps = [], jw_beat = None\<rparr>"

lemma demo_steady: "steady (demo_runner b)"
  by (simp add: steady_def demo_runner_def)

lemma demo_valid: "valid_result (demo_result Run_succeeded)"
  by (simp add: valid_result_def make_result_def demo_result_def strip_def is_space_def)

lemma demo_lawful: "lawful (demo_runner b)"
proof -
  have "run_ops run_exec [] t = ([], t)" for t by simp
  then show ?thesis using demo_valid unfolding lawful_def demo_runner_def demo_handler_def by (auto intro!: exI [of _ "[]"])
qed

definition demo_finished :: provider_run where
  "demo_finished = finish_run (demo_result Run_succeeded) (new_run demo_request ''k'' ''r1'' 1 61)"

lemma demo_execute:
  "execute (demo_runner b) demo_request (demo_runner_world [])
    = Some (case b of None \<Rightarrow> Inr (demo_result Run_succeeded) | Some e \<Rightarrow> Inl e,
        (demo_runner_world [demo_finished])\<lparr>jw_facts := 1, jw_steps := 2, jw_ids := 1, jw_beat := b\<rparr>)"
  by (cases b) (simp_all add: execute_def acquire_checkpointed_run_def bindO_def runO_def bindA_def wall_now_def new_id_def run_statement_def
      demo_runner_def demo_runner_world_def acquire_run_def insert_on_conflict_def canonical_json_checksum_def column_fits_def
      demo_request_def ulen_def run_leased_def run_or_fail_def tryA_def run_handler_def demo_handler_def demo_result_def
      complete_run_def update_where_def holds_lease_def new_run_def int4_fits_def demo_finished_def Let_def)

theorem waiting_for_a_run_ends_witness:
  "\<exists>r w' z. wait_or_reclaim_run (demo_runner None) ''r1'' (demo_runner_world []) = Some (r, w') \<and> sum_list z \<le> (30 :: int)"
  using waiting_for_a_run_ends [of "demo_runner None" "''r1''" "demo_runner_world []", OF _ demo_steady]
  by (auto simp: make_runner_def demo_runner_def)

theorem completed_request_is_replayed_witness:
  "\<exists>w3. \<forall>h. execute ((demo_runner None)\<lparr>jr_handler := h\<rparr>) demo_request (demo_runner_world [demo_finished])
     = Some (Inr (demo_result Run_succeeded), w3)"
proof -
  have "ir_status (demo_result Run_succeeded) \<in> {Run_succeeded, Run_partial}" by (simp add: demo_result_def)
  moreover have "jr_checkpointed (demo_runner None)" "jr_database (demo_runner None)" "wf_runs (jw_runs (demo_runner_world []))"
    by (simp_all add: demo_runner_def demo_runner_world_def wf_runs_def)
  moreover have "run_ops run_exec [] (jw_runs ((demo_runner_world [demo_finished])\<lparr>jw_facts := 1, jw_steps := 2, jw_ids := 1, jw_beat := None\<rparr>))
      = ([], jw_runs (demo_runner_world [demo_finished]))" by (simp add: demo_runner_world_def)
  ultimately show ?thesis
    using completed_request_is_replayed [OF demo_lawful _ _ _ demo_execute [of None, unfolded option.case]] by metis
qed

definition failing_runner :: "nat job_runner" where
  "failing_runner = (demo_runner None)\<lparr>jr_handler := \<lambda>q i w. (Inl ValueError, w)\<rparr>"

theorem failed_execution_releases_run_witness:
  "\<exists>w' r. run_leased failing_runner demo_request (Some \<lparr>le_run = ''r1'', le_no = 1\<rparr>) (demo_runner_world [demo_run]) = (Inl ValueError, w')
    \<and> select_one (\<lambda>r. pr_id r = ''r1'') (jw_runs w') = Some r \<and> pr_status r = Run_failed \<and> pr_error r = Some ''VALUEERROR''
    \<and> fst (claim_recoverable_run ''r1'' 1 2 (jw_runs w')) = Inr (Some \<lparr>le_run = ''r1'', le_no = 2\<rparr>)"
proof -
  let ?l = "\<lparr>le_run = ''r1'', le_no = 1\<rparr>" and ?w = "demo_runner_world [demo_run]"
  have u: "upper (exn_name ValueError) = ''VALUEERROR''" by code_simp
  have fits: "column_fits 64 (Some ''VALUEERROR'')" by code_simp
  have same: "?w\<lparr>jw_beat := None\<rparr> = ?w" by (simp add: demo_runner_world_def)
  have h: "run_handler failing_runner demo_request (Some ?l) (?w\<lparr>jw_beat := None\<rparr>) = (Inl ValueError, ?w)"
    unfolding same by (simp add: run_handler_def failing_runner_def demo_runner_def bindA_def)
  have db: "jr_database failing_runner" and env: "jr_env failing_runner k w = w" for k w
    by (simp_all add: failing_runner_def demo_runner_def)
  have w: "jw_runs ?w = [demo_run]" "jw_beat ?w = None" by (simp_all add: demo_runner_world_def)
  have row: "pr_id demo_run = ''r1''" "holds_lease ?l demo_run" by (simp_all add: demo_run_def new_run_def holds_lease_def)
  obtain x w' where run: "run_leased failing_runner demo_request (Some ?l) ?w = (x, w')" by fastforce
  have "distinct (map pr_id (jw_runs (jr_env failing_runner (jw_steps ?w) ?w)))" by (simp add: env w)
  from failed_execution_releases_run [OF h db this run, unfolded env w u] show ?thesis using run fits row by auto
qed

text \<open>When the renewal task has ended with an exception (a database error, say), the execution raises that exception although
  the run has been completed and its result stored: a worker reports a failure for a request that has succeeded.\<close>

theorem renewal_error_hides_completed_run:
  "\<exists>w'. execute (demo_runner (Some database_error)) demo_request (demo_runner_world []) = Some (Inl database_error, w')
     \<and> load_completed_result ''r1'' (jw_runs w') = (Inr (Some (demo_result Run_succeeded)), jw_runs w')"
proof -
  have "load_completed_result ''r1'' [demo_finished] = (Inr (Some (demo_result Run_succeeded)), [demo_finished])"
    using demo_valid by (simp add: load_completed_result_def select_one_def demo_finished_def finish_run_def new_run_def completed_def
        stored_result_def demo_result_def demo_request_def valid_result_def)
  then show ?thesis using demo_execute [of "Some database_error"] by (simp add: demo_runner_world_def)
qed

end
