(* ===== verification/Ingest_Handlers.thy ===== *)
theory Ingest_Handlers
  imports Ingestion_Checkpoint Job_Runner
begin

text \<open>
  The handlers that fetch one page from a provider and commit it: \<open>jobs/cn_baostock_ingestion.py\<close>,
  \<open>jobs/hk_xtquant_ingestion.py\<close>, \<open>jobs/us_twelve_data_ingestion.py\<close>, \<open>jobs/news_macro_ingestion.py\<close>
  and \<open>jobs/cn_hk_ingestion.py\<close>. A provider is a parameter (it has a state, and a fetch returns a page
  or raises), as is what the records of a page write into the fact tables. What \<open>JobRunner\<close> relies on
  is the locale \<open>checkpointed_handler\<close>, which every handler here interprets.
\<close>

section \<open>Pages and queries\<close>

record warning =
  wn_code :: string
  wn_message :: string
  wn_scope :: "string option"
  wn_details :: "(string \<times> json) list"

definition warning_json :: "warning \<Rightarrow> json" where
  "warning_json w = JObj [(''code'', JStr (wn_code w)), (''message'', JStr (wn_message w)), (''scope'', opt_str (wn_scope w)),
     (''details'', JObj (wn_details w))]"

text \<open>Of a record the handlers read its source id and its times; \<open>it_payload\<close> is its JSON dump.\<close>

record page_item =
  it_record :: string
  it_payload :: json
  it_trading :: date
  it_start :: instant
  it_end :: instant
  it_observed :: instant
  it_series :: string
  it_region :: region
  it_provider :: string
  it_unit :: string

record provider_page =
  pg_items :: "page_item list"
  pg_cursor :: "string option"
  pg_watermark :: "string option"
  pg_fetched :: instant
  pg_warnings :: "warning list"

text \<open>The queries with the fields the handlers fill in: instruments or region, window, \<open>as_of\<close>, cursor, limit.\<close>

datatype fetch_query =
    BarQuery "string list" instant instant instant "string option" int
  | MacroReleaseQuery region instant instant instant "string option" int
  | NewsQuery region instant instant instant "string option" int
  | MarketObservationQuery "region list" "string list" instant instant instant "string option"

fun make_query :: "fetch_query \<Rightarrow> exn + fetch_query" where
  "make_query (BarQuery ids s e as_of cursor limit) =
     (if ids \<noteq> [] \<and> length ids \<le> 100 \<and> 1 \<le> limit \<and> limit \<le> 5000 \<and> s < e
      then Inr (BarQuery (map strip ids) s e as_of (map_option strip cursor) limit) else Inl ValidationError)"
| "make_query (MacroReleaseQuery r s e as_of cursor limit) =
     (if 1 \<le> limit \<and> limit \<le> 1000 \<and> s < e then Inr (MacroReleaseQuery r s e as_of (map_option strip cursor) limit) else Inl ValidationError)"
| "make_query (NewsQuery r s e as_of cursor limit) =
     (if 1 \<le> limit \<and> limit \<le> 500 \<and> s < e then Inr (NewsQuery r s e as_of (map_option strip cursor) limit) else Inl ValidationError)"
| "make_query (MarketObservationQuery rs codes s e as_of cursor) =
     (if rs \<noteq> [] \<and> codes \<noteq> [] \<and> length codes \<le> 50 \<and> s < e
      then Inr (MarketObservationQuery rs (map strip codes) s e as_of (map_option strip cursor)) else Inl ValidationError)"

section \<open>A handler and its world\<close>

record ('p, 'f) handler_world =
  hw_db :: "'f ingest_db"
  hw_provider :: 'p
  hw_readings :: nat

text \<open>
  \<open>ih_write\<close> is what the records of a page write (instruments and bars, series and releases, ...)
  under the id of the run; \<open>ih_recovery\<close> is the provider used after an expired cursor.
\<close>

record ('p, 'f) ingest_handler =
  ih_role :: string
  ih_region :: region
  ih_provider_id :: string
  ih_pit :: bool
  ih_timeout :: int
  ih_instruments :: "string list"
  ih_recovery_instruments :: "string list"
  ih_fetch :: "fetch_query \<Rightarrow> instant \<Rightarrow> 'p \<Rightarrow> (exn + provider_page) \<times> 'p"
  ih_recovery :: "fetch_query \<Rightarrow> instant \<Rightarrow> 'p \<Rightarrow> (exn + provider_page) \<times> 'p"
  ih_write :: "uuid \<Rightarrow> provider_page \<Rightarrow> ('f, unit) act"
  ih_now :: "nat \<Rightarrow> instant"
  ih_sha :: "string \<Rightarrow> string"

definition page_size :: int where
  "page_size = 1000"

definition news_page_size :: int where
  "news_page_size = 500"

definition pit_clock_skew :: int where
  "pit_clock_skew = 5 * second_us"

definition read_clock :: "('p, 'f) ingest_handler \<Rightarrow> (('p, 'f) handler_world, instant) act" where
  "read_clock c w = (Inr (ih_now c (hw_readings w)), w\<lparr>hw_readings := hw_readings w + 1\<rparr>)"

definition on_db :: "('f ingest_db, 'a) act \<Rightarrow> (('p, 'f) handler_world, 'a) act" where
  "on_db m w = (case m (hw_db w) of (r, d) \<Rightarrow> (r, w\<lparr>hw_db := d\<rparr>))"

definition fetch :: "(fetch_query \<Rightarrow> instant \<Rightarrow> 'p \<Rightarrow> (exn + provider_page) \<times> 'p) \<Rightarrow> fetch_query \<Rightarrow> instant
    \<Rightarrow> (('p, 'f) handler_world, provider_page) act" where
  "fetch f q deadline = bindA (liftA (make_query q)) (\<lambda>q w. case f q deadline (hw_provider w) of (r, p) \<Rightarrow> (r, w\<lparr>hw_provider := p\<rparr>))"

section \<open>The steps the handlers share\<close>

text \<open>The live deadline of a request: its pinned \<open>as_of\<close> plus the request timeout and the allowed clock skew.\<close>

definition live_as_of :: "('p, 'f) ingest_handler \<Rightarrow> ingest_request \<Rightarrow> instant" where
  "live_as_of c q = iq_as_of q + ih_timeout c + pit_clock_skew"

definition reject_historical :: "('p, 'f) ingest_handler \<Rightarrow> ingest_request \<Rightarrow> uuid \<Rightarrow> instant \<Rightarrow> (('p, 'f) handler_world, unit) act" where
  "reject_historical c q i now = on_db (reject_unsupported_historical_pit i (ih_provider_id c) (ih_pit c) (iq_as_of q < now - pit_clock_skew))"

fun record_timestamps :: "('p, 'f) ingest_handler \<Rightarrow> uuid \<Rightarrow> string \<Rightarrow> (page_item \<Rightarrow> instant) \<Rightarrow> page_item list
    \<Rightarrow> (('p, 'f) handler_world, unit) act" where
  "record_timestamps c i zone at [] = ret ()"
| "record_timestamps c i zone at (x # xs) = bindA
     (on_db (record_raw_timestamp i (ih_provider_id c) (isodate (it_trading x)) zone (isoformat_utc (at x))))
     (\<lambda>_. record_timestamps c i zone at xs)"

text \<open>The fixture provider keeps the raw text and the zone of an observation by its record id.\<close>

fun record_fixture_timestamps :: "(string \<Rightarrow> string \<times> string) \<Rightarrow> ('p, 'f) ingest_handler \<Rightarrow> uuid \<Rightarrow> page_item list
    \<Rightarrow> (('p, 'f) handler_world, unit) act" where
  "record_fixture_timestamps raw_time c i [] = ret ()"
| "record_fixture_timestamps raw_time c i (x # xs) = bindA
     (on_db (record_raw_timestamp i (ih_provider_id c) (fst (raw_time (it_record x))) (snd (raw_time (it_record x))) (isoformat_utc (it_observed x))))
     (\<lambda>_. record_fixture_timestamps raw_time c i xs)"

definition quarantined :: "warning \<Rightarrow> bool" where
  "quarantined w \<longleftrightarrow> wn_code w = ''PROVIDER_RECORD_QUARANTINED''"

definition rejection_of :: "warning \<Rightarrow> (string \<times> json) option" where
  "rejection_of w = (case jget (wn_details w) ''rejection'' of
     JObj d \<Rightarrow> if quarantined w then (case (jget d ''error_code'', jget d ''redacted_payload'') of
         (JStr code, JObj payload) \<Rightarrow> Some (code, JObj payload) | _ \<Rightarrow> None) else None
   | _ \<Rightarrow> None)"

fun persist_rejections :: "('p, 'f) ingest_handler \<Rightarrow> uuid \<Rightarrow> warning list \<Rightarrow> (('p, 'f) handler_world, int) act" where
  "persist_rejections c i [] = ret 0"
| "persist_rejections c i (x # xs) = (case rejection_of x of
     None \<Rightarrow> persist_rejections c i xs
   | Some (code, payload) \<Rightarrow> bindA (on_db (record_rejection i (ih_provider_id c) code payload))
       (\<lambda>_. bindA (persist_rejections c i xs) (\<lambda>n. ret (n + 1))))"

definition count_quarantined :: "warning list \<Rightarrow> int" where
  "count_quarantined ws = int (length (filter quarantined ws))"

definition page_fingerprint :: "('p, 'f) ingest_handler \<Rightarrow> ingest_request \<Rightarrow> provider_page \<Rightarrow> string" where
  "page_fingerprint c q p = canonical_json_checksum (ih_sha c) (JObj [(''query'', request_payload q),
     (''source_watermark'', opt_str (pg_watermark p)), (''items'', JList (map it_payload (pg_items p)))])"

definition committed_page_of :: "('p, 'f) ingest_handler \<Rightarrow> ingest_request \<Rightarrow> ingest_request \<Rightarrow> provider_page \<Rightarrow> committed_page" where
  "committed_page_of c q fingerprinted p = \<lparr>cp_role = iq_role q, cp_dataset = iq_dataset q, cp_region = region_value (ih_region c),
     cp_fingerprint = page_fingerprint c fingerprinted p, cp_watermark = pg_watermark p, cp_cursor = pg_cursor p,
     cp_records = map it_record (pg_items p)\<rparr>"

definition commit :: "('p, 'f) ingest_handler \<Rightarrow> ingest_request \<Rightarrow> ingest_request \<Rightarrow> uuid \<Rightarrow> provider_page \<Rightarrow> (('p, 'f) handler_world, bool) act" where
  "commit c q fingerprinted i p = on_db (transaction (commit_page i (committed_page_of c q fingerprinted p) (ih_write c i p)))"

definition page_result :: "ingest_request \<Rightarrow> uuid \<Rightarrow> provider_page \<Rightarrow> instant \<Rightarrow> instant \<Rightarrow> int \<Rightarrow> bool \<Rightarrow> warning list \<Rightarrow> ingest_result" where
  "page_result q i p started finished rejected committed warnings = \<lparr>ir_run = i,
     ir_status = if rejected \<noteq> 0 then Run_partial else Run_succeeded, ir_role = iq_role q, ir_dataset = iq_dataset q,
     ir_started = started, ir_finished = finished, ir_fetched = int (length (pg_items p)) + rejected,
     ir_accepted = int (length (pg_items p)), ir_rejected = rejected,
     ir_inserted = if committed then int (length (pg_items p)) else 0, ir_updated = 0, ir_cursor = pg_cursor p,
     ir_watermark = pg_watermark p, ir_error = None, ir_retry_after = None, ir_warnings = map warning_json warnings\<rparr>"

section \<open>The handlers\<close>

definition validate_request :: "('p, 'f) ingest_handler \<Rightarrow> dataset \<Rightarrow> ingest_request \<Rightarrow> bool" where
  "validate_request c ds q \<longleftrightarrow> iq_role q = ih_role c \<and> iq_dataset q = ds \<and> set (iq_regions q) = {ih_region c}"

text \<open>Records of a page, its rejections, the commit and the result, for the handlers of bars.\<close>

definition store_bars :: "('p, 'f) ingest_handler \<Rightarrow> string \<Rightarrow> (page_item \<Rightarrow> instant) \<Rightarrow> ingest_request \<Rightarrow> ingest_request \<Rightarrow> uuid
    \<Rightarrow> instant \<Rightarrow> provider_page \<Rightarrow> warning list \<Rightarrow> (('p, 'f) handler_world, ingest_result) act" where
  "store_bars c zone at q fingerprinted i now p extra =
     bindA (record_timestamps c i zone at (pg_items p)) (\<lambda>_.
     bindA (persist_rejections c i (pg_warnings p)) (\<lambda>_.
     bindA (commit c q fingerprinted i p) (\<lambda>committed.
     bindA (read_clock c) (\<lambda>finished.
       liftA (make_result (page_result q i p now finished (count_quarantined (pg_warnings p)) committed (pg_warnings p @ extra)))))))"

definition bar_query :: "('p, 'f) ingest_handler \<Rightarrow> string list \<Rightarrow> ingest_request \<Rightarrow> string option \<Rightarrow> fetch_query" where
  "bar_query c instruments q cursor = BarQuery instruments (iq_start q) (iq_end q) (live_as_of c q) cursor page_size"

definition run_daily_bars :: "string \<Rightarrow> ('p, 'f) ingest_handler \<Rightarrow> ingest_request \<Rightarrow> uuid \<Rightarrow> (('p, 'f) handler_world, ingest_result) act" where
  "run_daily_bars zone c q i =
     (if \<not> validate_request c Bars q then throw ValueError
      else bindA (read_clock c) (\<lambda>now. bindA (reject_historical c q i now) (\<lambda>_.
        bindA (fetch (ih_fetch c) (bar_query c (ih_instruments c) q (iq_cursor q)) (now + ih_timeout c)) (\<lambda>p.
          store_bars c zone it_end q q i now p []))))"

definition run_baostock :: "('p, 'f) ingest_handler \<Rightarrow> ingest_request \<Rightarrow> uuid \<Rightarrow> (('p, 'f) handler_world, ingest_result) act" where
  "run_baostock = run_daily_bars ''Asia/Shanghai''"

definition run_xtquant :: "('p, 'f) ingest_handler \<Rightarrow> ingest_request \<Rightarrow> uuid \<Rightarrow> (('p, 'f) handler_world, ingest_result) act" where
  "run_xtquant = run_daily_bars ''Asia/Hong_Kong''"

text \<open>\<open>HkXtQuantIngestHandler.__init__\<close>: the selected instruments are some of the provider's, without repetition.\<close>

definition make_xtquant :: "string list \<Rightarrow> ('p, 'f) ingest_handler \<Rightarrow> exn + ('p, 'f) ingest_handler" where
  "make_xtquant known c =
     (if strip (ih_role c) = [] \<or> ih_instruments c = [] \<or> \<not> distinct (ih_instruments c) \<or> \<not> set (ih_instruments c) \<subseteq> set known
      then Inl ValueError else Inr (c\<lparr>ih_role := strip (ih_role c)\<rparr>))"

text \<open>\<open>ProviderCursorError\<close>.\<close>

definition cursor_error :: "exn \<Rightarrow> bool" where
  "cursor_error e = (case e of ProviderError name _ _ \<Rightarrow> name = ''ProviderCursorError'' | _ \<Rightarrow> False)"

definition recovery_mismatch :: exn where
  "recovery_mismatch = ProviderError ''ProviderCursorError'' ''CURSOR_RECOVERY_MISMATCH'' False"

definition recovery_warning :: "string \<Rightarrow> region \<Rightarrow> string \<Rightarrow> warning" where
  "recovery_warning msg r wm = \<lparr>wn_code = ''CURSOR_RECOVERED'', wn_message = msg, wn_scope = Some (region_value r),
     wn_details = [(''committed_watermark'', JStr wm)]\<rparr>"

text \<open>
  A fetch with recovery from an expired cursor: the committed watermark of the source gives the cursor
  to resume from, and the page of the recovery provider must carry that watermark. \<open>resume\<close> picks
  the cursor from what was committed, or gives up.
\<close>

definition fetch_recovering :: "('p, 'f) ingest_handler \<Rightarrow> string \<Rightarrow> (string option \<Rightarrow> string option option) \<Rightarrow> (string option \<Rightarrow> fetch_query)
    \<Rightarrow> (string option \<Rightarrow> fetch_query) \<Rightarrow> instant \<Rightarrow> ingest_request \<Rightarrow> (('p, 'f) handler_world, provider_page \<times> string option \<times> warning list) act" where
  "fetch_recovering c msg resume query recovery_query deadline q = tryA (fetch (ih_fetch c) (query (iq_cursor q)) deadline)
     (\<lambda>e. if \<not> cursor_error e then throw e
       else bindA (on_db (recover_committed_watermark (iq_role q, iq_dataset q, region_value (ih_region c)))) (\<lambda>(wm, cursor).
         case (wm, resume cursor) of
           (Some watermark, Some from_cursor) \<Rightarrow> bindA (fetch (ih_recovery c) (recovery_query from_cursor) deadline) (\<lambda>p.
             if pg_watermark p \<noteq> Some watermark then throw recovery_mismatch
             else ret (p, from_cursor, [recovery_warning msg (ih_region c) watermark]))
         | _ \<Rightarrow> throw e))
     (\<lambda>p. ret (p, iq_cursor q, []))"

definition run_twelve_data :: "('p, 'f) ingest_handler \<Rightarrow> ingest_request \<Rightarrow> uuid \<Rightarrow> (('p, 'f) handler_world, ingest_result) act" where
  "run_twelve_data c q i =
     (if \<not> validate_request c Bars q then throw ValueError
      else bindA (read_clock c) (\<lambda>now. bindA (reject_historical c q i now) (\<lambda>_.
        bindA (fetch_recovering c ''expired Twelve Data cursor resumed from committed checkpoint cursor''
            (\<lambda>cursor. map_option Some cursor) (bar_query c (ih_instruments c) q) (bar_query c (ih_recovery_instruments c) q) (now + ih_timeout c) q) (\<lambda>(p, cursor, extra).
          store_bars c ''America/New_York'' it_start q (q\<lparr>iq_cursor := cursor\<rparr>) i now p extra))))"

text \<open>Release calendars and news: the rejected records are the rejections that were stored.\<close>

definition store_page :: "('p, 'f) ingest_handler \<Rightarrow> ingest_request \<Rightarrow> uuid \<Rightarrow> instant \<Rightarrow> provider_page \<Rightarrow> (('p, 'f) handler_world, ingest_result) act" where
  "store_page c q i started p = bindA (persist_rejections c i (pg_warnings p)) (\<lambda>rejected.
     bindA (commit c q q i p) (\<lambda>committed.
     bindA (read_clock c) (\<lambda>finished.
       liftA (make_result (page_result q i p started finished rejected committed (pg_warnings p))))))"

definition run_macro_release :: "('p, 'f) ingest_handler \<Rightarrow> ingest_request \<Rightarrow> uuid \<Rightarrow> (('p, 'f) handler_world, ingest_result) act" where
  "run_macro_release c q i =
     (if \<not> validate_request c Macro_releases q then throw ValueError
      else bindA (read_clock c) (\<lambda>started. bindA (reject_historical c q i started) (\<lambda>_.
        bindA (fetch (ih_fetch c) (MacroReleaseQuery (ih_region c) (iq_start q) (iq_end q) (live_as_of c q) (iq_cursor q) page_size)
            (started + ih_timeout c)) (\<lambda>p. store_page c q i started p))))"

definition run_news :: "('p, 'f) ingest_handler \<Rightarrow> ingest_request \<Rightarrow> uuid \<Rightarrow> (('p, 'f) handler_world, ingest_result) act" where
  "run_news c q i =
     (if \<not> validate_request c News q then throw ValueError
      else bindA (read_clock c) (\<lambda>started. bindA (reject_historical c q i started) (\<lambda>_.
        bindA (fetch (ih_fetch c) (NewsQuery (ih_region c) (iq_start q) (iq_end q) (live_as_of c q) (iq_cursor q) news_page_size)
            (started + ih_timeout c)) (\<lambda>p. store_page c q i started p))))"

text \<open>The constructors of the two handlers check the capabilities of the provider.\<close>

definition make_capable_handler :: "dataset \<Rightarrow> dataset list \<Rightarrow> region list \<Rightarrow> ('p, 'f) ingest_handler \<Rightarrow> exn + ('p, 'f) ingest_handler" where
  "make_capable_handler ds datasets regions c =
     (if ih_timeout c \<le> 0 \<or> ds \<notin> set datasets \<or> ih_region c \<notin> set regions then Inl ValueError else Inr c)"

text \<open>The fixture handler of CN and HK: it resumes without a cursor and compares \<open>as_of\<close> with the clock without skew.\<close>

definition fixture_query :: "ingest_request \<Rightarrow> string option \<Rightarrow> fetch_query" where
  "fixture_query q cursor = MarketObservationQuery (iq_regions q) [''market.turnover''] (iq_start q) (iq_end q) (iq_as_of q) cursor"

definition run_fixture :: "region list \<Rightarrow> (string \<Rightarrow> string \<times> string) \<Rightarrow> ('p, 'f) ingest_handler \<Rightarrow> ingest_request \<Rightarrow> uuid
    \<Rightarrow> (('p, 'f) handler_world, ingest_result) act" where
  "run_fixture regions raw_time c q i =
     (if iq_dataset q \<noteq> Market_observations \<or> set (iq_regions q) \<noteq> set regions then throw ValueError
      else bindA (read_clock c) (\<lambda>now.
        bindA (on_db (reject_unsupported_historical_pit i (ih_provider_id c) (ih_pit c) (iq_as_of q < now))) (\<lambda>_.
        bindA (fetch_recovering c ''expired provider cursor resumed from committed watermark'' (\<lambda>_. Some None)
            (fixture_query q) (fixture_query q) (iq_end q) q) (\<lambda>(p, cursor, extra).
        bindA (record_fixture_timestamps raw_time c i (pg_items p)) (\<lambda>_.
        bindA (commit c q (q\<lparr>iq_cursor := cursor\<rparr>) i p) (\<lambda>committed.
        bindA (read_clock c) (\<lambda>finished.
          liftA (make_result (page_result q i p finished finished 0 committed extra)))))))))"

section \<open>What a page writes\<close>

fun write_all :: "('a \<Rightarrow> ('w, unit) act) \<Rightarrow> 'a list \<Rightarrow> ('w, unit) act" where
  "write_all f [] = ret ()"
| "write_all f (x # xs) = bindA (f x) (\<lambda>_. write_all f xs)"

definition write_bars :: "(provider_page \<Rightarrow> 'i list) \<Rightarrow> ('i \<Rightarrow> ('f, unit) act) \<Rightarrow> (page_item \<Rightarrow> ('f, unit) act) \<Rightarrow> provider_page \<Rightarrow> ('f, unit) act" where
  "write_bars instruments upsert_instrument upsert_bar p =
     bindA (write_all upsert_instrument (instruments p)) (\<lambda>_. write_all upsert_bar (pg_items p))"

record macro_series =
  ms_id :: string
  ms_region :: region
  ms_authority :: string
  ms_code :: string
  ms_name :: string
  ms_unit :: string

text \<open>\<open>s.rsplit(":", maxsplit=1)[-1]\<close>.\<close>

definition last_segment :: "string \<Rightarrow> string" where
  "last_segment s = rev (takeWhile (\<lambda>c. c \<noteq> CHR '':'') (rev s))"

definition release_calendar_series :: "page_item \<Rightarrow> macro_series" where
  "release_calendar_series x = \<lparr>ms_id = it_series x, ms_region = it_region x, ms_authority = it_provider x,
     ms_code = last_segment (it_series x), ms_name = region_value (it_region x) @ '' release calendar'', ms_unit = it_unit x\<rparr>"

text \<open>A dictionary comprehension by series id: the order of the first release of a series, the value of its last.\<close>

definition series_by_id :: "page_item list \<Rightarrow> macro_series list" where
  "series_by_id xs = map (\<lambda>i. release_calendar_series (last (filter (\<lambda>x. it_series x = i) xs))) (dedup (map it_series xs))"

definition write_releases :: "(macro_series \<Rightarrow> ('f, unit) act) \<Rightarrow> (page_item \<Rightarrow> ('f, unit) act) \<Rightarrow> provider_page \<Rightarrow> ('f, unit) act" where
  "write_releases upsert_series upsert_release p =
     bindA (write_all upsert_series (series_by_id (pg_items p))) (\<lambda>_. write_all upsert_release (pg_items p))"

definition write_news :: "(page_item \<Rightarrow> ('f, unit) act) \<Rightarrow> provider_page \<Rightarrow> ('f, unit) act" where
  "write_news upsert_news p = write_all upsert_news (pg_items p)"

section \<open>The contract between the runner and a handler\<close>

lemma dropWhile_space_strip: "dropWhile is_space (strip s) = strip s"
proof -
  define t where "t = dropWhile is_space s"
  have "strip s = [] \<or> \<not> is_space (hd (strip s))"
  proof (cases "strip s")
    case (Cons c cs)
    have "\<exists>u. t = strip s @ u"
      unfolding strip_def t_def [symmetric] by (metis rev_append rev_rev_ident takeWhile_dropWhile_id)
    then have "hd t = hd (strip s)" "t \<noteq> []" using Cons by auto
    then show ?thesis using hd_dropWhile [of is_space s] t_def by metis
  qed simp
  then show ?thesis by (cases "strip s") simp_all
qed

lemma strip_strip [simp]: "strip (strip s) = strip s"
proof -
  have "dropWhile is_space (rev (strip s)) = rev (strip s)" unfolding strip_def by simp
  then show ?thesis unfolding strip_def [of "strip s"] dropWhile_space_strip by simp
qed

lemma make_result_valid: "make_result r = Inr s \<Longrightarrow> valid_result s \<and> ir_run s = ir_run r \<and> ir_role s = strip (ir_role r) \<and> ir_dataset s = ir_dataset r"
  by (auto simp: make_result_def valid_result_def Let_def option.map_comp comp_def split: if_splits)

text \<open>The handler as the runner calls it: \<open>run_checkpointed\<close> under a run, \<open>run\<close> raises without one.\<close>

definition job_handler :: "(ingest_request \<Rightarrow> uuid \<Rightarrow> ('h, ingest_result) act) \<Rightarrow> ingest_request \<Rightarrow> uuid option
    \<Rightarrow> ('h runner_world, ingest_result) act" where
  "job_handler run q i w = (case i of
     None \<Rightarrow> (Inl RuntimeError, w)
   | Some i \<Rightarrow> (case run q i (jw_facts w) of (r, h) \<Rightarrow> (r, w\<lparr>jw_facts := h\<rparr>)))"

locale checkpointed_handler =
  fixes run :: "ingest_request \<Rightarrow> uuid \<Rightarrow> ('h, ingest_result) act"
  assumes run_result: "run q i w = (Inr res, w') \<Longrightarrow> valid_result res \<and> ir_run res = i \<and> ir_role res = strip (iq_role q)
    \<and> ir_dataset res = iq_dataset q"
begin

lemma handler_keeps_runs: "job_handler run q i w = (r, w') \<Longrightarrow> jw_runs w' = jw_runs w"
  by (auto simp: job_handler_def split: option.splits prod.splits)

lemma handler_result: "job_handler run q i w = (Inr res, w') \<Longrightarrow> valid_result res \<and> i = Some (ir_run res)
    \<and> ir_role res = strip (iq_role q) \<and> ir_dataset res = iq_dataset q"
  using run_result by (auto simp: job_handler_def split: option.splits prod.splits)

lemma runner_lawful:
  assumes "jr_handler c = job_handler run" "\<And>k w. \<exists>xs gs. run_ops run_exec xs (jw_runs w) = (gs, jw_runs (jr_env c k w))"
  shows "lawful c"
proof -
  have "run_ops run_exec [] t = ([], t)" for t by simp
  then show ?thesis using assms handler_keeps_runs handler_result unfolding lawful_def by metis
qed

text \<open>No execution fails because the result does not match its request or its run.\<close>

lemma runner_matches:
  assumes c: "jr_handler c = job_handler run" "jr_checkpointed c" "jr_database c" and q: "make_request q = q"
    and run: "run_handler c q (Some l) w = (r, w')"
  shows "(\<exists>e w1. run q (le_run l) (jw_facts w) = (Inl e, w1) \<and> r = Inl e)
    \<or> (\<exists>res w1. run q (le_run l) (jw_facts w) = (Inr res, w1) \<and> (r = Inr res \<or> r = Inl IngestionRunInProgressError
        \<or> (\<exists>e v. run_statement c (complete_run res l) v = (Inl e, w') \<and> r = Inl e)))"
proof (cases "run q (le_run l) (jw_facts w)")
  case (Pair x h)
  show ?thesis
  proof (cases x)
    case (Inl e)
    then show ?thesis using run c Pair by (auto simp: run_handler_def job_handler_def bindA_def)
  next
    case (Inr res)
    have "strip (iq_role q) = iq_role q" using q unfolding make_request_def by (metis ingest_request.select_convs(1) ingest_request.surjective ingest_request.update_convs(1,7))
    then have m: "ir_role res = iq_role q" "ir_dataset res = iq_dataset q" "ir_run res = le_run l"
      using run_result [OF Pair [unfolded Inr]] by simp_all
    have "bindA (run_statement c (complete_run res l)) (\<lambda>completed. if \<not> completed then throw IngestionRunInProgressError else ret res)
        (w\<lparr>jw_facts := h\<rparr>) = (r, w')"
      using run c Pair Inr m by (simp add: run_handler_def job_handler_def bindA_def)
    then show ?thesis using Pair Inr by (auto simp: bindA_eq split: if_splits)
  qed
qed

end

section \<open>Every handler meets the contract\<close>

definition good_result :: "ingest_request \<Rightarrow> uuid \<Rightarrow> exn + ingest_result \<Rightarrow> 'w \<Rightarrow> bool" where
  "good_result q i r w = (case r of Inl _ \<Rightarrow> True | Inr res \<Rightarrow> valid_result res \<and> ir_run res = i \<and> ir_role res = strip (iq_role q)
     \<and> ir_dataset res = iq_dataset q)"

lemma good_Inl [simp]: "good_result q i (Inl e) w"
  by (simp add: good_result_def)

lemma yields_page_result: "yields (good_result q i) (liftA (make_result (page_result q i p started finished rejected committed ws)))"
  by (auto simp: yields_def good_result_def page_result_def dest!: make_result_valid split: sum.splits)

lemma yields_prod: "(\<And>a b. yields P (f a b)) \<Longrightarrow> yields P (case x of (a, b) \<Rightarrow> f a b)"
  by (cases x) simp

lemmas handler_yields = yields_prod yields_control yields_page_result good_Inl

lemma daily_bars_contract: "yields (good_result q i) (run_daily_bars zone c q i)"
  unfolding run_daily_bars_def store_bars_def by (intro handler_yields)

lemma twelve_data_contract: "yields (good_result q i) (run_twelve_data c q i)"
  unfolding run_twelve_data_def store_bars_def by (intro handler_yields)

lemma macro_release_contract: "yields (good_result q i) (run_macro_release c q i)"
  unfolding run_macro_release_def store_page_def by (intro handler_yields)

lemma news_contract: "yields (good_result q i) (run_news c q i)"
  unfolding run_news_def store_page_def by (intro handler_yields)

lemma fixture_contract: "yields (good_result q i) (run_fixture regions raw_time c q i)"
  unfolding run_fixture_def by (intro handler_yields)

lemma good_result_contract: "(\<And>q i. yields (good_result q i) (run q i)) \<Longrightarrow> checkpointed_handler run"
  by unfold_locales (force dest: yieldsD simp: good_result_def)

interpretation baostock: checkpointed_handler "run_baostock c" for c :: "('p, 'f) ingest_handler"
  unfolding run_baostock_def by (rule good_result_contract) (rule daily_bars_contract)

interpretation xtquant: checkpointed_handler "run_xtquant c" for c :: "('p, 'f) ingest_handler"
  unfolding run_xtquant_def by (rule good_result_contract) (rule daily_bars_contract)

interpretation twelve_data: checkpointed_handler "run_twelve_data c" for c :: "('p, 'f) ingest_handler"
  by (rule good_result_contract) (rule twelve_data_contract)

interpretation macro_release: checkpointed_handler "run_macro_release c" for c :: "('p, 'f) ingest_handler"
  by (rule good_result_contract) (rule macro_release_contract)

interpretation news: checkpointed_handler "run_news c" for c :: "('p, 'f) ingest_handler"
  by (rule good_result_contract) (rule news_contract)

interpretation fixture: checkpointed_handler "run_fixture regions raw_time c" for c :: "('p, 'f) ingest_handler" and regions raw_time
  by (rule good_result_contract) (rule fixture_contract)

text \<open>C23: A live handler (BaoStock, XtQuant, Twelve Data, release calendar, news) run by the runner under a lease fails only with the
  exception of the handler itself, a lost lease, or an error of the completing statement: its result always matches the request
  and the run, so none of the runner's checks of the result ever raises.\<close>

theorem live_handlers_match_their_requests:
  assumes "run \<in> {run_baostock c, run_xtquant c, run_twelve_data c, run_macro_release c, run_news c}"
    and "jr_handler j = job_handler run" "jr_checkpointed j" "jr_database j" "make_request q = q"
    and "run_handler j q (Some l) w = (r, w')"
  shows "(\<exists>e w1. run q (le_run l) (jw_facts w) = (Inl e, w1) \<and> r = Inl e)
    \<or> (\<exists>res w1. run q (le_run l) (jw_facts w) = (Inr res, w1) \<and> (r = Inr res \<or> r = Inl IngestionRunInProgressError
        \<or> (\<exists>e v. run_statement j (complete_run res l) v = (Inl e, w') \<and> r = Inl e)))"
proof -
  have "checkpointed_handler run"
    using assms(1) baostock.checkpointed_handler_axioms xtquant.checkpointed_handler_axioms twelve_data.checkpointed_handler_axioms
      macro_release.checkpointed_handler_axioms news.checkpointed_handler_axioms by auto
  then show ?thesis using checkpointed_handler.runner_matches assms(2-6) by blast
qed

section \<open>What a handler fetches and commits\<close>

text \<open>A request whose pinned \<open>as_of\<close> lies further in the past than the clock skew, on a provider without history, is refused by
  every live handler before anything is fetched: the provider is not called, no page is committed and no fact is written; only
  the audit record of the refusal is stored.\<close>

theorem historical_requests_are_refused:
  assumes "run \<in> {run_baostock c, run_xtquant c, run_twelve_data c, run_macro_release c, run_news c}"
    and "\<not> ih_pit c" "iq_as_of q < ih_now c (hw_readings w) - pit_clock_skew"
    and "run q i w = (r, w')"
  shows "(r = Inl ValueError \<or> r = Inl unsupported_capability \<or> r = Inl data_error) \<and> hw_provider w' = hw_provider w
    \<and> ig_pages (hw_db w') = ig_pages (hw_db w) \<and> ig_marks (hw_db w') = ig_marks (hw_db w) \<and> ig_facts (hw_db w') = ig_facts (hw_db w)
    \<and> (r = Inl unsupported_capability \<longrightarrow> ig_audits (hw_db w') = ig_audits (hw_db w) @ [\<lparr>au_run = i, au_provider = ih_provider_id c,
        au_kind = ''unsupported_historical_pit'', au_payload = JObj [(''supports_point_in_time'', JBool False)]\<rparr>])"
proof -
  define w1 where "w1 = w\<lparr>hw_readings := hw_readings w + 1\<rparr>"
  have rej: "\<exists>e d. reject_historical c q i (ih_now c (hw_readings w)) w1 = (Inl e, w1\<lparr>hw_db := d\<rparr>)
      \<and> (e = unsupported_capability \<and> d = (hw_db w)\<lparr>ig_audits := ig_audits (hw_db w) @ [\<lparr>au_run = i, au_provider = ih_provider_id c,
        au_kind = ''unsupported_historical_pit'', au_payload = JObj [(''supports_point_in_time'', JBool False)]\<rparr>]\<rparr>
      \<or> e = data_error \<and> d = hw_db w)"
  proof (cases "column_fits 64 (Some (ih_provider_id c)) \<and> column_fits 64 (Some ''unsupported_historical_pit'')")
    case True
    define d where "d = (hw_db w)\<lparr>ig_audits := ig_audits (hw_db w) @ [\<lparr>au_run = i, au_provider = ih_provider_id c,
        au_kind = ''unsupported_historical_pit'', au_payload = JObj [(''supports_point_in_time'', JBool False)]\<rparr>]\<rparr>"
    have "reject_historical c q i (ih_now c (hw_readings w)) w1 = (Inl unsupported_capability, w1\<lparr>hw_db := d\<rparr>)"
      using True assms(2,3) by (simp add: reject_historical_def on_db_def reject_unsupported_historical_pit_def bindA_def
        transaction_def add_audit_def w1_def d_def)
    then show ?thesis unfolding d_def by blast
  next
    case False
    then have "reject_historical c q i (ih_now c (hw_readings w)) w1 = (Inl data_error, w1\<lparr>hw_db := hw_db w\<rparr>)"
      using assms(2,3) by (auto simp: reject_historical_def on_db_def reject_unsupported_historical_pit_def bindA_def
        transaction_def add_audit_def w1_def)
    then show ?thesis by blast
  qed
  then obtain e d where e: "reject_historical c q i (ih_now c (hw_readings w)) w1 = (Inl e, w1\<lparr>hw_db := d\<rparr>)"
    "e = unsupported_capability \<and> d = (hw_db w)\<lparr>ig_audits := ig_audits (hw_db w) @ [\<lparr>au_run = i, au_provider = ih_provider_id c,
        au_kind = ''unsupported_historical_pit'', au_payload = JObj [(''supports_point_in_time'', JBool False)]\<rparr>]\<rparr>
      \<or> e = data_error \<and> d = hw_db w" by blast
  have "read_clock c w = (Inr (ih_now c (hw_readings w)), w1)" by (simp add: read_clock_def w1_def)
  then have "r = Inl ValueError \<and> w' = w \<or> r = Inl e \<and> w' = w1\<lparr>hw_db := d\<rparr>"
    using assms(1,4) e(1) by (auto simp: run_baostock_def run_xtquant_def run_daily_bars_def run_twelve_data_def run_macro_release_def
        run_news_def bindA_def split: if_splits)
  then show ?thesis using e(2) by (auto simp: w1_def data_error_def unsupported_capability_def)
qed

lemma record_timestamps_frame:
  "record_timestamps c i zone at xs w = (r, w') \<Longrightarrow> ig_pages (hw_db w') = ig_pages (hw_db w) \<and> ig_marks (hw_db w') = ig_marks (hw_db w)
    \<and> ig_facts (hw_db w') = ig_facts (hw_db w)"
  by (induction xs arbitrary: w)
    (auto simp: bindA_eq on_db_def record_raw_timestamp_def transaction_def add_audit_def split: prod.splits sum.splits if_splits)

lemma persist_rejections_frame:
  "persist_rejections c i ws w = (r, w') \<Longrightarrow> ig_pages (hw_db w') = ig_pages (hw_db w) \<and> ig_marks (hw_db w') = ig_marks (hw_db w)
    \<and> ig_facts (hw_db w') = ig_facts (hw_db w)"
proof (induction ws arbitrary: w r w')
  case (Cons x ws)
  show ?case
  proof (cases "rejection_of x")
    case None
    then show ?thesis using Cons by simp
  next
    case (Some y)
    obtain code payload where y: "y = (code, payload)" by fastforce
    obtain s w1 where s: "on_db (record_rejection i (ih_provider_id c) code payload) w = (s, w1)" by fastforce
    have k: "ig_pages (hw_db w1) = ig_pages (hw_db w) \<and> ig_marks (hw_db w1) = ig_marks (hw_db w) \<and> ig_facts (hw_db w1) = ig_facts (hw_db w)"
      using s by (auto simp: on_db_def record_rejection_def transaction_def add_rejection_def split: if_splits)
    obtain s2 w2 where s2: "persist_rejections c i ws w1 = (s2, w2)" by fastforce
    have "w' = w1 \<or> w' = w2" using Cons.prems Some y s s2 by (auto simp: bindA_def split: sum.splits prod.splits)
    then show ?thesis using k Cons.IH [OF s2] by auto
  qed
qed simp

lemma fetch_db: "fetch f q deadline w = (r, w') \<Longrightarrow> hw_db w' = hw_db w"
  by (cases "make_query q") (auto simp: fetch_def bindA_def split: prod.splits)

lemma fetch_recovering_result:
  assumes "fetch_recovering c msg resume query rq deadline q w = (Inr (p, cursor, extra), w')"
    and "fetch (ih_fetch c) (query (iq_cursor q)) deadline w = (Inl e, w1)"
  shows "cursor_error e \<and> (\<exists>wm cu from_cursor. load_watermark (iq_role q, iq_dataset q, region_value (ih_region c)) (hw_db w) = (Inr (Some wm, cu), hw_db w)
    \<and> resume cu = Some from_cursor \<and> cursor = from_cursor \<and> pg_watermark p = Some wm \<and> extra = [recovery_warning msg (ih_region c) wm])
    \<and> hw_db w' = hw_db w"
proof -
  have db: "hw_db w1 = hw_db w" by (rule fetch_db [OF assms(2)])
  define k where "k = (iq_role q, iq_dataset q, region_value (ih_region c))"
  obtain wm cu where m: "load_watermark k (hw_db w) = (Inr (wm, cu), hw_db w)"
    by (cases "fst (load_watermark k (hw_db w))") (auto simp: load_watermark_def)
  have ce: "cursor_error e" using assms by (auto simp: fetch_recovering_def tryA_def split: if_splits)
  have "(case (wm, resume cu) of (Some watermark, Some from_cursor) \<Rightarrow> bindA (fetch (ih_recovery c) (rq from_cursor) deadline) (\<lambda>p.
             if pg_watermark p \<noteq> Some watermark then throw recovery_mismatch
             else ret (p, from_cursor, [recovery_warning msg (ih_region c) watermark]))
         | _ \<Rightarrow> throw e) w1 = (Inr (p, cursor, extra), w')"
    using assms ce m db by (simp add: fetch_recovering_def tryA_def bindA_def [of "on_db _"] on_db_def recover_committed_watermark_def k_def [symmetric])
      (cases w1, simp)
  then show ?thesis using ce m db unfolding k_def
    by (auto simp: bindA_eq dest!: fetch_db split: option.splits if_splits)
qed

text \<open>When the fetch of a Twelve Data request raised and the handler nevertheless returned a result, the error was an expired
  cursor, the source had a committed watermark with a cursor, the page that was committed carries exactly that watermark, and the
  result carries the warning of the recovery.\<close>

theorem recovered_page_continues_committed_watermark:
  assumes "run_twelve_data c q i w = (Inr res, w')"
    and "reject_historical c q i (ih_now c (hw_readings w)) (w\<lparr>hw_readings := hw_readings w + 1\<rparr>) = (Inr (), w1)"
    and "fetch (ih_fetch c) (bar_query c (ih_instruments c) q (iq_cursor q)) (ih_now c (hw_readings w) + ih_timeout c) w1 = (Inl e, w2)"
  shows "cursor_error e \<and> (\<exists>wm cu. load_watermark (iq_role q, iq_dataset q, region_value (ih_region c)) (hw_db w1) = (Inr (Some wm, Some cu), hw_db w1)
    \<and> ir_watermark res = Some (strip wm)
    \<and> warning_json (recovery_warning ''expired Twelve Data cursor resumed from committed checkpoint cursor'' (ih_region c) wm) \<in> set (ir_warnings res))"
proof -
  define msg where "msg = ''expired Twelve Data cursor resumed from committed checkpoint cursor''"
  define D where "D = ih_now c (hw_readings w) + ih_timeout c"
  have "read_clock c w = (Inr (ih_now c (hw_readings w)), w\<lparr>hw_readings := hw_readings w + 1\<rparr>)" by (simp add: read_clock_def)
  then have run: "bindA (fetch_recovering c msg (\<lambda>cursor. map_option Some cursor) (bar_query c (ih_instruments c) q)
        (bar_query c (ih_recovery_instruments c) q) D q) (\<lambda>(p, cursor, extra).
        store_bars c ''America/New_York'' it_start q (q\<lparr>iq_cursor := cursor\<rparr>) i (ih_now c (hw_readings w)) p extra) w1 = (Inr res, w')"
    using assms(1,2) by (auto simp: run_twelve_data_def bindA_def msg_def D_def split: if_splits)
  then obtain p cursor extra w3 where f: "fetch_recovering c msg (\<lambda>cursor. map_option Some cursor) (bar_query c (ih_instruments c) q)
        (bar_query c (ih_recovery_instruments c) q) D q w1 = (Inr (p, cursor, extra), w3)"
    and s: "store_bars c ''America/New_York'' it_start q (q\<lparr>iq_cursor := cursor\<rparr>) i (ih_now c (hw_readings w)) p extra w3 = (Inr res, w')"
    unfolding bindA_eq by fastforce
  note rec = fetch_recovering_result [OF f assms(3) [folded D_def]]
  obtain rejected committed finished where "make_result (page_result q i p (ih_now c (hw_readings w)) finished rejected committed (pg_warnings p @ extra)) = Inr res"
    using s by (auto simp: store_bars_def bindA_eq)
  then have "ir_watermark res = map_option strip (pg_watermark p)" "ir_warnings res = map warning_json (pg_warnings p @ extra)"
    by (auto simp: make_result_def page_result_def Let_def split: if_splits)
  then show ?thesis using rec unfolding msg_def by auto
qed

section \<open>Examples\<close>

definition demo_ingest_page :: "string \<Rightarrow> provider_page" where
  "demo_ingest_page wm = \<lparr>pg_items = [], pg_cursor = None, pg_watermark = Some wm, pg_fetched = 1, pg_warnings = []\<rparr>"

text \<open>A provider that counts its calls; its cursors have expired, the recovery provider serves a page.\<close>

definition demo_ingest :: "bool \<Rightarrow> (nat, string list) ingest_handler" where
  "demo_ingest pit = \<lparr>ih_role = ''us.market.primary'', ih_region = US, ih_provider_id = ''us'', ih_pit = pit, ih_timeout = 10,
     ih_instruments = [''spx''], ih_recovery_instruments = [''spx''],
     ih_fetch = (\<lambda>q d n. (Inl (ProviderError ''ProviderCursorError'' ''PROVIDER_CURSOR_INVALID'' False), n + 1)),
     ih_recovery = (\<lambda>q d n. (Inr (demo_ingest_page ''w1''), n + 1)), ih_write = (\<lambda>i p. ret ()), ih_now = (\<lambda>k. 100000000),
     ih_sha = (\<lambda>s. ''f'')\<rparr>"

definition demo_us_request :: "instant \<Rightarrow> ingest_request" where
  "demo_us_request as_of = \<lparr>iq_role = ''us.market.primary'', iq_dataset = Bars, iq_regions = [US], iq_start = 0, iq_end = 5, iq_as_of = as_of,
     iq_cursor = Some ''c0'', iq_dry_run = False, iq_force = False\<rparr>"

definition demo_ingest_world :: "(nat, string list) handler_world" where
  "demo_ingest_world = \<lparr>hw_db = empty_ingest\<lparr>ig_marks := [new_mark (''us.market.primary'', Bars, ''US'') (Some ''w1'') (Some ''c1'')]\<rparr>,
     hw_provider = 0, hw_readings = 0\<rparr>"

theorem historical_requests_are_refused_witness:
  "\<exists>r w'. run_twelve_data (demo_ingest False) (demo_us_request 0) ''r1'' demo_ingest_world = (r, w') \<and> hw_provider w' = 0"
proof -
  obtain r w' where run: "run_twelve_data (demo_ingest False) (demo_us_request 0) ''r1'' demo_ingest_world = (r, w')" by fastforce
  show ?thesis
    using historical_requests_are_refused [of "run_twelve_data (demo_ingest False)" "demo_ingest False" "demo_us_request 0"
        demo_ingest_world "''r1''" r w'] run
    by (simp add: demo_ingest_def demo_us_request_def demo_ingest_world_def pit_clock_skew_def second_us_def)
qed

lemma demo_strip: "strip ''us.market.primary'' = ''us.market.primary''" "strip ''c0'' = ''c0''" "strip ''c1'' = ''c1''"
    "strip ''spx'' = ''spx''" "strip ''w1'' = ''w1''"
  by code_simp+

lemma demo_request_contract: "make_request (demo_us_request n) = demo_us_request n"
  by (simp add: make_request_def demo_us_request_def demo_strip)

definition demo_us_result :: ingest_result where
  "demo_us_result = \<lparr>ir_run = ''r1'', ir_status = Run_succeeded, ir_role = ''us.market.primary'', ir_dataset = Bars, ir_started = 100000000,
     ir_finished = 100000000, ir_fetched = 0, ir_accepted = 0, ir_rejected = 0, ir_inserted = 0, ir_updated = 0, ir_cursor = None,
     ir_watermark = Some ''w1'', ir_error = None, ir_retry_after = None,
     ir_warnings = [warning_json (recovery_warning ''expired Twelve Data cursor resumed from committed checkpoint cursor'' US ''w1'')]\<rparr>"

lemma demo_fetch:
  "fetch_recovering (demo_ingest True) msg (\<lambda>cursor. map_option Some cursor) (bar_query (demo_ingest True) [''spx''] (demo_us_request 0))
      (bar_query (demo_ingest True) [''spx''] (demo_us_request 0)) D (demo_us_request 0) (demo_ingest_world\<lparr>hw_readings := 1\<rparr>)
    = (Inr (demo_ingest_page ''w1'', Some ''c1'', [recovery_warning msg US ''w1'']), demo_ingest_world\<lparr>hw_readings := 1, hw_provider := 2\<rparr>)"
  by (simp add: fetch_recovering_def tryA_def fetch_def bindA_def bar_query_def demo_us_request_def page_size_def demo_ingest_def
      demo_ingest_world_def cursor_error_def on_db_def recover_committed_watermark_def load_watermark_def empty_ingest_def select_one_def
      demo_ingest_page_def live_as_of_def)

lemma demo_commit_us:
  "\<exists>w'. commit (demo_ingest True) (demo_us_request 0) q ''r1'' (demo_ingest_page ''w1'') (demo_ingest_world\<lparr>hw_readings := 1, hw_provider := 2\<rparr>)
    = (Inr True, w')"
  by (simp add: commit_def on_db_def transaction_def commit_page_def bindA_def reserve_page_def insert_on_conflict_def demo_ingest_world_def
      empty_ingest_def page_fits_def column_fits_def ulen_def committed_page_of_def demo_us_request_def demo_ingest_def on_facts_def
      save_watermark_def page_fingerprint_def canonical_json_checksum_def)

lemma demo_twelve_data: "\<exists>w'. run_twelve_data (demo_ingest True) (demo_us_request 0) ''r1'' demo_ingest_world = (Inr demo_us_result, w')"
proof -
  define q where "q = (demo_us_request 0)\<lparr>iq_cursor := Some ''c1''\<rparr>"
  obtain w1 where w1: "commit (demo_ingest True) (demo_us_request 0) q ''r1'' (demo_ingest_page ''w1'')
      (demo_ingest_world\<lparr>hw_readings := 1, hw_provider := 2\<rparr>) = (Inr True, w1)" using demo_commit_us by blast
  have v: "validate_request (demo_ingest True) Bars (demo_us_request 0)" by (simp add: validate_request_def demo_ingest_def demo_us_request_def)
  have "reject_historical (demo_ingest True) (demo_us_request 0) ''r1'' n w = (Inr (), w)" for n w
    by (simp add: reject_historical_def on_db_def reject_unsupported_historical_pit_def demo_ingest_def)
  moreover have "ih_instruments (demo_ingest True) = [''spx'']" "ih_recovery_instruments (demo_ingest True) = [''spx'']"
    by (simp_all add: demo_ingest_def)
  moreover have "read_clock (demo_ingest True) w = (Inr 100000000, w\<lparr>hw_readings := hw_readings w + 1\<rparr>)" for w
    by (simp add: read_clock_def demo_ingest_def)
  moreover have "make_result (page_result (demo_us_request 0) ''r1'' (demo_ingest_page ''w1'') 100000000 100000000 0 True
      [recovery_warning ''expired Twelve Data cursor resumed from committed checkpoint cursor'' US ''w1'']) = Inr demo_us_result"
    by (simp add: make_result_def page_result_def demo_us_request_def demo_ingest_page_def demo_us_result_def demo_strip)
  ultimately show ?thesis using v w1 demo_fetch
    by (simp add: run_twelve_data_def bindA_def store_bars_def count_quarantined_def demo_ingest_page_def q_def demo_ingest_world_def)
qed

theorem recovered_page_continues_committed_watermark_witness:
  "\<exists>cu. load_watermark (''us.market.primary'', Bars, ''US'') (hw_db demo_ingest_world) = (Inr (Some ''w1'', Some cu), hw_db demo_ingest_world)"
proof -
  obtain w' where run: "run_twelve_data (demo_ingest True) (demo_us_request 0) ''r1'' demo_ingest_world = (Inr demo_us_result, w')"
    using demo_twelve_data by blast
  have a: "reject_historical (demo_ingest True) (demo_us_request 0) ''r1'' n w = (Inr (), w)" for n w
    by (simp add: reject_historical_def on_db_def reject_unsupported_historical_pit_def demo_ingest_def)
  have b: "\<exists>e w2. fetch (ih_fetch (demo_ingest True)) (bar_query (demo_ingest True) (ih_instruments (demo_ingest True)) (demo_us_request 0)
      (iq_cursor (demo_us_request 0))) D w = (Inl e, w2)" for D and w :: "(nat, string list) handler_world"
    by (simp add: fetch_def bindA_def bar_query_def demo_us_request_def page_size_def demo_ingest_def live_as_of_def)
  then obtain e w2 where f: "fetch (ih_fetch (demo_ingest True)) (bar_query (demo_ingest True) (ih_instruments (demo_ingest True)) (demo_us_request 0)
      (iq_cursor (demo_us_request 0))) (ih_now (demo_ingest True) (hw_readings demo_ingest_world) + ih_timeout (demo_ingest True))
      (demo_ingest_world\<lparr>hw_readings := hw_readings demo_ingest_world + 1\<rparr>) = (Inl e, w2)" by blast
  obtain wm cu where "load_watermark (''us.market.primary'', Bars, ''US'') (hw_db demo_ingest_world) = (Inr (Some wm, Some cu), hw_db demo_ingest_world)"
    using recovered_page_continues_committed_watermark [OF run a f] by (auto simp: demo_us_request_def demo_ingest_def)
  then show ?thesis by (simp add: load_watermark_def demo_ingest_world_def empty_ingest_def select_one_def)
qed

definition demo_job :: "(nat, string list) handler_world job_runner" where
  "demo_job = \<lparr>jr_handler = job_handler (run_twelve_data (demo_ingest True)), jr_checkpointed = True, jr_database = True, jr_wait = 30,
     jr_poll = 10, jr_lease = 60, jr_sha = (\<lambda>s. ''k''), jr_fresh = (\<lambda>n. ''r1''), jr_env = (\<lambda>k w. w)\<rparr>"

definition demo_job_world :: "(nat, string list) handler_world runner_world" where
  "demo_job_world = \<lparr>jw_runs = [], jw_facts = demo_ingest_world, jw_now = 1, jw_mono = 1, jw_steps = 0, jw_ids = 0, jw_sleeps = [], jw_beat = None\<rparr>"

text \<open>Here the table holds no run, so the completing statement finds the lease lost.\<close>

theorem live_handlers_match_their_requests_witness:
  "\<exists>r w'. run_handler demo_job (demo_us_request 0) (Some \<lparr>le_run = ''r1'', le_no = 1\<rparr>) demo_job_world = (r, w')
    \<and> (r = Inr demo_us_result \<or> r = Inl IngestionRunInProgressError \<or> r = Inl database_error)"
proof -
  obtain r w' where run: "run_handler demo_job (demo_us_request 0) (Some \<lparr>le_run = ''r1'', le_no = 1\<rparr>) demo_job_world = (r, w')" by fastforce
  obtain w1 where td: "run_twelve_data (demo_ingest True) (demo_us_request 0) ''r1'' demo_ingest_world = (Inr demo_us_result, w1)"
    using demo_twelve_data by blast
  have e: "run_statement demo_job (complete_run demo_us_result l) v = (Inl x, w2) \<Longrightarrow> x = database_error" for l v x w2
    by (auto simp: run_statement_def complete_run_def Let_def split: prod.splits if_splits)
  have "jr_handler demo_job = job_handler (run_twelve_data (demo_ingest True))" "jr_checkpointed demo_job" "jr_database demo_job"
    by (simp_all add: demo_job_def)
  then show ?thesis
    using live_handlers_match_their_requests [OF _ _ _ _ demo_request_contract run, of "run_twelve_data (demo_ingest True)" "demo_ingest True"]
      td e run by (auto simp: demo_job_world_def)
qed

end
