(* ===== verification/Report_Pipeline.thy ===== *)
theory Report_Pipeline
  imports Daily_Workflow
begin

text \<open>
  The daily workflow on the services it is built from (\<open>run_scheduler\<close> of \<open>jobs/scheduled_runtime.py\<close> and
  \<open>PostgresReportGenerationStore\<close> of \<open>services/daily_workflow.py\<close>): one database of reports shared by the
  generation and the delivery service, the alert service with its own table, and a clock. What holds of
  every state the pipeline can reach is proved here: a date is delivered once, and what is delivered is an
  approved report.
\<close>

section \<open>The composed world\<close>

record ('l, 't, 'a) pipeline_world =
  pw_reports :: "'l generation_world"
  pw_delivery :: "'t delivery_world"
  pw_alerts :: "'a alert_world"
  pw_now :: instant

record workflow_config =
  wc_model :: string
  wc_version :: string
  wc_parameters :: "(string \<times> json) list"
  wc_zone :: zone
  wc_hour :: int
  wc_minute :: int
  wc_uuid5 :: "string \<Rightarrow> uuid"

record ('l, 't, 'a) pipeline =
  pi_generation :: "'l generation_service"
  pi_delivery :: "'t delivery_service"
  pi_chat :: string
  pi_alerts :: "'a alert_service"
  pi_alert_chat :: string
  pi_config :: workflow_config

definition on_reports :: "('l generation_world, 'b) act \<Rightarrow> (('l, 't, 'a) pipeline_world, 'b) act" where
  "on_reports m w = (case m (pw_reports w) of (r, g) \<Rightarrow> (r, w\<lparr>pw_reports := g\<rparr>))"

text \<open>The delivery service works on the tables of the reports.\<close>

definition delivery_view :: "('l, 't, 'a) pipeline_world \<Rightarrow> 't delivery_world" where
  "delivery_view w = (pw_delivery w)\<lparr>dw_db := gw_db (pw_reports w)\<rparr>"

definition on_delivery :: "('t delivery_world, 'b) act \<Rightarrow> (('l, 't, 'a) pipeline_world, 'b) act" where
  "on_delivery m w = (case m (delivery_view w) of
     (r, d) \<Rightarrow> (r, w\<lparr>pw_delivery := d, pw_reports := (pw_reports w)\<lparr>gw_db := dw_db d\<rparr>\<rparr>))"

definition on_alert :: "('a alert_world, 'b) act \<Rightarrow> (('l, 't, 'a) pipeline_world, 'b) act" where
  "on_alert m w = (case m (pw_alerts w) of (r, a) \<Rightarrow> (r, w\<lparr>pw_alerts := a\<rparr>))"

definition pipeline_now :: "(('l, 't, 'a) pipeline_world, instant) act" where
  "pipeline_now w = (Inr (pw_now w), w)"

definition pipeline_sleep :: "int \<Rightarrow> (('l, 't, 'a) pipeline_world, unit) act" where
  "pipeline_sleep d w = (Inr (), w\<lparr>pw_now := pw_now w + d\<rparr>)"

text \<open>\<open>PostgresReportGenerationStore\<close>: every method is one transaction of the report repository.\<close>

definition report_store_call :: "('l, 't, 'a) pipeline \<Rightarrow> (report_db, 'b) act \<Rightarrow> (('l, 't, 'a) pipeline_world, 'b) act" where
  "report_store_call p m = on_reports (report_call (gs_contract (pi_generation p)) m)"

definition workflow_of :: "('l, 't, 'a) pipeline \<Rightarrow> ('l, 't, 'a) pipeline_world daily_workflow" where
  "workflow_of p = (let c = pi_config p; g = pi_generation p in
     \<lparr>fw_load_report = (\<lambda>i. report_store_call p (load_report (cx_aware (gs_contract g)) i)),
      fw_load_generation = (\<lambda>i. report_store_call p (load_generation_attempt i)),
      fw_generate = (\<lambda>s i v m ps. on_reports (generate_report g s i v m ps)),
      fw_deliver = (\<lambda>i. on_delivery (deliver (pi_delivery p) i (pi_chat p) False)),
      fw_alert = (\<lambda>a. on_alert (deliver_alert (pi_alerts p) a (pi_alert_chat p))),
      fw_now = pipeline_now, fw_sleep = pipeline_sleep,
      fw_model = wc_model c, fw_version = wc_version c, fw_parameters = wc_parameters c,
      fw_zone = wc_zone c, fw_hour = wc_hour c, fw_minute = wc_minute c, fw_uuid5 = wc_uuid5 c\<rparr>)"

text \<open>\<open>DeterministicFallbackLlm\<close>, and the constructor of the generation service around it.\<close>

definition fallback_llm :: "llm_request \<Rightarrow> ('l, (string \<times> json) list) act" where
  "fallback_llm q = throw LlmError"

definition build_generation_service :: "(llm_request \<Rightarrow> ('l, (string \<times> json) list) act) option \<Rightarrow> report_contract \<Rightarrow> (nat \<Rightarrow> instant)
    \<Rightarrow> (nat \<Rightarrow> uuid) \<Rightarrow> int \<Rightarrow> int \<Rightarrow> exn + 'l generation_service" where
  "build_generation_service llm c clock fresh timeout max_attempts = make_generation_service
     \<lparr>gs_contract = c, gs_llm = (case llm of Some f \<Rightarrow> f | None \<Rightarrow> fallback_llm), gs_clock = clock, gs_fresh = fresh,
      gs_timeout = timeout, gs_max_attempts = max_attempts\<rparr>"

section \<open>Runs of the pipeline\<close>

text \<open>
  What happens around the workflow of one date: the workflow completes a collected result, reports that its
  retries are exhausted or that the worker failed, and the materializer stores an input snapshot.
\<close>

datatype pipeline_op =
    Complete_date worker_result
  | Give_up worker_result
  | Report_failure worker_result string
  | Store_snapshot input_snapshot

fun pipeline_exec :: "('l, 't, 'a) pipeline \<Rightarrow> pipeline_op \<Rightarrow> ('l, 't, 'a) pipeline_world \<Rightarrow> ('l, 't, 'a) pipeline_world" where
  "pipeline_exec p (Complete_date r) w = snd (complete (workflow_of p) r w)"
| "pipeline_exec p (Give_up r) w = snd (retry_exhausted (workflow_of p) r w)"
| "pipeline_exec p (Report_failure r code) w = snd (unhandled_failure (workflow_of p) r code w)"
| "pipeline_exec p (Store_snapshot s) w = snd (report_store_call p (put_input_snapshot s) w)"

fun concerns :: "date \<Rightarrow> pipeline_op \<Rightarrow> bool" where
  "concerns d (Complete_date r) = (wr_date r = d)"
| "concerns d (Give_up r) = (wr_date r = d)"
| "concerns d (Report_failure r code) = (wr_date r = d)"
| "concerns d (Store_snapshot s) = True"

text \<open>The states a set of operations leads to.\<close>

inductive pipeline_reaches :: "('l, 't, 'a) pipeline \<Rightarrow> (pipeline_op \<Rightarrow> bool) \<Rightarrow> ('l, 't, 'a) pipeline_world \<Rightarrow> ('l, 't, 'a) pipeline_world \<Rightarrow> bool"
  for p P w0 where
  start: "pipeline_reaches p P w0 w0"
| step: "pipeline_reaches p P w0 w \<Longrightarrow> P x \<Longrightarrow> pipeline_reaches p P w0 (pipeline_exec p x w)"

code_pred pipeline_reaches .

lemma pipeline_invariant:
  assumes "pipeline_reaches p P w0 w" "I w0" "\<And>w x. I w \<Longrightarrow> P x \<Longrightarrow> I (pipeline_exec p x w)"
  shows "I w"
  using assms(1) by (induction rule: pipeline_reaches.induct) (use assms(2,3) in auto)

section \<open>What the generation leaves in the tables\<close>

text \<open>A stored report that is validated has what an approved report was finalized to.\<close>

definition approved_row :: "report_contract \<Rightarrow> stored_report \<Rightarrow> bool" where
  "approved_row c e \<longleftrightarrow> (sr_lifecycle e = Validated \<longrightarrow> (\<exists>f. approved_origin c f \<and> sr_id f = sr_id e \<and> sr_status f = sr_status e
     \<and> sr_decision f = sr_decision e \<and> sr_lifecycle f = Validated \<and> sr_payload f = sr_payload e))"

definition approved_rows :: "report_contract \<Rightarrow> report_db \<Rightarrow> bool" where
  "approved_rows c db \<longleftrightarrow> list_all (approved_row c) (db_reports db)"

text \<open>An operation on the reports: the deliveries stay, and what is validated stays approved.\<close>

definition keeps_reports :: "report_contract \<Rightarrow> report_db \<Rightarrow> report_db \<Rightarrow> bool" where
  "keeps_reports c db db' \<longleftrightarrow> db_deliveries db' = db_deliveries db \<and> (approved_rows c db \<longrightarrow> approved_rows c db')"

definition sound_step :: "report_contract \<Rightarrow> 'l generation_world \<Rightarrow> 'l generation_world \<Rightarrow> bool" where
  "sound_step c w w' \<longleftrightarrow> keeps_reports c (gw_db w) (gw_db w')"

lemma keeps_reports_refl [simp]: "keeps_reports c db db"
  by (simp add: keeps_reports_def)

lemma sound_step_rel [simp]: "reflp (sound_step c)" "transp (sound_step c)"
  by (auto simp: sound_step_def keeps_reports_def reflp_def transp_def)

lemmas sound_control = keeps_if keeps_option keeps_bindA [OF sound_step_rel(2)] keeps_tryA [OF sound_step_rel(2)]
  keeps_ret [OF sound_step_rel(1)] keeps_throw [OF sound_step_rel(1)] keeps_liftA [OF sound_step_rel(1)]

lemma keeps_bind_lift:
  assumes "reflp R" "\<And>a. r = Inr a \<Longrightarrow> keeps R (f a)"
  shows "keeps R (bindA (liftA r) f)"
  using assms by (cases r) (auto simp: keeps_def bindA_def reflp_def)

lemmas sound_lift = keeps_bind_lift [OF sound_step_rel(1)]

lemma sound_call:
  assumes "cx_env c = (\<lambda>_ db. db)" "\<And>db r db'. m db = (r, db') \<Longrightarrow> keeps_reports c db db'"
  shows "keeps (sound_step c) (report_call c m :: ('l generation_world, 'b) act)"
  using assms by (fastforce simp: keeps_def sound_step_def report_call_def transaction_def split: prod.splits sum.splits)

lemma sound_statements:
  "load_input_snapshot i db = (r1, db') \<Longrightarrow> keeps_reports c db db'"
  "put_generation_attempt a db = (r2, db') \<Longrightarrow> keeps_reports c db db'"
  "update_generation_attempt a db = (r3, db') \<Longrightarrow> keeps_reports c db db'"
  by (auto simp: load_input_snapshot_def put_generation_attempt_def update_generation_attempt_def keeps_reports_def approved_rows_def
      split: option.splits sum.splits if_splits prod.splits bool.splits)

lemma sound_put_report:
  assumes "approved_row c f" "put_report aware f db = (r, db')"
  shows "keeps_reports c db db'"
proof -
  have "db' = db \<or> db_reports db' = db_reports db @ [f] \<and> db_deliveries db' = db_deliveries db"
    using assms(2) by (auto simp: put_report_def bindA_eq load_input_snapshot_def insert_report_def
        split: option.splits sum.splits if_splits)
  then show ?thesis using assms(1) by (auto simp: keeps_reports_def approved_rows_def)
qed

lemma sound_update_validation:
  assumes "sr_lifecycle f = Validated \<Longrightarrow> approved_origin c f" "update_report_validation f expected db = (r, db')"
  shows "keeps_reports c db db'"
proof -
  have "db_deliveries db' = db_deliveries db"
    and rows: "db_reports db' = map (\<lambda>e. if sr_id e = sr_id f \<and> sr_lifecycle e = expected
        then e\<lparr>sr_status := sr_status f, sr_decision := sr_decision f, sr_lifecycle := sr_lifecycle f, sr_errors := sr_errors f,
            sr_payload := sr_payload f\<rparr> else e) (db_reports db)"
    using assms(2) by (auto simp: update_report_validation_def update_where_def)
  moreover have "approved_row c (e\<lparr>sr_status := sr_status f, sr_decision := sr_decision f, sr_lifecycle := sr_lifecycle f,
      sr_errors := sr_errors f, sr_payload := sr_payload f\<rparr>)" if "sr_id e = sr_id f" for e
    using assms(1) that by (auto simp: approved_row_def intro!: exI [of _ f])
  ultimately show ?thesis by (auto simp: keeps_reports_def approved_rows_def list.pred_map list_all_iff)
qed

lemma sound_persist:
  assumes "cx_env c = (\<lambda>_ db. db)" "sr_lifecycle f = Validated \<Longrightarrow> approved_origin c f"
  shows "keeps (sound_step c) (persist_validation c candidate f :: ('l generation_world, bool) act)"
proof -
  have "approved_row c f" using assms(2) by (auto simp: approved_row_def)
  then show ?thesis unfolding persist_validation_def
    by (cases candidate) (auto intro: sound_call [OF assms(1)] sound_put_report sound_update_validation [OF assms(2)])
qed

lemma sound_validate_or_fallback:
  assumes "cx_env c = (\<lambda>_ db. db)" and order: "\<And>ids. set (cx_order c ids) = set ids"
  shows "keeps (sound_step c) (validate_or_fallback c snapshot_id report_id version t candidate i :: ('l generation_world, validation_outcome) act)"
proof -
  have persist: "keeps (sound_step c) (persist_validation c candidate f :: ('l generation_world, bool) act)"
    if v: "validate c r s = Inr issues" "finalize_report r issues = Inr f" for r s issues f
  proof (rule sound_persist [OF assms(1)])
    note final = finalize_report_Inr [OF v(2)]
    assume "sr_lifecycle f = Validated"
    then have "publishable issues" "sr_status r \<noteq> ''incomplete''" using final(9) by (auto split: if_splits)
    then show "approved_origin c f" using validate_approved [OF order v(1)] v(2) final(6) by (auto simp: approved_origin_def)
  qed
  show ?thesis unfolding validate_or_fallback_def
    by (rule sound_control, rule sound_call [OF assms(1) sound_statements(1)])
      (auto intro!: sound_lift sound_control(1,2,5,6) keeps_bindA [OF sound_step_rel(2) persist])
qed


lemma sound_ports:
  "keeps (sound_step c) (call_llm g q)" "keeps (sound_step c) (generation_clock g)" "keeps (sound_step c) (new_generation_id g)"
  by (auto simp: keeps_def sound_step_def call_llm_def generation_clock_def new_generation_id_def split: prod.splits)

lemma sound_attempts:
  fixes g :: "'l generation_service"
  assumes "cx_env (gs_contract g) = (\<lambda>_ db. db)"
  shows "keeps (sound_step (gs_contract g)) (record_attempt g a)" "keeps (sound_step (gs_contract g)) (settle_attempt g x a)"
    "keeps (sound_step (gs_contract g)) (start_attempt g a)"
    "keeps (sound_step (gs_contract g)) (refuse_snapshot g s report_id version model parameters st)"
proof -
  note calls = sound_call [OF assms sound_statements(1)] sound_call [OF assms sound_statements(2)] sound_call [OF assms sound_statements(3)]
  show recorded: "keeps (sound_step (gs_contract g)) (record_attempt g a)" for a
    unfolding record_attempt_def by (rule calls)
  show "keeps (sound_step (gs_contract g)) (settle_attempt g x a)"
    unfolding settle_attempt_def by (intro sound_control recorded)
  show start: "keeps (sound_step (gs_contract g)) (start_attempt g a)" for a
    unfolding start_attempt_def by (intro sound_lift sound_control calls)
  show "keeps (sound_step (gs_contract g)) (refuse_snapshot g s report_id version model parameters st)"
    unfolding refuse_snapshot_def by (intro sound_control sound_ports start)
qed

lemma sound_store:
  fixes g :: "'l generation_service"
  assumes "cx_env (gs_contract g) = (\<lambda>_ db. db)" "\<And>ids. set (cx_order (gs_contract g) ids) = set ids"
  shows "keeps (sound_step (gs_contract g)) (store_candidate g s report_id version a x)"
    "keeps (sound_step (gs_contract g)) (store_fallback g s report_id version a)"
    "keeps (sound_step (gs_contract g)) (generated_payload g q s report_id)"
proof -
  note steps = sound_lift sound_control sound_ports sound_attempts [OF assms(1)]
  have valid: "keeps (sound_step (gs_contract g)) (validate_stored g s report_id version c i)" for c i
    unfolding validate_stored_def by (intro steps sound_validate_or_fallback [OF assms])
  have put: "keeps (sound_step (gs_contract g)) (report_call (gs_contract g) (put_report (cx_aware (gs_contract g)) f)
      :: ('l generation_world, bool) act)" if "candidate_report (gs_contract g) s report_id version payload t i = Inr f" for f payload t i
    using candidate_report_fields [OF that] by (intro sound_call [OF assms(1)] sound_put_report) (auto simp: approved_row_def)
  show "keeps (sound_step (gs_contract g)) (store_fallback g s report_id version a)"
    unfolding store_fallback_def by (intro steps valid)
  show "keeps (sound_step (gs_contract g)) (generated_payload g q s report_id)"
    unfolding generated_payload_def by (intro steps keeps_sum)
  obtain u v t where x: "x = (u, v, t)" using prod_cases3 by blast
  show "keeps (sound_step (gs_contract g)) (store_candidate g s report_id version a x)"
    unfolding x store_candidate_def prod.case by (intro steps keeps_prod valid put)
qed

lemma sound_generate:
  fixes g :: "'l generation_service"
  assumes "cx_env (gs_contract g) = (\<lambda>_ db. db)" "\<And>ids. set (cx_order (gs_contract g) ids) = set ids"
  shows "keeps (sound_step (gs_contract g)) (generate_report g snapshot_id report_id version model parameters)"
proof -
  note steps = sound_lift sound_control sound_ports sound_attempts [OF assms(1)] sound_store [OF assms]
  have attempts: "keeps (sound_step (gs_contract g)) (generate_attempts g s report_id version q k n a)" for s q k n a
    by (induction k arbitrary: n a) (auto simp: Let_def intro!: steps)
  show ?thesis unfolding generate_report_def
    by (intro steps attempts sound_call [OF assms(1) sound_statements(1)])
qed


section \<open>What the workflow keeps\<close>

lemma keeps_bind_post:
  assumes "transp R" "keeps R m" "yields Q m" "\<And>a w. Q (Inr a) w \<Longrightarrow> keeps R (f a)"
  shows "keeps R (bindA m f)"
proof (unfold keeps_def, rule allI)
  fix w
  obtain r w1 where m: "m w = (r, w1)" by fastforce
  then show "R w (snd (bindA m f w))"
    using assms(1,4) keepsD [OF assms(2) m] yieldsD [OF assms(3) m] by (cases r) (auto simp: bindA_def keeps_def dest: transpD)
qed

lemma keeps_try_post:
  assumes "transp R" "keeps R m" "yields Q m" "\<And>e. keeps R (h e)" "\<And>a w. Q (Inr a) w \<Longrightarrow> keeps R (f a)"
  shows "keeps R (tryA m h f)"
proof (unfold keeps_def, rule allI)
  fix w
  obtain r w1 where m: "m w = (r, w1)" by fastforce
  have "R w1 (snd (case r of Inl e \<Rightarrow> h e w1 | Inr a \<Rightarrow> f a w1))"
    using assms(4) assms(5) [of _ w1] yieldsD [OF assms(3) m] by (cases r) (auto simp: keeps_def)
  then show "R w (snd (tryA m h f w))"
    using transpD [OF assms(1) keepsD [OF assms(2) m]] m by (cases r) (auto simp: tryA_def)
qed

text \<open>What store, generation, delivery, alerts and clock keep, the workflow keeps; only the report of the date is delivered.\<close>

definition names_report :: "string \<Rightarrow> exn + stored_report option \<times> string option \<Rightarrow> 'w \<Rightarrow> bool" where
  "names_report i x w \<longleftrightarrow> (\<forall>f code. x = Inr (Some f, code) \<longrightarrow> sr_id f = i)"

lemma alert_terminal_keeps:
  "reflp R \<Longrightarrow> transp R \<Longrightarrow> (\<And>a. keeps R (fw_alert c a)) \<Longrightarrow> keeps R (alert_terminal c r stage code)"
  unfolding alert_terminal_def Let_def by (intro keeps_tryA keeps_ret)

lemma deliver_report_keeps:
  assumes "reflp R" "transp R" "\<And>a. keeps R (fw_alert c a)" "keeps R (fw_now c)" "\<And>d. keeps R (fw_sleep c d)"
    and "keeps R (fw_deliver c (sr_id f))"
  shows "keeps R (deliver_report c r f code)"
  unfolding deliver_report_def Let_def wait_until_publish_def
  by (intro keeps_bindA keeps_tryA keeps_if keeps_ret alert_terminal_keeps assms)

lemma complete_keeps:
  assumes "reflp R" "transp R" "\<And>a. keeps R (fw_alert c a)" "keeps R (fw_now c)" "\<And>d. keeps R (fw_sleep c d)"
    and "\<And>s. keeps R (obtain_report c s i)" "\<And>s. yields (names_report i) (obtain_report c s i)" "keeps R (fw_deliver c i)"
    and i: "i = daily_report_id (wr_date r) (fw_version c)"
  shows "keeps R (complete c r)"
proof -
  have alert: "keeps R (alert_terminal c x stage code)" for x stage code using assms(1-3) by (rule alert_terminal_keeps)
  have judge: "keeps R (judge_report c current i a)" if "names_report i (Inr a) w" for a w current
  proof -
    obtain found code where a: "a = (found, code)" by fastforce
    have "keeps R (deliver_report c current f code)" if "found = Some f" for f
      using \<open>names_report i (Inr a) w\<close> a that assms(8) by (intro deliver_report_keeps assms(1-5)) (simp add: names_report_def)
    then show ?thesis by (cases found) (auto simp: judge_report_def a intro!: alert)
  qed
  have "keeps R (tryA (obtain_report c s i) h (judge_report c current i))" if "\<And>e. keeps R (h e)" for s current h
    using judge by (rule keeps_try_post [OF assms(2,6,7) that])
  from this [OF alert] show ?thesis unfolding complete_def Let_def i [symmetric]
    by (intro keeps_if keeps_option keeps_ret assms(1) alert)
qed

section \<open>The pipeline keeps\<close>

abbreviation pipeline_db :: "('l, 't, 'a) pipeline_world \<Rightarrow> report_db" where
  "pipeline_db w \<equiv> gw_db (pw_reports w)"

text \<open>One worker at a time works on the tables, and services agree on what is an aware date-time.\<close>

definition pipeline_alone :: "('l, 't, 'a) pipeline \<Rightarrow> bool" where
  "pipeline_alone p \<longleftrightarrow> cx_env (gs_contract (pi_generation p)) = (\<lambda>_ db. db) \<and> dx_env (pi_delivery p) = (\<lambda>_ db. db)
     \<and> cx_aware (gs_contract (pi_generation p)) = dx_aware (pi_delivery p)"

definition same_data :: "('l, 't, 'a) pipeline_world \<Rightarrow> ('l, 't, 'a) pipeline_world \<Rightarrow> bool" where
  "same_data w w' \<longleftrightarrow> pipeline_db w' = pipeline_db w \<and> pw_delivery w' = pw_delivery w"

lemma same_data_rel [simp]: "reflp same_data" "transp same_data"
  by (auto simp: same_data_def reflp_def transp_def)

lemma same_data_ports: "keeps same_data (on_alert m)" "keeps same_data pipeline_now" "keeps same_data (pipeline_sleep d)"
  by (auto simp: keeps_def same_data_def on_alert_def pipeline_now_def pipeline_sleep_def split: prod.splits)

lemma report_store_alone:
  assumes "pipeline_alone p" "report_store_call p m w = (r, w')"
  shows "\<exists>db'. m (pipeline_db w) = (r, db') \<and> pipeline_db w' = (if isl r then pipeline_db w else db') \<and> pw_delivery w' = pw_delivery w"
  using assms by (auto simp: report_store_call_def on_reports_def report_call_def transaction_def pipeline_alone_def split: prod.splits sum.splits)

lemma store_reads:
  assumes "pipeline_alone p"
  shows "keeps same_data (report_store_call p (load_report aware i))" "keeps same_data (report_store_call p (load_generation_attempt u))"
proof -
  have reads: "keeps same_data (report_store_call p m)" if "\<And>db. snd (m db) = db" for m :: "(report_db, 'r) act"
    using report_store_alone [OF assms] that unfolding keeps_def same_data_def by (metis prod.collapse snd_conv)
  show "keeps same_data (report_store_call p (load_report aware i))" "keeps same_data (report_store_call p (load_generation_attempt u))"
    by (rule reads, simp add: load_report_def load_generation_attempt_def split: option.split sum.split)+
qed

text \<open>The reading of a report, and the call that generates it when there is none.\<close>

lemma load_report_SomeD: "fst (load_report aware i db) = Inr (Some f) \<Longrightarrow> f \<in> set (db_reports db) \<and> sr_id f = i"
  by (auto simp: load_report_def select_one_def find_Some_iff dest!: make_stored_report_same split: option.splits sum.splits)

lemma obtain_cases:
  assumes al: "pipeline_alone p" and run: "obtain_report (workflow_of p) s i w = (r, w')"
  shows "same_data w w' \<and> names_report i r w' \<or> (\<exists>x w1. fst (load_report (dx_aware (pi_delivery p)) i (pipeline_db w)) = Inr None \<and> same_data w w1
    \<and> fw_generate (workflow_of p) s i (fw_version (workflow_of p)) (fw_model (workflow_of p)) (fw_parameters (workflow_of p)) w1 = (x, w')
    \<and> (case x of Inl e \<Rightarrow> r = Inl e | Inr res \<Rightarrow> r = Inr (gr_report res, ga_error (gr_attempt res))))"
proof -
  obtain y w1 where y: "report_store_call p (load_report (cx_aware (gs_contract (pi_generation p))) i) w = (y, w1)" by fastforce
  have load: "fst (load_report (dx_aware (pi_delivery p)) i (pipeline_db w)) = y"
    using report_store_alone [OF al y] al by (auto simp: pipeline_alone_def)
  have same: "same_data w w1" using keepsD [OF store_reads(1) [OF al] y] .
  have port: "fw_load_report (workflow_of p) i w = (y, w1)" using y by (simp add: workflow_of_def Let_def)
  consider (error) e where "y = Inl e" | (found) f where "y = Inr (Some f)" | (missing) "y = Inr None" by (cases y) auto
  then show ?thesis
  proof cases
    case error
    then show ?thesis using run port same by (auto simp: obtain_report_def bindA_def names_report_def)
  next
    case (found f)
    then have "sr_id f = i" using load load_report_SomeD by blast
    moreover have "keeps same_data (fw_load_generation (workflow_of p) u)" for u
      using store_reads(2) [OF al] by (simp add: workflow_of_def Let_def)
    ultimately show ?thesis using run port found same
      by (auto simp: obtain_report_def bindA_def names_report_def keeps_def same_data_def split: option.splits prod.splits sum.splits) (metis snd_conv)+
  next
    case missing
    then show ?thesis using run port same load
      by (auto simp: obtain_report_def bindA_def split: prod.splits sum.splits)
  qed
qed

lemma obtain_names:
  assumes "pipeline_alone p" "\<And>ids. set (cx_order (gs_contract (pi_generation p)) ids) = set ids"
  shows "yields (names_report i) (obtain_report (workflow_of p) s i)"
proof (unfold yields_def, rule allI)
  fix w
  obtain r w' where run: "obtain_report (workflow_of p) s i w = (r, w')" by fastforce
  have "names_report i r w'" using obtain_cases [OF assms(1) run]
  proof (elim disjE exE conjE)
    fix x w1
    assume "fw_generate (workflow_of p) s i (fw_version (workflow_of p)) (fw_model (workflow_of p)) (fw_parameters (workflow_of p)) w1 = (x, w')"
      and r: "case x of Inl e \<Rightarrow> r = Inl e | Inr res \<Rightarrow> r = Inr (gr_report res, ga_error (gr_attempt res))"
    then have "sound_result (gs_contract (pi_generation p)) i x ()"
      using yieldsD [OF yields_generate_report [OF assms(2)]]
      by (auto simp: workflow_of_def Let_def on_reports_def sound_result_def split: prod.splits)
    then show ?thesis using r by (auto simp: names_report_def sound_result_def split: sum.splits option.splits)
  qed blast
  then show "names_report i (fst (obtain_report (workflow_of p) s i w)) (snd (obtain_report (workflow_of p) s i w))" using run by simp
qed


section \<open>One date is delivered once\<close>

text \<open>Since a state with the sends \<open>s0\<close>: nothing was sent, or the row of the report exists and its sends follow the rules.\<close>

definition once_delivered :: "('l, 't, 'a) pipeline \<Rightarrow> string \<Rightarrow> sent_attempt list \<Rightarrow> ('l, 't, 'a) pipeline_world \<Rightarrow> bool" where
  "once_delivered p i s0 w \<longleftrightarrow> settled_rows (db_deliveries (pipeline_db w)) \<and> (\<exists>s. dw_sends (pw_delivery w) = s0 @ s \<and> (s = []
     \<or> one_accepted (pi_delivery p) s \<and> (\<exists>k. wanted_key (pi_delivery p) i (pi_chat p) (pipeline_db w) = Some k
          \<and> k \<in> set (row_keys (db_deliveries (pipeline_db w))))))"

definition keeps_once :: "('l, 't, 'a) pipeline \<Rightarrow> string \<Rightarrow> sent_attempt list \<Rightarrow> ('l, 't, 'a) pipeline_world \<Rightarrow> ('l, 't, 'a) pipeline_world \<Rightarrow> bool" where
  "keeps_once p i s0 w w' \<longleftrightarrow> (once_delivered p i s0 w \<longrightarrow> once_delivered p i s0 w')"

lemma keeps_once_rel [simp]: "reflp (keeps_once p i s0)" "transp (keeps_once p i s0)"
  by (auto simp: keeps_once_def reflp_def transp_def)

lemma same_data_once: "keeps same_data m \<Longrightarrow> keeps (keeps_once p i s0) m"
  by (auto simp: keeps_def same_data_def keeps_once_def once_delivered_def)

text \<open>Nothing was sent while the report is missing; deliveries of the report go through its row.\<close>

lemma once_without_report:
  assumes "fst (load_report (dx_aware (pi_delivery p)) i (pipeline_db w)) = Inr None"
    and "db_deliveries (pipeline_db w') = db_deliveries (pipeline_db w)" "pw_delivery w' = pw_delivery w"
  shows "keeps_once p i s0 w w'"
  using assms by (auto simp: keeps_once_def once_delivered_def wanted_key_def)

lemma deliver_appends:
  assumes "deliver c i chat dry w = (r, w')" "1 \<le> dx_max_attempts c"
  shows "\<exists>s. dw_sends w' = dw_sends w @ s"
  using deliver_loop [OF assms]
proof (elim disjE exE conjE)
  fix q a w1
  assume "quiet w w1" "send_loop c q (dx_max_attempts c) a w1 = (r, w')" "da_no a \<le> dx_max_attempts c"
  then show ?thesis using dl.loop_trace [of c q "dx_max_attempts c" a w1 r w'] by (fastforce simp: quiet_def)
qed (simp add: quiet_def)

lemma deliver_once:
  fixes p :: "('l, 't, 'a) pipeline"
  assumes al: "pipeline_alone p" and m: "1 \<le> dx_max_attempts (pi_delivery p)"
  shows "keeps (keeps_once p i s0) (on_delivery (deliver (pi_delivery p) i (pi_chat p) False))"
proof (unfold keeps_def, rule allI)
  fix w :: "('l, 't, 'a) pipeline_world"
  define v where "v = delivery_view w"
  obtain r v' where run: "deliver (pi_delivery p) i (pi_chat p) False v = (r, v')" by fastforce
  define w' where "w' = snd (on_delivery (deliver (pi_delivery p) i (pi_chat p) False) w)"
  have view: "rows v = db_deliveries (pipeline_db w)" "dw_sends v = dw_sends (pw_delivery w)" "dw_db v = pipeline_db w"
    by (simp_all add: v_def delivery_view_def rows_def)
  have end_state: "pipeline_db w' = dw_db v'" "pw_delivery w' = v'"
    using run by (simp_all add: w'_def on_delivery_def v_def)
  have "once_delivered p i s0 w'" if once: "once_delivered p i s0 w"
  proof -
    have st: "settled_rows (rows v)" using once by (simp add: once_delivered_def view)
    obtain s where s: "dw_sends v = s0 @ s" "s = [] \<or> one_accepted (pi_delivery p) s \<and> (\<exists>k. wanted_key (pi_delivery p) i (pi_chat p) (dw_db v) = Some k
        \<and> k \<in> set (row_keys (rows v)))"
      using once by (auto simp: once_delivered_def view)
    have one: "alone (pi_delivery p)" using al by (simp add: pipeline_alone_def alone_def)
    note d = deliver_alone [OF one st run]
    have key: "wanted_key (pi_delivery p) i (pi_chat p) (dw_db v') = wanted_key (pi_delivery p) i (pi_chat p) (dw_db v)"
      using d by (intro wanted_key_others) (simp add: same_others_def)
    show ?thesis
    proof (cases "rows v' = rows v \<and> dw_sends v' = dw_sends v")
      case True
      then show ?thesis using s st key by (auto simp: once_delivered_def end_state rows_def)
    next
      case False
      then obtain k where k: "wanted_key (pi_delivery p) i (pi_chat p) (dw_db v) = Some k" "k \<notin> set (row_keys (rows v))"
        "row_keys (rows v') = row_keys (rows v) @ [k]" using d by blast
      then have "s = []" using s(2) by auto
      moreover obtain t where "dw_sends v' = dw_sends v @ t" using deliver_appends [OF run m] by blast
      moreover from this have "one_accepted (pi_delivery p) t" using deliver_one_accepted [OF run m] by (simp add: sends_since_def)
      ultimately show ?thesis using s(1) k key d by (auto simp: once_delivered_def end_state rows_def)
    qed
  qed
  then show "keeps_once p i s0 w (snd (on_delivery (deliver (pi_delivery p) i (pi_chat p) False) w))"
    by (simp add: keeps_once_def w'_def)
qed

lemma generate_deliveries:
  assumes "pipeline_alone p" "\<And>ids. set (cx_order (gs_contract (pi_generation p)) ids) = set ids"
    and "fw_generate (workflow_of p) s i v m ps w = (x, w')"
  shows "keeps_reports (gs_contract (pi_generation p)) (pipeline_db w) (pipeline_db w') \<and> pw_delivery w' = pw_delivery w"
proof -
  have "cx_env (gs_contract (pi_generation p)) = (\<lambda>_ db. db)" using assms(1) by (simp add: pipeline_alone_def)
  note sound = sound_generate [OF this assms(2)]
  obtain g where g: "generate_report (pi_generation p) s i v m ps (pw_reports w) = (x, g)" "w' = w\<lparr>pw_reports := g\<rparr>"
    using assms(3) by (auto simp: workflow_of_def Let_def on_reports_def split: prod.splits)
  show ?thesis using keepsD [OF sound g(1)] by (simp add: g(2) sound_step_def)
qed

lemma obtain_once:
  assumes al: "pipeline_alone p" and order: "\<And>ids. set (cx_order (gs_contract (pi_generation p)) ids) = set ids"
  shows "keeps (keeps_once p i s0) (obtain_report (workflow_of p) s i)"
proof (unfold keeps_def, rule allI)
  fix w
  obtain r w' where run: "obtain_report (workflow_of p) s i w = (r, w')" by fastforce
  have "keeps_once p i s0 w w'" using obtain_cases [OF al run]
  proof (elim disjE exE conjE)
    fix x w1
    assume none: "fst (load_report (dx_aware (pi_delivery p)) i (pipeline_db w)) = Inr None" and same: "same_data w w1"
      and gen: "fw_generate (workflow_of p) s i (fw_version (workflow_of p)) (fw_model (workflow_of p)) (fw_parameters (workflow_of p)) w1 = (x, w')"
    show ?thesis using generate_deliveries [OF al order gen] same none
      by (intro once_without_report) (auto simp: same_data_def keeps_reports_def)
  qed (auto simp: same_data_def keeps_once_def once_delivered_def)
  then show "keeps_once p i s0 w (snd (obtain_report (workflow_of p) s i w))" using run by simp
qed

lemma workflow_ports:
  "fw_alert (workflow_of p) a = on_alert (deliver_alert (pi_alerts p) a (pi_alert_chat p))" "fw_now (workflow_of p) = pipeline_now"
  "fw_sleep (workflow_of p) = pipeline_sleep" "fw_deliver (workflow_of p) i = on_delivery (deliver (pi_delivery p) i (pi_chat p) False)"
  "fw_version (workflow_of p) = wc_version (pi_config p)"
  by (simp_all add: workflow_of_def Let_def)

lemma snapshot_keeps:
  assumes "pipeline_alone p" "report_store_call p (put_input_snapshot s) w = (r, w')"
  shows "pw_delivery w' = pw_delivery w \<and> db_reports (pipeline_db w') = db_reports (pipeline_db w)
    \<and> db_deliveries (pipeline_db w') = db_deliveries (pipeline_db w)"
proof -
  obtain db' where db': "put_input_snapshot s (pipeline_db w) = (r, db')" "pipeline_db w' = (if isl r then pipeline_db w else db')"
    "pw_delivery w' = pw_delivery w"
    using report_store_alone [OF assms] by blast
  have "db_reports db' = db_reports (pipeline_db w) \<and> db_deliveries db' = db_deliveries (pipeline_db w)"
    using db'(1) by (auto simp: put_input_snapshot_def split: if_splits option.splits)
  then show ?thesis using db'(2,3) by simp
qed

lemma wanted_key_reports: "db_reports db = db_reports db' \<Longrightarrow> wanted_key c i chat db = wanted_key c i chat db'"
  by (simp add: wanted_key_def load_report_def split: option.splits sum.splits)

lemma exec_once:
  assumes al: "pipeline_alone p" and order: "\<And>ids. set (cx_order (gs_contract (pi_generation p)) ids) = set ids"
    and m: "1 \<le> dx_max_attempts (pi_delivery p)" and x: "concerns d x"
  shows "keeps_once p (daily_report_id d (wc_version (pi_config p))) s0 w (pipeline_exec p x w)"
proof -
  let ?i = "daily_report_id d (wc_version (pi_config p))"
  have alert: "keeps (keeps_once p ?i s0) (fw_alert (workflow_of p) a)" for a
    by (simp add: workflow_ports same_data_once same_data_ports)
  show ?thesis
  proof (cases x)
    case (Complete_date r)
    then have "keeps (keeps_once p ?i s0) (complete (workflow_of p) r)"
      using x by (intro complete_keeps [where i = ?i] keeps_once_rel alert obtain_once obtain_names al order)
        (simp_all add: workflow_ports same_data_once same_data_ports deliver_once al m)
    then show ?thesis by (simp add: Complete_date keeps_def)
  next
    case (Give_up r)
    have "keeps (keeps_once p ?i s0) (retry_exhausted (workflow_of p) r)"
      unfolding retry_exhausted_def by (intro alert_terminal_keeps keeps_once_rel alert)
    then show ?thesis by (simp add: Give_up keeps_def)
  next
    case (Report_failure r code)
    have "keeps (keeps_once p ?i s0) (unhandled_failure (workflow_of p) r code)"
      unfolding unhandled_failure_def by (intro alert_terminal_keeps keeps_once_rel alert)
    then show ?thesis by (simp add: Report_failure keeps_def)
  next
    case (Store_snapshot s)
    obtain y w' where put: "report_store_call p (put_input_snapshot s) w = (y, w')" by fastforce
    note same = snapshot_keeps [OF al put]
    have "wanted_key (pi_delivery p) ?i (pi_chat p) (pipeline_db w') = wanted_key (pi_delivery p) ?i (pi_chat p) (pipeline_db w)"
      using same by (intro wanted_key_reports) simp
    then show ?thesis using same by (simp add: Store_snapshot put keeps_once_def once_delivered_def)
  qed
qed

text \<open>C3: Whatever the workflow of one date is made to do, in any order and however often (completed again after a crash, given up,
  reported as failed, its snapshot stored again), as long as one worker at a time works on the tables, all sends of the report together are
  at most the configured number, and only the last of them can have reached the chat.\<close>

theorem date_is_delivered_once:
  assumes "pipeline_alone p" "\<forall>ids. set (cx_order (gs_contract (pi_generation p)) ids) = set ids" "1 \<le> dx_max_attempts (pi_delivery p)"
    and "distinct (map da_id (db_deliveries (pipeline_db w0)))" "\<forall>a \<in> set (db_deliveries (pipeline_db w0)). da_status a \<noteq> Retry_wait"
    and "pipeline_reaches p (concerns d) w0 w"
  shows "\<exists>s. dw_sends (pw_delivery w) = dw_sends (pw_delivery w0) @ s \<and> int (length s) \<le> dx_max_attempts (pi_delivery p)
    \<and> (\<forall>x \<in> set (butlast s). retryable_rejection (snd (snd x)))"
proof -
  let ?i = "daily_report_id d (wc_version (pi_config p))" and ?s0 = "dw_sends (pw_delivery w0)"
  have "settled_rows (db_deliveries (pipeline_db w0))"
    using assms(4,5) by (simp add: settled_rows_def da_rows.keys_distinct_def no_retry_wait_def list_all_iff)
  then have start: "once_delivered p ?i ?s0 w0" by (simp add: once_delivered_def)
  have step: "once_delivered p ?i ?s0 v \<Longrightarrow> concerns d x \<Longrightarrow> once_delivered p ?i ?s0 (pipeline_exec p x v)" for v x
    using exec_once [OF assms(1) spec [OF assms(2)] assms(3), of d x ?s0 v] by (simp add: keeps_once_def)
  have "once_delivered p ?i ?s0 w" by (rule pipeline_invariant [OF assms(6) start step])
  then show ?thesis using assms(3) unfolding once_delivered_def one_accepted_def by (elim conjE exE disjE) auto
qed


section \<open>What is published is approved\<close>

definition keeps_approved :: "('l, 't, 'a) pipeline \<Rightarrow> ('l, 't, 'a) pipeline_world \<Rightarrow> ('l, 't, 'a) pipeline_world \<Rightarrow> bool" where
  "keeps_approved p w w' \<longleftrightarrow> (approved_rows (gs_contract (pi_generation p)) (pipeline_db w)
     \<longrightarrow> approved_rows (gs_contract (pi_generation p)) (pipeline_db w'))"

lemma keeps_approved_rel [simp]: "reflp (keeps_approved p)" "transp (keeps_approved p)"
  by (auto simp: keeps_approved_def reflp_def transp_def)

lemma same_data_approved: "keeps same_data m \<Longrightarrow> keeps (keeps_approved p) m"
  by (auto simp: keeps_def same_data_def keeps_approved_def)

lemma same_reports_approved: "db_reports (pipeline_db w') = db_reports (pipeline_db w) \<Longrightarrow> keeps_approved p w w'"
  by (simp add: keeps_approved_def approved_rows_def)

text \<open>A delivery touches no report, and one that returns has read a deliverable report.\<close>

lemma keeps_others_deliver:
  fixes c :: "'t delivery_service"
  assumes al: "alone c"
  shows "keeps same_others (deliver c i chat dry)"
proof -
  have pure: "keeps same_others (liftA x :: ('t delivery_world, 'r) act)" "keeps same_others (fresh_uuid c)" for x
    by (auto simp: keeps_def liftA_def fresh_uuid_def same_others_def split: sum.splits)
  have loop: "keeps same_others (send_loop c q limit a)" for q limit a
    unfolding keeps_def using send_loop_others [OF al] by (metis prod.collapse)
  note steps = keeps_bindA keeps_option keeps_if keeps_ret keeps_throw same_others_rel keeps_others_statement [OF al]
    keeps_others_ops keeps_others_current [OF al] keeps_others_resume [OF al] loop pure
  have existing: "keeps same_others (deliver_existing c q)" for q
    unfolding deliver_existing_def load_for_request_def by (intro steps)
  show ?thesis unfolding deliver_def Let_def by (intro steps existing)
qed

lemma deliver_reports:
  fixes p :: "('l, 't, 'a) pipeline"
  assumes "pipeline_alone p" "on_delivery (deliver (pi_delivery p) i chat False) w = (r, w')"
  shows "db_reports (pipeline_db w') = db_reports (pipeline_db w)"
proof -
  obtain v' where v': "deliver (pi_delivery p) i chat False (delivery_view w) = (r, v')" "pipeline_db w' = dw_db v'"
    using assms(2) by (auto simp: on_delivery_def split: prod.splits)
  have "alone (pi_delivery p)" using assms(1) by (simp add: pipeline_alone_def alone_def)
  from keepsD [OF keeps_others_deliver [OF this] v'(1)]
  have "others (dw_db v') = others (pipeline_db w)" by (simp add: same_others_def delivery_view_def)
  then show ?thesis using v'(2) by (metis others_def report_db.select_convs(3) report_db.update_convs(5) report_db.surjective)
qed

lemma deliver_reads:
  assumes "alone c" "deliver c i chat dry w = (Inr d, w')"
  shows "\<exists>f. f \<in> set (db_reports (dw_db w)) \<and> sr_id f = i \<and> deliverable f"
proof -
  obtain x w1 where x: "statement c (load_report (dx_aware c) i) w = (x, w1)" by fastforce
  then have load: "fst (load_report (dx_aware c) i (dw_db w)) = x"
    using assms(1) by (auto simp: statement_def transaction_def alone_def load_report_def split: prod.splits sum.splits option.splits)
  obtain f where f: "x = Inr (Some f)" "deliverable f"
    using assms(2) x by (cases x) (auto simp: deliver_def bindA_def split: option.splits if_splits)
  then show ?thesis using load load_report_SomeD by blast
qed

lemma exec_approved:
  assumes al: "pipeline_alone p" and order: "\<And>ids. set (cx_order (gs_contract (pi_generation p)) ids) = set ids"
  shows "keeps_approved p w (pipeline_exec p x w)"
proof -
  have alert: "keeps (keeps_approved p) (fw_alert (workflow_of p) a)" for a
    by (simp add: workflow_ports same_data_approved same_data_ports)
  have obtained: "keeps (keeps_approved p) (obtain_report (workflow_of p) s i)" for s i
  proof (unfold keeps_def, rule allI)
    fix v
    obtain r v' where run: "obtain_report (workflow_of p) s i v = (r, v')" by fastforce
    have "keeps_approved p v v'" using obtain_cases [OF al run]
    proof (elim disjE exE conjE)
      fix y v1
      assume same: "same_data v v1"
        and gen: "fw_generate (workflow_of p) s i (fw_version (workflow_of p)) (fw_model (workflow_of p)) (fw_parameters (workflow_of p)) v1 = (y, v')"
      then show ?thesis using generate_deliveries [OF al order gen] by (simp add: same_data_def keeps_reports_def keeps_approved_def)
    qed (simp add: same_data_def keeps_approved_def)
    then show "keeps_approved p v (snd (obtain_report (workflow_of p) s i v))" using run by simp
  qed
  have delivered: "keeps (keeps_approved p) (on_delivery (deliver (pi_delivery p) i (pi_chat p) False))" for i
    unfolding keeps_def using deliver_reports [OF al] same_reports_approved by (metis prod.collapse)
  show ?thesis
  proof (cases x)
    case (Complete_date r)
    have "keeps (keeps_approved p) (complete (workflow_of p) r)"
      by (rule complete_keeps [OF keeps_approved_rel alert _ _ obtained obtain_names [OF al order] _ refl])
        (simp_all add: workflow_ports same_data_approved same_data_ports delivered)
    then show ?thesis by (simp add: Complete_date keeps_def)
  next
    case (Give_up r)
    have "keeps (keeps_approved p) (retry_exhausted (workflow_of p) r)"
      unfolding retry_exhausted_def by (intro alert_terminal_keeps keeps_approved_rel alert)
    then show ?thesis by (simp add: Give_up keeps_def)
  next
    case (Report_failure r code)
    have "keeps (keeps_approved p) (unhandled_failure (workflow_of p) r code)"
      unfolding unhandled_failure_def by (intro alert_terminal_keeps keeps_approved_rel alert)
    then show ?thesis by (simp add: Report_failure keeps_def)
  next
    case (Store_snapshot s)
    obtain y w' where put: "report_store_call p (put_input_snapshot s) w = (y, w')" by fastforce
    have "keeps_approved p w w'" by (rule same_reports_approved) (use snapshot_keeps [OF al put] in simp)
    then show ?thesis by (simp add: Store_snapshot put)
  qed
qed

text \<open>C4: Where this worker alone writes the report tables (as under the date lock) and every validated report in them is approved
  at the start, then, whatever the workflows of all dates do: every validated report in the tables states only facts of its snapshot
  that were approved for it; a locked or retryable result is returned unchanged and writes nothing; and the workflow of any other
  result ends blocked, or such a report, the one it names, was delivered to the chat successfully and not before the publication time
  of the date.\<close>

theorem published_report_is_approved:
  fixes r
  assumes "pipeline_alone p" "\<forall>ids. set (cx_order (gs_contract (pi_generation p)) ids) = set ids"
    and "approved_rows (gs_contract (pi_generation p)) (pipeline_db w0)" "pipeline_reaches p (\<lambda>_. True) w0 w"
    and run: "complete (workflow_of p) r w = (x, w')"
  defines "current \<equiv> r\<lparr>wr_workflow := Some (workflow_run_id (workflow_of p) (wr_date r))\<rparr>"
  shows "approved_rows (gs_contract (pi_generation p)) (pipeline_db w') \<and> (\<exists>r'. x = Inr r'
    \<and> (if wr_status r \<in> {Wk_locked, Wk_retryable} then r' = current \<and> w' = w else wr_status r' = Wk_blocked
      \<or> (\<exists>f v d. f \<in> set (db_reports (pipeline_db w')) \<and> wr_report r' = Some (sr_id f) \<and> deliverable f
        \<and> approved_row (gs_contract (pi_generation p)) f \<and> publish_at (workflow_of p) (wr_date r) \<le> pw_now v
        \<and> on_delivery (deliver (pi_delivery p) (sr_id f) (pi_chat p) False) v = (Inr d, w') \<and> delivery_result_status d = ''succeeded'')))"
proof -
  let ?c = "gs_contract (pi_generation p)"
  have order: "set (cx_order ?c ids) = set ids" for ids using assms(2) by blast
  have "approved_rows ?c (pipeline_db w)"
    by (rule pipeline_invariant [OF assms(4), where I = "\<lambda>w. approved_rows ?c (pipeline_db w)"])
      (use assms(3) exec_approved [OF assms(1) order] in \<open>simp_all add: keeps_approved_def\<close>)
  then have rows: "approved_rows ?c (pipeline_db w')"
    using exec_approved [OF assms(1) order, of w "Complete_date r"] run by (simp add: keeps_approved_def)
  have now: "fw_now (workflow_of p) v = (Inr (pw_now v), v)" for v by (simp add: workflow_ports pipeline_now_def)
  have sleep: "\<exists>v'. fw_sleep (workflow_of p) t v = (Inr (), v') \<and> pw_now v + t \<le> pw_now v'" for t v
    by (simp add: workflow_ports pipeline_sleep_def)
  obtain r' where r': "x = Inr r'" and ends: "if wr_status r \<in> {Wk_locked, Wk_retryable} then r' = current \<and> w' = w
      else alerted (workflow_of p) current r' w'
        \<or> wr_status r \<in> {Wk_succeeded, Wk_degraded} \<and> published_by (workflow_of p) pw_now current r' w'"
    using complete_ends [of "workflow_of p" pw_now, OF now sleep run] unfolding current_def by blast
  have published: "\<exists>f v d. f \<in> set (db_reports (pipeline_db w')) \<and> wr_report r' = Some (sr_id f) \<and> deliverable f
        \<and> approved_row ?c f \<and> publish_at (workflow_of p) (wr_date r) \<le> pw_now v
        \<and> on_delivery (deliver (pi_delivery p) (sr_id f) (pi_chat p) False) v = (Inr d, w') \<and> delivery_result_status d = ''succeeded''"
    if pub: "published_by (workflow_of p) pw_now current r' w'"
  proof -
    obtain f :: stored_report and v d where f: "wr_report r' = Some (sr_id f)" "publish_at (workflow_of p) (wr_date r) \<le> pw_now v"
      "on_delivery (deliver (pi_delivery p) (sr_id f) (pi_chat p) False) v = (Inr d, w')" "delivery_result_status d = ''succeeded''"
      using pub unfolding published_by_def workflow_ports current_def by auto
    obtain v' where "deliver (pi_delivery p) (sr_id f) (pi_chat p) False (delivery_view v) = (Inr d, v')"
      using f(3) by (auto simp: on_delivery_def split: prod.splits)
    moreover have "alone (pi_delivery p)" using assms(1) by (simp add: pipeline_alone_def alone_def)
    ultimately obtain e where e: "e \<in> set (db_reports (pipeline_db v))" "sr_id e = sr_id f" "deliverable e"
      using deliver_reads by (fastforce simp: delivery_view_def)
    then have "e \<in> set (db_reports (pipeline_db w'))" using deliver_reports [OF assms(1) f(3)] by simp
    moreover from this have "approved_row ?c e" using rows by (simp add: approved_rows_def list_all_iff)
    ultimately show ?thesis using e f by metis
  qed
  have "if wr_status r \<in> {Wk_locked, Wk_retryable} then r' = current \<and> w' = w else wr_status r' = Wk_blocked
      \<or> (\<exists>f v d. f \<in> set (db_reports (pipeline_db w')) \<and> wr_report r' = Some (sr_id f) \<and> deliverable f
        \<and> approved_row ?c f \<and> publish_at (workflow_of p) (wr_date r) \<le> pw_now v
        \<and> on_delivery (deliver (pi_delivery p) (sr_id f) (pi_chat p) False) v = (Inr d, w') \<and> delivery_result_status d = ''succeeded'')"
  proof (cases "wr_status r \<in> {Wk_locked, Wk_retryable}")
    case False
    then have "alerted (workflow_of p) current r' w' \<or> published_by (workflow_of p) pw_now current r' w'" using ends by auto
    then show ?thesis using published False by (elim disjE) (simp_all add: alerted_def)
  qed (use ends in simp)
  then show ?thesis using rows r' by blast
qed



section \<open>A concrete pipeline\<close>

text \<open>The database holds a report that was validated for the day; the first send is rejected and the second accepted.\<close>

lemma demo_report_id: "daily_report_id tuesday ''v1'' = ''daily-report-2025-07-15-v1''"
  by code_simp

definition pipeline_contract :: report_contract where
  "pipeline_contract = demo_contract\<lparr>cx_report := (\<lambda>_. Inr (demo_typed\<lparr>dr_id := ''daily-report-2025-07-15-v1''\<rparr>))\<rparr>"

definition pipeline_candidate :: stored_report where
  "pipeline_candidate = demo_candidate\<lparr>sr_id := ''daily-report-2025-07-15-v1'', sr_payload := [(''report_id'', JStr ''daily-report-2025-07-15-v1''),
     (''report_date'', JStr ''2025-07-15''), (''contract_version'', JStr ''1.0''), (''input_snapshot'', JObj [(''snapshot_id'', JStr ''s1'')]),
     (''sections'', JObj [(''source_references'', JObj [(''items'', JList [])])])]\<rparr>"

definition candidate_db :: "stored_report \<Rightarrow> report_db" where
  "candidate_db f = \<lparr>db_snapshots = [fact_snapshot], db_generations = [], db_reports = [f], db_source_refs = [], db_deliveries = []\<rparr>"

definition pipeline_reports :: "stored_report \<Rightarrow> nat generation_world" where
  "pipeline_reports f = \<lparr>gw_db = candidate_db f, gw_steps = 0, gw_llm = 0, gw_calls = [], gw_uuids = 0, gw_ticks = 0\<rparr>"

definition validated_report :: stored_report where
  "validated_report = pipeline_candidate\<lparr>sr_decision := ''published'', sr_payload := butlast (sr_payload pipeline_candidate)
     @ [(''sections'', JObj [(''source_references'', JObj [(''items'', JList [])]), (''data_quality_notice'', JObj [(''status'', JStr ''complete''),
          (''text'', JStr (quality_notice ''complete'' [])), (''character_count'', JInt 13), (''issue_codes'', JList [])])]),
        (''status'', JStr ''complete''), (''publication'', JObj [(''decision'', JStr ''published''), (''reason_code'', JNull)]),
        (''data_quality'', JObj [(''status'', JStr ''complete'')])],
     sr_lifecycle := Validated\<rparr>"

lemma pipeline_validated:
  "gw_db (snd (validate_or_fallback pipeline_contract ''s1'' ''daily-report-2025-07-15-v1'' ''v1'' 0 (Some pipeline_candidate) None
     (pipeline_reports pipeline_candidate))) = candidate_db validated_report"
  by code_simp

definition demo_pipeline :: "(nat, nat, nat) pipeline" where
  "demo_pipeline = \<lparr>pi_generation = demo_generation\<lparr>gs_contract := pipeline_contract\<rparr>, pi_delivery = demo_service [demo_rejection, demo_sent],
     pi_chat = ''c'', pi_alerts = demo_alert_service [], pi_alert_chat = ''a'',
     pi_config = \<lparr>wc_model = ''m'', wc_version = ''v1'', wc_parameters = [], wc_zone = fixed_zone (8 * hour_us), wc_hour = 8, wc_minute = 30,
       wc_uuid5 = id\<rparr>\<rparr>"

definition demo_pipeline_world :: "(nat, nat, nat) pipeline_world" where
  "demo_pipeline_world = \<lparr>pw_reports = pipeline_reports validated_report, pw_delivery = demo_world, pw_alerts = demo_alert_world, pw_now = 0\<rparr>"

definition collected :: worker_result where
  "collected = (plain_result tuesday Wk_succeeded [])\<lparr>wr_snapshot := Some ''s1''\<rparr>"

definition demo_view :: "nat delivery_world" where
  "demo_view = demo_world\<lparr>dw_db := candidate_db validated_report\<rparr>"

lemma demo_pipeline_deliver:
  "case deliver (demo_service [demo_rejection, demo_sent]) ''daily-report-2025-07-15-v1'' ''c'' False demo_view of
     (Inr d, v) \<Rightarrow> delivery_result_status d = ''succeeded'' \<and> map (fst \<circ> snd) (dw_sends v) = [1, 2] | _ \<Rightarrow> False"
  by code_simp

lemma demo_pipeline_load:
  "load_report (\<lambda>_. True) ''daily-report-2025-07-15-v1'' (candidate_db validated_report) = (Inr (Some validated_report), candidate_db validated_report)"
  by code_simp

lemma demo_pipeline_obtain:
  "obtain_report (workflow_of demo_pipeline) ''s1'' ''daily-report-2025-07-15-v1'' demo_pipeline_world
     = (Inr (Some validated_report, None), demo_pipeline_world\<lparr>pw_reports := (pipeline_reports validated_report)\<lparr>gw_steps := Suc 0\<rparr>\<rparr>)"
proof -
  have "sr_generation validated_report = None" by (simp add: validated_report_def pipeline_candidate_def demo_candidate_def)
  then show ?thesis
    using demo_pipeline_load
    by (simp add: obtain_report_def bindA_def workflow_of_def Let_def report_store_call_def on_reports_def report_call_def transaction_def
        demo_pipeline_def demo_pipeline_world_def pipeline_reports_def demo_generation_def pipeline_contract_def demo_contract_def ret_def)
qed

lemma validated_report_fields: "deliverable validated_report" "sr_id validated_report = ''daily-report-2025-07-15-v1''"
  by (simp_all add: validated_report_def pipeline_candidate_def demo_candidate_def deliverable_def)

lemma demo_pipeline_run:
  "\<exists>r w. complete (workflow_of demo_pipeline) collected demo_pipeline_world = (Inr r, w) \<and> wr_status r = Wk_succeeded
     \<and> map (fst \<circ> snd) (dw_sends (pw_delivery w)) = [1, 2]"
proof -
  define w1 where "w1 = demo_pipeline_world\<lparr>pw_reports := (pipeline_reports validated_report)\<lparr>gw_steps := Suc 0\<rparr>\<rparr>"
  obtain d v where d: "deliver (demo_service [demo_rejection, demo_sent]) ''daily-report-2025-07-15-v1'' ''c'' False demo_view = (Inr d, v)"
    "delivery_result_status d = ''succeeded''" "map (fst \<circ> snd) (dw_sends v) = [1, 2]"
    using demo_pipeline_deliver by (auto split: prod.splits sum.splits)
  have "\<exists>w2. wait_until_publish (workflow_of demo_pipeline) tuesday w1 = (Inr (), w2) \<and> delivery_view w2 = demo_view"
    by (cases "pw_now w1 < publish_at (workflow_of demo_pipeline) tuesday")
      (simp_all add: wait_until_publish_def bindA_def workflow_ports pipeline_now_def pipeline_sleep_def ret_def w1_def delivery_view_def
        demo_view_def pipeline_reports_def demo_pipeline_world_def)
  then obtain w2 where w2: "wait_until_publish (workflow_of demo_pipeline) tuesday w1 = (Inr (), w2)" "delivery_view w2 = demo_view"
    by blast
  have deliver: "fw_deliver (workflow_of demo_pipeline) ''daily-report-2025-07-15-v1'' w2
      = (Inr d, w2\<lparr>pw_delivery := v, pw_reports := (pw_reports w2)\<lparr>gw_db := dw_db v\<rparr>\<rparr>)"
    using d(1) w2(2) by (simp add: workflow_ports on_delivery_def demo_pipeline_def)
  have version: "fw_version (workflow_of demo_pipeline) = ''v1''" by (simp add: workflow_ports demo_pipeline_def)
  show ?thesis
    using w2(1) deliver d
    by (simp add: complete_def collected_def plain_result_def Let_def version demo_report_id tryA_def demo_pipeline_obtain w1_def [symmetric] judge_report_def
        validated_report_fields deliver_report_def bindA_def ret_def)
qed

lemma demo_pipeline_alone:
  "pipeline_alone demo_pipeline" "\<forall>ids. set (cx_order (gs_contract (pi_generation demo_pipeline)) ids) = set ids" "1 \<le> dx_max_attempts (pi_delivery demo_pipeline)"
  by (simp_all add: pipeline_alone_def demo_pipeline_def pipeline_contract_def demo_contract_def demo_service_def demo_generation_def)

theorem date_is_delivered_once_witness:
  "\<exists>w. pipeline_reaches demo_pipeline (concerns tuesday) demo_pipeline_world w \<and> map (fst \<circ> snd) (dw_sends (pw_delivery w)) = [1, 2]
     \<and> retryable_rejection (snd (snd (hd (dw_sends (pw_delivery w)))))"
proof -
  obtain r w where run: "complete (workflow_of demo_pipeline) collected demo_pipeline_world = (Inr r, w)"
    and sends: "map (fst \<circ> snd) (dw_sends (pw_delivery w)) = [1, 2]"
    using demo_pipeline_run by metis
  have "concerns tuesday (Complete_date collected)" by (simp add: collected_def plain_result_def)
  then have "pipeline_reaches demo_pipeline (concerns tuesday) demo_pipeline_world (pipeline_exec demo_pipeline (Complete_date collected) demo_pipeline_world)"
    by (intro pipeline_reaches.intros)
  then have reach: "pipeline_reaches demo_pipeline (concerns tuesday) demo_pipeline_world w" using run by simp
  have none: "dw_sends (pw_delivery demo_pipeline_world) = []" by (simp add: demo_pipeline_world_def demo_world_def)
  have "\<forall>x \<in> set (butlast (dw_sends (pw_delivery w))). retryable_rejection (snd (snd x))"
    using date_is_delivered_once [OF demo_pipeline_alone _ _ reach] none
    by (simp add: demo_pipeline_world_def pipeline_reports_def candidate_db_def)
  moreover obtain a b where "dw_sends (pw_delivery w) = [a, b]" using sends by auto
  ultimately show ?thesis using reach sends by auto
qed

theorem published_report_is_approved_witness:
  "\<exists>r w f. complete (workflow_of demo_pipeline) collected demo_pipeline_world = (Inr r, w) \<and> wr_status r = Wk_succeeded
     \<and> f \<in> set (db_reports (pipeline_db w)) \<and> deliverable f \<and> approved_row pipeline_contract f"
proof -
  obtain r w where run: "complete (workflow_of demo_pipeline) collected demo_pipeline_world = (Inr r, w)" and st: "wr_status r = Wk_succeeded"
    using demo_pipeline_run by metis
  have env: "cx_env pipeline_contract = (\<lambda>_ db. db)" and order: "set (cx_order pipeline_contract ids) = set ids" for ids
    by (simp_all add: pipeline_contract_def demo_contract_def)
  have "approved_rows pipeline_contract (candidate_db pipeline_candidate)"
    by (simp add: approved_rows_def candidate_db_def approved_row_def pipeline_candidate_def demo_candidate_def)
  then have "approved_rows pipeline_contract (candidate_db validated_report)"
    using sound_validate_or_fallback [OF env order, of "''s1''" "''daily-report-2025-07-15-v1''" "''v1''" 0 "Some pipeline_candidate" None] pipeline_validated
    by (auto simp: keeps_def sound_step_def keeps_reports_def pipeline_reports_def dest!: spec [of _ "pipeline_reports pipeline_candidate"])
  then have "approved_rows (gs_contract (pi_generation demo_pipeline)) (pipeline_db demo_pipeline_world)"
    by (simp add: demo_pipeline_def demo_pipeline_world_def pipeline_reports_def)
  from published_report_is_approved [OF demo_pipeline_alone(1,2) this pipeline_reaches.start run]
  show ?thesis using run st by (auto simp: collected_def plain_result_def demo_pipeline_def)
qed

end
