(* ===== verification/Scheduled_Runtime.thy ===== *)
theory Scheduled_Runtime
  imports Schedule_Loop Provider_Registry Ingest_Handlers Report_Pipeline
begin

text \<open>
  The composition root of the worker, \<open>jobs/scheduled_runtime.py\<close>: the tasks of the live providers
  (\<open>build_registered_tasks\<close> with its request factories) and \<open>run_scheduler\<close>, which builds registry, workflow and
  worker from the settings and runs one date, a backfill or the schedule. What is created here and not
  passed in is closed at the end. Databases, providers, the language model and the network are ports; the world
  has the checkpoints of the tasks, the pipeline of the report, and the state of the remaining ports.
\<close>

section \<open>Requests\<close>

text \<open>An aware date-time in UTC; outside its range the arithmetic raises.\<close>

definition instant_at :: "int \<Rightarrow> exn + instant" where
  "instant_at t = (if day_us \<le> t \<and> t \<le> max_instant then Inr t else Inl (OtherError ''OverflowError''))"

definition day_start :: "zone \<Rightarrow> date \<Rightarrow> exn + instant" where
  "day_start z d = instant_at (of_wall z (combine d 0))"

definition scheduled_request :: "string \<Rightarrow> dataset \<Rightarrow> region \<Rightarrow> instant \<Rightarrow> instant \<Rightarrow> instant \<Rightarrow> string option \<Rightarrow> ingest_request" where
  "scheduled_request role ds r start until as_of cursor = make_request \<lparr>iq_role = role, iq_dataset = ds, iq_regions = [r], iq_start = start,
     iq_end = until, iq_as_of = as_of, iq_cursor = cursor, iq_dry_run = False, iq_force = False\<rparr>"

definition daily_bar_request_factory :: "string \<Rightarrow> region \<Rightarrow> zone \<Rightarrow> int \<Rightarrow> date \<Rightarrow> instant \<Rightarrow> string option \<Rightarrow> exn + ingest_request" where
  "daily_bar_request_factory role r z lookback d as_of cursor = bindE (day_start z d) (\<lambda>until.
     bindE (instant_at (until - lookback * day_us)) (\<lambda>start. Inr (scheduled_request role Bars r start until as_of cursor)))"

definition window_request_factory :: "string \<Rightarrow> dataset \<Rightarrow> region \<Rightarrow> zone \<Rightarrow> int \<Rightarrow> int \<Rightarrow> date \<Rightarrow> instant \<Rightarrow> string option \<Rightarrow> exn + ingest_request" where
  "window_request_factory role ds r z start_offset end_offset d as_of cursor = bindE (day_start z d) (\<lambda>t.
     bindE (instant_at (t + start_offset)) (\<lambda>start. bindE (instant_at (t + end_offset)) (\<lambda>until.
       Inr (scheduled_request role ds r start until as_of cursor))))"

section \<open>Tasks\<close>

text \<open>
  \<open>tp_handler\<close> is a handler with the input and output of a provider (its fetch, its request timeout, what its pages write);
  \<open>tp_runner\<close> is \<open>JobRunner\<close> around the call of a handler, with the database and the clock.
\<close>

record ('p, 'f, 'e) task_ports =
  tp_handler :: "provider \<Rightarrow> ('p, 'f) ingest_handler"
  tp_runner :: "(ingest_request \<Rightarrow> uuid \<Rightarrow> (('p, 'f) handler_world, ingest_result) act) \<Rightarrow> ingest_request \<Rightarrow> ('e, ingest_result) act"
  tp_now :: "nat \<Rightarrow> instant"
  tp_fresh :: "nat \<Rightarrow> uuid"
  tp_env :: "nat \<Rightarrow> checkpoint list \<Rightarrow> checkpoint list"

definition provider_handler :: "('p, 'f, 'e, 'z) task_ports_scheme \<Rightarrow> provider \<Rightarrow> string \<Rightarrow> region \<Rightarrow> ('p, 'f) ingest_handler" where
  "provider_handler t p role r = (tp_handler t p)\<lparr>ih_role := role, ih_region := r, ih_provider_id := pv_id p, ih_pit := False,
     ih_instruments := map in_id (pv_instruments p), ih_recovery_instruments := map in_id (pv_instruments p)\<rparr>"

definition registered_task :: "('p, 'f, 'e, 'z) task_ports_scheme \<Rightarrow> string \<Rightarrow> bool \<Rightarrow> string \<Rightarrow> dataset \<Rightarrow> region
    \<Rightarrow> (date \<Rightarrow> instant \<Rightarrow> string option \<Rightarrow> exn + ingest_request) \<Rightarrow> (ingest_request \<Rightarrow> uuid \<Rightarrow> (('p, 'f) handler_world, ingest_result) act)
    \<Rightarrow> exn + 'e checkpointed_task" where
  "registered_task t i required role ds r factory run = make_checkpointed_task \<lparr>ct_id = i, ct_required = required, ct_role = role, ct_dataset = ds,
     ct_region = r, ct_execute = tp_runner t run, ct_factory = factory, ct_now = tp_now t, ct_owner = tp_fresh t, ct_lead = day_us, ct_env = tp_env t\<rparr>"

definition daily_bar_task :: "('p, 'f, 'e, 'z) task_ports_scheme \<Rightarrow> settings \<Rightarrow> zone \<Rightarrow> string \<Rightarrow> bool \<Rightarrow> string \<Rightarrow> region
    \<Rightarrow> (ingest_request \<Rightarrow> uuid \<Rightarrow> (('p, 'f) handler_world, ingest_result) act) \<Rightarrow> exn + 'e checkpointed_task" where
  "daily_bar_task t s z i required role r run =
     registered_task t i required role Bars r (daily_bar_request_factory role r z (se_lookback_days s)) run"

text \<open>The handlers of XtQuant take some of the provider's instruments, those of the two window tasks a timeout.\<close>

definition xtquant_task :: "('p, 'f, 'e, 'z) task_ports_scheme \<Rightarrow> settings \<Rightarrow> zone \<Rightarrow> string \<Rightarrow> bool \<Rightarrow> string \<Rightarrow> provider \<Rightarrow> bool \<Rightarrow> exn + 'e checkpointed_task" where
  "xtquant_task t s z i required role p index = bindE (make_xtquant (map in_id (pv_instruments p))
       ((provider_handler t p role HK)\<lparr>ih_instruments := map in_id (xtquant_of_class index)\<rparr>))
     (\<lambda>h. daily_bar_task t s z i required role HK (run_xtquant h))"

definition macro_release_task :: "('p, 'f, 'e, 'z) task_ports_scheme \<Rightarrow> settings \<Rightarrow> zone \<Rightarrow> string \<Rightarrow> string \<Rightarrow> region \<Rightarrow> provider \<Rightarrow> exn + 'e checkpointed_task" where
  "macro_release_task t s z i role r p = bindE (make_capable_handler Macro_releases (pv_datasets p) (pv_regions p)
       ((provider_handler t p role r)\<lparr>ih_timeout := se_provider_timeout s * second_us\<rparr>))
     (\<lambda>h. registered_task t i True role Macro_releases r (window_request_factory role Macro_releases r z 0 (8 * day_us)) (run_macro_release h))"

definition news_task :: "('p, 'f, 'e, 'z) task_ports_scheme \<Rightarrow> settings \<Rightarrow> zone \<Rightarrow> string \<Rightarrow> string \<Rightarrow> region \<Rightarrow> provider \<Rightarrow> exn + 'e checkpointed_task" where
  "news_task t s z i role r p = bindE (make_capable_handler News (pv_datasets p) (pv_regions p)
       ((provider_handler t p role r)\<lparr>ih_timeout := se_provider_timeout s * second_us\<rparr>))
     (\<lambda>h. registered_task t i True role News r (window_request_factory role News r z (- day_us) day_us) (run_news h))"

definition resolve_as :: "registry \<Rightarrow> string \<Rightarrow> provider_class \<Rightarrow> exn + provider" where
  "resolve_as g role c = bindE (resolve g role) (\<lambda>p. if pv_class p = c then Inr p else Inl TypeError)"

definition build_registered_tasks :: "('p, 'f, 'e, 'z) task_ports_scheme \<Rightarrow> (string \<Rightarrow> exn + zone) \<Rightarrow> settings \<Rightarrow> registry \<Rightarrow> exn + 'e checkpointed_task list" where
  "build_registered_tasks t zones s g =
     (if se_provider_mode s \<noteq> Mode_live then Inr []
      else bindE (assert_production_safe g) (\<lambda>_. bindE (zones (se_timezone s)) (\<lambda>z.
        bindE (resolve_as g ''cn.bars.primary'' Cn_baostock) (\<lambda>cn.
        bindE (resolve_as g ''hk.bars.primary'' Hk_xtquant) (\<lambda>hk.
        bindE (resolve g ''hk.equity-bars.supplemental'') (\<lambda>equity. if equity \<noteq> hk then Inl TypeError else
        bindE (resolve_as g ''us.market.primary'' Us_twelve_data) (\<lambda>us.
        bindE (resolve_as g ''cn.macro.primary'' Cn_nbs_release) (\<lambda>cn_macro.
        bindE (resolve_as g ''cn.news.primary'' Cn_nbs_news) (\<lambda>cn_news.
        bindE (resolve_as g ''hk.news.primary'' Hk_hkma) (\<lambda>hk_news.
        bindE (resolve_as g ''hk.calendar.primary'' Hk_censtatd) (\<lambda>hk_macro.
        bindE (resolve_as g ''us.calendar.primary'' Us_official_calendar) (\<lambda>us_macro.
          mapE id
            [daily_bar_task t s z ''cn.daily-bars'' True ''cn.bars.primary'' CN (run_baostock (provider_handler t cn ''cn.bars.primary'' CN)),
             xtquant_task t s z ''hk.core-index-bars'' True ''hk.bars.primary'' hk True,
             xtquant_task t s z ''hk.equity-bars'' False ''hk.equity-bars.supplemental'' hk False,
             daily_bar_task t s z ''us.daily-bars'' True ''us.market.primary'' US (run_twelve_data (provider_handler t us ''us.market.primary'' US)),
             macro_release_task t s z ''cn.macro-release-calendar'' ''cn.macro.primary'' CN cn_macro,
             macro_release_task t s z ''hk.macro-release-calendar'' ''hk.calendar.primary'' HK hk_macro,
             macro_release_task t s z ''us.macro-release-calendar'' ''us.calendar.primary'' US us_macro,
             news_task t s z ''cn.official-headlines'' ''cn.news.primary'' CN cn_news,
             news_task t s z ''hk.official-headlines'' ''hk.news.primary'' HK hk_news]))))))))))))"

section \<open>The scheduler\<close>

record ('e, 'l, 'm) runtime_world =
  rt_tasks :: "'e task_world"
  rt_pipeline :: "('l, feishu_state, feishu_state) pipeline_world"
  rt_rest :: 'm

text \<open>
  A run of a checkpointed task. A source that hands out cursors for ever keeps the task, and with it the worker,
  running; the value of such a run is left unspecified.
\<close>

definition runtime_task :: "'e checkpointed_task \<Rightarrow> ('e, 'l, 'm) runtime_world scheduled_task" where
  "runtime_task c = \<lparr>st_id = ct_id c, st_required = ct_required c, st_role = Some (ct_role c),
     st_run = (\<lambda>d x. case the (run_checkpointed_task c d (rt_tasks x)) of (r, t) \<Rightarrow> (r, x\<lparr>rt_tasks := t\<rparr>))\<rparr>"

definition on_pipeline :: "(('l, feishu_state, feishu_state) pipeline_world, 'a) act \<Rightarrow> (('e, 'l, 'm) runtime_world, 'a) act" where
  "on_pipeline m x = (case m (rt_pipeline x) of (r, p) \<Rightarrow> (r, x\<lparr>rt_pipeline := p\<rparr>))"

definition runtime_workflow :: "('l, feishu_state, feishu_state) pipeline_world report_workflow \<Rightarrow> ('e, 'l, 'm) runtime_world report_workflow" where
  "runtime_workflow f = \<lparr>rw_complete = (\<lambda>r. on_pipeline (rw_complete f r)), rw_retry_exhausted = (\<lambda>r. on_pipeline (rw_retry_exhausted f r)),
     rw_unhandled_failure = (\<lambda>r code. on_pipeline (rw_unhandled_failure f r code))\<rparr>"

text \<open>The ports of the process; \<open>sp_materialize\<close> is the materializer of the report input, whose cutoff comes from the settings.\<close>

record ('p, 'f, 'e, 'l, 'm) scheduler_ports = "('p, 'f, 'e) task_ports" +
  sp_zones :: "string \<Rightarrow> exn + zone"
  sp_fixtures :: "provider_class \<Rightarrow> exn + provider"
  sp_llm :: "(llm_request \<Rightarrow> ('l, (string \<times> json) list) act) option"
  sp_contract :: report_contract
  sp_http :: http
  sp_sha :: "string \<Rightarrow> string"
  sp_render :: "stored_report \<Rightarrow> exn + json"
  sp_report_env :: "nat \<Rightarrow> report_db \<Rightarrow> report_db"
  sp_alert_env :: "nat \<Rightarrow> alert_attempt list \<Rightarrow> alert_attempt list"
  sp_uuid5 :: "string \<Rightarrow> uuid"
  sp_try_lock :: "int \<Rightarrow> (('e, 'l, 'm) runtime_world, bool) act"
  sp_unlock :: "int \<Rightarrow> (('e, 'l, 'm) runtime_world, unit) act"
  sp_digest :: "string \<Rightarrow> nat list"
  sp_materialize :: "settings \<Rightarrow> (date \<Rightarrow> instant) \<Rightarrow> date \<Rightarrow> task_result list \<Rightarrow> (('e, 'l, 'm) runtime_world, string \<times> gate_status) act"
  sp_now :: "(('e, 'l, 'm) runtime_world, instant) act"
  sp_sleep :: "int \<Rightarrow> (('e, 'l, 'm) runtime_world, unit) act"
  sp_close_http :: "(('e, 'l, 'm) runtime_world, unit) act"
  sp_aclose :: "provider \<Rightarrow> (('e, 'l, 'm) runtime_world, unit) act"
  sp_dispose :: "(('e, 'l, 'm) runtime_world, unit) act"

text \<open>The optional arguments of \<open>run_scheduler\<close>; of the database and the HTTP client only whether they are passed in.\<close>

record 'x scheduler_arguments =
  sa_registry :: "registry option"
  sa_database :: bool
  sa_http :: bool
  sa_workflow :: "'x report_workflow option"
  sa_version :: "string option"
  sa_max_runs :: "int option"
  sa_once :: "date option"
  sa_start :: "date option"
  sa_until :: "date option"

definition build_workflow :: "('p, 'f, 'e, 'l, 'm) scheduler_ports \<Rightarrow> settings \<Rightarrow> zone \<Rightarrow> string \<Rightarrow> exn + ('e, 'l, 'm) runtime_world report_workflow" where
  "build_workflow p s z version =
     bindE (build_generation_service (sp_llm p) (sp_contract p) (tp_now p) (tp_fresh p) (se_model_timeout s) (se_model_attempts s)) (\<lambda>g.
     bindE (configure_delivery (sp_http p) (tp_now p) (sp_sha p) (cx_aware (sp_contract p)) (tp_fresh p) (sp_render p) (sp_report_env p) (se_feishu s)) (\<lambda>d.
     bindE (configure_alerts (sp_http p) (tp_now p) (sp_sha p) (tp_fresh p) (sp_alert_env p) (se_feishu s) (se_alert_chat s)) (\<lambda>(alerts, chat).
     bindE (make_daily_workflow (workflow_of \<lparr>pi_generation = g, pi_delivery = cd_service d, pi_chat = cd_chat d, pi_alerts = alerts,
         pi_alert_chat = chat, pi_config = \<lparr>wc_model = se_model s, wc_version = version, wc_parameters = [], wc_zone = z,
           wc_hour = se_publish_hour s, wc_minute = se_publish_minute s, wc_uuid5 = sp_uuid5 p\<rparr>\<rparr>)) (\<lambda>f.
       Inr (runtime_workflow (daily_report_workflow f))))))"

text \<open>Feishu delivery needs a separate chat for alerts.\<close>

definition alert_chat_ok :: "settings \<Rightarrow> bool" where
  "alert_chat_ok s \<longleftrightarrow> se_alert_chat s \<noteq> None \<and> se_alert_chat s \<noteq> se_chat_id (se_feishu s)"

definition resolve_workflow :: "('p, 'f, 'e, 'l, 'm) scheduler_ports \<Rightarrow> settings \<Rightarrow> zone \<Rightarrow> ('e, 'l, 'm) runtime_world scheduler_arguments
    \<Rightarrow> exn + ('e, 'l, 'm) runtime_world report_workflow option" where
  "resolve_workflow p s z a = (case sa_workflow a of
     Some f \<Rightarrow> Inr (Some f)
   | None \<Rightarrow> if \<not> se_enabled (se_feishu s) then Inr None
       else if \<not> alert_chat_ok s then Inl SchedulerNotConfiguredError
       else bindE (build_workflow p s z (case sa_version a of Some v \<Rightarrow> v | None \<Rightarrow> se_report_version s)) (\<lambda>f. Inr (Some f)))"

definition prepare_worker :: "('p, 'f, 'e, 'l, 'm) scheduler_ports \<Rightarrow> settings \<Rightarrow> zone \<Rightarrow> ('e, 'l, 'm) runtime_world scheduler_arguments
    \<Rightarrow> 'e checkpointed_task list \<Rightarrow> exn + ('e, 'l, 'm) runtime_world worker" where
  "prepare_worker p s z a ts = bindE (resolve_workflow p s z a) (\<lambda>flow.
     if se_app_env s = Env_production \<and> flow = None then Inl SchedulerNotConfiguredError
     else make_worker \<lparr>wk_tasks = map runtime_task ts, wk_try_lock = sp_try_lock p, wk_unlock = sp_unlock p, wk_max_attempts = se_task_attempts s,
       wk_retry_delay = se_task_delay s,
       wk_materialize = Some (sp_materialize p s (report_cutoff_at z (se_cutoff_hour s) (se_cutoff_minute s))),
       wk_workflow = flow, wk_digest = sp_digest p\<rparr>)"

definition configured_schedule :: "('p, 'f, 'e, 'l, 'm) scheduler_ports \<Rightarrow> settings \<Rightarrow> zone \<Rightarrow> int option \<Rightarrow> int
    \<Rightarrow> ('e, 'l, 'm) runtime_world worker \<Rightarrow> ('e, 'l, 'm) runtime_world worker_world schedule" where
  "configured_schedule p s z max_runs t c = \<lparr>sd_run = run_for_date c, sd_notify = notify_retry_exhausted c, sd_now = lift_state (sp_now p),
     sd_sleep = (\<lambda>d. lift_state (sp_sleep p d)), sd_zone = z, sd_time = t, sd_poll = se_poll_seconds s * second_us,
     sd_retry_delay = se_task_delay s, sd_max_attempts = se_report_attempts s, sd_max_runs = max_runs\<rparr>"

text \<open>The three modes.\<close>

definition run_worker :: "('p, 'f, 'e, 'l, 'm) scheduler_ports \<Rightarrow> settings \<Rightarrow> zone \<Rightarrow> int option \<Rightarrow> date option \<Rightarrow> (date \<times> date) option
    \<Rightarrow> ('e, 'l, 'm) runtime_world worker \<Rightarrow> (('e, 'l, 'm) runtime_world worker_world schedule_world, unit) loop_act" where
  "run_worker p s z max_runs once span c = (case span of
     Some (start, until) \<Rightarrow> runO (on_state (bindA (backfill c start until) (\<lambda>_. ret ())))
   | None \<Rightarrow> (case once of
       Some d \<Rightarrow> runO (on_state (bindA (run_date c d) (\<lambda>_. ret ())))
     | None \<Rightarrow> (case first_safe_run_time (se_schedule_hour s) (se_schedule_minute s) (se_cutoff_hour s) (se_cutoff_minute s) of
         Inl e \<Rightarrow> runO (throw e)
       | Inr t \<Rightarrow> run_configured_schedule (configured_schedule p s z max_runs t c))))"

text \<open>\<open>try ... finally\<close>, and what the \<open>finally\<close> block closes.\<close>

definition finallyO :: "('w, 'a) loop_act \<Rightarrow> ('w, unit) act \<Rightarrow> ('w, 'a) loop_act" where
  "finallyO m f w = (case m w of None \<Rightarrow> None | Some (r, w1) \<Rightarrow> (case f w1 of (Inl e, w2) \<Rightarrow> Some (Inl e, w2) | (Inr _, w2) \<Rightarrow> Some (r, w2)))"

text \<open>The client is created where the workflow is built, so for a scheduler with tasks.\<close>

definition owns_http :: "settings \<Rightarrow> 'x scheduler_arguments \<Rightarrow> exn + 'e checkpointed_task list \<Rightarrow> bool" where
  "owns_http s a tasks \<longleftrightarrow> (case tasks of Inr ts \<Rightarrow> ts \<noteq> [] | Inl _ \<Rightarrow> False) \<and> sa_workflow a = None \<and> se_enabled (se_feishu s)
     \<and> alert_chat_ok s \<and> \<not> sa_http a"

definition close_owned :: "('p, 'f, 'e, 'l, 'm) scheduler_ports \<Rightarrow> bool \<Rightarrow> ('e, 'l, 'm) runtime_world scheduler_arguments \<Rightarrow> registry
    \<Rightarrow> (('e, 'l, 'm) runtime_world, unit) act" where
  "close_owned p http a g = bindA (if http then sp_close_http p else ret ()) (\<lambda>_.
     bindA (if sa_registry a = None then close_registry (sp_aclose p) g else ret ()) (\<lambda>_.
       if \<not> sa_database a then sp_dispose p else ret ()))"

definition either :: "'a option \<Rightarrow> 'a option \<Rightarrow> 'a option" where
  "either x y = (case x of Some v \<Rightarrow> Some v | None \<Rightarrow> y)"

definition scheduler_body :: "('p, 'f, 'e, 'l, 'm) scheduler_ports \<Rightarrow> settings \<Rightarrow> ('e, 'l, 'm) runtime_world scheduler_arguments
    \<Rightarrow> exn + 'e checkpointed_task list \<Rightarrow> (('e, 'l, 'm) runtime_world worker_world schedule_world, unit) loop_act" where
  "scheduler_body p s a tasks = (case tasks of
     Inl e \<Rightarrow> runO (throw e)
   | Inr ts \<Rightarrow> if ts = [] then runO (throw SchedulerNotConfiguredError)
       else case bindE (sp_zones p (se_timezone s)) (\<lambda>z. bindE (prepare_worker p s z a ts) (\<lambda>c. Inr (z, c))) of
         Inl e \<Rightarrow> runO (throw e)
       | Inr (z, c) \<Rightarrow> run_worker p s z (sa_max_runs a) (either (sa_once a) (se_run_once s))
           (case (either (sa_start a) (se_backfill_start s), either (sa_until a) (se_backfill_end s)) of
              (Some start, Some until) \<Rightarrow> Some (start, until) | _ \<Rightarrow> None) c)"

definition run_scheduler :: "('p, 'f, 'e, 'l, 'm) scheduler_ports \<Rightarrow> settings \<Rightarrow> ('e, 'l, 'm) runtime_world scheduler_arguments
    \<Rightarrow> (('e, 'l, 'm) runtime_world worker_world schedule_world, unit) loop_act" where
  "run_scheduler p s a =
     (if \<not> run_mode_ok (either (sa_once a) (se_run_once s)) (either (sa_start a) (se_backfill_start s)) (either (sa_until a) (se_backfill_end s))
      then runO (throw ValueError)
      else case (case sa_registry a of Some g \<Rightarrow> Inr g | None \<Rightarrow> create_provider_registry (sp_fixtures p) s) of
        Inl e \<Rightarrow> runO (throw e)
      | Inr g \<Rightarrow> let tasks = build_registered_tasks p (sp_zones p) s g in
          finallyO (scheduler_body p s a tasks) (on_state (lift_state (close_owned p (owns_http s a tasks) a g))))"

section \<open>The tasks of a production worker\<close>

lemma production_registry:
  assumes "se_provider_mode s = Mode_live" "se_app_env s = Env_production" "create_provider_registry fixtures s = Inr g"
  obtains cn hk us where "pv_id cn = ''cn.baostock.v1''" "pv_class cn = Cn_baostock" "pv_id hk = ''hk.xtquant.v1''" "pv_class hk = Hk_xtquant"
    "pv_id us = ''us.twelve-data.v1''" "pv_class us = Us_twelve_data" "xtquant_instruments_from (se_xtquant_symbols s) = Inr (pv_instruments hk)"
    "g = us_graph us (cn_hk_graph cn hk)"
proof -
  obtain g0 where g0: "live_registry s = Inr g0" "us_registry fixtures s g0 = Inr g"
    using assms by (auto simp: create_provider_registry_def bindE_eq_Inr)
  obtain cn hk where c: "pv_id cn = ''cn.baostock.v1''" "pv_class cn = Cn_baostock" "pv_id hk = ''hk.xtquant.v1''" "pv_class hk = Hk_xtquant"
    "xtquant_instruments_from (se_xtquant_symbols s) = Inr (pv_instruments hk)" "g0 = cn_hk_graph cn hk"
    using live_registry_graph [OF g0(1)] by blast
  obtain us where "pv_id us = ''us.twelve-data.v1''" "pv_class us = Us_twelve_data" "g = us_graph us g0"
    using us_registry_graph [of fixtures s cn hk g] g0(2) c assms(2) by auto
  then show thesis using that c by blast
qed

lemma task_names: "list_all (\<lambda>x. strip x = x)
    [''cn.daily-bars'', ''cn.bars.primary'', ''hk.core-index-bars'', ''hk.bars.primary'', ''hk.equity-bars'', ''hk.equity-bars.supplemental'',
     ''us.daily-bars'', ''us.market.primary'', ''cn.macro-release-calendar'', ''cn.macro.primary'', ''hk.macro-release-calendar'',
     ''hk.calendar.primary'', ''us.macro-release-calendar'', ''us.calendar.primary'', ''cn.official-headlines'', ''cn.news.primary'',
     ''hk.official-headlines'', ''hk.news.primary'']"
  by code_simp

lemma xtquant_classes:
  "xtquant_of_class True \<noteq> []" "xtquant_of_class False \<noteq> []" "distinct (map in_id (xtquant_of_class True))" "distinct (map in_id (xtquant_of_class False))"
  by code_simp+

text \<open>A task whose requests are the ones its handler accepts, with a window that is not empty; near the ends of the calendar it raises.\<close>

definition good_task :: "zone \<Rightarrow> 'e checkpointed_task \<Rightarrow> bool" where
  "good_task z t \<longleftrightarrow> (\<forall>d as_of cursor. (400 * day_us \<le> of_wall z (combine d 0) \<and> of_wall z (combine d 0) + 8 * day_us \<le> max_instant
        \<longrightarrow> (\<exists>q. ct_factory t d as_of cursor = Inr q))
     \<and> (\<forall>q. ct_factory t d as_of cursor = Inr q \<longrightarrow> iq_role q = ct_role t \<and> iq_dataset q = ct_dataset t \<and> iq_regions q = [ct_region t]
          \<and> iq_start q < iq_end q \<and> iq_as_of q = as_of))"

lemma registered_bar_task:
  assumes "daily_bar_task t s z i required role r run = Inr c" "strip role = role" "7 \<le> se_lookback_days s" "se_lookback_days s \<le> 366"
  shows "good_task z c"
proof -
  have c: "ct_factory c = daily_bar_request_factory role r z (se_lookback_days s)" "ct_role c = role" "ct_dataset c = Bars" "ct_region c = r"
    using assms(1) by (auto simp: daily_bar_task_def registered_task_def make_checkpointed_task_def split: if_splits)
  have day: "0 < day_us" by (simp add: us_defs)
  obtain L where L: "se_lookback_days s * day_us = L" "7 * day_us \<le> L" "L \<le> 366 * day_us" using assms(3,4) day by simp
  show ?thesis using day assms(2) L(2,3) unfolding good_task_def c daily_bar_request_factory_def L(1)
    by (auto simp: day_start_def instant_at_def bindE_def scheduled_request_def make_request_def split: if_splits)
qed

lemma registered_window_task:
  assumes "registered_task t i True role ds r (window_request_factory role ds r z a b) run = Inr c" "strip role = role"
    and "- day_us \<le> a" "a < b" "b \<le> 8 * day_us"
  shows "good_task z c"
proof -
  have c: "ct_factory c = window_request_factory role ds r z a b" "ct_role c = role" "ct_dataset c = ds" "ct_region c = r"
    using assms(1) by (auto simp: registered_task_def make_checkpointed_task_def split: if_splits)
  have day: "0 < day_us" by (simp add: us_defs)
  show ?thesis using day assms(2-5) unfolding good_task_def c window_request_factory_def
    by (auto simp: day_start_def instant_at_def bindE_def scheduled_request_def make_request_def split: if_splits)
qed

text \<open>What the constructors of the tasks make of the providers of the graph.\<close>

lemma registered_task_made:
  assumes "strip i \<noteq> []" "strip role \<noteq> []"
  shows "\<exists>c. registered_task t i required role ds r factory run = Inr c \<and> ct_id c = i \<and> ct_required c = required \<and> ct_role c = role
    \<and> ct_dataset c = ds \<and> ct_region c = r"
  using assms by (simp add: registered_task_def make_checkpointed_task_def us_defs)

lemma live_capabilities:
  "Macro_releases \<in> set (pv_datasets cn_nbs_release)" "CN \<in> set (pv_regions cn_nbs_release)" "Macro_releases \<in> set (pv_datasets hk_censtatd)"
  "HK \<in> set (pv_regions hk_censtatd)" "Macro_releases \<in> set (pv_datasets us_official_calendar)" "US \<in> set (pv_regions us_official_calendar)"
  "News \<in> set (pv_datasets cn_nbs_news)" "CN \<in> set (pv_regions cn_nbs_news)" "News \<in> set (pv_datasets hk_hkma)" "HK \<in> set (pv_regions hk_hkma)"
  by (simp_all add: live_providers)

text \<open>The task, its role, data set and region, and whether it is required.\<close>

definition task_row :: "'e checkpointed_task \<Rightarrow> string \<times> bool \<times> string \<times> dataset \<times> region" where
  "task_row c = (ct_id c, ct_required c, ct_role c, ct_dataset c, ct_region c)"

definition production_tasks :: "(string \<times> bool \<times> string \<times> dataset \<times> region) list" where
  "production_tasks = [(''cn.daily-bars'', True, ''cn.bars.primary'', Bars, CN), (''hk.core-index-bars'', True, ''hk.bars.primary'', Bars, HK),
     (''hk.equity-bars'', False, ''hk.equity-bars.supplemental'', Bars, HK), (''us.daily-bars'', True, ''us.market.primary'', Bars, US),
     (''cn.macro-release-calendar'', True, ''cn.macro.primary'', Macro_releases, CN),
     (''hk.macro-release-calendar'', True, ''hk.calendar.primary'', Macro_releases, HK),
     (''us.macro-release-calendar'', True, ''us.calendar.primary'', Macro_releases, US),
     (''cn.official-headlines'', True, ''cn.news.primary'', News, CN), (''hk.official-headlines'', True, ''hk.news.primary'', News, HK)]"

definition row_task :: "zone \<Rightarrow> string \<times> bool \<times> string \<times> dataset \<times> region \<Rightarrow> 'e checkpointed_task \<Rightarrow> bool" where
  "row_task z x c \<longleftrightarrow> task_row c = x \<and> good_task z c"

lemma bar_row:
  assumes "strip i = i" "strip role = role" "i \<noteq> []" "role \<noteq> []" "fields_in_range s"
  shows "\<exists>c. daily_bar_task t s z i required role r run = Inr c \<and> row_task z (i, required, role, Bars, r) c"
proof -
  obtain c where c: "daily_bar_task t s z i required role r run = Inr c" "task_row c = (i, required, role, Bars, r)"
    using registered_task_made [of i role t required Bars r "daily_bar_request_factory role r z (se_lookback_days s)" run] assms
    by (auto simp: daily_bar_task_def task_row_def)
  then show ?thesis using registered_bar_task [OF c(1) assms(2)] assms(5) by (auto simp: row_task_def fields_in_range_def within_def)
qed

lemma window_row:
  assumes "strip i = i" "strip role = role" "i \<noteq> []" "role \<noteq> []" "- day_us \<le> a" "a < b" "b \<le> 8 * day_us"
  shows "\<exists>c. registered_task t i True role ds r (window_request_factory role ds r z a b) run = Inr c \<and> row_task z (i, True, role, ds, r) c"
proof -
  obtain c where c: "registered_task t i True role ds r (window_request_factory role ds r z a b) run = Inr c" "task_row c = (i, True, role, ds, r)"
    using registered_task_made [of i role t True ds r "window_request_factory role ds r z a b" run] assms by (auto simp: task_row_def)
  then show ?thesis using registered_window_task [OF c(1) assms(2,5-7)] by (auto simp: row_task_def)
qed

lemma macro_row:
  assumes "strip i = i" "strip role = role" "i \<noteq> []" "role \<noteq> []" "fields_in_range s" "Macro_releases \<in> set (pv_datasets p)" "r \<in> set (pv_regions p)"
  shows "\<exists>c. macro_release_task t s z i role r p = Inr c \<and> row_task z (i, True, role, Macro_releases, r) c"
proof -
  have "0 < se_provider_timeout s * second_us" using assms(5) by (simp add: fields_in_range_def within_def second_us_def)
  then show ?thesis
    using window_row [OF assms(1-4), of 0 "8 * day_us"] assms(6,7)
    by (simp add: macro_release_task_def make_capable_handler_def bindE_def us_defs provider_handler_def)
qed

lemma news_row:
  assumes "strip i = i" "strip role = role" "i \<noteq> []" "role \<noteq> []" "fields_in_range s" "News \<in> set (pv_datasets p)" "r \<in> set (pv_regions p)"
  shows "\<exists>c. news_task t s z i role r p = Inr c \<and> row_task z (i, True, role, News, r) c"
proof -
  have "0 < se_provider_timeout s * second_us" using assms(5) by (simp add: fields_in_range_def within_def second_us_def)
  then show ?thesis
    using window_row [OF assms(1-4), of "- day_us" day_us] assms(6,7)
    by (simp add: news_task_def make_capable_handler_def bindE_def us_defs provider_handler_def)
qed

text \<open>XtQuant: the index task and the equity task need all instruments of their class.\<close>

lemma xtquant_row:
  assumes "strip i = i" "strip role = role" "i \<noteq> []" "role \<noteq> []" "fields_in_range s"
  shows "if set (map in_id (xtquant_of_class index)) \<subseteq> set (map in_id (pv_instruments p))
    then \<exists>c. xtquant_task t s z i required role p index = Inr c \<and> row_task z (i, required, role, Bars, HK) c
    else xtquant_task t s z i required role p index = Inl ValueError"
  using xtquant_classes assms(2,4)
  by (cases index) (auto simp: xtquant_task_def make_xtquant_def bindE_def provider_handler_def intro: bar_row [OF assms])


lemma mapE_rows:
  assumes "list_all2 (\<lambda>r x. \<exists>c. r = Inr c \<and> P x c) rs xs"
  shows "\<exists>cs. mapE id rs = Inr cs \<and> list_all2 P xs cs"
  using assms by (induction rs xs rule: list_all2_induct) (auto simp: bindE_def)

lemma mapE_head_error: "mapE id (Inl e # rs) = Inl e"
  by (simp add: bindE_def)

lemma xtquant_ids: "set (map in_id (xtquant_of_class True)) \<union> set (map in_id (xtquant_of_class False)) = set (map in_id xtquant_instruments)"
proof -
  have "list_all (\<lambda>i. i \<in> set (map in_id (xtquant_of_class True @ xtquant_of_class False))) (map in_id xtquant_instruments)"
    "list_all (\<lambda>i. i \<in> set (map in_id xtquant_instruments)) (map in_id (xtquant_of_class True @ xtquant_of_class False))"
    by code_simp+
  then show ?thesis unfolding list_all_iff by auto
qed

text \<open>C10: From accepted production settings the scheduler builds exactly the nine tasks of the report (bars of three markets and the Hong Kong
  equities, release calendars of three regions, headlines of two), only the equities being optional, and every request a task makes is
  one its handler accepts, with a window that is not empty; but when one approved symbol is missing from the configured XtQuant symbols,
  optional equities included, no task is built at all and the worker cannot start.\<close>

theorem production_tasks_cover_the_report:
  assumes "make_settings zones s = Inr s" "se_provider_mode s = Mode_live" "se_app_env s = Env_production"
    and "create_provider_registry fixtures s = Inr g" "zones (se_timezone s) = Inr z" "xtquant_instruments_from (se_xtquant_symbols s) = Inr ins"
  shows "if set (map in_id xtquant_instruments) \<subseteq> set (map in_id ins)
    then \<exists>ts. build_registered_tasks t zones s g = Inr ts \<and> map task_row ts = production_tasks \<and> (\<forall>c \<in> set ts. good_task z c)
    else build_registered_tasks t zones s g = Inl ValueError"
proof -
  obtain cn hk us where c: "pv_id cn = ''cn.baostock.v1''" "pv_class cn = Cn_baostock" "pv_id hk = ''hk.xtquant.v1''" "pv_class hk = Hk_xtquant"
    "pv_id us = ''us.twelve-data.v1''" "pv_class us = Us_twelve_data" and symbols: "xtquant_instruments_from (se_xtquant_symbols s) = Inr (pv_instruments hk)"
    and g: "g = us_graph us (cn_hk_graph cn hk)"
    by (rule production_registry [OF assms(2-4)])
  have ins: "pv_instruments hk = ins" using symbols assms(6) by simp
  have f: "fields_in_range s" using make_settings_Inr [OF assms(1)] by simp
  define rs where "rs = [daily_bar_task t s z ''cn.daily-bars'' True ''cn.bars.primary'' CN (run_baostock (provider_handler t cn ''cn.bars.primary'' CN)),
     xtquant_task t s z ''hk.core-index-bars'' True ''hk.bars.primary'' hk True,
     xtquant_task t s z ''hk.equity-bars'' False ''hk.equity-bars.supplemental'' hk False,
     daily_bar_task t s z ''us.daily-bars'' True ''us.market.primary'' US (run_twelve_data (provider_handler t us ''us.market.primary'' US)),
     macro_release_task t s z ''cn.macro-release-calendar'' ''cn.macro.primary'' CN cn_nbs_release,
     macro_release_task t s z ''hk.macro-release-calendar'' ''hk.calendar.primary'' HK hk_censtatd,
     macro_release_task t s z ''us.macro-release-calendar'' ''us.calendar.primary'' US us_official_calendar,
     news_task t s z ''cn.official-headlines'' ''cn.news.primary'' CN cn_nbs_news,
     news_task t s z ''hk.official-headlines'' ''hk.news.primary'' HK hk_hkma]"
  have build: "build_registered_tasks t zones s g = mapE id rs"
    using assms(2,5) us_graph_serves(2) [OF c]
    by (simp add: build_registered_tasks_def assert_production_safe_def g rs_def resolve_as_def resolve_def bindE_def us_graph_def cn_hk_graph_def c
        live_providers del: mapE.simps)
  note names = task_names [simplified]
  show ?thesis
  proof (cases "set (map in_id xtquant_instruments) \<subseteq> set (map in_id ins)")
    case True
    have "set (map in_id (xtquant_of_class index)) \<subseteq> set (map in_id xtquant_instruments)" for index
      by (cases index) (simp_all only: xtquant_ids [symmetric] Un_upper1 Un_upper2)
    then have "set (map in_id (xtquant_of_class index)) \<subseteq> set (map in_id (pv_instruments hk))" for index
      using True unfolding ins by (rule order.trans)
    then have "list_all2 (\<lambda>r x. \<exists>c. r = Inr c \<and> row_task z x c) rs production_tasks"
      using xtquant_row [of "''hk.core-index-bars''" "''hk.bars.primary''" s True hk t z True, OF _ _ _ _ f]
        xtquant_row [of "''hk.equity-bars''" "''hk.equity-bars.supplemental''" s False hk t z False, OF _ _ _ _ f]
      by (simp add: rs_def production_tasks_def names bar_row macro_row news_row f live_capabilities)
    then obtain ts where ts: "mapE id rs = Inr ts" "list_all2 (row_task z) production_tasks ts" using mapE_rows by blast
    then have "map task_row ts = production_tasks \<and> (\<forall>c \<in> set ts. good_task z c)"
      by (auto simp: row_task_def list_all2_conv_all_nth in_set_conv_nth intro: nth_equalityI)
    then show ?thesis using True build ts(1) by simp
  next
    case False
    obtain c1 where c1: "rs ! 0 = Inr c1" using bar_row [of "''cn.daily-bars''" "''cn.bars.primary''" s t z True CN "run_baostock (provider_handler t cn ''cn.bars.primary'' CN)"] f
      by (auto simp: rs_def names)
    have "\<not> set (map in_id (xtquant_of_class True)) \<subseteq> set (map in_id (pv_instruments hk))
      \<or> \<not> set (map in_id (xtquant_of_class False)) \<subseteq> set (map in_id (pv_instruments hk))"
      using False unfolding ins [symmetric] xtquant_ids [symmetric] by (rule contrapos_np) (simp only: Un_least de_Morgan_disj not_not)
    then have "rs ! 1 = Inl ValueError \<or> (\<exists>c2. rs ! 1 = Inr c2) \<and> rs ! 2 = Inl ValueError"
      using xtquant_row [of "''hk.core-index-bars''" "''hk.bars.primary''" s True hk t z True, OF _ _ _ _ f]
        xtquant_row [of "''hk.equity-bars''" "''hk.equity-bars.supplemental''" s False hk t z False, OF _ _ _ _ f]
      by (auto simp: rs_def names split: if_splits)
    then have "mapE id rs = Inl ValueError" using c1 by (auto simp: rs_def bindE_def)
    then show ?thesis using False build by simp
  qed
qed


section \<open>A scheduler that is not configured\<close>

text \<open>Without live providers, in production without report delivery, or with report delivery but no separate alert chat, the scheduler
  refuses to start: it returns with an exception, having run no task, no date and no report, and the only thing that it has done is to
  close what it had created itself.\<close>

theorem misconfigured_scheduler_runs_nothing:
  assumes "se_provider_mode s \<noteq> Mode_live \<or> sa_workflow a = None
    \<and> (se_app_env s = Env_production \<and> \<not> se_enabled (se_feishu s) \<or> se_enabled (se_feishu s) \<and> \<not> alert_chat_ok s)"
  shows "\<exists>e w'. run_scheduler p s a w = Some (Inl e, w')
    \<and> (w' = w \<or> (\<exists>http g. w' = snd (on_state (lift_state (close_owned p http a g)) w) \<and> (http \<longrightarrow> \<not> sa_http a)))"
proof (cases "run_mode_ok (either (sa_once a) (se_run_once s)) (either (sa_start a) (se_backfill_start s)) (either (sa_until a) (se_backfill_end s))")
  case mode: True
  show ?thesis
  proof (cases "case sa_registry a of Some g \<Rightarrow> Inr g | None \<Rightarrow> create_provider_registry (sp_fixtures p) s")
    case (Inl e)
    then show ?thesis using mode by (auto simp: run_scheduler_def runO_def throw_def)
  next
    case (Inr g)
    define tasks where "tasks = build_registered_tasks p (sp_zones p) s g"
    have refused: "\<exists>e. scheduler_body p s a tasks w = Some (Inl e, w)"
    proof (cases "\<exists>ts. tasks = Inr ts \<and> ts \<noteq> []")
      case False
      then show ?thesis by (auto simp: scheduler_body_def runO_def throw_def split: sum.splits)
    next
      case True
      then obtain ts where ts: "tasks = Inr ts" "ts \<noteq> []" by blast
      have "se_provider_mode s = Mode_live" using ts by (rule_tac ccontr) (simp add: tasks_def build_registered_tasks_def)
      then have "\<exists>e. prepare_worker p s z a ts = Inl e" for z
        using assms by (auto simp: prepare_worker_def resolve_workflow_def bindE_def)
      then obtain err where "prepare_worker p s z a ts = Inl (err z)" for z by metis
      then show ?thesis using ts by (cases "sp_zones p (se_timezone s)") (simp_all add: scheduler_body_def runO_def throw_def bindE_def)
    qed
    obtain c w' where closed: "on_state (lift_state (close_owned p (owns_http s a tasks) a g)) w = (c, w')" by fastforce
    have "\<exists>e. run_scheduler p s a w = Some (Inl e, w')"
      using mode Inr refused closed by (cases c) (auto simp: run_scheduler_def tasks_def [symmetric] Let_def finallyO_def)
    moreover have "owns_http s a tasks \<longrightarrow> \<not> sa_http a" by (simp add: owns_http_def)
    moreover have "w' = snd (on_state (lift_state (close_owned p (owns_http s a tasks) a g)) w)" using closed by simp
    ultimately show ?thesis by blast
  qed
qed (simp add: run_scheduler_def throw_def)

section \<open>Examples\<close>

definition demo_task_ports :: "(nat, string list, nat) task_ports" where
  "demo_task_ports = \<lparr>tp_handler = (\<lambda>p. demo_ingest False), tp_runner = (\<lambda>run q. throw RuntimeError), tp_now = int, tp_fresh = (\<lambda>n. int_str (int n)),
     tp_env = (\<lambda>k t. t)\<rparr>"

lemma demo_symbols: "case xtquant_instruments_from (se_xtquant_symbols demo_settings) of
    Inr ins \<Rightarrow> list_all (\<lambda>i. i \<in> set (map in_id ins)) (map in_id xtquant_instruments) | Inl e \<Rightarrow> False"
  by code_simp

theorem production_tasks_cover_the_report_witness:
  "\<exists>g ts. demo_registry = Inr g \<and> build_registered_tasks demo_task_ports demo_zones demo_settings g = Inr ts \<and> length ts = 9
     \<and> map ct_id (filter (\<lambda>c. \<not> ct_required c) ts) = [''hk.equity-bars'']"
proof -
  obtain g where g: "create_provider_registry (\<lambda>_. Inl RuntimeError) demo_settings = Inr g"
    using demo_registry_made by (auto simp: demo_registry_def split: sum.splits)
  obtain ins where ins: "xtquant_instruments_from (se_xtquant_symbols demo_settings) = Inr ins"
      "list_all (\<lambda>i. i \<in> set (map in_id ins)) (map in_id xtquant_instruments)"
    using demo_symbols by (auto split: sum.splits)
  have "set (map in_id xtquant_instruments) \<subseteq> set (map in_id ins)" using ins(2) unfolding list_all_iff by blast
  moreover have "se_provider_mode demo_settings = Mode_live" "se_app_env demo_settings = Env_production"
    "demo_zones (se_timezone demo_settings) = Inr (fixed_zone (8 * hour_us))"
    by (simp_all add: demo_settings_def demo_zones_def)
  ultimately obtain ts where ts: "build_registered_tasks demo_task_ports demo_zones demo_settings g = Inr ts" "map task_row ts = production_tasks"
    using production_tasks_cover_the_report [OF demo_settings_accepted _ _ g _ ins(1), of "fixed_zone (8 * hour_us)" demo_task_ports] by auto
  have ids: "map ct_id (filter (\<lambda>c. \<not> ct_required c) ts) = map fst (filter (\<lambda>x. \<not> fst (snd x)) (map task_row ts))"
    by (simp add: filter_map comp_def task_row_def)
  have "length ts = 9" using arg_cong [OF ts(2), of length] by (simp add: production_tasks_def)
  moreover have "map ct_id (filter (\<lambda>c. \<not> ct_required c) ts) = [''hk.equity-bars'']" unfolding ids ts(2) by (simp add: production_tasks_def)
  ultimately show ?thesis using g ts(1) by (simp add: demo_registry_def)
qed


text \<open>Ports that fail when they are used; closing the database is counted.\<close>

definition demo_scheduler_ports :: "(nat, string list, nat, nat, nat) scheduler_ports" where
  "demo_scheduler_ports = \<lparr>tp_handler = (\<lambda>p. demo_ingest False), tp_runner = (\<lambda>run q. throw RuntimeError), tp_now = int,
     tp_fresh = (\<lambda>n. int_str (int n)), tp_env = (\<lambda>k t. t), sp_zones = demo_zones, sp_fixtures = (\<lambda>c. Inl RuntimeError), sp_llm = None,
     sp_contract = demo_contract, sp_http = (\<lambda>n r. Request_error ''ConnectError''), sp_sha = id, sp_render = (\<lambda>r. Inr JNull),
     sp_report_env = (\<lambda>k db. db), sp_alert_env = (\<lambda>k t. t), sp_uuid5 = id, sp_try_lock = (\<lambda>k. ret True), sp_unlock = (\<lambda>k. ret ()),
     sp_digest = (\<lambda>t. []), sp_materialize = (\<lambda>s cutoff d rs. throw RuntimeError), sp_now = ret 0, sp_sleep = (\<lambda>d. throw RuntimeError),
     sp_close_http = ret (), sp_aclose = (\<lambda>p. ret ()), sp_dispose = (\<lambda>x. (Inr (), x\<lparr>rt_rest := rt_rest x + 1\<rparr>))\<rparr>"

definition demo_runtime :: "(nat, nat, nat) runtime_world" where
  "demo_runtime = \<lparr>rt_tasks = demo_task_world,
     rt_pipeline = \<lparr>pw_reports = demo_generation_world,
       pw_delivery = \<lparr>dw_db = demo_db, dw_steps = 0, dw_uuids = 0, dw_transport = \<lparr>fs_token = None, fs_expires = None, fs_log = [], fs_reads = 0\<rparr>,
         dw_sends = [], dw_sleeps = []\<rparr>,
       pw_alerts = \<lparr>aw_rows = [], aw_steps = 0, aw_uuids = 0, aw_transport = \<lparr>fs_token = None, fs_expires = None, fs_log = [], fs_reads = 0\<rparr>,
         aw_sends = [], aw_sleeps = []\<rparr>, pw_now = 0\<rparr>, rt_rest = 0\<rparr>"

definition demo_scheduler_world :: "(nat, nat, nat) runtime_world worker_world schedule_world" where
  "demo_scheduler_world = \<lparr>sx_state = \<lparr>ww_state = demo_runtime, ww_held = [], ww_sleeps = []\<rparr>, sx_runs = [], sx_notices = []\<rparr>"

definition no_arguments :: "'x scheduler_arguments" where
  "no_arguments = \<lparr>sa_registry = None, sa_database = False, sa_http = False, sa_workflow = None, sa_version = None, sa_max_runs = None, sa_once = None,
     sa_start = None, sa_until = None\<rparr>"

theorem misconfigured_scheduler_runs_nothing_witness:
  "\<exists>e w'. run_scheduler demo_scheduler_ports demo_settings no_arguments demo_scheduler_world = Some (Inl e, w')
     \<and> sx_runs w' = [] \<and> rt_pipeline (ww_state (sx_state w')) = rt_pipeline demo_runtime"
proof -
  let ?a = "no_arguments :: (nat, nat, nat) runtime_world scheduler_arguments"
  have bad: "se_provider_mode demo_settings \<noteq> Mode_live \<or> sa_workflow ?a = None \<and> (se_app_env demo_settings = Env_production
      \<and> \<not> se_enabled (se_feishu demo_settings) \<or> se_enabled (se_feishu demo_settings) \<and> \<not> alert_chat_ok demo_settings)"
    by (simp add: demo_settings_def default_settings_def no_arguments_def)
  have aclose: "close_all (sp_aclose demo_scheduler_ports) ps x = (Inr (), x)" for ps x
    by (induction ps) (simp_all add: demo_scheduler_ports_def bindA_def ret_def)
  have closed: "sx_runs (snd (on_state (lift_state (close_owned demo_scheduler_ports http ?a g)) demo_scheduler_world)) = []
      \<and> rt_pipeline (ww_state (sx_state (snd (on_state (lift_state (close_owned demo_scheduler_ports http ?a g)) demo_scheduler_world)))) = rt_pipeline demo_runtime"
    for http g
    using aclose by (simp add: on_state_def lift_state_def close_owned_def close_registry_def bindA_def no_arguments_def)
      (simp add: demo_scheduler_ports_def demo_scheduler_world_def ret_def bindA_def)
  from misconfigured_scheduler_runs_nothing [of demo_settings ?a demo_scheduler_ports demo_scheduler_world, OF bad]
  show ?thesis using closed by (auto simp: demo_scheduler_world_def)
qed

end
