(* ===== verification/Fact_Tables.thy ===== *)
theory Fact_Tables
  imports Ingest_Handlers "HOL-Library.Product_Lexorder"
begin

text \<open>
  The normalized facts and their tables: \<open>NormalizedFactRepository\<close> of \<open>storage/repositories.py\<close>
  with the contracts it stores (\<open>contracts/common.py\<close>, \<open>market.py\<close>, \<open>macro.py\<close>, \<open>news.py\<close>, the fields
  the platform reads). A decimal is its text, a stored payload the value it was dumped from, a time is in
  UTC. Bars and releases are written once; a changed source is a row of the revision table. SHA-256 is the
  parameter \<open>sha\<close>. What is shown here: the tables stay consistent under every sequence of writes.
\<close>

section \<open>Facts\<close>

record fact_source =
  so_provider :: string
  so_record :: string
  so_name :: string
  so_url :: "string option"
  so_symbol :: "string option"
  so_retrieved :: instant
  so_checksum :: string

datatype bar_interval = D1 | W1 | MO1

datatype adjustment = Raw | Split_adjusted | Total_return

record market_bar =
  mb_id :: string
  mb_instrument :: string
  mb_symbol :: string
  mb_region :: region
  mb_interval :: bar_interval
  mb_start :: instant
  mb_end :: instant
  mb_trading :: date
  mb_open :: string
  mb_high :: string
  mb_low :: string
  mb_close :: string
  mb_volume :: "string option"
  mb_currency :: string
  mb_adjustment :: adjustment
  mb_available :: instant
  mb_source :: fact_source

datatype release_status = Release_scheduled | Released | Delayed | Cancelled

record macro_release =
  mr_id :: string
  mr_series :: string
  mr_region :: region
  mr_name :: string
  mr_at :: "instant option"
  mr_date :: "date option"
  mr_available :: instant
  mr_actual :: "string option"
  mr_consensus :: "string option"
  mr_previous :: "string option"
  mr_unit :: string
  mr_status :: release_status
  mr_source :: fact_source

datatype news_status = News_active | News_corrected | News_retracted

datatype content_mode = Headline | Snippet | Full_text

record news_event =
  ne_id :: string
  ne_cluster :: "string option"
  ne_supersedes :: "string option"
  ne_status :: news_status
  ne_title :: string
  ne_summary :: "string option"
  ne_body :: "string option"
  ne_mode :: content_mode
  ne_language :: string
  ne_tier :: string
  ne_published :: "instant option"
  ne_pdate :: "date option"
  ne_available :: instant
  ne_regions :: "region list"
  ne_entities :: "string list"
  ne_topics :: "string list"
  ne_hash :: string
  ne_source :: fact_source

record market_observation =
  mo_id :: string
  mo_region :: region
  mo_scope :: string
  mo_metric :: string
  mo_value :: "string option"
  mo_observed :: instant
  mo_available :: instant
  mo_source :: fact_source

record macro_observation =
  ob_id :: string
  ob_series :: string
  ob_region :: region
  ob_end :: date
  ob_value :: "string option"
  ob_available :: instant
  ob_vintage :: string
  ob_revision :: int
  ob_source :: fact_source

record stored_instrument =
  si_id :: string
  si_canonical :: string
  si_region :: region
  si_venue :: string
  si_local :: string
  si_class :: string
  si_status :: string
  si_from :: date
  si_until :: "date option"
  si_source :: fact_source

section \<open>Tables\<close>

text \<open>
  A row has its primary key, the fact of its payload and the run that wrote it. The other columns of a bar,
  a release, an event or a revision repeat fields of the payload they were written with; the columns of an
  observation and of an instrument that an update leaves alone are kept beside it.
\<close>

record 'a fact_row =
  fw_id :: string
  fw_fact :: 'a
  fw_run :: uuid

record observation_row =
  ow_fact :: market_observation
  ow_run :: uuid
  ow_region :: region
  ow_metric :: string
  ow_scope :: string
  ow_observed :: instant

record instrument_alias =
  ia_instrument :: string
  ia_provider :: string
  ia_symbol :: string
  ia_from :: date
  ia_until :: "date option"

record fact_tables =
  ft_instruments :: "stored_instrument fact_row list"
  ft_aliases :: "instrument_alias list"
  ft_bars :: "market_bar fact_row list"
  ft_bar_revisions :: "market_bar fact_row list"
  ft_observations :: "observation_row list"
  ft_series :: "macro_series fact_row list"
  ft_macro :: "macro_observation fact_row list"
  ft_releases :: "macro_release fact_row list"
  ft_release_revisions :: "macro_release fact_row list"
  ft_news :: "news_event fact_row list"
  ft_news_regions :: "(string \<times> region) list"
  ft_news_entities :: "(string \<times> string) list"
  ft_news_topics :: "(string \<times> string) list"

definition empty_facts :: fact_tables where
  "empty_facts = \<lparr>ft_instruments = [], ft_aliases = [], ft_bars = [], ft_bar_revisions = [], ft_observations = [], ft_series = [],
     ft_macro = [], ft_releases = [], ft_release_revisions = [], ft_news = [], ft_news_regions = [], ft_news_entities = [],
     ft_news_topics = []\<rparr>"

text \<open>\<open>stable_id\<close>.\<close>

definition stable_id :: "(string \<Rightarrow> string) \<Rightarrow> string \<Rightarrow> string list \<Rightarrow> string" where
  "stable_id sha namespace parts = namespace @ ''_'' @ sha (dumps (JList (map JStr parts)))"

section \<open>Versions of a fact\<close>

text \<open>
  The union of the first row and the revisions of a fact, a revision joined with the first row of its key.
  \<open>row_number() over (partition by key order by rank desc) = 1\<close> keeps of every key the version with the
  greatest rank. Texts are ordered by their characters.
\<close>

record 'a version =
  ve_base :: 'a
  ve_fact :: 'a
  ve_run :: uuid
  ve_revision :: nat

definition base_version :: "'a fact_row \<Rightarrow> 'a version" where
  "base_version b = \<lparr>ve_base = fw_fact b, ve_fact = fw_fact b, ve_run = fw_run b, ve_revision = 0\<rparr>"

definition revision_version :: "'a fact_row \<Rightarrow> 'a fact_row \<Rightarrow> 'a version" where
  "revision_version b r = \<lparr>ve_base = fw_fact b, ve_fact = fw_fact r, ve_run = fw_run r, ve_revision = 1\<rparr>"

definition all_versions :: "('a \<Rightarrow> string) \<Rightarrow> 'a fact_row list \<Rightarrow> 'a fact_row list \<Rightarrow> 'a version list" where
  "all_versions key base revisions = map base_version base
     @ concat (map (\<lambda>r. map (\<lambda>b. revision_version b r) (filter (\<lambda>b. key (fw_fact b) = key (fw_fact r)) base)) revisions)"

definition newest :: "('v \<Rightarrow> 'k) \<Rightarrow> ('v \<Rightarrow> 'o::linorder) \<Rightarrow> 'v list \<Rightarrow> 'v list" where
  "newest key rank vs = map (\<lambda>k. last (sort_key rank (filter (\<lambda>v. key v = k) vs))) (remdups (map key vs))"

definition bar_checksum :: "market_bar \<Rightarrow> string" where
  "bar_checksum b = so_checksum (mb_source b)"

definition release_checksum :: "macro_release \<Rightarrow> string" where
  "release_checksum r = so_checksum (mr_source r)"

definition bar_versions :: "fact_tables \<Rightarrow> market_bar version list" where
  "bar_versions d = all_versions mb_id (ft_bars d) (ft_bar_revisions d)"

definition release_versions :: "fact_tables \<Rightarrow> macro_release version list" where
  "release_versions d = all_versions mr_id (ft_releases d) (ft_release_revisions d)"

definition bar_rank :: "market_bar version \<Rightarrow> instant \<times> nat \<times> string" where
  "bar_rank v = (mb_available (ve_fact v), ve_revision v, bar_checksum (ve_fact v))"

definition release_rank :: "macro_release version \<Rightarrow> instant \<times> nat \<times> string" where
  "release_rank v = (mr_available (ve_fact v), ve_revision v, release_checksum (ve_fact v))"

section \<open>Writes\<close>

definition upsert_instrument :: "uuid \<Rightarrow> stored_instrument \<Rightarrow> (fact_tables, unit) act" where
  "upsert_instrument run x d =
     (let row = \<lparr>fw_id = si_id x, fw_fact = x, fw_run = run\<rparr>;
        symbol = (case so_symbol (si_source x) of Some s \<Rightarrow> if s = [] then si_local x else s | None \<Rightarrow> si_local x);
        alias = \<lparr>ia_instrument = si_id x, ia_provider = so_provider (si_source x), ia_symbol = symbol, ia_from = si_from x, ia_until = si_until x\<rparr>;
        same = (\<lambda>a. ia_provider a = ia_provider alias \<and> ia_symbol a = symbol \<and> ia_from a = si_from x) in
      if \<not> (column_fits 64 (Some (si_id x)) \<and> column_fits 64 (Some (si_canonical x)) \<and> column_fits 24 (Some (si_status x))
            \<and> column_fits 64 (Some (ia_provider alias)) \<and> column_fits 128 (Some symbol)) then (Inl data_error, d)
      else if \<exists>r \<in> set (ft_instruments d). fw_id r \<noteq> si_id x \<and> si_canonical (fw_fact r) = si_canonical x then (Inl IntegrityError, d)
      else (Inr (), d\<lparr>ft_instruments := (if \<exists>r \<in> set (ft_instruments d). fw_id r = si_id x
              then snd (update_where (\<lambda>r. fw_id r = si_id x) (\<lambda>_. row) (ft_instruments d)) else ft_instruments d @ [row]),
            ft_aliases := (if \<exists>a \<in> set (ft_aliases d). same a
              then snd (update_where same (\<lambda>a. a\<lparr>ia_instrument := si_id x, ia_until := si_until x\<rparr>) (ft_aliases d))
              else ft_aliases d @ [alias])\<rparr>))"

text \<open>The checksum of the version of a bar that is current now.\<close>

definition current_bar_checksum :: "string \<Rightarrow> fact_tables \<Rightarrow> string option" where
  "current_bar_checksum i d = (case newest (\<lambda>v. mb_id (ve_base v)) bar_rank (filter (\<lambda>v. mb_id (ve_base v) = i) (bar_versions d)) of
     [] \<Rightarrow> None | v # _ \<Rightarrow> Some (bar_checksum (ve_fact v)))"

definition same_bar_source :: "market_bar \<Rightarrow> market_bar \<Rightarrow> bool" where
  "same_bar_source a b \<longleftrightarrow> mb_instrument a = mb_instrument b \<and> mb_interval a = mb_interval b \<and> mb_start a = mb_start b
     \<and> mb_adjustment a = mb_adjustment b \<and> so_provider (mb_source a) = so_provider (mb_source b)"

definition bar_fits :: "market_bar \<Rightarrow> bool" where
  "bar_fits b \<longleftrightarrow> column_fits 96 (Some (mb_id b)) \<and> column_fits 64 (Some (mb_symbol b)) \<and> column_fits 64 (Some (so_provider (mb_source b)))
     \<and> column_fits 256 (Some (so_record (mb_source b)))"

definition bar_revision :: "(string \<Rightarrow> string) \<Rightarrow> uuid \<Rightarrow> market_bar \<Rightarrow> market_bar fact_row" where
  "bar_revision sha run b = \<lparr>fw_id = stable_id sha ''market-bar-revision'' [mb_id b, isoformat_utc (mb_available b), bar_checksum b],
     fw_fact = b, fw_run = run\<rparr>"

definition same_bar_revision :: "market_bar fact_row \<Rightarrow> market_bar fact_row \<Rightarrow> bool" where
  "same_bar_revision a b \<longleftrightarrow> mb_id (fw_fact a) = mb_id (fw_fact b) \<and> mb_available (fw_fact a) = mb_available (fw_fact b)
     \<and> bar_checksum (fw_fact a) = bar_checksum (fw_fact b)"

definition insert_bar :: "uuid \<Rightarrow> market_bar \<Rightarrow> (fact_tables, bool) act" where
  "insert_bar run b d =
     (if \<not> bar_fits b then (Inl data_error, d)
      else case insert_on_conflict (\<lambda>x r. fw_id r = fw_id x) (\<lambda>x r. same_bar_source (fw_fact x) (fw_fact r))
             \<lparr>fw_id = mb_id b, fw_fact = b, fw_run = run\<rparr> (ft_bars d) of
        (Inl e, _) \<Rightarrow> (Inl e, d)
      | (Inr False, _) \<Rightarrow> (Inr False, d)
      | (Inr True, t) \<Rightarrow> if mb_instrument b \<notin> fw_id ` set (ft_instruments d) then (Inl IntegrityError, d) else (Inr True, d\<lparr>ft_bars := t\<rparr>))"

definition insert_bar_revision :: "(string \<Rightarrow> string) \<Rightarrow> uuid \<Rightarrow> market_bar \<Rightarrow> (fact_tables, unit) act" where
  "insert_bar_revision sha run b d =
     (if \<not> column_fits 96 (Some (fw_id (bar_revision sha run b))) then (Inl data_error, d)
      else case insert_on_conflict same_bar_revision (\<lambda>x r. fw_id r = fw_id x) (bar_revision sha run b) (ft_bar_revisions d) of
        (Inl e, _) \<Rightarrow> (Inl e, d)
      | (Inr _, t) \<Rightarrow> (Inr (), d\<lparr>ft_bar_revisions := t\<rparr>))"

definition upsert_bar :: "(string \<Rightarrow> string) \<Rightarrow> uuid \<Rightarrow> market_bar \<Rightarrow> (fact_tables, unit) act" where
  "upsert_bar sha run b = bindA (insert_bar run b) (\<lambda>inserted. if inserted then ret ()
     else (\<lambda>d. case current_bar_checksum (mb_id b) d of
         None \<Rightarrow> (Inl RuntimeError, d)
       | Some c \<Rightarrow> if c = bar_checksum b then (Inr (), d) else insert_bar_revision sha run b d))"

definition upsert_market_observation :: "uuid \<Rightarrow> market_observation \<Rightarrow> (fact_tables, unit) act" where
  "upsert_market_observation run x d =
     (if \<not> (column_fits 96 (Some (mo_id x)) \<and> column_fits 128 (Some (mo_metric x)) \<and> column_fits 128 (Some (mo_scope x))
           \<and> column_fits 64 (Some (so_provider (mo_source x))) \<and> column_fits 256 (Some (so_record (mo_source x)))) then (Inl data_error, d)
      else (Inr (), d\<lparr>ft_observations := (if \<exists>r \<in> set (ft_observations d). mo_id (ow_fact r) = mo_id x
          then snd (update_where (\<lambda>r. mo_id (ow_fact r) = mo_id x) (\<lambda>r. r\<lparr>ow_fact := x, ow_run := run\<rparr>) (ft_observations d))
          else ft_observations d @ [\<lparr>ow_fact = x, ow_run = run, ow_region = mo_region x, ow_metric = mo_metric x, ow_scope = mo_scope x,
            ow_observed = mo_observed x\<rparr>])\<rparr>))"

definition upsert_macro_series :: "uuid \<Rightarrow> macro_series \<Rightarrow> (fact_tables, unit) act" where
  "upsert_macro_series run x d =
     (let row = \<lparr>fw_id = ms_id x, fw_fact = x, fw_run = run\<rparr> in
      if \<not> column_fits 160 (Some (ms_id x)) then (Inl data_error, d)
      else (Inr (), d\<lparr>ft_series := (if \<exists>r \<in> set (ft_series d). fw_id r = ms_id x
          then snd (update_where (\<lambda>r. fw_id r = ms_id x) (\<lambda>_. row) (ft_series d)) else ft_series d @ [row])\<rparr>))"

text \<open>An observation of any conflicting key is left alone.\<close>

definition upsert_macro_observation :: "uuid \<Rightarrow> macro_observation \<Rightarrow> (fact_tables, unit) act" where
  "upsert_macro_observation run x d =
     (if \<not> (column_fits 96 (Some (ob_id x)) \<and> column_fits 128 (Some (ob_vintage x)) \<and> int4_fits (ob_revision x)
           \<and> column_fits 64 (Some (so_provider (ob_source x)))) then (Inl data_error, d)
      else if \<exists>r \<in> set (ft_macro d). fw_id r = ob_id x \<or> (ob_series (fw_fact r) = ob_series x \<and> ob_end (fw_fact r) = ob_end x
           \<and> ob_vintage (fw_fact r) = ob_vintage x \<and> so_provider (ob_source (fw_fact r)) = so_provider (ob_source x)) then (Inr (), d)
      else if ob_series x \<notin> fw_id ` set (ft_series d) then (Inl IntegrityError, d)
      else (Inr (), d\<lparr>ft_macro := ft_macro d @ [\<lparr>fw_id = ob_id x, fw_fact = x, fw_run = run\<rparr>]\<rparr>))"

definition insert_release :: "uuid \<Rightarrow> macro_release \<Rightarrow> (fact_tables, bool) act" where
  "insert_release run x d =
     (if \<not> (column_fits 128 (Some (mr_id x)) \<and> column_fits 64 (Some (release_checksum x))) then (Inl data_error, d)
      else if \<exists>r \<in> set (ft_releases d). fw_id r = mr_id x then (Inr False, d)
      else if mr_series x \<notin> fw_id ` set (ft_series d) then (Inl IntegrityError, d)
      else (Inr True, d\<lparr>ft_releases := ft_releases d @ [\<lparr>fw_id = mr_id x, fw_fact = x, fw_run = run\<rparr>]\<rparr>))"

definition release_revision :: "(string \<Rightarrow> string) \<Rightarrow> uuid \<Rightarrow> macro_release \<Rightarrow> macro_release fact_row" where
  "release_revision sha run x = \<lparr>fw_id = stable_id sha ''macro-release-revision'' [mr_id x, release_checksum x], fw_fact = x, fw_run = run\<rparr>"

definition same_release_revision :: "macro_release fact_row \<Rightarrow> macro_release fact_row \<Rightarrow> bool" where
  "same_release_revision a b \<longleftrightarrow> mr_id (fw_fact a) = mr_id (fw_fact b) \<and> release_checksum (fw_fact a) = release_checksum (fw_fact b)"

definition insert_release_revision :: "(string \<Rightarrow> string) \<Rightarrow> uuid \<Rightarrow> macro_release \<Rightarrow> (fact_tables, unit) act" where
  "insert_release_revision sha run x d =
     (if \<not> column_fits 96 (Some (fw_id (release_revision sha run x))) then (Inl data_error, d)
      else case insert_on_conflict same_release_revision (\<lambda>x r. fw_id r = fw_id x) (release_revision sha run x) (ft_release_revisions d) of
        (Inl e, _) \<Rightarrow> (Inl e, d)
      | (Inr _, t) \<Rightarrow> (Inr (), d\<lparr>ft_release_revisions := t\<rparr>))"

text \<open>A release is compared with its first row only.\<close>

definition upsert_macro_release :: "(string \<Rightarrow> string) \<Rightarrow> uuid \<Rightarrow> macro_release \<Rightarrow> (fact_tables, unit) act" where
  "upsert_macro_release sha run x = bindA (insert_release run x) (\<lambda>inserted. if inserted then ret ()
     else (\<lambda>d. if map_option (\<lambda>r. release_checksum (fw_fact r)) (find (\<lambda>r. fw_id r = mr_id x) (ft_releases d)) = Some (release_checksum x)
       then (Inr (), d) else insert_release_revision sha run x d))"

definition upsert_news_event :: "uuid \<Rightarrow> news_event \<Rightarrow> (fact_tables, unit) act" where
  "upsert_news_event run x d =
     (if \<not> (column_fits 96 (Some (ne_id x)) \<and> column_fits 96 (ne_cluster x) \<and> column_fits 64 (Some (so_provider (ne_source x)))
           \<and> column_fits 256 (Some (so_record (ne_source x)))) then (Inl data_error, d)
      else if \<exists>r \<in> set (ft_news d). fw_id r = ne_id x then (Inr (), d)
      else if \<not> (distinct (ne_regions x) \<and> distinct (ne_entities x) \<and> distinct (ne_topics x)) then (Inl IntegrityError, d)
      else if \<not> (list_all (\<lambda>e. column_fits 128 (Some e)) (ne_entities x) \<and> list_all (\<lambda>t. column_fits 128 (Some t)) (ne_topics x))
        then (Inl data_error, d)
      else (Inr (), d\<lparr>ft_news := ft_news d @ [\<lparr>fw_id = ne_id x, fw_fact = x, fw_run = run\<rparr>],
        ft_news_regions := filter (\<lambda>r. fst r \<noteq> ne_id x) (ft_news_regions d) @ map (Pair (ne_id x)) (ne_regions x),
        ft_news_entities := filter (\<lambda>r. fst r \<noteq> ne_id x) (ft_news_entities d) @ map (Pair (ne_id x)) (ne_entities x),
        ft_news_topics := filter (\<lambda>r. fst r \<noteq> ne_id x) (ft_news_topics d) @ map (Pair (ne_id x)) (ne_topics x)\<rparr>))"

end
