(* ===== verification/Fact_Reads.thy ===== *)
theory Fact_Reads
  imports Fact_Tables
begin

text \<open>
  The reads of the fact tables: \<open>PostgresDataRepository\<close> of \<open>storage/repositories.py\<close>. A read with
  \<open>as_of\<close> sees what was available by then; what that promises is shown in \<open>Fact_History\<close>.\<close>

section \<open>What is available at a time\<close>

definition bars_at :: "instant \<Rightarrow> fact_tables \<Rightarrow> market_bar version list" where
  "bars_at t d = filter (\<lambda>v. mb_available (ve_fact v) \<le> t) (bar_versions d)"

definition releases_at :: "instant \<Rightarrow> fact_tables \<Rightarrow> macro_release version list" where
  "releases_at t d = filter (\<lambda>v. mr_available (ve_fact v) \<le> t) (release_versions d)"

definition macro_at :: "instant \<Rightarrow> fact_tables \<Rightarrow> macro_observation list" where
  "macro_at t d = filter (\<lambda>x. ob_available x \<le> t) (map fw_fact (ft_macro d))"

text \<open>An event with what it is joined with: its regions, entities and topics.\<close>

record joined_news =
  jn_event :: news_event
  jn_regions :: "region list"
  jn_entities :: "string list"
  jn_topics :: "string list"

definition joined :: "string \<Rightarrow> (string \<times> 'a) list \<Rightarrow> 'a list" where
  "joined i t = map snd (filter (\<lambda>r. fst r = i) t)"

definition join_news :: "fact_tables \<Rightarrow> news_event fact_row \<Rightarrow> joined_news" where
  "join_news d r = \<lparr>jn_event = fw_fact r, jn_regions = joined (fw_id r) (ft_news_regions d),
     jn_entities = joined (fw_id r) (ft_news_entities d), jn_topics = joined (fw_id r) (ft_news_topics d)\<rparr>"

definition news_at :: "instant \<Rightarrow> fact_tables \<Rightarrow> joined_news list" where
  "news_at t d = filter (\<lambda>j. ne_available (jn_event j) \<le> t) (map (join_news d) (ft_news d))"

definition current_bars :: "instant \<Rightarrow> fact_tables \<Rightarrow> market_bar version list" where
  "current_bars t d = newest (\<lambda>v. mb_id (ve_base v)) bar_rank (bars_at t d)"

section \<open>Market reads\<close>

record bar_read =
  br_instruments :: "string list"
  br_interval :: bar_interval
  br_adjustment :: adjustment
  br_start :: instant
  br_end :: instant
  br_as_of :: instant
  br_limit :: nat

definition list_bars :: "bar_read \<Rightarrow> fact_tables \<Rightarrow> market_bar list" where
  "list_bars q d = map ve_fact (take (br_limit q)
     (sort_key (\<lambda>v. (mb_instrument (ve_base v), mb_start (ve_base v), mb_id (ve_base v)))
       (filter (\<lambda>v. let b = ve_base v in mb_instrument b \<in> set (br_instruments q) \<and> mb_interval b = br_interval q
           \<and> mb_adjustment b = br_adjustment q \<and> br_start q \<le> mb_start b \<and> mb_start b < br_end q)
         (current_bars (br_as_of q) d))))"

record market_snapshot =
  mk_instrument :: string
  mk_symbol :: string
  mk_region :: region
  mk_price_time :: instant
  mk_last :: string
  mk_currency :: string
  mk_available :: instant
  mk_source :: fact_source

definition snapshot_of :: "market_bar \<Rightarrow> market_snapshot" where
  "snapshot_of b = \<lparr>mk_instrument = mb_instrument b, mk_symbol = mb_symbol b, mk_region = mb_region b, mk_price_time = mb_end b,
     mk_last = mb_close b, mk_currency = mb_currency b, mk_available = mb_available b, mk_source = mb_source b\<rparr>"

definition list_snapshots :: "string list \<Rightarrow> instant \<Rightarrow> fact_tables \<Rightarrow> market_snapshot list" where
  "list_snapshots ids t d = map (\<lambda>v. snapshot_of (ve_fact v)) (sort_key (\<lambda>v. mb_instrument (ve_base v))
     (newest (\<lambda>v. mb_instrument (ve_base v)) (\<lambda>v. (mb_end (ve_base v), mb_available (ve_fact v)))
       (filter (\<lambda>v. mb_instrument (ve_base v) \<in> set ids \<and> mb_interval (ve_base v) = D1 \<and> mb_adjustment (ve_base v) = Raw)
         (current_bars t d))))"

record observation_read =
  or_regions :: "region list"
  or_metrics :: "string list"
  or_scopes :: "string list"
  or_start :: instant
  or_end :: instant
  or_as_of :: instant
  or_limit :: nat

definition list_market_observations :: "observation_read \<Rightarrow> fact_tables \<Rightarrow> market_observation list" where
  "list_market_observations q d = map ow_fact (take (or_limit q) (sort_key (\<lambda>r. (ow_observed r, ow_metric r, mo_id (ow_fact r)))
     (filter (\<lambda>r. ow_region r \<in> set (or_regions q) \<and> ow_metric r \<in> set (or_metrics q) \<and> or_start q \<le> ow_observed r
         \<and> ow_observed r < or_end q \<and> mo_available (ow_fact r) \<le> or_as_of q \<and> (or_scopes q = [] \<or> ow_scope r \<in> set (or_scopes q)))
       (ft_observations d))))"

section \<open>Macro reads\<close>

definition list_macro_series :: "region list \<Rightarrow> string list \<Rightarrow> nat \<Rightarrow> fact_tables \<Rightarrow> macro_series list" where
  "list_macro_series rs ids limit d = take limit (sort_key ms_id (filter (\<lambda>x. ms_region x \<in> set rs \<and> (ids = [] \<or> ms_id x \<in> set ids))
     (map fw_fact (ft_series d))))"

datatype revision_policy = Latest_as_of | First_release | All_vintages

record macro_read =
  mq_series :: "string list"
  mq_from :: date
  mq_to :: date
  mq_as_of :: instant
  mq_policy :: revision_policy
  mq_limit :: nat

text \<open>The first vintage is the one whose rank is the least.\<close>

definition oldest :: "('v \<Rightarrow> 'k) \<Rightarrow> ('v \<Rightarrow> 'o::linorder) \<Rightarrow> 'v list \<Rightarrow> 'v list" where
  "oldest key rank vs = map (\<lambda>k. hd (sort_key rank (filter (\<lambda>v. key v = k) vs))) (remdups (map key vs))"

definition observation_rank :: "macro_observation \<Rightarrow> instant \<times> int \<times> string" where
  "observation_rank x = (ob_available x, ob_revision x, ob_id x)"

definition list_macro_observations :: "macro_read \<Rightarrow> fact_tables \<Rightarrow> macro_observation list" where
  "list_macro_observations q d = (let xs = filter (\<lambda>x. ob_series x \<in> set (mq_series q) \<and> mq_from q \<le> ob_end x \<and> ob_end x \<le> mq_to q)
       (macro_at (mq_as_of q) d); period = (\<lambda>x. (ob_series x, ob_end x)) in
     take (mq_limit q) (case mq_policy q of
       All_vintages \<Rightarrow> sort_key (\<lambda>x. (ob_series x, ob_end x, ob_available x, ob_revision x)) xs
     | Latest_as_of \<Rightarrow> sort_key period (newest period observation_rank xs)
     | First_release \<Rightarrow> sort_key period (oldest period observation_rank xs)))"

text \<open>\<open>_date_only_window\<close>, and the times the database makes of dates (its session is in UTC).\<close>

definition date_only_window :: "instant \<Rightarrow> instant \<Rightarrow> date \<times> date" where
  "date_only_window a b = (wall_date a, wall_date (b - 1))"

definition coalesce_time :: "instant option \<Rightarrow> date option \<Rightarrow> instant" where
  "coalesce_time at day = (case at of Some t \<Rightarrow> t | None \<Rightarrow> (case day of Some x \<Rightarrow> combine x 0 | None \<Rightarrow> 0))"

definition in_window :: "instant \<Rightarrow> instant \<Rightarrow> instant option \<Rightarrow> date option \<Rightarrow> bool" where
  "in_window a b at day \<longleftrightarrow> (case at of Some t \<Rightarrow> a \<le> t \<and> t < b | None \<Rightarrow> False)
     \<or> (case day of Some x \<Rightarrow> fst (date_only_window a b) \<le> x \<and> x \<le> snd (date_only_window a b) | None \<Rightarrow> False)"

record release_read =
  rq_regions :: "region list"
  rq_from :: instant
  rq_to :: instant
  rq_as_of :: instant
  rq_limit :: nat

definition current_releases :: "instant \<Rightarrow> fact_tables \<Rightarrow> macro_release version list" where
  "current_releases t d = newest (\<lambda>v. mr_id (ve_base v)) release_rank (releases_at t d)"

text \<open>The window is tested on the first row of a release.\<close>

definition list_macro_releases :: "release_read \<Rightarrow> fact_tables \<Rightarrow> macro_release list" where
  "list_macro_releases q d = map ve_fact (take (rq_limit q)
     (sort_key (\<lambda>v. (coalesce_time (mr_at (ve_base v)) (mr_date (ve_base v)), mr_id (ve_base v)))
       (filter (\<lambda>v. mr_region (ve_base v) \<in> set (rq_regions q) \<and> in_window (rq_from q) (rq_to q) (mr_at (ve_base v)) (mr_date (ve_base v)))
         (current_releases (rq_as_of q) d))))"

section \<open>News reads\<close>

record news_read =
  nq_regions :: "region list"
  nq_from :: instant
  nq_to :: instant
  nq_as_of :: instant
  nq_entities :: "string list"
  nq_topics :: "string list"
  nq_languages :: "string list"
  nq_tiers :: "string list"
  nq_superseded :: bool
  nq_mode :: content_mode
  nq_limit :: nat

definition limit_news_content :: "content_mode \<Rightarrow> news_event \<Rightarrow> news_event" where
  "limit_news_content m x = (case m of
     Headline \<Rightarrow> x\<lparr>ne_summary := None, ne_body := None, ne_mode := Headline\<rparr>
   | Snippet \<Rightarrow> x\<lparr>ne_body := None, ne_mode := Snippet\<rparr>
   | Full_text \<Rightarrow> x)"

text \<open>The joins with \<open>distinct\<close> keep an event that meets one of the regions, entities and topics.\<close>

definition news_matches :: "news_read \<Rightarrow> joined_news \<Rightarrow> bool" where
  "news_matches q j \<longleftrightarrow> (let x = jn_event j in set (jn_regions j) \<inter> set (nq_regions q) \<noteq> {}
     \<and> in_window (nq_from q) (nq_to q) (ne_published x) (ne_pdate x)
     \<and> (nq_entities q = [] \<or> set (jn_entities j) \<inter> set (nq_entities q) \<noteq> {})
     \<and> (nq_topics q = [] \<or> set (jn_topics j) \<inter> set (nq_topics q) \<noteq> {})
     \<and> (nq_languages q = [] \<or> ne_language x \<in> set (nq_languages q)) \<and> (nq_tiers q = [] \<or> ne_tier x \<in> set (nq_tiers q)))"

definition without_superseded :: "news_event list \<Rightarrow> news_event list" where
  "without_superseded xs = filter (\<lambda>x. Some (ne_id x) \<notin> ne_supersedes ` set xs) xs"

definition list_news :: "news_read \<Rightarrow> fact_tables \<Rightarrow> news_event list" where
  "list_news q d = (let xs = take (nq_limit q) (sort_key (\<lambda>x. (- coalesce_time (ne_published x) (ne_pdate x), ne_id x))
       (map jn_event (filter (news_matches q) (news_at (nq_as_of q) d)))) in
     map (limit_news_content (nq_mode q)) (if nq_superseded q then xs else without_superseded xs))"

section \<open>Sequences of writes\<close>

datatype fact_op =
    Put_instrument uuid stored_instrument
  | Put_bar uuid market_bar
  | Put_market_observation uuid market_observation
  | Put_series uuid macro_series
  | Put_macro_observation uuid macro_observation
  | Put_release uuid macro_release
  | Put_news uuid news_event

fun fact_exec :: "(string \<Rightarrow> string) \<Rightarrow> fact_op \<Rightarrow> fact_tables \<Rightarrow> fact_tables" where
  "fact_exec sha (Put_instrument i x) d = snd (upsert_instrument i x d)"
| "fact_exec sha (Put_bar i x) d = snd (upsert_bar sha i x d)"
| "fact_exec sha (Put_market_observation i x) d = snd (upsert_market_observation i x d)"
| "fact_exec sha (Put_series i x) d = snd (upsert_macro_series i x d)"
| "fact_exec sha (Put_macro_observation i x) d = snd (upsert_macro_observation i x d)"
| "fact_exec sha (Put_release i x) d = snd (upsert_macro_release sha i x d)"
| "fact_exec sha (Put_news i x) d = snd (upsert_news_event i x d)"

text \<open>When the fact of a write became available; instruments and series have no such time.\<close>

fun available_after :: "instant \<Rightarrow> fact_op \<Rightarrow> bool" where
  "available_after t (Put_bar i x) = (t < mb_available x)"
| "available_after t (Put_market_observation i x) = (t < mo_available x)"
| "available_after t (Put_macro_observation i x) = (t < ob_available x)"
| "available_after t (Put_release i x) = (t < mr_available x)"
| "available_after t (Put_news i x) = (t < ne_available x)"
| "available_after t op = True"

end
