(* ===== verification/Fact_History.thy ===== *)
theory Fact_History
  imports Fact_Reads
begin

text \<open>
  What the fact tables promise. Every sequence of writes keeps them consistent; a read as of a time does
  not see facts that became available later, so it does not change when they are written; the newest
  state of a bar is read back; and two states that the tables do not keep. The locale \<open>point_in_time\<close> is the
  contract of a read: what a write dated later leaves as it is.
\<close>

section \<open>The version with the greatest rank\<close>

lemma newest_mem:
  assumes "v \<in> set (newest key rank vs)"
  shows "v \<in> set vs" "u \<in> set vs \<Longrightarrow> key u = key v \<Longrightarrow> rank u \<le> rank v"
proof -
  obtain k where k: "k \<in> key ` set vs" "v = last (sort_key rank (filter (\<lambda>v. key v = k) vs))"
    using assms by (auto simp: newest_def)
  let ?s = "sort_key rank (filter (\<lambda>v. key v = k) vs)"
  have "filter (\<lambda>v. key v = k) vs \<noteq> []" using k(1) by (auto simp: filter_empty_conv)
  then have ne: "?s \<noteq> []" by (metis length_0_conv length_sort)
  then have "v \<in> set ?s" using k(2) last_in_set by blast
  then have v: "v \<in> set vs" "key v = k" by auto
  then show "v \<in> set vs" by simp
  show "rank u \<le> rank v" if "u \<in> set vs" "key u = key v"
  proof -
    have "u \<in> set ?s" using that v(2) by simp
    then obtain i where i: "i < length ?s" "?s ! i = u" unfolding in_set_conv_nth by blast
    have "sorted (map rank ?s)" by simp
    moreover have "i \<le> length ?s - 1" "length ?s - 1 < length ?s" using i(1) ne by auto
    ultimately have "map rank ?s ! i \<le> map rank ?s ! (length ?s - 1)" using i(1) by (intro sorted_nth_mono) simp_all
    then have "rank (?s ! i) \<le> rank (?s ! (length ?s - 1))" using i(1) \<open>length ?s - 1 < length ?s\<close> by (metis nth_map)
    then show ?thesis using k(2) ne by (simp add: i(2) last_conv_nth del: set_sort length_sort)
  qed
qed

lemma newest_keys: "key ` set (newest key rank vs) = key ` set vs" "map key (newest key rank vs) = remdups (map key vs)"
proof -
  have "key (last (sort_key rank (filter (\<lambda>v. key v = k) vs))) = k" if "k \<in> key ` set vs" for k
  proof -
    have "filter (\<lambda>v. key v = k) vs \<noteq> []" using that by (auto simp: filter_empty_conv)
    then have "sort_key rank (filter (\<lambda>v. key v = k) vs) \<noteq> []" by (metis length_0_conv length_sort)
    then have "last (sort_key rank (filter (\<lambda>v. key v = k) vs)) \<in> set (filter (\<lambda>v. key v = k) vs)"
      using last_in_set by fastforce
    then show ?thesis by simp
  qed
  then show "map key (newest key rank vs) = remdups (map key vs)" by (auto simp: newest_def intro!: map_idI)
  then show "key ` set (newest key rank vs) = key ` set vs" by (metis list.set_map set_remdups)
qed

lemma newest_distinct: "distinct (map key (newest key rank vs))"
  by (simp add: newest_keys(2))

section \<open>Consistent tables\<close>

definition versions_ok :: "('a \<Rightarrow> string) \<Rightarrow> 'a fact_row list \<Rightarrow> 'a fact_row list \<Rightarrow> bool" where
  "versions_ok key base revisions \<longleftrightarrow> (\<forall>r \<in> set base. fw_id r = key (fw_fact r)) \<and> distinct (map fw_id base)
     \<and> (\<forall>r \<in> set revisions. key (fw_fact r) \<in> fw_id ` set base)"

definition facts_ok :: "fact_tables \<Rightarrow> bool" where
  "facts_ok d \<longleftrightarrow> versions_ok mb_id (ft_bars d) (ft_bar_revisions d) \<and> versions_ok mr_id (ft_releases d) (ft_release_revisions d)
     \<and> versions_ok ne_id (ft_news d) []
     \<and> fst ` (set (ft_news_regions d)) \<union> fst ` set (ft_news_entities d) \<union> fst ` set (ft_news_topics d) \<subseteq> fw_id ` set (ft_news d)"

lemma versions_ok_base: "versions_ok key base revisions \<Longrightarrow> fw_id r = key (fw_fact r) \<Longrightarrow> fw_id r \<notin> fw_id ` set base
    \<Longrightarrow> versions_ok key (base @ [r]) revisions"
  by (auto simp: versions_ok_def)

lemma versions_ok_revision: "versions_ok key base revisions \<Longrightarrow> key (fw_fact r) \<in> fw_id ` set base \<Longrightarrow> versions_ok key base (revisions @ [r])"
  by (auto simp: versions_ok_def)

lemma versions_ok_mem:
  assumes "versions_ok key base revisions" "i \<in> fw_id ` set base"
  shows "\<exists>x \<in> set base. key (fw_fact x) = i"
proof -
  obtain x where "x \<in> set base" "fw_id x = i" using assms(2) by blast
  then show ?thesis using assms(1) unfolding versions_ok_def by (intro bexI [of _ x]) auto
qed

lemma mem_ids: "i \<in> fw_id ` set t \<longleftrightarrow> (\<exists>r \<in> set t. fw_id r = i)"
  by auto

text \<open>What a write does to the tables of versions.\<close>

lemma upsert_bar_cases:
  obtains "snd (upsert_bar sha i b d) = d"
  | "mb_id b \<notin> fw_id ` set (ft_bars d)" "upsert_bar sha i b d = (Inr (), d\<lparr>ft_bars := ft_bars d @ [\<lparr>fw_id = mb_id b, fw_fact = b, fw_run = i\<rparr>]\<rparr>)"
  | "mb_id b \<in> fw_id ` set (ft_bars d)" "upsert_bar sha i b d = (Inr (), d\<lparr>ft_bar_revisions := ft_bar_revisions d @ [bar_revision sha i b]\<rparr>)"
proof -
  let ?row = "\<lparr>fw_id = mb_id b, fw_fact = b, fw_run = i\<rparr>"
  have "(\<exists>e. insert_bar i b d = (Inl e, d)) \<or> insert_bar i b d = (Inr True, d\<lparr>ft_bars := ft_bars d @ [?row]\<rparr>) \<and> mb_id b \<notin> fw_id ` set (ft_bars d)
      \<or> insert_bar i b d = (Inr False, d) \<and> mb_id b \<in> fw_id ` set (ft_bars d)"
    by (auto simp: insert_bar_def insert_on_conflict_def mem_ids)
  then consider (error) e where "insert_bar i b d = (Inl e, d)" | (inserted) "insert_bar i b d = (Inr True, d\<lparr>ft_bars := ft_bars d @ [?row]\<rparr>)" "mb_id b \<notin> fw_id ` set (ft_bars d)"
    | (conflict) "insert_bar i b d = (Inr False, d)" "mb_id b \<in> fw_id ` set (ft_bars d)" by blast
  then show thesis
  proof cases
    case error
    then show thesis using that(1) by (simp add: upsert_bar_def bindA_def)
  next
    case inserted
    then show thesis using that(2) by (simp add: upsert_bar_def bindA_def)
  next
    case conflict
    have "(\<exists>e. insert_bar_revision sha i b d = (Inl e, d)) \<or> insert_bar_revision sha i b d = (Inr (), d)
      \<or> insert_bar_revision sha i b d = (Inr (), d\<lparr>ft_bar_revisions := ft_bar_revisions d @ [bar_revision sha i b]\<rparr>)"
      by (auto simp: insert_bar_revision_def insert_on_conflict_def)
    moreover have "upsert_bar sha i b d = (case current_bar_checksum (mb_id b) d of None \<Rightarrow> (Inl RuntimeError, d)
        | Some c \<Rightarrow> if c = bar_checksum b then (Inr (), d) else insert_bar_revision sha i b d)"
      using conflict(1) by (simp add: upsert_bar_def bindA_def)
    ultimately have "snd (upsert_bar sha i b d) = d
        \<or> upsert_bar sha i b d = (Inr (), d\<lparr>ft_bar_revisions := ft_bar_revisions d @ [bar_revision sha i b]\<rparr>)"
      by (auto split: option.splits)
    then show thesis using that(1,3) conflict(2) by blast
  qed
qed

lemma upsert_macro_release_cases:
  obtains "snd (upsert_macro_release sha i x d) = d"
  | "mr_id x \<notin> fw_id ` set (ft_releases d)" "upsert_macro_release sha i x d = (Inr (), d\<lparr>ft_releases := ft_releases d @ [\<lparr>fw_id = mr_id x, fw_fact = x, fw_run = i\<rparr>]\<rparr>)"
  | "mr_id x \<in> fw_id ` set (ft_releases d)"
    "upsert_macro_release sha i x d = (Inr (), d\<lparr>ft_release_revisions := ft_release_revisions d @ [release_revision sha i x]\<rparr>)"
proof -
  let ?row = "\<lparr>fw_id = mr_id x, fw_fact = x, fw_run = i\<rparr>"
  have "(\<exists>e. insert_release i x d = (Inl e, d)) \<or> insert_release i x d = (Inr True, d\<lparr>ft_releases := ft_releases d @ [?row]\<rparr>) \<and> mr_id x \<notin> fw_id ` set (ft_releases d)
      \<or> insert_release i x d = (Inr False, d) \<and> mr_id x \<in> fw_id ` set (ft_releases d)"
    by (auto simp: insert_release_def mem_ids)
  then consider (error) e where "insert_release i x d = (Inl e, d)" | (inserted) "insert_release i x d = (Inr True, d\<lparr>ft_releases := ft_releases d @ [?row]\<rparr>)" "mr_id x \<notin> fw_id ` set (ft_releases d)"
    | (conflict) "insert_release i x d = (Inr False, d)" "mr_id x \<in> fw_id ` set (ft_releases d)" by blast
  then show thesis
  proof cases
    case error
    then show thesis using that(1) by (simp add: upsert_macro_release_def bindA_def)
  next
    case inserted
    then show thesis using that(2) by (simp add: upsert_macro_release_def bindA_def)
  next
    case conflict
    have "(\<exists>e. insert_release_revision sha i x d = (Inl e, d)) \<or> insert_release_revision sha i x d = (Inr (), d)
      \<or> insert_release_revision sha i x d = (Inr (), d\<lparr>ft_release_revisions := ft_release_revisions d @ [release_revision sha i x]\<rparr>)"
      by (auto simp: insert_release_revision_def insert_on_conflict_def)
    moreover have "upsert_macro_release sha i x d =
        (if map_option (\<lambda>r. release_checksum (fw_fact r)) (find (\<lambda>r. fw_id r = mr_id x) (ft_releases d)) = Some (release_checksum x)
         then (Inr (), d) else insert_release_revision sha i x d)"
      using conflict(1) by (simp add: upsert_macro_release_def bindA_def)
    ultimately have "snd (upsert_macro_release sha i x d) = d
        \<or> upsert_macro_release sha i x d = (Inr (), d\<lparr>ft_release_revisions := ft_release_revisions d @ [release_revision sha i x]\<rparr>)"
      by (auto split: if_splits)
    then show thesis using that(1,3) conflict(2) by blast
  qed
qed

lemma revision_fact [simp]: "fw_fact (bar_revision sha i b) = b" "fw_fact (release_revision sha i x) = x"
  "fw_run (bar_revision sha i b) = i" "fw_run (release_revision sha i x) = i"
  by (simp_all add: bar_revision_def release_revision_def)

lemma fact_exec_ok:
  assumes "facts_ok d"
  shows "facts_ok (fact_exec sha op d)"
proof (cases op)
  case (Put_bar i b)
  show ?thesis by (rule upsert_bar_cases [of sha i b d])
      (use assms in \<open>simp_all add: Put_bar facts_ok_def versions_ok_base versions_ok_revision\<close>)
next
  case (Put_release i x)
  show ?thesis by (rule upsert_macro_release_cases [of sha i x d])
      (use assms in \<open>simp_all add: Put_release facts_ok_def versions_ok_base versions_ok_revision\<close>)
next
  case (Put_news i x)
  then show ?thesis using assms versions_ok_base [of ne_id "ft_news d" "[]" "\<lparr>fw_id = ne_id x, fw_fact = x, fw_run = i\<rparr>"]
    by (auto simp: upsert_news_event_def facts_ok_def mem_ids)
qed (use assms in \<open>auto simp: facts_ok_def upsert_instrument_def upsert_market_observation_def upsert_macro_series_def
       upsert_macro_observation_def Let_def\<close>)

section \<open>Reads as of a time\<close>

locale point_in_time =
  fixes ok :: "'d \<Rightarrow> bool" and exec :: "'op \<Rightarrow> 'd \<Rightarrow> 'd" and later :: "instant \<Rightarrow> 'op \<Rightarrow> bool" and view :: "instant \<Rightarrow> 'd \<Rightarrow> 'v"
  assumes exec_ok: "ok d \<Longrightarrow> ok (exec op d)"
    and unseen: "ok d \<Longrightarrow> later t op \<Longrightarrow> view t (exec op d) = view t d"
begin

lemma stable: "ok d \<Longrightarrow> list_all (later t) ops \<Longrightarrow> view t (fold exec ops d) = view t d"
  by (induction ops arbitrary: d) (simp_all add: exec_ok unseen)

end

lemma all_versions_base:
  assumes "versions_ok key base revisions" "fw_id r \<notin> fw_id ` set base" "fw_id r = key (fw_fact r)"
  shows "all_versions key (base @ [r]) revisions = map base_version base @ base_version r
    # concat (map (\<lambda>r. map (\<lambda>b. revision_version b r) (filter (\<lambda>b. key (fw_fact b) = key (fw_fact r)) base)) revisions)"
proof -
  have "key (fw_fact r) \<noteq> key (fw_fact x)" if "x \<in> set revisions" for x
    using assms that by (auto simp: versions_ok_def)
  then show ?thesis by (auto simp: all_versions_def intro!: arg_cong [of _ _ concat])
qed

lemma all_versions_base_set:
  assumes "versions_ok key base revisions" "fw_id r \<notin> fw_id ` set base" "fw_id r = key (fw_fact r)"
  shows "set (all_versions key (base @ [r]) revisions) = insert (base_version r) (set (all_versions key base revisions))"
  unfolding all_versions_base [OF assms] by (simp add: all_versions_def)

lemma all_versions_revision: "all_versions key base (revisions @ [r]) = all_versions key base revisions
    @ map (\<lambda>b. revision_version b r) (filter (\<lambda>b. key (fw_fact b) = key (fw_fact r)) base)"
  by (simp add: all_versions_def)

lemma bars_unseen:
  assumes "facts_ok d" "available_after t op"
  shows "bars_at t (fact_exec sha op d) = bars_at t d"
proof (cases op)
  case (Put_bar i b)
  have b: "t < mb_available b" using assms(2) Put_bar by simp
  have ok: "versions_ok mb_id (ft_bars d) (ft_bar_revisions d)" using assms(1) by (simp add: facts_ok_def)
  show ?thesis
  proof (rule upsert_bar_cases [of sha i b d])
    assume new: "mb_id b \<notin> fw_id ` set (ft_bars d)" "upsert_bar sha i b d = (Inr (), d\<lparr>ft_bars := ft_bars d @ [\<lparr>fw_id = mb_id b, fw_fact = b, fw_run = i\<rparr>]\<rparr>)"
    show ?thesis using new b all_versions_base [OF ok, of "\<lparr>fw_id = mb_id b, fw_fact = b, fw_run = i\<rparr>"]
      by (simp add: Put_bar bars_at_def bar_versions_def all_versions_def base_version_def)
  next
    assume new: "upsert_bar sha i b d = (Inr (), d\<lparr>ft_bar_revisions := ft_bar_revisions d @ [bar_revision sha i b]\<rparr>)"
    show ?thesis using new b by (simp add: Put_bar bars_at_def bar_versions_def all_versions_revision filter_empty_conv revision_version_def)
  qed (simp add: Put_bar)
next
  case (Put_release i x)
  show ?thesis by (rule upsert_macro_release_cases [of sha i x d]) (simp_all add: Put_release bars_at_def bar_versions_def)
qed (auto simp: bars_at_def bar_versions_def upsert_instrument_def upsert_market_observation_def upsert_macro_series_def
       upsert_macro_observation_def upsert_news_event_def Let_def)

lemma releases_unseen:
  assumes "facts_ok d" "available_after t op"
  shows "releases_at t (fact_exec sha op d) = releases_at t d"
proof (cases op)
  case (Put_release i x)
  have x: "t < mr_available x" using assms(2) Put_release by simp
  have ok: "versions_ok mr_id (ft_releases d) (ft_release_revisions d)" using assms(1) by (simp add: facts_ok_def)
  show ?thesis
  proof (rule upsert_macro_release_cases [of sha i x d])
    assume new: "mr_id x \<notin> fw_id ` set (ft_releases d)" "upsert_macro_release sha i x d = (Inr (), d\<lparr>ft_releases := ft_releases d @ [\<lparr>fw_id = mr_id x, fw_fact = x, fw_run = i\<rparr>]\<rparr>)"
    show ?thesis using new x all_versions_base [OF ok, of "\<lparr>fw_id = mr_id x, fw_fact = x, fw_run = i\<rparr>"]
      by (simp add: Put_release releases_at_def release_versions_def all_versions_def base_version_def)
  next
    assume new: "upsert_macro_release sha i x d = (Inr (), d\<lparr>ft_release_revisions := ft_release_revisions d @ [release_revision sha i x]\<rparr>)"
    show ?thesis using new x by (simp add: Put_release releases_at_def release_versions_def all_versions_revision filter_empty_conv revision_version_def)
  qed (simp add: Put_release)
next
  case (Put_bar i b)
  show ?thesis by (rule upsert_bar_cases [of sha i b d]) (simp_all add: Put_bar releases_at_def release_versions_def)
qed (auto simp: releases_at_def release_versions_def upsert_instrument_def upsert_market_observation_def upsert_macro_series_def
       upsert_macro_observation_def upsert_news_event_def Let_def)

lemma joined_other: "i \<noteq> k \<Longrightarrow> joined i (filter (\<lambda>r. fst r \<noteq> k) t @ map (Pair k) xs) = joined i t"
  by (auto simp: joined_def filter_empty_conv o_def intro: arg_cong [of _ _ "map snd"] filter_cong)

lemma join_news_same: "ft_news_regions e = ft_news_regions d \<Longrightarrow> ft_news_entities e = ft_news_entities d \<Longrightarrow> ft_news_topics e = ft_news_topics d
    \<Longrightarrow> join_news e = join_news d"
  by (rule ext) (simp add: join_news_def)

lemma news_at_same: "ft_news e = ft_news d \<Longrightarrow> ft_news_regions e = ft_news_regions d \<Longrightarrow> ft_news_entities e = ft_news_entities d
    \<Longrightarrow> ft_news_topics e = ft_news_topics d \<Longrightarrow> news_at t e = news_at t d"
  using join_news_same [of e d] by (simp add: news_at_def)

lemma news_unseen:
  assumes "facts_ok d" "available_after t op"
  shows "news_at t (fact_exec sha op d) = news_at t d"
proof (cases op)
  case (Put_news i x)
  have "join_news (fact_exec sha op d) r = join_news d r" if "r \<in> set (ft_news d)" for r
  proof (cases "fw_id r = ne_id x")
    case True
    then show ?thesis using that by (auto simp: Put_news upsert_news_event_def)
  next
    case False
    then show ?thesis using that by (simp add: Put_news upsert_news_event_def join_news_def joined_other)
  qed
  then have "filter (\<lambda>j. ne_available (jn_event j) \<le> t) (map (join_news (fact_exec sha op d)) (ft_news d)) = news_at t d"
    by (simp add: news_at_def cong: map_cong)
  moreover have "ft_news (fact_exec sha op d) \<in> {ft_news d, ft_news d @ [\<lparr>fw_id = ne_id x, fw_fact = x, fw_run = i\<rparr>]}"
    by (auto simp: Put_news upsert_news_event_def)
  moreover have "t < ne_available x" using assms(2) Put_news by simp
  ultimately show ?thesis by (auto simp: news_at_def join_news_def [of _ "\<lparr>fw_id = ne_id x, fw_fact = x, fw_run = i\<rparr>"])
next
  case (Put_bar i b)
  show ?thesis by (rule upsert_bar_cases [of sha i b d]) (auto simp: Put_bar intro: news_at_same)
next
  case (Put_release i x)
  show ?thesis by (rule upsert_macro_release_cases [of sha i x d]) (auto simp: Put_release intro: news_at_same)
qed (auto simp: upsert_instrument_def upsert_market_observation_def upsert_macro_series_def upsert_macro_observation_def Let_def
       intro: news_at_same)

lemma macro_unseen:
  assumes "available_after t op"
  shows "macro_at t (fact_exec sha op d) = macro_at t d"
proof (cases op)
  case (Put_bar i b)
  show ?thesis by (rule upsert_bar_cases [of sha i b d]) (simp_all add: Put_bar macro_at_def)
next
  case (Put_release i x)
  show ?thesis by (rule upsert_macro_release_cases [of sha i x d]) (simp_all add: Put_release macro_at_def)
qed (use assms in \<open>auto simp: macro_at_def upsert_instrument_def upsert_market_observation_def upsert_macro_series_def
       upsert_macro_observation_def upsert_news_event_def Let_def\<close>)

interpretation bars: point_in_time facts_ok "fact_exec sha" available_after bars_at for sha
  by unfold_locales (rule fact_exec_ok bars_unseen; assumption)+

interpretation releases: point_in_time facts_ok "fact_exec sha" available_after releases_at for sha
  by unfold_locales (rule fact_exec_ok releases_unseen; assumption)+

interpretation news_events: point_in_time facts_ok "fact_exec sha" available_after news_at for sha
  by unfold_locales (rule fact_exec_ok news_unseen; assumption)+

interpretation vintages: point_in_time facts_ok "fact_exec sha" available_after macro_at for sha
  by unfold_locales (rule fact_exec_ok macro_unseen; assumption)+


lemma empty_facts_ok: "facts_ok empty_facts"
  by (simp add: facts_ok_def versions_ok_def empty_facts_def)

lemma written_facts_ok: "facts_ok d \<Longrightarrow> facts_ok (fold (fact_exec sha) ops d)"
  by (induction ops arbitrary: d) (simp_all add: fact_exec_ok)

lemma available_after_mono: "available_after t op \<Longrightarrow> s \<le> t \<Longrightarrow> available_after s op"
  by (cases op) auto

lemma reads_unchanged:
  assumes "facts_ok d" "list_all (available_after t) ops"
  shows "br_as_of q \<le> t \<Longrightarrow> list_bars q (fold (fact_exec sha) ops d) = list_bars q d"
    "s \<le> t \<Longrightarrow> list_snapshots ids s (fold (fact_exec sha) ops d) = list_snapshots ids s d"
    "mq_as_of m \<le> t \<Longrightarrow> list_macro_observations m (fold (fact_exec sha) ops d) = list_macro_observations m d"
    "rq_as_of r \<le> t \<Longrightarrow> list_macro_releases r (fold (fact_exec sha) ops d) = list_macro_releases r d"
    "nq_as_of n \<le> t \<Longrightarrow> list_news n (fold (fact_exec sha) ops d) = list_news n d"
proof -
  have later: "list_all (available_after s) ops" if "s \<le> t" for s
    using assms(2) that by (auto simp: list_all_iff intro: available_after_mono)
  note stable = bars.stable [OF assms(1) later] releases.stable [OF assms(1) later] news_events.stable [OF assms(1) later]
    vintages.stable [OF assms(1) later]
  show "br_as_of q \<le> t \<Longrightarrow> list_bars q (fold (fact_exec sha) ops d) = list_bars q d"
    "s \<le> t \<Longrightarrow> list_snapshots ids s (fold (fact_exec sha) ops d) = list_snapshots ids s d"
    "mq_as_of m \<le> t \<Longrightarrow> list_macro_observations m (fold (fact_exec sha) ops d) = list_macro_observations m d"
    "rq_as_of r \<le> t \<Longrightarrow> list_macro_releases r (fold (fact_exec sha) ops d) = list_macro_releases r d"
    "nq_as_of n \<le> t \<Longrightarrow> list_news n (fold (fact_exec sha) ops d) = list_news n d"
    by (simp_all add: list_bars_def list_snapshots_def list_macro_observations_def list_macro_releases_def list_news_def
        current_bars_def current_releases_def stable)
qed

text \<open>C7: Whatever was written before, facts that become available after a time do not change what the reads of bars,
  snapshots, macro observations, releases and news show as of that time or earlier.\<close>

theorem reads_are_point_in_time:
  fixes sha :: "string \<Rightarrow> string" and writes ops :: "fact_op list"
  assumes "list_all (available_after t) ops"
  defines "d \<equiv> fold (fact_exec sha) writes empty_facts" and "e \<equiv> fold (fact_exec sha) (writes @ ops) empty_facts"
  shows "(\<forall>q. br_as_of q \<le> t \<longrightarrow> list_bars q e = list_bars q d) \<and> (\<forall>ids s. s \<le> t \<longrightarrow> list_snapshots ids s e = list_snapshots ids s d)
    \<and> (\<forall>q. mq_as_of q \<le> t \<longrightarrow> list_macro_observations q e = list_macro_observations q d)
    \<and> (\<forall>q. rq_as_of q \<le> t \<longrightarrow> list_macro_releases q e = list_macro_releases q d)
    \<and> (\<forall>q. nq_as_of q \<le> t \<longrightarrow> list_news q e = list_news q d)"
proof -
  have ok: "facts_ok d" by (simp add: d_def written_facts_ok empty_facts_ok)
  have e: "e = fold (fact_exec sha) ops d" by (simp add: e_def d_def)
  show ?thesis unfolding e using reads_unchanged [OF ok assms(1)] by blast
qed

section \<open>The last state of a bar is read back\<close>

lemma version_bases: "v \<in> set (all_versions key base revisions) \<Longrightarrow> key (ve_fact v) = key (ve_base v)"
  by (auto simp: all_versions_def base_version_def revision_version_def)


lemma grown_tables: "d\<lparr>ft_bars := ft_bars d @ [r]\<rparr> \<noteq> d" "d\<lparr>ft_bar_revisions := ft_bar_revisions d @ [s]\<rparr> \<noteq> d"
proof -
  have "ft_bars (d\<lparr>ft_bars := ft_bars d @ [r]\<rparr>) \<noteq> ft_bars d"
    "ft_bar_revisions (d\<lparr>ft_bar_revisions := ft_bar_revisions d @ [s]\<rparr>) \<noteq> ft_bar_revisions d" by simp_all
  then show "d\<lparr>ft_bars := ft_bars d @ [r]\<rparr> \<noteq> d" "d\<lparr>ft_bar_revisions := ft_bar_revisions d @ [s]\<rparr> \<noteq> d" by metis+
qed

lemma upsert_bar_unchanged:
  assumes "upsert_bar sha i b d = (Inr (), d)"
  shows "current_bar_checksum (mb_id b) d = Some (bar_checksum b)
    \<or> mb_id b \<in> fw_id ` set (ft_bars d) \<and> (\<exists>r \<in> set (ft_bar_revisions d). same_bar_revision (bar_revision sha i b) r)"
proof -
  have "\<not> (\<exists>t. insert_bar i b d = (Inr True, t))"
  proof
    assume "\<exists>t. insert_bar i b d = (Inr True, t)"
    then obtain t where t: "insert_bar i b d = (Inr True, t)" by blast
    then have "t = d\<lparr>ft_bars := ft_bars d @ [\<lparr>fw_id = mb_id b, fw_fact = b, fw_run = i\<rparr>]\<rparr>"
      by (auto simp: insert_bar_def insert_on_conflict_def split: if_splits)
    then show False using assms t grown_tables(1) [of d] by (simp add: upsert_bar_def bindA_def)
  qed
  moreover obtain x t where x: "insert_bar i b d = (x, t)" by fastforce
  ultimately have kept: "x = Inr False" "t = d" "mb_id b \<in> fw_id ` set (ft_bars d)" using assms
    by (auto simp: upsert_bar_def bindA_def insert_bar_def insert_on_conflict_def mem_ids split: if_splits)
  have up: "(case current_bar_checksum (mb_id b) d of None \<Rightarrow> (Inl RuntimeError, d)
      | Some c \<Rightarrow> if c = bar_checksum b then (Inr (), d) else insert_bar_revision sha i b d) = (Inr (), d)"
    using assms x kept by (simp add: upsert_bar_def bindA_def)
  then obtain c where c: "current_bar_checksum (mb_id b) d = Some c" by (auto split: option.splits)
  show ?thesis
  proof (cases "c = bar_checksum b")
    case False
    then have "insert_bar_revision sha i b d = (Inr (), d)" using up c by simp
    then show ?thesis using kept(3) grown_tables(2) [of d] by (auto simp: insert_bar_revision_def insert_on_conflict_def split: if_splits)
  qed (use c in simp)
qed

lemma current_bar_checksum_newest:
  assumes "current_bar_checksum i d = Some c"
  obtains v where "v \<in> set (bar_versions d)" "mb_id (ve_base v) = i" "bar_checksum (ve_fact v) = c"
    "\<forall>u \<in> set (bar_versions d). mb_id (ve_base u) = i \<longrightarrow> bar_rank u \<le> bar_rank v"
proof -
  let ?vs = "filter (\<lambda>v. mb_id (ve_base v) = i) (bar_versions d)"
  obtain v vs where v: "newest (\<lambda>v. mb_id (ve_base v)) bar_rank ?vs = v # vs" "c = bar_checksum (ve_fact v)"
    using assms by (auto simp: current_bar_checksum_def split: list.splits)
  then have "v \<in> set (newest (\<lambda>v. mb_id (ve_base v)) bar_rank ?vs)" by simp
  note m = newest_mem [OF this]
  show thesis by (rule that [of v]) (use m v(2) in auto)
qed

lemma version_key:
  assumes "versions_ok key base revisions" "v \<in> set (all_versions key base revisions)"
  shows "key (ve_base v) \<in> fw_id ` set base"
proof -
  obtain x where "x \<in> set base" "ve_base v = fw_fact x"
    using assms(2) by (auto simp: all_versions_def base_version_def revision_version_def)
  then show ?thesis using assms(1) unfolding versions_ok_def by (intro rev_image_eqI [of x]) auto
qed

lemma revision_version_mem:
  assumes "r \<in> set revisions" "x \<in> set base" "key (fw_fact x) = key (fw_fact r)"
  shows "revision_version x r \<in> set (all_versions key base revisions)"
proof -
  have "revision_version x r \<in> set (map (\<lambda>b. revision_version b r) (filter (\<lambda>b. key (fw_fact b) = key (fw_fact r)) base))"
    using assms(2,3) by simp
  then show ?thesis using assms(1) by (auto simp: all_versions_def)
qed

lemma upsert_bar_kept:
  assumes "facts_ok d" "upsert_bar sha i b d = (Inr (), d)"
    and newer: "\<forall>v \<in> set (bar_versions d). mb_id (ve_base v) = mb_id b \<longrightarrow> mb_available (ve_fact v) < mb_available b"
  shows "current_bar_checksum (mb_id b) d = Some (bar_checksum b)"
proof -
  have ok: "versions_ok mb_id (ft_bars d) (ft_bar_revisions d)" using assms(1) by (simp add: facts_ok_def)
  have "\<not> (\<exists>r \<in> set (ft_bar_revisions d). same_bar_revision (bar_revision sha i b) r)" if known: "mb_id b \<in> fw_id ` set (ft_bars d)"
  proof
    assume "\<exists>r \<in> set (ft_bar_revisions d). same_bar_revision (bar_revision sha i b) r"
    then obtain r where r: "r \<in> set (ft_bar_revisions d)" "mb_id (fw_fact r) = mb_id b" "mb_available (fw_fact r) = mb_available b"
      by (auto simp: same_bar_revision_def)
    obtain x where x: "x \<in> set (ft_bars d)" "mb_id (fw_fact x) = mb_id b" using versions_ok_mem [OF ok known] by blast
    have "revision_version x r \<in> set (bar_versions d)" using revision_version_mem [OF r(1) x(1), of mb_id] r(2) x(2) by (simp add: bar_versions_def)
    then show False using newer r(3) x(2) by (auto simp: revision_version_def)
  qed
  then show ?thesis using upsert_bar_unchanged [OF assms(2)] by blast
qed

lemma upsert_bar_same:
  assumes "facts_ok d" "upsert_bar sha i b d = (Inr (), d')" "current_bar_checksum (mb_id b) d = Some (bar_checksum b)"
  shows "d' = d"
proof -
  have ok: "versions_ok mb_id (ft_bars d) (ft_bar_revisions d)" using assms(1) by (simp add: facts_ok_def)
  obtain v where "v \<in> set (bar_versions d)" "mb_id (ve_base v) = mb_id b"
    using assms(3) by (rule current_bar_checksum_newest)
  then have "mb_id b \<in> fw_id ` set (ft_bars d)" using version_key [OF ok] by (metis bar_versions_def)
  then have "\<exists>x. insert_bar i b d = (x, d) \<and> x \<noteq> Inr True" by (auto simp: insert_bar_def insert_on_conflict_def mem_ids)
  then show ?thesis using assms(2,3) by (auto simp: upsert_bar_def bindA_def split: sum.splits)
qed

lemma upsert_bar_newest_same:
  assumes "current_bar_checksum (mb_id b) d = Some (bar_checksum b)" "mb_available b \<le> t"
    and newer: "\<forall>v \<in> set (bar_versions d). mb_id (ve_base v) = mb_id b \<longrightarrow> mb_available (ve_fact v) < mb_available b"
  shows "\<exists>u \<in> set (bars_at t d). mb_id (ve_base u) = mb_id b
    \<and> (\<forall>v \<in> set (bars_at t d). mb_id (ve_base v) = mb_id b \<and> bar_rank u \<le> bar_rank v \<longrightarrow> bar_checksum (ve_fact v) = bar_checksum b)"
proof -
  obtain u where u: "u \<in> set (bar_versions d)" "mb_id (ve_base u) = mb_id b" "bar_checksum (ve_fact u) = bar_checksum b"
    "\<forall>v \<in> set (bar_versions d). mb_id (ve_base v) = mb_id b \<longrightarrow> bar_rank v \<le> bar_rank u"
    using assms(1) by (rule current_bar_checksum_newest)
  have "mb_available (ve_fact u) \<le> t" using bspec [OF newer u(1)] u(2) assms(2) by simp
  then have "u \<in> set (bars_at t d)" using u(1) by (simp add: bars_at_def)
  moreover have "bar_checksum (ve_fact v) = bar_checksum b"
    if "v \<in> set (bars_at t d)" "mb_id (ve_base v) = mb_id b \<and> bar_rank u \<le> bar_rank v" for v
  proof -
    have "bar_rank v \<le> bar_rank u" using bspec [OF u(4)] that by (simp add: bars_at_def)
    then have "bar_rank v = bar_rank u" using that(2) by (simp add: order_antisym)
    then show ?thesis using u(3) by (simp add: bar_rank_def)
  qed
  ultimately show ?thesis using u(2) by blast
qed

lemma upsert_bar_newest_written:
  assumes "facts_ok d" "upsert_bar sha i b d = (Inr (), d')" "mb_available b \<le> t"
    and newer: "\<forall>v \<in> set (bar_versions d). mb_id (ve_base v) = mb_id b \<longrightarrow> mb_available (ve_fact v) < mb_available b"
    and differs: "current_bar_checksum (mb_id b) d \<noteq> Some (bar_checksum b)"
  shows "\<exists>u \<in> set (bars_at t d'). mb_id (ve_base u) = mb_id b
    \<and> (\<forall>v \<in> set (bars_at t d'). mb_id (ve_base v) = mb_id b \<and> bar_rank u \<le> bar_rank v \<longrightarrow> ve_fact v = b)"
proof -
  let ?new = "\<lambda>v. mb_id (ve_base v) = mb_id b"
  have ok: "versions_ok mb_id (ft_bars d) (ft_bar_revisions d)" using assms(1) by (simp add: facts_ok_def)
  show ?thesis
  proof (rule upsert_bar_cases [of sha i b d])
    assume "snd (upsert_bar sha i b d) = d"
    then have "upsert_bar sha i b d = (Inr (), d)" using assms(2) by simp
    then show ?thesis using upsert_bar_kept [OF assms(1) _ newer] differs by blast
  next
    assume new: "mb_id b \<notin> fw_id ` set (ft_bars d)" "upsert_bar sha i b d = (Inr (), d\<lparr>ft_bars := ft_bars d @ [\<lparr>fw_id = mb_id b, fw_fact = b, fw_run = i\<rparr>]\<rparr>)"
    have "\<not> ?new v" if "v \<in> set (bar_versions d)" for v
      using version_key [OF ok that [unfolded bar_versions_def]] new(1) by auto
    moreover have "set (bar_versions d') = insert (base_version \<lparr>fw_id = mb_id b, fw_fact = b, fw_run = i\<rparr>) (set (bar_versions d))"
    proof -
      have "d' = d\<lparr>ft_bars := ft_bars d @ [\<lparr>fw_id = mb_id b, fw_fact = b, fw_run = i\<rparr>]\<rparr>" using assms(2) new(2) by simp
      then show ?thesis using all_versions_base_set [OF ok, of "\<lparr>fw_id = mb_id b, fw_fact = b, fw_run = i\<rparr>"] new(1)
        by (simp add: bar_versions_def)
    qed
    ultimately show ?thesis using assms(3)
      by (auto simp: bars_at_def base_version_def intro!: bexI [of _ "base_version \<lparr>fw_id = mb_id b, fw_fact = b, fw_run = i\<rparr>"])
  next
    assume new: "mb_id b \<in> fw_id ` set (ft_bars d)" "upsert_bar sha i b d = (Inr (), d\<lparr>ft_bar_revisions := ft_bar_revisions d @ [bar_revision sha i b]\<rparr>)"
    obtain x where x: "x \<in> set (ft_bars d)" "mb_id (fw_fact x) = mb_id b" using versions_ok_mem [OF ok new(1)] by blast
    have vs: "set (bar_versions d') = set (bar_versions d)
        \<union> (\<lambda>y. revision_version y (bar_revision sha i b)) ` {y \<in> set (ft_bars d). mb_id (fw_fact y) = mb_id b}"
      using assms(2) new(2) by (auto simp: bar_versions_def all_versions_revision)
    let ?u = "revision_version x (bar_revision sha i b)"
    have "\<not> bar_rank ?u \<le> bar_rank v" if "v \<in> set (bar_versions d)" "?new v" for v
      using newer that by (auto simp: bar_rank_def revision_version_def less_eq_prod_def)
    then show ?thesis using vs x assms(3)
      by (intro bexI [of _ ?u]) (auto simp: bars_at_def revision_version_def)
  qed
qed

lemma current_bar_of:
  assumes "u \<in> set (bars_at t d)" "mb_id (ve_base u) = i"
    and above: "\<forall>v \<in> set (bars_at t d). mb_id (ve_base v) = i \<and> bar_rank u \<le> bar_rank v \<longrightarrow> P v"
  shows "\<exists>v. filter (\<lambda>v. mb_id (ve_base v) = i) (current_bars t d) = [v] \<and> P v"
proof -
  have "i \<in> (\<lambda>v. mb_id (ve_base v)) ` set (current_bars t d)"
    using assms(1,2) by (auto simp: current_bars_def newest_keys(1) intro: rev_image_eqI)
  then obtain v where v: "v \<in> set (current_bars t d)" "mb_id (ve_base v) = i" by fastforce
  then have "bar_rank u \<le> bar_rank v" "v \<in> set (bars_at t d)" using assms(1,2)
    by (auto simp: current_bars_def intro: newest_mem)
  then have "P v" using above v(2) by blast
  moreover have "distinct (map (\<lambda>v. mb_id (ve_base v)) (current_bars t d))" by (simp add: current_bars_def newest_distinct)
  then have "filter (\<lambda>v. mb_id (ve_base v) = i) (current_bars t d) = [v]" using v by (rule filter_unique)
  ultimately show ?thesis by blast
qed

text \<open>C8: After the write of a bar that is newer than all stored versions of it, every later read of the current versions shows
  exactly one version of it: all fields of the bar as written, where its checksum is not the one of the version that was current, and
  otherwise the write stores nothing and the version that is read has the same checksum.\<close>

theorem stored_bar_is_read_back:
  assumes "facts_ok d" "upsert_bar sha i b d = (Inr (), d')" "mb_available b \<le> t"
    and newer: "\<forall>v \<in> set (bar_versions d). mb_id (ve_base v) = mb_id b \<longrightarrow> mb_available (ve_fact v) < mb_available b"
  shows "\<exists>v. filter (\<lambda>v. mb_id (ve_base v) = mb_id b) (current_bars t d') = [v]
    \<and> (if current_bar_checksum (mb_id b) d = Some (bar_checksum b) then d' = d \<and> bar_checksum (ve_fact v) = bar_checksum b
       else ve_fact v = b)"
proof (cases "current_bar_checksum (mb_id b) d = Some (bar_checksum b)")
  case True
  then show ?thesis using upsert_bar_same [OF assms(1,2)] upsert_bar_newest_same [OF _ assms(3) newer]
      current_bar_of [of _ t d "mb_id b" "\<lambda>v. bar_checksum (ve_fact v) = bar_checksum b"] by auto
next
  case False
  then show ?thesis using upsert_bar_newest_written [OF assms] current_bar_of [of _ t d' "mb_id b" "\<lambda>v. ve_fact v = b"] by auto
qed


section \<open>States the tables do not keep\<close>

lemma find_unique: "distinct (map f xs) \<Longrightarrow> v \<in> set xs \<Longrightarrow> f v = k \<Longrightarrow> find (\<lambda>x. f x = k) xs = Some v"
  by (induction xs) (auto simp: rev_image_eqI)

text \<open>C9: A release whose source returns to the state of its first row is not written: whatever revision was current stays
  current in every later read.\<close>

theorem reverted_release_is_lost:
  assumes "facts_ok d" "r \<in> set (ft_releases d)" "fw_id r = mr_id x" "release_checksum x = release_checksum (fw_fact r)"
  shows "snd (upsert_macro_release sha i x d) = d
    \<and> list_macro_releases q (snd (upsert_macro_release sha i x d)) = list_macro_releases q d"
proof -
  have ok: "distinct (map fw_id (ft_releases d))" using assms(1) by (simp add: facts_ok_def versions_ok_def)
  have "find (\<lambda>r. fw_id r = mr_id x) (ft_releases d) = Some r"
    using ok assms(2,3) by (rule find_unique)
  then have "snd (upsert_macro_release sha i x d) = d" using assms(2-4)
    by (auto simp: upsert_macro_release_def insert_release_def bindA_def)
  then show ?thesis by simp
qed

text \<open>Writing a market observation again replaces its row: no read as of a time before the new availability shows the
  observation any more, whether or not it was available then.\<close>

theorem rewritten_observation_loses_history:
  assumes "upsert_market_observation i x d = (Inr (), d')" "or_as_of q < mo_available x"
  shows "mo_id x \<notin> mo_id ` set (list_market_observations q d')"
proof -
  have "ow_fact r = x" if "r \<in> set (ft_observations d')" "mo_id (ow_fact r) = mo_id x" for r
    using assms(1) that by (auto simp: upsert_market_observation_def update_where_def split: if_splits)
  then show ?thesis using assms(2) by (fastforce simp: list_market_observations_def dest!: in_set_takeD)
qed


section \<open>Concrete writes\<close>

definition demo_source :: "string \<Rightarrow> fact_source" where
  "demo_source c = \<lparr>so_provider = ''cn.baostock.v1'', so_record = ''sh.000001'', so_name = ''BaoStock'', so_url = None, so_symbol = None,
     so_retrieved = 50, so_checksum = c\<rparr>"

definition demo_bar :: "instant \<Rightarrow> string \<Rightarrow> string \<Rightarrow> market_bar" where
  "demo_bar t c close = \<lparr>mb_id = ''bar_1'', mb_instrument = ''ins_cn_index_sse_composite'', mb_symbol = ''XSHG:000001'', mb_region = CN,
     mb_interval = D1, mb_start = 10, mb_end = 20, mb_trading = 0, mb_open = ''10'', mb_high = ''12'', mb_low = ''9'', mb_close = close,
     mb_volume = None, mb_currency = ''CNY'', mb_adjustment = Raw, mb_available = t, mb_source = demo_source c\<rparr>"

definition demo_stored_instrument :: stored_instrument where
  "demo_stored_instrument = \<lparr>si_id = ''ins_cn_index_sse_composite'', si_canonical = ''XSHG:000001'', si_region = CN, si_venue = ''XSHG'',
     si_local = ''000001'', si_class = ''index'', si_status = ''active'', si_from = 0, si_until = None, si_source = demo_source ''i''\<rparr>"

definition demo_release :: "instant \<Rightarrow> string \<Rightarrow> string option \<Rightarrow> macro_release" where
  "demo_release t c actual = \<lparr>mr_id = ''cpi'', mr_series = ''macro:CN:NBS:release_calendar'', mr_region = CN, mr_name = ''CPI'', mr_at = Some 300,
     mr_date = None, mr_available = t, mr_actual = actual, mr_consensus = None, mr_previous = None, mr_unit = ''percent'',
     mr_status = Release_scheduled, mr_source = demo_source c\<rparr>"

definition demo_series :: macro_series where
  "demo_series = \<lparr>ms_id = ''macro:CN:NBS:release_calendar'', ms_region = CN, ms_authority = ''cn.nbs'', ms_code = ''release_calendar'',
     ms_name = ''CN release calendar'', ms_unit = ''percent''\<rparr>"

definition demo_observation :: "instant \<Rightarrow> string \<Rightarrow> market_observation" where
  "demo_observation t v = \<lparr>mo_id = ''o'', mo_region = US, mo_scope = ''market'', mo_metric = ''ust_10y'', mo_value = Some v, mo_observed = 5,
     mo_available = t, mo_source = demo_source v\<rparr>"

definition demo_writes :: "fact_op list" where
  "demo_writes = [Put_instrument ''r1'' demo_stored_instrument, Put_series ''r1'' demo_series, Put_bar ''r1'' (demo_bar 100 ''a'' ''10''),
     Put_release ''r1'' (demo_release 100 ''a'' None), Put_release ''r2'' (demo_release 110 ''b'' (Some ''2.1'')),
     Put_market_observation ''r1'' (demo_observation 100 ''4.1'')]"

definition demo_tables :: fact_tables where
  "demo_tables = fold (fact_exec (\<lambda>s. ''0'')) demo_writes empty_facts"

definition demo_read :: "instant \<Rightarrow> bar_read" where
  "demo_read t = \<lparr>br_instruments = [''ins_cn_index_sse_composite''], br_interval = D1, br_adjustment = Raw, br_start = 0, br_end = 100,
     br_as_of = t, br_limit = 10\<rparr>"

lemma demo_tables_ok: "facts_ok demo_tables"
  unfolding demo_tables_def by (rule written_facts_ok [OF empty_facts_ok])

theorem reads_are_point_in_time_witness:
  "list_bars (demo_read 150) (fold (fact_exec (\<lambda>s. ''0'')) (demo_writes @ [Put_bar ''r3'' (demo_bar 200 ''b'' ''11'')]) empty_facts) = [demo_bar 100 ''a'' ''10'']"
proof -
  have "list_all (available_after 150) [Put_bar ''r3'' (demo_bar 200 ''b'' ''11'')]" "br_as_of (demo_read 150) \<le> 150"
    by (simp_all add: demo_bar_def demo_read_def)
  from reads_are_point_in_time [OF this(1), of "\<lambda>s. ''0''" demo_writes] this(2)
  have "list_bars (demo_read 150) (fold (fact_exec (\<lambda>s. ''0'')) (demo_writes @ [Put_bar ''r3'' (demo_bar 200 ''b'' ''11'')]) empty_facts)
      = list_bars (demo_read 150) (fold (fact_exec (\<lambda>s. ''0'')) demo_writes empty_facts)" by blast
  also have "\<dots> = [demo_bar 100 ''a'' ''10'']" by code_simp
  finally show ?thesis .
qed

theorem stored_bar_is_read_back_witness:
  "\<exists>v d. upsert_bar (\<lambda>s. ''0'') ''r3'' (demo_bar 200 ''b'' ''11'') demo_tables = (Inr (), d)
     \<and> filter (\<lambda>v. mb_id (ve_base v) = ''bar_1'') (current_bars 250 d) = [v] \<and> ve_fact v = demo_bar 200 ''b'' ''11''"
proof -
  let ?b = "demo_bar 200 ''b'' ''11''"
  have "fst (upsert_bar (\<lambda>s. ''0'') ''r3'' ?b demo_tables) = Inr ()" by code_simp
  then obtain d where d: "upsert_bar (\<lambda>s. ''0'') ''r3'' ?b demo_tables = (Inr (), d)" by (metis prod.collapse)
  have "list_all (\<lambda>v. mb_available (ve_fact v) < 200) (bar_versions demo_tables)" by code_simp
  then have newer: "\<forall>v \<in> set (bar_versions demo_tables). mb_id (ve_base v) = mb_id ?b \<longrightarrow> mb_available (ve_fact v) < mb_available ?b"
    by (simp add: list_all_iff demo_bar_def)
  have id: "mb_id ?b = ''bar_1''" and available: "mb_available ?b \<le> 250" by (simp_all add: demo_bar_def)
  have differs: "current_bar_checksum (mb_id ?b) demo_tables \<noteq> Some (bar_checksum ?b)" by code_simp
  from stored_bar_is_read_back [OF demo_tables_ok d available newer] differs d id show ?thesis by simp
qed

theorem reverted_release_is_lost_witness:
  "map mr_actual (list_macro_releases \<lparr>rq_regions = [CN], rq_from = 0, rq_to = 400, rq_as_of = 1000, rq_limit = 5\<rparr>
     (snd (upsert_macro_release (\<lambda>s. ''0'') ''r4'' (demo_release 120 ''a'' None) demo_tables))) = [Some ''2.1'']"
proof -
  let ?q = "\<lparr>rq_regions = [CN], rq_from = 0, rq_to = 400, rq_as_of = 1000, rq_limit = 5\<rparr>" and ?r = "hd (ft_releases demo_tables)"
  have "ft_releases demo_tables \<noteq> []" "fw_id ?r = mr_id (demo_release 120 ''a'' None)"
    "release_checksum (demo_release 120 ''a'' None) = release_checksum (fw_fact ?r)" by code_simp+
  from reverted_release_is_lost [OF demo_tables_ok hd_in_set [OF this(1)] this(2,3), of "\<lambda>s. ''0''" "''r4''" ?q]
  have "list_macro_releases ?q (snd (upsert_macro_release (\<lambda>s. ''0'') ''r4'' (demo_release 120 ''a'' None) demo_tables)) = list_macro_releases ?q demo_tables"
    by blast
  moreover have "map mr_actual (list_macro_releases ?q demo_tables) = [Some ''2.1'']" by code_simp
  ultimately show ?thesis by simp
qed

theorem rewritten_observation_loses_history_witness:
  "\<exists>q d. map mo_value (list_market_observations q demo_tables) = [Some ''4.1''] \<and> or_as_of q = 150
     \<and> upsert_market_observation ''r5'' (demo_observation 200 ''4.2'') demo_tables = (Inr (), d) \<and> ''o'' \<notin> mo_id ` set (list_market_observations q d)"
proof -
  let ?q = "\<lparr>or_regions = [US], or_metrics = [''ust_10y''], or_scopes = [], or_start = 0, or_end = 100, or_as_of = 150, or_limit = 5\<rparr>"
  have "fst (upsert_market_observation ''r5'' (demo_observation 200 ''4.2'') demo_tables) = Inr ()" by code_simp
  then obtain d where d: "upsert_market_observation ''r5'' (demo_observation 200 ''4.2'') demo_tables = (Inr (), d)" by (metis prod.collapse)
  have "map mo_value (list_market_observations ?q demo_tables) = [Some ''4.1'']" by code_simp
  moreover have "''o'' \<notin> mo_id ` set (list_market_observations ?q d)"
    using rewritten_observation_loses_history [OF d, of ?q] by (simp add: demo_observation_def)
  ultimately show ?thesis using d by (intro exI [of _ ?q] exI [of _ d]) simp
qed

end
