(* ===== verification/Input_Queries.thy ===== *)
theory Input_Queries
  imports Fact_History Scheduled_Tasks
begin

text \<open>
  The readers of the report evidence: \<open>services/report_input_evidence_queries.py\<close> and the queries and
  projections of \<open>report_input_evidence_support.py\<close>. They read the fact tables as of the cutoff, but prefer
  the versions the runs of the report's own tasks have written.
\<close>

section \<open>Versions, the task's own first\<close>

definition by_runs :: "uuid list \<Rightarrow> 'a version \<Rightarrow> nat" where
  "by_runs runs v = (if ve_run v \<in> set runs then 1 else 0)"

definition evidence_bars :: "instant \<Rightarrow> uuid list \<Rightarrow> fact_tables \<Rightarrow> market_bar version list" where
  "evidence_bars t runs d = newest (\<lambda>v. mb_id (ve_base v)) (\<lambda>v. (by_runs runs v, bar_rank v)) (bars_at t d)"

definition evidence_releases :: "instant \<Rightarrow> uuid list \<Rightarrow> fact_tables \<Rightarrow> macro_release version list" where
  "evidence_releases t runs d = newest (\<lambda>v. mr_id (ve_base v)) (\<lambda>v. (by_runs runs v, release_rank v)) (releases_at t d)"

definition bar_record :: "market_bar version \<Rightarrow> string" where
  "bar_record v = so_record (mb_source (ve_fact v))"

definition release_record :: "macro_release version \<Rightarrow> string" where
  "release_record v = so_record (mr_source (ve_fact v))"

section \<open>Market bars\<close>

text \<open>Ordered by instrument, then the latest trading date, availability and id first.\<close>

definition market_bars_as_of :: "region \<Rightarrow> string list \<Rightarrow> string list \<Rightarrow> uuid list \<Rightarrow> instant \<Rightarrow> date \<Rightarrow> fact_tables \<Rightarrow> market_bar list" where
  "market_bars_as_of r instruments records runs t report_date d =
     (if records = [] \<or> runs = [] then []
      else map ve_fact (sort_key (\<lambda>v. (mb_instrument (ve_base v), - mb_trading (ve_base v), - mb_available (ve_fact v)))
        (rev (sort_key (\<lambda>v. mb_id (ve_base v))
          (filter (\<lambda>v. mb_region (ve_base v) = r \<and> mb_instrument (ve_base v) \<in> set instruments \<and> bar_record v \<in> set records
              \<and> mb_trading (ve_base v) < report_date) (evidence_bars t runs d))))))"

definition late_market_instruments :: "region \<Rightarrow> string list \<Rightarrow> uuid list \<Rightarrow> instant \<Rightarrow> instant \<Rightarrow> date \<Rightarrow> fact_tables \<Rightarrow> string list" where
  "late_market_instruments r records runs cutoff as_of expected d =
     (if records = [] \<or> runs = [] then []
      else map (\<lambda>v. mb_instrument (ve_base v)) (filter (\<lambda>v. mb_region (ve_base v) = r \<and> bar_record v \<in> set records
          \<and> mb_trading (ve_base v) = expected \<and> cutoff < mb_available (ve_fact v)) (evidence_bars as_of runs d)))"

definition market_has_revision :: "(string \<times> string) list \<Rightarrow> instant \<Rightarrow> fact_tables \<Rightarrow> bool" where
  "market_has_revision selected cutoff d \<longleftrightarrow> (\<exists>r \<in> set (ft_bar_revisions d).
     (mb_id (fw_fact r), bar_checksum (fw_fact r)) \<in> set selected \<and> mb_available (fw_fact r) \<le> cutoff)"

section \<open>Macro releases\<close>

definition calendar_window :: "date \<Rightarrow> instant \<Rightarrow> macro_release \<Rightarrow> bool" where
  "calendar_window report_date cutoff x \<longleftrightarrow> (case mr_at x of Some t \<Rightarrow> cutoff \<le> t \<and> t < cutoff + 7 * day_us | None \<Rightarrow> False)
     \<or> (case mr_date x of Some y \<Rightarrow> report_date \<le> y \<and> y < report_date + 7 | None \<Rightarrow> False)"

text \<open>An ascending order puts null last.\<close>

definition nulls_last :: "int option \<Rightarrow> nat \<times> int" where
  "nulls_last x = (case x of Some v \<Rightarrow> (0, v) | None \<Rightarrow> (1, 0))"

definition macro_releases_as_of :: "region \<Rightarrow> string list \<Rightarrow> uuid list \<Rightarrow> date \<Rightarrow> instant \<Rightarrow> fact_tables \<Rightarrow> macro_release list" where
  "macro_releases_as_of r records runs report_date cutoff d =
     (if records = [] \<or> runs = [] then []
      else map ve_fact (sort_key (\<lambda>v. (nulls_last (mr_at (ve_base v)), nulls_last (mr_date (ve_base v)), mr_id (ve_base v)))
        (filter (\<lambda>v. mr_region (ve_base v) = r \<and> release_record v \<in> set records \<and> calendar_window report_date cutoff (ve_base v))
          (evidence_releases cutoff runs d))))"

definition has_late_macro_release :: "region \<Rightarrow> string list \<Rightarrow> uuid list \<Rightarrow> date \<Rightarrow> instant \<Rightarrow> instant \<Rightarrow> fact_tables \<Rightarrow> bool" where
  "has_late_macro_release r records runs report_date cutoff as_of d \<longleftrightarrow> records \<noteq> [] \<and> runs \<noteq> []
     \<and> (\<exists>v \<in> set (evidence_releases as_of runs d). mr_region (ve_base v) = r \<and> release_record v \<in> set records
          \<and> cutoff < mr_available (ve_fact v) \<and> calendar_window report_date cutoff (ve_base v))"

definition macro_has_revision :: "(string \<times> string) list \<Rightarrow> instant \<Rightarrow> fact_tables \<Rightarrow> bool" where
  "macro_has_revision selected cutoff d \<longleftrightarrow> (\<exists>r \<in> set (ft_release_revisions d).
     (mr_id (fw_fact r), release_checksum (fw_fact r)) \<in> set selected \<and> mr_available (fw_fact r) \<le> cutoff)"

section \<open>Headlines\<close>

text \<open>The events of the last 24 hours whose availability is in an interval.\<close>

definition headlines :: "region \<Rightarrow> string list \<Rightarrow> instant \<Rightarrow> (instant \<Rightarrow> bool) \<Rightarrow> fact_tables \<Rightarrow> news_event list" where
  "headlines r records since available d = map fw_fact (filter (\<lambda>x. let e = fw_fact x in (fw_id x, r) \<in> set (ft_news_regions d)
     \<and> ne_status e \<in> {News_active, News_corrected} \<and> so_record (ne_source e) \<in> set records \<and> available (ne_available e)
     \<and> ((case ne_published e of Some t \<Rightarrow> since \<le> t | None \<Rightarrow> False) \<or> (case ne_pdate e of Some x \<Rightarrow> wall_date since \<le> x | None \<Rightarrow> False)))
     (ft_news d))"

definition official_headlines :: "region \<Rightarrow> string list \<Rightarrow> instant \<Rightarrow> fact_tables \<Rightarrow> news_event list" where
  "official_headlines r records cutoff d = sort_key (\<lambda>e. (- ne_available e, ne_id e)) (headlines r records (cutoff - day_us) (\<lambda>t. t \<le> cutoff) d)"

definition late_headlines :: "region \<Rightarrow> string list \<Rightarrow> instant \<Rightarrow> instant \<Rightarrow> fact_tables \<Rightarrow> news_event list" where
  "late_headlines r records cutoff as_of d = headlines r records (cutoff - day_us) (\<lambda>t. cutoff < t \<and> t \<le> as_of) d"

section \<open>Facts of the report\<close>

definition source_ref_id :: "(string \<Rightarrow> string) \<Rightarrow> fact_source \<Rightarrow> string" where
  "source_ref_id sha s = stable_id sha ''report-source'' [so_provider s, so_record s, so_checksum s]"

definition source_reference :: "(string \<Rightarrow> string) \<Rightarrow> fact_source \<Rightarrow> (string \<times> json) list" where
  "source_reference sha s = [(''source_ref_id'', JStr (source_ref_id sha s)), (''provider_id'', JStr (so_provider s)),
     (''provider_record_id'', JStr (so_record s)), (''source_name'', JStr (so_name s)), (''source_url'', opt_str (so_url s)),
     (''retrieved_at'', JStr (iso_utc (so_retrieved s))), (''checksum_sha256'', JStr (so_checksum s))]"

definition highlights :: "region \<Rightarrow> string" where
  "highlights r = lower (region_value r) @ ''_highlights''"

definition market_bar_fact :: "(string \<Rightarrow> string) \<Rightarrow> string \<Rightarrow> date \<Rightarrow> market_bar \<Rightarrow> (string \<times> json) list" where
  "market_bar_fact sha i report_date b = [(''fact_id'', JStr (stable_id sha ''report-fact'' [i, mb_id b, bar_checksum b])),
     (''input_id'', JStr i), (''fact_type'', JStr ''market_bar''), (''section_id'', JStr (highlights (mb_region b))),
     (''instrument_id'', JStr (mb_instrument b)), (''canonical_symbol'', JStr (mb_symbol b)), (''trading_date'', JStr (isodate (mb_trading b))),
     (''open'', JStr (mb_open b)), (''high'', JStr (mb_high b)), (''low'', JStr (mb_low b)), (''close'', JStr (mb_close b)),
     (''volume'', opt_str (mb_volume b)), (''currency'', JStr (mb_currency b)), (''label'', JStr (mb_symbol b @ '' close'')),
     (''display_text'', JStr (mb_symbol b @ '' closed at '' @ mb_close b @ '' '' @ mb_currency b @ ''.'')), (''value'', JStr (mb_close b)),
     (''unit'', JStr (mb_currency b)), (''available_at'', JStr (iso_utc (mb_available b))), (''report_date'', JStr (isodate report_date)),
     (''source_ref_ids'', JList [JStr (source_ref_id sha (mb_source b))])]"

fun content_mode_text :: "content_mode \<Rightarrow> string" where
  "content_mode_text Headline = ''headline''"
| "content_mode_text Snippet = ''snippet''"
| "content_mode_text Full_text = ''full_text''"

definition opt_date :: "date option \<Rightarrow> json" where
  "opt_date x = opt_str (map_option isodate x)"

definition opt_time :: "instant option \<Rightarrow> json" where
  "opt_time x = opt_str (map_option iso_utc x)"

definition news_event_fact :: "(string \<Rightarrow> string) \<Rightarrow> string \<Rightarrow> date \<Rightarrow> news_event \<Rightarrow> (string \<times> json) list" where
  "news_event_fact sha i report_date e = [(''fact_id'', JStr (stable_id sha ''report-fact'' [i, ne_id e, ne_hash e])),
     (''input_id'', JStr i), (''fact_type'', JStr ''news_event''), (''section_id'', JStr (highlights (hd (ne_regions e)))),
     (''news_id'', JStr (ne_id e)), (''title'', JStr (ne_title e)), (''summary'', opt_str (ne_summary e)),
     (''published_at'', opt_time (ne_published e)), (''published_date'', opt_date (ne_pdate e)),
     (''content_mode'', JStr (content_mode_text (ne_mode e))), (''label'', JStr (ne_title e)),
     (''display_text'', JStr (case ne_summary e of None \<Rightarrow> ne_title e | Some s \<Rightarrow> ne_title e @ '': '' @ s)), (''value'', JNull),
     (''available_at'', JStr (iso_utc (ne_available e))), (''report_date'', JStr (isodate report_date)),
     (''source_ref_ids'', JList [JStr (source_ref_id sha (ne_source e))])]"

fun release_status_text :: "release_status \<Rightarrow> string" where
  "release_status_text Release_scheduled = ''scheduled''"
| "release_status_text Released = ''released''"
| "release_status_text Delayed = ''delayed''"
| "release_status_text Cancelled = ''cancelled''"

definition macro_release_fact :: "(string \<Rightarrow> string) \<Rightarrow> string \<Rightarrow> date \<Rightarrow> macro_release \<Rightarrow> (string \<times> json) list" where
  "macro_release_fact sha i report_date x = [(''fact_id'', JStr (stable_id sha ''report-fact'' [i, mr_id x, release_checksum x])),
     (''input_id'', JStr i), (''fact_type'', JStr ''macro_release''), (''section_id'', JStr ''upcoming_calendar''),
     (''release_id'', JStr (mr_id x)), (''series_id'', JStr (mr_series x)), (''region'', JStr (region_value (mr_region x))),
     (''release_name'', JStr (mr_name x)), (''scheduled_at'', opt_time (mr_at x)), (''scheduled_date'', opt_date (mr_date x)),
     (''status'', JStr (release_status_text (mr_status x))), (''actual'', opt_str (mr_actual x)), (''consensus'', opt_str (mr_consensus x)),
     (''previous'', opt_str (mr_previous x)), (''label'', JStr (mr_name x)),
     (''display_text'', JStr (mr_name x @ '' is '' @ release_status_text (mr_status x) @ ''.'')), (''value'', opt_str (mr_actual x)),
     (''unit'', JStr (mr_unit x)), (''available_at'', JStr (iso_utc (mr_available x))), (''report_date'', JStr (isodate report_date)),
     (''source_ref_ids'', JList [JStr (source_ref_id sha (mr_source x))])]"

section \<open>Pages and rejections of a task\<close>

text \<open>The rejections of the runs of a task, at least those its result counts.\<close>

definition run_rejections :: "uuid \<Rightarrow> 'f ingest_db \<Rightarrow> int" where
  "run_rejections i d = int (length (filter (\<lambda>r. rj_run r = i) (ig_rejections d)))"

definition task_rejection_count :: "task_result option \<Rightarrow> 'f ingest_db \<Rightarrow> int" where
  "task_rejection_count x d = (case x of None \<Rightarrow> 0
     | Some r \<Rightarrow> max (tr_rejected r) (sum_list (map (\<lambda>i. run_rejections i d) (evidence_run_ids r))))"

definition task_pages :: "task_result \<Rightarrow> 'f ingest_db \<Rightarrow> committed_page list" where
  "task_pages r d = (case (tr_dataset r, tr_region r) of
     (Some ds, Some g) \<Rightarrow> map pc_page (filter (\<lambda>p. pc_run p \<in> set (evidence_run_ids r) \<and> cp_role (pc_page p) = tr_role r
         \<and> cp_dataset (pc_page p) = ds \<and> cp_region (pc_page p) = region_value g) (ig_pages d))
   | _ \<Rightarrow> [])"

text \<open>The number of committed pages and the provider records on them.\<close>

definition committed_task_pages :: "task_result \<Rightarrow> 'f ingest_db \<Rightarrow> nat \<times> string list" where
  "committed_task_pages r d = (length (task_pages r d), remdups (concat (map cp_records (task_pages r d))))"

end
