(* ===== verification/Input_Evidence.thy ===== *)
theory Input_Evidence
  imports Input_Queries Quality_Gate
begin

text \<open>
  \<open>PostgresReportInputEvidenceStore\<close> of \<open>services/report_input_evidence.py\<close> with the quality helpers of
  \<open>report_input_evidence_support.py\<close>: what the durable facts say about each input of the report. The exchange
  calendars are the parameter \<open>exchange\<close> of the report day. The queries of one collection read one state of
  the database. What is shown: usable market evidence is complete, current, fresh and of the task's own pages; and
  evidence does not depend on facts that become available after it was collected.
\<close>

section \<open>Evidence\<close>

datatype evidence_status = Ev_available | Ev_revised | Ev_retryable | Ev_missing | Ev_stale | Ev_late | Ev_unavailable
  | Ev_quarantined | Ev_invalid

fun evidence_text :: "evidence_status \<Rightarrow> string" where
  "evidence_text Ev_available = ''available''"
| "evidence_text Ev_revised = ''revised''"
| "evidence_text Ev_retryable = ''retryable''"
| "evidence_text Ev_missing = ''missing''"
| "evidence_text Ev_stale = ''stale''"
| "evidence_text Ev_late = ''late''"
| "evidence_text Ev_unavailable = ''unavailable''"
| "evidence_text Ev_quarantined = ''quarantined''"
| "evidence_text Ev_invalid = ''invalid''"

record input_evidence =
  ev_input :: string
  ev_status :: evidence_status
  ev_required :: bool
  ev_reason :: string
  ev_facts :: "(string \<times> json) list list"
  ev_sources :: "(string \<times> json) list list"

definition usable :: "evidence_status \<Rightarrow> bool" where
  "usable st \<longleftrightarrow> st \<in> {Ev_available, Ev_revised}"

definition finding :: "string \<Rightarrow> evidence_status \<Rightarrow> string \<Rightarrow> input_evidence" where
  "finding i st reason = \<lparr>ev_input = i, ev_status = st, ev_required = True, ev_reason = reason, ev_facts = [], ev_sources = []\<rparr>"

record market_input_spec =
  mi_input :: string
  mi_task :: string
  mi_region :: region
  mi_expected :: "string list"

definition market_input_specs :: "market_input_spec list" where
  "market_input_specs =
     [\<lparr>mi_input = ''market.cn.core_indices.previous_close'', mi_task = ''cn.daily-bars'', mi_region = CN,
       mi_expected = [''ins_cn_index_sse_composite'', ''ins_cn_index_csi300'', ''ins_cn_index_szse_component'']\<rparr>,
      \<lparr>mi_input = ''market.hk.core_indices.previous_close'', mi_task = ''hk.core-index-bars'', mi_region = HK,
       mi_expected = [''ins_hk_index_hsi'', ''ins_hk_index_hscei'', ''ins_hk_index_hstech'']\<rparr>,
      \<lparr>mi_input = ''market.us.core_indices.previous_close'', mi_task = ''us.daily-bars'', mi_region = US,
       mi_expected = [''ins_us_etf_spy'', ''ins_us_etf_qqq'', ''ins_us_etf_dia'']\<rparr>]"

fun task_status_name :: "task_status \<Rightarrow> string" where
  "task_status_name Task_succeeded = ''succeeded''"
| "task_status_name Task_failed = ''failed''"
| "task_status_name Task_retryable = ''retryable''"

definition task_problem :: "string \<Rightarrow> task_result option \<Rightarrow> int \<Rightarrow> input_evidence option" where
  "task_problem i x rejections = (case x of
     None \<Rightarrow> Some (finding i Ev_unavailable ''scheduled task did not produce a durable result'')
   | Some r \<Rightarrow>
       if 0 < rejections then Some (finding i Ev_quarantined (''scheduled task quarantined '' @ int_str rejections @ '' records''))
       else if tr_status r = Task_succeeded
       then (if evidence_run_ids r = [] then Some (finding i Ev_unavailable ''scheduled task succeeded without durable run evidence'') else None)
       else Some (finding i (if tr_status r = Task_retryable then Ev_retryable else Ev_unavailable)
         (''scheduled task '' @ tr_task r @ '' ended as '' @ task_status_name (tr_status r)
           @ (case tr_error r of None \<Rightarrow> [] | Some c \<Rightarrow> if c = [] then [] else '' ('' @ c @ '')''))))"

definition unexpected_trading_dates :: "date list \<Rightarrow> date \<Rightarrow> date list" where
  "unexpected_trading_dates ds expected = sorted_set (filter (\<lambda>d. d \<noteq> expected) ds)"

definition source_status :: "instant list \<Rightarrow> instant \<Rightarrow> int \<Rightarrow> bool \<Rightarrow> evidence_status \<times> string" where
  "source_status ats cutoff max_age revised =
     (if \<exists>t \<in> set ats. cutoff < t then (Ev_late, ''a required fact became available after the report cutoff'')
      else if \<exists>t \<in> set ats. max_age < cutoff - t then (Ev_stale, ''a required fact exceeds the configured freshness window'')
      else if revised then (Ev_revised, ''a later source revision exists for this report input'')
      else (Ev_available, ''all required facts are materialized before cutoff''))"

text \<open>\<open>previous_session\<close>: an error of the calendar is a gap of the coverage.\<close>

definition expected_session :: "exchange \<Rightarrow> region \<Rightarrow> date \<Rightarrow> exn + date + string" where
  "expected_session ex r d = bindE (venue_calendar r) (\<lambda>cal. case session_lookup ex cal d of
     Inl e \<Rightarrow> if is_calendar_error e then Inr (Inr (cal @ '' cannot resolve a previous session for '' @ isodate d)) else Inl e
   | Inr (s, prev) \<Rightarrow> Inr (Inl prev))"

section \<open>Markets\<close>

record evidence_store =
  es_sha :: "string \<Rightarrow> string"
  es_market_age :: int
  es_news_age :: int
  es_exchange :: exchange

definition make_evidence_store :: "evidence_store \<Rightarrow> exn + evidence_store" where
  "make_evidence_store c = (if min (es_market_age c) (es_news_age c) \<le> 0 then Inl ValueError else Inr c)"

definition no_pages :: string where
  "no_pages = ''scheduled task has no committed provider pages for its durable run evidence''"

text \<open>The first bar of each instrument.\<close>

definition first_bars :: "market_bar list \<Rightarrow> market_bar list" where
  "first_bars bs = map (\<lambda>i. the (find (\<lambda>b. mb_instrument b = i) bs)) (sorted_set (map mb_instrument bs))"

definition bars_evidence :: "evidence_store \<Rightarrow> market_input_spec \<Rightarrow> date \<Rightarrow> instant \<Rightarrow> date \<Rightarrow> market_bar list \<Rightarrow> fact_tables \<Rightarrow> input_evidence" where
  "bars_evidence c s report_date cutoff expected bars d =
     (let stale = unexpected_trading_dates (map mb_trading bars) expected in
      if stale \<noteq> [] then finding (mi_input s) Ev_stale (''expected previous market session '' @ isodate expected @ '', found ''
          @ join '', '' (map isodate stale))
      else case source_status (map mb_available bars) cutoff (es_market_age c)
          (market_has_revision (map (\<lambda>b. (mb_id b, bar_checksum b)) bars) cutoff d) of
        (st, reason) \<Rightarrow> \<lparr>ev_input = mi_input s, ev_status = st, ev_required = True, ev_reason = reason,
          ev_facts = map (market_bar_fact (es_sha c) (mi_input s) report_date) bars,
          ev_sources = map (\<lambda>b. source_reference (es_sha c) (mb_source b)) bars\<rparr>)"

definition missing_bars :: "market_input_spec \<Rightarrow> task_result \<Rightarrow> string list \<Rightarrow> instant \<Rightarrow> instant \<Rightarrow> date \<Rightarrow> string list \<Rightarrow> fact_tables \<Rightarrow> input_evidence" where
  "missing_bars s r records as_of cutoff expected missing d =
     (if set missing \<subseteq> set (late_market_instruments (mi_region s) records (evidence_run_ids r) cutoff as_of expected d)
      then finding (mi_input s) Ev_late (''required market bars were committed after the report cutoff: '' @ join '', '' missing)
      else finding (mi_input s) Ev_missing (''missing expected instruments: '' @ join '', '' missing))"

definition market_evidence :: "evidence_store \<Rightarrow> date \<Rightarrow> instant \<Rightarrow> instant \<Rightarrow> task_result option \<Rightarrow> fact_tables ingest_db \<Rightarrow> market_input_spec
    \<Rightarrow> exn + input_evidence" where
  "market_evidence c report_date as_of cutoff x db s =
     (case (task_problem (mi_input s) x (task_rejection_count x db), x) of
        (Some e, _) \<Rightarrow> Inr e
      | (None, None) \<Rightarrow> Inl AssertionError
      | (None, Some r) \<Rightarrow> (case committed_task_pages r db of (n, records) \<Rightarrow>
          if n = 0 then Inr (finding (mi_input s) Ev_unavailable no_pages)
          else if records = [] then Inr (finding (mi_input s) Ev_missing ''scheduled task committed no market-bar provider records'')
          else let d = ig_facts db;
              bars = first_bars (market_bars_as_of (mi_region s) (mi_expected s) records (evidence_run_ids r) cutoff report_date d);
              missing = sorted_set (filter (\<lambda>i. i \<notin> mb_instrument ` set bars) (mi_expected s)) in
            bindE (expected_session (es_exchange c) (mi_region s) report_date) (\<lambda>session. case session of
              Inr reason \<Rightarrow> Inr (finding (mi_input s) Ev_unavailable reason)
            | Inl expected \<Rightarrow> Inr (if missing \<noteq> [] then missing_bars s r records as_of cutoff expected missing d
                else bars_evidence c s report_date cutoff expected bars d))))"

section \<open>Headlines\<close>

definition news_task_id :: "region \<Rightarrow> string" where
  "news_task_id r = (if r = HK then ''hk.official-headlines'' else ''cn.official-headlines'')"

definition news_evidence :: "evidence_store \<Rightarrow> date \<Rightarrow> instant \<Rightarrow> instant \<Rightarrow> task_result option \<Rightarrow> fact_tables ingest_db \<Rightarrow> string \<Rightarrow> region
    \<Rightarrow> exn + input_evidence" where
  "news_evidence c report_date as_of cutoff x db i r =
     (case (task_problem i x (task_rejection_count x db), x) of
        (Some e, _) \<Rightarrow> Inr e
      | (None, None) \<Rightarrow> Inl AssertionError
      | (None, Some t) \<Rightarrow> (case committed_task_pages t db of (n, records) \<Rightarrow>
          if n = 0 then Inr (finding i Ev_unavailable no_pages)
          else let events = official_headlines r records cutoff (ig_facts db) in
            if events = []
            then Inr (if late_headlines r records cutoff as_of (ig_facts db) \<noteq> []
              then finding i Ev_late ''official headlines were committed after the report cutoff''
              else finding i Ev_missing ''no official headline materialized in the last 24 hours'')
            else case source_status (map ne_available events) cutoff (es_news_age c) (\<exists>e \<in> set events. ne_status e = News_corrected) of
              (st, reason) \<Rightarrow> Inr \<lparr>ev_input = i, ev_status = st, ev_required = True, ev_reason = reason,
                ev_facts = map (news_event_fact (es_sha c) i report_date) events,
                ev_sources = map (\<lambda>e. source_reference (es_sha c) (ne_source e)) events\<rparr>))"

section \<open>Release calendars\<close>

definition empty_calendar_fact :: "string \<Rightarrow> region \<Rightarrow> instant \<Rightarrow> date \<Rightarrow> (string \<times> json) list" where
  "empty_calendar_fact i r cutoff report_date = [(''fact_id'', JStr (''fact.'' @ i @ ''.'' @ lower (region_value r) @ ''.empty'')),
     (''input_id'', JStr i), (''fact_type'', JStr ''macro_release_calendar''),
     (''label'', JStr (region_value r @ '' macro releases in next seven days'')),
     (''display_text'', JStr ''No macro releases are scheduled in the next seven days.''), (''value'', JInt 0), (''unit'', JStr ''events''),
     (''available_at'', JStr (iso_utc cutoff)), (''report_date'', JStr (isodate report_date)), (''source_ref_ids'', JList [])]"

definition macro_evidence :: "evidence_store \<Rightarrow> date \<Rightarrow> instant \<Rightarrow> instant \<Rightarrow> task_result option \<Rightarrow> fact_tables ingest_db \<Rightarrow> string \<Rightarrow> region
    \<Rightarrow> exn + input_evidence" where
  "macro_evidence c report_date as_of cutoff x db i r =
     (case (task_problem i x (task_rejection_count x db), x) of
        (Some e, _) \<Rightarrow> Inr e
      | (None, None) \<Rightarrow> Inl AssertionError
      | (None, Some t) \<Rightarrow> (case committed_task_pages t db of (n, records) \<Rightarrow>
          if n = 0 then Inr (finding i Ev_unavailable no_pages)
          else let d = ig_facts db; runs = evidence_run_ids t; releases = macro_releases_as_of r records runs report_date cutoff d in
            if releases = []
            then Inr (if has_late_macro_release r records runs report_date cutoff as_of d
              then finding i Ev_late ''macro release calendar entries were committed after the report cutoff''
              else (finding i Ev_available (region_value r @ '' calendar coverage completed with no releases in the next seven days''))
                \<lparr>ev_facts := [empty_calendar_fact i r cutoff report_date]\<rparr>)
            else let revised = macro_has_revision (map (\<lambda>x. (mr_id x, release_checksum x)) releases) cutoff d in
              Inr \<lparr>ev_input = i, ev_status = (if revised then Ev_revised else Ev_available), ev_required = True,
                ev_reason = (if revised then ''a later source revision exists for this report input''
                  else ''calendar coverage is materialized before cutoff''),
                ev_facts = map (macro_release_fact (es_sha c) i report_date) releases,
                ev_sources = map (\<lambda>x. source_reference (es_sha c) (mr_source x)) releases\<rparr>))"

text \<open>\<open>_global_calendar_evidence\<close>: the first region that is not usable decides; of sources with one id the last stays.\<close>

definition global_calendar :: "(region \<times> input_evidence) list \<Rightarrow> input_evidence" where
  "global_calendar xs = (case find (\<lambda>x. \<not> usable (ev_status (snd x))) xs of
     Some (r, e) \<Rightarrow> finding (ev_input e) (ev_status e) (region_value r @ '' calendar: '' @ ev_reason e)
   | None \<Rightarrow> let revised = (\<exists>x \<in> set xs. ev_status (snd x) = Ev_revised); sources = concat (map (\<lambda>x. ev_sources (snd x)) xs);
         key = (\<lambda>s. py_str (jget s ''source_ref_id'')) in
       \<lparr>ev_input = ev_input (snd (hd xs)), ev_status = (if revised then Ev_revised else Ev_available), ev_required = True,
         ev_reason = (if revised then ''one or more regional calendars have a later source revision''
           else ''CN, HK, and US calendar coverage is materialized before cutoff''),
         ev_facts = concat (map (\<lambda>x. ev_facts (snd x)) xs),
         ev_sources = map (\<lambda>k. last (filter (\<lambda>s. key s = k) sources)) (dedup (map key sources))\<rparr>)"

section \<open>The collection\<close>

definition result_for :: "task_result list \<Rightarrow> string \<Rightarrow> task_result option" where
  "result_for rs i = find (\<lambda>r. tr_task r = i) rs"

definition calendar_task_id :: "region \<Rightarrow> string" where
  "calendar_task_id r = lower (region_value r) @ ''.macro-release-calendar''"

definition collect :: "evidence_store \<Rightarrow> date \<Rightarrow> instant \<Rightarrow> instant \<Rightarrow> task_result list \<Rightarrow> fact_tables ingest_db \<Rightarrow> exn + input_evidence list" where
  "collect c report_date as_of cutoff rs db =
     (if \<not> distinct (map tr_task rs) then Inl ValueError
      else bindE (mapE (\<lambda>s. market_evidence c report_date as_of cutoff (result_for rs (mi_task s)) db s) market_input_specs) (\<lambda>market.
        bindE (news_evidence c report_date as_of cutoff (result_for rs (news_task_id HK)) db ''news.hk.official_headlines_24h'' HK) (\<lambda>hk.
        bindE (news_evidence c report_date as_of cutoff (result_for rs (news_task_id CN)) db ''news.cn.official_headlines_24h'' CN) (\<lambda>cn.
        bindE (mapE (\<lambda>r. macro_evidence c report_date as_of cutoff (result_for rs (calendar_task_id r)) db ''calendar.macro_releases_7d'' r)
            [CN, HK, US]) (\<lambda>macro.
          Inr (market @ [cn, hk, global_calendar (zip [CN, HK, US] macro)]))))))"


section \<open>Usable evidence of a market\<close>

lemma find_mem: "i \<in> f ` set xs \<Longrightarrow> \<exists>x. find (\<lambda>x. f x = i) xs = Some x \<and> x \<in> set xs \<and> f x = i"
  by (induction xs) auto

lemma first_bars_mem: "b \<in> set (first_bars bs) \<Longrightarrow> b \<in> set bs"
  using find_mem [of _ mb_instrument bs] by (fastforce simp: first_bars_def)

lemma first_bars_instruments: "map mb_instrument (first_bars bs) = sorted_set (map mb_instrument bs)"
proof -
  have "mb_instrument (the (find (\<lambda>b. mb_instrument b = i) bs)) = i" if "i \<in> mb_instrument ` set bs" for i
    using find_mem [OF that] by auto
  then show ?thesis by (auto simp: first_bars_def intro!: map_idI)
qed

lemma market_bars_mem:
  assumes "b \<in> set (market_bars_as_of r ids records runs t report_date d)"
  obtains v where "v \<in> set (evidence_bars t runs d)" "ve_fact v = b" "bar_record v \<in> set records" "mb_trading (ve_base v) < report_date"
    "mb_instrument (ve_base v) \<in> set ids"
  using assms by (auto simp: market_bars_as_of_def split: if_splits)

lemma finding_status [simp]: "ev_status (finding i st reason) = st" "ev_input (finding i st reason) = i" "ev_required (finding i st reason)"
  by (simp_all add: finding_def)

lemma task_problem_None:
  assumes "task_problem i x n = None"
  obtains r where "x = Some r" "tr_status r = Task_succeeded" "n \<le> 0" "evidence_run_ids r \<noteq> []"
  using assms by (auto simp: task_problem_def split: option.splits if_splits)

lemma task_problem_unusable: "task_problem i x n = Some e \<Longrightarrow> \<not> usable (ev_status e) \<and> ev_input e = i \<and> ev_required e"
  by (auto simp: task_problem_def usable_def split: option.splits if_splits)

lemma source_status_usable:
  assumes "source_status ats cutoff age revised = (st, reason)" "usable st" "t \<in> set ats"
  shows "t \<le> cutoff" "cutoff - t \<le> age"
  using assms by (auto simp: source_status_def usable_def not_less split: if_splits)

lemma bars_evidence_usable:
  assumes "usable (ev_status (bars_evidence c s report_date cutoff expected bars d))"
  shows "ev_facts (bars_evidence c s report_date cutoff expected bars d) = map (market_bar_fact (es_sha c) (mi_input s) report_date) bars
    \<and> (\<forall>b \<in> set bars. mb_trading b = expected \<and> mb_available b \<le> cutoff \<and> cutoff - mb_available b \<le> es_market_age c)"
proof -
  have fresh: "unexpected_trading_dates (map mb_trading bars) expected = []"
    using assms by (auto simp: bars_evidence_def Let_def usable_def split: if_splits)
  then have "filter (\<lambda>d. d \<noteq> expected) (map mb_trading bars) = []"
    by (metis unexpected_trading_dates_def set_sorted_set set_empty)
  then have "mb_trading b = expected" if "b \<in> set bars" for b using that by (auto simp: filter_empty_conv)
  moreover obtain st reason where st: "source_status (map mb_available bars) cutoff (es_market_age c)
      (market_has_revision (map (\<lambda>b. (mb_id b, bar_checksum b)) bars) cutoff d) = (st, reason)" by fastforce
  moreover have "usable st" using assms fresh st by (simp add: bars_evidence_def)
  ultimately show ?thesis using fresh source_status_usable [OF st] by (simp add: bars_evidence_def)
qed

text \<open>Usable market evidence comes from a task that succeeded without rejected records and has a fact for every expected instrument, each
  from the version in force at the cutoff, of a record on the task's pages, of the previous session and within the freshness window.\<close>

lemma market_evidence_usable:
  assumes "market_evidence c report_date as_of cutoff x db s = Inr e" "usable (ev_status e)"
  shows "\<exists>r bars expected. x = Some r \<and> tr_status r = Task_succeeded \<and> task_rejection_count x db \<le> 0
    \<and> expected_session (es_exchange c) (mi_region s) report_date = Inr (Inl expected)
    \<and> ev_facts e = map (market_bar_fact (es_sha c) (mi_input s) report_date) bars
    \<and> set (mi_expected s) \<subseteq> mb_instrument ` set bars \<and> distinct (map mb_instrument bars)
    \<and> (\<forall>b \<in> set bars. mb_trading b = expected \<and> mb_available b \<le> cutoff \<and> cutoff - mb_available b \<le> es_market_age c
         \<and> so_record (mb_source b) \<in> set (snd (committed_task_pages r db))
         \<and> (\<exists>v \<in> set (evidence_bars cutoff (evidence_run_ids r) (ig_facts db)). ve_fact v = b \<and> mb_instrument (ve_base v) \<in> set (mi_expected s)))"
proof -
  have none: "task_problem (mi_input s) x (task_rejection_count x db) = None"
    using assms task_problem_unusable by (cases "task_problem (mi_input s) x (task_rejection_count x db)") (fastforce simp: market_evidence_def)+
  then obtain r where r: "x = Some r" "tr_status r = Task_succeeded" "task_rejection_count x db \<le> 0" by (rule task_problem_None)
  obtain n records where pages: "committed_task_pages r db = (n, records)" by fastforce
  define bars where "bars = first_bars (market_bars_as_of (mi_region s) (mi_expected s) records (evidence_run_ids r) cutoff report_date (ig_facts db))"
  define missing where "missing = sorted_set (filter (\<lambda>i. i \<notin> mb_instrument ` set bars) (mi_expected s))"
  have ne: "n \<noteq> 0" "records \<noteq> []" using assms none r(1) pages by (auto simp: market_evidence_def usable_def split: if_splits)
  have run: "bindE (expected_session (es_exchange c) (mi_region s) report_date) (\<lambda>session. case session of
      Inr reason \<Rightarrow> Inr (finding (mi_input s) Ev_unavailable reason)
    | Inl expected \<Rightarrow> Inr (if missing \<noteq> [] then missing_bars s r records as_of cutoff expected missing (ig_facts db)
        else bars_evidence c s report_date cutoff expected bars (ig_facts db))) = Inr e"
    using assms(1) none r(1) pages ne unfolding market_evidence_def Let_def missing_def bars_def by simp
  then obtain session where "expected_session (es_exchange c) (mi_region s) report_date = Inr session" by (auto simp: bindE_eq_Inr)
  with run assms(2) obtain expected where session: "expected_session (es_exchange c) (mi_region s) report_date = Inr (Inl expected)"
    and e: "e = (if missing \<noteq> [] then missing_bars s r records as_of cutoff expected missing (ig_facts db)
      else bars_evidence c s report_date cutoff expected bars (ig_facts db))"
    by (cases session) (auto simp: usable_def)
  have "missing = []" using assms(2) e by (auto simp: missing_bars_def usable_def split: if_splits)
  then have all: "set (mi_expected s) \<subseteq> mb_instrument ` set bars"
    unfolding missing_def by (metis (no_types, lifting) filter_empty_conv set_empty set_sorted_set subsetI)
  have usable: "usable (ev_status (bars_evidence c s report_date cutoff expected bars (ig_facts db)))"
    using assms(2) e \<open>missing = []\<close> by simp
  have mem: "so_record (mb_source b) \<in> set records \<and> (\<exists>v \<in> set (evidence_bars cutoff (evidence_run_ids r) (ig_facts db)).
      ve_fact v = b \<and> mb_instrument (ve_base v) \<in> set (mi_expected s))" if "b \<in> set bars" for b
    using first_bars_mem [OF that [unfolded bars_def]] by (rule market_bars_mem) (auto simp: bar_record_def)
  have "distinct (map mb_instrument bars)" by (simp add: bars_def first_bars_instruments)
  then show ?thesis using r session bars_evidence_usable [OF usable] all mem pages e \<open>missing = []\<close>
    by (intro exI [of _ r] exI [of _ bars] exI [of _ expected]) simp
qed


section \<open>Evidence and later facts\<close>

text \<open>Two states of the tables that agree on what was available at every time up to a limit.\<close>

definition same_until :: "instant \<Rightarrow> fact_tables \<Rightarrow> fact_tables \<Rightarrow> bool" where
  "same_until limit d e \<longleftrightarrow> facts_ok d \<and> facts_ok e
     \<and> (\<forall>t \<le> limit. bars_at t e = bars_at t d \<and> releases_at t e = releases_at t d \<and> news_at t e = news_at t d)"

lemma later_writes_same:
  assumes "facts_ok d" "list_all (available_after limit) ops"
  shows "same_until limit d (fold (fact_exec sha) ops d)"
proof -
  have later: "list_all (available_after s) ops" if "s \<le> limit" for s
    using assms(2) that by (auto simp: list_all_iff intro: available_after_mono)
  show ?thesis using assms(1) written_facts_ok [OF assms(1)]
    by (simp add: same_until_def bars.stable [OF assms(1) later] releases.stable [OF assms(1) later] news_events.stable [OF assms(1) later])
qed

text \<open>The queries in terms of what is available.\<close>

lemma revision_available:
  assumes "versions_ok key base revisions"
  shows "(\<exists>r \<in> set revisions. P (fw_fact r)) \<longleftrightarrow> (\<exists>v \<in> set (all_versions key base revisions). ve_revision v = 1 \<and> P (ve_fact v))"
proof
  assume "\<exists>r \<in> set revisions. P (fw_fact r)"
  then obtain r where r: "r \<in> set revisions" "P (fw_fact r)" by blast
  then have "key (fw_fact r) \<in> fw_id ` set base" using assms unfolding versions_ok_def by blast
  then obtain x where x: "x \<in> set base" "key (fw_fact x) = key (fw_fact r)" using versions_ok_mem [OF assms] by blast
  show "\<exists>v \<in> set (all_versions key base revisions). ve_revision v = 1 \<and> P (ve_fact v)"
    using revision_version_mem [OF r(1) x] r(2) by (intro bexI [of _ "revision_version x r"]) (simp_all add: revision_version_def)
next
  assume "\<exists>v \<in> set (all_versions key base revisions). ve_revision v = 1 \<and> P (ve_fact v)"
  then show "\<exists>r \<in> set revisions. P (fw_fact r)" by (auto simp: all_versions_def base_version_def revision_version_def)
qed

lemma market_has_revision_at:
  assumes "facts_ok d"
  shows "market_has_revision selected t d \<longleftrightarrow> (\<exists>v \<in> set (bars_at t d). ve_revision v = 1 \<and> (mb_id (ve_fact v), bar_checksum (ve_fact v)) \<in> set selected)"
proof -
  have ok: "versions_ok mb_id (ft_bars d) (ft_bar_revisions d)" using assms by (simp add: facts_ok_def)
  show ?thesis unfolding market_has_revision_def
      revision_available [OF ok, of "\<lambda>b. (mb_id b, bar_checksum b) \<in> set selected \<and> mb_available b \<le> t"]
    by (auto simp: bars_at_def bar_versions_def)
qed

lemma macro_has_revision_at:
  assumes "facts_ok d"
  shows "macro_has_revision selected t d \<longleftrightarrow> (\<exists>v \<in> set (releases_at t d). ve_revision v = 1 \<and> (mr_id (ve_fact v), release_checksum (ve_fact v)) \<in> set selected)"
proof -
  have ok: "versions_ok mr_id (ft_releases d) (ft_release_revisions d)" using assms by (simp add: facts_ok_def)
  show ?thesis unfolding macro_has_revision_def
      revision_available [OF ok, of "\<lambda>x. (mr_id x, release_checksum x) \<in> set selected \<and> mr_available x \<le> t"]
    by (auto simp: releases_at_def release_versions_def)
qed

lemma joined_mem: "x \<in> set (joined i t) \<longleftrightarrow> (i, x) \<in> set t"
  by (force simp: joined_def)

lemma headlines_at:
  assumes "facts_ok d" "\<And>a. available a \<Longrightarrow> a \<le> t"
  shows "headlines r records since available d = map jn_event (filter (\<lambda>j. let e = jn_event j in r \<in> set (jn_regions j)
     \<and> ne_status e \<in> {News_active, News_corrected} \<and> so_record (ne_source e) \<in> set records \<and> available (ne_available e)
     \<and> ((case ne_published e of Some t \<Rightarrow> since \<le> t | None \<Rightarrow> False) \<or> (case ne_pdate e of Some x \<Rightarrow> wall_date since \<le> x | None \<Rightarrow> False)))
     (news_at t d))"
  unfolding headlines_def news_at_def filter_map map_map filter_filter o_def
  by (intro map_cong filter_cong refl) (auto simp: join_news_def joined_mem Let_def intro: assms(2))

lemma same_queries:
  assumes "same_until limit d e"
  shows "t \<le> limit \<Longrightarrow> evidence_bars t runs e = evidence_bars t runs d"
    and "t \<le> limit \<Longrightarrow> evidence_releases t runs e = evidence_releases t runs d"
    and "t \<le> limit \<Longrightarrow> market_has_revision selected t e = market_has_revision selected t d"
    and "t \<le> limit \<Longrightarrow> macro_has_revision selected t e = macro_has_revision selected t d"
    and "t \<le> limit \<Longrightarrow> official_headlines r records t e = official_headlines r records t d"
    and "t \<le> limit \<Longrightarrow> late_headlines r records cutoff t e = late_headlines r records cutoff t d"
  using assms headlines_at [of _ "\<lambda>u. u \<le> t" t] headlines_at [of _ "\<lambda>u. cutoff < u \<and> u \<le> t" t]
  by (simp_all add: same_until_def evidence_bars_def evidence_releases_def market_has_revision_at macro_has_revision_at
      official_headlines_def late_headlines_def)

lemma same_pages: "task_rejection_count x (db\<lparr>ig_facts := e\<rparr>) = task_rejection_count x db"
  "committed_task_pages r (db\<lparr>ig_facts := e\<rparr>) = committed_task_pages r db"
  by (simp_all add: task_rejection_count_def run_rejections_def committed_task_pages_def task_pages_def cong: option.case_cong)

lemma same_market_evidence:
  assumes "same_until as_of (ig_facts db) e" "cutoff \<le> as_of"
  shows "market_evidence c report_date as_of cutoff x (db\<lparr>ig_facts := e\<rparr>) s = market_evidence c report_date as_of cutoff x db s"
  using assms(2) by (simp add: market_evidence_def same_pages
      market_bars_as_of_def missing_bars_def late_market_instruments_def bars_evidence_def same_queries [OF assms(1)] Let_def
      cong: if_cong option.case_cong prod.case_cong sum.case_cong)

lemma same_news_evidence:
  assumes "same_until as_of (ig_facts db) e" "cutoff \<le> as_of"
  shows "news_evidence c report_date as_of cutoff x (db\<lparr>ig_facts := e\<rparr>) i r = news_evidence c report_date as_of cutoff x db i r"
  using assms(2) by (simp add: news_evidence_def same_pages
      same_queries [OF assms(1)] Let_def
      cong: if_cong option.case_cong prod.case_cong sum.case_cong)

lemma same_macro_evidence:
  assumes "same_until as_of (ig_facts db) e" "cutoff \<le> as_of"
  shows "macro_evidence c report_date as_of cutoff x (db\<lparr>ig_facts := e\<rparr>) i r = macro_evidence c report_date as_of cutoff x db i r"
  using assms(2) by (simp add: macro_evidence_def same_pages
      macro_releases_as_of_def has_late_macro_release_def same_queries [OF assms(1)] Let_def
      cong: if_cong option.case_cong prod.case_cong sum.case_cong)

text \<open>C6: The evidence of a report date does not depend on facts that become available after it is collected: collected again with
  the same times from tables that such facts were written to, it is the same.\<close>

theorem evidence_is_point_in_time:
  assumes "facts_ok (ig_facts db)" "cutoff \<le> as_of" "list_all (available_after as_of) ops"
  shows "collect c report_date as_of cutoff rs (db\<lparr>ig_facts := fold (fact_exec sha) ops (ig_facts db)\<rparr>) = collect c report_date as_of cutoff rs db"
proof -
  have "same_until as_of (ig_facts db) (fold (fact_exec sha) ops (ig_facts db))" by (rule later_writes_same [OF assms(1,3)])
  note same = same_market_evidence [OF this assms(2)] same_news_evidence [OF this assms(2)] same_macro_evidence [OF this assms(2)]
  show ?thesis unfolding collect_def by (simp add: same)
qed

section \<open>The inputs of a collection\<close>

lemma parts_input [simp]: "ev_input (missing_bars s r records as_of cutoff expected missing d) = mi_input s"
  "ev_required (missing_bars s r records as_of cutoff expected missing d)"
  "ev_input (bars_evidence c s report_date cutoff expected bars d) = mi_input s" "ev_required (bars_evidence c s report_date cutoff expected bars d)"
  by (auto simp: missing_bars_def bars_evidence_def Let_def split: prod.split)

lemma bindE_sum: "bindE m (case_sum f g) = Inr e \<longleftrightarrow> (\<exists>a. m = Inr (Inl a) \<and> f a = Inr e) \<or> (\<exists>b. m = Inr (Inr b) \<and> g b = Inr e)"
  by (auto simp: bindE_def split: sum.split)

lemma find_set: "find P xs = Some x \<Longrightarrow> x \<in> set xs"
  by (auto simp: find_Some_iff)

lemma market_evidence_input: "market_evidence c report_date as_of cutoff x db s = Inr e \<Longrightarrow> ev_input e = mi_input s \<and> ev_required e"
  by (auto simp: market_evidence_def Let_def bindE_sum dest!: task_problem_unusable split: option.split_asm prod.split_asm if_split_asm)

lemma news_evidence_input: "news_evidence c report_date as_of cutoff x db i r = Inr e \<Longrightarrow> ev_input e = i \<and> ev_required e"
  by (auto simp: news_evidence_def Let_def dest!: task_problem_unusable split: option.split_asm prod.split_asm if_split_asm)

lemma macro_evidence_input: "macro_evidence c report_date as_of cutoff x db i r = Inr e \<Longrightarrow> ev_input e = i \<and> ev_required e"
  by (auto simp: macro_evidence_def Let_def dest!: task_problem_unusable split: option.split_asm prod.split_asm if_split_asm)

lemma global_calendar_input: "xs \<noteq> [] \<Longrightarrow> \<forall>x \<in> set xs. ev_input (snd x) = i \<Longrightarrow> ev_input (global_calendar xs) = i \<and> ev_required (global_calendar xs)"
proof (cases "find (\<lambda>x. \<not> usable (ev_status (snd x))) xs")
  case (Some x)
  assume "\<forall>x \<in> set xs. ev_input (snd x) = i"
  then have "ev_input (snd x) = i" using find_set [OF Some] by blast
  then show ?thesis using Some by (cases x) (simp add: global_calendar_def)
qed (simp add: global_calendar_def Let_def)

lemma collect_inputs:
  assumes "collect c report_date as_of cutoff rs db = Inr es"
  shows "map ev_input es = market_inputs @ [''news.cn.official_headlines_24h'', ''news.hk.official_headlines_24h'', ''calendar.macro_releases_7d'']
    \<and> list_all ev_required es"
proof -
  obtain market hk cn macro where parts: "mapE (\<lambda>s. market_evidence c report_date as_of cutoff (result_for rs (mi_task s)) db s) market_input_specs = Inr market"
    "news_evidence c report_date as_of cutoff (result_for rs (news_task_id HK)) db ''news.hk.official_headlines_24h'' HK = Inr hk"
    "news_evidence c report_date as_of cutoff (result_for rs (news_task_id CN)) db ''news.cn.official_headlines_24h'' CN = Inr cn"
    "mapE (\<lambda>r. macro_evidence c report_date as_of cutoff (result_for rs (calendar_task_id r)) db ''calendar.macro_releases_7d'' r) [CN, HK, US] = Inr macro"
    and es: "es = market @ [cn, hk, global_calendar (zip [CN, HK, US] macro)]"
    using assms by (auto simp: collect_def bindE_eq_Inr split: if_splits)
  have "list_all2 (\<lambda>s e. ev_input e = mi_input s \<and> ev_required e) market_input_specs market"
    using parts(1) unfolding mapE_eq_Inr by (rule list_all2_mono) (rule market_evidence_input)
  then have "map ev_input market = market_inputs \<and> list_all ev_required market"
    by (auto simp: market_input_specs_def market_inputs_def list_all2_Cons1)
  moreover have "list_all2 (\<lambda>r e. ev_input e = ''calendar.macro_releases_7d'') [CN, HK, US] macro"
    using parts(4) unfolding mapE_eq_Inr by (rule list_all2_mono) (use macro_evidence_input in blast)
  then have "zip [CN, HK, US] macro \<noteq> [] \<and> (\<forall>x \<in> set (zip [CN, HK, US] macro). ev_input (snd x) = ''calendar.macro_releases_7d'')"
    by (auto simp: list_all2_Cons1)
  ultimately show ?thesis using es news_evidence_input [OF parts(2)] news_evidence_input [OF parts(3)]
      global_calendar_input [of "zip [CN, HK, US] macro" "''calendar.macro_releases_7d''"] by simp
qed

section \<open>Available bars are evidence\<close>

lemma market_bars_set:
  assumes "records \<noteq> []" "runs \<noteq> []"
  shows "set (market_bars_as_of r ids records runs t report_date d) = ve_fact ` {v \<in> set (evidence_bars t runs d). mb_region (ve_base v) = r
    \<and> mb_instrument (ve_base v) \<in> set ids \<and> bar_record v \<in> set records \<and> mb_trading (ve_base v) < report_date}"
  using assms by (auto simp: market_bars_as_of_def)

lemma bars_evidence_available:
  assumes "\<forall>b \<in> set bars. mb_trading b = expected \<and> mb_available b \<le> cutoff \<and> cutoff - mb_available b \<le> es_market_age c"
    and "\<not> market_has_revision (map (\<lambda>b. (mb_id b, bar_checksum b)) bars) cutoff d"
  shows "bars_evidence c s report_date cutoff expected bars d = \<lparr>ev_input = mi_input s, ev_status = Ev_available, ev_required = True,
     ev_reason = ''all required facts are materialized before cutoff'', ev_facts = map (market_bar_fact (es_sha c) (mi_input s) report_date) bars,
     ev_sources = map (\<lambda>b. source_reference (es_sha c) (mb_source b)) bars\<rparr>"
proof -
  have "unexpected_trading_dates (map mb_trading bars) expected = []"
    using assms(1) by (simp add: unexpected_trading_dates_def sorted_set_def filter_empty_conv)
  moreover have "source_status (map mb_available bars) cutoff (es_market_age c) False
      = (Ev_available, ''all required facts are materialized before cutoff'')"
    using assms(1) by (auto simp: source_status_def not_less)
  ultimately show ?thesis using assms(2) by (simp add: bars_evidence_def)
qed

text \<open>The evidence of a task whose pages have the expected bars.\<close>

lemma market_evidence_available:
  assumes r: "tr_status r = Task_succeeded" "task_rejection_count (Some r) db \<le> 0" "evidence_run_ids r \<noteq> []"
    and pages: "committed_task_pages r db = (n, records)" "n \<noteq> 0" "records \<noteq> []"
    and session: "expected_session (es_exchange c) (mi_region s) report_date = Inr (Inl expected)"
    and bars: "bars = first_bars (market_bars_as_of (mi_region s) (mi_expected s) records (evidence_run_ids r) cutoff report_date (ig_facts db))"
      "set (mi_expected s) \<subseteq> mb_instrument ` set bars"
      "\<forall>b \<in> set bars. mb_trading b = expected \<and> mb_available b \<le> cutoff \<and> cutoff - mb_available b \<le> es_market_age c"
      "\<not> market_has_revision (map (\<lambda>b. (mb_id b, bar_checksum b)) bars) cutoff (ig_facts db)"
  shows "market_evidence c report_date as_of cutoff (Some r) db s = Inr \<lparr>ev_input = mi_input s, ev_status = Ev_available, ev_required = True,
     ev_reason = ''all required facts are materialized before cutoff'', ev_facts = map (market_bar_fact (es_sha c) (mi_input s) report_date) bars,
     ev_sources = map (\<lambda>b. source_reference (es_sha c) (mb_source b)) bars\<rparr>"
proof -
  have "task_problem (mi_input s) (Some r) (task_rejection_count (Some r) db) = None" using r by (simp add: task_problem_def)
  moreover have "filter (\<lambda>i. i \<notin> mb_instrument ` set bars) (mi_expected s) = []" using bars(2) by (auto simp: filter_empty_conv)
  then have "sorted_set (filter (\<lambda>i. i \<notin> mb_instrument ` set bars) (mi_expected s)) = []" by (simp add: sorted_set_def)
  ultimately show ?thesis using pages session bars_evidence_available [OF bars(3,4)]
    by (simp add: market_evidence_def Let_def bars(1) [symmetric])
qed

section \<open>A concrete collection\<close>

definition cutoff_tuesday :: instant where
  "cutoff_tuesday = 63888221700000000"

definition cn_exchange :: exchange where
  "cn_exchange = \<lparr>is_session = (\<lambda>cal _. Inr (cal = ''XSHG'')), previous_session = (\<lambda>_ d. Inr (d - 1)), last_session = (\<lambda>_ d. Inr (d - 1))\<rparr>"

definition length_digest :: "string \<Rightarrow> string" where
  "length_digest s = replicate 62 CHR ''0'' @ [hex_char (length s div 16 mod 16), hex_char (length s mod 16)]"

definition demo_store :: evidence_store where
  "demo_store = \<lparr>es_sha = length_digest, es_market_age = 36 * hour_us, es_news_age = 24 * hour_us, es_exchange = cn_exchange\<rparr>"

definition index_bar :: "string \<Rightarrow> instant \<Rightarrow> string \<Rightarrow> market_bar" where
  "index_bar i t c = (demo_bar t c ''10'')\<lparr>mb_id := ''bar_'' @ i, mb_instrument := i, mb_symbol := i, mb_trading := 739446,
     mb_source := (demo_source c)\<lparr>so_record := i\<rparr>\<rparr>"

definition cn_indices :: "string list" where
  "cn_indices = [''ins_cn_index_sse_composite'', ''ins_cn_index_csi300'', ''ins_cn_index_szse_component'']"

definition index_rows :: "market_bar fact_row list" where
  "index_rows = map (\<lambda>i. \<lparr>fw_id = ''bar_'' @ i, fw_fact = index_bar i 63888170000000000 ''a'', fw_run = ''r1''\<rparr>) cn_indices"

definition demo_event :: "string \<Rightarrow> region \<Rightarrow> news_event" where
  "demo_event i r = \<lparr>ne_id = i, ne_cluster = None, ne_supersedes = None, ne_status = News_active, ne_title = ''title'', ne_summary = None,
     ne_body = None, ne_mode = Headline, ne_language = ''en'', ne_tier = ''official'', ne_published = Some 63888170000000000, ne_pdate = None,
     ne_available = 63888170000000000, ne_regions = [r], ne_entities = [], ne_topics = [], ne_hash = ''h'', ne_source = (demo_source ''h'')\<lparr>so_record := i\<rparr>\<rparr>"

definition evidence_facts :: fact_tables where
  "evidence_facts = empty_facts\<lparr>ft_bars := index_rows, ft_news := [\<lparr>fw_id = ''n1'', fw_fact = demo_event ''n1'' CN, fw_run = ''r2''\<rparr>,
     \<lparr>fw_id = ''n22'', fw_fact = demo_event ''n22'' HK, fw_run = ''r3''\<rparr>], ft_news_regions := [(''n1'', CN), (''n22'', HK)]\<rparr>"

definition evidence_page :: "string \<Rightarrow> dataset \<Rightarrow> string \<Rightarrow> string \<Rightarrow> string list \<Rightarrow> page_commit" where
  "evidence_page role ds r run records = \<lparr>pc_page = \<lparr>cp_role = role, cp_dataset = ds, cp_region = r, cp_fingerprint = ''f'',
     cp_watermark = None, cp_cursor = None, cp_records = records\<rparr>, pc_run = run\<rparr>"

definition evidence_db :: "fact_tables ingest_db" where
  "evidence_db = \<lparr>ig_pages = [evidence_page ''cn.bars'' Bars ''CN'' ''r1'' cn_indices, evidence_page ''cn.news'' News ''CN'' ''r2'' [''n1''],
     evidence_page ''hk.news'' News ''HK'' ''r3'' [''n22''], evidence_page ''cn.calendar'' Macro_releases ''CN'' ''r4'' [],
     evidence_page ''hk.calendar'' Macro_releases ''HK'' ''r5'' [], evidence_page ''us.calendar'' Macro_releases ''US'' ''r6'' []],
     ig_marks = [], ig_audits = [], ig_rejections = [], ig_facts = evidence_facts\<rparr>"

definition evidence_result :: "string \<Rightarrow> string \<Rightarrow> dataset \<Rightarrow> region \<Rightarrow> string \<Rightarrow> task_result" where
  "evidence_result task role ds r run = \<lparr>tr_task = task, tr_role = role, tr_status = Task_succeeded, tr_dataset = Some ds,
     tr_region = Some r, tr_count = 1, tr_rejected = 0, tr_attempt = 1, tr_run = Some run, tr_runs = [run], tr_error = None\<rparr>"

definition cn_bars_result :: task_result where
  "cn_bars_result = evidence_result ''cn.daily-bars'' ''cn.bars'' Bars CN ''r1''"

definition demo_results :: "task_result list" where
  "demo_results = [cn_bars_result, evidence_result ''cn.official-headlines'' ''cn.news'' News CN ''r2'',
     evidence_result ''hk.official-headlines'' ''hk.news'' News HK ''r3'', evidence_result ''cn.macro-release-calendar'' ''cn.calendar'' Macro_releases CN ''r4'',
     evidence_result ''hk.macro-release-calendar'' ''hk.calendar'' Macro_releases HK ''r5'',
     evidence_result ''us.macro-release-calendar'' ''us.calendar'' Macro_releases US ''r6'']"

lemma index_bar_fields [simp]: "mb_id (index_bar i t c) = ''bar_'' @ i" "mb_instrument (index_bar i t c) = i" "mb_region (index_bar i t c) = CN"
  "mb_trading (index_bar i t c) = 739446" "mb_available (index_bar i t c) = t" "so_record (mb_source (index_bar i t c)) = i"
  by (simp_all add: index_bar_def demo_bar_def)

lemma evidence_facts_ok: "facts_ok (ig_facts evidence_db)"
  by (simp add: evidence_db_def evidence_facts_def facts_ok_def versions_ok_def empty_facts_def index_rows_def cn_indices_def demo_event_def)

text \<open>The bars, in the order of their instruments.\<close>

definition demo_bars :: "market_bar list" where
  "demo_bars = map (\<lambda>i. index_bar i 63888170000000000 ''a'') (sorted_set cn_indices)"

lemma demo_evidence_bars: "set (evidence_bars cutoff_tuesday [''r1''] evidence_facts) = base_version ` set index_rows"
proof -
  have "evidence_bars cutoff_tuesday [''r1''] evidence_facts = map base_version index_rows" by code_simp
  then show ?thesis by simp
qed

lemma demo_first_bars: "first_bars (market_bars_as_of CN cn_indices cn_indices [''r1''] cutoff_tuesday tuesday evidence_facts) = demo_bars"
proof -
  let ?bars = "market_bars_as_of CN cn_indices cn_indices [''r1''] cutoff_tuesday tuesday evidence_facts"
  have ne: "cn_indices \<noteq> []" by (simp add: cn_indices_def)
  have set: "set ?bars = (\<lambda>i. index_bar i 63888170000000000 ''a'') ` set cn_indices"
  proof -
    have "{v \<in> base_version ` set index_rows. mb_region (ve_base v) = CN \<and> mb_instrument (ve_base v) \<in> set cn_indices
        \<and> bar_record v \<in> set cn_indices \<and> mb_trading (ve_base v) < tuesday} = base_version ` set index_rows"
      by (auto simp: index_rows_def base_version_def bar_record_def tuesday_def)
    then show ?thesis unfolding market_bars_set [OF ne list.distinct(2)] demo_evidence_bars
      by (simp add: index_rows_def base_version_def image_image)
  qed
  have ids: "sorted_set (map mb_instrument ?bars) = sorted_set cn_indices"
    by (rule sorted_set_cong) (simp add: set image_image)
  have "the (find (\<lambda>b. mb_instrument b = i) ?bars) = index_bar i 63888170000000000 ''a''" if "i \<in> set cn_indices" for i
  proof -
    have "i \<in> mb_instrument ` set ?bars" using that by (simp add: set image_image)
    from find_mem [OF this] obtain b where "find (\<lambda>b. mb_instrument b = i) ?bars = Some b" "b \<in> set ?bars" "mb_instrument b = i" by blast
    then show ?thesis by (auto simp: set)
  qed
  then show ?thesis by (simp add: first_bars_def ids demo_bars_def)
qed

definition demo_usable :: "string \<Rightarrow> string \<Rightarrow> (string \<times> json) list list \<Rightarrow> (string \<times> json) list list \<Rightarrow> input_evidence" where
  "demo_usable i reason facts sources = \<lparr>ev_input = i, ev_status = Ev_available, ev_required = True, ev_reason = reason, ev_facts = facts,
     ev_sources = sources\<rparr>"

definition demo_market :: input_evidence where
  "demo_market = demo_usable ''market.cn.core_indices.previous_close'' ''all required facts are materialized before cutoff''
     (map (market_bar_fact length_digest ''market.cn.core_indices.previous_close'' tuesday) demo_bars)
     (map (\<lambda>b. source_reference length_digest (mb_source b)) demo_bars)"

lemma demo_market_evidence: "market_evidence demo_store tuesday as_of cutoff_tuesday (Some cn_bars_result) evidence_db (hd market_input_specs) = Inr demo_market"
proof -
  have spec: "mi_input (hd market_input_specs) = ''market.cn.core_indices.previous_close''" "mi_region (hd market_input_specs) = CN"
    "mi_expected (hd market_input_specs) = cn_indices" by (simp_all add: market_input_specs_def cn_indices_def)
  have runs: "evidence_run_ids cn_bars_result = [''r1'']" "task_rejection_count (Some cn_bars_result) evidence_db \<le> 0"
    "committed_task_pages cn_bars_result evidence_db = (1, cn_indices)"
    "expected_session cn_exchange CN tuesday = Inr (Inl 739446)" by code_simp+
  have tables: "ig_facts evidence_db = evidence_facts" "ft_bar_revisions evidence_facts = []"
    by (simp_all add: evidence_db_def evidence_facts_def empty_facts_def)
  have good: "tr_status cn_bars_result = Task_succeeded" "evidence_run_ids cn_bars_result \<noteq> []" "cn_indices \<noteq> []"
    "expected_session (es_exchange demo_store) (mi_region (hd market_input_specs)) tuesday = Inr (Inl 739446)"
    using runs by (simp_all add: cn_bars_result_def evidence_result_def spec demo_store_def cn_indices_def)
  have bars: "demo_bars = first_bars (market_bars_as_of (mi_region (hd market_input_specs)) (mi_expected (hd market_input_specs)) cn_indices
      (evidence_run_ids cn_bars_result) cutoff_tuesday tuesday (ig_facts evidence_db))"
    "set (mi_expected (hd market_input_specs)) \<subseteq> mb_instrument ` set demo_bars"
    by (simp_all add: spec runs tables demo_first_bars) (simp add: demo_bars_def image_image)
  have fresh: "\<forall>b \<in> set demo_bars. mb_trading b = 739446 \<and> mb_available b \<le> cutoff_tuesday \<and> cutoff_tuesday - mb_available b \<le> es_market_age demo_store"
    "\<not> market_has_revision (map (\<lambda>b. (mb_id b, bar_checksum b)) demo_bars) cutoff_tuesday (ig_facts evidence_db)"
    by (simp_all add: demo_bars_def cutoff_tuesday_def demo_store_def us_defs market_has_revision_def tables)
  show ?thesis
    unfolding market_evidence_available [OF good(1) runs(2) good(2) runs(3) _ good(3,4) bars fresh, simplified]
    by (simp add: demo_market_def demo_usable_def spec demo_store_def)
qed

definition demo_news :: "string \<Rightarrow> string \<Rightarrow> region \<Rightarrow> input_evidence" where
  "demo_news i n r = demo_usable i ''all required facts are materialized before cutoff''
     [news_event_fact length_digest i tuesday (demo_event n r)] [source_reference length_digest (ne_source (demo_event n r))]"

lemma demo_news_evidence:
  "news_evidence demo_store tuesday as_of cutoff_tuesday (result_for demo_results (news_task_id HK)) evidence_db ''news.hk.official_headlines_24h'' HK
     = Inr (demo_news ''news.hk.official_headlines_24h'' ''n22'' HK)"
  "news_evidence demo_store tuesday as_of cutoff_tuesday (result_for demo_results (news_task_id CN)) evidence_db ''news.cn.official_headlines_24h'' CN
     = Inr (demo_news ''news.cn.official_headlines_24h'' ''n1'' CN)"
proof -
  have res: "result_for demo_results (news_task_id HK) = Some (evidence_result ''hk.official-headlines'' ''hk.news'' News HK ''r3'')"
    "result_for demo_results (news_task_id CN) = Some (evidence_result ''cn.official-headlines'' ''cn.news'' News CN ''r2'')"
    by code_simp+
  have ok: "task_problem i (Some (evidence_result t role ds r run)) (task_rejection_count (Some (evidence_result t role ds r run)) evidence_db) = None"
    for i t role ds r run
    by (simp add: task_problem_def task_rejection_count_def run_rejections_def evidence_result_def evidence_run_ids_def evidence_db_def)
  have pages: "committed_task_pages (evidence_result ''hk.official-headlines'' ''hk.news'' News HK ''r3'') evidence_db = (1, [''n22''])"
    "committed_task_pages (evidence_result ''cn.official-headlines'' ''cn.news'' News CN ''r2'') evidence_db = (1, [''n1''])" by code_simp+
  have events: "official_headlines HK [''n22''] cutoff_tuesday (ig_facts evidence_db) = [demo_event ''n22'' HK]"
    "official_headlines CN [''n1''] cutoff_tuesday (ig_facts evidence_db) = [demo_event ''n1'' CN]" by code_simp+
  have ev: "ne_available (demo_event n r) = 63888170000000000" "ne_status (demo_event n r) = News_active" for n r
    by (simp_all add: demo_event_def)
  have st: "source_status [63888170000000000] cutoff_tuesday (24 * hour_us) False = (Ev_available, ''all required facts are materialized before cutoff'')"
    by (simp add: source_status_def cutoff_tuesday_def demo_store_def us_defs)
  show "news_evidence demo_store tuesday as_of cutoff_tuesday (result_for demo_results (news_task_id HK)) evidence_db ''news.hk.official_headlines_24h'' HK
     = Inr (demo_news ''news.hk.official_headlines_24h'' ''n22'' HK)"
    "news_evidence demo_store tuesday as_of cutoff_tuesday (result_for demo_results (news_task_id CN)) evidence_db ''news.cn.official_headlines_24h'' CN
     = Inr (demo_news ''news.cn.official_headlines_24h'' ''n1'' CN)"
    by (simp_all add: news_evidence_def res ok pages events ev st demo_news_def demo_usable_def demo_store_def)
qed

definition demo_calendar :: "region \<Rightarrow> input_evidence" where
  "demo_calendar r = demo_usable ''calendar.macro_releases_7d'' (region_value r @ '' calendar coverage completed with no releases in the next seven days'')
     [empty_calendar_fact ''calendar.macro_releases_7d'' r cutoff_tuesday tuesday] []"

lemma demo_calendar_evidence:
  assumes "r \<in> {CN, HK, US}"
  shows "macro_evidence demo_store tuesday as_of cutoff_tuesday (result_for demo_results (calendar_task_id r)) evidence_db ''calendar.macro_releases_7d'' r
    = Inr (demo_calendar r)"
proof -
  have res: "\<exists>t. result_for demo_results (calendar_task_id r) = Some t \<and> task_problem i (Some t) (task_rejection_count (Some t) evidence_db) = None
      \<and> committed_task_pages t evidence_db = (1, [])" for i
  proof -
    have x: "result_for demo_results (calendar_task_id CN) = Some (evidence_result ''cn.macro-release-calendar'' ''cn.calendar'' Macro_releases CN ''r4'')"
      "result_for demo_results (calendar_task_id HK) = Some (evidence_result ''hk.macro-release-calendar'' ''hk.calendar'' Macro_releases HK ''r5'')"
      "result_for demo_results (calendar_task_id US) = Some (evidence_result ''us.macro-release-calendar'' ''us.calendar'' Macro_releases US ''r6'')"
      by code_simp+
    have y: "committed_task_pages (evidence_result ''cn.macro-release-calendar'' ''cn.calendar'' Macro_releases CN ''r4'') evidence_db = (1, [])"
      "committed_task_pages (evidence_result ''hk.macro-release-calendar'' ''hk.calendar'' Macro_releases HK ''r5'') evidence_db = (1, [])"
      "committed_task_pages (evidence_result ''us.macro-release-calendar'' ''us.calendar'' Macro_releases US ''r6'') evidence_db = (1, [])"
      by code_simp+
    have z: "task_problem i (Some (evidence_result t role ds r run)) (task_rejection_count (Some (evidence_result t role ds r run)) evidence_db) = None"
      for i t role ds r run
      by (simp add: task_problem_def task_rejection_count_def run_rejections_def evidence_result_def evidence_run_ids_def evidence_db_def)
    show ?thesis using assms by (auto simp: x y z)
  qed
  have none: "macro_releases_as_of r [] runs tuesday cutoff_tuesday d = []" "\<not> has_late_macro_release r [] runs tuesday cutoff_tuesday as_of d" for runs d
    by (simp_all add: macro_releases_as_of_def has_late_macro_release_def)
  from res [of "''calendar.macro_releases_7d''"] show ?thesis
    by (auto simp: macro_evidence_def none finding_def demo_calendar_def demo_usable_def)
qed

definition demo_evidence :: "input_evidence list" where
  "demo_evidence = [demo_market,
     finding ''market.hk.core_indices.previous_close'' Ev_unavailable ''scheduled task did not produce a durable result'',
     finding ''market.us.core_indices.previous_close'' Ev_unavailable ''scheduled task did not produce a durable result'',
     demo_news ''news.cn.official_headlines_24h'' ''n1'' CN, demo_news ''news.hk.official_headlines_24h'' ''n22'' HK,
     demo_usable ''calendar.macro_releases_7d'' ''CN, HK, and US calendar coverage is materialized before cutoff''
       (map (\<lambda>r. empty_calendar_fact ''calendar.macro_releases_7d'' r cutoff_tuesday tuesday) [CN, HK, US]) []]"

lemma demo_collect: "collect demo_store tuesday as_of cutoff_tuesday demo_results evidence_db = Inr demo_evidence"
proof -
  have dis: "distinct (map tr_task demo_results)" by (simp add: demo_results_def evidence_result_def cn_bars_result_def)
  have cn: "result_for demo_results ''cn.daily-bars'' = Some cn_bars_result" "result_for demo_results ''hk.core-index-bars'' = None"
    "result_for demo_results ''us.daily-bars'' = None"
    by (simp_all add: result_for_def demo_results_def cn_bars_result_def evidence_result_def)
  have specs: "market_input_specs = hd market_input_specs # tl market_input_specs" "mi_task (hd market_input_specs) = ''cn.daily-bars''"
    by (simp_all add: market_input_specs_def)
  have market: "mapE (\<lambda>s. market_evidence demo_store tuesday as_of cutoff_tuesday (result_for demo_results (mi_task s)) evidence_db s) market_input_specs
      = Inr [demo_market,
        finding ''market.hk.core_indices.previous_close'' Ev_unavailable ''scheduled task did not produce a durable result'',
        finding ''market.us.core_indices.previous_close'' Ev_unavailable ''scheduled task did not produce a durable result'']"
    by (subst specs(1)) (simp add: specs(2) cn demo_market_evidence, simp add: market_input_specs_def cn market_evidence_def task_problem_def)
  have calendar: "global_calendar (zip [CN, HK, US] [demo_calendar CN, demo_calendar HK, demo_calendar US]) = last demo_evidence"
    by (simp add: global_calendar_def demo_calendar_def demo_usable_def demo_evidence_def usable_def)
  show ?thesis
    using demo_calendar_evidence calendar by (simp add: collect_def dis market demo_news_evidence) (simp add: demo_evidence_def)
qed

theorem evidence_is_point_in_time_witness:
  "collect demo_store tuesday cutoff_tuesday cutoff_tuesday demo_results (evidence_db\<lparr>ig_facts :=
       fold (fact_exec (\<lambda>s. ''0'')) [Put_bar ''r2'' (index_bar ''ins_cn_index_csi300'' 63888300000000000 ''b'')] (ig_facts evidence_db)\<rparr>)
     = Inr demo_evidence"
proof -
  have "list_all (available_after cutoff_tuesday) [Put_bar ''r2'' (index_bar ''ins_cn_index_csi300'' 63888300000000000 ''b'')]"
    by (simp add: cutoff_tuesday_def)
  from evidence_is_point_in_time [OF evidence_facts_ok order_refl this, of demo_store tuesday demo_results "\<lambda>s. ''0''"] demo_collect
  show ?thesis by simp
qed

end
