(* ===== verification/Input_Materializer.thy ===== *)
theory Input_Materializer
  imports Input_Evidence Report_Validation Job_Runner "HOL-Library.Multiset"
begin

text \<open>
  \<open>services/report_input_materializer.py\<close>: the report input of a date, an immutable snapshot built from the
  evidence once the cutoff has passed, judged by the quality gate and stored. The evidence store, the snapshot store,
  the clock and the report day policy are the ports the class takes; \<open>postgres_materializer\<close> gives the ports
  of the composition root. \<open>datetime.fromisoformat\<close> on an audit timestamp is the parameter \<open>mz_parse\<close>,
  the instant of a timestamp with an offset.
\<close>

section \<open>The policy of the report day\<close>

definition closed_regions :: "day_policy \<Rightarrow> region_policy list" where
  "closed_regions p = filter (\<lambda>r. \<not> rp_required r) (dp_regions p)"

text \<open>The dictionary by market input: of regions with one input the last stays.\<close>

definition closed_region :: "day_policy \<Rightarrow> string \<Rightarrow> region_policy option" where
  "closed_region p i = find (\<lambda>r. rp_input r = i) (rev (closed_regions p))"

definition closed_market_reason :: "region_policy \<Rightarrow> string" where
  "closed_market_reason r = rp_region r @ '' market is closed ('' @ market_status_text (rp_status r)
     @ ''); current-session market input is optional for this report date''"

definition adjust_evidence :: "day_policy \<Rightarrow> input_evidence \<Rightarrow> input_evidence" where
  "adjust_evidence p e =
     (if ev_input e \<in> set (dp_required p) then e\<lparr>ev_required := True\<rparr>
      else case closed_region p (ev_input e) of
        None \<Rightarrow> e
      | Some r \<Rightarrow>
          if usable (ev_status e) then e\<lparr>ev_required := False\<rparr>
          else e\<lparr>ev_status := Ev_unavailable, ev_required := False, ev_reason := closed_market_reason r, ev_facts := [], ev_sources := []\<rparr>)"

definition closed_evidence :: "region_policy \<Rightarrow> string \<Rightarrow> input_evidence" where
  "closed_evidence r i = \<lparr>ev_input = i, ev_status = Ev_unavailable, ev_required = False, ev_reason = closed_market_reason r,
     ev_facts = [], ev_sources = []\<rparr>"

definition apply_day_policy :: "input_evidence list \<Rightarrow> day_policy \<Rightarrow> input_evidence list" where
  "apply_day_policy es p = map (adjust_evidence p) es
     @ map (\<lambda>i. closed_evidence (the (closed_region p i)) i)
         (filter (\<lambda>i. i \<notin> ev_input ` set es) (sorted_set (map rp_input (closed_regions p))))"

section \<open>Facts after the cutoff\<close>

definition fact_available_at :: "(string \<Rightarrow> instant option) \<Rightarrow> (string \<times> json) list \<Rightarrow> instant option" where
  "fact_available_at parse f = (case jget f ''available_at'' of JStr s \<Rightarrow> parse s | _ \<Rightarrow> None)"

definition invalid_evidence :: "input_evidence \<Rightarrow> input_evidence" where
  "invalid_evidence e = e\<lparr>ev_status := Ev_invalid,
     ev_reason := ''materialized fact is missing a valid available_at audit timestamp'', ev_facts := [], ev_sources := []\<rparr>"

definition late_evidence :: "input_evidence \<Rightarrow> input_evidence" where
  "late_evidence e = e\<lparr>ev_status := Ev_late,
     ev_reason := ''materialized fact became available after the report cutoff'', ev_facts := [], ev_sources := []\<rparr>"

fun check_facts :: "(string \<Rightarrow> instant option) \<Rightarrow> instant \<Rightarrow> input_evidence \<Rightarrow> (string \<times> json) list list \<Rightarrow> input_evidence" where
  "check_facts parse cutoff e [] = e"
| "check_facts parse cutoff e (f # fs) = (case fact_available_at parse f of
     None \<Rightarrow> invalid_evidence e
   | Some t \<Rightarrow> if cutoff < t then late_evidence e else check_facts parse cutoff e fs)"

definition exclude_after_cutoff :: "(string \<Rightarrow> instant option) \<Rightarrow> instant \<Rightarrow> input_evidence \<Rightarrow> input_evidence" where
  "exclude_after_cutoff parse cutoff e = (if usable (ev_status e) then check_facts parse cutoff e (ev_facts e) else e)"

section \<open>The snapshot\<close>

text \<open>\<open>setdefault\<close> over the source references: a reference met again must be the same.\<close>

fun collect_sources :: "(string \<times> (string \<times> json) list) list \<Rightarrow> (string \<times> json) list list
    \<Rightarrow> exn + (string \<times> (string \<times> json) list) list" where
  "collect_sources acc [] = Inr acc"
| "collect_sources acc (s # ss) = (case jget s ''source_ref_id'' of
     JStr i \<Rightarrow> (case map_of acc i of
         None \<Rightarrow> collect_sources (acc @ [(i, s)]) ss
       | Some e \<Rightarrow> if json_eq (JObj e) (JObj s) then collect_sources acc ss else Inl ValueError)
   | _ \<Rightarrow> Inl ValueError)"

definition fact_key :: "(string \<times> json) list \<Rightarrow> string" where
  "fact_key f = py_str (if jhas f ''fact_id'' then jget f ''fact_id'' else JStr [])"

definition sorted_facts :: "input_evidence list \<Rightarrow> (string \<times> json) list list" where
  "sorted_facts es = sort_key fact_key (concat (map ev_facts (filter (\<lambda>e. usable (ev_status e)) es)))"

definition evidence_entry :: "input_evidence \<Rightarrow> string \<times> json" where
  "evidence_entry e = (ev_input e, JObj [(''status'', JStr (evidence_text (ev_status e))), (''required'', JBool (ev_required e)),
     (''reason'', JStr (ev_reason e))])"

definition input_quality :: "input_evidence list \<Rightarrow> json" where
  "input_quality es = JObj (map evidence_entry (sort_key ev_input es))"

definition editor_context :: "json \<Rightarrow> json \<Rightarrow> json \<Rightarrow> json \<Rightarrow> json" where
  "editor_context facts sources quality policy =
     JObj [(''facts'', facts), (''source_references'', sources), (''input_quality'', quality), (''report_day_policy'', policy)]"

text \<open>The part of the payload that the fingerprint covers and that the stored payload repeats.\<close>

definition snapshot_content :: "string list \<Rightarrow> (string \<times> json) list list \<Rightarrow> (string \<times> (string \<times> json) list) list \<Rightarrow> json \<Rightarrow> json
    \<Rightarrow> (string \<times> json) list" where
  "snapshot_content ids facts sources quality policy =
     [(''fact_ids'', JList (map JStr ids)), (''facts'', JList (map JObj facts)),
      (''source_ref_ids'', JList (map (\<lambda>x. JStr (fst x)) sources)), (''source_references'', JList (map (\<lambda>x. JObj (snd x)) sources)),
      (''input_quality'', quality), (''report_day_policy'', policy),
      (''editor_context'', editor_context (JList (map JObj facts)) (JList (map (\<lambda>x. JObj (snd x)) sources)) quality policy)]"

text \<open>\<open>ReportInputSnapshot(...)\<close>: the fields are stripped, bounded and repeated by the payload.\<close>

definition is_sha256 :: "string \<Rightarrow> bool" where
  "is_sha256 s \<longleftrightarrow> length s = 64 \<and> set s \<subseteq> set ''0123456789abcdef''"

definition new_snapshot :: "input_snapshot \<Rightarrow> exn + input_snapshot" where
  "new_snapshot raw = (let s = raw\<lparr>sn_id := strip (sn_id raw), sn_version := strip (sn_version raw),
       sn_fingerprint := strip (sn_fingerprint raw), sn_fact_ids := map strip (sn_fact_ids raw)\<rparr> in
     if length (utf8_chars (sn_id s)) \<in> {1..128} \<and> length (utf8_chars (sn_version s)) \<in> {1..32} \<and> is_sha256 (sn_fingerprint s)
        \<and> snapshot_contract s
     then Inr s else Inl ValidationError)"

definition build_snapshot :: "(string \<Rightarrow> string) \<Rightarrow> string \<Rightarrow> date \<Rightarrow> instant \<Rightarrow> instant \<Rightarrow> string list \<Rightarrow> (string \<times> json) list list
    \<Rightarrow> (string \<times> (string \<times> json) list) list \<Rightarrow> json \<Rightarrow> json \<Rightarrow> exn + input_snapshot" where
  "build_snapshot sha version d as_of cutoff ids facts sources quality policy =
     (let content = snapshot_content ids facts sources quality policy;
          times = [(''as_of'', JStr (iso_utc as_of)), (''cutoff_at'', JStr (iso_utc cutoff))];
          fingerprint = canonical_json_checksum sha (JObj ((''report_date'', JStr (isodate d)) # times
            @ (''snapshot_version'', JStr version) # content));
          snapshot_id = stable_id sha ''report-input'' [version, isodate d, fingerprint] in
      new_snapshot \<lparr>sn_id = snapshot_id, sn_version = version, sn_report_date = d, sn_as_of = as_of, sn_cutoff_at = cutoff,
        sn_fingerprint = fingerprint, sn_fact_ids = ids,
        sn_payload = (''snapshot_id'', JStr snapshot_id) # (''snapshot_version'', JStr version) # times
          @ (''fingerprint_sha256'', JStr fingerprint) # content\<rparr>)"

definition snapshot_from_evidence :: "(string \<Rightarrow> string) \<Rightarrow> (string \<Rightarrow> instant option) \<Rightarrow> string \<Rightarrow> date \<Rightarrow> instant \<Rightarrow> instant
    \<Rightarrow> input_evidence list \<Rightarrow> day_policy \<Rightarrow> exn + input_snapshot" where
  "snapshot_from_evidence sha parse version d as_of cutoff es p =
     (if \<not> distinct (map ev_input es) then Inl ValueError
      else let safe = map (exclude_after_cutoff parse cutoff) es; facts = sorted_facts safe;
          ids = List.map_filter (\<lambda>f. as_str (jget f ''fact_id'')) facts in
        if length ids \<noteq> length facts \<or> \<not> distinct ids then Inl ValueError
        else bindE (collect_sources [] (concat (map ev_sources (filter (\<lambda>e. usable (ev_status e)) safe)))) (\<lambda>sources.
          build_snapshot sha version d as_of cutoff ids facts (sort_key fst sources) (input_quality safe) (policy_payload p)))"

section \<open>The materializer\<close>

record 'w materializer =
  mz_collect :: "date \<Rightarrow> instant \<Rightarrow> instant \<Rightarrow> task_result list \<Rightarrow> ('w, input_evidence list) act"
  mz_put :: "input_snapshot \<Rightarrow> ('w, unit) act"
  mz_now :: "('w, instant) act"
  mz_sleep :: "int \<Rightarrow> ('w, unit) act"
  mz_cutoff :: "date \<Rightarrow> instant"
  mz_version :: string
  mz_policy :: "date \<Rightarrow> exn + day_policy"
  mz_sha :: "string \<Rightarrow> string"
  mz_parse :: "string \<Rightarrow> instant option"

definition make_materializer :: "'w materializer \<Rightarrow> exn + 'w materializer" where
  "make_materializer c = (if strip (mz_version c) = [] then Inl ValueError else Inr c)"

text \<open>The time of the collection, at or after the cutoff.\<close>

definition await_cutoff :: "'w materializer \<Rightarrow> instant \<Rightarrow> ('w, instant) act" where
  "await_cutoff c cutoff = bindA (mz_now c) (\<lambda>now.
     if now < cutoff
     then bindA (mz_sleep c (cutoff - now)) (\<lambda>_. bindA (mz_now c) (\<lambda>again. if again < cutoff then throw RuntimeError else ret again))
     else ret now)"

definition materialize :: "'w materializer \<Rightarrow> date \<Rightarrow> task_result list \<Rightarrow> ('w, input_snapshot \<times> gate_result) act" where
  "materialize c d rs = (let cutoff = mz_cutoff c d in
     bindA (await_cutoff c cutoff) (\<lambda>as_of.
     bindA (mz_collect c d as_of cutoff rs) (\<lambda>es.
     bindA (liftA (mz_policy c d)) (\<lambda>p.
     bindA (liftA (snapshot_from_evidence (mz_sha c) (mz_parse c) (mz_version c) d as_of cutoff (apply_day_policy es p) p)) (\<lambda>s.
     bindA (liftA (evaluate_quality s)) (\<lambda>q.
     bindA (mz_put c s) (\<lambda>_. ret (s, q))))))))"

text \<open>The ports of the composition root: one database with the facts and the reports.\<close>

record materializer_world =
  mw_ingest :: "fact_tables ingest_db"
  mw_reports :: report_db
  mw_clock :: "instant list"

definition postgres_put :: "input_snapshot \<Rightarrow> (materializer_world, unit) act" where
  "postgres_put s w = (case put_input_snapshot s (mw_reports w) of
     (Inl e, _) \<Rightarrow> (Inl e, w) | (Inr _, r) \<Rightarrow> (Inr (), w\<lparr>mw_reports := r\<rparr>))"

definition postgres_collect :: "evidence_store \<Rightarrow> date \<Rightarrow> instant \<Rightarrow> instant \<Rightarrow> task_result list \<Rightarrow> (materializer_world, input_evidence list) act" where
  "postgres_collect c d as_of cutoff rs w = (collect c d as_of cutoff rs (mw_ingest w), w)"

definition postgres_materializer :: "evidence_store \<Rightarrow> string \<Rightarrow> (date \<Rightarrow> instant) \<Rightarrow> (string \<Rightarrow> instant option)
    \<Rightarrow> (materializer_world, instant) act \<Rightarrow> (int \<Rightarrow> (materializer_world, unit) act) \<Rightarrow> materializer_world materializer" where
  "postgres_materializer c calendar_version cutoff parse now sleep = \<lparr>mz_collect = postgres_collect c, mz_put = postgres_put, mz_now = now,
     mz_sleep = sleep, mz_cutoff = cutoff, mz_version = ''1.0'', mz_policy = evaluate_policy (es_exchange c) calendar_version,
     mz_sha = es_sha c, mz_parse = parse\<rparr>"


section \<open>Facts of a snapshot are in time\<close>

lemma marked_unusable [simp]: "\<not> usable (ev_status (invalid_evidence e))" "\<not> usable (ev_status (late_evidence e))"
  "ev_input (invalid_evidence e) = ev_input e" "ev_input (late_evidence e) = ev_input e"
  by (simp_all add: invalid_evidence_def late_evidence_def usable_def)

lemma check_facts_usable: "usable (ev_status (check_facts parse cutoff e fs)) \<Longrightarrow> check_facts parse cutoff e fs = e
    \<and> (\<forall>f \<in> set fs. \<exists>t \<le> cutoff. fact_available_at parse f = Some t)"
  by (induction fs) (auto simp: not_less split: option.split_asm if_split_asm)

lemma check_facts_input [simp]: "ev_input (check_facts parse cutoff e fs) = ev_input e"
  by (induction fs) (auto split: option.split)

lemma check_facts_all: "\<forall>f \<in> set fs. \<exists>t \<le> cutoff. fact_available_at parse f = Some t \<Longrightarrow> check_facts parse cutoff e fs = e"
  by (induction fs) auto

lemma exclude_input [simp]: "ev_input (exclude_after_cutoff parse cutoff e) = ev_input e"
  by (simp add: exclude_after_cutoff_def)

lemma exclude_usable:
  assumes "usable (ev_status (exclude_after_cutoff parse cutoff e))"
  shows "exclude_after_cutoff parse cutoff e = e" "usable (ev_status e)"
    "f \<in> set (ev_facts e) \<Longrightarrow> \<exists>t \<le> cutoff. fact_available_at parse f = Some t"
  using assms check_facts_usable [of parse cutoff e "ev_facts e"] by (auto simp: exclude_after_cutoff_def split: if_split_asm)

lemma sorted_facts_mem: "f \<in> set (sorted_facts es) \<longleftrightarrow> (\<exists>e \<in> set es. usable (ev_status e) \<and> f \<in> set (ev_facts e))"
  by (auto simp: sorted_facts_def)

lemma adjust_input [simp]: "ev_input (adjust_evidence p e) = ev_input e"
  by (simp add: adjust_evidence_def split: option.split)

lemma closed_evidence_unusable [simp]: "\<not> usable (ev_status (closed_evidence r i))" "ev_input (closed_evidence r i) = i"
  by (simp_all add: closed_evidence_def usable_def)

lemma adjust_usable: "usable (ev_status (adjust_evidence p e)) \<Longrightarrow> usable (ev_status e) \<and> ev_facts (adjust_evidence p e) = ev_facts e"
  by (auto simp: adjust_evidence_def usable_def split: option.split_asm if_split_asm)

lemma policy_evidence_usable:
  assumes "e \<in> set (apply_day_policy es p)" "usable (ev_status e)"
  obtains e0 where "e0 \<in> set es" "e = adjust_evidence p e0" "usable (ev_status e0)" "ev_facts e = ev_facts e0" "ev_input e = ev_input e0"
  using assms adjust_usable by (auto simp: apply_day_policy_def)

lemma new_snapshot_Inr:
  assumes "new_snapshot raw = Inr s"
  shows "snapshot_contract s" "sn_payload s = sn_payload raw" "sn_report_date s = sn_report_date raw" "sn_as_of s = sn_as_of raw"
    "sn_cutoff_at s = sn_cutoff_at raw" "sn_fact_ids s = map strip (sn_fact_ids raw)"
  using assms by (auto simp: new_snapshot_def Let_def split: if_splits)

text \<open>The payload fields of a snapshot that was built.\<close>

lemma build_snapshot_Inr:
  assumes "build_snapshot sha version d as_of cutoff ids facts sources quality policy = Inr s"
  shows "snapshot_contract s" "sn_report_date s = d" "sn_as_of s = as_of" "sn_cutoff_at s = cutoff" "sn_fact_ids s = ids"
    "jget (sn_payload s) ''facts'' = JList (map JObj facts)" "jget (sn_payload s) ''input_quality'' = quality"
    "jget (sn_payload s) ''report_day_policy'' = policy"
proof -
  obtain raw where raw: "new_snapshot raw = Inr s" "sn_fact_ids raw = ids" "jget (sn_payload raw) ''fact_ids'' = JList (map JStr ids)"
    "sn_report_date raw = d" "sn_as_of raw = as_of" "sn_cutoff_at raw = cutoff" "jget (sn_payload raw) ''facts'' = JList (map JObj facts)"
    "jget (sn_payload raw) ''input_quality'' = quality" "jget (sn_payload raw) ''report_day_policy'' = policy"
    using assms unfolding build_snapshot_def snapshot_content_def Let_def by (fastforce simp: jget_def)
  note new = new_snapshot_Inr [OF raw(1)]
  have "jget (sn_payload s) ''fact_ids'' = JList (map JStr (sn_fact_ids s))"
    using new(1) by (simp add: snapshot_contract_def snapshot_identity_def)
  then have "map JStr ids = map JStr (sn_fact_ids s)" using new(2) raw(3) by simp
  then show "sn_fact_ids s = ids" by (metis all_strs_map_JStr option.inject)
  show "snapshot_contract s" "sn_report_date s = d" "sn_as_of s = as_of" "sn_cutoff_at s = cutoff"
    "jget (sn_payload s) ''facts'' = JList (map JObj facts)" "jget (sn_payload s) ''input_quality'' = quality"
    "jget (sn_payload s) ''report_day_policy'' = policy"
    using new raw by simp_all
qed

lemma all_fact_ids: "length (List.map_filter (\<lambda>f. as_str (g f)) fs) = length fs \<Longrightarrow> map g fs = map JStr (List.map_filter (\<lambda>f. as_str (g f)) fs)"
proof (induction fs)
  case (Cons f fs)
  have "length (List.map_filter (\<lambda>f. as_str (g f)) fs) \<le> length fs" by (simp add: List.map_filter_def)
  with Cons show ?case by (cases "g f") (auto simp: List.map_filter_simps)
qed (simp add: List.map_filter_simps)

lemma snapshot_from_evidence_Inr:
  assumes "snapshot_from_evidence sha parse version d as_of cutoff es p = Inr s"
  obtains facts where "distinct (map ev_input es)" "facts = sorted_facts (map (exclude_after_cutoff parse cutoff) es)"
    "map (\<lambda>f. jget f ''fact_id'') facts = map JStr (sn_fact_ids s)" "distinct (sn_fact_ids s)"
    "snapshot_contract s" "sn_report_date s = d" "sn_as_of s = as_of" "sn_cutoff_at s = cutoff"
    "jget (sn_payload s) ''facts'' = JList (map JObj facts)"
    "jget (sn_payload s) ''input_quality'' = input_quality (map (exclude_after_cutoff parse cutoff) es)"
    "jget (sn_payload s) ''report_day_policy'' = policy_payload p"
proof -
  define facts where "facts = sorted_facts (map (exclude_after_cutoff parse cutoff) es)"
  define ids where "ids = List.map_filter (\<lambda>f. as_str (jget f ''fact_id'')) facts"
  obtain sources where b: "build_snapshot sha version d as_of cutoff ids facts sources (input_quality (map (exclude_after_cutoff parse cutoff) es))
      (policy_payload p) = Inr s" and len: "length ids = length facts" "distinct ids" and dis: "distinct (map ev_input es)"
    using assms unfolding snapshot_from_evidence_def Let_def facts_def [symmetric] ids_def [symmetric]
    by (auto simp: bindE_eq_Inr split: if_splits)
  note built = build_snapshot_Inr [OF b]
  have "map (\<lambda>f. jget f ''fact_id'') facts = map JStr (sn_fact_ids s)"
    using all_fact_ids [of "\<lambda>f. jget f ''fact_id''" facts] len(1) built(5) by (simp add: ids_def)
  then show ?thesis using dis built len(2) facts_def by (intro that) simp_all
qed

lemma await_cutoff_after: "await_cutoff c cutoff w = (Inr t, w') \<Longrightarrow> cutoff \<le> t"
  by (auto simp: await_cutoff_def bindA_eq not_less split: if_split_asm)

lemma materialize_Inr:
  assumes "materialize c d rs w = (Inr (s, q), w')"
  obtains as_of es p u1 u2 where "await_cutoff c (mz_cutoff c d) w = (Inr as_of, u1)" "mz_cutoff c d \<le> as_of"
    "mz_collect c d as_of (mz_cutoff c d) rs u1 = (Inr es, u2)" "mz_policy c d = Inr p"
    "snapshot_from_evidence (mz_sha c) (mz_parse c) (mz_version c) d as_of (mz_cutoff c d) (apply_day_policy es p) p = Inr s"
    "evaluate_quality s = Inr q" "mz_put c s u2 = (Inr (), w')"
  using assms await_cutoff_after by (fastforce simp: materialize_def Let_def bindA_eq)

text \<open>C5: A snapshot the materializer stores repeats its identity in its payload, was collected at or after the cutoff of its date, and
  every fact in it has its own identifier, comes from usable evidence and has an audit timestamp not after the cutoff, whatever the
  evidence store delivered.\<close>

theorem materialized_snapshot_is_point_in_time:
  assumes "materialize c d rs w = (Inr (s, q), w')"
  shows "snapshot_contract s \<and> sn_report_date s = d \<and> sn_cutoff_at s = mz_cutoff c d \<and> mz_cutoff c d \<le> sn_as_of s
    \<and> distinct (sn_fact_ids s)
    \<and> (\<exists>facts es u u'. await_cutoff c (mz_cutoff c d) w = (Inr (sn_as_of s), u) \<and> mz_collect c d (sn_as_of s) (mz_cutoff c d) rs u = (Inr es, u')
         \<and> jget (sn_payload s) ''facts'' = JList (map JObj facts) \<and> map (\<lambda>f. jget f ''fact_id'') facts = map JStr (sn_fact_ids s)
         \<and> (\<forall>f \<in> set facts. (\<exists>t \<le> mz_cutoff c d. fact_available_at (mz_parse c) f = Some t)
              \<and> (\<exists>e \<in> set es. usable (ev_status e) \<and> f \<in> set (ev_facts e))))"
proof -
  obtain as_of es p u1 u2 where as_of: "await_cutoff c (mz_cutoff c d) w = (Inr as_of, u1)" "mz_cutoff c d \<le> as_of" and es: "mz_collect c d as_of (mz_cutoff c d) rs u1 = (Inr es, u2)"
    and from_es: "snapshot_from_evidence (mz_sha c) (mz_parse c) (mz_version c) d as_of (mz_cutoff c d) (apply_day_policy es p) p = Inr s"
    using assms by (rule materialize_Inr)
  from from_es obtain facts where facts: "facts = sorted_facts (map (exclude_after_cutoff (mz_parse c) (mz_cutoff c d)) (apply_day_policy es p))"
    "map (\<lambda>f. jget f ''fact_id'') facts = map JStr (sn_fact_ids s)" "distinct (sn_fact_ids s)" "snapshot_contract s" "sn_report_date s = d"
    "sn_as_of s = as_of" "sn_cutoff_at s = mz_cutoff c d" "jget (sn_payload s) ''facts'' = JList (map JObj facts)"
    by (rule snapshot_from_evidence_Inr)
  have "(\<exists>t \<le> mz_cutoff c d. fact_available_at (mz_parse c) f = Some t) \<and> (\<exists>e \<in> set es. usable (ev_status e) \<and> f \<in> set (ev_facts e))"
    if f: "f \<in> set facts" for f
  proof -
    obtain e where e: "e \<in> set (apply_day_policy es p)" "usable (ev_status (exclude_after_cutoff (mz_parse c) (mz_cutoff c d) e))"
      "f \<in> set (ev_facts (exclude_after_cutoff (mz_parse c) (mz_cutoff c d) e))" using f by (auto simp: facts(1) sorted_facts_mem)
    note ex = exclude_usable [OF e(2)]
    obtain e0 where "e0 \<in> set es" "usable (ev_status e0)" "ev_facts e = ev_facts e0" using e(1) ex(2) by (rule policy_evidence_usable)
    then show ?thesis using ex(1,3) e(3) by auto
  qed
  then show ?thesis using as_of es facts by (intro conjI exI [of _ facts] exI [of _ es] exI [of _ u1] exI [of _ u2]) simp_all
qed


section \<open>The gate and the evidence\<close>

lemma apply_covered:
  assumes "set (map rp_input (closed_regions p)) \<subseteq> ev_input ` set es"
  shows "apply_day_policy es p = map (adjust_evidence p) es"
proof -
  have "filter (\<lambda>i. i \<notin> ev_input ` set es) (sorted_set (map rp_input (closed_regions p))) = []"
    using assms by (auto simp: filter_empty_conv)
  then show ?thesis by (simp add: apply_day_policy_def)
qed

lemma quality_of_evidence:
  assumes "jget (sn_payload s) ''input_quality'' = input_quality es"
  shows "quality_of s = map evidence_entry (sort_key ev_input es)" "fst ` set (quality_of s) = ev_input ` set es"
proof -
  show q: "quality_of s = map evidence_entry (sort_key ev_input es)" using assms by (simp add: quality_of_def input_quality_def)
  show "fst ` set (quality_of s) = ev_input ` set es" unfolding q by (force simp: evidence_entry_def)
qed

lemma quality_entry_of:
  assumes "jget (sn_payload s) ''input_quality'' = input_quality es" "distinct (map ev_input es)" "e \<in> set es"
  shows "map_of (quality_of s) (ev_input e) = Some (snd (evidence_entry e))" "jget (quality_of s) (ev_input e) = snd (evidence_entry e)"
proof -
  have q: "quality_of s = map evidence_entry (sort_key ev_input es)" using assms(1) by (rule quality_of_evidence)
  have fst: "fst \<circ> evidence_entry = ev_input" by (auto simp: evidence_entry_def)
  have "distinct (map fst (quality_of s))"
    unfolding q map_map fst using assms(2) by (simp add: distinct_map)
  moreover have "(ev_input e, snd (evidence_entry e)) \<in> set (quality_of s)"
    unfolding q using assms(3) by (auto simp: evidence_entry_def image_iff)
  ultimately show "map_of (quality_of s) (ev_input e) = Some (snd (evidence_entry e))" by (rule map_of_is_SomeI)
  then show "jget (quality_of s) (ev_input e) = snd (evidence_entry e)" by (simp add: jget_def)
qed

lemma evidence_text_good: "evidence_text st \<in> {''available'', ''revised'', ''denied''} \<longleftrightarrow> usable st"
  by (cases st) (simp_all add: usable_def)

lemma good_quality_entry: "good_entry (snd (evidence_entry e)) \<longleftrightarrow> usable (ev_status e) \<and> ev_required e"
  unfolding good_entry_def evidence_entry_def using evidence_text_good [of "ev_status e"] by (auto simp: jget_def jhas_def)

lemma entry_issues_quality:
  assumes "i \<in> set req \<Longrightarrow> usable (ev_status e) \<and> ev_required e" "i \<notin> set req \<Longrightarrow> \<not> ev_required e"
    and x: "x \<in> set (entry_issues req i (snd (evidence_entry e)))" "qi_required x"
  shows "starts_with ''REVISED_'' (qi_code x)"
proof -
  have need: "input_is_required req i (snd (evidence_entry e)) = (i \<in> set req)"
    using assms(1,2) by (auto simp: input_is_required_def evidence_entry_def jget_def)
  show ?thesis
  proof (cases "i \<in> set req")
    case True
    with assms(1) have "ev_status e = Ev_available \<or> ev_status e = Ev_revised" "ev_required e" by (auto simp: usable_def)
    then show ?thesis using x need True
      by (auto simp: entry_issues_def evidence_entry_def jget_def jhas_def issue_for_status_def known_statuses_def blocking_statuses_def starts_with_def
          split: option.splits if_splits)
  next
    case False
    then have "\<not> qi_required x" using x(1) need assms(2)
      by (auto simp: entry_issues_def evidence_entry_def jget_def jhas_def dest: issue_for_status_required [OF sym] split: option.splits if_splits)
    with x(2) show ?thesis by simp
  qed
qed

lemma evaluate_quality_opens:
  assumes ev: "evaluate_quality s = Inr r" and ins: "inputs_for_snapshot s = Inr (req, opt, None)"
    and facts: "has_materialized_facts s = Inr True" and all: "set req \<subseteq> fst ` set (quality_of s)"
    and entries: "\<And>i x. i \<in> fst ` set (quality_of s) \<Longrightarrow> x \<in> set (entry_issues req i (jget (quality_of s) i)) \<Longrightarrow> qi_required x
      \<Longrightarrow> starts_with ''REVISED_'' (qi_code x)"
  shows "qr_status r \<le> QDegraded"
proof -
  let ?q = "quality_of s"
  have "filter (\<lambda>i. i \<notin> fst ` set ?q) req = []" using all by (auto simp: filter_empty_conv)
  then have "missing_issues ?q req True = []" by (simp add: missing_issues_def sorted_set_def)
  then have "qr_status r = decision (missing_issues ?q opt False @ closure_issues ?q opt
      @ concat (map (\<lambda>i. entry_issues req i (jget ?q i)) (sorted_set (map fst ?q))))"
    using ev ins facts by (auto simp: evaluate_quality_def Let_def)
  moreover have "starts_with ''REVISED_'' (qi_code x)" if "qi_required x" and x: "x \<in> set (missing_issues ?q opt False @ closure_issues ?q opt
      @ concat (map (\<lambda>i. entry_issues req i (jget ?q i)) (sorted_set (map fst ?q))))" for x
  proof -
    have "x \<notin> set (missing_issues ?q opt False @ closure_issues ?q opt)"
      using that(1) by (auto simp: missing_issues_def closure_issues_def)
    then obtain i where "i \<in> fst ` set ?q" "x \<in> set (entry_issues req i (jget ?q i))" using x by auto
    then show ?thesis using that(1) by (rule entries)
  qed
  ultimately show ?thesis by (simp only: decision_open) blast
qed

text \<open>The facts of a snapshot match its identifiers.\<close>

lemma materialized_facts:
  assumes "jget (sn_payload s) ''facts'' = JList (map JObj facts)" "map (\<lambda>f. jget f ''fact_id'') facts = map JStr (sn_fact_ids s)"
    "distinct (sn_fact_ids s)" "facts \<noteq> []"
  shows "has_materialized_facts s = Inr True"
proof -
  have ids: "concat (map (\<lambda>f. case f of JObj d \<Rightarrow> [jget d ''fact_id''] | _ \<Rightarrow> []) (map JObj facts)) = map JStr (sn_fact_ids s)"
    using assms(2) by (simp add: o_def)
  have len: "length facts = length (sn_fact_ids s)" by (metis assms(2) length_map)
  then have "sn_fact_ids s \<noteq> []" using assms(4) by auto
  moreover have "list_all hashable (map JStr (sn_fact_ids s))" by (simp add: list_all_iff)
  ultimately show ?thesis using assms len unfolding has_materialized_facts_def assms(1) json.case ids by simp
qed


section \<open>What a materializer relies on\<close>

text \<open>A snapshot that was built from evidence covering the inputs of the policy: its entries and its facts.\<close>

definition in_time :: "(string \<Rightarrow> instant option) \<Rightarrow> instant \<Rightarrow> input_evidence \<Rightarrow> bool" where
  "in_time parse cutoff e \<longleftrightarrow> usable (ev_status e) \<and> (\<forall>f \<in> set (ev_facts e). \<exists>t \<le> cutoff. fact_available_at parse f = Some t)"

lemma exclude_in_time: "usable (ev_status (exclude_after_cutoff parse cutoff e)) \<longleftrightarrow> in_time parse cutoff e"
proof
  assume "usable (ev_status (exclude_after_cutoff parse cutoff e))"
  then show "in_time parse cutoff e" unfolding in_time_def using exclude_usable by blast
next
  assume "in_time parse cutoff e"
  then show "usable (ev_status (exclude_after_cutoff parse cutoff e))"
    by (simp add: in_time_def exclude_after_cutoff_def check_facts_all)
qed

lemma closed_are_optional:
  assumes "evaluate_policy ex v d = Inr p"
  shows "rp_input ` set (closed_regions p) = set (dp_optional p)"
proof -
  obtain x y z where r: "dp_regions p = [x, y, z]" and o: "dp_optional p = sorted_set (map rp_input (filter (\<lambda>p. \<not> rp_required p) [x, y, z]))"
    using assms by (rule evaluate_policy_Inr) blast
  show ?thesis unfolding closed_regions_def r o set_sorted_set by simp
qed

lemma closed_region_optional:
  assumes "evaluate_policy ex v d = Inr p" "i \<in> set (dp_optional p)"
  shows "closed_region p i \<noteq> None"
proof -
  have "i \<in> rp_input ` set (closed_regions p)" using closed_are_optional [OF assms(1)] assms(2) by simp
  then show ?thesis by (auto simp: closed_region_def find_None_iff)
qed

lemma adjust_required:
  assumes p: "evaluate_policy ex v d = Inr p" and i: "ev_input e \<in> set required_input_ids"
  shows "ev_input e \<in> set (dp_required p) \<Longrightarrow> adjust_evidence p e = e\<lparr>ev_required := True\<rparr>"
    and "ev_input e \<notin> set (dp_required p) \<Longrightarrow> \<not> ev_required (adjust_evidence p e)"
proof -
  show "ev_input e \<in> set (dp_required p) \<Longrightarrow> adjust_evidence p e = e\<lparr>ev_required := True\<rparr>" by (simp add: adjust_evidence_def)
  assume n: "ev_input e \<notin> set (dp_required p)"
  then have "ev_input e \<in> set (dp_optional p)" using policy_partition(2) [OF p] i by blast
  then obtain r where "closed_region p (ev_input e) = Some r" using closed_region_optional [OF p] by blast
  then show "\<not> ev_required (adjust_evidence p e)" using n by (simp add: adjust_evidence_def)
qed

lemma exclude_required [simp]: "ev_required (exclude_after_cutoff parse cutoff e) = ev_required e"
proof -
  have "ev_required (check_facts parse cutoff e fs) = ev_required e" for fs
    by (induction fs) (auto simp: invalid_evidence_def late_evidence_def split: option.split)
  then show ?thesis by (simp add: exclude_after_cutoff_def)
qed

lemma in_time_required [simp]: "in_time parse cutoff (e\<lparr>ev_required := b\<rparr>) = in_time parse cutoff e"
  by (simp add: in_time_def)

text \<open>A source of evidence covers the inputs of the program, and a usable release calendar has a fact.\<close>

locale evidence_source =
  fixes gather :: "date \<Rightarrow> instant \<Rightarrow> instant \<Rightarrow> task_result list \<Rightarrow> ('w, input_evidence list) act"
  assumes covers: "gather d as_of cutoff rs u = (Inr es, u') \<Longrightarrow> distinct (map ev_input es) \<and> set (map ev_input es) = set required_input_ids"
    and calendar_facts: "gather d as_of cutoff rs u = (Inr es, u') \<Longrightarrow> e \<in> set es \<Longrightarrow> ev_input e = ''calendar.macro_releases_7d''
      \<Longrightarrow> usable (ev_status e) \<Longrightarrow> ev_facts e \<noteq> []"
begin

lemma known: "gather d as_of cutoff rs u = (Inr es, u') \<Longrightarrow> e \<in> set es \<Longrightarrow> ev_input e \<in> set required_input_ids"
  using covers by force

text \<open>The snapshot has the entry of every evidence, and facts as soon as evidence in time has some.\<close>

lemma covered_snapshot:
  assumes es: "gather d as_of cutoff rs u = (Inr es, u')" and p: "evaluate_policy ex v d = Inr p" and v: "v \<noteq> []"
    and s: "snapshot_from_evidence sha parse version d as_of cutoff (apply_day_policy es p) p = Inr s"
  shows "inputs_for_snapshot s = Inr (dp_required p, dp_optional p, None)" "fst ` set (quality_of s) = set required_input_ids"
    "e \<in> set es \<Longrightarrow> map_of (quality_of s) (ev_input e) = Some (snd (evidence_entry (exclude_after_cutoff parse cutoff (adjust_evidence p e))))"
    "e \<in> set es \<Longrightarrow> in_time parse cutoff (adjust_evidence p e) \<Longrightarrow> ev_facts (adjust_evidence p e) \<noteq> [] \<Longrightarrow> has_materialized_facts s = Inr True"
    "e \<in> set es \<Longrightarrow> in_time parse cutoff (adjust_evidence p e) \<Longrightarrow> f \<in> set (ev_facts (adjust_evidence p e))
      \<Longrightarrow> (case jget (sn_payload s) ''facts'' of JList fs \<Rightarrow> JObj f \<in> set fs | _ \<Rightarrow> False)"
proof -
  define safe where "safe = map (\<lambda>e. exclude_after_cutoff parse cutoff (adjust_evidence p e)) es"
  note cov = covers [OF es]
  have app: "apply_day_policy es p = map (adjust_evidence p) es"
    using closed_are_optional [OF p] policy_partition(2) [OF p] cov by (intro apply_covered) auto
  then have safe: "map (exclude_after_cutoff parse cutoff) (apply_day_policy es p) = safe" by (simp add: safe_def)
  from s obtain facts where facts: "facts = sorted_facts safe" "map (\<lambda>f. jget f ''fact_id'') facts = map JStr (sn_fact_ids s)"
    "distinct (sn_fact_ids s)" "jget (sn_payload s) ''facts'' = JList (map JObj facts)"
    and quality: "jget (sn_payload s) ''input_quality'' = input_quality safe"
    and policy: "jget (sn_payload s) ''report_day_policy'' = policy_payload p" and date: "sn_report_date s = d"
    by (rule snapshot_from_evidence_Inr) (simp add: safe)
  show "inputs_for_snapshot s = Inr (dp_required p, dp_optional p, None)"
    using p v date policy by (rule evaluated_policy_inputs)
  show "fst ` set (quality_of s) = set required_input_ids"
    using cov unfolding quality_of_evidence(2) [OF quality] safe_def by (auto simp: image_image)
  have dis: "distinct (map ev_input safe)" using cov by (simp add: safe_def o_def)
  show "map_of (quality_of s) (ev_input e) = Some (snd (evidence_entry (exclude_after_cutoff parse cutoff (adjust_evidence p e))))"
    if "e \<in> set es"
    using quality_entry_of(1) [OF quality dis, of "exclude_after_cutoff parse cutoff (adjust_evidence p e)"] that
    by (simp add: safe_def)
  have mem: "f \<in> set facts" if "e \<in> set es" "in_time parse cutoff (adjust_evidence p e)" "f \<in> set (ev_facts (adjust_evidence p e))" for e f
  proof -
    have ex: "exclude_after_cutoff parse cutoff (adjust_evidence p e) = adjust_evidence p e"
      using exclude_usable(1) that(2) exclude_in_time by blast
    then have "adjust_evidence p e \<in> set safe" using that(1) unfolding safe_def by force
    then show ?thesis using that(2,3) unfolding facts(1) sorted_facts_mem in_time_def by blast
  qed
  show "has_materialized_facts s = Inr True"
    if "e \<in> set es" "in_time parse cutoff (adjust_evidence p e)" "ev_facts (adjust_evidence p e) \<noteq> []"
    using materialized_facts [OF facts(4,2,3)] mem [OF that(1,2)] that(3) by (cases "ev_facts (adjust_evidence p e)") force+
  show "case jget (sn_payload s) ''facts'' of JList fs \<Rightarrow> JObj f \<in> set fs | _ \<Rightarrow> False"
    if "e \<in> set es" "in_time parse cutoff (adjust_evidence p e)" "f \<in> set (ev_facts (adjust_evidence p e))"
    using mem [OF that] by (simp add: facts(4))
qed

lemma open_gate_in_time:
  assumes es: "gather d as_of cutoff rs u = (Inr es, u')" and p: "evaluate_policy ex v d = Inr p" and v: "v \<noteq> []"
    and s: "snapshot_from_evidence sha parse version d as_of cutoff (apply_day_policy es p) p = Inr s"
    and q: "evaluate_quality s = Inr q" "qr_status q \<le> QDegraded" and e: "e \<in> set es" "ev_input e \<in> set (dp_required p)"
  shows "in_time parse cutoff e"
    "f \<in> set (ev_facts e) \<Longrightarrow> (case jget (sn_payload s) ''facts'' of JList fs \<Rightarrow> JObj f \<in> set fs | _ \<Rightarrow> False)"
proof -
  note c = covered_snapshot [OF es p v s]
  note adj = adjust_required(1) [OF p known [OF es e(1)] e(2)]
  obtain raw where "map_of (quality_of s) (ev_input e) = Some raw" "good_entry raw"
    using evaluate_quality_open [OF q c(1)] e(2) by blast
  then have "good_entry (snd (evidence_entry (exclude_after_cutoff parse cutoff (adjust_evidence p e))))"
    using c(3) [OF e(1)] by simp
  then show t: "in_time parse cutoff e" using adj by (simp add: good_quality_entry exclude_in_time)
  show "f \<in> set (ev_facts e) \<Longrightarrow> (case jget (sn_payload s) ''facts'' of JList fs \<Rightarrow> JObj f \<in> set fs | _ \<Rightarrow> False)"
    using c(5) [OF e(1)] t adj by simp
qed

lemma in_time_opens:
  assumes es: "gather d as_of cutoff rs u = (Inr es, u')" and p: "evaluate_policy ex v d = Inr p" and v: "v \<noteq> []"
    and s: "snapshot_from_evidence sha parse version d as_of cutoff (apply_day_policy es p) p = Inr s" and q: "evaluate_quality s = Inr q"
    and good: "\<forall>e \<in> set es. ev_input e \<in> set (dp_required p) \<longrightarrow> in_time parse cutoff e"
  shows "qr_status q \<le> QDegraded"
proof -
  note c = covered_snapshot [OF es p v s]
  have inputs: "ev_input ` set es = set required_input_ids" using covers [OF es] by simp
  have "''calendar.macro_releases_7d'' \<in> set (dp_required p)" using policy_partition(3) [OF p] by (simp add: always_required_def)
  moreover have "''calendar.macro_releases_7d'' \<in> ev_input ` set es" by (simp add: inputs required_input_ids_def always_required_def)
  ultimately obtain e where e: "e \<in> set es" "ev_input e = ''calendar.macro_releases_7d''" "ev_input e \<in> set (dp_required p)" by force
  have mat: "has_materialized_facts s = Inr True"
    by (rule c(4) [OF e(1)]) (use calendar_facts [OF es e(1,2)] good e(1,3) adjust_required(1) [OF p known [OF es e(1)] e(3)] in
        \<open>simp_all add: in_time_def\<close>)
  have entries: "starts_with ''REVISED_'' (qi_code x)" if i: "i \<in> fst ` set (quality_of s)"
      and x: "x \<in> set (entry_issues (dp_required p) i (jget (quality_of s) i))" "qi_required x" for i x
  proof -
    obtain e where e: "e \<in> set es" "i = ev_input e" using i inputs c(2) by auto
    note adj = adjust_required [OF p known [OF es e(1)]]
    let ?x = "exclude_after_cutoff parse cutoff (adjust_evidence p e)"
    have 1: "usable (ev_status ?x) \<and> ev_required ?x" if "i \<in> set (dp_required p)"
      using adj(1) that e good by (simp add: exclude_in_time)
    have 2: "\<not> ev_required ?x" if "i \<notin> set (dp_required p)" using adj(2) that e(2) by simp
    have "jget (quality_of s) i = snd (evidence_entry ?x)" using c(3) [OF e(1)] by (simp add: jget_def e(2))
    then have "x \<in> set (entry_issues (dp_required p) i (snd (evidence_entry ?x)))" using x(1) by simp
    then show ?thesis using entry_issues_quality [OF 1 2] x(2) by blast
  qed
  have "set (dp_required p) \<subseteq> fst ` set (quality_of s)" unfolding c(2) using policy_partition(2) [OF p] by blast
  then show ?thesis by (rule evaluate_quality_opens [OF q c(1) mat _ entries])
qed

end

section \<open>The evidence of the database\<close>

lemma macro_evidence_facts: "macro_evidence c report_date as_of cutoff x db i r = Inr e \<Longrightarrow> usable (ev_status e) \<Longrightarrow> ev_facts e \<noteq> []"
  by (auto simp: macro_evidence_def Let_def usable_def dest!: task_problem_unusable split: option.split_asm prod.split_asm if_split_asm)

lemma global_calendar_facts:
  assumes "usable (ev_status (global_calendar ((r, e) # xs)))" "usable (ev_status e) \<Longrightarrow> ev_facts e \<noteq> []"
  shows "ev_facts (global_calendar ((r, e) # xs)) \<noteq> []"
proof (cases "find (\<lambda>x. \<not> usable (ev_status (snd x))) ((r, e) # xs)")
  case None
  then have "usable (ev_status e)" by (auto split: if_splits)
  then show ?thesis using assms(2) None by (simp add: global_calendar_def Let_def)
next
  case (Some x)
  then have "\<not> usable (ev_status (snd x))" unfolding find_Some_iff by auto
  then show ?thesis using assms(1) Some by (cases x) (simp add: global_calendar_def)
qed

lemma collect_calendar:
  assumes "collect c report_date as_of cutoff rs db = Inr es" "e \<in> set es" "ev_input e = ''calendar.macro_releases_7d''" "usable (ev_status e)"
  shows "ev_facts e \<noteq> []"
proof -
  obtain market hk cn macro where macro: "mapE (\<lambda>r. macro_evidence c report_date as_of cutoff (result_for rs (calendar_task_id r)) db
      ''calendar.macro_releases_7d'' r) [CN, HK, US] = Inr macro" and es: "es = market @ [cn, hk, global_calendar (zip [CN, HK, US] macro)]"
    using assms(1) by (auto simp: collect_def bindE_eq_Inr split: if_splits)
  have ids: "map ev_input es = market_inputs @ [''news.cn.official_headlines_24h'', ''news.hk.official_headlines_24h'', ''calendar.macro_releases_7d'']"
    using collect_inputs [OF assms(1)] by blast
  then have "map ev_input market @ [ev_input cn, ev_input hk] = market_inputs @ [''news.cn.official_headlines_24h'', ''news.hk.official_headlines_24h'']"
    by (simp add: es)
  then have "''calendar.macro_releases_7d'' \<notin> ev_input ` set market" "ev_input cn \<noteq> ''calendar.macro_releases_7d''" "ev_input hk \<noteq> ''calendar.macro_releases_7d''"
    by (auto simp: market_inputs_def dest: arg_cong [where f = set])
  then have e: "e = global_calendar (zip [CN, HK, US] macro)" using assms(2,3) by (force simp: es)
  obtain x xs where x: "macro = x # xs" "macro_evidence c report_date as_of cutoff (result_for rs (calendar_task_id CN)) db
      ''calendar.macro_releases_7d'' CN = Inr x" using macro by (auto simp: bindE_eq_Inr)
  have zip: "zip [CN, HK, US] macro = (CN, x) # zip [HK, US] xs" by (simp add: x(1))
  show ?thesis using assms(4) unfolding e zip by (rule global_calendar_facts) (rule macro_evidence_facts [OF x(2)])
qed

interpretation database: evidence_source "postgres_collect c"
proof
  fix d as_of cutoff rs es
  fix u u' :: materializer_world
  assume "postgres_collect c d as_of cutoff rs u = (Inr es, u')"
  then have es: "collect c d as_of cutoff rs (mw_ingest u) = Inr es" by (auto simp: postgres_collect_def)
  show "distinct (map ev_input es) \<and> set (map ev_input es) = set required_input_ids"
    unfolding collect_inputs [OF es, THEN conjunct1] by (auto simp: market_inputs_def required_input_ids_def always_required_def)
  show "ev_facts e \<noteq> []" if "e \<in> set es" "ev_input e = ''calendar.macro_releases_7d''" "usable (ev_status e)" for e
    using es that by (rule collect_calendar)
qed


lemma collect_market:
  assumes "collect c report_date as_of cutoff rs db = Inr es" "sp \<in> set market_input_specs"
  obtains e where "e \<in> set es" "ev_input e = mi_input sp" "market_evidence c report_date as_of cutoff (result_for rs (mi_task sp)) db sp = Inr e"
proof -
  obtain market rest where market: "mapE (\<lambda>s. market_evidence c report_date as_of cutoff (result_for rs (mi_task s)) db s) market_input_specs = Inr market"
    and es: "es = market @ rest"
    using assms(1) by (auto simp: collect_def bindE_eq_Inr split: if_splits)
  obtain n where n: "n < length market_input_specs" "market_input_specs ! n = sp" using assms(2) by (auto simp: in_set_conv_nth)
  with market have "n < length market" "market_evidence c report_date as_of cutoff (result_for rs (mi_task sp)) db sp = Inr (market ! n)"
    unfolding mapE_eq_Inr by (auto simp: list_all2_conv_all_nth)
  then show ?thesis using market_evidence_input es by (intro that [of "market ! n"]) auto
qed

text \<open>A run of the materializer over the database.\<close>

lemma postgres_materialize_Inr:
  assumes "materialize (postgres_materializer c v cutoff parse now sleep) d rs w = (Inr (s, q), w')"
  obtains u es p where "await_cutoff (postgres_materializer c v cutoff parse now sleep) (cutoff d) w = (Inr (sn_as_of s), u)"
    "postgres_collect c d (sn_as_of s) (cutoff d) rs u = (Inr es, u)" "collect c d (sn_as_of s) (cutoff d) rs (mw_ingest u) = Inr es"
    "evaluate_policy (es_exchange c) v d = Inr p"
    "snapshot_from_evidence (es_sha c) parse ''1.0'' d (sn_as_of s) (cutoff d) (apply_day_policy es p) p = Inr s" "evaluate_quality s = Inr q"
proof -
  let ?m = "postgres_materializer c v cutoff parse now sleep"
  obtain as_of es p u1 u2 where m: "await_cutoff ?m (mz_cutoff ?m d) w = (Inr as_of, u1)" "mz_collect ?m d as_of (mz_cutoff ?m d) rs u1 = (Inr es, u2)" "mz_policy ?m d = Inr p"
    "snapshot_from_evidence (mz_sha ?m) (mz_parse ?m) (mz_version ?m) d as_of (mz_cutoff ?m d) (apply_day_policy es p) p = Inr s"
    "evaluate_quality s = Inr q" using assms by (rule materialize_Inr)
  have "sn_as_of s = as_of" using m(4) by (rule snapshot_from_evidence_Inr)
  then show ?thesis using m by (intro that [of u1 es p]) (auto simp: postgres_materializer_def postgres_collect_def)
qed

text \<open>C2: The gate lets the snapshot of a report date through exactly if the evidence of every input that the day policy requires is
  usable and all its facts have an audit timestamp not after the cutoff; what the other inputs are does not matter.\<close>

theorem gate_opens_iff_evidence_usable:
  assumes "materialize (postgres_materializer c v cutoff parse now sleep) d rs w = (Inr (s, q), w')" "v \<noteq> []"
  shows "\<exists>es u p. await_cutoff (postgres_materializer c v cutoff parse now sleep) (cutoff d) w = (Inr (sn_as_of s), u)
    \<and> collect c d (sn_as_of s) (cutoff d) rs (mw_ingest u) = Inr es \<and> evaluate_policy (es_exchange c) v d = Inr p
    \<and> (qr_status q \<le> QDegraded \<longleftrightarrow> list_all (in_time parse (cutoff d)) (filter (\<lambda>e. ev_input e \<in> set (dp_required p)) es))"
proof -
  obtain u es p where aw: "await_cutoff (postgres_materializer c v cutoff parse now sleep) (cutoff d) w = (Inr (sn_as_of s), u)"
    and m: "postgres_collect c d (sn_as_of s) (cutoff d) rs u = (Inr es, u)" "collect c d (sn_as_of s) (cutoff d) rs (mw_ingest u) = Inr es"
    "evaluate_policy (es_exchange c) v d = Inr p"
    "snapshot_from_evidence (es_sha c) parse ''1.0'' d (sn_as_of s) (cutoff d) (apply_day_policy es p) p = Inr s" "evaluate_quality s = Inr q"
    using assms(1) by (rule postgres_materialize_Inr)
  have "qr_status q \<le> QDegraded \<longleftrightarrow> (\<forall>e \<in> set es. ev_input e \<in> set (dp_required p) \<longrightarrow> in_time parse (cutoff d) e)"
    using database.open_gate_in_time(1) [OF m(1,3) assms(2) m(4,5)] database.in_time_opens [OF m(1,3) assms(2) m(4,5)] by blast
  then show ?thesis using aw m(2,3) by (intro exI [of _ es] exI [of _ u] exI [of _ p]) (auto simp: list_all_iff)
qed

text \<open>C1: When the gate lets a snapshot through, the snapshot has for every market that is open a fact of each expected index: its task
  succeeded without rejected records, and the bars are of the previous session of the exchange, were available by the cutoff and are within
  the freshness window.\<close>

theorem open_gate_has_complete_markets:
  assumes "materialize (postgres_materializer c v cutoff parse now sleep) d rs w = (Inr (s, q), w')" "v \<noteq> []" "qr_status q \<le> QDegraded"
    and "evaluate_policy (es_exchange c) v d = Inr p" "sp \<in> set market_input_specs" "mi_input sp \<in> set (dp_required p)"
  shows "\<exists>u r bars expected facts. await_cutoff (postgres_materializer c v cutoff parse now sleep) (cutoff d) w = (Inr (sn_as_of s), u)
    \<and> result_for rs (mi_task sp) = Some r \<and> tr_status r = Task_succeeded \<and> task_rejection_count (Some r) (mw_ingest u) \<le> 0
    \<and> expected_session (es_exchange c) (mi_region sp) d = Inr (Inl expected) \<and> set (mi_expected sp) \<subseteq> mb_instrument ` set bars
    \<and> jget (sn_payload s) ''facts'' = JList facts
    \<and> (\<forall>b \<in> set bars. mb_trading b = expected \<and> mb_available b \<le> cutoff d \<and> cutoff d - mb_available b \<le> es_market_age c
         \<and> JObj (market_bar_fact (es_sha c) (mi_input sp) d b) \<in> set facts)"
proof -
  obtain u es where aw: "await_cutoff (postgres_materializer c v cutoff parse now sleep) (cutoff d) w = (Inr (sn_as_of s), u)"
    and m: "postgres_collect c d (sn_as_of s) (cutoff d) rs u = (Inr es, u)" "collect c d (sn_as_of s) (cutoff d) rs (mw_ingest u) = Inr es"
    "snapshot_from_evidence (es_sha c) parse ''1.0'' d (sn_as_of s) (cutoff d) (apply_day_policy es p) p = Inr s" "evaluate_quality s = Inr q"
    using postgres_materialize_Inr [OF assms(1)] assms(4) by (metis sum.inject(2))
  obtain e where e: "e \<in> set es" "ev_input e = mi_input sp"
    "market_evidence c d (sn_as_of s) (cutoff d) (result_for rs (mi_task sp)) (mw_ingest u) sp = Inr e" using m(2) assms(5) by (rule collect_market)
  have req: "ev_input e \<in> set (dp_required p)" by (simp add: e(2) assms(6))
  note gate = database.open_gate_in_time [OF m(1) assms(4,2) m(3,4) assms(3) e(1) req]
  have "usable (ev_status e)" using gate(1) by (simp add: in_time_def)
  from market_evidence_usable [OF e(3) this] obtain r bars expected where x: "result_for rs (mi_task sp) = Some r" "tr_status r = Task_succeeded"
    "task_rejection_count (Some r) (mw_ingest u) \<le> 0" "expected_session (es_exchange c) (mi_region sp) d = Inr (Inl expected)"
    "ev_facts e = map (market_bar_fact (es_sha c) (mi_input sp) d) bars" "set (mi_expected sp) \<subseteq> mb_instrument ` set bars"
    "\<forall>b \<in> set bars. mb_trading b = expected \<and> mb_available b \<le> cutoff d \<and> cutoff d - mb_available b \<le> es_market_age c" by metis
  obtain facts where facts: "jget (sn_payload s) ''facts'' = JList facts" using snapshot_from_evidence_Inr [OF m(3)] by metis
  have "JObj (market_bar_fact (es_sha c) (mi_input sp) d b) \<in> set facts" if "b \<in> set bars" for b
    using gate(2) [of "market_bar_fact (es_sha c) (mi_input sp) d b"] that by (simp add: x(5) facts)
  then show ?thesis using aw x(1-4,6,7) facts
    by (intro exI [of _ u] exI [of _ r] exI [of _ bars] exI [of _ expected] exI [of _ facts] conjI ballI) simp_all
qed


section \<open>A concrete materialization\<close>

lemma utf8_chars_bounds: "length (utf8_chars s) \<le> length s" "s \<noteq> [] \<Longrightarrow> utf8_chars s \<noteq> []"
proof (induction s rule: utf8_chars.induct)
  case (2 c cs)
  have "length (dropWhile continues_char cs) \<le> length cs" by (rule length_dropWhile_le)
  then show "length (utf8_chars (c # cs)) \<le> length (c # cs)" using 2(1) by simp
qed simp_all

lemma strip_fixed: "s \<noteq> [] \<Longrightarrow> \<not> is_space (hd s) \<Longrightarrow> \<not> is_space (last s) \<Longrightarrow> strip s = s"
proof -
  assume s: "s \<noteq> []" "\<not> is_space (hd s)" "\<not> is_space (last s)"
  then have "dropWhile is_space s = s" by (cases s) simp_all
  moreover have "dropWhile is_space (rev s) = rev s" using s by (cases s rule: rev_cases) simp_all
  ultimately show "strip s = s" by (simp add: strip_def)
qed

lemma sha256_text:
  assumes "is_sha256 x"
  shows "\<not> is_space (hd (p @ x)) \<Longrightarrow> strip (p @ x) = p @ x" "strip x = x" "length x = 64"
proof -
  show len: "length x = 64" using assms by (simp add: is_sha256_def)
  then have ne: "x \<noteq> []" by auto
  have plain: "\<not> is_space k" if "k \<in> set x" for k
  proof -
    have "k \<in> set ''0123456789abcdef''" using assms that unfolding is_sha256_def by blast
    then show ?thesis by (auto simp: is_space_def)
  qed
  show "strip (p @ x) = p @ x" if "\<not> is_space (hd (p @ x))" using that ne plain [OF last_in_set [OF ne]] by (intro strip_fixed) auto
  show "strip x = x" using ne plain [OF last_in_set [OF ne]] plain [OF hd_in_set [OF ne]] by (intro strip_fixed) auto
qed

lemma new_snapshot_plain:
  assumes "strip (sn_id s) = sn_id s" "strip (sn_version s) = sn_version s" "strip (sn_fingerprint s) = sn_fingerprint s"
    "map strip (sn_fact_ids s) = sn_fact_ids s" "length (utf8_chars (sn_id s)) \<in> {1..128}" "length (utf8_chars (sn_version s)) \<in> {1..32}"
    "is_sha256 (sn_fingerprint s)" "snapshot_contract s"
  shows "new_snapshot s = Inr s"
  unfolding new_snapshot_def using assms by (cases s) simp

lemma payload_contract:
  "snapshot_contract \<lparr>sn_id = i, sn_version = v, sn_report_date = d, sn_as_of = a, sn_cutoff_at = c, sn_fingerprint = fp, sn_fact_ids = ids,
     sn_payload = (''snapshot_id'', JStr i) # (''snapshot_version'', JStr v) # [(''as_of'', JStr (iso_utc a)), (''cutoff_at'', JStr (iso_utc c))]
       @ (''fingerprint_sha256'', JStr fp) # snapshot_content ids facts sources quality policy\<rparr>"
  by (simp add: snapshot_contract_def snapshot_identity_def jget_def snapshot_content_def)

lemma build_snapshot_exists:
  assumes sha: "\<And>x. is_sha256 (sha x)" and version: "strip version = version" "length (utf8_chars version) \<in> {1..32}"
    and ids: "map strip ids = ids"
  shows "\<exists>s. build_snapshot sha version d as_of cutoff ids facts sources quality policy = Inr s"
proof -
  have id: "strip (stable_id sha ''report-input'' x) = stable_id sha ''report-input'' x"
    "length (utf8_chars (stable_id sha ''report-input'' x)) \<in> {1..128}" for x
  proof -
    have i: "stable_id sha ''report-input'' x = ''report-input_'' @ sha (dumps (JList (map JStr x)))" by (simp add: stable_id_def)
    show "strip (stable_id sha ''report-input'' x) = stable_id sha ''report-input'' x"
      unfolding i by (rule sha256_text(1) [OF sha]) (simp add: is_space_def)
    show "length (utf8_chars (stable_id sha ''report-input'' x)) \<in> {1..128}"
      unfolding i using utf8_chars_bounds [of "''report-input_'' @ sha (dumps (JList (map JStr x)))"] sha256_text(3) [OF sha]
      by (auto simp: Suc_le_eq)
  qed
  have fields: "\<exists>s. new_snapshot raw = Inr s" if "raw = \<lparr>sn_id = stable_id sha ''report-input'' x, sn_version = version, sn_report_date = d,
      sn_as_of = as_of, sn_cutoff_at = cutoff, sn_fingerprint = sha y, sn_fact_ids = ids, sn_payload = z\<rparr>" "snapshot_contract raw" for raw x y z
    using new_snapshot_plain [of raw] that id [of x] version ids sha256_text(2) [OF sha] sha by simp
  show ?thesis unfolding build_snapshot_def Let_def canonical_json_checksum_def
    by (rule fields [OF refl]) (rule payload_contract)
qed

lemma mset_fact_ids: "mset (List.map_filter (\<lambda>f. as_str (g f)) (sort_key k fs)) = mset (List.map_filter (\<lambda>f. as_str (g f)) fs)"
  by (simp add: List.map_filter_def)

lemma snapshot_exists:
  assumes inputs: "distinct (map ev_input es)" and ok: "\<forall>e \<in> set es. usable (ev_status e) \<longrightarrow> in_time parse cutoff e"
    and ids: "map (\<lambda>f. jget f ''fact_id'') (concat (map ev_facts (filter (\<lambda>e. usable (ev_status e)) es))) = map JStr ids" "distinct ids"
      "\<forall>i \<in> set ids. strip i = i"
    and sources: "collect_sources [] (concat (map ev_sources (filter (\<lambda>e. usable (ev_status e)) es))) = Inr sources"
    and sha: "\<And>x. is_sha256 (sha x)" and version: "strip version = version" "length (utf8_chars version) \<in> {1..32}"
  shows "\<exists>s. snapshot_from_evidence sha parse version d as_of cutoff es p = Inr s"
proof -
  have "exclude_after_cutoff parse cutoff e = e" if "e \<in> set es" for e
    using ok that exclude_usable(1) exclude_in_time by (cases "usable (ev_status e)") (blast, simp add: exclude_after_cutoff_def)
  then have safe: "map (exclude_after_cutoff parse cutoff) es = es" by (simp add: map_idI)
  define fs where "fs = concat (map ev_facts (filter (\<lambda>e. usable (ev_status e)) es))"
  define found where "found = List.map_filter (\<lambda>f. as_str (jget f ''fact_id'')) (sorted_facts es)"
  have "List.map_filter (\<lambda>f. as_str (jget f ''fact_id'')) fs = ids"
    using ids(1) unfolding fs_def [symmetric] by (induction fs arbitrary: ids) (auto simp: List.map_filter_simps)
  then have m: "mset found = mset ids"
    unfolding found_def sorted_facts_def fs_def [symmetric] by (simp add: mset_fact_ids)
  have "length ids = length fs" using ids(1) unfolding fs_def [symmetric] by (metis length_map)
  then have len: "length found = length (sorted_facts es)" using m by (metis sorted_facts_def fs_def length_sort size_mset)
  have dis: "distinct found" using m ids(2) by (metis mset_eq_imp_distinct_iff)
  have strips: "map strip found = found" using ids(3) mset_eq_setD [OF m] by (intro map_idI) simp
  show ?thesis
    using build_snapshot_exists [OF sha version strips] inputs sources dis len
    by (simp add: snapshot_from_evidence_def safe Let_def found_def [symmetric])
qed

text \<open>The run: the clock is read a minute before the cutoff and at the cutoff.\<close>

definition demo_now :: "(materializer_world, instant) act" where
  "demo_now w = (case mw_clock w of [] \<Rightarrow> (Inl RuntimeError, w) | t # ts \<Rightarrow> (Inr t, w\<lparr>mw_clock := ts\<rparr>))"

definition demo_parse :: "string \<Rightarrow> instant option" where
  "demo_parse s = (if s = iso_utc 63888170000000000 then Some 63888170000000000 else if s = iso_utc cutoff_tuesday then Some cutoff_tuesday else None)"

definition demo_materializer :: "materializer_world materializer" where
  "demo_materializer = postgres_materializer demo_store ''4.5'' (\<lambda>d. cutoff_tuesday) demo_parse demo_now (\<lambda>s. ret ())"

definition demo_input_world :: materializer_world where
  "demo_input_world = \<lparr>mw_ingest = evidence_db, mw_reports = \<lparr>db_snapshots = [], db_generations = [], db_reports = [], db_source_refs = [],
     db_deliveries = []\<rparr>, mw_clock = [cutoff_tuesday - 60000000, cutoff_tuesday]\<rparr>"


lemma length_digest_sha: "is_sha256 (length_digest s)"
proof -
  have "hex_char n \<in> set ''0123456789abcdef''" if "n < 16" for n
  proof -
    have "\<forall>n \<in> set [0..<16]. hex_char n \<in> set ''0123456789abcdef''" by code_simp
    then show ?thesis using that by auto
  qed
  then have "hex_char (n mod 16) \<in> set ''0123456789abcdef''" for n by simp
  then show ?thesis by (simp add: is_sha256_def length_digest_def)
qed

definition closed_policy :: day_policy where
  "closed_policy = (case evaluate_policy cn_exchange ''4.5'' tuesday of Inr p \<Rightarrow> p | Inl _ \<Rightarrow> undefined)"

lemma closed_policy_eq: "evaluate_policy cn_exchange ''4.5'' tuesday = Inr closed_policy"
  by (simp add: closed_policy_def evaluate_policy_def region_day_policy_def session_lookup_def cn_exchange_def Let_def)

lemma closed_policy_inputs:
  "set (dp_required closed_policy) = {''calendar.macro_releases_7d'', ''market.cn.core_indices.previous_close'', ''news.cn.official_headlines_24h'',
     ''news.hk.official_headlines_24h''}"
  "set (dp_optional closed_policy) = {''market.hk.core_indices.previous_close'', ''market.us.core_indices.previous_close''}"
  by (auto simp: closed_policy_def evaluate_policy_def region_day_policy_def session_lookup_def cn_exchange_def Let_def always_required_def
      weekday_def tuesday_def market_day_status_def)

definition usable_demo :: "input_evidence list" where
  "usable_demo = filter (\<lambda>e. usable (ev_status e)) demo_evidence"

lemma demo_inputs: "map ev_input demo_evidence = market_inputs @ [''news.cn.official_headlines_24h'', ''news.hk.official_headlines_24h'', ''calendar.macro_releases_7d'']"
  using collect_inputs [OF demo_collect] by simp

lemma usable_demo_required: "e \<in> set usable_demo \<Longrightarrow> ev_input e \<in> set (dp_required closed_policy) \<and> ev_required e \<and> usable (ev_status e)"
  by (auto simp: usable_demo_def demo_evidence_def demo_market_def demo_news_def demo_usable_def finding_def usable_def closed_policy_inputs)

lemma demo_applied: "apply_day_policy demo_evidence closed_policy = map (adjust_evidence closed_policy) demo_evidence"
proof (rule apply_covered)
  show "set (map rp_input (closed_regions closed_policy)) \<subseteq> ev_input ` set demo_evidence"
    using closed_are_optional [OF closed_policy_eq] arg_cong [OF demo_inputs, of set] by (auto simp: closed_policy_inputs market_inputs_def)
qed

lemma usable_demo_adjust: "e \<in> set usable_demo \<Longrightarrow> adjust_evidence closed_policy e = e"
proof -
  assume "e \<in> set usable_demo"
  from usable_demo_required [OF this] show ?thesis by (cases e) (simp add: adjust_evidence_def)
qed

lemma demo_usable_applied: "filter (\<lambda>e. usable (ev_status e)) (apply_day_policy demo_evidence closed_policy) = usable_demo"
proof -
  have "filter (\<lambda>e. usable (ev_status (adjust_evidence closed_policy e))) demo_evidence = usable_demo"
    unfolding usable_demo_def
  proof (rule filter_cong [OF refl])
    fix e assume "e \<in> set demo_evidence"
    show "usable (ev_status (adjust_evidence closed_policy e)) = usable (ev_status e)"
      by (auto simp: adjust_evidence_def usable_def split: option.split)
  qed
  then show ?thesis by (simp add: demo_applied filter_map o_def usable_demo_adjust map_idI)
qed

lemma usable_demo_eq: "usable_demo = [demo_market, demo_news ''news.cn.official_headlines_24h'' ''n1'' CN,
    demo_news ''news.hk.official_headlines_24h'' ''n22'' HK,
    demo_usable ''calendar.macro_releases_7d'' ''CN, HK, and US calendar coverage is materialized before cutoff''
      (map (\<lambda>r. empty_calendar_fact ''calendar.macro_releases_7d'' r cutoff_tuesday tuesday) [CN, HK, US]) []]"
  by (simp add: usable_demo_def demo_evidence_def demo_market_def demo_news_def demo_usable_def finding_def usable_def)

lemma demo_in_time: "e \<in> set usable_demo \<Longrightarrow> in_time demo_parse cutoff_tuesday e"
proof -
  have before: "63888170000000000 \<le> cutoff_tuesday" by (simp add: cutoff_tuesday_def)
  have parse: "demo_parse (iso_utc 63888170000000000) = Some 63888170000000000" "\<exists>t \<le> cutoff_tuesday. demo_parse (iso_utc cutoff_tuesday) = Some t"
    using before by (simp_all add: demo_parse_def)
  have bar: "fact_available_at demo_parse (market_bar_fact sha i d (index_bar x 63888170000000000 c)) = Some 63888170000000000" for sha i d x c
    by (simp add: fact_available_at_def market_bar_fact_def jget_def parse)
  have news: "fact_available_at demo_parse (news_event_fact sha i d (demo_event n r)) = Some 63888170000000000" for sha i d n r
    by (simp add: fact_available_at_def news_event_fact_def jget_def demo_event_def parse)
  have empty: "\<exists>t \<le> cutoff_tuesday. fact_available_at demo_parse (empty_calendar_fact i r cutoff_tuesday d) = Some t" for i r d
    using parse(2) by (simp add: fact_available_at_def empty_calendar_fact_def jget_def)
  have "in_time demo_parse cutoff_tuesday demo_market" "in_time demo_parse cutoff_tuesday (demo_news i n r)"
    "in_time demo_parse cutoff_tuesday (demo_usable j reason
       (map (\<lambda>r. empty_calendar_fact ''calendar.macro_releases_7d'' r cutoff_tuesday tuesday) [CN, HK, US]) [])" for i n r j reason
    by (simp_all add: demo_market_def demo_news_def demo_usable_def demo_bars_def usable_def in_time_def bar news empty before)
  note parts = this
  assume "e \<in> set usable_demo"
  then show "in_time demo_parse cutoff_tuesday e" using parts unfolding usable_demo_eq by fastforce
qed

definition demo_ids :: "string list" where
  "demo_ids = map (\<lambda>n. ''report-fact_'' @ replicate 62 CHR ''0'' @ n) [''47'', ''4e'', ''4f'', ''2b'', ''2c'']
     @ map (\<lambda>r. ''fact.calendar.macro_releases_7d.'' @ r @ ''.empty'') [''cn'', ''hk'', ''us'']"

lemma fact_ids:
  "jget (market_bar_fact sha i d b) ''fact_id'' = JStr (stable_id sha ''report-fact'' [i, mb_id b, bar_checksum b])"
  "jget (news_event_fact sha i d e) ''fact_id'' = JStr (stable_id sha ''report-fact'' [i, ne_id e, ne_hash e])"
  "jget (empty_calendar_fact i r c d) ''fact_id'' = JStr (''fact.'' @ i @ ''.'' @ lower (region_value r) @ ''.empty'')"
  "jget (source_reference sha s) ''source_ref_id'' = JStr (source_ref_id sha s)"
  by (simp_all add: market_bar_fact_def news_event_fact_def empty_calendar_fact_def source_reference_def jget_def)

lemma demo_order: "sorted_set cn_indices = [''ins_cn_index_csi300'', ''ins_cn_index_sse_composite'', ''ins_cn_index_szse_component'']"
  by code_simp

lemma demo_fact_ids: "map (\<lambda>f. jget f ''fact_id'') (concat (map ev_facts usable_demo)) = map JStr demo_ids"
proof -
  let ?m = "''market.cn.core_indices.previous_close''" and ?id = "stable_id length_digest ''report-fact''"
  have ids: "[?id [?m, ''bar_ins_cn_index_csi300'', ''a''], ?id [?m, ''bar_ins_cn_index_sse_composite'', ''a''],
      ?id [?m, ''bar_ins_cn_index_szse_component'', ''a''], ?id [''news.cn.official_headlines_24h'', ''n1'', ''h''],
      ?id [''news.hk.official_headlines_24h'', ''n22'', ''h''], ''fact.calendar.macro_releases_7d.'' @ lower ''CN'' @ ''.empty'',
      ''fact.calendar.macro_releases_7d.'' @ lower ''HK'' @ ''.empty'', ''fact.calendar.macro_releases_7d.'' @ lower ''US'' @ ''.empty'']
    = demo_ids" by code_simp
  have "map (\<lambda>f. jget f ''fact_id'') (concat (map ev_facts usable_demo)) = map JStr
     [?id [?m, ''bar_ins_cn_index_csi300'', ''a''], ?id [?m, ''bar_ins_cn_index_sse_composite'', ''a''],
      ?id [?m, ''bar_ins_cn_index_szse_component'', ''a''], ?id [''news.cn.official_headlines_24h'', ''n1'', ''h''],
      ?id [''news.hk.official_headlines_24h'', ''n22'', ''h''], ''fact.calendar.macro_releases_7d.'' @ lower ''CN'' @ ''.empty'',
      ''fact.calendar.macro_releases_7d.'' @ lower ''HK'' @ ''.empty'', ''fact.calendar.macro_releases_7d.'' @ lower ''US'' @ ''.empty'']"
    by (simp add: usable_demo_eq demo_market_def demo_news_def demo_usable_def demo_bars_def demo_order fact_ids bar_checksum_def index_bar_def
        demo_bar_def demo_source_def demo_event_def)
  then show ?thesis by (simp only: ids)
qed

lemma demo_ids_plain: "distinct demo_ids" "\<forall>i \<in> set demo_ids. strip i = i"
  by code_simp+

lemma collect_sources_new: "map (\<lambda>s. jget s ''source_ref_id'') ss = map JStr ids \<Longrightarrow> distinct ids \<Longrightarrow> set ids \<inter> fst ` set acc = {}
    \<Longrightarrow> \<exists>r. collect_sources acc ss = Inr r"
proof (induction ss arbitrary: ids acc)
  case (Cons s ss)
  then obtain i js where ids: "ids = i # js" "jget s ''source_ref_id'' = JStr i" "map (\<lambda>s. jget s ''source_ref_id'') ss = map JStr js"
    by (cases ids) auto
  have "map_of acc i = None" using Cons.prems(3) ids(1) by (auto simp: map_of_eq_None_iff)
  moreover have "\<exists>r. collect_sources (acc @ [(i, s)]) ss = Inr r"
    by (rule Cons.IH [OF ids(3)]) (use Cons.prems(2,3) ids(1) in auto)
  ultimately show ?case using ids(2) by simp
qed simp

lemma demo_sources: "\<exists>sources. collect_sources [] (concat (map ev_sources usable_demo)) = Inr sources"
proof -
  let ?id = "\<lambda>r c. stable_id length_digest ''report-source'' [''cn.baostock.v1'', r, c]"
  have "map (\<lambda>s. jget s ''source_ref_id'') (concat (map ev_sources usable_demo)) = map JStr [?id ''ins_cn_index_csi300'' ''a'',
      ?id ''ins_cn_index_sse_composite'' ''a'', ?id ''ins_cn_index_szse_component'' ''a'', ?id ''n1'' ''h'', ?id ''n22'' ''h'']"
    by (simp add: usable_demo_eq demo_market_def demo_news_def demo_usable_def demo_bars_def demo_order fact_ids source_ref_id_def index_bar_def
        demo_bar_def demo_source_def demo_event_def)
  moreover have "distinct [?id ''ins_cn_index_csi300'' ''a'', ?id ''ins_cn_index_sse_composite'' ''a'', ?id ''ins_cn_index_szse_component'' ''a'',
      ?id ''n1'' ''h'', ?id ''n22'' ''h'']" by code_simp
  ultimately show ?thesis by (rule collect_sources_new) simp
qed


lemma demo_required_usable: "e \<in> set demo_evidence \<Longrightarrow> ev_input e \<in> set (dp_required closed_policy) \<Longrightarrow> in_time demo_parse cutoff_tuesday e"
proof -
  assume e: "e \<in> set demo_evidence" "ev_input e \<in> set (dp_required closed_policy)"
  then have "e \<in> set usable_demo"
    by (auto simp: usable_demo_eq demo_evidence_def finding_def closed_policy_inputs)
  then show ?thesis by (rule demo_in_time)
qed

lemma demo_snapshot_exists:
  "\<exists>s. snapshot_from_evidence length_digest demo_parse ''1.0'' tuesday cutoff_tuesday cutoff_tuesday (apply_day_policy demo_evidence closed_policy) closed_policy = Inr s"
proof -
  obtain sources where sources: "collect_sources [] (concat (map ev_sources usable_demo)) = Inr sources" using demo_sources by blast
  have "map ev_input (apply_day_policy demo_evidence closed_policy) = map ev_input demo_evidence" by (simp add: demo_applied o_def)
  then have dis: "distinct (map ev_input (apply_day_policy demo_evidence closed_policy))" by (simp add: demo_inputs market_inputs_def)
  have ok: "\<forall>e \<in> set (apply_day_policy demo_evidence closed_policy). usable (ev_status e) \<longrightarrow> in_time demo_parse cutoff_tuesday e"
  proof (intro ballI impI)
    fix e assume "e \<in> set (apply_day_policy demo_evidence closed_policy)" "usable (ev_status e)"
    then have "e \<in> set (filter (\<lambda>e. usable (ev_status e)) (apply_day_policy demo_evidence closed_policy))" by simp
    then have "e \<in> set usable_demo" by (simp only: demo_usable_applied)
    then show "in_time demo_parse cutoff_tuesday e" by (rule demo_in_time)
  qed
  show ?thesis
    by (rule snapshot_exists [OF dis ok, of demo_ids sources])
      (use demo_fact_ids demo_ids_plain sources length_digest_sha in \<open>simp_all add: demo_usable_applied strip_def is_space_def continues_char_def\<close>)
qed

lemma demo_run:
  obtains s q w' where "materialize demo_materializer tuesday demo_results demo_input_world = (Inr (s, q), w')" "qr_status q \<le> QDegraded"
proof -
  obtain s where s: "snapshot_from_evidence length_digest demo_parse ''1.0'' tuesday cutoff_tuesday cutoff_tuesday
      (apply_day_policy demo_evidence closed_policy) closed_policy = Inr s" using demo_snapshot_exists by blast
  have gather: "postgres_collect demo_store tuesday cutoff_tuesday cutoff_tuesday demo_results (demo_input_world\<lparr>mw_clock := []\<rparr>)
      = (Inr demo_evidence, demo_input_world\<lparr>mw_clock := []\<rparr>)"
    by (simp add: postgres_collect_def demo_input_world_def demo_collect)
  note covered = database.covered_snapshot [OF gather closed_policy_eq _ s]
  have "has_materialized_facts s = Inr True"
  proof (rule covered(4))
    show "demo_market \<in> set demo_evidence" by (simp add: demo_evidence_def)
    have m: "demo_market \<in> set usable_demo" by (simp add: usable_demo_eq)
    show "in_time demo_parse cutoff_tuesday (adjust_evidence closed_policy demo_market)" "ev_facts (adjust_evidence closed_policy demo_market) \<noteq> []"
      unfolding usable_demo_adjust [OF m] using demo_in_time [OF m] by (simp_all add: demo_market_def demo_usable_def demo_bars_def demo_order)
  qed simp
  then obtain q where q: "evaluate_quality s = Inr q" using covered(1) by (simp add: evaluate_quality_def Let_def)
  have "qr_status q \<le> QDegraded"
    using database.in_time_opens [OF gather closed_policy_eq _ s q] demo_required_usable by simp
  moreover have "\<exists>w'. materialize demo_materializer tuesday demo_results demo_input_world = (Inr (s, q), w')"
  proof -
    have aw: "await_cutoff demo_materializer cutoff_tuesday demo_input_world = (Inr cutoff_tuesday, demo_input_world\<lparr>mw_clock := []\<rparr>)"
      by (simp add: await_cutoff_def demo_materializer_def postgres_materializer_def demo_now_def demo_input_world_def bindA_def)
    have put: "\<exists>w'. postgres_put s (demo_input_world\<lparr>mw_clock := []\<rparr>) = (Inr (), w')"
      by (simp add: postgres_put_def put_input_snapshot_def demo_input_world_def)
    have ports: "mz_cutoff demo_materializer = (\<lambda>d. cutoff_tuesday)" "mz_collect demo_materializer = postgres_collect demo_store"
      "mz_policy demo_materializer = evaluate_policy cn_exchange ''4.5''" "mz_sha demo_materializer = length_digest"
      "mz_parse demo_materializer = demo_parse" "mz_version demo_materializer = ''1.0''" "mz_put demo_materializer = postgres_put"
      by (simp_all add: demo_materializer_def postgres_materializer_def demo_store_def)
    show ?thesis using put by (auto simp: materialize_def Let_def bindA_def ports aw gather closed_policy_eq s q)
  qed
  ultimately show ?thesis using that by blast
qed

theorem materialized_snapshot_is_point_in_time_witness:
  "\<exists>s q w' facts. materialize demo_materializer tuesday demo_results demo_input_world = (Inr (s, q), w') \<and> cutoff_tuesday \<le> sn_as_of s
     \<and> jget (sn_payload s) ''facts'' = JList (map JObj facts) \<and> map (\<lambda>f. jget f ''fact_id'') facts = map JStr (sn_fact_ids s)
     \<and> list_all (\<lambda>f. \<exists>t \<le> cutoff_tuesday. fact_available_at demo_parse f = Some t) facts"
proof -
  obtain s q w' where run: "materialize demo_materializer tuesday demo_results demo_input_world = (Inr (s, q), w')" by (rule demo_run)
  have ports: "mz_cutoff demo_materializer tuesday = cutoff_tuesday" "mz_parse demo_materializer = demo_parse"
    by (simp_all add: demo_materializer_def postgres_materializer_def)
  from materialized_snapshot_is_point_in_time [OF run] show ?thesis
    unfolding ports list_all_iff using run by blast
qed

theorem gate_opens_iff_evidence_usable_witness:
  "\<exists>s q w'. materialize demo_materializer tuesday demo_results demo_input_world = (Inr (s, q), w') \<and> qr_status q \<le> QDegraded
     \<and> list_all (in_time demo_parse cutoff_tuesday) (filter (\<lambda>e. ev_input e \<in> set (dp_required closed_policy)) demo_evidence)"
proof -
  obtain s q w' where run: "materialize demo_materializer tuesday demo_results demo_input_world = (Inr (s, q), w')" "qr_status q \<le> QDegraded"
    by (rule demo_run)
  have version: "''4.5'' \<noteq> []" by simp
  obtain es u p where aw: "await_cutoff demo_materializer cutoff_tuesday demo_input_world = (Inr (sn_as_of s), u)"
    and es: "collect demo_store tuesday (sn_as_of s) cutoff_tuesday demo_results (mw_ingest u) = Inr es"
    "evaluate_policy (es_exchange demo_store) ''4.5'' tuesday = Inr p"
    "list_all (in_time demo_parse cutoff_tuesday) (filter (\<lambda>e. ev_input e \<in> set (dp_required p)) es)"
    using gate_opens_iff_evidence_usable [OF run(1) [unfolded demo_materializer_def] version] run(2) unfolding demo_materializer_def by blast
  have "u = demo_input_world\<lparr>mw_clock := []\<rparr>"
    using aw by (simp add: await_cutoff_def demo_materializer_def postgres_materializer_def demo_now_def demo_input_world_def bindA_def)
  then have "es = demo_evidence" using es(1) by (simp add: demo_input_world_def demo_collect)
  moreover have "p = closed_policy" using es(2) closed_policy_eq by (simp add: demo_store_def)
  ultimately show ?thesis using run es(3) by blast
qed

theorem open_gate_has_complete_markets_witness:
  "\<exists>s q w' facts b. materialize demo_materializer tuesday demo_results demo_input_world = (Inr (s, q), w') \<and> jget (sn_payload s) ''facts'' = JList facts
     \<and> mb_instrument b = ''ins_cn_index_csi300'' \<and> mb_trading b = 739446
     \<and> JObj (market_bar_fact length_digest ''market.cn.core_indices.previous_close'' tuesday b) \<in> set facts"
proof -
  obtain s q w' where run: "materialize demo_materializer tuesday demo_results demo_input_world = (Inr (s, q), w')" "qr_status q \<le> QDegraded"
    by (rule demo_run)
  have spec: "hd market_input_specs \<in> set market_input_specs" "mi_input (hd market_input_specs) = ''market.cn.core_indices.previous_close''"
    "''ins_cn_index_csi300'' \<in> set (mi_expected (hd market_input_specs))" "mi_region (hd market_input_specs) = CN"
    by (simp_all add: market_input_specs_def)
  have args: "''4.5'' \<noteq> []" "evaluate_policy (es_exchange demo_store) ''4.5'' tuesday = Inr closed_policy"
    "mi_input (hd market_input_specs) \<in> set (dp_required closed_policy)"
    using closed_policy_eq by (simp_all add: demo_store_def spec closed_policy_inputs)
  have session: "expected_session (es_exchange demo_store) CN tuesday = Inr (Inl 739446)"
    by (simp add: expected_session_def session_lookup_def demo_store_def cn_exchange_def tuesday_def)
  from open_gate_has_complete_markets [OF run(1) [unfolded demo_materializer_def] args(1) run(2) args(2) spec(1) args(3)]
  obtain bars expected facts where x: "expected_session (es_exchange demo_store) CN tuesday = Inr (Inl expected)"
    "set (mi_expected (hd market_input_specs)) \<subseteq> mb_instrument ` set bars" "jget (sn_payload s) ''facts'' = JList facts"
    "\<forall>b \<in> set bars. mb_trading b = expected \<and> JObj (market_bar_fact (es_sha demo_store) (mi_input (hd market_input_specs)) tuesday b) \<in> set facts"
    unfolding spec(4) by blast
  have sha: "es_sha demo_store = length_digest" "expected = 739446" using x(1) session by (simp_all add: demo_store_def)
  have "''ins_cn_index_csi300'' \<in> mb_instrument ` set bars" using x(2) spec(3) by (rule subsetD)
  then obtain b where b: "''ins_cn_index_csi300'' = mb_instrument b" "b \<in> set bars" by (rule imageE)
  note fact = bspec [OF x(4) b(2), unfolded sha spec(2)]
  show ?thesis
    by (intro exI conjI, rule run(1), rule x(3), rule b(1) [symmetric], rule fact [THEN conjunct1], rule fact [THEN conjunct2])
qed

end
