(* ===== verification/Workflow_Operations.thy ===== *)
theory Workflow_Operations
  imports Delivery_Recovery Scheduled_Runtime Input_Materializer
begin

text \<open>
  \<open>services/workflow_operations.py\<close>: the read-only overview of one report date, and the readiness of the worker. The overview reads the
  rows of the seven workflow tables with the times the database keeps beside them (\<open>stamped\<close>); \<open>db k\<close> is the state the \<open>k\<close>-th query
  finds. What is shown: the overview depends on no payload, card, chat or cursor; its status follows the latest delivery or alert; and
  a ready worker can build its workflow but for settings that consist of white space.
\<close>

section \<open>Rows and views\<close>

record 'r stamped =
  at_row :: 'r
  at_created :: instant
  at_updated :: instant

record operations_db =
  od_tasks :: "checkpoint stamped list"
  od_snapshots :: "input_snapshot stamped list"
  od_generations :: "generation_attempt stamped list"
  od_reports :: "stored_report stamped list"
  od_deliveries :: "delivery_attempt stamped list"
  od_alerts :: "alert_attempt stamped list"
  od_actions :: "operator_action stamped list"

record task_view =
  tv_task :: string
  tv_role :: string
  tv_dataset :: dataset
  tv_region :: string
  tv_status :: checkpoint_status
  tv_run :: "uuid option"
  tv_evidence :: "uuid list"
  tv_accepted :: int
  tv_rejected :: int
  tv_updated :: instant

record snapshot_view =
  nv_id :: string
  nv_version :: string
  nv_status :: gate_status
  nv_codes :: "string list"
  nv_as_of :: instant
  nv_cutoff :: instant
  nv_facts :: nat
  nv_created :: instant

record generation_view =
  gv_id :: uuid
  gv_report :: string
  gv_version :: string
  gv_snapshot :: string
  gv_lifecycle :: lifecycle
  gv_no :: int
  gv_model :: string
  gv_error :: "string option"
  gv_updated :: instant

record report_view =
  pv_report :: string
  pv_version :: string
  pv_snapshot :: string
  pv_lifecycle :: lifecycle
  pv_status :: string
  pv_decision :: string
  pv_generated :: instant
  pv_codes :: "string list"
  pv_created :: instant

record sent_view =
  dv_id :: uuid
  dv_report :: string
  dv_version :: string
  dv_status :: attempt_status
  dv_no :: int
  dv_error :: "string option"
  dv_created :: instant
  dv_updated :: instant

record alert_view =
  av_id :: uuid
  av_run :: uuid
  av_stage :: workflow_stage
  av_status :: attempt_status
  av_no :: int
  av_error :: "string option"
  av_created :: instant
  av_updated :: instant

record action_view =
  ov_id :: uuid
  ov_request :: uuid
  ov_report :: string
  ov_delivery :: "uuid option"
  ov_status :: action_status
  ov_confirmed :: bool
  ov_prior :: string
  ov_prior_no :: "int option"
  ov_result :: "string option"
  ov_error :: "string option"
  ov_created :: instant
  ov_updated :: instant

datatype workflow_status = Not_started | Ingesting | Quality_blocked | Generating | Awaiting_delivery | Was_delivered
  | Blocked_alerted | Attention_required

record operations_status =
  os_date :: date
  os_status :: workflow_status
  os_attention :: bool
  os_tasks :: "task_view list"
  os_snapshots :: "snapshot_view list"
  os_generations :: "generation_view list"
  os_reports :: "report_view list"
  os_deliveries :: "sent_view list"
  os_alerts :: "alert_view list"
  os_actions :: "action_view list"
  os_updated :: "instant option"

section \<open>The queries\<close>

text \<open>\<open>ORDER BY created_at, id\<close>, and the join of two tables.\<close>

definition by_creation :: "('r \<Rightarrow> string) \<Rightarrow> 'r stamped list \<Rightarrow> 'r stamped list" where
  "by_creation key rs = sort_key (\<lambda>r. (at_created r, key (at_row r))) rs"

definition joined_on :: "('r \<Rightarrow> 's \<Rightarrow> bool) \<Rightarrow> 'r stamped list \<Rightarrow> 's stamped list \<Rightarrow> 'r stamped list" where
  "joined_on on rs os = concat (map (\<lambda>r. map (\<lambda>_. r) (filter (\<lambda>o'. on (at_row r) (at_row o')) os)) rs)"

definition task_rows :: "date \<Rightarrow> operations_db \<Rightarrow> checkpoint stamped list" where
  "task_rows d db = sort_key (\<lambda>r. sc_task (at_row r)) (filter (\<lambda>r. sc_date (at_row r) = d) (od_tasks db))"

definition snapshot_rows :: "date \<Rightarrow> operations_db \<Rightarrow> input_snapshot stamped list" where
  "snapshot_rows d db = by_creation sn_id (filter (\<lambda>r. sn_report_date (at_row r) = d) (od_snapshots db))"

definition generation_rows :: "date \<Rightarrow> operations_db \<Rightarrow> generation_attempt stamped list" where
  "generation_rows d db = by_creation ga_id (joined_on (\<lambda>g s. ga_snapshot g = sn_id s \<and> sn_report_date s = d) (od_generations db) (od_snapshots db))"

definition report_rows :: "date \<Rightarrow> operations_db \<Rightarrow> stored_report stamped list" where
  "report_rows d db = by_creation sr_id (filter (\<lambda>r. sr_date (at_row r) = d) (od_reports db))"

definition delivery_rows :: "date \<Rightarrow> operations_db \<Rightarrow> delivery_attempt stamped list" where
  "delivery_rows d db = by_creation da_id (joined_on (\<lambda>a r. da_report a = sr_id r \<and> sr_date r = d) (od_deliveries db) (od_reports db))"

definition alert_rows :: "date \<Rightarrow> operations_db \<Rightarrow> alert_attempt stamped list" where
  "alert_rows d db = by_creation aa_id (filter (\<lambda>r. aa_date (at_row r) = d) (od_alerts db))"

definition action_rows :: "date \<Rightarrow> operations_db \<Rightarrow> operator_action stamped list" where
  "action_rows d db = by_creation oa_id (joined_on (\<lambda>a r. oa_report a = sr_id r \<and> sr_date r = d) (od_actions db) (od_reports db))"

section \<open>The views\<close>

text \<open>A view is a strict contract: its texts are stripped, and a number below its bound is a \<open>ValidationError\<close>.\<close>

definition task_view_of :: "checkpoint stamped \<Rightarrow> exn + task_view" where
  "task_view_of r = (let c = at_row r in
     if sc_accepted c < 0 \<or> sc_rejected c < 0 then Inl ValidationError
     else Inr \<lparr>tv_task = strip (sc_task c), tv_role = strip (sc_role c), tv_dataset = sc_dataset c, tv_region = strip (sc_region c),
       tv_status = sc_status c, tv_run = sc_run c, tv_evidence = sc_run_ids c, tv_accepted = sc_accepted c, tv_rejected = sc_rejected c,
       tv_updated = at_updated r\<rparr>)"

definition snapshot_view_of :: "input_snapshot stamped \<Rightarrow> exn + snapshot_view" where
  "snapshot_view_of r = bindE (new_snapshot (at_row r)) (\<lambda>s. bindE (evaluate_quality s) (\<lambda>q.
     Inr \<lparr>nv_id = strip (sn_id (at_row r)), nv_version = strip (sn_version (at_row r)), nv_status = qr_status q,
       nv_codes = map (\<lambda>i. strip (qi_code i)) (qr_issues q), nv_as_of = sn_as_of (at_row r), nv_cutoff = sn_cutoff_at (at_row r),
       nv_facts = length (sn_fact_ids (at_row r)), nv_created = at_created r\<rparr>))"

definition generation_view_of :: "generation_attempt stamped \<Rightarrow> exn + generation_view" where
  "generation_view_of r = (let g = at_row r in
     if ga_no g < 1 then Inl ValidationError
     else Inr \<lparr>gv_id = ga_id g, gv_report = strip (ga_report g), gv_version = strip (ga_version g), gv_snapshot = strip (ga_snapshot g),
       gv_lifecycle = ga_lifecycle g, gv_no = ga_no g, gv_model = strip (ga_model g), gv_error = map_option strip (ga_error g),
       gv_updated = at_updated r\<rparr>)"

definition report_view_of :: "stored_report stamped \<Rightarrow> report_view" where
  "report_view_of r = (let s = at_row r in
     \<lparr>pv_report = strip (sr_id s), pv_version = strip (sr_version s), pv_snapshot = strip (sr_snapshot s), pv_lifecycle = sr_lifecycle s,
      pv_status = strip (sr_status s), pv_decision = strip (sr_decision s), pv_generated = sr_generated_at s,
      pv_codes = map (\<lambda>i. strip (vi_code i)) (sr_errors s), pv_created = at_created r\<rparr>)"

definition delivery_view_of :: "delivery_attempt stamped \<Rightarrow> exn + sent_view" where
  "delivery_view_of r = (let a = at_row r in
     if da_no a < 1 then Inl ValidationError
     else Inr \<lparr>dv_id = da_id a, dv_report = strip (da_report a), dv_version = strip (da_version a), dv_status = da_status a, dv_no = da_no a,
       dv_error = map_option strip (da_error a), dv_created = at_created r, dv_updated = at_updated r\<rparr>)"

definition alert_view_of :: "alert_attempt stamped \<Rightarrow> exn + alert_view" where
  "alert_view_of r = (let a = at_row r in
     if aa_no a < 1 then Inl ValidationError
     else Inr \<lparr>av_id = aa_id a, av_run = aa_run a, av_stage = aa_stage a, av_status = aa_status a, av_no = aa_no a,
       av_error = map_option strip (aa_error a), av_created = at_created r, av_updated = at_updated r\<rparr>)"

definition action_view_of :: "operator_action stamped \<Rightarrow> exn + action_view" where
  "action_view_of r = (let a = at_row r in
     if (case oa_prior_no a of None \<Rightarrow> False | Some n \<Rightarrow> n < 1) then Inl ValidationError
     else Inr \<lparr>ov_id = oa_id a, ov_request = oa_request a, ov_report = strip (oa_report a), ov_delivery = oa_delivery a,
       ov_status = oa_status a, ov_confirmed = oa_confirmed a, ov_prior = strip (oa_prior_status a), ov_prior_no = oa_prior_no a,
       ov_result = map_option strip (oa_result_status a), ov_error = map_option strip (oa_error a), ov_created = at_created r,
       ov_updated = at_updated r\<rparr>)"

section \<open>The status of a date\<close>

datatype event_kind = Delivery_event | Alert_event

definition terminal_events :: "sent_view list \<Rightarrow> alert_view list \<Rightarrow> (instant \<times> event_kind \<times> attempt_status) list" where
  "terminal_events ds as = map (\<lambda>d. (dv_updated d, Delivery_event, dv_status d)) ds @ map (\<lambda>a. (av_updated a, Alert_event, av_status a)) as"

definition event_status :: "event_kind \<Rightarrow> attempt_status \<Rightarrow> workflow_status option" where
  "event_status k s = (if k = Delivery_event \<and> s = Succeeded then Some Was_delivered
     else if k = Alert_event \<and> s = Succeeded then Some Blocked_alerted
     else if s \<in> {Failed, Uncertain} then Some Attention_required
     else if k = Delivery_event \<and> s \<in> {Pending, Retry_wait} then Some Awaiting_delivery
     else None)"

definition progress_status :: "task_view list \<Rightarrow> snapshot_view list \<Rightarrow> generation_view list \<Rightarrow> report_view list \<Rightarrow> workflow_status" where
  "progress_status ts ss gs rs =
     (if rs \<noteq> [] \<and> pv_lifecycle (last rs) = Gen_failed then Attention_required
      else if rs \<noteq> [] \<and> pv_lifecycle (last rs) = Validated then Awaiting_delivery
      else if gs \<noteq> [] \<and> gv_lifecycle (last gs) = Gen_failed then Attention_required
      else if ss \<noteq> [] \<and> nv_status (last ss) \<in> {QBlocked, QRetryable} then Quality_blocked
      else if gs \<noteq> [] \<or> rs \<noteq> [] then Generating
      else if ss \<noteq> [] then Generating
      else if ts \<noteq> [] then Ingesting
      else Not_started)"

definition operational_status :: "task_view list \<Rightarrow> snapshot_view list \<Rightarrow> generation_view list \<Rightarrow> report_view list \<Rightarrow> sent_view list
    \<Rightarrow> alert_view list \<Rightarrow> workflow_status" where
  "operational_status ts ss gs rs ds as = (case terminal_events ds as of
     [] \<Rightarrow> progress_status ts ss gs rs
   | e # es \<Rightarrow> (case max_on fst e es of (_, kind, s) \<Rightarrow>
       (case event_status kind s of Some st \<Rightarrow> st | None \<Rightarrow> progress_status ts ss gs rs)))"

definition load_operations :: "(nat \<Rightarrow> operations_db) \<Rightarrow> date \<Rightarrow> exn + operations_status" where
  "load_operations db d =
     bindE (mapE task_view_of (task_rows d (db 0))) (\<lambda>ts. bindE (mapE snapshot_view_of (snapshot_rows d (db 1))) (\<lambda>ss.
     bindE (mapE generation_view_of (generation_rows d (db 2))) (\<lambda>gs. let rs = map report_view_of (report_rows d (db 3)) in
     bindE (mapE delivery_view_of (delivery_rows d (db 4))) (\<lambda>ds. bindE (mapE alert_view_of (alert_rows d (db 5))) (\<lambda>as.
     bindE (mapE action_view_of (action_rows d (db 6))) (\<lambda>os.
       let status = operational_status ts ss gs rs ds as;
           times = map tv_updated ts @ map nv_created ss @ map gv_updated gs @ map pv_created rs @ map dv_updated ds @ map av_updated as
             @ map ov_updated os in
       Inr \<lparr>os_date = d, os_status = status, os_attention = (status \<in> {Quality_blocked, Blocked_alerted, Attention_required}),
         os_tasks = ts, os_snapshots = ss, os_generations = gs, os_reports = rs, os_deliveries = ds, os_alerts = as, os_actions = os,
         os_updated = (case times of [] \<Rightarrow> None | t # us \<Rightarrow> Some (fold max us t))\<rparr>))))))"

section \<open>The readiness of the worker\<close>

definition filled :: "string option \<Rightarrow> bool" where
  "filled x \<longleftrightarrow> (case x of None \<Rightarrow> False | Some t \<Rightarrow> t \<noteq> [])"

definition workflow_tables :: "string list" where
  "workflow_tables = [''scheduled_task_checkpoints'', ''report_input_snapshots'', ''report_generation_attempts'', ''daily_reports'',
     ''delivery_attempts'', ''workflow_alert_attempts'', ''delivery_operator_actions'']"

text \<open>\<open>tables\<close> are the tables of the schema, or the error of the query.\<close>

definition schema_ready :: "exn + string list \<Rightarrow> bool" where
  "schema_ready tables = (case tables of Inl e \<Rightarrow> False | Inr ts \<Rightarrow> list_all (\<lambda>t. t \<in> set ts) workflow_tables)"

definition chats_are_distinct :: "settings \<Rightarrow> bool" where
  "chats_are_distinct s \<longleftrightarrow> filled (se_chat_id (se_feishu s)) \<and> filled (se_alert_chat s) \<and> se_chat_id (se_feishu s) \<noteq> se_alert_chat s"

definition readiness_checks :: "bool \<Rightarrow> exn + string list \<Rightarrow> settings \<Rightarrow> (string \<times> bool) list" where
  "readiness_checks database tables s = (let f = se_feishu s in
     [(''DATABASE_UNAVAILABLE'', database), (''WORKFLOW_SCHEMA_INCOMPLETE'', database \<and> schema_ready tables),
      (''PROVIDER_MODE_NOT_LIVE'', se_provider_mode s = Mode_live), (''US_PROVIDER_MODE_NOT_LIVE'', se_us_provider_mode s = Mode_live),
      (''US_PROVIDER_CREDENTIALS_MISSING'', filled (se_twelve_data_key s) \<and> filled (se_twelve_data_secret s)),
      (''FEISHU_DELIVERY_DISABLED'', se_enabled f), (''FEISHU_CREDENTIALS_MISSING'', filled (se_app_id f) \<and> filled (se_app_secret f)),
      (''FEISHU_DAILY_CHAT_MISSING'', filled (se_chat_id f)), (''FEISHU_ALERT_CHAT_MISSING'', filled (se_alert_chat s)),
      (''FEISHU_CHATS_NOT_DISTINCT'', chats_are_distinct s)])"

definition unmet_requirements :: "bool \<Rightarrow> exn + string list \<Rightarrow> settings \<Rightarrow> string list" where
  "unmet_requirements database tables s = map fst (filter (\<lambda>c. \<not> snd c) (readiness_checks database tables s))"

definition worker_ready :: "bool \<Rightarrow> exn + string list \<Rightarrow> settings \<Rightarrow> bool" where
  "worker_ready database tables s \<longleftrightarrow> unmet_requirements database tables s = []"


section \<open>The overview hides payloads\<close>

text \<open>Everything the overview has no business to show is erased: cards, targets, answers, prompts, parameters, reports, cursors, owners.\<close>

definition at_map :: "('r \<Rightarrow> 'r) \<Rightarrow> 'r stamped \<Rightarrow> 'r stamped" where
  "at_map f r = r\<lparr>at_row := f (at_row r)\<rparr>"

definition hide_task :: "checkpoint \<Rightarrow> checkpoint" where
  "hide_task c = c\<lparr>sc_as_of := 0, sc_cursor := None, sc_watermark := None, sc_epoch := 0, sc_owner := None\<rparr>"

definition hide_generation :: "generation_attempt \<Rightarrow> generation_attempt" where
  "hide_generation g = g\<lparr>ga_prompt := [], ga_parameters := [], ga_fingerprint := [], ga_sources := [], ga_response := None\<rparr>"

definition hide_issue :: "validation_issue \<Rightarrow> validation_issue" where
  "hide_issue i = i\<lparr>vi_message := [], vi_error := False, vi_input := None, vi_fact := None, vi_source := None\<rparr>"

definition hide_report :: "stored_report \<Rightarrow> stored_report" where
  "hide_report r = r\<lparr>sr_contract := [], sr_payload := [], sr_generation := None, sr_errors := map hide_issue (sr_errors r)\<rparr>"

definition hide_delivery :: "delivery_attempt \<Rightarrow> delivery_attempt" where
  "hide_delivery a = a\<lparr>da_target := [], da_key := [], da_request := JNull, da_response := None, da_message := None\<rparr>"

definition hide_alert :: "alert_attempt \<Rightarrow> alert_attempt" where
  "hide_alert a = a\<lparr>aa_target := [], aa_key := [], aa_request := JNull, aa_response := None, aa_message := None\<rparr>"

definition hidden :: "operations_db \<Rightarrow> operations_db" where
  "hidden db = db\<lparr>od_tasks := map (at_map hide_task) (od_tasks db), od_generations := map (at_map hide_generation) (od_generations db),
     od_reports := map (at_map hide_report) (od_reports db), od_deliveries := map (at_map hide_delivery) (od_deliveries db),
     od_alerts := map (at_map hide_alert) (od_alerts db)\<rparr>"

lemma mapE_map: "mapE f (map g xs) = mapE (\<lambda>x. f (g x)) xs"
  by (induction xs) simp_all

lemma at_map_simps [simp]: "at_row (at_map f r) = f (at_row r)" "at_created (at_map f r) = at_created r" "at_updated (at_map f r) = at_updated r"
  by (simp_all add: at_map_def)

lemma by_creation_map: "(\<And>r. key (f r) = key r) \<Longrightarrow> by_creation key (map (at_map f) rs) = map (at_map f) (by_creation key rs)"
  by (simp add: by_creation_def sort_key_map)

lemma joined_on_map:
  assumes "\<And>r s. on (f r) (g s) = on r s"
  shows "joined_on on (map (at_map f) rs) (map (at_map g) os) = map (at_map f) (joined_on on rs os)"
  by (induction rs) (simp_all add: joined_on_def filter_map o_def assms)

lemma joined_on_left:
  assumes "\<And>r s. on (f r) s = on r s"
  shows "joined_on on (map (at_map f) rs) os = map (at_map f) (joined_on on rs os)"
  by (induction rs) (simp_all add: joined_on_def o_def assms)

lemma joined_on_right:
  assumes "\<And>r s. on r (g s) = on r s"
  shows "joined_on on rs (map (at_map g) os) = joined_on on rs os"
  by (induction rs) (simp_all add: joined_on_def filter_map o_def assms)

lemma hidden_rows:
  "task_rows d (hidden db) = map (at_map hide_task) (task_rows d db)"
  "snapshot_rows d (hidden db) = snapshot_rows d db"
  "generation_rows d (hidden db) = map (at_map hide_generation) (generation_rows d db)"
  "report_rows d (hidden db) = map (at_map hide_report) (report_rows d db)"
  "delivery_rows d (hidden db) = map (at_map hide_delivery) (delivery_rows d db)"
  "alert_rows d (hidden db) = map (at_map hide_alert) (alert_rows d db)"
  "action_rows d (hidden db) = action_rows d db"
  by (simp_all add: task_rows_def snapshot_rows_def generation_rows_def report_rows_def delivery_rows_def alert_rows_def action_rows_def
      hidden_def sort_key_map filter_map o_def by_creation_map joined_on_map joined_on_left joined_on_right
      hide_task_def hide_generation_def hide_report_def hide_delivery_def hide_alert_def)

lemma hidden_views:
  "task_view_of (at_map hide_task t) = task_view_of t"
  "generation_view_of (at_map hide_generation g) = generation_view_of g"
  "map report_view_of (map (at_map hide_report) rs) = map report_view_of rs"
  "delivery_view_of (at_map hide_delivery a) = delivery_view_of a"
  "alert_view_of (at_map hide_alert b) = alert_view_of b"
  by (simp_all add: task_view_of_def generation_view_of_def report_view_of_def delivery_view_of_def alert_view_of_def Let_def
      hide_task_def hide_generation_def hide_report_def hide_issue_def hide_delivery_def hide_alert_def)

text \<open>C38: The overview of a date does not depend on anything it must not show: cards, chats, answers of the messenger and of the language
  model, prompts and their parameters, report payloads and messages of issues, cursors and owners of tasks.\<close>

theorem overview_hides_payloads: "load_operations (\<lambda>k. hidden (db k)) d = load_operations db d"
  unfolding load_operations_def hidden_rows mapE_map hidden_views by (rule refl)

section \<open>The status of the overview\<close>

lemma mapE_mem: "mapE f xs = Inr ys \<Longrightarrow> y \<in> set ys \<Longrightarrow> \<exists>x \<in> set xs. f x = Inr y"
  by (induction xs arbitrary: ys) (auto simp: bindE_eq_Inr)

lemma mapE_image: "mapE f xs = Inr ys \<Longrightarrow> x \<in> set xs \<Longrightarrow> \<exists>y \<in> set ys. f x = Inr y"
  by (induction xs arbitrary: ys) (auto simp: bindE_eq_Inr)

lemma mapE_Nil: "mapE f xs = Inr [] \<longleftrightarrow> xs = []"
  by (cases xs) (simp_all add: bindE_eq_Inr)

lemma joined_row: "r \<in> set (joined_on on rs os) \<longleftrightarrow> r \<in> set rs \<and> (\<exists>o' \<in> set os. on (at_row r) (at_row o'))"
  by (auto simp: joined_on_def)

lemma delivery_row: "r \<in> set (delivery_rows d db) \<longleftrightarrow> r \<in> set (od_deliveries db)
    \<and> (\<exists>p \<in> set (od_reports db). da_report (at_row r) = sr_id (at_row p) \<and> sr_date (at_row p) = d)"
  by (simp add: delivery_rows_def by_creation_def joined_row)

lemma alert_row: "r \<in> set (alert_rows d db) \<longleftrightarrow> r \<in> set (od_alerts db) \<and> aa_date (at_row r) = d"
  by (auto simp: alert_rows_def by_creation_def)

text \<open>Of two views of rows, the status and the time they take from the row.\<close>

lemma delivery_view_fields: "delivery_view_of r = Inr v \<Longrightarrow> dv_status v = da_status (at_row r) \<and> dv_updated v = at_updated r"
  by (auto simp: delivery_view_of_def Let_def split: if_splits)

lemma alert_view_fields: "alert_view_of r = Inr v \<Longrightarrow> av_status v = aa_status (at_row r) \<and> av_updated v = at_updated r"
  by (auto simp: alert_view_of_def Let_def split: if_splits)

lemma progress_is_not_terminal: "progress_status ts ss gs rs \<notin> {Was_delivered, Blocked_alerted}"
  by (simp add: progress_status_def)

lemma terminal_status:
  assumes "operational_status ts ss gs rs ds as = st" "st \<in> {Was_delivered, Blocked_alerted}"
  shows "\<exists>t. (t, (if st = Was_delivered then Delivery_event else Alert_event), Succeeded) \<in> set (terminal_events ds as)
    \<and> (\<forall>e \<in> set (terminal_events ds as). fst e \<le> t)"
proof (cases "terminal_events ds as")
  case Nil
  then show ?thesis using assms progress_is_not_terminal [of ts ss gs rs] by (auto simp: operational_status_def)
next
  case (Cons e es)
  obtain t k s where m: "max_on fst e es = (t, k, s)" by (cases "max_on fst e es") simp
  have "event_status k s = Some st"
    using assms m Cons progress_is_not_terminal [of ts ss gs rs] by (auto simp: operational_status_def split: option.splits)
  then have "(k, s) = (if st = Was_delivered then Delivery_event else Alert_event, Succeeded)"
    using assms(2) by (cases k; cases s) (auto simp: event_status_def)
  then show ?thesis using max_on_greatest [of fst e es] m unfolding Cons by (intro exI [of _ t]) auto
qed


text \<open>The parts of a loaded overview that decide its status.\<close>

lemma loaded:
  assumes "load_operations db d = Inr v"
  obtains ts ss gs ds as where "mapE task_view_of (task_rows d (db 0)) = Inr ts" "mapE snapshot_view_of (snapshot_rows d (db 1)) = Inr ss"
    "mapE generation_view_of (generation_rows d (db 2)) = Inr gs" "mapE delivery_view_of (delivery_rows d (db 4)) = Inr ds"
    "mapE alert_view_of (alert_rows d (db 5)) = Inr as"
    "os_status v = operational_status ts ss gs (map report_view_of (report_rows d (db 3))) ds as"
    "os_attention v \<longleftrightarrow> os_status v \<in> {Quality_blocked, Blocked_alerted, Attention_required}"
  using assms by (auto simp: load_operations_def Let_def bindE_eq_Inr)

lemma delivery_events: "mapE delivery_view_of dr = Inr ds \<Longrightarrow>
    map (\<lambda>v. (dv_updated v, Delivery_event, dv_status v)) ds = map (\<lambda>r. (at_updated r, Delivery_event, da_status (at_row r))) dr"
  by (induction dr arbitrary: ds) (auto simp: bindE_eq_Inr delivery_view_fields)

lemma alert_events: "mapE alert_view_of ar = Inr as \<Longrightarrow>
    map (\<lambda>v. (av_updated v, Alert_event, av_status v)) as = map (\<lambda>r. (at_updated r, Alert_event, aa_status (at_row r))) ar"
  by (induction ar arbitrary: as) (auto simp: bindE_eq_Inr alert_view_fields)

lemma event_of_row:
  assumes "mapE delivery_view_of dr = Inr ds" "mapE alert_view_of ar = Inr as"
  shows "set (terminal_events ds as) = (\<lambda>r. (at_updated r, Delivery_event, da_status (at_row r))) ` set dr
    \<union> (\<lambda>r. (at_updated r, Alert_event, aa_status (at_row r))) ` set ar"
  unfolding terminal_events_def delivery_events [OF assms(1)] alert_events [OF assms(2)] by simp

lemma latest_event_status:
  assumes "e \<in> set (terminal_events ds as)" "\<forall>x \<in> set (terminal_events ds as). x = e \<or> fst x < fst e"
    "event_status (fst (snd e)) (snd (snd e)) = Some st"
  shows "operational_status ts ss gs rs ds as = st"
proof (cases "terminal_events ds as")
  case (Cons x xs)
  have m: "max_on fst x xs \<in> set (terminal_events ds as)" "fst e \<le> fst (max_on fst x xs)"
    using max_on_greatest [of fst x xs] assms(1) unfolding Cons by blast+
  then have "max_on fst x xs = e" using assms(2) by fastforce
  then show ?thesis using assms(3) Cons by (cases e) (simp add: operational_status_def)
qed (use assms(1) in simp)

definition nothing_after :: "(nat \<Rightarrow> operations_db) \<Rightarrow> date \<Rightarrow> instant \<Rightarrow> bool" where
  "nothing_after db d t \<longleftrightarrow> (\<forall>r \<in> set (delivery_rows d (db 4)). at_updated r \<le> t) \<and> (\<forall>r \<in> set (alert_rows d (db 5)). at_updated r \<le> t)"

text \<open>The rows whose change is the last one of the date.\<close>

definition last_delivery :: "(nat \<Rightarrow> operations_db) \<Rightarrow> date \<Rightarrow> delivery_attempt stamped \<Rightarrow> bool" where
  "last_delivery db d r \<longleftrightarrow> r \<in> set (delivery_rows d (db 4)) \<and> (\<forall>x \<in> set (delivery_rows d (db 4)). x = r \<or> at_updated x < at_updated r)
     \<and> (\<forall>x \<in> set (alert_rows d (db 5)). at_updated x < at_updated r)"

text \<open>C39: The overview calls a date delivered, or blocked with an alert, only if a delivery of a report of the date, or an alert, was
  accepted and no delivery or alert of the date has changed since; and when the last change is a delivery, an accepted one is shown as
  delivered, a failed or uncertain one asks for the operator, and a pending one is awaited.\<close>

theorem status_follows_last_change:
  assumes "load_operations db d = Inr v"
  shows "(os_status v = Was_delivered \<longrightarrow> (\<exists>r \<in> set (delivery_rows d (db 4)). da_status (at_row r) = Succeeded \<and> nothing_after db d (at_updated r)))
    \<and> (os_status v = Blocked_alerted \<longrightarrow> (\<exists>r \<in> set (alert_rows d (db 5)). aa_status (at_row r) = Succeeded \<and> nothing_after db d (at_updated r)))
    \<and> (\<forall>r. last_delivery db d r \<longrightarrow> os_status v = (case da_status (at_row r) of Succeeded \<Rightarrow> Was_delivered | Failed \<Rightarrow> Attention_required
         | Uncertain \<Rightarrow> Attention_required | _ \<Rightarrow> Awaiting_delivery))
    \<and> (os_attention v \<longleftrightarrow> os_status v \<in> {Quality_blocked, Blocked_alerted, Attention_required})"
proof -
  obtain ts ss gs ds as where parts: "mapE delivery_view_of (delivery_rows d (db 4)) = Inr ds" "mapE alert_view_of (alert_rows d (db 5)) = Inr as"
    and st: "os_status v = operational_status ts ss gs (map report_view_of (report_rows d (db 3))) ds as"
    and attention: "os_attention v \<longleftrightarrow> os_status v \<in> {Quality_blocked, Blocked_alerted, Attention_required}"
    using assms by (rule loaded)
  note row = event_of_row [OF parts]
  have after: "nothing_after db d t" if "\<forall>e \<in> set (terminal_events ds as). fst e \<le> t" for t
    using that by (simp add: nothing_after_def row ball_Un)
  have "\<exists>r \<in> set (delivery_rows d (db 4)). da_status (at_row r) = Succeeded \<and> nothing_after db d (at_updated r)" if won: "os_status v = Was_delivered"
  proof -
    obtain t where t: "(t, Delivery_event, Succeeded) \<in> set (terminal_events ds as)" "\<forall>e \<in> set (terminal_events ds as). fst e \<le> t"
      using terminal_status [OF st [symmetric]] won by auto
    from t(1) show ?thesis using after [OF t(2)] by (auto simp: row eq_commute [of Succeeded])
  qed
  moreover have "\<exists>r \<in> set (alert_rows d (db 5)). aa_status (at_row r) = Succeeded \<and> nothing_after db d (at_updated r)" if won: "os_status v = Blocked_alerted"
  proof -
    obtain t where t: "(t, Alert_event, Succeeded) \<in> set (terminal_events ds as)" "\<forall>e \<in> set (terminal_events ds as). fst e \<le> t"
      using terminal_status [OF st [symmetric]] won by auto
    from t(1) show ?thesis using after [OF t(2)] by (auto simp: row eq_commute [of Succeeded])
  qed
  moreover have "os_status v = (case da_status (at_row r) of Succeeded \<Rightarrow> Was_delivered | Failed \<Rightarrow> Attention_required
         | Uncertain \<Rightarrow> Attention_required | _ \<Rightarrow> Awaiting_delivery)" if "last_delivery db d r" for r
    unfolding st
  proof (rule latest_event_status [of "(at_updated r, Delivery_event, da_status (at_row r))"])
    show "(at_updated r, Delivery_event, da_status (at_row r)) \<in> set (terminal_events ds as)"
      using that row by (auto simp: last_delivery_def)
    show "\<forall>x \<in> set (terminal_events ds as). x = (at_updated r, Delivery_event, da_status (at_row r))
        \<or> fst x < fst (at_updated r, Delivery_event, da_status (at_row r))"
      using that row by (auto simp: last_delivery_def)
    show "event_status (fst (snd (at_updated r, Delivery_event, da_status (at_row r)))) (snd (snd (at_updated r, Delivery_event, da_status (at_row r))))
        = Some (case da_status (at_row r) of Succeeded \<Rightarrow> Was_delivered | Failed \<Rightarrow> Attention_required | Uncertain \<Rightarrow> Attention_required
            | _ \<Rightarrow> Awaiting_delivery)"
      by (cases "da_status (at_row r)") (simp_all add: event_status_def)
  qed
  ultimately show ?thesis using attention by blast
qed

section \<open>A ready worker\<close>

lemma ready_iff: "worker_ready database tables s \<longleftrightarrow> list_all snd (readiness_checks database tables s)"
  by (simp add: worker_ready_def unmet_requirements_def filter_empty_conv list_all_iff)

lemma generation_service_built: "0 < timeout \<Longrightarrow> 1 \<le> attempts
    \<Longrightarrow> \<exists>g. build_generation_service llm c now fresh timeout attempts = Inr g"
  by (auto simp: build_generation_service_def make_generation_service_def Let_def split: option.split)

text \<open>C40: With settings the validator accepts, a worker that reports ready can build its workflow exactly if the chat of the alerts and
  the name of the model are more than white space, which neither the validator nor the readiness check looks at.\<close>

theorem ready_worker_builds_its_workflow:
  assumes "make_settings zones s = Inr s" "worker_ready database tables s"
  shows "(\<exists>f. resolve_workflow p s z no_arguments = Inr (Some f)) \<longleftrightarrow> \<not> blank (se_alert_chat s) \<and> strip (se_model s) \<noteq> []"
proof -
  note ok = make_settings_Inr [OF assms(1)]
  let ?f = "se_feishu s"
  obtain app secret chat alert where fields: "se_app_id ?f = Some app" "se_app_secret ?f = Some secret" "se_chat_id ?f = Some chat"
      "se_alert_chat s = Some alert" "chat \<noteq> alert" and enabled: "se_enabled ?f"
    using assms(2) by (auto simp: ready_iff readiness_checks_def Let_def filled_def chats_are_distinct_def split: option.splits)
  have strips: "strip app \<noteq> []" "strip secret \<noteq> []" "starts_with ''https://'' (se_base_url ?f)" "se_max_attempts ?f \<le> se_max_total ?f"
    using ok enabled fields by (auto simp: feishu_settings_ok_def blank_def)
  have ranges: "0 < se_model_timeout s" "1 \<le> se_model_attempts s" "0 < se_timeout ?f" "1 \<le> se_max_attempts ?f"
      "0 \<le> se_publish_hour s" "se_publish_hour s \<le> 23" "0 \<le> se_publish_minute s" "se_publish_minute s \<le> 59" "report_version_ok (se_report_version s)"
    using ok by (simp_all add: fields_in_range_def within_def)
  obtain g where g: "build_generation_service (sp_llm p) (sp_contract p) (tp_now p) (tp_fresh p) (se_model_timeout s) (se_model_attempts s) = Inr g"
    using generation_service_built [OF ranges(1,2)] by blast
  have "alert_chat_ok s" using fields by (simp add: alert_chat_ok_def)
  then have "resolve_workflow p s z no_arguments = bindE (build_workflow p s z (se_report_version s)) (\<lambda>f. Inr (Some f))"
    using enabled by (simp add: resolve_workflow_def no_arguments_def)
  moreover have "(\<exists>f. build_workflow p s z (se_report_version s) = Inr f) \<longleftrightarrow> strip alert \<noteq> [] \<and> strip (se_model s) \<noteq> []"
    using g enabled fields strips ranges
    by (simp add: build_workflow_def configure_delivery_def configure_alerts_def make_transport_def make_service_def make_alert_service_def
        feishu_service_def us_defs make_daily_workflow_def workflow_of_def Let_def bindE_eq_Inr)
  ultimately show ?thesis using fields by (auto simp: bindE_eq_Inr blank_def)
qed


section \<open>A day that was delivered, and a ready worker\<close>

definition at_time :: "instant \<Rightarrow> instant \<Rightarrow> 'r \<Rightarrow> 'r stamped" where
  "at_time created updated r = \<lparr>at_row = r, at_created = created, at_updated = updated\<rparr>"

definition delivered_day :: operations_db where
  "delivered_day = \<lparr>od_tasks = [], od_snapshots = [], od_generations = [],
     od_reports = [at_time 10 10 (demo_report\<lparr>sr_date := 5\<rparr>)],
     od_deliveries = [at_time 20 40 ((demo_row Succeeded)\<lparr>da_report := sr_id demo_report, da_no := 2, da_status := Succeeded\<rparr>)],
     od_alerts = [at_time 25 30 ((demo_alert_row ''a1'' Succeeded)\<lparr>aa_date := 5, aa_no := 1, aa_status := Succeeded\<rparr>)], od_actions = []\<rparr>"

lemma delivered_day_rows:
  "task_rows 5 delivered_day = []" "snapshot_rows 5 delivered_day = []" "generation_rows 5 delivered_day = []" "action_rows 5 delivered_day = []"
  "delivery_rows 5 delivered_day = [at_time 20 40 ((demo_row Succeeded)\<lparr>da_report := sr_id demo_report, da_no := 2, da_status := Succeeded\<rparr>)]"
  "alert_rows 5 delivered_day = [at_time 25 30 ((demo_alert_row ''a1'' Succeeded)\<lparr>aa_date := 5, aa_no := 1, aa_status := Succeeded\<rparr>)]"
  by (simp_all add: delivered_day_def task_rows_def snapshot_rows_def generation_rows_def action_rows_def delivery_rows_def alert_rows_def
      by_creation_def joined_on_def at_time_def)

theorem status_follows_last_change_witness:
  "\<exists>v. load_operations (\<lambda>_. delivered_day) 5 = Inr v \<and> os_status v = Was_delivered \<and> \<not> os_attention v"
proof -
  have "\<exists>v. load_operations (\<lambda>_. delivered_day) 5 = Inr v"
    by (simp add: load_operations_def delivered_day_rows delivery_view_of_def alert_view_of_def at_time_def Let_def)
  then obtain v where v: "load_operations (\<lambda>_. delivered_day) 5 = Inr v" ..
  have "last_delivery (\<lambda>_. delivered_day) 5 (at_time 20 40 ((demo_row Succeeded)\<lparr>da_report := sr_id demo_report, da_no := 2, da_status := Succeeded\<rparr>))"
    by (simp add: last_delivery_def delivered_day_rows) (simp add: at_time_def)
  with status_follows_last_change [OF v] have "os_status v = Was_delivered \<and> \<not> os_attention v" by (fastforce simp: at_time_def)
  then show ?thesis using v by blast
qed

definition ready_settings :: settings where
  "ready_settings = demo_settings\<lparr>se_feishu := (se_feishu demo_settings)\<lparr>se_enabled := True, se_app_id := Some ''app'', se_app_secret := Some ''secret'',
     se_chat_id := Some ''daily''\<rparr>, se_alert_chat := Some ''alerts''\<rparr>"

lemma ready_settings_accepted: "make_settings (\<lambda>_. Inr (fixed_zone (8 * hour_us))) ready_settings = Inr ready_settings"
  by code_simp

theorem ready_worker_builds_its_workflow_witness:
  "\<exists>f. resolve_workflow demo_scheduler_ports ready_settings (fixed_zone (8 * hour_us)) no_arguments = Inr (Some f)"
proof -
  have "worker_ready True (Inr workflow_tables) ready_settings" by code_simp
  moreover have "\<not> blank (se_alert_chat ready_settings) \<and> strip (se_model ready_settings) \<noteq> []" by code_simp
  ultimately show ?thesis using ready_worker_builds_its_workflow [OF ready_settings_accepted] by blast
qed

end
