(* ===== verification/Symbol_Normalization.thy ===== *)
theory Symbol_Normalization
  imports Report_Day_Policy
begin

text \<open>
  The symbols of instruments: \<open>normalization/cn_hk\<close> and \<open>normalization/us/symbols.py\<close>. A source symbol becomes
  a canonical symbol, the exchange and the local symbol; an alias registry maps it to an instrument on a date. Symbols
  are ASCII texts; the digest of an identifier is the parameter \<open>digest\<close>, the bytes of its SHA-256. What is shown:
  canonical symbols are fixed points, an alias resolves to the symbol that was asked for and to one instrument, and a
  validated registry is never ambiguous.
\<close>

section \<open>Texts\<close>

definition has_suffix :: "string \<Rightarrow> string \<Rightarrow> bool" where
  "has_suffix p s \<longleftrightarrow> starts_with (rev p) (rev s)"

definition is_decimal :: "string \<Rightarrow> bool" where
  "is_decimal s \<longleftrightarrow> s \<noteq> [] \<and> list_all is_digit s"

text \<open>\<open>s.partition(":")\<close> on a text with a colon.\<close>

definition before_colon :: "string \<Rightarrow> string" where
  "before_colon s = takeWhile (\<lambda>c. c \<noteq> CHR '':'') s"

definition after_colon :: "string \<Rightarrow> string" where
  "after_colon s = tl (dropWhile (\<lambda>c. c \<noteq> CHR '':'') s)"

text \<open>Base 32 without padding, in lower case.\<close>

definition byte_bits :: "nat \<Rightarrow> bool list" where
  "byte_bits n = map (\<lambda>i. n div 2 ^ (7 - i) mod 2 = 1) [0..<8]"

definition bits_value :: "bool list \<Rightarrow> nat" where
  "bits_value bs = foldl (\<lambda>n b. 2 * n + (if b then 1 else 0)) 0 bs"

fun base32_digits :: "bool list \<Rightarrow> string" where
  "base32_digits [] = []"
| "base32_digits (b # bs) = ''abcdefghijklmnopqrstuvwxyz234567'' ! bits_value (take 5 (b # bs @ replicate 4 False)) # base32_digits (drop 4 bs)"

definition base32 :: "nat list \<Rightarrow> string" where
  "base32 bytes = base32_digits (concat (map byte_bits bytes))"

section \<open>Symbols of China and Hong Kong\<close>

datatype mapping_error = Symbol_mapping | Time_mapping | Trading_calendar_mapping | Unit_mapping

record alias_period =
  ap_key :: string
  ap_provider :: string
  ap_source :: string
  ap_canonical :: string
  ap_from :: date
  ap_to :: "date option"

record alias_entry =
  ae_key :: string
  ae_provider :: string
  ae_source :: string
  ae_venue :: string
  ae_from :: date
  ae_to :: "date option"

record instrument_symbol =
  sy_id :: string
  sy_key :: string
  sy_canonical :: string
  sy_region :: region
  sy_venue :: string
  sy_local :: string
  sy_timezone :: string
  sy_aliases :: "alias_period list"

definition cn_venues :: "string list" where
  "cn_venues = [''XSHG'', ''XSHE'']"

definition hk_venues :: "string list" where
  "hk_venues = [''XHKG'']"

definition normalize_cn_symbol :: "string \<Rightarrow> string \<Rightarrow> mapping_error + string" where
  "normalize_cn_symbol venue s = (if venue \<notin> set cn_venues then Inl Symbol_mapping
     else if \<not> (length s = 6 \<and> is_decimal s) then Inl Symbol_mapping else Inr s)"

definition normalize_hk_symbol :: "string \<Rightarrow> string \<Rightarrow> mapping_error + string" where
  "normalize_hk_symbol venue s = (if venue \<notin> set hk_venues then Inl Symbol_mapping
     else if \<not> (1 \<le> length s \<and> length s \<le> 5 \<and> is_decimal s) then Inl Symbol_mapping else Inr (pad0 5 s))"

definition normalize_symbol_for_region :: "region \<Rightarrow> string \<Rightarrow> string \<Rightarrow> mapping_error + string" where
  "normalize_symbol_for_region r venue s = (if r = CN then normalize_cn_symbol venue s
     else if r = HK then normalize_hk_symbol venue s else Inl Symbol_mapping)"

definition timezone_of :: "region \<Rightarrow> mapping_error + string" where
  "timezone_of r = (if r = CN then Inr ''Asia/Shanghai'' else if r = HK then Inr ''Asia/Hong_Kong'' else Inl Time_mapping)"

definition instrument_id :: "(string \<Rightarrow> nat list) \<Rightarrow> region \<Rightarrow> string \<Rightarrow> string" where
  "instrument_id digest r key = ''ins_'' @ take 26 (base32 (digest (region_value r @ ''|'' @ key)))"

definition split_prefixed_symbol :: "string \<Rightarrow> string option \<times> string" where
  "split_prefixed_symbol s = (let u = upper s; n = length u in
     if CHR '':'' \<in> set u then (Some (before_colon u), after_colon u)
     else if starts_with ''SH'' u \<and> n = 8 then (Some ''XSHG'', drop 2 u)
     else if starts_with ''SZ'' u \<and> n = 8 then (Some ''XSHE'', drop 2 u)
     else if has_suffix ''.SH'' u \<or> has_suffix ''.SS'' u then (Some ''XSHG'', take (n - 3) u)
     else if has_suffix ''.SZ'' u then (Some ''XSHE'', take (n - 3) u)
     else if has_suffix ''.HK'' u then (Some ''XHKG'', take (n - 3) u)
     else (None, s))"

text \<open>The venue and the symbol of a request: a prefix in the symbol must agree with the venue that is given.\<close>

definition venue_and_symbol :: "string \<Rightarrow> string \<Rightarrow> mapping_error + string \<times> string" where
  "venue_and_symbol venue_mic local_symbol = (let venue = upper (strip venue_mic); symbol = strip local_symbol in
     case split_prefixed_symbol symbol of
       (None, _) \<Rightarrow> Inr (venue, symbol)
     | (Some v, s) \<Rightarrow> if venue \<noteq> [] \<and> venue \<noteq> v then Inl Symbol_mapping else Inr (v, s))"

definition normalize_instrument_symbol :: "(string \<Rightarrow> nat list) \<Rightarrow> region \<Rightarrow> string \<Rightarrow> string \<Rightarrow> date \<Rightarrow> date option \<Rightarrow> string \<Rightarrow> string
    \<Rightarrow> mapping_error + instrument_symbol" where
  "normalize_instrument_symbol digest r venue_mic local_symbol valid_from valid_to provider_id instrument_key =
     (let provider = strip provider_id; key = strip instrument_key in
      if provider = [] \<or> key = [] then Inl Symbol_mapping
      else if (case valid_to of None \<Rightarrow> False | Some t \<Rightarrow> t \<le> valid_from) then Inl Symbol_mapping
      else bindE (venue_and_symbol venue_mic local_symbol) (\<lambda>(venue, symbol).
        bindE (normalize_symbol_for_region r venue symbol) (\<lambda>s.
        bindE (timezone_of r) (\<lambda>tz.
          let canonical = venue @ '':'' @ s in
          Inr \<lparr>sy_id = instrument_id digest r key, sy_key = key, sy_canonical = canonical, sy_region = r, sy_venue = venue, sy_local = s,
            sy_timezone = tz, sy_aliases = [\<lparr>ap_key = key, ap_provider = provider, ap_source = strip local_symbol,
              ap_canonical = canonical, ap_from = valid_from, ap_to = valid_to\<rparr>]\<rparr>))))"

definition alias_matches :: "region \<Rightarrow> alias_entry \<Rightarrow> string \<Rightarrow> string \<Rightarrow> bool" where
  "alias_matches r e venue symbol = (case split_prefixed_symbol (ae_source e) of (v, s) \<Rightarrow>
     let candidate = (case v of Some x \<Rightarrow> if x = [] then upper (strip (ae_venue e)) else x | None \<Rightarrow> upper (strip (ae_venue e))) in
     candidate = venue \<and> normalize_symbol_for_region r candidate s = Inr symbol)"

definition alias_active :: "alias_entry \<Rightarrow> date \<Rightarrow> bool" where
  "alias_active e d \<longleftrightarrow> ae_from e \<le> d \<and> (case ae_to e of None \<Rightarrow> True | Some t \<Rightarrow> d < t)"

definition resolve_instrument_alias :: "(string \<Rightarrow> nat list) \<Rightarrow> region \<Rightarrow> string \<Rightarrow> string \<Rightarrow> date \<Rightarrow> string \<Rightarrow> alias_entry list \<Rightarrow> bool
    \<Rightarrow> mapping_error + instrument_symbol" where
  "resolve_instrument_alias digest r venue_mic local_symbol as_of provider_id aliases include_inactive =
     (let provider = strip provider_id in
      if provider = [] then Inl Symbol_mapping
      else bindE (venue_and_symbol venue_mic local_symbol) (\<lambda>(venue, symbol).
        bindE (normalize_symbol_for_region r venue symbol) (\<lambda>requested.
          let matching = filter (\<lambda>e. strip (ae_provider e) = provider \<and> alias_matches r e venue requested) aliases;
              active = filter (\<lambda>e. alias_active e as_of) matching;
              candidates = (if active \<noteq> [] then active else if include_inactive then matching else []) in
          if candidates = [] then Inl Symbol_mapping
          else if length (remdups (map ae_key candidates)) \<noteq> 1 then Inl Symbol_mapping
          else let e = hd candidates in
            normalize_instrument_symbol digest r (ae_venue e) (ae_source e) (ae_from e) (ae_to e) provider (ae_key e))))"


section \<open>Times and trading days\<close>

record normalized_timestamp =
  nt_utc :: instant
  nt_local :: int
  nt_date :: date
  nt_timezone :: string

text \<open>A timestamp without an offset is None; \<open>zones\<close> are the zones by name.\<close>

definition normalize_timestamp :: "(string \<Rightarrow> zone) \<Rightarrow> region \<Rightarrow> instant option \<Rightarrow> date option \<Rightarrow> mapping_error + normalized_timestamp" where
  "normalize_timestamp zones r value trading_date = bindE (timezone_of r) (\<lambda>tz. case value of
     None \<Rightarrow> Inl Time_mapping
   | Some t \<Rightarrow> let w = to_wall (zones tz) t in
       Inr \<lparr>nt_utc = t, nt_local = w, nt_date = (case trading_date of Some d \<Rightarrow> d | None \<Rightarrow> wall_date w), nt_timezone = tz\<rparr>)"

definition local_session_datetime :: "(string \<Rightarrow> zone) \<Rightarrow> region \<Rightarrow> date \<Rightarrow> int \<Rightarrow> mapping_error + instant" where
  "local_session_datetime zones r d t = bindE (timezone_of r) (\<lambda>tz. Inr (of_wall (zones tz) (combine d t)))"

definition is_trading_day :: "region \<Rightarrow> date \<Rightarrow> date list \<Rightarrow> mapping_error + bool" where
  "is_trading_day r d holidays = bindE (timezone_of r) (\<lambda>_. Inr (weekday d < 5 \<and> d \<notin> set holidays))"

text \<open>A date is itself, a timestamp is read in the zone of the region.\<close>

definition normalize_trading_date :: "(string \<Rightarrow> zone) \<Rightarrow> region \<Rightarrow> date + instant option \<Rightarrow> date list \<Rightarrow> mapping_error + date" where
  "normalize_trading_date zones r value holidays =
     bindE (case value of Inl d \<Rightarrow> Inr d | Inr t \<Rightarrow> bindE (normalize_timestamp zones r t None) (\<lambda>n. Inr (nt_date n))) (\<lambda>d.
       bindE (is_trading_day r d holidays) (\<lambda>ok. if ok then Inr d else Inl Trading_calendar_mapping))"

lemma trading_date_is_open: "normalize_trading_date zones r value holidays = Inr d \<Longrightarrow> weekday d < 5 \<and> d \<notin> set holidays \<and> r \<in> {CN, HK}"
  by (auto simp: normalize_trading_date_def is_trading_day_def timezone_of_def bindE_eq_Inr split: if_splits)

section \<open>Canonical symbols\<close>

lemma of_char_bound: "(of_char c :: nat) < 256"
  by (cases c) simp

lemma to_upper_idem [simp]: "to_upper (to_upper c) = to_upper c"
proof (cases "is_lower c")
  case True
  then have n: "97 \<le> (of_char c :: nat)" "(of_char c :: nat) \<le> 122" by (simp_all add: is_lower_def)
  then have "(of_char (char_of ((of_char c :: nat) - 32) :: char) :: nat) = of_char c - 32" by (simp add: of_char_of)
  then have "\<not> is_lower (char_of ((of_char c :: nat) - 32))" using n by (simp add: is_lower_def)
  then show ?thesis using True by (simp add: to_upper_def)
qed (simp add: to_upper_def)

lemma upper_idem [simp]: "upper (upper s) = upper s"
  by (simp add: upper_def o_def)

lemma digit_char: "is_digit c \<Longrightarrow> to_upper c = c \<and> \<not> is_space c \<and> c \<noteq> CHR '':''"
  by (auto simp: is_digit_def to_upper_def is_lower_def is_space_def Let_def)

lemma space_upper: "is_space (to_upper c) = is_space c"
proof (cases "is_lower c")
  case True
  then have n: "97 \<le> (of_char c :: nat)" "(of_char c :: nat) \<le> 122" by (simp_all add: is_lower_def)
  then have "(of_char (char_of ((of_char c :: nat) - 32) :: char) :: nat) = of_char c - 32" by (simp add: of_char_of)
  then show ?thesis using True n by (simp add: to_upper_def is_space_def Let_def) arith
qed (simp add: to_upper_def)

lemma upper_digits: "is_decimal s \<Longrightarrow> upper s = s"
  by (auto simp: is_decimal_def upper_def list_all_iff digit_char intro!: map_idI)

lemma plain_strip:
  assumes "s \<noteq> []" "\<not> is_space (hd s)" "\<not> is_space (last s)"
  shows "strip s = s"
proof -
  have "dropWhile is_space s = s" using assms by (cases s) simp_all
  moreover have "dropWhile is_space (rev s) = rev s" using assms by (cases s rule: rev_cases) simp_all
  ultimately show ?thesis by (simp add: strip_def)
qed

lemma strip_empty [simp]: "strip [] = []" "upper [] = []"
  by (simp_all add: strip_def upper_def)

lemma dropWhile_hd: "dropWhile P s \<noteq> [] \<Longrightarrow> \<not> P (hd (dropWhile P s))"
  by (induction s) auto

lemma last_dropWhile: "dropWhile P s \<noteq> [] \<Longrightarrow> last (dropWhile P s) = last s"
  by (induction s) auto

lemma strip_ends: "strip s \<noteq> [] \<Longrightarrow> \<not> is_space (hd (strip s)) \<and> \<not> is_space (last (strip s))"
proof -
  assume ne: "strip s \<noteq> []"
  let ?d = "dropWhile is_space s" and ?e = "dropWhile is_space (rev (dropWhile is_space s))"
  have e1: "?e \<noteq> []" using ne unfolding strip_def by blast
  have e2: "?d \<noteq> []"
  proof
    assume d: "?d = []"
    have "?e = []" unfolding d by simp
    with e1 show False by blast
  qed
  note e = e1 e2
  have "last (strip s) = hd ?e" unfolding strip_def by (rule last_rev)
  moreover have "hd (strip s) = last ?e" unfolding strip_def by (rule hd_rev)
  moreover have "last ?e = hd ?d" using last_dropWhile [OF e1] last_rev [of ?d] by simp
  ultimately show ?thesis using dropWhile_hd [OF e(1)] dropWhile_hd [OF e(2)] by simp
qed

lemma strip_idem [simp]: "strip (strip s) = strip s"
  using strip_ends [of s] plain_strip [of "strip s"] by (cases "strip s = []") simp_all

lemma pad0_digits: "is_decimal s \<Longrightarrow> length s \<le> n \<Longrightarrow> is_decimal (pad0 n s) \<and> length (pad0 n s) = n"
  by (auto simp: is_decimal_def pad0_def list_all_iff is_digit_def)

lemma pad0_full [simp]: "length s = n \<Longrightarrow> pad0 n s = s"
  by (simp add: pad0_def)

text \<open>A normalized symbol is digits of a known venue, and normalizing it again changes nothing.\<close>

lemma normalized_symbol:
  assumes "normalize_symbol_for_region r v s = Inr t"
  shows "v \<in> set cn_venues \<union> set hk_venues" "is_decimal s" "is_decimal t" "normalize_symbol_for_region r v t = Inr t" "r \<in> {CN, HK}"
  using assms pad0_digits [of s 5]
  by (auto simp: normalize_symbol_for_region_def normalize_cn_symbol_def normalize_hk_symbol_def split: if_splits)

lemma venue_text: "v \<in> set cn_venues \<union> set hk_venues \<Longrightarrow> upper v = v \<and> v \<noteq> [] \<and> CHR '':'' \<notin> set v \<and> \<not> is_space (hd v) \<and> strip v = v"
proof -
  have "\<forall>v \<in> set (cn_venues @ hk_venues). upper v = v \<and> v \<noteq> [] \<and> CHR '':'' \<notin> set v \<and> \<not> is_space (hd v) \<and> strip v = v" by code_simp
  then show "v \<in> set cn_venues \<union> set hk_venues \<Longrightarrow> ?thesis" by simp
qed

lemma digits_last: "is_decimal s \<Longrightarrow> \<not> is_space (last s) \<and> \<not> is_space (hd s)"
  by (auto simp: is_decimal_def list_all_iff digit_char)

lemma canonical_split:
  assumes v: "v \<in> set cn_venues \<union> set hk_venues" and t: "is_decimal t"
  shows "strip (v @ '':'' @ t) = v @ '':'' @ t" "split_prefixed_symbol (v @ '':'' @ t) = (Some v, t)"
proof -
  note x = venue_text [OF v]
  show "strip (v @ '':'' @ t) = v @ '':'' @ t"
    using x digits_last [OF t] t by (intro plain_strip) (auto simp: is_decimal_def)
  have "upper (v @ '':'' @ t) = v @ '':'' @ t" using x upper_digits [OF t] by (simp add: upper_def to_upper_def is_lower_def)
  moreover have "before_colon (v @ '':'' @ t) = v" "after_colon (v @ '':'' @ t) = t"
    using x by (auto simp: before_colon_def after_colon_def takeWhile_append dropWhile_append)
  ultimately show "split_prefixed_symbol (v @ '':'' @ t) = (Some v, t)" by (simp add: split_prefixed_symbol_def)
qed

lemma normalize_instrument_symbol_Inr:
  assumes "normalize_instrument_symbol digest r vm ls f t p k = Inr n"
  obtains v s u where "venue_and_symbol vm ls = Inr (v, s)" "normalize_symbol_for_region r v s = Inr u" "sy_venue n = v" "sy_local n = u"
    "sy_canonical n = v @ '':'' @ u" "sy_key n = strip k" "sy_id n = instrument_id digest r (strip k)" "sy_region n = r"
    "ap_source (hd (sy_aliases n)) = strip ls"
  using assms by (auto simp: normalize_instrument_symbol_def bindE_eq_Inr Let_def split: if_splits)

text \<open>C35: A canonical symbol is a fixed point of the normalization: given back as the source symbol, without or with its exchange, it
  names the same instrument with the same canonical symbol; only the source of the alias differs.\<close>

theorem canonical_symbol_is_fixed_point:
  assumes "normalize_instrument_symbol digest r venue_mic local_symbol valid_from valid_to provider_id key = Inr n" "vm \<in> {[], sy_venue n}"
  shows "normalize_instrument_symbol digest r vm (sy_canonical n) valid_from valid_to provider_id key
    = Inr (n\<lparr>sy_aliases := [(hd (sy_aliases n))\<lparr>ap_source := sy_canonical n\<rparr>]\<rparr>)"
proof -
  obtain v s u where x: "normalize_symbol_for_region r v s = Inr u" "sy_venue n = v" "sy_canonical n = v @ '':'' @ u"
    using assms(1) by (rule normalize_instrument_symbol_Inr)
  note norm = normalized_symbol [OF x(1)]
  have "venue_and_symbol vm (sy_canonical n) = Inr (v, u)"
    using assms(2) canonical_split [OF norm(1,3)] venue_text [OF norm(1)] x by (auto simp: venue_and_symbol_def Let_def)
  then show ?thesis
    using assms(1) x norm(4) canonical_split(1) [OF norm(1,3)]
    by (auto simp: normalize_instrument_symbol_def bindE_eq_Inr Let_def split: if_splits)
qed


section \<open>Aliases\<close>

lemma has_suffix_iff: "has_suffix p s \<longleftrightarrow> (\<exists>r. s = r @ p)"
proof -
  have "has_suffix p s \<longleftrightarrow> (\<exists>r. rev s = rev p @ r)" by (simp add: has_suffix_def starts_with_iff)
  also have "\<dots> \<longleftrightarrow> (\<exists>r. s = r @ p)" by (metis rev_append rev_rev_ident)
  finally show ?thesis .
qed

lemma colon_split: "CHR '':'' \<in> set s \<Longrightarrow> s = before_colon s @ '':'' @ after_colon s"
  by (induction s) (auto simp: before_colon_def after_colon_def)

text \<open>A source symbol that splits into digits and a known venue has no white space around it.\<close>

lemma strip_source:
  assumes split: "split_prefixed_symbol src = (v, s)" and s: "is_decimal s"
    and v: "case v of None \<Rightarrow> True | Some x \<Rightarrow> x = [] \<or> x \<in> set cn_venues \<union> set hk_venues"
  shows "strip src = src"
proof -
  let ?u = "upper src"
  have ends: "\<not> is_space (last s)" "\<not> is_space (hd s)" "s \<noteq> []" using digits_last [OF s] s by (simp_all add: is_decimal_def)
  have "?u \<noteq> [] \<and> \<not> is_space (hd ?u) \<and> \<not> is_space (last ?u) \<or> src = s"
  proof (cases "CHR '':'' \<in> set ?u")
    case True
    then have x: "v = Some (before_colon ?u)" "s = after_colon ?u" using split by (simp_all add: split_prefixed_symbol_def Let_def)
    have u: "?u = before_colon ?u @ '':'' @ s" using colon_split [OF True] by (simp add: x(2))
    have "last ?u = last s" "?u \<noteq> []" using ends(3) by (subst u, simp)+
    moreover have "\<not> is_space (hd ?u)"
    proof (cases "before_colon ?u = []")
      case True
      then have "hd ?u = CHR '':''" by (subst u) simp
      then show ?thesis by (simp add: is_space_def)
    next
      case False
      then have "hd ?u = hd (before_colon ?u)" by (subst u) simp
      moreover have "before_colon ?u \<in> set cn_venues \<union> set hk_venues" using v False unfolding x(1) by simp
      ultimately show ?thesis using venue_text by simp
    qed
    ultimately show ?thesis using ends(1) by simp
  next
    case False
    have plain: "\<not> is_space CHR ''S''" "\<not> is_space CHR ''H''" "\<not> is_space CHR ''Z''" "\<not> is_space CHR ''K''" by (simp_all add: is_space_def)
    have "(\<exists>a b. starts_with [a, b] ?u \<and> \<not> is_space a \<and> s = drop 2 ?u)
        \<or> (\<exists>a b c. has_suffix [a, b, c] ?u \<and> \<not> is_space c \<and> s = take (length ?u - 3) ?u) \<or> src = s"
      using split False plain unfolding split_prefixed_symbol_def Let_def
      by (simp only: if_False prod.inject split: if_split_asm) blast+
    then show ?thesis using ends by (auto simp: starts_with_iff has_suffix_iff)
  qed
  then have "src \<noteq> [] \<and> \<not> is_space (hd src) \<and> \<not> is_space (last src)"
    using ends by (auto simp: upper_def hd_map last_map space_upper)
  then show ?thesis by (intro plain_strip) simp_all
qed

text \<open>An entry that matches normalizes to the symbol it was matched with.\<close>

lemma matching_entry:
  assumes m: "alias_matches r e v u" and v: "v \<in> set cn_venues \<union> set hk_venues"
    and n: "normalize_instrument_symbol digest r (ae_venue e) (ae_source e) f t p k = Inr n"
  shows "sy_canonical n = v @ '':'' @ u" "sy_venue n = v" "sy_local n = u"
proof -
  obtain ov s where split: "split_prefixed_symbol (ae_source e) = (ov, s)" by fastforce
  define own where "own = upper (strip (ae_venue e))"
  define candidate where "candidate = (case ov of Some x \<Rightarrow> if x = [] then own else x | None \<Rightarrow> own)"
  have c: "candidate = v" "normalize_symbol_for_region r v s = Inr u"
    using m split unfolding alias_matches_def candidate_def own_def Let_def by auto
  have s: "is_decimal s" using c(2) by (rule normalized_symbol)
  have src: "strip (ae_source e) = ae_source e"
    by (rule strip_source [OF split s]) (use v c(1) in \<open>auto simp: candidate_def split: option.splits if_splits\<close>)
  obtain v' s' u' where n': "venue_and_symbol (ae_venue e) (ae_source e) = Inr (v', s')" "normalize_symbol_for_region r v' s' = Inr u'"
    "sy_venue n = v'" "sy_local n = u'" "sy_canonical n = v' @ '':'' @ u'" using n by (rule normalize_instrument_symbol_Inr)
  have none: "ov = None \<Longrightarrow> s = ae_source e" using split by (auto simp: split_prefixed_symbol_def Let_def split: if_splits)
  have "v' \<noteq> []" using normalized_symbol(1) [OF n'(2)] venue_text by blast
  then have "v' = v \<and> s' = s"
    using n'(1) split src c(1) none by (auto simp: venue_and_symbol_def Let_def own_def candidate_def split: option.splits if_splits)
  then show "sy_canonical n = v @ '':'' @ u" "sy_venue n = v" "sy_local n = u" using n' c(2) by simp_all
qed

lemma one_key: "length (remdups (map f xs)) = 1 \<Longrightarrow> x \<in> set xs \<Longrightarrow> y \<in> set xs \<Longrightarrow> f x = f y"
proof -
  assume "length (remdups (map f xs)) = 1" "x \<in> set xs" "y \<in> set xs"
  then obtain k where "remdups (map f xs) = [k]" by (auto simp: length_Suc_conv)
  then have "f ` set xs = {k}" by (metis list.set(1,2) set_map set_remdups)
  then show "f x = f y" using \<open>x \<in> set xs\<close> \<open>y \<in> set xs\<close> by (metis imageI singletonD)
qed

text \<open>What an alias resolves to carries the canonical symbol of the request and the key of a matching entry of the provider: one that
  is active on the date, or inactive only if that was allowed and no matching entry is active; all matching entries that are active have
  the same key.\<close>

theorem alias_resolves_to_requested_symbol:
  assumes "resolve_instrument_alias digest r venue_mic local_symbol as_of provider_id aliases include_inactive = Inr n"
  shows "\<exists>v s u e. venue_and_symbol venue_mic local_symbol = Inr (v, s) \<and> normalize_symbol_for_region r v s = Inr u
    \<and> sy_canonical n = v @ '':'' @ u \<and> sy_key n = strip (ae_key e) \<and> e \<in> set aliases \<and> strip (ae_provider e) = strip provider_id
    \<and> alias_matches r e v u \<and> (let active = filter (\<lambda>x. strip (ae_provider x) = strip provider_id \<and> alias_matches r x v u \<and> alias_active x as_of) aliases in
         list_all (\<lambda>x. ae_key x = ae_key e) active \<and> (alias_active e as_of \<or> include_inactive \<and> active = []))"
proof -
  obtain v s u where req: "venue_and_symbol venue_mic local_symbol = Inr (v, s)" "normalize_symbol_for_region r v s = Inr u"
    using assms by (auto simp: resolve_instrument_alias_def bindE_eq_Inr Let_def split: if_splits)
  define matching where "matching = filter (\<lambda>e. strip (ae_provider e) = strip provider_id \<and> alias_matches r e v u) aliases"
  define active where "active = filter (\<lambda>e. alias_active e as_of) matching"
  define cands where "cands = (if active \<noteq> [] then active else if include_inactive then matching else [])"
  have c: "cands \<noteq> []" "length (remdups (map ae_key cands)) = 1"
    "normalize_instrument_symbol digest r (ae_venue (hd cands)) (ae_source (hd cands)) (ae_from (hd cands)) (ae_to (hd cands))
       (strip provider_id) (ae_key (hd cands)) = Inr n"
    using assms req unfolding resolve_instrument_alias_def cands_def active_def matching_def
    by (auto simp: Let_def split: if_splits)
  let ?e = "hd cands"
  have mem: "?e \<in> set cands" using c(1) by simp
  then have e: "?e \<in> set aliases" "strip (ae_provider ?e) = strip provider_id" "alias_matches r ?e v u"
    by (auto simp: cands_def active_def matching_def split: if_splits)
  have act: "active = filter (\<lambda>x. strip (ae_provider x) = strip provider_id \<and> alias_matches r x v u \<and> alias_active x as_of) aliases"
    by (simp add: active_def matching_def conj_ac)
  have can: "sy_canonical n = v @ '':'' @ u" using matching_entry(1) [OF e(3) normalized_symbol(1) [OF req(2)] c(3)] .
  have key: "sy_key n = strip (ae_key ?e)" using c(3) by (rule normalize_instrument_symbol_Inr)
  have same: "list_all (\<lambda>x. ae_key x = ae_key ?e) active"
  proof (cases "active = []")
    case False
    then have "cands = active" by (simp add: cands_def)
    then show ?thesis using one_key [OF c(2) _ mem] unfolding list_all_iff by blast
  qed simp
  have live: "alias_active ?e as_of \<or> include_inactive \<and> active = []" using mem by (auto simp: cands_def active_def split: if_splits)
  show ?thesis using req can key e same [unfolded act] live [unfolded act] unfolding Let_def by blast
qed

section \<open>Concrete symbols\<close>

definition demo_digest :: "string \<Rightarrow> nat list" where
  "demo_digest s = replicate 32 (length s)"

definition alias_registry_demo :: "alias_entry list" where
  "alias_registry_demo = [\<lparr>ae_key = ''tencent'', ae_provider = ''p'', ae_source = ''700.HK'', ae_venue = ''XHKG'', ae_from = 100, ae_to = Some 200\<rparr>,
     \<lparr>ae_key = ''other'', ae_provider = ''p'', ae_source = ''00700'', ae_venue = ''xhkg'', ae_from = 200, ae_to = None\<rparr>]"

theorem canonical_symbol_is_fixed_point_witness:
  "case normalize_instrument_symbol demo_digest HK ''xhkg'' ''700'' 1 None ''p'' ''k'' of Inl e \<Rightarrow> False
   | Inr n \<Rightarrow> sy_canonical n = ''XHKG:00700'' \<and> normalize_instrument_symbol demo_digest HK [] ''XHKG:00700'' 1 None ''p'' ''k''
       = Inr (n\<lparr>sy_aliases := [(hd (sy_aliases n))\<lparr>ap_source := ''XHKG:00700''\<rparr>]\<rparr>)"
proof -
  have "case normalize_instrument_symbol demo_digest HK ''xhkg'' ''700'' 1 None ''p'' ''k'' of Inl e \<Rightarrow> False | Inr n \<Rightarrow> sy_canonical n = ''XHKG:00700''"
    by code_simp
  then obtain n where n: "normalize_instrument_symbol demo_digest HK ''xhkg'' ''700'' 1 None ''p'' ''k'' = Inr n" "sy_canonical n = ''XHKG:00700''"
    by (auto split: sum.splits)
  show ?thesis using canonical_symbol_is_fixed_point [OF n(1), of "[]"] n by simp
qed

theorem alias_resolves_to_requested_symbol_witness:
  "\<exists>n e. resolve_instrument_alias demo_digest HK ''XHKG'' ''0700'' 150 ''p'' alias_registry_demo False = Inr n \<and> sy_canonical n = ''XHKG:00700''
     \<and> e \<in> set alias_registry_demo \<and> sy_key n = strip (ae_key e) \<and> alias_active e 150"
proof -
  have "case resolve_instrument_alias demo_digest HK ''XHKG'' ''0700'' 150 ''p'' alias_registry_demo False of Inl e \<Rightarrow> False | Inr n \<Rightarrow> True" by code_simp
  then obtain n where n: "resolve_instrument_alias demo_digest HK ''XHKG'' ''0700'' 150 ''p'' alias_registry_demo False = Inr n"
    by (auto split: sum.splits)
  have req: "venue_and_symbol ''XHKG'' ''0700'' = Inr (''XHKG'', ''0700'')" "normalize_symbol_for_region HK ''XHKG'' ''0700'' = Inr ''00700''"
    by code_simp+
  from alias_resolves_to_requested_symbol [OF n] req show ?thesis using n by (fastforce simp: Let_def)
qed

end
