(* ===== verification/Us_Normalization.thy ===== *)
theory Us_Normalization
  imports Symbol_Normalization
begin

text \<open>
  The symbols, aliases and trading days of the US: \<open>normalization/us/symbols.py\<close>, \<open>calendar.py\<close>, \<open>time.py\<close> and
  \<open>errors.py\<close>. What is shown: canonical symbols are fixed points, a validated list of aliases is never ambiguous
  on a date before the last date of the calendar, the bundled calendars are those the exchange's holiday rules give, and a
  session window lies on its trading day.
\<close>

section \<open>Symbols\<close>

datatype us_error = Symbol_unresolved | Unsupported_exchange | Ambiguous_symbol_alias | Nonexistent_local_time | Market_closed
  | Calendar_unavailable

definition exchange_to_mic :: "(string \<times> string) list" where
  "exchange_to_mic = [(''NASDAQ'', ''XNAS''), (''NAS'', ''XNAS''), (''XNAS'', ''XNAS''), (''NYSE'', ''XNYS''), (''XNYS'', ''XNYS''),
     (''NYSE ARCA'', ''ARCX''), (''ARCA'', ''ARCX''), (''ARCX'', ''ARCX''), (''NYSE AMERICAN'', ''XASE''), (''AMEX'', ''XASE''),
     (''XASE'', ''XASE''), (''CBOE'', ''BATS''), (''BATS'', ''BATS'')]"

definition known_us_mics :: "string list" where
  "known_us_mics = map snd exchange_to_mic"

text \<open>\<open>s.split()\<close>.\<close>

function words :: "string \<Rightarrow> string list" where
  "words s = (let t = dropWhile is_space s in
     if t = [] then [] else takeWhile (\<lambda>c. \<not> is_space c) t # words (dropWhile (\<lambda>c. \<not> is_space c) t))"
  by pat_completeness auto

termination
proof (relation "measure length", goal_cases)
  case (2 s t)
  obtain a u where t: "t = a # u" using 2(2) by (cases t) simp_all
  have d: "dropWhile is_space s = a # u" using 2(1) t by simp
  then have "dropWhile is_space s \<noteq> []" by simp
  from dropWhile_hd [OF this] have "\<not> is_space a" unfolding d by simp
  then have "dropWhile (\<lambda>c. \<not> is_space c) t = dropWhile (\<lambda>c. \<not> is_space c) u" by (simp add: t)
  moreover have "length (dropWhile (\<lambda>c. \<not> is_space c) u) \<le> length u" by (rule length_dropWhile_le)
  moreover have "length (a # u) \<le> length s" using length_dropWhile_le [of is_space s] unfolding d .
  ultimately show ?case by simp
qed simp

declare words.simps [simp del]

definition resolve_mic :: "string \<Rightarrow> us_error + string" where
  "resolve_mic exchange = (let normalized = join '' '' (words (map (\<lambda>c. if c = CHR ''_'' \<or> c = CHR ''-'' then CHR '' '' else c) (upper (strip exchange)))) in
     case map_of exchange_to_mic normalized of None \<Rightarrow> Inl Unsupported_exchange | Some m \<Rightarrow> Inr m)"

definition normalize_local_symbol :: "string \<Rightarrow> us_error + string" where
  "normalize_local_symbol s = (let t = upper (strip s) in if t = [] then Inl Symbol_unresolved else Inr t)"

text \<open>The venue and the local symbol of a canonical symbol; \<open>allowed_mics\<close> is the known exchanges in every call.\<close>

definition canonical_parts :: "string \<Rightarrow> us_error + string \<times> string" where
  "canonical_parts source = (let s = strip source in
     if CHR '':'' \<notin> set s then Inl Symbol_unresolved
     else let mic = upper (strip (before_colon s)) in
       bindE (normalize_local_symbol (after_colon s)) (\<lambda>symbol.
         if mic = [] \<or> mic \<notin> set known_us_mics then Inl Unsupported_exchange else Inr (mic, symbol)))"

record us_symbol =
  us_source :: string
  us_local :: string
  us_mic :: string
  us_canonical :: string

definition us_symbol_of :: "string \<Rightarrow> string \<times> string \<Rightarrow> us_symbol" where
  "us_symbol_of source x = \<lparr>us_source = source, us_local = snd x, us_mic = fst x, us_canonical = fst x @ '':'' @ snd x\<rparr>"

definition normalize_us_symbol :: "string \<Rightarrow> string option \<Rightarrow> us_error + us_symbol" where
  "normalize_us_symbol source_symbol exchange = (let source = strip source_symbol in
     if source = [] then Inl Symbol_unresolved
     else bindE
       (if CHR '':'' \<in> set source
        then bindE (canonical_parts source) (\<lambda>(mic, symbol). case exchange of
            None \<Rightarrow> Inr (mic, symbol)
          | Some x \<Rightarrow> bindE (resolve_mic x) (\<lambda>m. if m \<noteq> mic then Inl Ambiguous_symbol_alias else Inr (mic, symbol)))
        else case exchange of
            None \<Rightarrow> Inl Symbol_unresolved
          | Some x \<Rightarrow> bindE (resolve_mic x) (\<lambda>m. bindE (normalize_local_symbol source) (\<lambda>symbol. Inr (m, symbol))))
       (\<lambda>x. Inr (us_symbol_of source_symbol x)))"

section \<open>Aliases\<close>

record instrument_identity =
  ii_issuer :: "string option"
  ii_first_symbol :: string
  ii_first_from :: date

record us_alias =
  ua_source :: string
  ua_local :: string
  ua_mic :: string
  ua_canonical :: string
  ua_instrument :: string
  ua_from :: date
  ua_to :: "date option"
  ua_issuer :: "string option"
  ua_flags :: "string list"

definition normalize_id_canonical_symbol :: "string \<Rightarrow> us_error + string" where
  "normalize_id_canonical_symbol s = bindE (canonical_parts s) (\<lambda>(mic, symbol). Inr (mic @ '':'' @ symbol))"

text \<open>\<open>sha\<close> is the hexadecimal SHA-256 of a text.\<close>

definition us_instrument_id :: "(string \<Rightarrow> string) \<Rightarrow> instrument_identity \<Rightarrow> us_error + string" where
  "us_instrument_id sha i = bindE (normalize_id_canonical_symbol (ii_first_symbol i)) (\<lambda>c.
     Inr (''ins_us_'' @ take 16 (sha (c @ isodate (ii_first_from i)))))"

definition normalize_issuer_key :: "string option \<Rightarrow> string option" where
  "normalize_issuer_key x = (case x of None \<Rightarrow> None | Some k \<Rightarrow> if strip k = [] then None else Some (strip k))"

definition issuer_quality_flags :: "string option \<Rightarrow> string list" where
  "issuer_quality_flags x = (if x = None then [''issuer_enrichment_missing''] else [])"

definition normalize_us_alias :: "(string \<Rightarrow> string) \<Rightarrow> string \<Rightarrow> string \<Rightarrow> date \<Rightarrow> instrument_identity \<Rightarrow> date option \<Rightarrow> us_error + us_alias" where
  "normalize_us_alias sha source_symbol exchange valid_from i valid_to =
     (if (case valid_to of None \<Rightarrow> False | Some t \<Rightarrow> t \<le> valid_from) then Inl Symbol_unresolved
      else bindE (normalize_us_symbol source_symbol (Some exchange)) (\<lambda>s.
        bindE (normalize_id_canonical_symbol (ii_first_symbol i)) (\<lambda>first.
          if valid_from < ii_first_from i then Inl Symbol_unresolved
          else if valid_from = ii_first_from i \<and> us_canonical s \<noteq> first then Inl Symbol_unresolved
          else let issuer = normalize_issuer_key (ii_issuer i) in
            bindE (us_instrument_id sha i) (\<lambda>instrument.
              Inr \<lparr>ua_source = source_symbol, ua_local = us_local s, ua_mic = us_mic s, ua_canonical = us_canonical s, ua_instrument = instrument,
                ua_from = valid_from, ua_to = valid_to, ua_issuer = issuer, ua_flags = issuer_quality_flags issuer\<rparr>))))"

text \<open>\<open>date.max\<close>, 9999-12-31.\<close>

definition date_max :: date where
  "date_max = 3652059"

definition date_ranges_overlap :: "date \<Rightarrow> date option \<Rightarrow> date \<Rightarrow> date option \<Rightarrow> bool" where
  "date_ranges_overlap left_from left_to right_from right_to =
     (left_from < (case right_to of None \<Rightarrow> date_max | Some t \<Rightarrow> t) \<and> right_from < (case left_to of None \<Rightarrow> date_max | Some t \<Rightarrow> t))"

definition conflicting :: "us_alias \<Rightarrow> us_alias \<Rightarrow> bool" where
  "conflicting l r \<longleftrightarrow> (ua_mic l, ua_local l) = (ua_mic r, ua_local r) \<and> ua_instrument l \<noteq> ua_instrument r
     \<and> date_ranges_overlap (ua_from l) (ua_to l) (ua_from r) (ua_to r)"

fun validate_us_aliases :: "us_alias list \<Rightarrow> us_error + unit" where
  "validate_us_aliases [] = Inr ()"
| "validate_us_aliases (l # rs) = (if \<exists>r \<in> set rs. conflicting l r then Inl Ambiguous_symbol_alias else validate_us_aliases rs)"

definition us_effective :: "us_symbol \<Rightarrow> date \<Rightarrow> us_alias \<Rightarrow> bool" where
  "us_effective s d a \<longleftrightarrow> (ua_mic a, ua_local a) = (us_mic s, us_local s) \<and> ua_from a \<le> d \<and> (case ua_to a of None \<Rightarrow> True | Some t \<Rightarrow> d < t)"

definition resolve_us_alias :: "string \<Rightarrow> string \<Rightarrow> us_alias list \<Rightarrow> date \<Rightarrow> us_error + us_alias" where
  "resolve_us_alias source_symbol exchange aliases as_of =
     bindE (normalize_us_symbol source_symbol (Some exchange)) (\<lambda>s.
       case filter (us_effective s as_of) aliases of
         [] \<Rightarrow> Inl Symbol_unresolved
       | a # as \<Rightarrow> if 1 < length (remdups (map ua_instrument (a # as))) then Inl Ambiguous_symbol_alias else Inr (max_on ua_from a as))"


section \<open>Canonical symbols and validated aliases\<close>

lemma known_mic: "m \<in> set known_us_mics \<Longrightarrow> resolve_mic m = Inr m \<and> upper m = m \<and> strip m = m \<and> m \<noteq> [] \<and> CHR '':'' \<notin> set m \<and> \<not> is_space (hd m)"
proof -
  have "\<forall>m \<in> set [''XNAS'', ''XNYS'', ''ARCX'', ''XASE'', ''BATS'']. resolve_mic m = Inr m \<and> upper m = m \<and> strip m = m \<and> m \<noteq> []
    \<and> CHR '':'' \<notin> set m \<and> \<not> is_space (hd m)" by code_simp
  moreover have "set known_us_mics \<subseteq> set [''XNAS'', ''XNYS'', ''ARCX'', ''XASE'', ''BATS'']" by (simp add: known_us_mics_def exchange_to_mic_def)
  ultimately show "m \<in> set known_us_mics \<Longrightarrow> ?thesis" by blast
qed

lemma upper_ends: "upper s = [] \<longleftrightarrow> s = []" "s \<noteq> [] \<Longrightarrow> hd (upper s) = to_upper (hd s) \<and> last (upper s) = to_upper (last s)"
  by (simp_all add: upper_def hd_map last_map)

lemma strip_upper: "strip (upper (strip s)) = upper (strip s)"
proof (cases "strip s = []")
  case False
  then show ?thesis using strip_ends [OF False] by (intro plain_strip) (simp_all add: upper_ends space_upper)
qed simp

lemma local_symbol_fixed: "normalize_local_symbol s = Inr t \<Longrightarrow> t \<noteq> [] \<and> normalize_local_symbol t = Inr t \<and> \<not> is_space (last t) \<and> strip t = t"
proof -
  assume "normalize_local_symbol s = Inr t"
  then have t: "t = upper (strip s)" "t \<noteq> []" by (auto simp: normalize_local_symbol_def Let_def split: if_splits)
  then have "strip s \<noteq> []" by (auto simp: upper_ends)
  then show ?thesis using t strip_upper [of s] strip_ends [of s] by (simp add: normalize_local_symbol_def upper_ends space_upper)
qed

lemma resolve_mic_known: "resolve_mic x = Inr m \<Longrightarrow> m \<in> set known_us_mics"
  by (auto simp: resolve_mic_def Let_def known_us_mics_def dest!: map_of_SomeD split: option.splits) force

lemma canonical_parts_fixed:
  assumes m: "m \<in> set known_us_mics" and t: "normalize_local_symbol s = Inr t"
  shows "canonical_parts (m @ '':'' @ t) = Inr (m, t)" "strip (m @ '':'' @ t) = m @ '':'' @ t"
proof -
  note k = known_mic [OF m] and l = local_symbol_fixed [OF t]
  show str: "strip (m @ '':'' @ t) = m @ '':'' @ t" using k l by (intro plain_strip) auto
  have "before_colon (m @ '':'' @ t) = m" "after_colon (m @ '':'' @ t) = t"
    using k by (auto simp: before_colon_def after_colon_def takeWhile_append dropWhile_append)
  then show "canonical_parts (m @ '':'' @ t) = Inr (m, t)" unfolding canonical_parts_def str Let_def using k l m by simp
qed

text \<open>A canonical US symbol is a fixed point: normalized again, with or without its exchange, it gives the same exchange, local
  symbol and canonical symbol.\<close>

theorem us_symbol_is_fixed_point:
  assumes "normalize_us_symbol source exchange = Inr n" "x \<in> {None, Some (us_mic n)}"
  shows "normalize_us_symbol (us_canonical n) x = Inr (n\<lparr>us_source := us_canonical n\<rparr>)"
proof -
  obtain m t where n: "n = us_symbol_of source (m, t)" and m: "m \<in> set known_us_mics" and t: "\<exists>s. normalize_local_symbol s = Inr t"
    using assms(1) resolve_mic_known
    by (fastforce simp: normalize_us_symbol_def canonical_parts_def Let_def bindE_eq_Inr split: if_splits option.splits)
  then obtain s where s: "normalize_local_symbol s = Inr t" by blast
  note c = canonical_parts_fixed [OF m s] and k = known_mic [OF m]
  have "CHR '':'' \<in> set (m @ '':'' @ t)" "m @ '':'' @ t \<noteq> []" by simp_all
  then show ?thesis using assms(2) c k unfolding n by (auto simp: normalize_us_symbol_def us_symbol_of_def)
qed

lemma validated_pair: "validate_us_aliases as = Inr () \<Longrightarrow> a \<in> set as \<Longrightarrow> b \<in> set as \<Longrightarrow> a = b \<or> \<not> conflicting a b"
proof (induction as)
  case (Cons l rs)
  have "conflicting a b = conflicting b a" by (auto simp: conflicting_def date_ranges_overlap_def)
  with Cons show ?case by (auto split: if_splits)
qed simp

text \<open>C32: Aliases that passed the validation resolve on every date before the last date of the calendar to at most one instrument: the
  result is the effective alias that started last, and every effective alias names its instrument. On that last date the open end of an
  alias counts as the date itself, so the validation says nothing there.\<close>

theorem validated_aliases_resolve_uniquely:
  assumes "validate_us_aliases aliases = Inr ()" "as_of < date_max" "normalize_us_symbol source (Some exchange) = Inr s"
  shows "case filter (us_effective s as_of) aliases of
      [] \<Rightarrow> resolve_us_alias source exchange aliases as_of = Inl Symbol_unresolved
    | a # as \<Rightarrow> \<exists>r \<in> set (a # as). resolve_us_alias source exchange aliases as_of = Inr r
        \<and> list_all (\<lambda>b. ua_instrument b = ua_instrument r \<and> ua_from b \<le> ua_from r) (a # as)"
proof (cases "filter (us_effective s as_of) aliases")
  case (Cons a as)
  have mem: "b \<in> set aliases \<and> us_effective s as_of b" if "b \<in> set (a # as)" for b using that unfolding Cons [symmetric] by simp
  have same: "ua_instrument b = ua_instrument c" if "b \<in> set (a # as)" "c \<in> set (a # as)" for b c
  proof (rule ccontr)
    assume "ua_instrument b \<noteq> ua_instrument c"
    moreover have "date_ranges_overlap (ua_from b) (ua_to b) (ua_from c) (ua_to c)"
      using mem [OF that(1)] mem [OF that(2)] assms(2) by (auto simp: us_effective_def date_ranges_overlap_def split: option.splits)
    ultimately have "conflicting b c" using mem [OF that(1)] mem [OF that(2)] by (simp add: conflicting_def us_effective_def)
    moreover have "b \<noteq> c" using \<open>ua_instrument b \<noteq> ua_instrument c\<close> by blast
    ultimately show False using validated_pair [OF assms(1)] mem that by blast
  qed
  have "ua_instrument ` set (a # as) \<subseteq> {ua_instrument a}" 
  proof (rule image_subsetI)
    fix b assume "b \<in> set (a # as)"
    from same [OF this, of a] show "ua_instrument b \<in> {ua_instrument a}" by simp
  qed
  then have "card (set (map ua_instrument (a # as))) \<le> 1" using card_mono [of "{ua_instrument a}"] by simp
  then have "\<not> 1 < length (remdups (map ua_instrument (a # as)))" by (simp only: length_remdups_card_conv)
  then have "resolve_us_alias source exchange aliases as_of = Inr (max_on ua_from a as)" by (simp add: resolve_us_alias_def assms(3) Cons)
  moreover have "list_all (\<lambda>b. ua_instrument b = ua_instrument (max_on ua_from a as) \<and> ua_from b \<le> ua_from (max_on ua_from a as)) (a # as)"
    unfolding list_all_iff using max_on_greatest [of ua_from a as] same [of _ "max_on ua_from a as"] by blast
  ultimately show ?thesis using max_on_greatest [of ua_from a as] unfolding Cons list.case by blast
qed (simp add: resolve_us_alias_def assms(3))


section \<open>The calendar of the exchanges\<close>

text \<open>\<open>date(y, m, d)\<close>.\<close>

definition date_of :: "int \<Rightarrow> nat \<Rightarrow> int \<Rightarrow> date" where
  "date_of y m d = 365 * (y - 1) + (y - 1) div 4 - (y - 1) div 100 + (y - 1) div 400 + sum_list (take (m - 1) (month_lengths y)) + d"

definition days :: "int \<Rightarrow> (nat \<times> int) list \<Rightarrow> date list" where
  "days y ds = map (\<lambda>(m, d). date_of y m d) ds"

record us_calendar_snapshot =
  cs_version :: string
  cs_closed :: "date list"
  cs_early :: "date list"

definition us_calendar_snapshots :: "(int \<times> us_calendar_snapshot) list" where
  "us_calendar_snapshots =
     [(2025, \<lparr>cs_version = ''XNYS-XNAS-2025-holidays-v1'', cs_closed = days 2025 [(1, 1), (1, 20), (2, 17), (4, 18), (5, 26), (6, 19), (7, 4), (9, 1), (11, 27), (12, 25)],
       cs_early = days 2025 [(7, 3), (11, 28), (12, 24)]\<rparr>),
      (2026, \<lparr>cs_version = ''XNYS-XNAS-2026-holidays-v1'', cs_closed = days 2026 [(1, 1), (1, 19), (2, 16), (4, 3), (5, 25), (6, 19), (7, 3), (9, 7), (11, 26), (12, 25)],
       cs_early = days 2026 [(11, 27), (12, 24)]\<rparr>),
      (2027, \<lparr>cs_version = ''XNYS-XNAS-2027-holidays-v1'', cs_closed = days 2027 [(1, 1), (1, 18), (2, 15), (3, 26), (5, 31), (6, 18), (7, 5), (9, 6), (11, 25), (12, 24)],
       cs_early = days 2027 [(11, 26)]\<rparr>)]"

datatype us_day_status = Regular_day | Early_close | Closed_day

record us_calendar_day =
  cd_date :: date
  cd_status :: us_day_status
  cd_version :: string

record us_session_window =
  sw_date :: date
  sw_open :: instant
  sw_close :: instant
  sw_version :: string
  sw_early :: bool

definition us_equity_calendar_day :: "(int \<times> us_calendar_snapshot) list \<Rightarrow> date \<Rightarrow> us_error + us_calendar_day" where
  "us_equity_calendar_day snapshots d = (case map_of snapshots (fst (ymd d)) of
     None \<Rightarrow> Inl Calendar_unavailable
   | Some s \<Rightarrow> Inr \<lparr>cd_date = d, cd_status = (if 5 \<le> weekday d \<or> d \<in> set (cs_closed s) then Closed_day
       else if d \<in> set (cs_early s) then Early_close else Regular_day), cd_version = cs_version s\<rparr>)"

text \<open>A wall-clock time the zone does not have comes back as another one.\<close>

definition to_us_market_utc :: "zone \<Rightarrow> int \<Rightarrow> us_error + instant" where
  "to_us_market_utc z w = (if to_wall z (of_wall z w) \<noteq> w then Inl Nonexistent_local_time else Inr (of_wall z w))"

definition us_trading_date :: "zone \<Rightarrow> instant \<Rightarrow> date" where
  "us_trading_date z t = wall_date (to_wall z t)"

definition us_equity_session_window :: "zone \<Rightarrow> (int \<times> us_calendar_snapshot) list \<Rightarrow> date \<Rightarrow> us_error + us_session_window" where
  "us_equity_session_window z snapshots d =
     bindE (us_equity_calendar_day snapshots d) (\<lambda>day.
       if cd_status day = Closed_day then Inl Market_closed
       else let early = (cd_status day = Early_close) in
         bindE (to_us_market_utc z (combine d (time_of_day 9 30))) (\<lambda>start.
         bindE (to_us_market_utc z (combine d (if early then time_of_day 13 0 else time_of_day 16 0))) (\<lambda>stop.
           Inr \<lparr>sw_date = d, sw_open = start, sw_close = stop, sw_version = cd_version day, sw_early = early\<rparr>)))"

section \<open>The rules of the exchange\<close>

text \<open>The nth and the last weekday of a month, the observed day of a fixed holiday, Easter Sunday.\<close>

definition nth_weekday :: "int \<Rightarrow> nat \<Rightarrow> int \<Rightarrow> int \<Rightarrow> date" where
  "nth_weekday y m wd n = (let first = date_of y m 1 in first + (wd - weekday first) mod 7 + 7 * (n - 1))"

definition last_weekday :: "int \<Rightarrow> nat \<Rightarrow> int \<Rightarrow> date" where
  "last_weekday y m wd = (let end = date_of y m (month_lengths y ! (m - 1)) in end - (weekday end - wd) mod 7)"

definition observed :: "date \<Rightarrow> date" where
  "observed d = (if weekday d = 5 then d - 1 else if weekday d = 6 then d + 1 else d)"

definition easter :: "int \<Rightarrow> date" where
  "easter y = (let a = y mod 19; b = y div 100; c = y mod 100; h = (19 * a + b - b div 4 - (b - (b + 8) div 25 + 1) div 3 + 15) mod 30;
     l = (32 + 2 * (b mod 4) + 2 * (c div 4) - h - c mod 4) mod 7; m = (a + 11 * h + 22 * l) div 451; n = h + l - 7 * m + 114
   in date_of y (nat (n div 31)) (n mod 31 + 1))"

text \<open>New Year on a Saturday is not observed: the Friday before it is a trading day of the old year.\<close>

definition new_year :: "int \<Rightarrow> date list" where
  "new_year y = (let d = date_of y 1 1 in if weekday d = 5 then [] else [observed d])"

definition holidays :: "int \<Rightarrow> date list" where
  "holidays y = new_year y @ [nth_weekday y 1 0 3, nth_weekday y 2 0 3, easter y - 2, last_weekday y 5 0,
     observed (date_of y 6 19), observed (date_of y 7 4), nth_weekday y 9 0 1, nth_weekday y 11 3 4, observed (date_of y 12 25)]"

definition early_closes :: "int \<Rightarrow> date list" where
  "early_closes y = filter (\<lambda>d. weekday d < 5 \<and> d \<notin> set (holidays y)) [date_of y 7 3, nth_weekday y 11 3 4 + 1, date_of y 12 24]"

text \<open>C33: The bundled calendars of the US close on exactly the days the rules of the exchange give for their years (New Year, Martin
  Luther King, Washington, Good Friday, Memorial Day, Juneteenth, Independence Day, Labor Day, Thanksgiving, Christmas; a fixed holiday
  on a weekend moves to the nearest weekday, except that a New Year on a Saturday is not kept) and close early exactly on the eve of Independence Day, the day after Thanksgiving and Christmas Eve
  when these are open; every such day is a weekday of its year.\<close>

theorem bundled_calendars_follow_the_rules:
  "map fst us_calendar_snapshots = [2025, 2026, 2027]
   \<and> list_all (\<lambda>(y, s). set (cs_closed s) = set (holidays y) \<and> set (cs_early s) = set (early_closes y)
       \<and> list_all (\<lambda>d. fst (ymd d) = y \<and> weekday d < 5) (cs_closed s @ cs_early s) \<and> set (cs_closed s) \<inter> set (cs_early s) = {}) us_calendar_snapshots"
  by code_simp

text \<open>C34: A session window is that of an open day: the year has a calendar and the day is a weekday that is not a holiday; read in the zone
  of the exchange the window goes from half past nine to four, or to one on a day of early close, of that very day.\<close>

theorem session_window_lies_on_its_day:
  assumes "us_equity_session_window z snapshots d = Inr w"
  shows "sw_date w = d \<and> us_trading_date z (sw_open w) = d \<and> us_trading_date z (sw_close w) = d
    \<and> wall_time (to_wall z (sw_open w)) = time_of_day 9 30 \<and> wall_time (to_wall z (sw_close w)) = (if sw_early w then time_of_day 13 0 else time_of_day 16 0)
    \<and> (\<exists>s. map_of snapshots (fst (ymd d)) = Some s \<and> weekday d < 5 \<and> d \<notin> set (cs_closed s) \<and> sw_early w = (d \<in> set (cs_early s)))"
proof -
  have t: "0 \<le> time_of_day 9 30 \<and> time_of_day 9 30 < day_us" "0 \<le> time_of_day 13 0 \<and> time_of_day 13 0 < day_us"
    "0 \<le> time_of_day 16 0 \<and> time_of_day 16 0 < day_us" by (simp_all add: time_of_day_def us_defs)
  note wall = wall_date_combine [of "time_of_day 9 30"] wall_date_combine [of "time_of_day 13 0"] wall_date_combine [of "time_of_day 16 0"]
    wall_time_combine [of "time_of_day 9 30"] wall_time_combine [of "time_of_day 13 0"] wall_time_combine [of "time_of_day 16 0"]
  obtain day where day: "us_equity_calendar_day snapshots d = Inr day" "cd_status day \<noteq> Closed_day"
    and w: "sw_date w = d" "sw_early w = (cd_status day = Early_close)" "to_wall z (sw_open w) = combine d (time_of_day 9 30)"
      "to_wall z (sw_close w) = combine d (if sw_early w then time_of_day 13 0 else time_of_day 16 0)"
    using assms by (auto simp: us_equity_session_window_def bindE_eq_Inr Let_def to_us_market_utc_def split: if_split_asm)
  have "\<exists>s. map_of snapshots (fst (ymd d)) = Some s \<and> weekday d < 5 \<and> d \<notin> set (cs_closed s) \<and> (cd_status day = Early_close) = (d \<in> set (cs_early s))"
    using day by (auto simp: us_equity_calendar_day_def split: option.splits if_split_asm)
  then show ?thesis using w t wall by (simp add: us_trading_date_def)
qed

section \<open>Concrete symbols, aliases and days\<close>

definition demo_alias :: "string \<Rightarrow> date \<Rightarrow> date option \<Rightarrow> us_alias" where
  "demo_alias i f t = \<lparr>ua_source = ''FB'', ua_local = ''FB'', ua_mic = ''XNAS'', ua_canonical = ''XNAS:FB'', ua_instrument = i, ua_from = f,
     ua_to = t, ua_issuer = None, ua_flags = []\<rparr>"

definition new_york_winter :: zone where
  "new_york_winter = fixed_zone (- 5 * hour_us)"

theorem us_symbol_is_fixed_point_witness:
  "\<exists>n. normalize_us_symbol '' brk.b '' (Some ''NYSE'') = Inr n \<and> us_canonical n = ''XNYS:BRK.B''
     \<and> normalize_us_symbol ''XNYS:BRK.B'' None = Inr (n\<lparr>us_source := ''XNYS:BRK.B''\<rparr>)"
proof -
  have "case normalize_us_symbol '' brk.b '' (Some ''NYSE'') of Inl e \<Rightarrow> False | Inr n \<Rightarrow> us_canonical n = ''XNYS:BRK.B''" by code_simp
  then obtain n where n: "normalize_us_symbol '' brk.b '' (Some ''NYSE'') = Inr n" "us_canonical n = ''XNYS:BRK.B''" by (auto split: sum.splits)
  show ?thesis using us_symbol_is_fixed_point [OF n(1), of None] n by simp
qed

theorem validated_aliases_resolve_uniquely_witness:
  "\<exists>r. resolve_us_alias ''fb'' ''NASDAQ'' [demo_alias ''i1'' 100 (Some 200), demo_alias ''i2'' 200 None] 200 = Inr r \<and> ua_instrument r = ''i2''"
proof -
  have "case normalize_us_symbol ''fb'' (Some ''NASDAQ'') of Inl e \<Rightarrow> False | Inr s \<Rightarrow> us_mic s = ''XNAS'' \<and> us_local s = ''FB''" by code_simp
  then obtain s where s: "normalize_us_symbol ''fb'' (Some ''NASDAQ'') = Inr s" "us_mic s = ''XNAS''" "us_local s = ''FB''" by (auto split: sum.splits)
  have "validate_us_aliases [demo_alias ''i1'' 100 (Some 200), demo_alias ''i2'' 200 None] = Inr ()"
    by (simp add: conflicting_def demo_alias_def date_ranges_overlap_def)
  from validated_aliases_resolve_uniquely [OF this _ s(1), of 200] show ?thesis
    using s(2,3) by (simp add: demo_alias_def us_effective_def date_max_def)
qed

theorem session_window_lies_on_its_day_witness:
  "\<exists>w. us_equity_session_window new_york_winter us_calendar_snapshots (date_of 2025 12 24) = Inr w \<and> sw_early w
     \<and> us_trading_date new_york_winter (sw_close w) = date_of 2025 12 24"
proof -
  have "case us_equity_session_window new_york_winter us_calendar_snapshots (date_of 2025 12 24) of Inl e \<Rightarrow> False | Inr w \<Rightarrow> sw_early w" by code_simp
  then obtain w where w: "us_equity_session_window new_york_winter us_calendar_snapshots (date_of 2025 12 24) = Inr w" "sw_early w" by (auto split: sum.splits)
  from session_window_lies_on_its_day [OF w(1)] w show ?thesis by blast
qed

end
