(* ===== verification/Editor_Context.thy ===== *)
theory Editor_Context
  imports Fact_History
begin

text \<open>
  \<open>services/editor_context_service.py\<close> with the contracts of \<open>contracts/editor.py\<close>: the facts of the requested regions as of one
  time, the coverage of each region, and a fingerprint. The market, macro and news services pass a query on to the repository, so the
  reads are those of the fact tables; \<open>db k\<close> is the state the \<open>k\<close>-th read of a request finds, since other writers may commit between
  two reads. The dumps pydantic makes of the facts are the parameter \<open>context_dumps\<close>. What is shown: a context is point in time when no
  metrics are requested, even while later facts are written; what it holds was available; its news are limited by cluster.
\<close>

section \<open>Requests and contexts\<close>

record market_spec =
  cm_instruments :: "string list"
  cm_sessions :: int
  cm_metrics :: "string list"

record macro_spec =
  cs_series :: "string list"
  cs_lookback :: int
  cs_upcoming :: int
  cs_revisions :: revision_policy

record news_spec =
  cn_hours :: int
  cn_topics :: "string list"
  cn_tiers :: "string list"
  cn_languages :: "string list"
  cn_items :: nat
  cn_per_cluster :: nat
  cn_mode :: content_mode

text \<open>The time of a request with its offset from UTC, in microseconds.\<close>

record context_request =
  cq_as_of :: "(instant \<times> int) option"
  cq_regions :: "region list"
  cq_preset :: string
  cq_market :: market_spec
  cq_macro :: macro_spec
  cq_news :: news_spec
  cq_complete :: bool                          \<comment> \<open>\<open>fail_on_incomplete\<close>\<close>

record coverage_item =
  ci_dataset :: string
  ci_region :: region
  ci_status :: string
  ci_count :: nat
  ci_newest :: "instant option"
  ci_providers :: "string list"
  ci_reasons :: "string list"

record context_selection =
  cl_preset :: string
  cl_instruments :: "string list"
  cl_series :: "string list"
  cl_metrics :: "string list"

record context_facts =
  cf_snapshots :: "market_snapshot list"
  cf_bars :: "market_bar list"
  cf_observations :: "market_observation list"
  cf_macro :: "macro_observation list"
  cf_releases :: "macro_release list"
  cf_news :: "news_event list"

record built_context =
  bc_id :: string
  bc_generated :: instant
  bc_as_of :: instant
  bc_selection :: context_selection
  bc_facts :: context_facts
  bc_coverage :: "coverage_item list"
  bc_fingerprint :: string

section \<open>News clusters and coverage\<close>

definition cluster_key :: "news_event \<Rightarrow> string" where
  "cluster_key e = (case ne_cluster e of Some c \<Rightarrow> if c = [] then ne_id e else c | None \<Rightarrow> ne_id e)"

fun limit_clusters :: "nat \<Rightarrow> (string \<Rightarrow> nat) \<Rightarrow> news_event list \<Rightarrow> news_event list" where
  "limit_clusters n counts [] = []"
| "limit_clusters n counts (e # es) = (let k = cluster_key e in
     if n \<le> counts k then limit_clusters n counts es else e # limit_clusters n (counts(k := counts k + 1)) es)"

definition limit_news_clusters :: "nat \<Rightarrow> news_event list \<Rightarrow> news_event list" where
  "limit_news_clusters n es = limit_clusters n (\<lambda>_. 0) es"

text \<open>Of a record the coverage reads when it became available and from whom.\<close>

type_synonym covered = "instant \<times> string"

definition coverage_of :: "string \<Rightarrow> region \<Rightarrow> covered list \<Rightarrow> coverage_item" where
  "coverage_of dataset r records = \<lparr>ci_dataset = dataset, ci_region = r,
     ci_status = (if records = [] then ''unavailable'' else ''complete''), ci_count = length records,
     ci_newest = (case map fst records of [] \<Rightarrow> None | t # ts \<Rightarrow> Some (fold max ts t)), ci_providers = sort (remdups (map snd records)),
     ci_reasons = (if records = [] then [''no records available in the current repository''] else [])\<rparr>"

definition market_records :: "region \<Rightarrow> context_facts \<Rightarrow> covered list" where
  "market_records r f =
     map (\<lambda>x. (mk_available x, so_provider (mk_source x))) (filter (\<lambda>x. mk_region x = r) (cf_snapshots f))
     @ map (\<lambda>x. (mb_available x, so_provider (mb_source x))) (filter (\<lambda>x. mb_region x = r) (cf_bars f))
     @ map (\<lambda>x. (mo_available x, so_provider (mo_source x))) (filter (\<lambda>x. mo_region x = r) (cf_observations f))"

definition macro_records :: "region \<Rightarrow> context_facts \<Rightarrow> covered list" where
  "macro_records r f =
     map (\<lambda>x. (ob_available x, so_provider (ob_source x))) (filter (\<lambda>x. ob_region x = r) (cf_macro f))
     @ map (\<lambda>x. (mr_available x, so_provider (mr_source x))) (filter (\<lambda>x. mr_region x = r) (cf_releases f))"

definition news_records :: "region \<Rightarrow> context_facts \<Rightarrow> covered list" where
  "news_records r f = map (\<lambda>x. (ne_available x, so_provider (ne_source x))) (filter (\<lambda>x. r \<in> set (ne_regions x)) (cf_news f))"

definition coverage :: "region list \<Rightarrow> context_facts \<Rightarrow> coverage_item list" where
  "coverage rs f = concat (map (\<lambda>r. [coverage_of ''market'' r (market_records r f), coverage_of ''macro'' r (macro_records r f),
     coverage_of ''news'' r (news_records r f)]) (sort_key region_value rs))"

section \<open>The queries\<close>

text \<open>Arithmetic on the wall clock of the request; it raises outside the years 1 to 9999.\<close>

definition shifted :: "instant \<times> int \<Rightarrow> int \<Rightarrow> exn + instant" where
  "shifted a delta = (let w = fst a + snd a + delta in
     if w < day_us \<or> max_instant < w then Inl (OtherError ''OverflowError'') else Inr (fst a + delta))"

definition local_date :: "instant \<times> int \<Rightarrow> int \<Rightarrow> date" where
  "local_date a delta = wall_date (fst a + snd a + delta)"

definition read_snapshots :: "context_request \<Rightarrow> instant \<Rightarrow> fact_tables \<Rightarrow> market_snapshot list" where
  "read_snapshots q t d = (if cm_instruments (cq_market q) = [] then [] else list_snapshots (cm_instruments (cq_market q)) t d)"

definition read_bars :: "context_request \<Rightarrow> instant \<times> int \<Rightarrow> fact_tables \<Rightarrow> exn + market_bar list" where
  "read_bars q a d = (let m = cq_market q in if cm_instruments m = [] then Inr []
     else bindE (shifted a (- (cm_sessions m * 3 * day_us))) (\<lambda>start. bindE (shifted a 1) (\<lambda>stop.
       Inr (list_bars \<lparr>br_instruments = cm_instruments m, br_interval = D1, br_adjustment = Raw, br_start = start, br_end = stop,
         br_as_of = fst a, br_limit = 1000\<rparr> d))))"

definition read_observations :: "context_request \<Rightarrow> instant \<times> int \<Rightarrow> fact_tables \<Rightarrow> exn + market_observation list" where
  "read_observations q a d = (let m = cq_market q in if cm_metrics m = [] then Inr []
     else bindE (shifted a (- (cm_sessions m * 3 * day_us))) (\<lambda>start. bindE (shifted a 1) (\<lambda>stop.
       Inr (list_market_observations \<lparr>or_regions = cq_regions q, or_metrics = cm_metrics m, or_scopes = [], or_start = start,
         or_end = stop, or_as_of = fst a, or_limit = 1000\<rparr> d))))"

definition read_macro :: "context_request \<Rightarrow> instant \<times> int \<Rightarrow> fact_tables \<Rightarrow> exn + macro_observation list" where
  "read_macro q a d = (let m = cq_macro q in if cs_series m = [] then Inr []
     else bindE (shifted a (- (cs_lookback m * day_us))) (\<lambda>_.
       Inr (list_macro_observations \<lparr>mq_series = cs_series m, mq_from = local_date a (- (cs_lookback m * day_us)),
         mq_to = local_date a 0, mq_as_of = fst a, mq_policy = cs_revisions m, mq_limit = 1000\<rparr> d)))"

definition read_releases :: "context_request \<Rightarrow> instant \<times> int \<Rightarrow> fact_tables \<Rightarrow> exn + macro_release list" where
  "read_releases q a d = (let m = cq_macro q in
     bindE (shifted a (- (cs_lookback m * day_us))) (\<lambda>start. bindE (shifted a (cs_upcoming m * day_us)) (\<lambda>stop.
       Inr (list_macro_releases \<lparr>rq_regions = cq_regions q, rq_from = start, rq_to = stop, rq_as_of = fst a, rq_limit = 500\<rparr> d))))"

definition read_news :: "context_request \<Rightarrow> instant \<times> int \<Rightarrow> fact_tables \<Rightarrow> exn + news_event list" where
  "read_news q a d = (let n = cq_news q in
     bindE (shifted a (- (cn_hours n * hour_us))) (\<lambda>start. bindE (shifted a 1) (\<lambda>stop.
       Inr (limit_news_clusters (cn_per_cluster n) (list_news \<lparr>nq_regions = cq_regions q, nq_from = start, nq_to = stop,
         nq_as_of = fst a, nq_entities = [], nq_topics = cn_topics n, nq_languages = cn_languages n, nq_tiers = cn_tiers n,
         nq_superseded = False, nq_mode = cn_mode n, nq_limit = cn_items n\<rparr> d)))))"

definition read_facts :: "(nat \<Rightarrow> fact_tables) \<Rightarrow> context_request \<Rightarrow> instant \<times> int \<Rightarrow> exn + context_facts" where
  "read_facts db q a =
     bindE (read_bars q a (db 1)) (\<lambda>bars. bindE (read_observations q a (db 2)) (\<lambda>observations. bindE (read_macro q a (db 3)) (\<lambda>vintages.
     bindE (read_releases q a (db 4)) (\<lambda>releases. bindE (read_news q a (db 5)) (\<lambda>events.
       Inr \<lparr>cf_snapshots = read_snapshots q (fst a) (db 0), cf_bars = bars, cf_observations = observations, cf_macro = vintages,
         cf_releases = releases, cf_news = events\<rparr>)))))"

section \<open>The context\<close>

record context_dumps =
  cd_snapshot :: "market_snapshot \<Rightarrow> json"
  cd_bar :: "market_bar \<Rightarrow> json"
  cd_observation :: "market_observation \<Rightarrow> json"
  cd_macro :: "macro_observation \<Rightarrow> json"
  cd_release :: "macro_release \<Rightarrow> json"
  cd_news :: "news_event \<Rightarrow> json"

definition strings :: "string list \<Rightarrow> json" where
  "strings ss = JList (map JStr ss)"

definition selection_payload :: "context_selection \<Rightarrow> json" where
  "selection_payload s = JObj [(''preset_id'', JStr (cl_preset s)), (''preset_version'', JStr ''1.0.0''),
     (''instrument_ids'', strings (cl_instruments s)), (''series_ids'', strings (cl_series s)), (''metric_codes'', strings (cl_metrics s)),
     (''topic_taxonomy_version'', JStr ''1.0.0'')]"

definition coverage_payload :: "coverage_item \<Rightarrow> json" where
  "coverage_payload c = JObj [(''dataset'', JStr (ci_dataset c)), (''region'', JStr (region_value (ci_region c))),
     (''status'', JStr (ci_status c)), (''record_count'', JInt (int (ci_count c))),
     (''newest_available_at'', case ci_newest c of None \<Rightarrow> JNull | Some t \<Rightarrow> JStr (iso_utc t)),
     (''providers'', strings (ci_providers c)), (''reasons'', strings (ci_reasons c))]"

text \<open>\<open>as_of.isoformat()\<close> at the offset of the request, which is a number of minutes.\<close>

definition isoformat_at :: "instant \<times> int \<Rightarrow> string" where
  "isoformat_at a = (let m = \<bar>snd a\<bar> div (60 * second_us) in
     butlast (iso_utc (fst a + snd a)) @ (if snd a < 0 then ''-'' else ''+'') @ pad0 2 (int_str (m div 60)) @ '':'' @ pad0 2 (int_str (m mod 60)))"

definition fingerprint_payload :: "context_dumps \<Rightarrow> instant \<times> int \<Rightarrow> context_selection \<Rightarrow> context_facts \<Rightarrow> coverage_item list \<Rightarrow> json" where
  "fingerprint_payload dump a s f cs = JObj [(''as_of'', JStr (isoformat_at a)), (''selection'', selection_payload s),
     (''market_snapshots'', JList (map (cd_snapshot dump) (cf_snapshots f))), (''market_bars'', JList (map (cd_bar dump) (cf_bars f))),
     (''market_observations'', JList (map (cd_observation dump) (cf_observations f))),
     (''macro_observations'', JList (map (cd_macro dump) (cf_macro f))), (''macro_releases'', JList (map (cd_release dump) (cf_releases f))),
     (''news_events'', JList (map (cd_news dump) (cf_news f))), (''coverage'', JList (map coverage_payload cs))]"

definition selection_of :: "context_request \<Rightarrow> context_selection" where
  "selection_of q = \<lparr>cl_preset = cq_preset q, cl_instruments = cm_instruments (cq_market q), cl_series = cs_series (cq_macro q),
     cl_metrics = cm_metrics (cq_market q)\<rparr>"

text \<open>\<open>clock 0\<close> is read only when the request has no time, \<open>clock 1\<close> when the context is complete.\<close>

definition context_time :: "(nat \<Rightarrow> instant) \<Rightarrow> context_request \<Rightarrow> instant \<times> int" where
  "context_time clock q = (case cq_as_of q of Some a \<Rightarrow> a | None \<Rightarrow> (clock 0, 0))"

definition build_context :: "(string \<Rightarrow> string) \<Rightarrow> context_dumps \<Rightarrow> (nat \<Rightarrow> instant) \<Rightarrow> (nat \<Rightarrow> fact_tables) \<Rightarrow> context_request
    \<Rightarrow> exn + built_context" where
  "build_context sha dump clock db q = (let a = context_time clock q in
     bindE (read_facts db q a) (\<lambda>f. let cs = coverage (cq_regions q) f in
       if cq_complete q \<and> (\<exists>c \<in> set cs. ci_status c = ''unavailable'') then Inl (OtherError ''DataUnavailableError'')
       else let fingerprint = canonical_json_checksum sha (fingerprint_payload dump a (selection_of q) f cs) in
         Inr \<lparr>bc_id = stable_id sha ''ctx'' [isoformat_at a, fingerprint], bc_generated = clock 1, bc_as_of = fst a,
           bc_selection = selection_of q, bc_facts = f, bc_coverage = cs, bc_fingerprint = fingerprint\<rparr>))"


section \<open>A context is point in time\<close>

lemma read_facts_unchanged:
  assumes "facts_ok d" "cm_metrics (cq_market q) = []" "\<And>k. list_all (available_after (fst a)) (later k)"
  shows "read_facts (\<lambda>k. fold (fact_exec sha) (later k) d) q a = read_facts (\<lambda>_. d) q a"
proof -
  note same = reads_unchanged [OF assms(1,3)]
  have "read_snapshots q (fst a) (fold (fact_exec sha) (later k) d) = read_snapshots q (fst a) d" for k
    by (simp add: read_snapshots_def same)
  moreover have "read_bars q a (fold (fact_exec sha) (later k) d) = read_bars q a d" for k
    by (simp add: read_bars_def Let_def same)
  moreover have "read_observations q a e = Inr []" for e
    by (simp add: read_observations_def assms(2))
  moreover have "read_macro q a (fold (fact_exec sha) (later k) d) = read_macro q a d" for k
    by (simp add: read_macro_def Let_def same)
  moreover have "read_releases q a (fold (fact_exec sha) (later k) d) = read_releases q a d" for k
    by (simp add: read_releases_def Let_def same)
  moreover have "read_news q a (fold (fact_exec sha) (later k) d) = read_news q a d" for k
    by (simp add: read_news_def Let_def same)
  ultimately show ?thesis by (simp add: read_facts_def)
qed

text \<open>C36: While a context without metrics is built, other workers may write facts that become available after its time between any two
  of its reads: the context is the one a database at rest gives, with the same id and fingerprint.\<close>

theorem context_is_point_in_time:
  assumes "cm_metrics (cq_market q) = []" "\<And>k. list_all (available_after (fst (context_time clock q))) (later k)"
  shows "build_context sha dump clock (\<lambda>k. fold (fact_exec sha) (writes @ later k) empty_facts) q
    = build_context sha dump clock (\<lambda>_. fold (fact_exec sha) writes empty_facts) q"
  by (simp add: build_context_def Let_def read_facts_unchanged [OF written_facts_ok [OF empty_facts_ok] assms])

section \<open>What a context holds\<close>

lemma limit_clusters_filter:
  "filter (\<lambda>e. cluster_key e = k) (limit_clusters n c es) = take (n - c k) (filter (\<lambda>e. cluster_key e = k) es)"
  by (induction es arbitrary: c) (auto simp: Let_def take_Cons')

lemma limit_clusters_mem: "e \<in> set (limit_clusters n c es) \<Longrightarrow> e \<in> set es"
  by (induction es arbitrary: c) (auto simp: Let_def split: if_splits)

lemma oldest_mem:
  assumes "v \<in> set (oldest key rank vs)"
  shows "v \<in> set vs"
proof -
  obtain k where k: "k \<in> key ` set vs" "v = hd (sort_key rank (filter (\<lambda>v. key v = k) vs))"
    using assms by (auto simp: oldest_def)
  then have "filter (\<lambda>v. key v = k) vs \<noteq> []" by (auto simp: filter_empty_conv)
  then have "sort_key rank (filter (\<lambda>v. key v = k) vs) \<noteq> []" by (metis length_0_conv length_sort)
  from hd_in_set [OF this] show ?thesis using k(2) by simp
qed

lemma reads_available:
  "b \<in> set (list_bars q d) \<Longrightarrow> mb_available b \<le> br_as_of q"
  "s \<in> set (list_snapshots ids t d) \<Longrightarrow> mk_available s \<le> t"
  "x \<in> set (list_market_observations o' d) \<Longrightarrow> mo_available x \<le> or_as_of o'"
  "y \<in> set (list_macro_observations m d) \<Longrightarrow> ob_available y \<le> mq_as_of m"
  "z \<in> set (list_macro_releases r d) \<Longrightarrow> mr_available z \<le> rq_as_of r"
  "e \<in> set (list_news n d) \<Longrightarrow> ne_available e \<le> nq_as_of n"
  by (auto simp: list_bars_def list_snapshots_def list_market_observations_def list_macro_observations_def list_macro_releases_def
      list_news_def Let_def current_bars_def current_releases_def bars_at_def releases_at_def macro_at_def news_at_def snapshot_of_def
      limit_news_content_def without_superseded_def
      dest!: in_set_takeD newest_mem(1) oldest_mem split: revision_policy.splits content_mode.splits if_splits)

definition all_available :: "instant \<Rightarrow> context_facts \<Rightarrow> bool" where
  "all_available t f \<longleftrightarrow> list_all (\<lambda>x. mk_available x \<le> t) (cf_snapshots f) \<and> list_all (\<lambda>x. mb_available x \<le> t) (cf_bars f)
     \<and> list_all (\<lambda>x. mo_available x \<le> t) (cf_observations f) \<and> list_all (\<lambda>x. ob_available x \<le> t) (cf_macro f)
     \<and> list_all (\<lambda>x. mr_available x \<le> t) (cf_releases f) \<and> list_all (\<lambda>x. ne_available x \<le> t) (cf_news f)"

lemma read_facts_available:
  assumes "read_facts db q a = Inr f"
  shows "all_available (fst a) f"
proof -
  obtain bars obs ms rs es where parts: "read_bars q a (db 1) = Inr bars" "read_observations q a (db 2) = Inr obs"
      "read_macro q a (db 3) = Inr ms" "read_releases q a (db 4) = Inr rs" "read_news q a (db 5) = Inr es"
    and f: "f = \<lparr>cf_snapshots = read_snapshots q (fst a) (db 0), cf_bars = bars, cf_observations = obs, cf_macro = ms, cf_releases = rs, cf_news = es\<rparr>"
    using assms by (auto simp: read_facts_def bindE_eq_Inr)
  have "\<forall>x \<in> set (read_snapshots q (fst a) (db 0)). mk_available x \<le> fst a" by (auto simp: read_snapshots_def dest: reads_available)
  moreover have "\<forall>x \<in> set bars. mb_available x \<le> fst a"
    using parts(1) by (auto simp: read_bars_def Let_def bindE_eq_Inr dest!: reads_available(1) split: if_splits)
  moreover have "\<forall>x \<in> set obs. mo_available x \<le> fst a"
    using parts(2) by (auto simp: read_observations_def Let_def bindE_eq_Inr dest!: reads_available(3) split: if_splits)
  moreover have "\<forall>x \<in> set ms. ob_available x \<le> fst a"
    using parts(3) by (auto simp: read_macro_def Let_def bindE_eq_Inr dest!: reads_available(4) split: if_splits)
  moreover have "\<forall>x \<in> set rs. mr_available x \<le> fst a"
    using parts(4) by (auto simp: read_releases_def Let_def bindE_eq_Inr dest!: reads_available(5))
  moreover have "\<forall>x \<in> set es. ne_available x \<le> fst a"
    using parts(5) by (auto simp: read_news_def Let_def bindE_eq_Inr limit_news_clusters_def dest!: limit_clusters_mem reads_available(6))
  ultimately show ?thesis by (simp add: all_available_def list_all_iff f)
qed

lemma read_facts_clusters:
  assumes "read_facts db q a = Inr f"
  shows "length (filter (\<lambda>e. cluster_key e = k) (cf_news f)) \<le> cn_per_cluster (cq_news q)"
  using assms by (auto simp: read_facts_def read_news_def limit_news_clusters_def Let_def bindE_eq_Inr limit_clusters_filter)

lemma coverage_unavailable: "(\<exists>c \<in> set (coverage rs f). ci_status c = ''unavailable'')
    \<longleftrightarrow> (\<exists>r \<in> set rs. market_records r f = [] \<or> macro_records r f = [] \<or> news_records r f = [])"
  by (auto simp: coverage_def coverage_of_def)

text \<open>C37: A context holds only facts that were available at its time, of every news cluster at most the number asked for, and a context
  that must be complete has market, macro and news facts of each of its regions.\<close>

theorem context_holds_available_facts:
  assumes "build_context sha dump clock db q = Inr b"
  shows "bc_as_of b = fst (context_time clock q) \<and> all_available (bc_as_of b) (bc_facts b)
    \<and> (\<forall>k. length (filter (\<lambda>e. cluster_key e = k) (cf_news (bc_facts b))) \<le> cn_per_cluster (cq_news q))
    \<and> (cq_complete q \<longrightarrow> list_all (\<lambda>r. market_records r (bc_facts b) \<noteq> [] \<and> macro_records r (bc_facts b) \<noteq> []
         \<and> news_records r (bc_facts b) \<noteq> []) (cq_regions q))"
proof -
  obtain f where f: "read_facts db q (context_time clock q) = Inr f"
    using assms by (auto simp: build_context_def Let_def bindE_eq_Inr)
  then have b: "bc_as_of b = fst (context_time clock q)" "bc_facts b = f"
      "\<not> (cq_complete q \<and> (\<exists>c \<in> set (coverage (cq_regions q) f). ci_status c = ''unavailable''))"
    using assms by (auto simp: build_context_def Let_def split: if_splits)
  show ?thesis using b read_facts_available [OF f] read_facts_clusters [OF f] by (auto simp: coverage_unavailable list_all_iff)
qed


section \<open>A request at noon of a day\<close>

definition noon :: instant where
  "noon = 739447 * day_us + 12 * hour_us"

definition context_bar :: market_bar where
  "context_bar = (demo_bar (noon - hour_us) ''a'' ''10'')\<lparr>mb_start := noon - day_us, mb_end := noon - 2 * hour_us\<rparr>"

definition context_release :: macro_release where
  "context_release = (demo_release (noon - hour_us) ''a'' None)\<lparr>mr_at := Some (noon + hour_us)\<rparr>"

definition context_news :: "string \<Rightarrow> news_event" where
  "context_news i = \<lparr>ne_id = i, ne_cluster = Some ''c'', ne_supersedes = None, ne_status = News_active, ne_title = ''t'', ne_summary = None,
     ne_body = None, ne_mode = Snippet, ne_language = ''zh'', ne_tier = ''official'', ne_published = Some (noon - hour_us), ne_pdate = None,
     ne_available = noon - hour_us, ne_regions = [CN], ne_entities = [], ne_topics = [], ne_hash = ''h'', ne_source = demo_source ''n''\<rparr>"

definition context_writes :: "fact_op list" where
  "context_writes = [Put_instrument ''r1'' demo_stored_instrument, Put_series ''r1'' demo_series, Put_bar ''r1'' context_bar,
     Put_release ''r1'' context_release, Put_news ''r1'' (context_news ''n1''), Put_news ''r1'' (context_news ''n2'')]"

definition context_tables :: fact_tables where
  "context_tables = fold (fact_exec (\<lambda>s. ''0'')) context_writes empty_facts"

definition late_write :: fact_op where
  "late_write = Put_bar ''r2'' (context_bar\<lparr>mb_close := ''11'', mb_available := noon + 1, mb_source := demo_source ''b''\<rparr>)"

definition noon_request :: context_request where
  "noon_request = \<lparr>cq_as_of = Some (noon, 8 * hour_us), cq_regions = [CN], cq_preset = ''daily_macro_v1'',
     cq_market = \<lparr>cm_instruments = [''ins_cn_index_sse_composite''], cm_sessions = 5, cm_metrics = []\<rparr>,
     cq_macro = \<lparr>cs_series = [], cs_lookback = 120, cs_upcoming = 7, cs_revisions = Latest_as_of\<rparr>,
     cq_news = \<lparr>cn_hours = 24, cn_topics = [], cn_tiers = [], cn_languages = [], cn_items = 100, cn_per_cluster = 1, cn_mode = Snippet\<rparr>,
     cq_complete = True\<rparr>"

definition context_dump :: context_dumps where
  "context_dump = \<lparr>cd_snapshot = (\<lambda>x. JStr (mk_last x)), cd_bar = (\<lambda>x. JStr (mb_id x)), cd_observation = (\<lambda>x. JStr (mo_id x)),
     cd_macro = (\<lambda>x. JStr (ob_id x)), cd_release = (\<lambda>x. JStr (mr_id x)), cd_news = (\<lambda>x. JStr (ne_id x))\<rparr>"

lemma noon_reads:
  "case read_bars noon_request (noon, 8 * hour_us) context_tables of Inl e \<Rightarrow> False | Inr f \<Rightarrow> map (\<lambda>x. (mb_close x, mb_region x)) f = [(''10'', CN)]"
  "case read_releases noon_request (noon, 8 * hour_us) context_tables of Inl e \<Rightarrow> False | Inr f \<Rightarrow> map mr_region f = [CN]"
  "case read_news noon_request (noon, 8 * hour_us) context_tables of Inl e \<Rightarrow> False | Inr f \<Rightarrow> map (\<lambda>x. (ne_id x, ne_regions x)) f = [(''n1'', [CN])]"
  by code_simp+

lemma noon_context:
  "\<exists>b. build_context (\<lambda>s. ''0'') context_dump int (\<lambda>_. fold (fact_exec (\<lambda>s. ''0'')) context_writes empty_facts) noon_request = Inr b
     \<and> map mb_close (cf_bars (bc_facts b)) = [''10''] \<and> map ne_id (cf_news (bc_facts b)) = [''n1'']"
proof -
  let ?d = context_tables and ?a = "(noon, 8 * hour_us)"
  have a: "context_time int noon_request = ?a" "cq_regions noon_request = [CN]" by (simp_all add: context_time_def noon_request_def)
  obtain bars where bars: "read_bars noon_request ?a ?d = Inr bars" "map (\<lambda>x. (mb_close x, mb_region x)) bars = [(''10'', CN)]"
    using noon_reads(1) by (cases "read_bars noon_request ?a ?d") simp_all
  obtain rs where rs: "read_releases noon_request ?a ?d = Inr rs" "map mr_region rs = [CN]"
    using noon_reads(2) by (cases "read_releases noon_request ?a ?d") simp_all
  obtain es where es: "read_news noon_request ?a ?d = Inr es" "map (\<lambda>x. (ne_id x, ne_regions x)) es = [(''n1'', [CN])]"
    using noon_reads(3) by (cases "read_news noon_request ?a ?d") simp_all
  have "read_observations noon_request ?a ?d = Inr []" "read_macro noon_request ?a ?d = Inr []"
    by (simp_all add: read_observations_def read_macro_def noon_request_def)
  then obtain f where f: "read_facts (\<lambda>_. ?d) noon_request ?a = Inr f" "cf_bars f = bars" "cf_releases f = rs" "cf_news f = es"
    using bars(1) rs(1) es(1) by (simp add: read_facts_def)
  have "market_records CN f \<noteq> [] \<and> macro_records CN f \<noteq> [] \<and> news_records CN f \<noteq> []"
    using f bars(2) rs(2) es(2) by (auto simp: market_records_def macro_records_def news_records_def)
  then have "\<not> (\<exists>c \<in> set (coverage [CN] f). ci_status c = ''unavailable'')" by (simp add: coverage_unavailable)
  moreover have "map mb_close bars = [''10'']" "map ne_id es = [''n1'']" using bars(2) es(2) by auto
  ultimately show ?thesis using f by (simp add: build_context_def a context_tables_def [symmetric] Let_def)
qed

theorem context_is_point_in_time_witness:
  "\<exists>b. build_context (\<lambda>s. ''0'') context_dump int (\<lambda>k. fold (fact_exec (\<lambda>s. ''0'')) (context_writes @ (if k = 0 then [] else [late_write])) empty_facts)
       noon_request = Inr b \<and> map mb_close (cf_bars (bc_facts b)) = [''10'']"
proof -
  have metrics: "cm_metrics (cq_market noon_request) = []" by (simp add: noon_request_def)
  have late: "list_all (available_after (fst (context_time int noon_request))) (if k = 0 then [] else [late_write])" for k :: nat
    by (simp add: context_time_def noon_request_def late_write_def)
  show ?thesis unfolding context_is_point_in_time [OF metrics late] by (rule ex_forward [OF noon_context], elim conjE, intro conjI)
qed

theorem context_holds_available_facts_witness:
  "\<exists>b. build_context (\<lambda>s. ''0'') context_dump int (\<lambda>_. fold (fact_exec (\<lambda>s. ''0'')) context_writes empty_facts) noon_request = Inr b
     \<and> all_available noon (bc_facts b) \<and> news_records CN (bc_facts b) \<noteq> [] \<and> length (cf_news (bc_facts b)) = 1"
proof -
  obtain b where b: "build_context (\<lambda>s. ''0'') context_dump int (\<lambda>_. fold (fact_exec (\<lambda>s. ''0'')) context_writes empty_facts) noon_request = Inr b"
      "map ne_id (cf_news (bc_facts b)) = [''n1'']"
    by (rule exE [OF noon_context], elim conjE, rule that)
  have "length (cf_news (bc_facts b)) = 1" using arg_cong [OF b(2), of length] by simp
  moreover have q: "cq_complete noon_request" "cq_regions noon_request = [CN]" "fst (context_time int noon_request) = noon"
    by (simp_all add: noon_request_def context_time_def)
  have "all_available noon (bc_facts b) \<and> news_records CN (bc_facts b) \<noteq> []"
    using context_holds_available_facts [OF b(1)] by (simp add: q) (elim conjE, simp)
  ultimately show ?thesis using b(1) by (intro exI [of _ b] conjI) simp_all
qed

end
