(* ===== verification/Spec2Isabelle.thy ===== *)
theory Spec2Isabelle
  imports Workflow_Operations Us_Normalization Editor_Context
begin

text \<open>
  A model of the macro data platform (\<open>src/macro_platform\<close>; paths below are relative to it): the worker that collects market,
  macro and news facts for mainland China, Hong Kong and the US, freezes them into the input of a daily report at a cutoff, has the
  report written by a language model, checks it claim by claim against that input, and posts it to a Feishu chat at most once.

  The way of one report date, which is also the order of the theories:

  \<^enum> The scheduler (\<open>jobs/scheduled_runtime.py\<close>: \<open>Schedule_Loop\<close>, \<open>Scheduled_Runtime\<close>) reads the settings
    (\<open>config.py\<close>: \<open>Platform_Settings\<close>), builds the providers and their roles (\<open>providers/registry.py\<close> and the factories:
    \<open>Provider_Registry\<close>), and runs the worker once a day with bounded retries of a date.
  \<^enum> The worker (\<open>jobs/scheduled_worker.py\<close>: \<open>Scheduled_Worker\<close>) runs every task of the date under an exclusive lock. A
    task (\<open>jobs/scheduled_tasks.py\<close>: \<open>Scheduled_Tasks\<close>) runs page after page from a durable checkpoint; a page is an
    ingestion run under a lease (\<open>jobs/runner.py\<close>: \<open>Ingestion_Runs\<close>, \<open>Job_Runner\<close>) whose handler
    (\<open>jobs/cn_baostock_ingestion.py\<close> and its siblings: \<open>Ingest_Handlers\<close>) fetches from a provider and commits the records
    with fingerprint, watermark and audit (\<open>jobs/ingestion_checkpoint.py\<close>: \<open>Ingestion_Checkpoint\<close>).
  \<^enum> The facts are rows with revisions (\<open>storage/repositories.py\<close>, \<open>storage/models.py\<close>: \<open>Fact_Tables\<close>,
    \<open>Fact_Reads\<close>, \<open>Fact_History\<close>); symbols, aliases and trading days are normalized by \<open>normalization/\<close>
    (\<open>Symbol_Normalization\<close>, \<open>Us_Normalization\<close>).
  \<^enum> After the cutoff the materializer (\<open>services/report_input_materializer.py\<close>: \<open>Input_Materializer\<close>) collects the
    evidence of every input (\<open>services/report_input_evidence*.py\<close>: \<open>Input_Queries\<close>, \<open>Input_Evidence\<close>), applies the day
    policy (\<open>services/report_day_policy.py\<close>: \<open>Report_Day_Policy\<close>), excludes late facts and stores a snapshot that the quality
    gate (\<open>services/report_input_quality.py\<close>: \<open>Quality_Gate\<close>) judges.
  \<^enum> The daily workflow (\<open>services/daily_workflow.py\<close>: \<open>Daily_Workflow\<close>) generates the report
    (\<open>services/report_generator.py\<close>: \<open>Report_Generation\<close>), validates it (\<open>services/report_validation.py\<close>,
    \<open>contracts/report.py\<close>: \<open>Report_Validation\<close>), delivers it (\<open>services/report_delivery.py\<close>: \<open>Feishu_Transport\<close>,
    \<open>Report_Store\<close>, \<open>Delivery_Ops\<close>, \<open>Report_Delivery\<close>) or raises an alert (\<open>services/workflow_alerts.py\<close>:
    \<open>Workflow_Alerts\<close>). An operator can recover a delivery (\<open>services/delivery_recovery.py\<close>: \<open>Delivery_Recovery\<close>).
    \<open>Report_Pipeline\<close> puts these services on one database, as \<open>run_scheduler\<close> does.
  \<^enum> Beside the pipeline, the context of the editor is built from the facts of the requested regions
    (\<open>services/editor_context_service.py\<close>: \<open>Editor_Context\<close>), and the overview of a date and the readiness of the worker are read
    from the tables and the settings (\<open>services/workflow_operations.py\<close>: \<open>Workflow_Operations\<close>).

  How the code is rendered. A dataclass, a contract or a table row is a record whose fields carry a short prefix of its name, an
  enumeration a datatype, a table the list of its rows, a JSON document a \<open>json\<close> tree, a text the bytes of its UTF-8 encoding, a date
  its ordinal, an instant a number of microseconds. Python's integers do not overflow, so they are \<open>int\<close>; the ranges the database and
  the settings impose are checks of the model (\<open>int4_fits\<close>, \<open>column_fits\<close>). A function that can raise returns a sum with the
  exception on the left. A method that awaits or mutates is an action \<open>('w, 'a) act\<close> on a world: it returns the new world and a result
  or an exception, so what has happened before an exception stays visible. A transaction is an action that restores the tables when it
  raises. A loop that need not end (\<open>repeatA\<close>) has the value \<open>None\<close> when it does not, and every statement about the result of such a
  loop is accompanied by one that it returns, from a measure: the schedule when the number of its runs is limited, a task when the cursors
  of its source run out; the loops of the delivery, of the attempts and of the generation are
  bounded by the configured numbers of attempts, which the recursion counts. No other fuel is used.

  Concurrency. Statements of the database are atomic. Where the code awaits between two statements, the model lets other workers change
  the tables there: a parameter gives what they do before statement \<open>k\<close> (\<open>dx_env\<close>, \<open>ax_env\<close>, \<open>rx_env\<close>), or the statements of
  any number of workers are the steps of a machine that runs them in any order (\<open>grant_machine\<close>, interpreted for delivery
  attempts, alerts, runs and task checkpoints).

  What is shown.

  \<^item> \<^emph>\<open>Statements of one table\<close> (\<open>Table_Store\<close>, \<open>Attempt_Store\<close>, \<open>Delivery_Ops\<close>, \<open>Ingestion_Runs\<close>, \<open>Scheduled_Tasks\<close>):
    under every interleaving an attempt number is granted once, a settled row stays settled, a superseded owner changes nothing.
  \<^item> \<^emph>\<open>Sending\<close> (\<open>Feishu_Transport\<close>, \<open>Attempt_Loop\<close>, \<open>Report_Delivery\<close>, \<open>Workflow_Alerts\<close>): only rejected sends are
    repeated, what is stored is redacted, an outcome that is not known waits for the operator.
  \<^item> \<^emph>\<open>Ingestion\<close> (\<open>Job_Runner\<close>, \<open>Ingestion_Checkpoint\<close>, \<open>Ingest_Handlers\<close>): a page is committed at most once and refines a
    ledger of pages; an owner that renews its lease in time keeps its run, and a failed run is released by the worker that holds it.
  \<^item> \<^emph>\<open>Facts and evidence\<close> (\<open>Fact_History\<close>, \<open>Input_Evidence\<close>, \<open>Input_Materializer\<close>): what a snapshot holds does not depend on
    facts that became available after the cutoff; the gate opens exactly on usable evidence; an open gate has complete, current, fresh
    market facts.
  \<^item> \<^emph>\<open>Reports\<close> (\<open>Report_Validation\<close>, \<open>Report_Generation\<close>, \<open>Daily_Workflow\<close>, \<open>Report_Pipeline\<close>): prompts leave out restricted
    fields, published text is that of approved facts, a date is posted at most as often as allowed and accepted once, and every outcome
    that is not a publication ends in an alert.
  \<^item> \<^emph>\<open>Schedule and start\<close> (\<open>Scheduled_Worker\<close>, \<open>Schedule_Loop\<close>, \<open>Scheduled_Runtime\<close>, \<open>Provider_Registry\<close>): the status of a
    date is its worst outcome, retries follow the policy, a misconfigured production scheduler runs nothing.
  \<^item> \<^emph>\<open>Reading\<close> (\<open>Editor_Context\<close>, \<open>Workflow_Operations\<close>): a context is point in time while later facts are written and holds only
    available facts; the overview of a date does not depend on what it must not show, and its status is that of the last change; a ready
    worker can build its workflow but for blank settings.
  \<^item> \<^emph>\<open>Normalization\<close>: canonical symbols are fixed points, aliases resolve uniquely, calendars follow the rules of the exchange.

  Parameters, for code outside the repository: SHA-256 and \<open>uuid4\<close>, the timezone database (a zone, of which only the laws named in the
  statements are used), \<open>exchange_calendars\<close> (a table of sessions), pydantic's reading of fields and the texts of its errors
  (\<open>report_contract\<close>), \<open>datetime.fromisoformat\<close>, the order in which Python visits a set, the HTTP service of Feishu, the language
  model, the fetch of a provider, clocks and sleepers.

  Not modelled, and why. The HTTP API (\<open>api/\<close>) and the market, macro and news services behind it pass queries on to the reads in
  \<open>Fact_Reads\<close>. The clients of the data vendors (\<open>providers/*/baostock.py\<close>, \<open>xtquant.py\<close>, \<open>twelve_data.py\<close>,
  \<open>live.py\<close>, \<open>release_calendar.py\<close>) parse the answers of third-party services and pages; their constructors and capabilities are
  in \<open>Provider_Registry\<close>, their fetches are parameters. The fixture providers (\<open>fixture.py\<close>, \<open>_regional_fixture.py\<close>) replay
  files. \<open>FeishuCardRenderer\<close> lays out a card; the model takes the rendered card. Also left out: the normalization of units and
  of the texts of news, sessions and engines of SQLAlchemy (\<open>storage/database.py\<close>, \<open>unit_of_work.py\<close>), logging and metrics, the
  monitors and the command line.
\<close>

end
